(* ===== verification/Jarvis_Prelude.thy ===== *)
theory Jarvis_Prelude
  imports Main "HOL-Library.Word"
begin

text \<open>
  Shared vocabulary of the development: Rust results and strings as HOL values, the pieces of
  the Rust standard library the modelled crates call (\<open>chars\<close>, \<open>len\<close>, \<open>trim\<close>,
  \<open>split_once\<close>, checked and saturating arithmetic), and the locales that state the interfaces
  several components share:
  \<^item> \<open>wire_vocabulary\<close>: a closed enum with a stable spelling and its parser;
  \<^item> \<open>severity_scale\<close>: an enum with a numeric level and the \<open>max\<close> over it;
  \<^item> \<open>lifecycle\<close>: a transition table with terminal states;
  \<^item> \<open>lapsing_authority\<close>: a permission that is valid until an instant;
  \<^item> \<open>forward_simulation\<close>: a step relation that implements an abstract one under an invariant.
\<close>

named_theorems wire_simps \<open>spellings and parsers of the closed vocabularies\<close>
named_theorems level_simps \<open>numeric levels of the ordered vocabularies\<close>
named_theorems char_simps \<open>character classes of the Rust standard library\<close>

section \<open>Results\<close>

type_synonym ('e, 'a) result = "'e + 'a"

abbreviation Ok :: "'a \<Rightarrow> 'e + 'a" where "Ok \<equiv> Inr"

abbreviation Err :: "'e \<Rightarrow> 'e + 'a" where "Err \<equiv> Inl"

text \<open>The \<open>?\<close> operator: the error returns early, the value goes on.\<close>

definition and_then :: "'e + 'a \<Rightarrow> ('a \<Rightarrow> 'e + 'b) \<Rightarrow> 'e + 'b" where
  "and_then r f = (case r of Inl e \<Rightarrow> Inl e | Inr a \<Rightarrow> f a)"

definition map_err :: "('e \<Rightarrow> 'f) \<Rightarrow> 'e + 'a \<Rightarrow> 'f + 'a" where
  "map_err g r = (case r of Inl e \<Rightarrow> Inl (g e) | Inr a \<Rightarrow> Inr a)"

definition map_ok :: "('a \<Rightarrow> 'b) \<Rightarrow> 'e + 'a \<Rightarrow> 'e + 'b" where
  "map_ok g r = (case r of Inl e \<Rightarrow> Inl e | Inr a \<Rightarrow> Inr (g a))"

definition ok_or :: "'a option \<Rightarrow> 'e \<Rightarrow> 'e + 'a" where
  "ok_or x e = (case x of None \<Rightarrow> Inl e | Some a \<Rightarrow> Inr a)"

definition is_ok :: "'e + 'a \<Rightarrow> bool" where
  "is_ok r = (case r of Inl _ \<Rightarrow> False | Inr _ \<Rightarrow> True)"

text \<open>\<open>guard c e\<close> is \<open>if c { return Err(e) }\<close>.\<close>

definition guard :: "bool \<Rightarrow> 'e \<Rightarrow> 'e + unit" where
  "guard c e = (if c then Inl e else Inr ())"

text \<open>\<open>iter().map(f).collect()\<close> into a \<open>Result\<close>: the first error ends it.\<close>

fun collect_results :: "('a \<Rightarrow> 'e + 'b) \<Rightarrow> 'a list \<Rightarrow> 'e + 'b list" where
  "collect_results f [] = Ok []"
| "collect_results f (x # xs) = and_then (f x) (\<lambda>y. map_ok ((#) y) (collect_results f xs))"

section \<open>Strings\<close>

text \<open>
  A Rust \<open>char\<close> is a Unicode scalar value and a \<open>str\<close> a sequence of them, stored as UTF-8.
  The model keeps the scalar values, so \<open>chars().count()\<close> is the list's length and the byte
  length \<open>len()\<close> is the sum of the UTF-8 widths. ASCII literals are written \<open>lit ''abc''\<close>.
\<close>

type_synonym uchar = nat
type_synonym rstr = "uchar list"

definition lit :: "string \<Rightarrow> rstr" where
  "lit s = map of_char s"

definition utf8_width :: "uchar \<Rightarrow> nat" where
  "utf8_width c = (if c < 0x80 then 1 else if c < 0x800 then 2 else if c < 0x10000 then 3 else 4)"

definition str_len :: "rstr \<Rightarrow> nat" where
  "str_len s = sum_list (map utf8_width s)"

definition is_ascii :: "uchar \<Rightarrow> bool" where
  "is_ascii c \<longleftrightarrow> c < 0x80"

definition is_ascii_lowercase :: "uchar \<Rightarrow> bool" where
  "is_ascii_lowercase c \<longleftrightarrow> 97 \<le> c \<and> c \<le> 122"

definition is_ascii_uppercase :: "uchar \<Rightarrow> bool" where
  "is_ascii_uppercase c \<longleftrightarrow> 65 \<le> c \<and> c \<le> 90"

definition is_ascii_digit :: "uchar \<Rightarrow> bool" where
  "is_ascii_digit c \<longleftrightarrow> 48 \<le> c \<and> c \<le> 57"

definition is_ascii_alphanumeric :: "uchar \<Rightarrow> bool" where
  "is_ascii_alphanumeric c \<longleftrightarrow> is_ascii_lowercase c \<or> is_ascii_uppercase c \<or> is_ascii_digit c"

definition is_ascii_hexdigit :: "uchar \<Rightarrow> bool" where
  "is_ascii_hexdigit c \<longleftrightarrow> is_ascii_digit c \<or> (65 \<le> c \<and> c \<le> 70) \<or> (97 \<le> c \<and> c \<le> 102)"

definition to_ascii_lowercase :: "uchar \<Rightarrow> uchar" where
  "to_ascii_lowercase c = (if is_ascii_uppercase c then c + 32 else c)"

definition to_ascii_uppercase :: "uchar \<Rightarrow> uchar" where
  "to_ascii_uppercase c = (if is_ascii_lowercase c then c - 32 else c)"

text \<open>\<open>char::is_control\<close>: the general category Cc.\<close>

definition is_control :: "uchar \<Rightarrow> bool" where
  "is_control c \<longleftrightarrow> c < 0x20 \<or> (0x7f \<le> c \<and> c \<le> 0x9f)"

text \<open>\<open>char::is_whitespace\<close>: the property \<open>White_Space\<close>.\<close>

definition is_whitespace :: "uchar \<Rightarrow> bool" where
  "is_whitespace c \<longleftrightarrow> (9 \<le> c \<and> c \<le> 13) \<or> c = 0x20 \<or> c = 0x85 \<or> c = 0xa0 \<or> c = 0x1680
     \<or> (0x2000 \<le> c \<and> c \<le> 0x200a) \<or> c = 0x2028 \<or> c = 0x2029 \<or> c = 0x202f \<or> c = 0x205f
     \<or> c = 0x3000"

definition trim :: "rstr \<Rightarrow> rstr" where
  "trim s = rev (dropWhile is_whitespace (rev (dropWhile is_whitespace s)))"

text \<open>\<open>str::split_once\<close> cuts at the first occurrence of a character, \<open>rsplit_once\<close> at the last.\<close>

fun split_once :: "uchar \<Rightarrow> rstr \<Rightarrow> (rstr \<times> rstr) option" where
  "split_once d [] = None"
| "split_once d (c # s) =
     (if c = d then Some ([], s)
      else map_option (\<lambda>(a, b). (c # a, b)) (split_once d s))"

definition rsplit_once :: "uchar \<Rightarrow> rstr \<Rightarrow> (rstr \<times> rstr) option" where
  "rsplit_once d s = map_option (\<lambda>(a, b). (rev b, rev a)) (split_once d (rev s))"

text \<open>\<open>str::split(d)\<close>: the pieces between the separators, at least one.\<close>

fun split_on :: "uchar \<Rightarrow> rstr \<Rightarrow> rstr list" where
  "split_on d [] = [[]]"
| "split_on d (c # s) =
     (if c = d then [] # split_on d s
      else (case split_on d s of [] \<Rightarrow> [[c]] | p # ps \<Rightarrow> (c # p) # ps))"

text \<open>\<open>str::contains\<close> for a substring.\<close>

fun has_prefix :: "rstr \<Rightarrow> rstr \<Rightarrow> bool" where
  "has_prefix [] s = True"
| "has_prefix (p # ps) [] = False"
| "has_prefix (p # ps) (c # s) = (p = c \<and> has_prefix ps s)"

fun contains_sub :: "rstr \<Rightarrow> rstr \<Rightarrow> bool" where
  "contains_sub p [] = (p = [])"
| "contains_sub p (c # s) = (has_prefix p (c # s) \<or> contains_sub p s)"

text \<open>Decimal digits read as a number: what \<open>str::parse\<close> computes before its range check.\<close>

definition digits_value :: "rstr \<Rightarrow> nat" where
  "digits_value s = foldl (\<lambda>n c. 10 * n + (c - 48)) 0 s"

section \<open>Lemmas on results\<close>

lemma and_then_simps [simp]:
  "and_then (Inl e) f = Inl e" "and_then (Inr a) f = f a"
  by (simp_all add: and_then_def)

lemma and_then_eq_Inr [simp]:
  "and_then r f = Inr b \<longleftrightarrow> (\<exists>a. r = Inr a \<and> f a = Inr b)"
  by (cases r) simp_all

lemma and_then_eq_Inl:
  "and_then r f = Inl e \<longleftrightarrow> r = Inl e \<or> (\<exists>a. r = Inr a \<and> f a = Inl e)"
  by (cases r) simp_all

lemma map_err_simps [simp]:
  "map_err g (Inl e) = Inl (g e)" "map_err g (Inr a) = Inr a"
  "map_err g r = Inr a \<longleftrightarrow> r = Inr a"
  by (simp_all add: map_err_def split: sum.splits)

lemma map_ok_simps [simp]:
  "map_ok g (Inl e) = Inl e" "map_ok g (Inr a) = Inr (g a)"
  "map_ok g r = Inr b \<longleftrightarrow> (\<exists>a. r = Inr a \<and> b = g a)"
  "map_ok g r = Inl e \<longleftrightarrow> r = Inl e"
  by (cases r; auto simp: map_ok_def)+

lemma ok_or_simps [simp]:
  "ok_or None e = Inl e" "ok_or (Some a) e = Inr a"
  "ok_or x e = Inr a \<longleftrightarrow> x = Some a"
  "ok_or x e = Inl e' \<longleftrightarrow> x = None \<and> e' = e"
  by (auto simp: ok_or_def split: option.splits)

lemma is_ok_simps [simp]: "is_ok (Inl e) = False" "is_ok (Inr a) = True"
  by (simp_all add: is_ok_def)

lemma is_ok_iff: "is_ok r \<longleftrightarrow> (\<exists>a. r = Inr a)"
  by (cases r) simp_all

lemma guard_simps [simp]:
  "guard c e = Inr u \<longleftrightarrow> \<not> c" "guard c e = Inl e' \<longleftrightarrow> c \<and> e' = e"
  by (auto simp: guard_def)

section \<open>Lemmas on strings\<close>

lemmas char_class_defs =
  is_ascii_def is_ascii_lowercase_def is_ascii_uppercase_def is_ascii_digit_def
  is_ascii_alphanumeric_def is_ascii_hexdigit_def is_control_def is_whitespace_def

lemma lit_eq_iff [simp]: "lit a = lit b \<longleftrightarrow> a = b"
proof -
  have "inj (of_char :: char \<Rightarrow> nat)" by (rule inj_of_char)
  then show ?thesis by (simp add: lit_def inj_map_eq_map)
qed

lemma lit_eq_Nil [simp]: "lit s = [] \<longleftrightarrow> s = []" "[] = lit s \<longleftrightarrow> s = []"
  by (auto simp: lit_def)

lemma length_lit [simp]: "length (lit s) = length s"
  by (simp add: lit_def)

lemma str_len_simps [simp]:
  "str_len [] = 0" "str_len (c # s) = utf8_width c + str_len s"
  "str_len (s @ t) = str_len s + str_len t"
  by (simp_all add: str_len_def)

lemma utf8_width_bounds: "1 \<le> utf8_width c" "utf8_width c \<le> 4"
  by (simp_all add: utf8_width_def)

lemma length_le_str_len: "length s \<le> str_len s"
proof (induction s)
  case (Cons c s)
  then show ?case using utf8_width_bounds(1) [of c] by simp
qed simp

lemma str_len_ascii: "\<forall>c \<in> set s. is_ascii c \<Longrightarrow> str_len s = length s"
  by (induction s) (auto simp: is_ascii_def utf8_width_def)

lemma str_len_eq_0 [simp]: "str_len s = 0 \<longleftrightarrow> s = []"
  using length_le_str_len [of s] by auto

lemma set_dropWhile_subset: "set (dropWhile P s) \<subseteq> set s"
  by (auto dest: set_dropWhileD)

lemma set_trim: "set (trim s) \<subseteq> set s"
proof -
  have "set (trim s) \<subseteq> set (dropWhile is_whitespace s)"
    using set_dropWhile_subset [of is_whitespace "rev (dropWhile is_whitespace s)"]
    by (simp add: trim_def)
  with set_dropWhile_subset [of is_whitespace s] show ?thesis by blast
qed

lemma length_trim_le: "length (trim s) \<le> length s"
proof -
  have "length (trim s) \<le> length (dropWhile is_whitespace s)"
    using length_dropWhile_le [of is_whitespace "rev (dropWhile is_whitespace s)"]
    by (simp add: trim_def)
  also have "\<dots> \<le> length s" by (rule length_dropWhile_le)
  finally show ?thesis .
qed

lemma trim_eq_Nil: "trim s = [] \<longleftrightarrow> (\<forall>c \<in> set s. is_whitespace c)"
proof -
  have "trim s = [] \<longleftrightarrow> (\<forall>c \<in> set (dropWhile is_whitespace s). is_whitespace c)"
    by (simp add: trim_def)
  also have "\<dots> \<longleftrightarrow> dropWhile is_whitespace s = []"
    by (metis dropWhile_eq_Nil_conv dropWhile_idem)
  also have "\<dots> \<longleftrightarrow> (\<forall>c \<in> set s. is_whitespace c)" by (rule dropWhile_eq_Nil_conv)
  finally show ?thesis .
qed

lemma dropWhile_stop: "(s = [] \<or> \<not> P (hd s)) \<Longrightarrow> dropWhile P s = s"
  by (cases s) auto

lemma trim_id:
  assumes "s = [] \<or> (\<not> is_whitespace (hd s) \<and> \<not> is_whitespace (last s))"
  shows "trim s = s"
proof -
  have "dropWhile is_whitespace s = s"
    using assms by (intro dropWhile_stop) blast
  moreover have "dropWhile is_whitespace (rev s) = rev s"
    using assms by (intro dropWhile_stop) (auto simp: hd_rev simp del: dropWhile_eq_Nil_conv)
  ultimately show ?thesis by (simp only: trim_def rev_rev_ident)
qed

lemma trim_ends:
  assumes "trim s \<noteq> []"
  shows "\<not> is_whitespace (hd (trim s))" "\<not> is_whitespace (last (trim s))"
proof -
  let ?d = "dropWhile is_whitespace s"
  let ?r = "dropWhile is_whitespace (rev ?d)"
  from assms have r: "?r \<noteq> []" by (simp add: trim_def)
  then have "\<not> is_whitespace (hd ?r)" by (rule hd_dropWhile)
  then show "\<not> is_whitespace (last (trim s))" using r by (simp add: trim_def last_rev)
  from r have d: "?d \<noteq> []" by (metis dropWhile.simps(1) rev.simps(1))
  obtain ws where "rev ?d = ws @ ?r" by (metis takeWhile_dropWhile_id)
  then have "?d = rev ?r @ rev ws" by (metis rev_append rev_rev_ident)
  then have "hd (rev ?r) = hd ?d" using r by (metis hd_append2 rev_is_Nil_conv)
  then show "\<not> is_whitespace (hd (trim s))" using hd_dropWhile [OF d] by (simp add: trim_def)
qed

lemma trim_Nil [simp]: "trim [] = []"
  by (simp add: trim_def)

lemma trim_trim [simp]: "trim (trim s) = trim s"
proof (cases "trim s = []")
  case False
  then show ?thesis using trim_ends [of s] by (intro trim_id) simp
next
  case True
  then have "trim (trim s) = trim []" by (rule arg_cong)
  also have "\<dots> = []" by (simp add: trim_def)
  finally show ?thesis using True by simp
qed

lemma split_once_Some:
  "split_once d s = Some (a, b) \<longleftrightarrow> s = a @ d # b \<and> d \<notin> set a"
proof (induction s arbitrary: a)
  case (Cons c s)
  show ?case
  proof (cases "c = d")
    case True
    then show ?thesis by (cases a) auto
  next
    case False
    then show ?thesis by (cases a) (auto simp: Cons.IH)
  qed
qed simp

lemma split_once_None: "split_once d s = None \<longleftrightarrow> d \<notin> set s"
  by (induction s) auto

lemma rsplit_once_Some:
  "rsplit_once d s = Some (a, b) \<longleftrightarrow> s = a @ d # b \<and> d \<notin> set b"
proof -
  have "rsplit_once d s = Some (a, b) \<longleftrightarrow> split_once d (rev s) = Some (rev b, rev a)"
    unfolding rsplit_once_def
    by (cases "split_once d (rev s)") (auto simp: rev_swap)
  also have "\<dots> \<longleftrightarrow> s = a @ d # b \<and> d \<notin> set b"
    by (simp add: split_once_Some rev_swap)
  finally show ?thesis .
qed

lemma rsplit_once_None: "rsplit_once d s = None \<longleftrightarrow> d \<notin> set s"
  by (simp add: rsplit_once_def split_once_None)

lemma has_prefix_iff: "has_prefix p s \<longleftrightarrow> (\<exists>t. s = p @ t)"
  by (induction p s rule: has_prefix.induct) auto

lemma contains_sub_iff: "contains_sub p s \<longleftrightarrow> (\<exists>a b. s = a @ p @ b)"
proof (induction s)
  case (Cons c s)
  have "(\<exists>a b. c # s = a @ p @ b) \<longleftrightarrow> (\<exists>b. c # s = p @ b) \<or> (\<exists>a b. s = a @ p @ b)"
    by (metis append_Cons append_Nil append_eq_Cons_conv)
  then show ?case by (simp add: Cons.IH has_prefix_iff)
qed auto

section \<open>Lemmas on lists\<close>

lemma find_SomeD: "find P xs = Some x \<Longrightarrow> x \<in> set xs \<and> P x"
  by (induction xs) (auto split: if_splits)

lemma find_append: "find P (xs @ ys) = (case find P xs of None \<Rightarrow> find P ys | Some x \<Rightarrow> Some x)"
  by (induction xs) auto

lemma find_none: "(\<forall>r \<in> set rows. \<not> P r) \<Longrightarrow> find P rows = None"
  by (induction rows) auto

section \<open>Interfaces\<close>

subsection \<open>Closed vocabularies with a stable spelling\<close>

locale wire_vocabulary =
  fixes spell :: "'a \<Rightarrow> rstr"
    and parse :: "rstr \<Rightarrow> 'e + 'a"
    and members :: "'a list"
  assumes parse_spell: "parse (spell x) = Inr x"
    and parse_sound: "parse s = Inr x \<Longrightarrow> s = spell x"
    and members_all: "x \<in> set members"
begin

lemma spell_inj: "spell x = spell y \<longleftrightarrow> x = y"
  by (metis parse_spell sum.inject(2))

lemma parse_iff: "parse s = Inr x \<longleftrightarrow> s = spell x"
  by (metis parse_sound parse_spell)

lemma parse_rejects: "is_ok (parse s) \<longleftrightarrow> s \<in> spell ` set members"
  using members_all by (auto simp: is_ok_iff parse_iff)

text \<open>A vocabulary stays readable through a store that keeps the spelling.\<close>

lemma parse_inj: "parse s = Inr x \<Longrightarrow> parse t = Inr x \<Longrightarrow> s = t"
  by (simp add: parse_iff)

end

subsection \<open>Ordered vocabularies\<close>

locale severity_scale =
  fixes level :: "'a \<Rightarrow> nat"
    and join :: "'a \<Rightarrow> 'a \<Rightarrow> 'a"
  assumes level_inj: "level x = level y \<Longrightarrow> x = y"
    and join_def': "join x y = (if level x \<ge> level y then x else y)"
begin

lemma level_join: "level (join x y) = max (level x) (level y)"
  by (simp add: join_def')

lemma join_upper: "level x \<le> level (join x y)" "level y \<le> level (join x y)"
  by (simp_all add: level_join)

lemma join_least: "level x \<le> n \<Longrightarrow> level y \<le> n \<Longrightarrow> level (join x y) \<le> n"
  by (simp add: level_join)

lemma join_commute: "join x y = join y x"
  by (rule level_inj) (simp add: level_join max.commute)

lemma join_assoc: "join (join x y) z = join x (join y z)"
  by (rule level_inj) (simp add: level_join max.assoc)

lemma join_idem: "join x x = x"
  by (simp add: join_def')

end

subsection \<open>Lifecycles\<close>

locale lifecycle =
  fixes edge :: "'s \<Rightarrow> 's \<Rightarrow> bool"
    and terminal :: "'s \<Rightarrow> bool"
  assumes terminal_stuck: "terminal s \<Longrightarrow> \<not> edge s t"
    and settles: "\<not> terminal s \<Longrightarrow> \<exists>t. edge s t \<and> terminal t"
begin

lemma terminal_absorbing: "edge\<^sup>*\<^sup>* s t \<Longrightarrow> terminal s \<Longrightarrow> t = s"
  by (induction rule: rtranclp_induct) (auto dest: terminal_stuck)

lemma always_settles: "\<exists>u. edge\<^sup>*\<^sup>* s u \<and> terminal u"
  using settles by blast

lemma stuck_iff_terminal: "(\<forall>t. \<not> edge s t) \<longleftrightarrow> terminal s"
  using terminal_stuck settles by blast

end

subsection \<open>Authority that lapses\<close>

locale lapsing_authority =
  fixes holds_at :: "'r \<Rightarrow> int \<Rightarrow> bool"
    and expiry :: "'r \<Rightarrow> int option"
  assumes lapses: "expiry r = Some e \<Longrightarrow> e \<le> t \<Longrightarrow> \<not> holds_at r t"
    and steady: "(\<forall>e. expiry r = Some e \<longrightarrow> t < e) \<Longrightarrow> (\<forall>e. expiry r = Some e \<longrightarrow> u < e)
      \<Longrightarrow> holds_at r t = holds_at r u"
begin

lemma holds_before: "holds_at r t \<Longrightarrow> u \<le> t \<Longrightarrow> holds_at r u"
  using lapses [of r _ t] steady [of r t u] by fastforce

lemma never_returns: "\<not> holds_at r t \<Longrightarrow> t \<le> u \<Longrightarrow> \<not> holds_at r u"
  using holds_before by blast

end

subsection \<open>Refinement\<close>

locale forward_simulation =
  fixes step :: "'s \<Rightarrow> 's \<Rightarrow> bool"
    and spec :: "'a \<Rightarrow> 'a \<Rightarrow> bool"
    and abst :: "'s \<Rightarrow> 'a"
    and inv :: "'s \<Rightarrow> bool"
  assumes keeps: "inv s \<Longrightarrow> step s s' \<Longrightarrow> inv s'"
    and simulates: "inv s \<Longrightarrow> step s s' \<Longrightarrow> spec\<^sup>*\<^sup>* (abst s) (abst s')"
begin

lemma keeps_all: "step\<^sup>*\<^sup>* s s' \<Longrightarrow> inv s \<Longrightarrow> inv s'"
  by (induction rule: rtranclp_induct) (auto intro: keeps)

lemma simulates_all: "step\<^sup>*\<^sup>* s s' \<Longrightarrow> inv s \<Longrightarrow> spec\<^sup>*\<^sup>* (abst s) (abst s')"
proof (induction rule: rtranclp_induct)
  case (step y z)
  with keeps_all [of s y] have "inv y" by blast
  with step simulates [of y z] show ?case by (meson rtranclp_trans)
qed simp

text \<open>A property the abstract steps keep holds of the abstraction in every reachable state.\<close>

lemma transfers:
  assumes "step\<^sup>*\<^sup>* s s'" "inv s" "P (abst s)" "\<And>a a'. spec a a' \<Longrightarrow> P a \<Longrightarrow> P a'"
  shows "P (abst s')"
  using simulates_all [OF assms(1,2)] assms(3,4) by (induction rule: rtranclp_induct) auto

end

end
