(* ===== verification/Run_Machine.thy ===== *)
theory Run_Machine
  imports Jarvis_Prelude
begin

text \<open>
  The lifecycle of one agent run (\<open>jarvis-core/src/run.rs\<close>) and the vocabulary of its event
  stream (\<open>run_event.rs\<close>): states, outcomes, the transition table, the validated transition
  request and the check it makes against the state a caller believes is stored; event kinds,
  one-based sequence numbers kept at 32 bits, bounded summaries, payloads and replay requests.
\<close>

section \<open>Failure codes\<close>

datatype InvalidRunErrorCode = CodeEmpty | CodeTooLong | CodeNotPortable

definition MAX_RUN_ERROR_CODE_CHARS :: nat where
  "MAX_RUN_ERROR_CODE_CHARS = 64"

definition portable_code_char :: "uchar \<Rightarrow> bool" where
  "portable_code_char c \<longleftrightarrow> is_ascii_lowercase c \<or> is_ascii_digit c \<or> c = 95 \<or> c = 45 \<or> c = 46"

definition RunErrorCode_new :: "rstr \<Rightarrow> InvalidRunErrorCode + rstr" where
  "RunErrorCode_new s =
     (if s = [] then Err CodeEmpty
      else if length s > MAX_RUN_ERROR_CODE_CHARS then Err CodeTooLong
      else if list_all portable_code_char s then Ok s
      else Err CodeNotPortable)"

section \<open>Event kinds\<close>

datatype RunEventKind = StateChanged | ActivityUpdated | OutputDelta | OutputCompleted
  | ToolRequested | ApprovalRequested | ArtifactCreated | UsageUpdated
  | RunCompleted | RunFailed | RunCancelled | Heartbeat

datatype InvalidRunEvent = UnknownKind | SummaryInvalid | PayloadInvalid | SequenceIsZero
  | ReplaySizeInvalid

fun RunEventKind_as_str :: "RunEventKind \<Rightarrow> rstr" where
  "RunEventKind_as_str StateChanged = lit ''state_changed''"
| "RunEventKind_as_str ActivityUpdated = lit ''activity_updated''"
| "RunEventKind_as_str OutputDelta = lit ''output_delta''"
| "RunEventKind_as_str OutputCompleted = lit ''output_completed''"
| "RunEventKind_as_str ToolRequested = lit ''tool_requested''"
| "RunEventKind_as_str ApprovalRequested = lit ''approval_requested''"
| "RunEventKind_as_str ArtifactCreated = lit ''artifact_created''"
| "RunEventKind_as_str UsageUpdated = lit ''usage_updated''"
| "RunEventKind_as_str RunCompleted = lit ''run_completed''"
| "RunEventKind_as_str RunFailed = lit ''run_failed''"
| "RunEventKind_as_str RunCancelled = lit ''run_cancelled''"
| "RunEventKind_as_str Heartbeat = lit ''heartbeat''"

definition RunEventKind_is_terminal :: "RunEventKind \<Rightarrow> bool" where
  "RunEventKind_is_terminal k \<longleftrightarrow> k = RunCompleted \<or> k = RunFailed \<or> k = RunCancelled"

definition carries_output :: "RunEventKind \<Rightarrow> bool" where
  "carries_output k \<longleftrightarrow> k = OutputDelta \<or> k = OutputCompleted"

definition RunEventKind_all :: "RunEventKind list" where
  "RunEventKind_all = [StateChanged, ActivityUpdated, OutputDelta, OutputCompleted,
     ToolRequested, ApprovalRequested, ArtifactCreated, UsageUpdated, RunCompleted, RunFailed,
     RunCancelled, Heartbeat]"

definition RunEventKind_from_str :: "rstr \<Rightarrow> InvalidRunEvent + RunEventKind" where
  "RunEventKind_from_str s =
     (if s = lit ''state_changed'' then Ok StateChanged
      else if s = lit ''activity_updated'' then Ok ActivityUpdated
      else if s = lit ''output_delta'' then Ok OutputDelta
      else if s = lit ''output_completed'' then Ok OutputCompleted
      else if s = lit ''tool_requested'' then Ok ToolRequested
      else if s = lit ''approval_requested'' then Ok ApprovalRequested
      else if s = lit ''artifact_created'' then Ok ArtifactCreated
      else if s = lit ''usage_updated'' then Ok UsageUpdated
      else if s = lit ''run_completed'' then Ok RunCompleted
      else if s = lit ''run_failed'' then Ok RunFailed
      else if s = lit ''run_cancelled'' then Ok RunCancelled
      else if s = lit ''heartbeat'' then Ok Heartbeat
      else Err UnknownKind)"

section \<open>Sequences, summaries, payloads and replay requests\<close>

type_synonym RunEventSequence = "32 word"

definition Sequence_first :: RunEventSequence where
  "Sequence_first = 1"

definition Sequence_new :: "32 word \<Rightarrow> InvalidRunEvent + RunEventSequence" where
  "Sequence_new v = (if v = 0 then Err SequenceIsZero else Ok v)"

text \<open>\<open>checked_add(1)\<close>: \<open>None\<close> at the ceiling, never a wrap to zero.\<close>

definition Sequence_next :: "RunEventSequence \<Rightarrow> RunEventSequence option" where
  "Sequence_next v = (if v = - 1 then None else Some (v + 1))"

definition MAX_EVENT_SUMMARY_CHARS :: nat where
  "MAX_EVENT_SUMMARY_CHARS = 1024"

definition MAX_EVENT_PAYLOAD_BYTES :: nat where
  "MAX_EVENT_PAYLOAD_BYTES = 65536"

definition MAX_REPLAY_EVENTS :: "32 word" where
  "MAX_REPLAY_EVENTS = 1000"

definition EventSummary_new :: "rstr \<Rightarrow> InvalidRunEvent + rstr" where
  "EventSummary_new s =
     (if length s = 0 \<or> length s > MAX_EVENT_SUMMARY_CHARS then Err SummaryInvalid else Ok s)"

text \<open>
  What \<open>serde_json::from_str\<close> makes of a text is a parameter: \<open>None\<close> when it is not JSON,
  otherwise the kind of its root value.
\<close>

datatype json_root = JsonObject | JsonArray | JsonScalar

definition RunEventPayload_new :: "(rstr \<Rightarrow> json_root option) \<Rightarrow> rstr \<Rightarrow> InvalidRunEvent + rstr" where
  "RunEventPayload_new parse_json s =
     (if str_len s = 0 \<or> str_len s > MAX_EVENT_PAYLOAD_BYTES then Err PayloadInvalid
      else case parse_json s of
        None \<Rightarrow> Err PayloadInvalid
      | Some root \<Rightarrow> if root \<noteq> JsonObject \<and> root \<noteq> JsonArray then Err PayloadInvalid else Ok s)"

record ReplayRequest =
  replay_from :: RunEventSequence
  replay_limit :: "32 word"

definition ReplayRequest_new :: "RunEventSequence \<Rightarrow> 32 word \<Rightarrow> InvalidRunEvent + ReplayRequest" where
  "ReplayRequest_new from limit =
     (if limit = 0 \<or> limit > MAX_REPLAY_EVENTS then Err ReplaySizeInvalid
      else Ok \<lparr>replay_from = from, replay_limit = limit\<rparr>)"

section \<open>Run states and outcomes\<close>

datatype RunState = Received | ContextBuilding | Planning | Executing | Observing
  | AwaitingApproval | Responding | Completed | Cancelled | Failed

datatype RunOutcome = Outcome_Succeeded | Outcome_Cancelled | Outcome_Failed

datatype InvalidRunState = UnknownState | UnknownOutcome

fun terminal_event_kind :: "RunState \<Rightarrow> RunEventKind option" where
  "terminal_event_kind Completed = Some RunCompleted"
| "terminal_event_kind Cancelled = Some RunCancelled"
| "terminal_event_kind Failed = Some RunFailed"
| "terminal_event_kind _ = None"

fun RunState_as_str :: "RunState \<Rightarrow> rstr" where
  "RunState_as_str Received = lit ''received''"
| "RunState_as_str ContextBuilding = lit ''context_building''"
| "RunState_as_str Planning = lit ''planning''"
| "RunState_as_str Executing = lit ''executing''"
| "RunState_as_str Observing = lit ''observing''"
| "RunState_as_str AwaitingApproval = lit ''awaiting_approval''"
| "RunState_as_str Responding = lit ''responding''"
| "RunState_as_str Completed = lit ''completed''"
| "RunState_as_str Cancelled = lit ''cancelled''"
| "RunState_as_str Failed = lit ''failed''"

definition RunState_is_terminal :: "RunState \<Rightarrow> bool" where
  "RunState_is_terminal s \<longleftrightarrow> s = Completed \<or> s = Cancelled \<or> s = Failed"

fun required_outcome :: "RunState \<Rightarrow> RunOutcome option" where
  "required_outcome Completed = Some Outcome_Succeeded"
| "required_outcome Cancelled = Some Outcome_Cancelled"
| "required_outcome Failed = Some Outcome_Failed"
| "required_outcome _ = None"

fun can_transition_to :: "RunState \<Rightarrow> RunState \<Rightarrow> bool" where
  "can_transition_to Received t = (t = ContextBuilding \<or> t = Failed \<or> t = Cancelled)"
| "can_transition_to ContextBuilding t = (t = Planning \<or> t = Failed \<or> t = Cancelled)"
| "can_transition_to Planning t =
     (t = Executing \<or> t = AwaitingApproval \<or> t = Failed \<or> t = Cancelled)"
| "can_transition_to Executing t = (t = Observing \<or> t = Failed \<or> t = Cancelled)"
| "can_transition_to Observing t =
     (t = Planning \<or> t = Responding \<or> t = Failed \<or> t = Cancelled)"
| "can_transition_to AwaitingApproval t = (t = Executing \<or> t = Responding \<or> t = Cancelled)"
| "can_transition_to Responding t = (t = Completed \<or> t = Failed \<or> t = Cancelled)"
| "can_transition_to Completed t = False"
| "can_transition_to Cancelled t = False"
| "can_transition_to Failed t = False"

definition RunState_all :: "RunState list" where
  "RunState_all = [Received, ContextBuilding, Planning, Executing, Observing, AwaitingApproval,
     Responding, Completed, Cancelled, Failed]"

definition RunState_from_str :: "rstr \<Rightarrow> InvalidRunState + RunState" where
  "RunState_from_str s =
     (if s = lit ''received'' then Ok Received
      else if s = lit ''context_building'' then Ok ContextBuilding
      else if s = lit ''planning'' then Ok Planning
      else if s = lit ''executing'' then Ok Executing
      else if s = lit ''observing'' then Ok Observing
      else if s = lit ''awaiting_approval'' then Ok AwaitingApproval
      else if s = lit ''responding'' then Ok Responding
      else if s = lit ''completed'' then Ok Completed
      else if s = lit ''cancelled'' then Ok Cancelled
      else if s = lit ''failed'' then Ok Failed
      else Err UnknownState)"

fun RunOutcome_as_str :: "RunOutcome \<Rightarrow> rstr" where
  "RunOutcome_as_str Outcome_Succeeded = lit ''succeeded''"
| "RunOutcome_as_str Outcome_Cancelled = lit ''cancelled''"
| "RunOutcome_as_str Outcome_Failed = lit ''failed''"

definition RunOutcome_from_str :: "rstr \<Rightarrow> InvalidRunState + RunOutcome" where
  "RunOutcome_from_str s =
     (if s = lit ''succeeded'' then Ok Outcome_Succeeded
      else if s = lit ''cancelled'' then Ok Outcome_Cancelled
      else if s = lit ''failed'' then Ok Outcome_Failed
      else Err UnknownOutcome)"

section \<open>Transitions\<close>

record ExpectedRunState =
  exp_state :: RunState
  exp_version :: int

datatype RunTransitionError =
    TerminalStateImmutable RunState
  | IllegalTransition RunState RunState
  | OutcomeRequired RunState
  | OutcomeForbidden RunState
  | OutcomeMismatch RunState RunOutcome RunOutcome
  | FailureCodeRequired
  | FailureCodeForbidden RunState

record RunTransition =
  trans_to :: RunState
  trans_outcome :: "RunOutcome option"
  trans_error_code :: "rstr option"

definition RunTransition_new ::
  "RunState \<Rightarrow> RunOutcome option \<Rightarrow> rstr option \<Rightarrow> RunTransitionError + RunTransition" where
  "RunTransition_new to outcome error_code =
     and_then
       (case required_outcome to of
          None \<Rightarrow> guard (outcome \<noteq> None) (OutcomeForbidden to)
        | Some expected \<Rightarrow>
            and_then (ok_or outcome (OutcomeRequired to)) (\<lambda>supplied.
              guard (supplied \<noteq> expected) (OutcomeMismatch to expected supplied)))
       (\<lambda>_. and_then
         (if to = Failed then guard (error_code = None) FailureCodeRequired
          else guard (error_code \<noteq> None) (FailureCodeForbidden to))
         (\<lambda>_. Ok \<lparr>trans_to = to, trans_outcome = outcome, trans_error_code = error_code\<rparr>))"

definition RunTransition_completed :: RunTransition where
  "RunTransition_completed =
     \<lparr>trans_to = Completed, trans_outcome = Some Outcome_Succeeded, trans_error_code = None\<rparr>"

definition RunTransition_cancelled :: RunTransition where
  "RunTransition_cancelled =
     \<lparr>trans_to = Cancelled, trans_outcome = Some Outcome_Cancelled, trans_error_code = None\<rparr>"

definition RunTransition_failed :: "rstr \<Rightarrow> RunTransition" where
  "RunTransition_failed code =
     \<lparr>trans_to = Failed, trans_outcome = Some Outcome_Failed, trans_error_code = Some code\<rparr>"

definition RunTransition_apply :: "RunTransition \<Rightarrow> ExpectedRunState \<Rightarrow> RunTransitionError + unit" where
  "RunTransition_apply t expected =
     (if RunState_is_terminal (exp_state expected)
      then Err (TerminalStateImmutable (exp_state expected))
      else if \<not> can_transition_to (exp_state expected) (trans_to t)
      then Err (IllegalTransition (exp_state expected) (trans_to t))
      else Ok ())"

section \<open>Lemmas\<close>

interpretation event_wire: wire_vocabulary
  RunEventKind_as_str RunEventKind_from_str RunEventKind_all
proof
  fix x s
  show "RunEventKind_from_str (RunEventKind_as_str x) = Ok x"
    by (cases x; simp add: RunEventKind_from_str_def)
  show "x \<in> set RunEventKind_all" by (cases x; simp add: RunEventKind_all_def)
  show "RunEventKind_from_str s = Ok x \<Longrightarrow> s = RunEventKind_as_str x"
    by (auto simp: RunEventKind_from_str_def split: if_splits)
qed

interpretation state_wire: wire_vocabulary RunState_as_str RunState_from_str RunState_all
proof
  fix x s
  show "RunState_from_str (RunState_as_str x) = Ok x"
    by (cases x; simp add: RunState_from_str_def)
  show "x \<in> set RunState_all" by (cases x; simp add: RunState_all_def)
  show "RunState_from_str s = Ok x \<Longrightarrow> s = RunState_as_str x"
    by (auto simp: RunState_from_str_def split: if_splits)
qed

interpretation outcome_wire: wire_vocabulary
  RunOutcome_as_str RunOutcome_from_str "[Outcome_Succeeded, Outcome_Cancelled, Outcome_Failed]"
proof
  fix x s
  show "RunOutcome_from_str (RunOutcome_as_str x) = Ok x"
    by (cases x; simp add: RunOutcome_from_str_def)
  show "x \<in> set [Outcome_Succeeded, Outcome_Cancelled, Outcome_Failed]" by (cases x; simp)
  show "RunOutcome_from_str s = Ok x \<Longrightarrow> s = RunOutcome_as_str x"
    by (auto simp: RunOutcome_from_str_def split: if_splits)
qed

interpretation run_life: lifecycle can_transition_to RunState_is_terminal
proof
  fix s t
  show "RunState_is_terminal s \<Longrightarrow> \<not> can_transition_to s t"
    by (cases s; simp add: RunState_is_terminal_def)
  show "\<exists>t. can_transition_to s t \<and> RunState_is_terminal t" if "\<not> RunState_is_terminal s"
    using that by (intro exI [of _ Cancelled]) (cases s; simp add: RunState_is_terminal_def)
qed

lemma terminal_simps [simp]:
  "RunState_is_terminal Completed" "RunState_is_terminal Cancelled" "RunState_is_terminal Failed"
  "\<not> RunState_is_terminal Received" "\<not> RunState_is_terminal ContextBuilding"
  "\<not> RunState_is_terminal Planning" "\<not> RunState_is_terminal Executing"
  "\<not> RunState_is_terminal Observing" "\<not> RunState_is_terminal AwaitingApproval"
  "\<not> RunState_is_terminal Responding"
  by (simp_all add: RunState_is_terminal_def)

lemma required_outcome_Some: "(\<exists>x. required_outcome s = Some x) \<longleftrightarrow> RunState_is_terminal s"
  by (cases s; simp)

lemma terminal_event_kind_Some:
  "(\<exists>k. terminal_event_kind s = Some k) \<longleftrightarrow> RunState_is_terminal s"
  by (cases s; simp)

lemma terminal_event_kind_terminal:
  "terminal_event_kind s = Some k \<Longrightarrow> RunEventKind_is_terminal k"
  by (cases s; auto simp: RunEventKind_is_terminal_def)

text \<open>What a transition may carry: the outcome of its target, and a code exactly for a failure.\<close>

definition transition_wf :: "RunTransition \<Rightarrow> bool" where
  "transition_wf t \<longleftrightarrow> trans_outcome t = required_outcome (trans_to t)
     \<and> (trans_error_code t \<noteq> None \<longleftrightarrow> trans_to t = Failed)"

lemma RunTransition_new_Ok:
  "RunTransition_new to oc ec = Ok t \<longleftrightarrow>
     transition_wf t \<and> trans_to t = to \<and> trans_outcome t = oc \<and> trans_error_code t = ec"
  by (cases t; cases to; cases oc; cases ec)
    (auto simp: RunTransition_new_def transition_wf_def)

lemma transition_wf_constructors [simp]:
  "transition_wf RunTransition_completed" "transition_wf RunTransition_cancelled"
  "transition_wf (RunTransition_failed code)"
  by (simp_all add: transition_wf_def RunTransition_completed_def RunTransition_cancelled_def
      RunTransition_failed_def)

lemma RunTransition_apply_Ok:
  "RunTransition_apply t x = Ok u \<longleftrightarrow> can_transition_to (exp_state x) (trans_to t)"
  using run_life.terminal_stuck by (auto simp: RunTransition_apply_def)

text \<open>Reachable states: the table's paths that start where a run starts.\<close>

inductive run_path :: "RunState \<Rightarrow> RunState list \<Rightarrow> bool" where
  start: "run_path Received [Received]"
| step: "run_path s h \<Longrightarrow> can_transition_to s t \<Longrightarrow> run_path t (t # h)"

inductive_cases run_path_ConsE: "run_path t h"

lemma run_path_hd: "run_path s h \<Longrightarrow> h \<noteq> [] \<and> hd h = s"
  by (induction rule: run_path.induct) auto

lemma edge_into:
  "can_transition_to s Completed \<longleftrightarrow> s = Responding"
  "can_transition_to s Responding \<longleftrightarrow> s = Observing \<or> s = AwaitingApproval"
  "can_transition_to s Executing \<longleftrightarrow> s = Planning \<or> s = AwaitingApproval"
  "can_transition_to s AwaitingApproval \<longleftrightarrow> s = Planning"
  "can_transition_to s Observing \<longleftrightarrow> s = Executing"
  "can_transition_to s Planning \<longleftrightarrow> s = ContextBuilding \<or> s = Observing"
  "can_transition_to s ContextBuilding \<longleftrightarrow> s = Received"
  "\<not> can_transition_to s Received"
  by (cases s; simp)+

text \<open>What a history must contain, by the state it ends in.\<close>

definition path_demand :: "RunState \<Rightarrow> RunState set" where
  "path_demand s = (case s of
      Completed \<Rightarrow> {ContextBuilding, Planning, Responding}
    | Responding \<Rightarrow> {ContextBuilding, Planning}
    | Observing \<Rightarrow> {ContextBuilding, Planning, Executing}
    | Executing \<Rightarrow> {ContextBuilding, Planning}
    | AwaitingApproval \<Rightarrow> {ContextBuilding, Planning}
    | Planning \<Rightarrow> {ContextBuilding}
    | _ \<Rightarrow> {})"

lemma run_path_demand: "run_path s h \<Longrightarrow> path_demand s \<subseteq> set h"
proof (induction rule: run_path.induct)
  case (step s h t)
  from step.IH step.hyps(2) run_path_hd [OF step.hyps(1)] show ?case
    by (cases t; cases s) (auto simp: path_demand_def, (metis list.set_sel(1))+)
qed (simp add: path_demand_def)

text \<open>Sequence numbers never wrap.\<close>

lemma Sequence_next_Some:
  "Sequence_next v = Some w \<longleftrightarrow> unat w = unat v + 1 \<and> unat v + 1 < 2 ^ 32"
proof -
  have m: "unat (- 1 :: 32 word) = 2 ^ 32 - 1"
    by (simp add: unsigned_minus_1_eq_mask mask_eq_exp_minus_1)
  have top: "v = - 1 \<longleftrightarrow> unat v = 2 ^ 32 - 1" by (simp add: word_unat_eq_iff m)
  have "unat v < 2 ^ 32" using unsigned_less [of v] by simp
  moreover from this top have "v \<noteq> - 1 \<Longrightarrow> unat (v + 1) = unat v + 1"
    by (simp add: unat_word_ariths)
  ultimately show ?thesis
    using top by (auto simp: Sequence_next_def word_unat_eq_iff)
qed

end
