(* ===== verification/Core_Values.thy ===== *)
theory Core_Values
  imports Jarvis_Prelude "HOL-Library.List_Lexorder" "HOL-Library.Multiset"
begin

text \<open>
  Values every component carries: instants (\<open>timestamp.rs\<close>), error categories, diagnostic text
  and domain errors (\<open>error.rs\<close>), hexadecimal and constant-time comparison of secrets
  (\<open>secretbytes.rs\<close>), and JSON values as \<open>serde_json\<close> represents them.
\<close>

unbundle bit_operations_syntax

section \<open>Instants\<close>

text \<open>
  A \<open>UtcTimestamp\<close> is its nanoseconds since the epoch. Which instants the \<open>time\<close> crate can
  represent is a parameter. Identifiers are kept as their canonical text.
\<close>

type_synonym instant = int
type_synonym ident = rstr

datatype InvalidTimestamp = TimestampMalformed | TimestampOutOfRange

definition from_unix_nanos :: "(int \<Rightarrow> bool) \<Rightarrow> int \<Rightarrow> InvalidTimestamp + instant" where
  "from_unix_nanos representable v =
     (if representable v then Ok v else Err TimestampOutOfRange)"

section \<open>Error categories and diagnostics\<close>

datatype ErrorCode = Authentication | Authorization | Validation | Conflict | ApprovalRequiredCode
  | UnavailableCapability | UnsupportedOperation | RateLimited | TimeoutCode | CancelledCode
  | TransientUpstream | PermanentUpstream | AmbiguousEffect | InternalError

fun ErrorCode_as_str :: "ErrorCode \<Rightarrow> rstr" where
  "ErrorCode_as_str Authentication = lit ''authentication''"
| "ErrorCode_as_str Authorization = lit ''authorization''"
| "ErrorCode_as_str Validation = lit ''validation''"
| "ErrorCode_as_str Conflict = lit ''conflict''"
| "ErrorCode_as_str ApprovalRequiredCode = lit ''approval_required''"
| "ErrorCode_as_str UnavailableCapability = lit ''unavailable_capability''"
| "ErrorCode_as_str UnsupportedOperation = lit ''unsupported''"
| "ErrorCode_as_str RateLimited = lit ''rate_limited''"
| "ErrorCode_as_str TimeoutCode = lit ''timeout''"
| "ErrorCode_as_str CancelledCode = lit ''cancelled''"
| "ErrorCode_as_str TransientUpstream = lit ''transient_upstream''"
| "ErrorCode_as_str PermanentUpstream = lit ''permanent_upstream''"
| "ErrorCode_as_str AmbiguousEffect = lit ''ambiguous_effect''"
| "ErrorCode_as_str InternalError = lit ''internal''"

definition ErrorCode_is_retryable :: "ErrorCode \<Rightarrow> bool" where
  "ErrorCode_is_retryable c \<longleftrightarrow>
     c = UnavailableCapability \<or> c = RateLimited \<or> c = TimeoutCode \<or> c = TransientUpstream"

datatype UnsafeMessageReason = MessageEmpty | MessageTooLong | MessageControlCharacter

definition SafeMessage_new :: "rstr \<Rightarrow> UnsafeMessageReason + rstr" where
  "SafeMessage_new s =
     (if s = [] then Err MessageEmpty
      else if str_len s > 512 then Err MessageTooLong
      else if list_ex is_control s then Err MessageControlCharacter
      else Ok s)"

definition SafeMessage_default :: rstr where
  "SafeMessage_default = lit ''unspecified''"

record DomainError =
  error_code :: ErrorCode
  error_message :: rstr
  error_correlation :: "ident option"

definition DomainError_new :: "ErrorCode \<Rightarrow> rstr \<Rightarrow> DomainError" where
  "DomainError_new code message =
     \<lparr>error_code = code, error_message = message, error_correlation = None\<rparr>"

definition with_correlation_id :: "DomainError \<Rightarrow> ident \<Rightarrow> DomainError" where
  "with_correlation_id e cid = e\<lparr>error_correlation := Some cid\<rparr>"

definition DomainError_is_retryable :: "DomainError \<Rightarrow> bool" where
  "DomainError_is_retryable e = ErrorCode_is_retryable (error_code e)"

section \<open>Bytes\<close>

type_synonym byte = "8 word"

definition hex_digit :: "nat \<Rightarrow> uchar" where
  "hex_digit n = lit ''0123456789abcdef'' ! n"

fun encode_hex :: "byte list \<Rightarrow> rstr" where
  "encode_hex [] = []"
| "encode_hex (b # bs) =
     hex_digit (unat (drop_bit 4 b)) # hex_digit (unat (b AND 0x0f)) # encode_hex bs"

text \<open>The loop of \<open>constant_time_eq\<close>: a missing byte reads as zero on either side.\<close>

definition byte_at :: "byte list \<Rightarrow> nat \<Rightarrow> byte" where
  "byte_at bs i = (if i < length bs then bs ! i else 0)"

definition constant_time_eq :: "byte list \<Rightarrow> byte list \<Rightarrow> bool" where
  "constant_time_eq left right =
     (foldl (\<lambda>difference index. difference OR unat (byte_at left index XOR byte_at right index))
        (length left XOR length right) [0..<max (length left) (length right)] = 0)"

text \<open>\<open>u8::from_str_radix(text, 16)\<close> on one digit.\<close>

definition hex_value :: "uchar \<Rightarrow> nat" where
  "hex_value c = (if is_ascii_digit c then c - 48 else if is_ascii_lowercase c then c - 87 else c - 55)"

section \<open>JSON\<close>

text \<open>
  A \<open>serde_json::Value\<close>. An object is the sequence of its entries in iteration order, keys
  distinct; a number is kept as its text.
\<close>

datatype json = JNull | JBool bool | JNumber rstr | JString rstr | JArray "json list"
  | JObject "(rstr \<times> json) list"

definition is_object :: "json \<Rightarrow> bool" where
  "is_object v = (case v of JObject _ \<Rightarrow> True | _ \<Rightarrow> False)"

text \<open>The inner function of \<open>canonicalize\<close> in \<open>approval.rs\<close>: keys in ascending order, recursively.\<close>

primrec json_sorted :: "json \<Rightarrow> json" where
  "json_sorted JNull = JNull"
| "json_sorted (JBool b) = JBool b"
| "json_sorted (JNumber n) = JNumber n"
| "json_sorted (JString s) = JString s"
| "json_sorted (JArray items) = JArray (map json_sorted items)"
| "json_sorted (JObject entries) =
     JObject (sort_key fst (map (map_prod id json_sorted) entries))"

section \<open>Lemmas\<close>

lemma SafeMessage_new_Ok:
  "SafeMessage_new s = Ok t \<longleftrightarrow>
     t = s \<and> s \<noteq> [] \<and> str_len s \<le> 512 \<and> (\<forall>c \<in> set s. \<not> is_control c)"
  by (auto simp: SafeMessage_new_def list_ex_iff)

lemma SafeMessage_default_valid: "SafeMessage_new SafeMessage_default = Ok SafeMessage_default"
  by (simp add: SafeMessage_new_def SafeMessage_default_def lit_def str_len_def utf8_width_def
      is_control_def)

lemma length_encode_hex [simp]: "length (encode_hex bs) = 2 * length bs"
  by (induction bs) auto

lemma hex_digit_props:
  assumes "n < 16"
  shows "hex_value (hex_digit n) = n" "is_ascii_hexdigit (hex_digit n)" "hex_digit n < 128"
proof -
  have "\<forall>n < 16. hex_value (hex_digit n) = n \<and> is_ascii_hexdigit (hex_digit n) \<and> hex_digit n < 128"
    by (simp add: hex_digit_def hex_value_def lit_def char_class_defs numeral_eq_Suc All_less_Suc)
  then show "hex_value (hex_digit n) = n" "is_ascii_hexdigit (hex_digit n)" "hex_digit n < 128"
    using assms by auto
qed

lemma nibbles:
  fixes b :: byte
  shows "unat (drop_bit 4 b) < 16" "unat (b AND 0x0f) < 16"
    "16 * unat (drop_bit 4 b) + unat (b AND 0x0f) = unat b"
proof -
  have b: "unat b < 256" using unsigned_less [of b] by simp
  have h: "unat (drop_bit 4 b) = unat b div 16" by (simp add: drop_bit_eq_div unat_div)
  have "(0x0f :: byte) = mask 4" by (simp add: mask_eq_exp_minus_1)
  then have "b AND 0x0f = take_bit 4 b" by (simp only: take_bit_eq_mask)
  then have l: "unat (b AND 0x0f) = unat b mod 16" by (simp add: take_bit_eq_mod unat_mod_distrib)
  show "unat (drop_bit 4 b) < 16" using b h by simp
  show "unat (b AND 0x0f) < 16" using l by simp
  show "16 * unat (drop_bit 4 b) + unat (b AND 0x0f) = unat b" using h l by simp
qed

lemma foldl_or_eq_0:
  fixes a :: nat
  shows "foldl (\<lambda>d i. d OR f i) a xs = 0 \<longleftrightarrow> a = 0 \<and> (\<forall>i \<in> set xs. f i = 0)"
  by (induction xs arbitrary: a) (auto simp: or_eq_0_iff)

lemma nat_xor_eq_0:
  fixes a b :: nat
  shows "a XOR b = 0 \<longleftrightarrow> a = b"
  by (auto simp: bit_eq_iff bit_xor_iff)

lemma byte_xor_eq_0:
  fixes a b :: byte
  shows "unat (a XOR b) = 0 \<longleftrightarrow> a = b"
proof -
  have "unat (a XOR b) = 0 \<longleftrightarrow> a XOR b = 0" by (simp add: unat_eq_zero)
  also have "\<dots> \<longleftrightarrow> a = b" by (auto simp: bit_eq_iff bit_xor_iff)
  finally show ?thesis .
qed

lemma constant_time_eq_iff: "constant_time_eq left right \<longleftrightarrow> left = right"
proof -
  have "constant_time_eq left right \<longleftrightarrow>
      length left = length right
      \<and> (\<forall>i < max (length left) (length right). byte_at left i = byte_at right i)"
    by (simp add: constant_time_eq_def foldl_or_eq_0 nat_xor_eq_0 byte_xor_eq_0 atLeast0LessThan
        Ball_def)
  also have "\<dots> \<longleftrightarrow> left = right"
    by (auto simp: byte_at_def list_eq_iff_nth_eq)
  finally show ?thesis .
qed

subsection \<open>Canonical JSON\<close>

primrec json_wf :: "json \<Rightarrow> bool" where
  "json_wf JNull = True"
| "json_wf (JBool b) = True"
| "json_wf (JNumber n) = True"
| "json_wf (JString s) = True"
| "json_wf (JArray items) = list_all id (map json_wf items)"
| "json_wf (JObject entries) =
     (distinct (map fst entries) \<and> list_all snd (map (map_prod id json_wf) entries))"

text \<open>Two values are the same call argument when they differ only in the order of object entries.\<close>

inductive json_same :: "json \<Rightarrow> json \<Rightarrow> bool" where
  same_null: "json_same JNull JNull"
| same_bool: "json_same (JBool b) (JBool b)"
| same_number: "json_same (JNumber n) (JNumber n)"
| same_string: "json_same (JString s) (JString s)"
| same_array: "list_all2 json_same xs ys \<Longrightarrow> json_same (JArray xs) (JArray ys)"
| same_object: "list_all2 (rel_prod (=) json_same) es fs' \<Longrightarrow> mset fs' = mset fs
    \<Longrightarrow> json_same (JObject es) (JObject fs)"
  monos list.rel_mono prod.rel_mono

lemma sort_key_fst_mset:
  assumes "mset xs = mset ys" "distinct (map fst ys)"
  shows "sort_key fst xs = sort_key fst ys"
proof (rule sort_key_inj_key_eq)
  have "set xs = set ys" using assms(1) by (rule mset_eq_setD)
  then show "inj_on fst (set xs)" using assms(2) by (simp add: distinct_map)
qed (use assms(1) in auto)

lemma json_same_sorted: "json_same a b \<Longrightarrow> json_wf b \<Longrightarrow> json_sorted a = json_sorted b"
proof (induction rule: json_same.induct)
  case (same_array xs ys)
  then have "\<forall>i < length xs. json_sorted (xs ! i) = json_sorted (ys ! i)"
    by (auto simp: list_all2_conv_all_nth list_all_length)
  with same_array show ?case by (auto simp: list_all2_conv_all_nth intro: nth_equalityI)
next
  case (same_object es fs' fs)
  let ?F = "map_prod id json_sorted"
  have wf: "\<forall>e \<in> set fs'. json_wf (snd e)"
    using same_object.prems mset_eq_setD [OF same_object.hyps(1)] by (auto simp: list_all_iff)
  have "map ?F es = map ?F fs'"
  proof (rule nth_equalityI)
    show "length (map ?F es) = length (map ?F fs')"
      using same_object.IH by (simp add: list_all2_lengthD)
    fix i assume "i < length (map ?F es)"
    with same_object.IH wf show "map ?F es ! i = map ?F fs' ! i"
      by (auto simp: list_all2_conv_all_nth rel_prod_sel prod_eq_iff)
  qed
  moreover have "sort_key fst (map ?F fs') = sort_key fst (map ?F fs)"
  proof (rule sort_key_fst_mset)
    show "mset (map ?F fs') = mset (map ?F fs)" by (simp add: same_object.hyps(1))
    show "distinct (map fst (map ?F fs))" using same_object.prems by (simp add: comp_def)
  qed
  ultimately show ?case by simp
qed simp_all

lemma json_sorted_same: "json_sorted a = json_sorted b \<Longrightarrow> json_same a b"
proof (induction a arbitrary: b)
  case (JArray xs)
  obtain ys where b: "b = JArray ys" using JArray.prems by (cases b) auto
  with JArray.prems have eq: "map json_sorted xs = map json_sorted ys" by simp
  then have "list_all2 json_same xs ys"
    using JArray.IH by (auto simp: list_all2_conv_all_nth list_eq_iff_nth_eq)
  with b show ?case by (simp add: same_array)
next
  case (JObject es)
  let ?F = "map_prod id json_sorted"
  obtain fs where b: "b = JObject fs" using JObject.prems by (cases b) auto
  with JObject.prems have "sort_key fst (map ?F es) = sort_key fst (map ?F fs)" by simp
  then have m: "mset (map ?F es) = mset (map ?F fs)" by (metis mset_sort)
  have "list_all2 (\<lambda>z f. z = ?F f) (map ?F fs) fs" by (simp add: list_all2_conv_all_nth)
  from list_all2_reorder_left_invariance [OF this m]
  obtain fs' where fs': "list_all2 (\<lambda>z f. z = ?F f) (map ?F es) fs'" "mset fs' = mset fs"
    by blast
  have "list_all2 (rel_prod (=) json_same) es fs'"
  proof (rule list_all2_all_nthI)
    show "length es = length fs'" using list_all2_lengthD [OF fs'(1)] by simp
    fix i assume i: "i < length es"
    then have eq: "?F (fs' ! i) = ?F (es ! i)" using fs'(1) by (auto simp: list_all2_conv_all_nth)
    have "json_same (snd (es ! i)) (snd (fs' ! i))"
      using eq i by (intro JObject.IH [of "es ! i"]) (auto simp: prod_eq_iff snds.simps)
    with eq show "rel_prod (=) json_same (es ! i) (fs' ! i)"
      by (simp add: rel_prod_sel prod_eq_iff)
  qed
  then show ?case using b fs'(2) by (simp add: same_object)
qed (case_tac b; auto intro: json_same.intros)+

lemma json_sorted_iff: "json_wf b \<Longrightarrow> json_sorted a = json_sorted b \<longleftrightarrow> json_same a b"
  using json_same_sorted json_sorted_same by blast

end
