(* ===== verification/Approval.thy ===== *)
theory Approval
  imports Core_Values
begin

text \<open>
  Durable approvals (\<open>jarvis-core/src/approval.rs\<close>): the canonical hash of the exact intent a
  decision binds to, the request with its expiry, the single decision it may receive, and the
  state it is in at an instant. \<open>serde_json::to_string\<close> and SHA-256 are parameters.
\<close>

section \<open>Bounds and errors\<close>

definition MAX_APPROVAL_PREVIEW_CHARS :: nat where
  "MAX_APPROVAL_PREVIEW_CHARS = 512"

definition MAX_CANONICAL_INTENT_CHARS :: nat where
  "MAX_CANONICAL_INTENT_CHARS = 1048576"

definition MAX_APPROVAL_LIFETIME_SECONDS :: int where
  "MAX_APPROVAL_LIFETIME_SECONDS = 3600"

definition MAX_APPROVER_ID_CHARS :: nat where
  "MAX_APPROVER_ID_CHARS = 128"

datatype IntentError = IntentEmpty | IntentTooLong | ArgumentsNotAnObject | NotCanonicalizable

section \<open>The canonical intent\<close>

type_synonym CanonicalIntentHash = "byte list"

definition canonicalize :: "(json \<Rightarrow> rstr option) \<Rightarrow> json \<Rightarrow> IntentError + rstr" where
  "canonicalize to_string v = ok_or (to_string (json_sorted v)) NotCanonicalizable"

definition canonical_text :: "rstr \<Rightarrow> rstr \<Rightarrow> rstr \<Rightarrow> rstr" where
  "canonical_text tool version arguments = tool @ [0x1f] @ version @ [0x1f] @ arguments"

definition intent_compute ::
  "(json \<Rightarrow> rstr option) \<Rightarrow> (rstr \<Rightarrow> byte list) \<Rightarrow> rstr \<Rightarrow> rstr \<Rightarrow> json
    \<Rightarrow> IntentError + CanonicalIntentHash" where
  "intent_compute to_string sha256 tool version arguments =
     (if \<not> is_object arguments then Err ArgumentsNotAnObject
      else and_then (canonicalize to_string arguments) (\<lambda>canonical_arguments.
        let canonical = canonical_text tool version canonical_arguments in
        if trim canonical = [] then Err IntentEmpty
        else if length canonical > MAX_CANONICAL_INTENT_CHARS then Err IntentTooLong
        else Ok (sha256 canonical)))"

fun hex_pairs :: "rstr \<Rightarrow> byte list" where
  "hex_pairs (a # b # s) = of_nat (16 * hex_value a + hex_value b) # hex_pairs s"
| "hex_pairs _ = []"

definition intent_from_str :: "rstr \<Rightarrow> IntentError + CanonicalIntentHash" where
  "intent_from_str s =
     (if str_len s \<noteq> 64 \<or> \<not> list_all is_ascii_hexdigit s then Err NotCanonicalizable
      else Ok (hex_pairs s))"

section \<open>Channels, states and decisions\<close>

datatype ApprovalChannel = Cli | Desktop | Api | Voice

datatype ApprovalState = Pending | Approved | Denied | Approval_Cancelled | Expired

datatype InvalidApprovalField = Preview | ExpiryNotAfterCreation | LifetimeTooLong | UnknownChannel
  | ApproverUnusable | AlreadyDecided ApprovalState | ApprovalExpired instant

fun ApprovalChannel_as_str :: "ApprovalChannel \<Rightarrow> rstr" where
  "ApprovalChannel_as_str Cli = lit ''cli''"
| "ApprovalChannel_as_str Desktop = lit ''desktop''"
| "ApprovalChannel_as_str Api = lit ''api''"
| "ApprovalChannel_as_str Voice = lit ''voice''"

definition ApprovalChannel_from_str :: "rstr \<Rightarrow> InvalidApprovalField + ApprovalChannel" where
  "ApprovalChannel_from_str s =
     (if s = lit ''cli'' then Ok Cli
      else if s = lit ''desktop'' then Ok Desktop
      else if s = lit ''api'' then Ok Api
      else if s = lit ''voice'' then Ok Voice
      else Err UnknownChannel)"

fun ApprovalState_as_str :: "ApprovalState \<Rightarrow> rstr" where
  "ApprovalState_as_str Pending = lit ''pending''"
| "ApprovalState_as_str Approved = lit ''approved''"
| "ApprovalState_as_str Denied = lit ''denied''"
| "ApprovalState_as_str Approval_Cancelled = lit ''cancelled''"
| "ApprovalState_as_str Expired = lit ''expired''"

definition ApprovalState_is_decidable :: "ApprovalState \<Rightarrow> bool" where
  "ApprovalState_is_decidable s \<longleftrightarrow> s = Pending"

definition ApprovalState_authorizes :: "ApprovalState \<Rightarrow> bool" where
  "ApprovalState_authorizes s \<longleftrightarrow> s = Approved"

definition ApprovalState_all :: "ApprovalState list" where
  "ApprovalState_all = [Pending, Approved, Denied, Approval_Cancelled, Expired]"

text \<open>An unknown state name is reported with the channel's error, as in the source.\<close>

definition ApprovalState_from_str :: "rstr \<Rightarrow> InvalidApprovalField + ApprovalState" where
  "ApprovalState_from_str s =
     (if s = lit ''pending'' then Ok Pending
      else if s = lit ''approved'' then Ok Approved
      else if s = lit ''denied'' then Ok Denied
      else if s = lit ''cancelled'' then Ok Approval_Cancelled
      else if s = lit ''expired'' then Ok Expired
      else Err UnknownChannel)"

datatype ApprovalDecisionOutcome = Approve | Decision_Deny | Decision_Cancel

fun outcome_state :: "ApprovalDecisionOutcome \<Rightarrow> ApprovalState" where
  "outcome_state Approve = Approved"
| "outcome_state Decision_Deny = Denied"
| "outcome_state Decision_Cancel = Approval_Cancelled"

record ApprovalDecision =
  dec_outcome :: ApprovalDecisionOutcome
  dec_channel :: ApprovalChannel
  dec_decided_at :: instant
  dec_approver_id :: rstr

definition ApprovalDecision_new ::
  "ApprovalDecisionOutcome \<Rightarrow> ApprovalChannel \<Rightarrow> instant \<Rightarrow> rstr
    \<Rightarrow> InvalidApprovalField + ApprovalDecision" where
  "ApprovalDecision_new outcome channel decided_at approver_id =
     (if trim approver_id = [] \<or> str_len approver_id > MAX_APPROVER_ID_CHARS
      then Err ApproverUnusable
      else Ok \<lparr>dec_outcome = outcome, dec_channel = channel, dec_decided_at = decided_at,
               dec_approver_id = approver_id\<rparr>)"

section \<open>Requests\<close>

record ApprovalRequestParts =
  apr_id :: ident
  apr_workspace_id :: ident
  apr_run_id :: ident
  apr_actor_id :: rstr
  apr_tool :: rstr
  apr_tool_version :: rstr
  apr_intent :: CanonicalIntentHash
  apr_preview :: rstr
  apr_risk_level :: nat
  apr_correlation_id :: ident
  apr_created_at :: instant
  apr_expires_at :: instant

record ApprovalRequest = ApprovalRequestParts +
  apr_decision :: "ApprovalDecision option"

text \<open>
  \<open>i128\<close> division by a positive number of two ordered instants: the operand is positive, so
  truncation and \<open>div\<close> agree.
\<close>

definition ApprovalRequest_new :: "ApprovalRequestParts \<Rightarrow> InvalidApprovalField + ApprovalRequest" where
  "ApprovalRequest_new parts =
     and_then (map_err (\<lambda>_. Preview) (SafeMessage_new (apr_preview parts))) (\<lambda>preview.
       if length preview > MAX_APPROVAL_PREVIEW_CHARS then Err Preview
       else if apr_expires_at parts \<le> apr_created_at parts then Err ExpiryNotAfterCreation
       else if (apr_expires_at parts - apr_created_at parts) div 1000000000
               > MAX_APPROVAL_LIFETIME_SECONDS then Err LifetimeTooLong
       else Ok (ApprovalRequestParts.extend (ApprovalRequestParts.truncate parts)
                  \<lparr>apr_decision = None\<rparr>))"

definition ApprovalRequest_from_stored ::
  "ApprovalRequestParts \<Rightarrow> ApprovalDecision option \<Rightarrow> InvalidApprovalField + ApprovalRequest" where
  "ApprovalRequest_from_stored parts decision =
     map_ok (\<lambda>request. request\<lparr>apr_decision := decision\<rparr>) (ApprovalRequest_new parts)"

definition apply_decision ::
  "ApprovalRequest \<Rightarrow> ApprovalDecision \<Rightarrow> InvalidApprovalField + ApprovalRequest" where
  "apply_decision request decision =
     (case apr_decision request of
        Some existing \<Rightarrow> Err (AlreadyDecided (outcome_state (dec_outcome existing)))
      | None \<Rightarrow>
          if dec_decided_at decision \<ge> apr_expires_at request
          then Err (ApprovalExpired (apr_expires_at request))
          else Ok (request\<lparr>apr_decision := Some decision\<rparr>))"

definition state_at :: "ApprovalRequest \<Rightarrow> instant \<Rightarrow> ApprovalState" where
  "state_at request now =
     (case apr_decision request of
        Some decision \<Rightarrow>
          if dec_outcome decision = Approve \<and> now \<ge> apr_expires_at request then Expired
          else outcome_state (dec_outcome decision)
      | None \<Rightarrow> if now \<ge> apr_expires_at request then Expired else Pending)"

definition stored_state :: "ApprovalRequest \<Rightarrow> ApprovalState" where
  "stored_state request =
     (case apr_decision request of
        Some decision \<Rightarrow> outcome_state (dec_outcome decision)
      | None \<Rightarrow> Pending)"

definition authorizes_at :: "ApprovalRequest \<Rightarrow> instant \<Rightarrow> bool" where
  "authorizes_at request now = ApprovalState_authorizes (state_at request now)"

definition default_expiry :: "(int \<Rightarrow> bool) \<Rightarrow> instant \<Rightarrow> instant" where
  "default_expiry representable now =
     (case from_unix_nanos representable (now + MAX_APPROVAL_LIFETIME_SECONDS * 1000000000) of
        Inl _ \<Rightarrow> now | Inr t \<Rightarrow> t)"

section \<open>Lemmas\<close>

interpretation channel_wire: wire_vocabulary
  ApprovalChannel_as_str ApprovalChannel_from_str "[Cli, Desktop, Api, Voice]"
proof
  fix x s
  show "ApprovalChannel_from_str (ApprovalChannel_as_str x) = Ok x"
    by (cases x; simp add: ApprovalChannel_from_str_def)
  show "x \<in> set [Cli, Desktop, Api, Voice]" by (cases x; simp)
  show "ApprovalChannel_from_str s = Ok x \<Longrightarrow> s = ApprovalChannel_as_str x"
    by (auto simp: ApprovalChannel_from_str_def split: if_splits)
qed

interpretation approval_state_wire: wire_vocabulary
  ApprovalState_as_str ApprovalState_from_str ApprovalState_all
proof
  fix x s
  show "ApprovalState_from_str (ApprovalState_as_str x) = Ok x"
    by (cases x; simp add: ApprovalState_from_str_def)
  show "x \<in> set ApprovalState_all" by (cases x; simp add: ApprovalState_all_def)
  show "ApprovalState_from_str s = Ok x \<Longrightarrow> s = ApprovalState_as_str x"
    by (auto simp: ApprovalState_from_str_def split: if_splits)
qed

lemma authorizes_at_iff:
  "authorizes_at r t \<longleftrightarrow>
     (\<exists>d. apr_decision r = Some d \<and> dec_outcome d = Approve) \<and> t < apr_expires_at r"
  by (cases "apr_decision r"; cases "dec_outcome (the (apr_decision r))")
    (auto simp: authorizes_at_def ApprovalState_authorizes_def state_at_def)

interpretation approval_authority: lapsing_authority authorizes_at "\<lambda>r. Some (apr_expires_at r)"
  by unfold_locales (auto simp: authorizes_at_iff)

lemma ApprovalRequest_new_Ok:
  "ApprovalRequest_new p = Ok r \<longleftrightarrow>
     ApprovalRequestParts.truncate r = ApprovalRequestParts.truncate p \<and> apr_decision r = None
     \<and> is_ok (SafeMessage_new (apr_preview p))
     \<and> length (apr_preview p) \<le> MAX_APPROVAL_PREVIEW_CHARS
     \<and> apr_created_at p < apr_expires_at p
     \<and> (apr_expires_at p - apr_created_at p) div 1000000000 \<le> MAX_APPROVAL_LIFETIME_SECONDS"
  (is "?L \<longleftrightarrow> ?R")
proof
  assume ?L then show ?R
    by (auto simp: ApprovalRequest_new_def SafeMessage_new_Ok is_ok_iff ApprovalRequestParts.defs
        split: if_splits)
next
  assume R: ?R
  then obtain m where "SafeMessage_new (apr_preview p) = Ok m" by (auto simp: is_ok_iff)
  with R show ?L
    by (cases r; cases p)
      (auto simp: ApprovalRequest_new_def SafeMessage_new_Ok ApprovalRequestParts.defs)
qed

lemma apply_decision_Ok:
  "apply_decision r d = Ok r' \<longleftrightarrow>
     apr_decision r = None \<and> dec_decided_at d < apr_expires_at r
     \<and> r' = r\<lparr>apr_decision := Some d\<rparr>"
  by (auto simp: apply_decision_def split: option.splits if_splits)

text \<open>The life of a request: created, then offered decisions in any order.\<close>

inductive approval_history :: "ApprovalRequestParts \<Rightarrow> ApprovalRequest \<Rightarrow> bool" where
  created: "ApprovalRequest_new p = Ok r \<Longrightarrow> approval_history p r"
| decided: "approval_history p r \<Longrightarrow> apply_decision r d = Ok r' \<Longrightarrow> approval_history p r'"

inductive_cases approval_historyE: "approval_history p r"

lemma approval_history_inv:
  "approval_history p r \<Longrightarrow>
     apr_created_at r < apr_expires_at r
     \<and> apr_expires_at r < apr_created_at r + (MAX_APPROVAL_LIFETIME_SECONDS + 1) * 1000000000
     \<and> apr_intent r = apr_intent p \<and> apr_tool r = apr_tool p
     \<and> (\<forall>d. apr_decision r = Some d \<longrightarrow> dec_decided_at d < apr_expires_at r)"
proof (induction rule: approval_history.induct)
  case (created p r)
  then have eq: "ApprovalRequestParts.truncate r = ApprovalRequestParts.truncate p"
    and n: "apr_decision r = None"
    and b: "apr_created_at p < apr_expires_at p"
      "(apr_expires_at p - apr_created_at p) div 1000000000 \<le> MAX_APPROVAL_LIFETIME_SECONDS"
    by (simp_all add: ApprovalRequest_new_Ok)
  have "apr_created_at r = apr_created_at p" "apr_expires_at r = apr_expires_at p"
    "apr_intent r = apr_intent p" "apr_tool r = apr_tool p"
    using eq by (simp_all add: ApprovalRequestParts.defs)
  with n b show ?case by (simp add: MAX_APPROVAL_LIFETIME_SECONDS_def)
next
  case (decided p r d r')
  then show ?case by (auto simp: apply_decision_Ok)
qed

text \<open>The contract over time: which state may follow which.\<close>

fun approval_edge :: "ApprovalState \<Rightarrow> ApprovalState \<Rightarrow> bool" where
  "approval_edge Pending t = (t \<noteq> Pending)"
| "approval_edge Approved t = (t = Expired)"
| "approval_edge Denied t = False"
| "approval_edge Approval_Cancelled t = False"
| "approval_edge Expired t = False"

definition approval_terminal :: "ApprovalState \<Rightarrow> bool" where
  "approval_terminal s \<longleftrightarrow> s = Denied \<or> s = Approval_Cancelled \<or> s = Expired"

interpretation approval_life: lifecycle approval_edge approval_terminal
proof
  fix s t
  show "approval_terminal s \<Longrightarrow> \<not> approval_edge s t"
    by (auto simp: approval_terminal_def)
  show "\<exists>t. approval_edge s t \<and> approval_terminal t" if "\<not> approval_terminal s"
    using that by (intro exI [of _ Expired]) (cases s; simp add: approval_terminal_def)
qed

text \<open>A clock that only moves forward, and decisions stamped with the clock.\<close>

inductive approval_step :: "ApprovalRequest \<times> instant \<Rightarrow> ApprovalRequest \<times> instant \<Rightarrow> bool" where
  tick: "now \<le> now' \<Longrightarrow> approval_step (r, now) (r, now')"
| decide: "apply_decision r d = Ok r' \<Longrightarrow> dec_decided_at d = now
    \<Longrightarrow> approval_step (r, now) (r', now)"

inductive_cases approval_stepE: "approval_step c c'"

lemma approval_step_simulates:
  "approval_step (r, t) (r', t') \<Longrightarrow>
     state_at r t = state_at r' t' \<or> approval_edge (state_at r t) (state_at r' t')"
proof (induction "(r, t)" "(r', t')" rule: approval_step.induct)
  case tick
  then show ?case
    by (cases "apr_decision r'"; cases "dec_outcome (the (apr_decision r'))")
      (auto simp: state_at_def)
next
  case (decide d)
  then show ?case
    by (cases "dec_outcome d") (auto simp: apply_decision_Ok state_at_def)
qed

lemma approval_steps_simulate:
  "approval_step\<^sup>*\<^sup>* (r, t) (r', t') \<Longrightarrow>
     approval_edge\<^sup>*\<^sup>* (state_at r t) (state_at r' t')"
proof (induction "(r', t')" arbitrary: r' t' rule: rtranclp_induct)
  case (step y)
  obtain q u where y: "y = (q, u)" by force
  with step have "approval_edge\<^sup>*\<^sup>* (state_at r t) (state_at q u)" by simp
  with approval_step_simulates [of q u r' t'] step.hyps(2) y show ?case
    by (auto intro: rtranclp.rtrancl_into_rtrancl)
qed auto

text \<open>The canonical text separates its parts.\<close>

lemma canonical_text_inj:
  assumes "0x1f \<notin> set t" "0x1f \<notin> set t'" "0x1f \<notin> set v" "0x1f \<notin> set v'"
  shows "canonical_text t v a = canonical_text t' v' a' \<longleftrightarrow> t = t' \<and> v = v' \<and> a = a'"
proof -
  have cut: "x @ [0x1f] @ y = x' @ [0x1f] @ y' \<longleftrightarrow> x = x' \<and> y = y'"
    if "0x1f \<notin> set x" "0x1f \<notin> set x'" for x x' y y' :: rstr
  proof -
    from that have "split_once 0x1f (x @ [0x1f] @ y) = Some (x, y)"
      "split_once 0x1f (x' @ [0x1f] @ y') = Some (x', y')"
      by (simp_all add: split_once_Some)
    then show ?thesis by (metis option.inject prod.inject)
  qed
  show ?thesis unfolding canonical_text_def by (simp only: cut [OF assms(1,2)] cut [OF assms(3,4)])
qed

lemma canonical_text_not_blank: "trim (canonical_text t v a) \<noteq> []"
  by (auto simp: canonical_text_def trim_eq_Nil is_whitespace_def)

lemma intent_compute_Ok:
  "intent_compute ts sha t v a = Ok h \<longleftrightarrow>
     is_object a \<and> (\<exists>c. ts (json_sorted a) = Some c
       \<and> length (canonical_text t v c) \<le> MAX_CANONICAL_INTENT_CHARS
       \<and> h = sha (canonical_text t v c))"
  by (cases "ts (json_sorted a)")
    (auto simp: intent_compute_def canonicalize_def canonical_text_not_blank Let_def)

lemma hex_pairs_encode_hex: "hex_pairs (encode_hex bs) = bs"
proof (induction bs)
  case (Cons b bs)
  have "word_of_nat (16 * hex_value (hex_digit (unat (drop_bit 4 b)))
      + hex_value (hex_digit (unat (b AND 0x0f)))) = b"
    by (simp only: hex_digit_props(1) nibbles word_unat_eq_iff [symmetric]) simp
  with Cons.IH show ?case by simp
qed simp

lemma encode_hex_hexdigits: "\<forall>c \<in> set (encode_hex bs). is_ascii_hexdigit c \<and> is_ascii c"
  by (induction bs) (auto simp: hex_digit_props nibbles is_ascii_def)

section \<open>Properties\<close>

text \<open>
  What the intent hash relies on, as documented of its parts: the serialiser gives different
  values different texts, and the digest does not collide on the two texts compared.
\<close>

definition serialiser_injective :: "(json \<Rightarrow> rstr option) \<Rightarrow> bool" where
  "serialiser_injective ts \<longleftrightarrow> (\<forall>v w x. ts v = Some x \<longrightarrow> ts w = Some x \<longrightarrow> v = w)"

definition no_collision :: "(rstr \<Rightarrow> byte list) \<Rightarrow> rstr \<Rightarrow> rstr \<Rightarrow> bool" where
  "no_collision sha a b \<longleftrightarrow> (sha a = sha b \<longrightarrow> a = b)"

lemma json_same_object: "json_same a b \<Longrightarrow> is_object a = is_object b"
  by (induction rule: json_same.induct) (simp_all add: is_object_def)

lemma intent_eq_same:
  assumes "serialiser_injective ts" "json_wf a'"
    and "intent_compute ts sha t v a = Ok h" "intent_compute ts sha t' v' a' = Ok h"
    and "0x1f \<notin> set t" "0x1f \<notin> set t'" "0x1f \<notin> set v" "0x1f \<notin> set v'"
    and "\<forall>c c'. ts (json_sorted a) = Some c \<longrightarrow> ts (json_sorted a') = Some c'
      \<longrightarrow> no_collision sha (canonical_text t v c) (canonical_text t' v' c')"
  shows "t = t' \<and> v = v' \<and> json_same a a'"
proof -
  obtain c c' where c: "ts (json_sorted a) = Some c" "ts (json_sorted a') = Some c'"
      "sha (canonical_text t v c) = sha (canonical_text t' v' c')"
    using assms(3,4) by (auto simp: intent_compute_Ok)
  with assms(9) have "canonical_text t v c = canonical_text t' v' c'" by (auto simp: no_collision_def)
  then have eq: "t = t' \<and> v = v' \<and> c = c'" using canonical_text_inj [OF assms(5-8)] by blast
  with c assms(1) have "json_sorted a = json_sorted a'" unfolding serialiser_injective_def by blast
  with eq show ?thesis using json_sorted_same by blast
qed

text \<open>An intent hash names one call. For tools and versions without the separator character,
  two calls have the same hash exactly when they are the same tool, the same version and the same
  arguments up to the order of object keys; so editing what was approved changes the hash, and
  re-ordering keys does not.\<close>

theorem intent_identifies_call:
  assumes "serialiser_injective to_string" "json_wf a'"
    and "intent_compute to_string sha256 t v a = Ok h" "intent_compute to_string sha256 t' v' a' = Ok h'"
    and "0x1f \<notin> set t" "0x1f \<notin> set t'" "0x1f \<notin> set v" "0x1f \<notin> set v'"
    and "\<forall>c c'. to_string (json_sorted a) = Some c \<longrightarrow> to_string (json_sorted a') = Some c'
      \<longrightarrow> no_collision sha256 (canonical_text t v c) (canonical_text t' v' c')"
  shows "h = h' \<longleftrightarrow> t = t' \<and> v = v' \<and> json_same a a'"
proof
  assume "h = h'"
  with assms show "t = t' \<and> v = v' \<and> json_same a a'" by (intro intent_eq_same) auto
next
  assume same: "t = t' \<and> v = v' \<and> json_same a a'"
  then have "json_sorted a = json_sorted a'" using assms(2) by (simp add: json_same_sorted)
  with same assms(3,4) show "h = h'" by (auto simp: intent_compute_Ok)
qed

definition sample_serialiser :: "json \<Rightarrow> rstr option" where
  "sample_serialiser v =
     (if v = JObject [(lit ''a'', JNull), (lit ''b'', JNull)] then Some (lit ''1'')
      else if v = JObject [] then Some (lit ''2'') else None)"

definition sample_digest :: "rstr \<Rightarrow> byte list" where
  "sample_digest s = map of_nat s"

lemma sample_key_order: "lit ''a'' \<le> lit ''b''" "\<not> lit ''b'' \<le> lit ''a''"
  unfolding lit_def by (simp_all add: Cons_le_Cons)

theorem intent_identifies_call_witness:
  "json_same (JObject [(lit ''b'', JNull), (lit ''a'', JNull)])
     (JObject [(lit ''a'', JNull), (lit ''b'', JNull)])"
proof -
  let ?a = "JObject [(lit ''b'', JNull), (lit ''a'', JNull)]"
  let ?b = "JObject [(lit ''a'', JNull), (lit ''b'', JNull)]"
  let ?h = "sample_digest (canonical_text (lit ''t'') (lit ''v'') (lit ''1''))"
  have "serialiser_injective sample_serialiser"
    by (auto simp: serialiser_injective_def sample_serialiser_def split: if_splits)
  moreover have "json_wf ?b" by (simp add: lit_def)
  moreover have "intent_compute sample_serialiser sample_digest (lit ''t'') (lit ''v'') ?a = Ok ?h"
    "intent_compute sample_serialiser sample_digest (lit ''t'') (lit ''v'') ?b = Ok ?h"
    by (simp_all add: intent_compute_Ok is_object_def sample_key_order
        sample_serialiser_def canonical_text_def MAX_CANONICAL_INTENT_CHARS_def)
  moreover have "0x1f \<notin> set (lit ''t'')" "0x1f \<notin> set (lit ''v'')" by (simp_all add: lit_def)
  ultimately show ?thesis
    using intent_identifies_call [of sample_serialiser ?b sample_digest "lit ''t''" "lit ''v''" ?a ?h
        "lit ''t''" "lit ''v''" ?h]
    by (simp add: no_collision_def sample_key_order)
qed

text \<open>Approval authority is decided once and lapses. However a request came about, it
  authorizes an instant only if it carries an approving decision taken before its expiry and the
  instant is before that expiry, which is less than one hour and one second after creation; a
  decided request refuses every further decision and changes nothing it was created with.\<close>

theorem approval_authority:
  assumes "approval_history p r"
  shows "(authorizes_at r t \<longleftrightarrow>
            (\<exists>d. apr_decision r = Some d \<and> dec_outcome d = Approve \<and> dec_decided_at d < apr_expires_at r)
            \<and> t < apr_expires_at r)
    \<and> apr_expires_at r < apr_created_at r + 3601 * 1000000000
    \<and> (\<forall>d d'. apr_decision r = Some d
         \<longrightarrow> apply_decision r d' = Err (AlreadyDecided (outcome_state (dec_outcome d))))
    \<and> apr_intent r = apr_intent p \<and> apr_tool r = apr_tool p"
  using approval_history_inv [OF assms]
  by (auto simp: authorizes_at_iff apply_decision_def MAX_APPROVAL_LIFETIME_SECONDS_def)

definition sample_approval_parts :: ApprovalRequestParts where
  "sample_approval_parts = \<lparr>apr_id = lit ''a1'', apr_workspace_id = lit ''w1'', apr_run_id = lit ''r1'',
     apr_actor_id = lit ''me'', apr_tool = lit ''gmail.send'', apr_tool_version = lit ''1.0'',
     apr_intent = replicate 32 0, apr_preview = lit ''Send'', apr_risk_level = 2,
     apr_correlation_id = lit ''c1'', apr_created_at = 0, apr_expires_at = 60000000000\<rparr>"

definition sample_approval :: ApprovalRequest where
  "sample_approval = ApprovalRequestParts.extend sample_approval_parts \<lparr>apr_decision = None\<rparr>"

lemma sample_approval_new: "ApprovalRequest_new sample_approval_parts = Ok sample_approval"
  by (simp add: ApprovalRequest_new_def sample_approval_parts_def sample_approval_def
      SafeMessage_new_def lit_def str_len_def utf8_width_def is_control_def
      MAX_APPROVAL_PREVIEW_CHARS_def MAX_APPROVAL_LIFETIME_SECONDS_def ApprovalRequestParts.defs)

theorem approval_authority_witness:
  "\<not> authorizes_at sample_approval 5
   \<and> apr_expires_at sample_approval < apr_created_at sample_approval + 3601 * 1000000000"
proof -
  have "approval_history sample_approval_parts sample_approval"
    using sample_approval_new by (rule created)
  from approval_authority [OF this, of 5] show ?thesis
    by (simp add: sample_approval_def sample_approval_parts_def ApprovalRequestParts.defs)
qed

text \<open>Over time an approval only moves forward. As the clock advances and decisions stamped with
  it are applied, the reported state follows the contract pending to decided or expired, approved
  to expired; a denied, cancelled or expired approval reports that state for ever.\<close>

theorem approval_states_forward:
  assumes "approval_step\<^sup>*\<^sup>* (r, t) (r', t')"
  shows "approval_edge\<^sup>*\<^sup>* (state_at r t) (state_at r' t')
    \<and> (approval_terminal (state_at r t) \<longrightarrow> state_at r' t' = state_at r t)"
  using approval_steps_simulate [OF assms] approval_life.terminal_absorbing by blast

theorem approval_states_forward_witness:
  "approval_edge\<^sup>*\<^sup>* Pending (state_at sample_approval 60000000000)"
proof -
  have "approval_step\<^sup>*\<^sup>* (sample_approval, 5) (sample_approval, 60000000000)"
    by (intro r_into_rtranclp tick) simp
  from approval_states_forward [OF this] show ?thesis
    by (simp add: state_at_def sample_approval_def sample_approval_parts_def
        ApprovalRequestParts.defs)
qed

text \<open>The lifetime bound is checked in whole seconds: a request may live almost a second longer than
  the documented maximum.\<close>

theorem lifetime_overrun:
  "\<exists>r. ApprovalRequest_new (sample_approval_parts\<lparr>apr_expires_at := 3600999999999\<rparr>) = Ok r
     \<and> apr_expires_at r - apr_created_at r > MAX_APPROVAL_LIFETIME_SECONDS * 1000000000"
  by (simp add: ApprovalRequest_new_def sample_approval_parts_def
      SafeMessage_new_def lit_def str_len_def utf8_width_def is_control_def
      MAX_APPROVAL_PREVIEW_CHARS_def MAX_APPROVAL_LIFETIME_SECONDS_def ApprovalRequestParts.defs)

end
