(* ===== verification/Run_Store.thy ===== *)
theory Run_Store
  imports Run_Machine Approval
begin

text \<open>
  The durable store of runs and their event streams
  (\<open>jarvis-storage/src/run_repository.rs\<close>, \<open>run_event_repository.rs\<close>). A table is the list of its
  rows; an SQL \<open>UPDATE ... WHERE\<close> rewrites the rows its predicate selects and reports how many
  they were; a transaction that is dropped leaves the database as it was. Every operation returns
  the database after it together with its result, so an error that follows a write is visible.
  Instants are stored as text and read back unchanged, so the model keeps the instant.
  Failures of the storage medium itself are not modelled; constraint failures are.
\<close>

section \<open>Tables\<close>

record StoredRun =
  run_parent :: "ident option"
  run_is_delegated :: bool
  run_id :: ident
  run_session_id :: ident
  run_workspace_id :: ident
  run_objective :: rstr
  run_state :: RunState
  run_version :: int
  run_cancellation_requested_at :: "instant option"
  run_terminal_outcome :: "RunOutcome option"
  run_completed_at :: "instant option"
  run_error_code :: "rstr option"
  run_started_at :: instant

record NewRunEvent =
  nev_id :: ident
  nev_run_id :: ident
  nev_kind :: RunEventKind
  nev_summary :: "rstr option"
  nev_payload :: rstr
  nev_correlation :: ident
  nev_occurred_at :: instant

record StoredRunEvent = NewRunEvent +
  sev_sequence :: nat

text \<open>The columns of the approval and delegated-task tables that cancellation touches.\<close>

record approval_row =
  arow_run_id :: ident
  arow_state :: ApprovalState
  arow_arguments :: "rstr option"

record task_row =
  trow_parent_run :: "ident option"
  trow_status :: rstr
  trow_cancellation_requested_at :: "instant option"

record run_db =
  db_runs :: "StoredRun list"
  db_events :: "StoredRunEvent list"
  db_approvals :: "approval_row list"
  db_tasks :: "task_row list"
  db_stops :: "(ident \<times> instant) list"

datatype DatabaseError =
    RunTransitionRefused RunTransitionError
  | RunConflict
  | RunNotFound
  | InvalidRunRequest rstr
  | InvalidRunEventRequest rstr
  | StoredRunInvalid rstr
  | StoredRunEventInvalid rstr
  | RunEventAfterSettlement
  | RunEventConflict
  | SqliteFailure rstr

definition sql_update :: "('r \<Rightarrow> bool) \<Rightarrow> ('r \<Rightarrow> 'r) \<Rightarrow> 'r list \<Rightarrow> 'r list" where
  "sql_update P f rows = map (\<lambda>r. if P r then f r else r) rows"

definition rows_affected :: "('r \<Rightarrow> bool) \<Rightarrow> 'r list \<Rightarrow> nat" where
  "rows_affected P rows = length (filter P rows)"

text \<open>\<open>COALESCE(a, b)\<close>.\<close>

definition coalesce :: "'a option \<Rightarrow> 'a option \<Rightarrow> 'a option" where
  "coalesce a b = (case a of None \<Rightarrow> b | Some _ \<Rightarrow> a)"

section \<open>Reading a run\<close>

definition check_stored_consistency :: "StoredRun \<Rightarrow> DatabaseError + unit" where
  "check_stored_consistency run =
     (if run_terminal_outcome run \<noteq> required_outcome (run_state run)
      then Err (StoredRunInvalid (lit ''terminal outcome''))
      else if (run_completed_at run \<noteq> None) \<noteq> RunState_is_terminal (run_state run)
      then Err (StoredRunInvalid (lit ''completion timestamp''))
      else if (run_error_code run \<noteq> None) \<noteq> (run_state run = Failed)
      then Err (StoredRunInvalid (lit ''failure code''))
      else Ok ())"

definition find_run :: "run_db \<Rightarrow> ident \<Rightarrow> DatabaseError + StoredRun" where
  "find_run db rid =
     and_then (ok_or (find (\<lambda>r. run_id r = rid) (db_runs db)) RunNotFound) (\<lambda>run.
       and_then (check_stored_consistency run) (\<lambda>_. Ok run))"

definition run_expectation :: "StoredRun \<Rightarrow> ExpectedRunState" where
  "run_expectation run = \<lparr>exp_state = run_state run, exp_version = run_version run\<rparr>"

section \<open>Creating a run\<close>

record NewRun =
  nrun_id :: ident
  nrun_session_id :: ident
  nrun_workspace_id :: ident
  nrun_user_id :: ident
  nrun_objective :: rstr
  nrun_correlation_id :: ident
  nrun_started_at :: instant

definition MAX_OBJECTIVE_CHARS :: nat where
  "MAX_OBJECTIVE_CHARS = 200000"

definition NewRun_new ::
  "ident \<Rightarrow> ident \<Rightarrow> ident \<Rightarrow> ident \<Rightarrow> rstr \<Rightarrow> ident \<Rightarrow> instant \<Rightarrow> DatabaseError + NewRun" where
  "NewRun_new rid session_id workspace_id user_id objective correlation_id started_at =
     (if str_len rid \<noteq> 36 then Err (InvalidRunRequest (lit ''id''))
      else if str_len session_id \<noteq> 36 then Err (InvalidRunRequest (lit ''session id''))
      else if str_len workspace_id \<noteq> 36 then Err (InvalidRunRequest (lit ''workspace id''))
      else if str_len user_id \<noteq> 36 then Err (InvalidRunRequest (lit ''user id''))
      else if length objective = 0 \<or> length objective > MAX_OBJECTIVE_CHARS
      then Err (InvalidRunRequest (lit ''objective''))
      else Ok \<lparr>nrun_id = rid, nrun_session_id = session_id, nrun_workspace_id = workspace_id,
               nrun_user_id = user_id, nrun_objective = objective,
               nrun_correlation_id = correlation_id, nrun_started_at = started_at\<rparr>)"

text \<open>
  The insert: the primary key rejects a known identifier, the foreign keys (\<open>parents_exist\<close>)
  an unknown session, workspace or user.
\<close>

definition create_run ::
  "(NewRun \<Rightarrow> bool) \<Rightarrow> run_db \<Rightarrow> NewRun \<Rightarrow> run_db \<times> (DatabaseError + StoredRun)" where
  "create_run parents_exist db new =
     (if nrun_id new \<in> run_id ` set (db_runs db) then (db, Err RunConflict)
      else if \<not> parents_exist new then (db, Err (SqliteFailure (lit ''insert an agent run'')))
      else
        let row = \<lparr>run_parent = None, run_is_delegated = False, run_id = nrun_id new,
              run_session_id = nrun_session_id new, run_workspace_id = nrun_workspace_id new,
              run_objective = nrun_objective new, run_state = Received, run_version = 1,
              run_cancellation_requested_at = None, run_terminal_outcome = None,
              run_completed_at = None, run_error_code = None,
              run_started_at = nrun_started_at new\<rparr>;
            db' = db\<lparr>db_runs := db_runs db @ [row]\<rparr>
        in (db', find_run db' (nrun_id new)))"

section \<open>Advancing a run\<close>

text \<open>What the \<open>SET\<close> clauses of \<open>transition_run\<close> and \<open>settle_run\<close> write.\<close>

definition advance_row :: "RunTransition \<Rightarrow> instant \<Rightarrow> StoredRun \<Rightarrow> StoredRun" where
  "advance_row t at run = run\<lparr>
     run_state := trans_to t,
     run_terminal_outcome := trans_outcome t,
     run_error_code := trans_error_code t,
     run_completed_at := (if RunState_is_terminal (trans_to t) then Some at else None),
     run_cancellation_requested_at :=
       coalesce (run_cancellation_requested_at run)
         (if trans_to t = Cancelled then Some at else None),
     run_version := run_version run + 1\<rparr>"

definition matches_expectation :: "ident \<Rightarrow> ExpectedRunState \<Rightarrow> StoredRun \<Rightarrow> bool" where
  "matches_expectation rid expected run \<longleftrightarrow>
     run_id run = rid \<and> run_state run = exp_state expected \<and> run_version run = exp_version expected"

definition require_run_transition :: "nat \<Rightarrow> DatabaseError + unit" where
  "require_run_transition n = (if n = 1 then Ok () else Err RunConflict)"

definition transition_run ::
  "run_db \<Rightarrow> ident \<Rightarrow> ExpectedRunState \<Rightarrow> RunTransition \<Rightarrow> instant
    \<Rightarrow> run_db \<times> (DatabaseError + StoredRun)" where
  "transition_run db rid expected t at =
     (case RunTransition_apply t expected of
        Inl e \<Rightarrow> (db, Err (RunTransitionRefused e))
      | Inr _ \<Rightarrow>
          let hit = matches_expectation rid expected;
              db' = db\<lparr>db_runs := sql_update hit (advance_row t at) (db_runs db)\<rparr>
          in case require_run_transition (rows_affected hit (db_runs db)) of
               Inl e \<Rightarrow> (db', Err e)
             | Inr _ \<Rightarrow> (db', find_run db' rid))"

section \<open>Events\<close>

definition NewRunEvent_new ::
  "ident \<Rightarrow> ident \<Rightarrow> RunEventKind \<Rightarrow> rstr option \<Rightarrow> rstr \<Rightarrow> ident \<Rightarrow> instant
    \<Rightarrow> DatabaseError + NewRunEvent" where
  "NewRunEvent_new rid run kind summary payload correlation occurred_at =
     (if str_len rid \<noteq> 36 then Err (InvalidRunEventRequest (lit ''id''))
      else if str_len run \<noteq> 36 then Err (InvalidRunEventRequest (lit ''run id''))
      else Ok \<lparr>nev_id = rid, nev_run_id = run, nev_kind = kind, nev_summary = summary,
               nev_payload = payload, nev_correlation = correlation,
               nev_occurred_at = occurred_at\<rparr>)"

definition run_events_of :: "run_db \<Rightarrow> ident \<Rightarrow> StoredRunEvent list" where
  "run_events_of db rid = filter (\<lambda>e. nev_run_id e = rid) (db_events db)"

text \<open>\<open>SELECT COALESCE(MAX(sequence), 0) + 1\<close>.\<close>

definition next_sequence :: "run_db \<Rightarrow> ident \<Rightarrow> nat" where
  "next_sequence db rid = foldr max (map sev_sequence (run_events_of db rid)) 0 + 1"

definition insert_event :: "run_db \<Rightarrow> NewRunEvent \<Rightarrow> run_db" where
  "insert_event db new =
     db\<lparr>db_events := db_events db @
          [NewRunEvent.extend (NewRunEvent.truncate new)
             \<lparr>sev_sequence = next_sequence db (nev_run_id new)\<rparr>]\<rparr>"

definition event_id_taken :: "run_db \<Rightarrow> ident \<Rightarrow> bool" where
  "event_id_taken db rid = list_ex (\<lambda>e. nev_id e = rid) (db_events db)"

definition find_run_state :: "run_db \<Rightarrow> ident \<Rightarrow> RunState option" where
  "find_run_state db rid = map_option run_state (find (\<lambda>r. run_id r = rid) (db_runs db))"

definition append_run_event :: "run_db \<Rightarrow> NewRunEvent \<Rightarrow> run_db \<times> (DatabaseError + nat)" where
  "append_run_event db new =
     (if list_ex (\<lambda>r. run_id r = nev_run_id new \<and> \<not> RunState_is_terminal (run_state r)) (db_runs db)
      then if event_id_taken db (nev_id new) then (db, Err RunEventConflict)
           else (insert_event db new, Ok (next_sequence db (nev_run_id new)))
      else case find_run_state db (nev_run_id new) of
             None \<Rightarrow> (db, Err RunNotFound)
           | Some state \<Rightarrow>
               if RunState_is_terminal state then (db, Err RunEventAfterSettlement)
               else (db, Err (SqliteFailure (lit ''append a run event''))))"

definition stream_continues_after_settlement :: "run_db \<Rightarrow> ident \<Rightarrow> bool" where
  "stream_continues_after_settlement db rid =
     list_ex (\<lambda>e. RunEventKind_is_terminal (nev_kind e)
                \<and> list_ex (\<lambda>later. sev_sequence later > sev_sequence e) (run_events_of db rid))
       (run_events_of db rid)"

text \<open>
  \<open>read_run_events\<close> up to the decoding of each row: \<open>WHERE sequence >= from ORDER BY sequence
  LIMIT n\<close>.
\<close>

definition read_run_events ::
  "run_db \<Rightarrow> ident \<Rightarrow> ReplayRequest \<Rightarrow> DatabaseError + StoredRunEvent list" where
  "read_run_events db rid request =
     (if find_run_state db rid = None then Err RunNotFound
      else if stream_continues_after_settlement db rid
      then Err (StoredRunEventInvalid (lit ''terminal event position''))
      else Ok (take (unat (replay_limit request))
             (sort_key sev_sequence
                (filter (\<lambda>e. unat (replay_from request) \<le> sev_sequence e) (run_events_of db rid)))))"

section \<open>Settling a run with its event\<close>

record TerminalTransition =
  tt_event :: NewRunEvent
  tt_expected :: ExpectedRunState
  tt_transition :: RunTransition

definition TerminalTransition_new ::
  "ExpectedRunState \<Rightarrow> RunTransition \<Rightarrow> NewRunEvent \<Rightarrow> DatabaseError + TerminalTransition" where
  "TerminalTransition_new expected t event =
     (if \<not> RunState_is_terminal (trans_to t)
      then Err (RunTransitionRefused (TerminalStateImmutable (exp_state expected)))
      else case terminal_event_kind (trans_to t) of
             None \<Rightarrow> Err (InvalidRunEventRequest (lit ''kind''))
           | Some kind \<Rightarrow>
               if nev_kind event \<noteq> kind then Err (InvalidRunEventRequest (lit ''kind''))
               else Ok \<lparr>tt_event = event, tt_expected = expected, tt_transition = t\<rparr>)"

definition settle_run :: "run_db \<Rightarrow> TerminalTransition \<Rightarrow> run_db \<times> (DatabaseError + StoredRun)" where
  "settle_run db s =
     (case RunTransition_apply (tt_transition s) (tt_expected s) of
        Inl e \<Rightarrow> (db, Err (RunTransitionRefused e))
      | Inr _ \<Rightarrow>
          (case terminal_event_kind (trans_to (tt_transition s)) of
             None \<Rightarrow> (db, Err (InvalidRunEventRequest (lit ''kind'')))
           | Some kind \<Rightarrow>
               let rid = nev_run_id (tt_event s);
                   hit = (\<lambda>r. matches_expectation rid (tt_expected s) r
                              \<and> \<not> RunState_is_terminal (run_state r));
                   written = db\<lparr>db_runs := sql_update hit
                       (advance_row (tt_transition s) (nev_occurred_at (tt_event s))) (db_runs db)\<rparr>
               in if rows_affected hit (db_runs db) \<noteq> 1 then (db, Err RunConflict)
                  else if event_id_taken written (nev_id (tt_event s))
                  then (db, Err (SqliteFailure (lit ''append a settlement run event'')))
                  else let db' = insert_event written ((tt_event s)\<lparr>nev_kind := kind\<rparr>)
                       in (db', find_run db' rid)))"

section \<open>Cancellation and recovery\<close>

text \<open>
  The event and correlation identifiers drawn while an operation runs come from a parameter
  \<open>fresh\<close>, indexed by the number of draws; \<open>parse_json\<close> is \<open>serde_json\<close> as in \<open>RunEventPayload_new\<close>.
\<close>

definition settlement_event ::
  "(rstr \<Rightarrow> json_root option) \<Rightarrow> (nat \<Rightarrow> ident \<times> ident) \<Rightarrow> nat \<Rightarrow> ident \<Rightarrow> RunEventKind \<Rightarrow> rstr \<Rightarrow> rstr
    \<Rightarrow> instant \<Rightarrow> DatabaseError + NewRunEvent" where
  "settlement_event parse_json fresh n rid kind summary payload now =
     and_then (map_err (\<lambda>_. InvalidRunEventRequest (lit ''summary'')) (EventSummary_new summary)) (\<lambda>sm.
     and_then (map_err (\<lambda>_. InvalidRunEventRequest (lit ''payload''))
                 (RunEventPayload_new parse_json payload)) (\<lambda>pl.
       NewRunEvent_new (fst (fresh n)) rid kind (Some sm) pl (snd (fresh n)) now))"

definition withdraw_cancelled_run_approvals :: "run_db \<Rightarrow> run_db" where
  "withdraw_cancelled_run_approvals db =
     (let cancelled = (\<lambda>a. list_ex (\<lambda>r. run_id r = arow_run_id a \<and> run_state r = Cancelled)
                             (db_runs db));
          expired = sql_update (\<lambda>a. arow_state a = Pending \<and> cancelled a)
             (\<lambda>a. a\<lparr>arow_state := Expired, arow_arguments := None\<rparr>) (db_approvals db)
      in db\<lparr>db_approvals := sql_update
             (\<lambda>a. arow_state a = Approved \<and> arow_arguments a \<noteq> None \<and> cancelled a)
             (\<lambda>a. a\<lparr>arow_arguments := None\<rparr>) expired\<rparr>)"

definition parked_payload :: rstr where
  \<open>parked_payload = lit ''{"outcome":"cancelled","while":"awaiting_approval"}''\<close>

definition settle_parked_run_cancelled ::
  "(rstr \<Rightarrow> json_root option) \<Rightarrow> (nat \<Rightarrow> ident \<times> ident) \<Rightarrow> nat \<Rightarrow> run_db \<Rightarrow> StoredRun \<Rightarrow> instant
    \<Rightarrow> run_db \<times> (DatabaseError + StoredRun)" where
  "settle_parked_run_cancelled parse_json fresh n db run now =
     (if run_state run \<noteq> AwaitingApproval then (db, Err RunConflict)
      else case and_then
          (settlement_event parse_json fresh n (run_id run) RunCancelled
             (lit ''the run was cancelled while waiting for approval'') parked_payload now)
          (TerminalTransition_new (run_expectation run) RunTransition_cancelled) of
        Inl e \<Rightarrow> (db, Err e)
      | Inr s \<Rightarrow> (case settle_run db s of
            (db', Inl e) \<Rightarrow> (db', Err e)
          | (db', Inr settled) \<Rightarrow> (withdraw_cancelled_run_approvals db', Ok settled)))"

definition in_family :: "ident \<Rightarrow> StoredRun \<Rightarrow> bool" where
  "in_family rid r \<longleftrightarrow> run_id r = rid \<or> run_parent r = Some rid"

definition cancel_coding_family :: "run_db \<Rightarrow> ident \<Rightarrow> instant \<Rightarrow> task_row list \<times> nat" where
  "cancel_coding_family db parent now =
     (let hit = (\<lambda>t. (trow_status t = lit ''queued'' \<or> trow_status t = lit ''running'')
                   \<and> list_ex (\<lambda>r. trow_parent_run t = Some (run_id r) \<and> in_family parent r) (db_runs db))
      in (sql_update hit
            (\<lambda>t. t\<lparr>trow_cancellation_requested_at :=
                    coalesce (trow_cancellation_requested_at t) (Some now)\<rparr>) (db_tasks db),
          rows_affected hit (db_tasks db)))"

definition mark_cancellation :: "instant \<Rightarrow> StoredRun \<Rightarrow> StoredRun" where
  "mark_cancellation at r =
     r\<lparr>run_cancellation_requested_at := coalesce (run_cancellation_requested_at r) (Some at)\<rparr>"

fun settle_parked_children ::
  "(rstr \<Rightarrow> json_root option) \<Rightarrow> (nat \<Rightarrow> ident \<times> ident) \<Rightarrow> nat \<Rightarrow> run_db \<Rightarrow> ident \<Rightarrow> instant \<Rightarrow> ident list
    \<Rightarrow> run_db \<times> (DatabaseError + unit)" where
  "settle_parked_children parse_json fresh n db rid at [] = (db, Ok ())"
| "settle_parked_children parse_json fresh n db rid at (target # targets) =
     (case find_run db target of
        Inl e \<Rightarrow> (db, Err e)
      | Inr run \<Rightarrow>
          if target \<noteq> rid \<and> run_state run = AwaitingApproval then
            (case settle_parked_run_cancelled parse_json fresh n db run at of
               (db', Inl e) \<Rightarrow>
                 if e = RunConflict
                 then settle_parked_children parse_json fresh (Suc n) db' rid at targets
                 else (db', Err e)
             | (db', Inr _) \<Rightarrow> settle_parked_children parse_json fresh (Suc n) db' rid at targets)
          else settle_parked_children parse_json fresh n db rid at targets)"

definition open_family :: "ident \<Rightarrow> StoredRun \<Rightarrow> bool" where
  "open_family rid r \<longleftrightarrow> in_family rid r \<and> \<not> RunState_is_terminal (run_state r)"

text \<open>What the transaction of \<open>request_run_cancellation\<close> commits.\<close>

definition commit_family_stop :: "run_db \<Rightarrow> ident \<Rightarrow> instant \<Rightarrow> run_db" where
  "commit_family_stop db rid at =
     (let held = (\<lambda>a. (arow_state a = Pending \<or> arow_state a = Approved)
                  \<and> list_ex (\<lambda>r. run_id r = arow_run_id a \<and> in_family rid r) (db_runs db))
      in db\<lparr>
        db_tasks := fst (cancel_coding_family db rid at),
        db_stops := (if rid \<in> fst ` set (db_stops db) then db_stops db
                     else db_stops db @ [(rid, at)]),
        db_runs := sql_update (open_family rid) (mark_cancellation at) (db_runs db),
        db_approvals := sql_update held
          (\<lambda>a. a\<lparr>arow_state := (if arow_state a = Pending then Expired else arow_state a),
                 arow_arguments := None\<rparr>) (db_approvals db)\<rparr>)"

definition request_run_cancellation ::
  "(rstr \<Rightarrow> json_root option) \<Rightarrow> (nat \<Rightarrow> ident \<times> ident) \<Rightarrow> run_db \<Rightarrow> ident \<Rightarrow> instant
    \<Rightarrow> run_db \<times> (DatabaseError + StoredRun)" where
  "request_run_cancellation parse_json fresh db rid at =
     (case find_run_state db rid of
        None \<Rightarrow> (db, Err RunNotFound)
      | Some state \<Rightarrow>
          let targets = map run_id (filter (open_family rid) (db_runs db));
              coding = snd (cancel_coding_family db rid at)
          in if targets = [] \<and> coding = 0
             then (db, Err (RunTransitionRefused (TerminalStateImmutable state)))
             else case settle_parked_children parse_json fresh 0 (commit_family_stop db rid at)
                         rid at targets of
                    (db', Inl e) \<Rightarrow> (db', Err e)
                  | (db', Inr _) \<Rightarrow> (db', find_run db' rid))"

definition INTERRUPTED_ERROR_CODE :: rstr where
  "INTERRUPTED_ERROR_CODE = lit ''interrupted_by_restart''"

definition interrupted :: "StoredRun \<Rightarrow> bool" where
  "interrupted r \<longleftrightarrow> \<not> RunState_is_terminal (run_state r)
     \<and> \<not> (run_state r = AwaitingApproval \<and> run_cancellation_requested_at r = None)"

definition recovered_cancelled_payload :: rstr where
  \<open>recovered_cancelled_payload = lit ''{"outcome":"cancelled","recovered":true}''\<close>

definition recovered_failed_payload :: rstr where
  \<open>recovered_failed_payload =
     lit ''{"outcome":"failed","error_code":"interrupted_by_restart","recovered":true}''\<close>

definition recovery_settlement ::
  "(rstr \<Rightarrow> json_root option) \<Rightarrow> (nat \<Rightarrow> ident \<times> ident) \<Rightarrow> nat \<Rightarrow> StoredRun \<Rightarrow> instant
    \<Rightarrow> DatabaseError + TerminalTransition" where
  "recovery_settlement parse_json fresh n row now =
     and_then
       (if run_cancellation_requested_at row \<noteq> None
        then Ok (RunTransition_cancelled, RunCancelled,
                 lit ''the run was cancelled before the daemon restarted'',
                 recovered_cancelled_payload)
        else map_ok (\<lambda>code. (RunTransition_failed code, RunFailed,
                 lit ''the run was interrupted by a daemon restart'', recovered_failed_payload))
               (map_err (\<lambda>_. InvalidRunRequest (lit ''error_code''))
                  (RunErrorCode_new INTERRUPTED_ERROR_CODE)))
       (\<lambda>(t, kind, summary, payload).
          and_then (settlement_event parse_json fresh n (run_id row) kind summary payload now)
            (TerminalTransition_new (run_expectation row) t))"

fun recover_loop ::
  "(rstr \<Rightarrow> json_root option) \<Rightarrow> (nat \<Rightarrow> ident \<times> ident) \<Rightarrow> nat \<Rightarrow> run_db \<Rightarrow> instant \<Rightarrow> StoredRun list
    \<Rightarrow> ident list \<Rightarrow> run_db \<times> (DatabaseError + ident list)" where
  "recover_loop parse_json fresh n db now [] settled = (db, Ok settled)"
| "recover_loop parse_json fresh n db now (row # rows) settled =
     (case recovery_settlement parse_json fresh n row now of
        Inl e \<Rightarrow> (db, Err e)
      | Inr s \<Rightarrow> (case settle_run db s of
            (db', Inl e) \<Rightarrow> (db', Err e)
          | (db', Inr _) \<Rightarrow>
              recover_loop parse_json fresh (Suc n) db' now rows (settled @ [run_id row])))"

definition recover_interrupted_runs ::
  "(rstr \<Rightarrow> json_root option) \<Rightarrow> (nat \<Rightarrow> ident \<times> ident) \<Rightarrow> run_db \<Rightarrow> instant
    \<Rightarrow> run_db \<times> (DatabaseError + ident list)" where
  "recover_interrupted_runs parse_json fresh db now =
     (case recover_loop parse_json fresh 0 db now (filter interrupted (db_runs db)) [] of
        (db', Inl e) \<Rightarrow> (db', Err e)
      | (db', Inr settled) \<Rightarrow> (withdraw_cancelled_run_approvals db', Ok settled))"

definition count_working_runs :: "run_db \<Rightarrow> nat" where
  "count_working_runs db = length (filter
     (\<lambda>r. \<not> RunState_is_terminal (run_state r) \<and> run_state r \<noteq> AwaitingApproval) (db_runs db))"

end
