(* ===== verification/Run_Store_Laws.thy ===== *)
theory Run_Store_Laws
  imports Run_Store
begin

text \<open>
  What the run store keeps: the invariant of its tables under every interleaving of its
  operations, the immutability of settled runs, exclusive transitions, the event stream's order,
  and the complete effect of recovery after a restart.
\<close>

section \<open>Rows\<close>

definition run_row_ok :: "StoredRun \<Rightarrow> bool" where
  "run_row_ok r \<longleftrightarrow> check_stored_consistency r = Ok () \<and> 1 \<le> run_version r"

lemma check_stored_consistency_Ok:
  "check_stored_consistency r = Ok u \<longleftrightarrow>
     run_terminal_outcome r = required_outcome (run_state r)
     \<and> (run_completed_at r \<noteq> None \<longleftrightarrow> RunState_is_terminal (run_state r))
     \<and> (run_error_code r \<noteq> None \<longleftrightarrow> run_state r = Failed)"
  by (auto simp: check_stored_consistency_def)

text \<open>One write to one row: a legal transition, or a recorded request to cancel an open run.\<close>

inductive row_step :: "StoredRun \<Rightarrow> StoredRun \<Rightarrow> bool" where
  advance: "transition_wf t \<Longrightarrow> can_transition_to (run_state r) (trans_to t)
    \<Longrightarrow> row_step r (advance_row t at r)"
| mark: "\<not> RunState_is_terminal (run_state r) \<Longrightarrow> row_step r (mark_cancellation at r)"

inductive_cases row_stepE: "row_step r r'"

lemma coalesce_simps [simp]: "coalesce (Some a) b = Some a" "coalesce None b = b"
  by (simp_all add: coalesce_def)

lemma row_step_facts:
  assumes "row_step r r'"
  shows "run_id r' = run_id r" "run_parent r' = run_parent r" "run_version r \<le> run_version r'"
    "\<not> RunState_is_terminal (run_state r)"
    "run_row_ok r \<Longrightarrow> run_row_ok r'"
    "run_cancellation_requested_at r = Some t \<Longrightarrow> run_cancellation_requested_at r' = Some t"
    "run_state r' = run_state r \<or> can_transition_to (run_state r) (run_state r')"
  using assms run_life.terminal_stuck
  by (cases rule: row_step.cases;
      force simp: advance_row_def mark_cancellation_def run_row_ok_def
        check_stored_consistency_Ok transition_wf_def)+

lemma row_steps_facts:
  assumes "row_step\<^sup>*\<^sup>* r r'"
  shows "run_id r' = run_id r" "run_version r \<le> run_version r'"
    "run_row_ok r \<Longrightarrow> run_row_ok r'"
    "RunState_is_terminal (run_state r) \<Longrightarrow> r' = r"
    "run_cancellation_requested_at r = Some t \<Longrightarrow> run_cancellation_requested_at r' = Some t"
    "can_transition_to\<^sup>*\<^sup>* (run_state r) (run_state r')"
proof -
  show "run_id r' = run_id r" "run_version r \<le> run_version r'"
    "run_row_ok r \<Longrightarrow> run_row_ok r'"
    "run_cancellation_requested_at r = Some t \<Longrightarrow> run_cancellation_requested_at r' = Some t"
    using assms by (induction rule: rtranclp_induct) (auto dest: row_step_facts)
  show "can_transition_to\<^sup>*\<^sup>* (run_state r) (run_state r')"
    using assms
    by (induction rule: rtranclp_induct)
      (auto dest: row_step_facts(7) intro: rtranclp.rtrancl_into_rtrancl)
  show "RunState_is_terminal (run_state r) \<Longrightarrow> r' = r"
    using assms by (metis converse_rtranclpE row_step_facts(4))
qed

section \<open>Tables\<close>

text \<open>\<open>runs_evolve rs rs'\<close>: every row of the first table has taken zero or more writes.\<close>

definition runs_evolve :: "StoredRun list \<Rightarrow> StoredRun list \<Rightarrow> bool" where
  "runs_evolve rs rs' \<longleftrightarrow> length rs \<le> length rs' \<and> (\<forall>i < length rs. row_step\<^sup>*\<^sup>* (rs ! i) (rs' ! i))"

lemma runs_evolve_refl [simp, intro]: "runs_evolve rs rs"
  by (simp add: runs_evolve_def)

lemma runs_evolve_trans [trans]: "runs_evolve a b \<Longrightarrow> runs_evolve b c \<Longrightarrow> runs_evolve a c"
  by (auto simp: runs_evolve_def) (meson less_le_trans rtranclp_trans)

lemma runs_evolve_append [intro]: "runs_evolve rs (rs @ new)"
  by (simp add: runs_evolve_def nth_append)

lemma runs_evolve_update:
  "(\<And>r. r \<in> set rs \<Longrightarrow> P r \<Longrightarrow> row_step r (f r)) \<Longrightarrow> runs_evolve rs (sql_update P f rs)"
  by (auto simp: runs_evolve_def sql_update_def)

lemma runs_evolve_member:
  assumes "runs_evolve rs rs'" "r \<in> set rs"
  obtains r' where "r' \<in> set rs'" "row_step\<^sup>*\<^sup>* r r'"
proof -
  from assms(2) obtain i where "i < length rs" "rs ! i = r" by (auto simp: in_set_conv_nth)
  with assms(1) show ?thesis
    by (intro that [of "rs' ! i"]) (auto simp: runs_evolve_def)
qed

definition runs_inv :: "StoredRun list \<Rightarrow> bool" where
  "runs_inv rs \<longleftrightarrow> distinct (map run_id rs) \<and> (\<forall>r \<in> set rs. run_row_ok r)"

lemma runs_inv_update:
  assumes "\<And>r. r \<in> set rs \<Longrightarrow> P r \<Longrightarrow> row_step r (f r)" "runs_inv rs"
  shows "runs_inv (sql_update P f rs)"
proof -
  have "map run_id (sql_update P f rs) = map run_id rs"
    using assms(1) by (auto simp: sql_update_def dest: row_step_facts(1))
  moreover have "\<forall>r \<in> set (sql_update P f rs). run_row_ok r"
    using assms by (auto simp: sql_update_def runs_inv_def dest: row_step_facts(5))
  ultimately show ?thesis using assms(2) by (simp add: runs_inv_def)
qed

lemma runs_inv_inj: "runs_inv rs \<Longrightarrow> r \<in> set rs \<Longrightarrow> q \<in> set rs \<Longrightarrow> run_id r = run_id q \<Longrightarrow> r = q"
  by (auto simp: runs_inv_def distinct_map inj_on_def)

lemma find_by_id:
  assumes "distinct (map run_id rs)" "r \<in> set rs"
  shows "find (\<lambda>q. run_id q = run_id r) rs = Some r"
  using assms by (induction rs) force+

lemma find_run_Ok:
  assumes "runs_inv (db_runs db)" "r \<in> set (db_runs db)"
  shows "find_run db (run_id r) = Ok r"
  using assms find_by_id [of "db_runs db" r]
  by (auto simp: find_run_def runs_inv_def run_row_ok_def)

lemma find_sql_update:
  assumes "\<And>r. r \<in> set rows \<Longrightarrow> P r \<Longrightarrow> Q (f r) = Q r"
  shows "find Q (sql_update P f rows) = map_option (\<lambda>r. if P r then f r else r) (find Q rows)"
  using assms by (induction rows) (auto simp: sql_update_def)

text \<open>The event table: identifiers unique, each run's sequence numbers are 1, 2, 3, ...\<close>

definition events_inv :: "run_db \<Rightarrow> bool" where
  "events_inv db \<longleftrightarrow> distinct (map nev_id (db_events db))
     \<and> (\<forall>rid. map sev_sequence (run_events_of db rid) = [1..<Suc (length (run_events_of db rid))])"

lemma next_sequence_eq:
  assumes "events_inv db"
  shows "next_sequence db rid = Suc (length (run_events_of db rid))"
proof -
  have "foldr max [1..<Suc n] m = max n m" for n m :: nat
    by (induction n arbitrary: m) auto
  with assms show ?thesis by (simp add: next_sequence_def events_inv_def)
qed

lemma run_events_of_runs [simp]: "run_events_of (db\<lparr>db_runs := x\<rparr>) = run_events_of db"
  by (simp add: run_events_of_def fun_eq_iff)

lemma run_events_of_insert:
  "run_events_of (insert_event db e) rid =
     run_events_of db rid @ (if nev_run_id e = rid
       then [NewRunEvent.extend (NewRunEvent.truncate e)
               \<lparr>sev_sequence = next_sequence db (nev_run_id e)\<rparr>] else [])"
  by (simp add: run_events_of_def insert_event_def NewRunEvent.defs)

lemma events_inv_insert:
  assumes "events_inv db" "\<not> event_id_taken db (nev_id e)"
  shows "events_inv (insert_event db e)"
proof -
  have "distinct (map nev_id (db_events (insert_event db e)))"
    using assms by (auto simp: insert_event_def events_inv_def event_id_taken_def list_ex_iff
        NewRunEvent.defs)
  moreover have "map sev_sequence (run_events_of (insert_event db e) rid)
      = [1..<Suc (length (run_events_of (insert_event db e) rid))]" for rid
    using assms(1) next_sequence_eq [OF assms(1), of rid]
    by (auto simp: run_events_of_insert events_inv_def NewRunEvent.defs)
  ultimately show ?thesis by (simp add: events_inv_def)
qed

text \<open>A settlement event is its run's last event, and the run is settled.\<close>

definition stream_inv :: "run_db \<Rightarrow> bool" where
  "stream_inv db \<longleftrightarrow> (\<forall>e \<in> set (db_events db). RunEventKind_is_terminal (nev_kind e) \<longrightarrow>
     (\<exists>r \<in> set (db_runs db). run_id r = nev_run_id e \<and> RunState_is_terminal (run_state r))
     \<and> (\<forall>e' \<in> set (db_events db). nev_run_id e' = nev_run_id e \<longrightarrow> sev_sequence e' \<le> sev_sequence e))"

definition db_inv :: "run_db \<Rightarrow> bool" where
  "db_inv db \<longleftrightarrow> runs_inv (db_runs db) \<and> events_inv db \<and> stream_inv db"

section \<open>Every operation keeps the invariant\<close>

text \<open>
  \<open>db_grows db db'\<close>: rows only take legal writes and the event table only grows; this is what
  every operation does to the database, whether it succeeds or fails.
\<close>

definition db_grows :: "run_db \<Rightarrow> run_db \<Rightarrow> bool" where
  "db_grows db db' \<longleftrightarrow> runs_evolve (db_runs db) (db_runs db')
     \<and> (\<exists>new. db_events db' = db_events db @ new) \<and> (db_inv db \<longrightarrow> db_inv db')"

lemma db_grows_refl [simp, intro]: "db_grows db db"
  by (simp add: db_grows_def)

lemma db_grows_trans [trans]: "db_grows a b \<Longrightarrow> db_grows b c \<Longrightarrow> db_grows a c"
  by (auto simp: db_grows_def intro: runs_evolve_trans)

lemma settled_row_stays:
  assumes "runs_evolve rs rs'" "r \<in> set rs" "RunState_is_terminal (run_state r)"
  shows "r \<in> set rs'"
  using assms row_steps_facts(4) by (metis runs_evolve_member)

lemma stream_inv_runs:
  assumes "stream_inv db" "runs_evolve (db_runs db) (db_runs db')" "db_events db' = db_events db"
  shows "stream_inv db'"
  using assms settled_row_stays [OF assms(2)] unfolding stream_inv_def assms(3) by blast

text \<open>An operation that writes runs only.\<close>

lemma db_grows_runs:
  assumes "runs_evolve (db_runs db) (db_runs db')" "db_events db' = db_events db"
    and "runs_inv (db_runs db) \<Longrightarrow> runs_inv (db_runs db')"
  shows "db_grows db db'"
proof -
  have "events_inv db' = events_inv db"
    using assms(2) by (simp add: events_inv_def run_events_of_def)
  with assms show ?thesis
    by (auto simp: db_grows_def db_inv_def intro: stream_inv_runs)
qed

lemma db_grows_update:
  assumes "\<And>r. r \<in> set (db_runs db) \<Longrightarrow> P r \<Longrightarrow> row_step r (f r)"
    and "db_runs db' = sql_update P f (db_runs db)" "db_events db' = db_events db"
  shows "db_grows db db'"
  using assms by (intro db_grows_runs) (simp_all add: runs_evolve_update runs_inv_update)

lemma db_grows_same:
  assumes "db_runs db' = db_runs db" "db_events db' = db_events db"
  shows "db_grows db db'"
  using assms by (intro db_grows_runs) simp_all

lemma create_run_grows: "db_grows db (fst (create_run pe db new))"
proof (cases "nrun_id new \<in> run_id ` set (db_runs db) \<or> \<not> pe new")
  case True
  then show ?thesis by (auto simp: create_run_def)
next
  case False
  then show ?thesis
    by (intro db_grows_runs)
      (auto simp: create_run_def Let_def runs_inv_def run_row_ok_def check_stored_consistency_Ok)
qed

lemma advance_is_step:
  assumes "transition_wf t" "RunTransition_apply t x = Ok u" "matches_expectation rid x r"
  shows "row_step r (advance_row t at r)"
  using assms by (intro row_step.advance) (auto simp: RunTransition_apply_Ok matches_expectation_def)

lemma transition_run_grows:
  assumes "transition_wf t"
  shows "db_grows db (fst (transition_run db rid x t at))"
proof (cases "RunTransition_apply t x")
  case (Inr u)
  have "db_grows db (db\<lparr>db_runs := sql_update (matches_expectation rid x) (advance_row t at) (db_runs db)\<rparr>)"
    by (rule db_grows_update) (auto intro: advance_is_step [OF assms Inr])
  with Inr show ?thesis
    by (cases "require_run_transition (rows_affected (matches_expectation rid x) (db_runs db))")
      (auto simp: transition_run_def Let_def)
qed (simp add: transition_run_def)

lemma insert_event_fields [simp]:
  "db_runs (insert_event db e) = db_runs db"
  by (simp add: insert_event_def)

lemma terminal_event_needs_settled_run:
  assumes "stream_inv db" "runs_inv (db_runs db)" "r \<in> set (db_runs db)"
    "\<not> RunState_is_terminal (run_state r)" "e \<in> set (db_events db)" "nev_run_id e = run_id r"
  shows "\<not> RunEventKind_is_terminal (nev_kind e)"
  using assms runs_inv_inj unfolding stream_inv_def by metis

lemma append_run_event_grows:
  assumes "\<not> RunEventKind_is_terminal (nev_kind new)"
  shows "db_grows db (fst (append_run_event db new))"
proof (cases "list_ex (\<lambda>r. run_id r = nev_run_id new \<and> \<not> RunState_is_terminal (run_state r)) (db_runs db)
    \<and> \<not> event_id_taken db (nev_id new)")
  case False
  then show ?thesis by (auto simp: append_run_event_def split: option.splits)
next
  case True
  then obtain r where r: "r \<in> set (db_runs db)" "run_id r = nev_run_id new"
      "\<not> RunState_is_terminal (run_state r)"
    by (auto simp: list_ex_iff)
  have stream: "stream_inv (insert_event db new)" if "db_inv db"
  proof -
    from that have "\<forall>e \<in> set (db_events db). nev_run_id e = nev_run_id new \<longrightarrow>
        \<not> RunEventKind_is_terminal (nev_kind e)"
      using terminal_event_needs_settled_run r by (auto simp: db_inv_def)
    with that assms show ?thesis
      by (auto simp: db_inv_def stream_inv_def insert_event_def NewRunEvent.defs)
  qed
  from True have "fst (append_run_event db new) = insert_event db new"
    by (simp add: append_run_event_def)
  then show ?thesis
    using True stream
    by (auto simp: db_grows_def db_inv_def events_inv_insert) (simp add: insert_event_def)
qed

lemma sequence_bound:
  assumes "events_inv db" "e \<in> set (db_events db)"
  shows "sev_sequence e < next_sequence db (nev_run_id e)"
proof -
  have "e \<in> set (run_events_of db (nev_run_id e))" using assms(2) by (simp add: run_events_of_def)
  then have "sev_sequence e \<in> set (map sev_sequence (run_events_of db (nev_run_id e)))" by simp
  also have "\<dots> = {1..<Suc (length (run_events_of db (nev_run_id e)))}"
    using assms(1) by (simp only: events_inv_def set_upt)
  finally show ?thesis by (simp add: next_sequence_eq [OF assms(1)])
qed

text \<open>The write of a settlement, and the two ways \<open>settle_run\<close> can end.\<close>

definition settle_hit :: "TerminalTransition \<Rightarrow> StoredRun \<Rightarrow> bool" where
  "settle_hit s r \<longleftrightarrow> matches_expectation (nev_run_id (tt_event s)) (tt_expected s) r
     \<and> \<not> RunState_is_terminal (run_state r)"

definition settle_write :: "run_db \<Rightarrow> TerminalTransition \<Rightarrow> run_db" where
  "settle_write db s = db\<lparr>db_runs := sql_update (settle_hit s)
     (advance_row (tt_transition s) (nev_occurred_at (tt_event s))) (db_runs db)\<rparr>"

lemma settle_hit_eta: "settle_hit s =
    (\<lambda>r. matches_expectation (nev_run_id (tt_event s)) (tt_expected s) r
       \<and> \<not> RunState_is_terminal (run_state r))"
  by (simp add: settle_hit_def fun_eq_iff)

lemma event_id_taken_runs [simp]: "event_id_taken (db\<lparr>db_runs := x\<rparr>) i = event_id_taken db i"
  by (simp add: event_id_taken_def)

lemma settle_run_success:
  assumes "RunTransition_apply (tt_transition s) (tt_expected s) = Ok ()"
    "terminal_event_kind (trans_to (tt_transition s)) = Some kind"
    "rows_affected (settle_hit s) (db_runs db) = 1"
    "\<not> event_id_taken db (nev_id (tt_event s))"
  shows "settle_run db s =
    (let db' = insert_event (settle_write db s) ((tt_event s)\<lparr>nev_kind := kind\<rparr>)
     in (db', find_run db' (nev_run_id (tt_event s))))"
  using assms by (simp add: settle_run_def Let_def settle_write_def settle_hit_eta)

lemma settle_run_cases:
  obtains (refused) e where "settle_run db s = (db, Err e)"
  | (settled) kind where
      "RunTransition_apply (tt_transition s) (tt_expected s) = Ok ()"
      "terminal_event_kind (trans_to (tt_transition s)) = Some kind"
      "rows_affected (settle_hit s) (db_runs db) = 1"
      "\<not> event_id_taken db (nev_id (tt_event s))"
proof (cases "\<exists>e. settle_run db s = (db, Err e)")
  case False
  then obtain kind where "RunTransition_apply (tt_transition s) (tt_expected s) = Ok ()"
      "terminal_event_kind (trans_to (tt_transition s)) = Some kind"
    by (auto simp: settle_run_def split: sum.splits option.splits)
  moreover from False this have "rows_affected (settle_hit s) (db_runs db) = 1
      \<and> \<not> event_id_taken db (nev_id (tt_event s))"
    by (auto simp: settle_run_def Let_def settle_hit_eta split: if_splits)
  ultimately show thesis by (intro settled) auto
qed (use refused in blast)

lemma rows_affected_1:
  "rows_affected P rs = 1 \<Longrightarrow> \<exists>r \<in> set rs. P r"
  by (metis One_nat_def filter_empty_conv list.size(3) rows_affected_def zero_neq_one)

lemma settle_write_grows:
  assumes "transition_wf (tt_transition s)"
    and "RunTransition_apply (tt_transition s) (tt_expected s) = Ok ()"
  shows "db_grows db (settle_write db s)"
  by (rule db_grows_update [where P = "settle_hit s"
        and f = "advance_row (tt_transition s) (nev_occurred_at (tt_event s))"])
    (auto simp: settle_write_def settle_hit_def intro: advance_is_step [OF assms])

lemma settle_run_grows:
  assumes wf: "transition_wf (tt_transition s)"
  shows "db_grows db (fst (settle_run db s))"
proof (cases rule: settle_run_cases [of db s])
  case (settled kind)
  let ?w = "settle_write db s"
  let ?e = "(tt_event s)\<lparr>nev_kind := kind\<rparr>"
  have w: "db_grows db ?w" by (rule settle_write_grows [OF wf settled(1)])
  obtain r where r: "r \<in> set (db_runs db)" "settle_hit s r"
    using rows_affected_1 [OF settled(3)] by blast
  let ?r = "advance_row (tt_transition s) (nev_occurred_at (tt_event s)) r"
  have r': "?r \<in> set (db_runs ?w)" "run_id ?r = nev_run_id ?e" "RunState_is_terminal (run_state ?r)"
    using r settled(2) terminal_event_kind_Some [of "trans_to (tt_transition s)"]
    by (auto simp: settle_write_def sql_update_def settle_hit_def matches_expectation_def
        advance_row_def)
  have ev: "db_events ?w = db_events db" by (simp add: settle_write_def)
  have "db_inv (insert_event ?w ?e)" if inv: "db_inv db"
  proof -
    have winv: "db_inv ?w" using w inv by (simp add: db_grows_def)
    have quiet: "\<forall>e \<in> set (db_events db). nev_run_id e = nev_run_id ?e \<longrightarrow>
        \<not> RunEventKind_is_terminal (nev_kind e)"
      using terminal_event_needs_settled_run [of db r] inv r
      by (auto simp: db_inv_def settle_hit_def matches_expectation_def)
    have bound: "\<forall>e \<in> set (db_events ?w). sev_sequence e < next_sequence ?w (nev_run_id e)"
      using sequence_bound winv by (auto simp: db_inv_def)
    have "stream_inv (insert_event ?w ?e)"
      using winv quiet bound r'
      unfolding stream_inv_def db_inv_def insert_event_def
      by (auto simp: ev NewRunEvent.defs less_imp_le)
    moreover have "events_inv (insert_event ?w ?e)"
      using winv settled(4) by (intro events_inv_insert) (auto simp: db_inv_def event_id_taken_def ev)
    ultimately show ?thesis using winv by (simp add: db_inv_def)
  qed
  moreover have "\<exists>new. db_events (insert_event ?w ?e) = db_events db @ new"
    by (simp add: insert_event_def ev)
  ultimately have "db_grows db (insert_event ?w ?e)" using w by (simp add: db_grows_def)
  then show ?thesis using settle_run_success [OF settled] by (simp add: Let_def)
qed simp

lemma withdraw_grows: "db_grows db (withdraw_cancelled_run_approvals db)"
  by (rule db_grows_same) (simp_all add: withdraw_cancelled_run_approvals_def Let_def)

lemma TerminalTransition_new_Ok:
  "TerminalTransition_new x t e = Ok s \<longleftrightarrow>
     terminal_event_kind (trans_to t) = Some (nev_kind e)
     \<and> s = \<lparr>tt_event = e, tt_expected = x, tt_transition = t\<rparr>"
  using terminal_event_kind_Some [of "trans_to t"]
  by (cases "terminal_event_kind (trans_to t)") (auto simp: TerminalTransition_new_def)

lemma settle_parked_grows:
  "db_grows db (fst (settle_parked_run_cancelled pj fresh n db run now))"
proof -
  have "db_grows db (fst (settle_run db s))"
    if "and_then ev (TerminalTransition_new x RunTransition_cancelled) = Ok s" for ev x s
    using that by (intro settle_run_grows) (auto simp: TerminalTransition_new_Ok)
  then show ?thesis
    by (fastforce simp: settle_parked_run_cancelled_def split: sum.splits prod.splits
        intro: db_grows_trans withdraw_grows)
qed

lemma settle_parked_children_grows:
  "db_grows db (fst (settle_parked_children pj fresh n db rid at targets))"
proof (induction targets arbitrary: n db)
  case (Cons target targets)
  show ?case
  proof (cases "find_run db target")
    case (Inr run)
    have s: "db_grows db (fst (settle_parked_run_cancelled pj fresh n db run at))"
      by (rule settle_parked_grows)
    show ?thesis
      using Cons.IH [of "fst (settle_parked_run_cancelled pj fresh n db run at)" "Suc n"]
        Cons.IH [of db n] s Inr
      by (auto split: prod.splits sum.splits intro: db_grows_trans)
  qed simp
qed simp

lemma commit_family_stop_grows: "db_grows db (commit_family_stop db rid at)"
  by (rule db_grows_update [where P = "open_family rid" and f = "mark_cancellation at"])
    (auto simp: commit_family_stop_def Let_def open_family_def intro: row_step.mark)

lemma request_run_cancellation_grows:
  "db_grows db (fst (request_run_cancellation pj fresh db rid at))"
proof -
  let ?c = "commit_family_stop db rid at"
  have "db_grows db (fst (settle_parked_children pj fresh 0 ?c rid at targets))" for targets
    using commit_family_stop_grows settle_parked_children_grows by (rule db_grows_trans)
  moreover have "fst (case x of (d, Inl e) \<Rightarrow> (d, Inl e) | (d, Inr u) \<Rightarrow> (d, find_run d rid)) = fst x"
    for x :: "run_db \<times> (DatabaseError + unit)"
    by (simp split: prod.split sum.split)
  ultimately show ?thesis
    by (simp add: request_run_cancellation_def Let_def split: option.split)
qed

lemma recovery_settlement_wf:
  "recovery_settlement pj fresh n row now = Ok s \<Longrightarrow> transition_wf (tt_transition s)"
  by (auto simp: recovery_settlement_def TerminalTransition_new_Ok split: if_splits)

lemma recover_loop_grows:
  "db_grows db (fst (recover_loop pj fresh n db now rows settled))"
proof (induction rows arbitrary: n db settled)
  case (Cons row rows)
  show ?case
  proof (cases "recovery_settlement pj fresh n row now")
    case (Inr s)
    then have "db_grows db (fst (settle_run db s))"
      by (intro settle_run_grows recovery_settlement_wf)
    with Inr show ?thesis
      using Cons.IH [of "fst (settle_run db s)"]
      by (auto split: prod.splits sum.splits intro: db_grows_trans)
  qed simp
qed simp

lemma recover_interrupted_runs_grows:
  "db_grows db (fst (recover_interrupted_runs pj fresh db now))"
  using recover_loop_grows [of db pj fresh 0 now "filter interrupted (db_runs db)" "[]"]
  by (auto simp: recover_interrupted_runs_def split: prod.splits sum.splits
      intro: db_grows_trans withdraw_grows)

section \<open>Interleavings\<close>

text \<open>
  Any caller may issue any operation at any time, whatever it believes the store holds. Ordinary
  appends carry a non-terminal kind; settlements go through \<open>settle_run\<close>.
\<close>

inductive db_step :: "run_db \<Rightarrow> run_db \<Rightarrow> bool" where
  op_create: "db_step db (fst (create_run pe db new))"
| op_transition: "transition_wf t \<Longrightarrow> db_step db (fst (transition_run db rid x t at))"
| op_append: "\<not> RunEventKind_is_terminal (nev_kind new) \<Longrightarrow> db_step db (fst (append_run_event db new))"
| op_settle: "TerminalTransition_new x t e = Ok s \<Longrightarrow> transition_wf t
    \<Longrightarrow> db_step db (fst (settle_run db s))"
| op_cancel: "db_step db (fst (request_run_cancellation pj fresh db rid at))"
| op_recover: "db_step db (fst (recover_interrupted_runs pj fresh db now))"

definition empty_db :: run_db where
  "empty_db = \<lparr>db_runs = [], db_events = [], db_approvals = [], db_tasks = [], db_stops = []\<rparr>"

lemma empty_db_inv: "db_inv empty_db"
  by (simp add: empty_db_def db_inv_def runs_inv_def events_inv_def stream_inv_def run_events_of_def)

lemma db_step_grows: "db_step db db' \<Longrightarrow> db_grows db db'"
  by (induction rule: db_step.induct)
    (auto simp: TerminalTransition_new_Ok create_run_grows transition_run_grows
      append_run_event_grows settle_run_grows request_run_cancellation_grows
      recover_interrupted_runs_grows)

lemma db_steps_grow: "db_step\<^sup>*\<^sup>* db db' \<Longrightarrow> db_grows db db'"
  by (induction rule: rtranclp_induct) (auto intro: db_grows_trans db_step_grows)

section \<open>Exclusive transitions\<close>

lemma advance_bumps: "run_version (advance_row t at r) = run_version r + 1"
  by (simp add: advance_row_def)

text \<open>Once a row's version is past an expectation, that expectation never matches again.\<close>

definition past_expectation :: "run_db \<Rightarrow> ident \<Rightarrow> ExpectedRunState \<Rightarrow> bool" where
  "past_expectation db rid x \<longleftrightarrow>
     (\<exists>r \<in> set (db_runs db). run_id r = rid \<and> exp_version x < run_version r)"

lemma past_expectation_grows:
  assumes "past_expectation db rid x" "db_grows db db'"
  shows "past_expectation db' rid x"
proof -
  obtain r where r: "r \<in> set (db_runs db)" "run_id r = rid" "exp_version x < run_version r"
    using assms(1) by (auto simp: past_expectation_def)
  obtain r' where "r' \<in> set (db_runs db')" "row_step\<^sup>*\<^sup>* r r'"
    using assms(2) r(1) by (auto simp: db_grows_def elim: runs_evolve_member)
  with r show ?thesis
    using row_steps_facts(1,2) [of r r'] by (force simp: past_expectation_def)
qed

lemma past_expectation_no_match:
  assumes "past_expectation db rid x" "runs_inv (db_runs db)"
  shows "r \<in> set (db_runs db) \<Longrightarrow> \<not> matches_expectation rid x r"
  using assms runs_inv_inj by (fastforce simp: past_expectation_def matches_expectation_def)

lemma no_match_conflict:
  assumes "\<And>r. r \<in> set (db_runs db) \<Longrightarrow> \<not> matches_expectation rid x r"
  shows "\<exists>e. transition_run db rid x t at = (db, Err e)
           \<and> (e = RunConflict \<or> (\<exists>e'. e = RunTransitionRefused e'))"
proof (cases "RunTransition_apply t x")
  case (Inr u)
  have "filter (matches_expectation rid x) (db_runs db) = []"
    using assms by (simp add: filter_empty_conv)
  moreover have "sql_update (matches_expectation rid x) (advance_row t at) (db_runs db) = db_runs db"
    using assms by (auto simp: sql_update_def intro: map_idI)
  ultimately show ?thesis
    using Inr by (simp add: transition_run_def Let_def rows_affected_def require_run_transition_def)
qed (simp add: transition_run_def)

lemma transition_run_past:
  assumes "transition_run db rid x t at = (db', Ok r)"
  shows "past_expectation db' rid x"
proof -
  obtain u where ap: "RunTransition_apply t x = Inr u"
    using assms by (cases "RunTransition_apply t x") (auto simp: transition_run_def)
  have rows: "rows_affected (matches_expectation rid x) (db_runs db) = 1"
    and db': "db_runs db' = sql_update (matches_expectation rid x) (advance_row t at) (db_runs db)"
    using assms ap
    by (auto simp: transition_run_def Let_def require_run_transition_def split: if_splits)
  obtain q where q: "q \<in> set (db_runs db)" "matches_expectation rid x q"
    using rows_affected_1 [OF rows] by blast
  then have "advance_row t at q \<in> set (db_runs db')" by (auto simp: db' sql_update_def)
  moreover have "run_id (advance_row t at q) = rid"
    using q(2) by (simp add: advance_row_def matches_expectation_def)
  moreover have "exp_version x < run_version (advance_row t at q)"
    using q(2) by (simp add: advance_bumps matches_expectation_def)
  ultimately show ?thesis unfolding past_expectation_def by blast
qed

section \<open>Replay\<close>

lemma stream_inv_readable:
  assumes "stream_inv db"
  shows "\<not> stream_continues_after_settlement db rid"
  using assms
  by (fastforce simp: stream_continues_after_settlement_def list_ex_iff stream_inv_def run_events_of_def)

lemma filter_ge_upt: "filter (\<lambda>i. a \<le> i) [b..<c] = [max a b..<c]"
  by (induction c) (auto simp: max_def)

lemma replay_sequences:
  assumes "events_inv db" "1 \<le> a"
  shows "map sev_sequence (take m (sort_key sev_sequence
           (filter (\<lambda>e. a \<le> sev_sequence e) (run_events_of db rid))))
         = take m [a..<Suc (length (run_events_of db rid))]"
proof -
  let ?es = "run_events_of db rid"
  have seqs: "map sev_sequence ?es = [1..<Suc (length ?es)]"
    using assms(1) by (simp only: events_inv_def)
  have f: "map sev_sequence (filter (\<lambda>e. a \<le> sev_sequence e) ?es) = [a..<Suc (length ?es)]"
  proof -
    have "map sev_sequence (filter (\<lambda>e. a \<le> sev_sequence e) ?es)
        = filter (\<lambda>i. a \<le> i) (map sev_sequence ?es)"
      by (simp add: filter_map comp_def)
    also have "\<dots> = [a..<Suc (length ?es)]"
      using assms(2) by (simp only: seqs filter_ge_upt) (simp add: max_def)
    finally show ?thesis .
  qed
  have "sort_key sev_sequence (filter (\<lambda>e. a \<le> sev_sequence e) ?es)
      = filter (\<lambda>e. a \<le> sev_sequence e) ?es"
    by (rule sort_key_id_if_sorted) (simp only: f sorted_upt)
  then show ?thesis by (simp only: take_map [symmetric] f)
qed

section \<open>Recovery\<close>

definition recovery_transition :: "StoredRun \<Rightarrow> RunTransition" where
  "recovery_transition r = (if run_cancellation_requested_at r \<noteq> None then RunTransition_cancelled
     else RunTransition_failed INTERRUPTED_ERROR_CODE)"

definition recovered_row :: "instant \<Rightarrow> StoredRun \<Rightarrow> StoredRun" where
  "recovered_row now r = advance_row (recovery_transition r) now r"

lemma INTERRUPTED_ERROR_CODE_valid: "RunErrorCode_new INTERRUPTED_ERROR_CODE = Ok INTERRUPTED_ERROR_CODE"
  by (simp add: RunErrorCode_new_def INTERRUPTED_ERROR_CODE_def lit_def portable_code_char_def
      char_class_defs MAX_RUN_ERROR_CODE_CHARS_def)

text \<open>
  What recovery relies on: \<open>serde_json\<close> accepts the two literal payloads as objects, and the
  first \<open>k\<close> drawn event identifiers are UUID-sized and distinct.
\<close>

definition recovery_env ::
  "(rstr \<Rightarrow> json_root option) \<Rightarrow> (nat \<Rightarrow> ident \<times> ident) \<Rightarrow> nat \<Rightarrow> bool" where
  "recovery_env pj fresh k \<longleftrightarrow>
     pj recovered_cancelled_payload = Some JsonObject \<and> pj recovered_failed_payload = Some JsonObject
     \<and> inj_on (fst \<circ> fresh) {..<k} \<and> (\<forall>n < k. str_len (fst (fresh n)) = 36)"

lemma recovery_settlement_Ok:
  assumes "recovery_env pj fresh k" "n < k" "str_len (run_id row) = 36"
  shows "\<exists>s. recovery_settlement pj fresh n row now = Ok s
    \<and> tt_transition s = recovery_transition row \<and> tt_expected s = run_expectation row
    \<and> nev_run_id (tt_event s) = run_id row \<and> nev_occurred_at (tt_event s) = now
    \<and> nev_id (tt_event s) = fst (fresh n)"
proof -
  have len: "str_len recovered_cancelled_payload \<le> 100" "str_len recovered_failed_payload \<le> 100"
    "str_len recovered_cancelled_payload \<noteq> 0" "str_len recovered_failed_payload \<noteq> 0"
    by (simp_all add: recovered_cancelled_payload_def recovered_failed_payload_def lit_def
        str_len_def utf8_width_def del: str_len_eq_0)
  then show ?thesis
    using assms
    by (auto simp: recovery_settlement_def settlement_event_def recovery_env_def
        EventSummary_new_def MAX_EVENT_SUMMARY_CHARS_def RunEventPayload_new_def
        MAX_EVENT_PAYLOAD_BYTES_def NewRunEvent_new_def TerminalTransition_new_def
        INTERRUPTED_ERROR_CODE_valid RunTransition_cancelled_def RunTransition_failed_def
        recovery_transition_def simp del: str_len_eq_0)
qed

lemma recovery_edge:
  "interrupted r \<Longrightarrow> can_transition_to (run_state r) (trans_to (recovery_transition r))"
  by (cases "run_state r")
    (auto simp: interrupted_def recovery_transition_def RunTransition_cancelled_def
      RunTransition_failed_def)

lemma recovery_transition_wf [simp]: "transition_wf (recovery_transition r)"
  by (simp add: recovery_transition_def)

lemma recovery_terminal: "RunState_is_terminal (trans_to (recovery_transition r))"
  by (simp add: recovery_transition_def RunTransition_cancelled_def RunTransition_failed_def)

lemma filter_single:
  "distinct rs \<Longrightarrow> a \<in> set rs \<Longrightarrow> \<forall>r \<in> set rs. P r \<longleftrightarrow> r = a \<Longrightarrow> filter P rs = [a]"
  by (induction rs) (auto simp: filter_empty_conv)

lemma settle_one:
  assumes inv: "runs_inv (db_runs db)" and row: "row \<in> set (db_runs db)" "interrupted row"
    and s: "tt_transition s = recovery_transition row" "tt_expected s = run_expectation row"
      "nev_run_id (tt_event s) = run_id row" "nev_occurred_at (tt_event s) = now"
    and free: "\<not> event_id_taken db (nev_id (tt_event s))"
  shows "\<exists>db'. settle_run db s = (db', Ok (recovered_row now row))
    \<and> db_runs db' = sql_update (\<lambda>r. r = row) (recovered_row now) (db_runs db)
    \<and> (\<forall>i. event_id_taken db' i \<longleftrightarrow> event_id_taken db i \<or> i = nev_id (tt_event s))"
proof -
  have hit: "settle_hit s r \<longleftrightarrow> r = row" if "r \<in> set (db_runs db)" for r
    using that row s(2,3) runs_inv_inj [OF inv that row(1)]
    by (auto simp: settle_hit_def matches_expectation_def run_expectation_def interrupted_def)
  have ap: "RunTransition_apply (tt_transition s) (tt_expected s) = Ok ()"
    using recovery_edge [OF row(2)] by (simp add: RunTransition_apply_Ok s run_expectation_def)
  obtain kind where kind: "terminal_event_kind (trans_to (tt_transition s)) = Some kind"
    using recovery_terminal terminal_event_kind_Some s(1) by metis
  have "distinct (db_runs db)" using inv by (auto simp: runs_inv_def distinct_map)
  then have "filter (settle_hit s) (db_runs db) = [row]"
    using row(1) hit by (intro filter_single) auto
  then have one: "rows_affected (settle_hit s) (db_runs db) = 1" by (simp add: rows_affected_def)
  let ?w = "insert_event (settle_write db s) ((tt_event s)\<lparr>nev_kind := kind\<rparr>)"
  have runs: "db_runs ?w = sql_update (\<lambda>r. r = row) (recovered_row now) (db_runs db)"
    using hit by (auto simp: settle_write_def sql_update_def recovered_row_def s)
  have "runs_inv (db_runs ?w)"
    unfolding runs using row
    by (intro runs_inv_update inv)
      (auto simp: recovered_row_def intro: row_step.advance recovery_edge)
  moreover have "recovered_row now row \<in> set (db_runs ?w)"
    unfolding runs using row(1) by (auto simp: sql_update_def)
  ultimately have found: "find_run ?w (run_id row) = Ok (recovered_row now row)"
    using find_run_Ok [of ?w "recovered_row now row"] by (simp add: recovered_row_def advance_row_def)
  have "settle_run db s = (?w, Ok (recovered_row now row))"
    using settle_run_success [OF ap kind one free] found s(3) by (simp add: Let_def)
  moreover have "event_id_taken ?w i \<longleftrightarrow> event_id_taken db i \<or> i = nev_id (tt_event s)" for i
    by (auto simp: event_id_taken_def insert_event_def settle_write_def NewRunEvent.defs)
  ultimately show ?thesis using runs by blast
qed

text \<open>Rewriting a set of rows one after the other is rewriting them at once.\<close>

lemma sql_update_twice:
  assumes "\<And>r. r \<in> set rs \<Longrightarrow> f r \<notin> S"
  shows "sql_update (\<lambda>r. r \<in> S) f (sql_update (\<lambda>r. r = a) f rs)
       = sql_update (\<lambda>r. r \<in> insert a S) f rs"
  using assms by (auto simp: sql_update_def)

lemma recover_loop_effect:
  assumes "recovery_env pj fresh k" "runs_inv (db_runs db)" "set rows \<subseteq> set (db_runs db)"
    and "distinct rows" "\<forall>r \<in> set rows. interrupted r \<and> str_len (run_id r) = 36"
    and "n + length rows \<le> k" "\<forall>m < k. n \<le> m \<longrightarrow> \<not> event_id_taken db (fst (fresh m))"
  shows "\<exists>db'. recover_loop pj fresh n db now rows acc = (db', Ok (acc @ map run_id rows))
    \<and> db_runs db' = sql_update (\<lambda>r. r \<in> set rows) (recovered_row now) (db_runs db)"
  using assms
proof (induction rows arbitrary: n db acc)
  case Nil
  then show ?case by (simp add: sql_update_def)
next
  case (Cons row rows)
  from Cons.prems have row: "row \<in> set (db_runs db)" "interrupted row" "str_len (run_id row) = 36"
    by auto
  obtain s where s: "recovery_settlement pj fresh n row now = Ok s"
      "tt_transition s = recovery_transition row" "tt_expected s = run_expectation row"
      "nev_run_id (tt_event s) = run_id row" "nev_occurred_at (tt_event s) = now"
      "nev_id (tt_event s) = fst (fresh n)"
    using recovery_settlement_Ok [OF Cons.prems(1) _ row(3), of n] Cons.prems(6) by auto
  have "\<not> event_id_taken db (nev_id (tt_event s))" using Cons.prems(6,7) s(6) by simp
  from settle_one [OF Cons.prems(2) row(1,2) s(2-5) this]
  obtain db1 where db1: "settle_run db s = (db1, Ok (recovered_row now row))"
      "db_runs db1 = sql_update (\<lambda>r. r = row) (recovered_row now) (db_runs db)"
      "\<forall>i. event_id_taken db1 i \<longleftrightarrow> event_id_taken db i \<or> i = nev_id (tt_event s)"
    by blast
  have inv1: "runs_inv (db_runs db1)"
    unfolding db1(2) using row(2)
    by (intro runs_inv_update Cons.prems(2))
      (auto simp: recovered_row_def intro: row_step.advance recovery_edge)
  have sub: "set rows \<subseteq> set (db_runs db1)"
    using Cons.prems(3,4) by (auto simp: db1(2) sql_update_def image_iff)
  have settled: "recovered_row now r \<notin> set rows" for r
    using Cons.prems(5) recovery_terminal [of r]
    by (auto simp: recovered_row_def advance_row_def interrupted_def)
  have free: "\<forall>m < k. Suc n \<le> m \<longrightarrow> \<not> event_id_taken db1 (fst (fresh m))"
  proof (intro allI impI)
    fix m assume m: "m < k" "Suc n \<le> m"
    moreover have "fst (fresh m) = fst (fresh n) \<Longrightarrow> m = n"
      using Cons.prems(1,6) m by (auto simp: recovery_env_def inj_on_def)
    ultimately show "\<not> event_id_taken db1 (fst (fresh m))"
      using Cons.prems(7) db1(3) s(6) by auto
  qed
  have rest: "distinct rows" "\<forall>r \<in> set rows. interrupted r \<and> str_len (run_id r) = 36"
      "Suc n + length rows \<le> k"
    using Cons.prems(4-6) by simp_all
  from Cons.IH [OF Cons.prems(1) inv1 sub rest free, of "acc @ [run_id row]"]
  obtain db' where "recover_loop pj fresh (Suc n) db1 now rows (acc @ [run_id row])
        = (db', Ok ((acc @ [run_id row]) @ map run_id rows))"
      "db_runs db' = sql_update (\<lambda>r. r \<in> set rows) (recovered_row now) (db_runs db1)"
    by blast
  moreover have "sql_update (\<lambda>r. r \<in> set rows) (recovered_row now) (db_runs db1)
      = sql_update (\<lambda>r. r \<in> insert row (set rows)) (recovered_row now) (db_runs db)"
    unfolding db1(2) using settled by (intro sql_update_twice)
  ultimately show ?case using s(1) db1(1) by simp
qed

lemma recover_interrupted_runs_effect:
  assumes "recovery_env pj fresh (length (db_runs db))" "runs_inv (db_runs db)"
    and "\<forall>r \<in> set (db_runs db). str_len (run_id r) = 36"
    and "\<forall>m < length (db_runs db). \<not> event_id_taken db (fst (fresh m))"
  shows "\<exists>db'. recover_interrupted_runs pj fresh db now
      = (db', Ok (map run_id (filter interrupted (db_runs db))))
    \<and> db_runs db' = sql_update interrupted (recovered_row now) (db_runs db)"
proof -
  let ?rows = "filter interrupted (db_runs db)"
  have d: "distinct ?rows" using assms(2) by (auto simp: runs_inv_def distinct_map)
  have i: "\<forall>r \<in> set ?rows. interrupted r \<and> str_len (run_id r) = 36" using assms(3) by simp
  have l: "0 + length ?rows \<le> length (db_runs db)" by simp
  have f: "\<forall>m < length (db_runs db). 0 \<le> m \<longrightarrow> \<not> event_id_taken db (fst (fresh m))"
    using assms(4) by simp
  from recover_loop_effect [OF assms(1,2) filter_is_subset d i l f, of now "[]"]
  obtain db' where db': "recover_loop pj fresh 0 db now ?rows [] = (db', Ok ([] @ map run_id ?rows))"
      "db_runs db' = sql_update (\<lambda>r. r \<in> set ?rows) (recovered_row now) (db_runs db)"
    by blast
  moreover have "sql_update (\<lambda>r. r \<in> set ?rows) (recovered_row now) (db_runs db)
      = sql_update interrupted (recovered_row now) (db_runs db)"
    by (auto simp: sql_update_def)
  ultimately show ?thesis
    by (auto simp: recover_interrupted_runs_def withdraw_cancelled_run_approvals_def Let_def)
qed

section \<open>Properties\<close>

definition sample_new_run :: NewRun where
  "sample_new_run = \<lparr>nrun_id = replicate 36 97, nrun_session_id = replicate 36 98,
     nrun_workspace_id = replicate 36 99, nrun_user_id = replicate 36 100,
     nrun_objective = lit ''answer'', nrun_correlation_id = replicate 36 101,
     nrun_started_at = 0\<rparr>"

definition sample_db :: run_db where
  "sample_db = fst (create_run (\<lambda>_. True) empty_db sample_new_run)"

definition sample_fresh :: "nat \<Rightarrow> ident \<times> ident" where
  "sample_fresh n = (replicate 35 48 @ [48 + n mod 10], replicate 36 49)"

definition sample_expected :: ExpectedRunState where
  "sample_expected = \<lparr>exp_state = Received, exp_version = 1\<rparr>"

lemma sample_db_reachable: "db_step\<^sup>*\<^sup>* empty_db sample_db"
  unfolding sample_db_def by (intro r_into_rtranclp op_create)

lemma sample_db_inv: "db_inv sample_db"
  using create_run_grows [of empty_db] empty_db_inv by (simp add: sample_db_def db_grows_def)

lemma sample_db_runs: "db_runs sample_db =
   [\<lparr>run_parent = None, run_is_delegated = False, run_id = replicate 36 97,
     run_session_id = replicate 36 98, run_workspace_id = replicate 36 99,
     run_objective = lit ''answer'', run_state = Received, run_version = 1,
     run_cancellation_requested_at = None, run_terminal_outcome = None,
     run_completed_at = None, run_error_code = None, run_started_at = 0\<rparr>]"
  "db_events sample_db = []"
  by (simp_all add: sample_db_def create_run_def empty_db_def sample_new_run_def Let_def)



text \<open>A settled run is immutable. After any further operations its row is still there, with
  every column unchanged: no transition, second settlement, cancellation or recovery touches it.\<close>

theorem settled_run_immutable:
  assumes "db_step\<^sup>*\<^sup>* db db'" "r \<in> set (db_runs db)" "RunState_is_terminal (run_state r)"
  shows "r \<in> set (db_runs db')"
  using db_steps_grow [OF assms(1)] settled_row_stays assms(2,3) by (auto simp: db_grows_def)

definition sample_settled_db :: run_db where
  "sample_settled_db = fst (transition_run sample_db (replicate 36 97) sample_expected
     (RunTransition_failed INTERRUPTED_ERROR_CODE) 5)"

lemma sample_settled_runs: "db_runs sample_settled_db =
    [advance_row (RunTransition_failed INTERRUPTED_ERROR_CODE) 5 (hd (db_runs sample_db))]"
  by (simp add: sample_settled_db_def transition_run_def RunTransition_apply_def sample_expected_def
      RunTransition_failed_def sample_db_runs sql_update_def matches_expectation_def
      rows_affected_def require_run_transition_def Let_def)

theorem settled_run_immutable_witness:
  "hd (db_runs sample_settled_db) \<in> set (db_runs (fst (request_run_cancellation (\<lambda>_. None)
     sample_fresh sample_settled_db (replicate 36 97) 9)))"
proof (rule settled_run_immutable)
  show "db_step\<^sup>*\<^sup>* sample_settled_db (fst (request_run_cancellation (\<lambda>_. None)
     sample_fresh sample_settled_db (replicate 36 97) 9))"
    by (intro r_into_rtranclp op_cancel)
qed (simp_all add: sample_settled_runs advance_row_def RunTransition_failed_def)

text \<open>C29: transitions are exclusive. When a caller's transition succeeds, every later transition
  that carries the same expectation, whatever happened in between, is refused and writes
  nothing: of any number of callers that read the same version, exactly one advances the run.\<close>

theorem transition_exclusive:
  assumes "db_inv db" "transition_wf t" "transition_run db rid x t at = (db1, Ok r)"
    and "db_step\<^sup>*\<^sup>* db1 db2"
  shows "\<exists>e. transition_run db2 rid x t' at' = (db2, Err e)
           \<and> (e = RunConflict \<or> (\<exists>e'. e = RunTransitionRefused e'))"
proof (rule no_match_conflict)
  have "db_inv db1"
    using transition_run_grows [OF assms(2), of db rid x at] assms(1,3) by (simp add: db_grows_def)
  then have "runs_inv (db_runs db2)"
    using db_steps_grow [OF assms(4)] by (simp add: db_grows_def db_inv_def)
  moreover have "past_expectation db2 rid x"
    using transition_run_past [OF assms(3)] db_steps_grow [OF assms(4)]
    by (rule past_expectation_grows)
  ultimately show "q \<in> set (db_runs db2) \<Longrightarrow> \<not> matches_expectation rid x q" for q
    by (intro past_expectation_no_match)
qed

theorem transition_exclusive_witness:
  "\<exists>e. transition_run sample_settled_db (replicate 36 97) sample_expected RunTransition_cancelled 7
       = (sample_settled_db, Err e) \<and> (e = RunConflict \<or> (\<exists>e'. e = RunTransitionRefused e'))"
proof (rule transition_exclusive [OF sample_db_inv])
  show "transition_run sample_db (replicate 36 97) sample_expected
      (RunTransition_failed INTERRUPTED_ERROR_CODE) 5
      = (sample_settled_db, Ok (hd (db_runs sample_settled_db)))"
    by (simp add: sample_settled_db_def transition_run_def RunTransition_apply_def
        sample_expected_def RunTransition_failed_def sample_db_runs sql_update_def
        matches_expectation_def rows_affected_def require_run_transition_def find_run_def
        advance_row_def check_stored_consistency_def Let_def)
qed simp_all

text \<open>A run's row only moves along the documented transition table. Between any two moments
  the row keeps its identity, its version never decreases, its state is reachable through legal
  edges, and a recorded cancellation request is never lost or re-stamped.\<close>

theorem run_history_lawful:
  assumes "db_step\<^sup>*\<^sup>* db db'" "r \<in> set (db_runs db)"
  shows "\<exists>r' \<in> set (db_runs db'). run_id r' = run_id r \<and> run_version r \<le> run_version r'
    \<and> can_transition_to\<^sup>*\<^sup>* (run_state r) (run_state r')
    \<and> (\<forall>t. run_cancellation_requested_at r = Some t \<longrightarrow> run_cancellation_requested_at r' = Some t)"
proof -
  obtain r' where "r' \<in> set (db_runs db')" "row_step\<^sup>*\<^sup>* r r'"
    using db_steps_grow [OF assms(1)] assms(2) by (auto simp: db_grows_def elim: runs_evolve_member)
  then show ?thesis using row_steps_facts [of r r'] by blast
qed

theorem run_history_lawful_witness:
  "\<exists>r' \<in> set (db_runs (fst (recover_interrupted_runs (\<lambda>_. None) sample_fresh sample_db 9))).
     run_id r' = replicate 36 97 \<and> 1 \<le> run_version r'
     \<and> can_transition_to\<^sup>*\<^sup>* Received (run_state r')"
proof -
  have "db_step\<^sup>*\<^sup>* sample_db (fst (recover_interrupted_runs (\<lambda>_. None) sample_fresh sample_db 9))"
    by (intro r_into_rtranclp op_recover)
  from run_history_lawful [OF this, of "hd (db_runs sample_db)"] show ?thesis
    by (auto simp: sample_db_runs)
qed

text \<open>C30: recovery after a restart settles exactly the interrupted runs. It returns \<open>Ok\<close> with their
  identifiers in table order, and afterwards every interrupted row has been advanced once, to
  cancelled when its cancellation had been requested and to failed with the restart code
  otherwise; every other row (settled, or parked without a cancellation request) is unchanged.\<close>

theorem recovery_settles_interrupted:
  assumes "db_inv db" "\<forall>r \<in> set (db_runs db). str_len (run_id r) = 36"
    and "recovery_env parse_json fresh (length (db_runs db))"
    and "\<forall>m < length (db_runs db). \<not> event_id_taken db (fst (fresh m))"
  shows "\<exists>db'. recover_interrupted_runs parse_json fresh db now
      = (db', Ok (map run_id (filter interrupted (db_runs db))))
    \<and> db_runs db' = sql_update interrupted
        (\<lambda>r. advance_row (if run_cancellation_requested_at r \<noteq> None then RunTransition_cancelled
                          else RunTransition_failed INTERRUPTED_ERROR_CODE) now r) (db_runs db)
    \<and> list_all (\<lambda>r. RunState_is_terminal (run_state r) \<or> run_state r = AwaitingApproval) (db_runs db')"
proof -
  obtain db' where db': "recover_interrupted_runs parse_json fresh db now
      = (db', Ok (map run_id (filter interrupted (db_runs db))))"
      "db_runs db' = sql_update interrupted (recovered_row now) (db_runs db)"
    using recover_interrupted_runs_effect [OF assms(3) _ assms(2,4)] assms(1)
    by (auto simp: db_inv_def)
  moreover have "list_all (\<lambda>r. RunState_is_terminal (run_state r) \<or> run_state r = AwaitingApproval)
      (db_runs db')"
    using recovery_terminal
    by (auto simp: db'(2) sql_update_def list_all_iff recovered_row_def advance_row_def interrupted_def)
  ultimately show ?thesis
    by (auto simp: recovered_row_def [abs_def] recovery_transition_def)
qed

theorem recovery_settles_interrupted_witness:
  "\<exists>db'. recover_interrupted_runs (\<lambda>_. Some JsonObject) sample_fresh sample_db 9
      = (db', Ok (map run_id (filter interrupted (db_runs sample_db))))
    \<and> db_runs db' = sql_update interrupted
        (\<lambda>r. advance_row (if run_cancellation_requested_at r \<noteq> None then RunTransition_cancelled
                          else RunTransition_failed INTERRUPTED_ERROR_CODE) 9 r) (db_runs sample_db)
    \<and> list_all (\<lambda>r. RunState_is_terminal (run_state r) \<or> run_state r = AwaitingApproval) (db_runs db')"
  by (rule recovery_settles_interrupted [OF sample_db_inv])
    (simp_all add: sample_db_runs recovery_env_def sample_fresh_def str_len_def utf8_width_def
      event_id_taken_def sum_list_replicate lessThan_Suc)

text \<open>Replay is gapless and ordered. In every reachable store, a page of a known run's events is
  returned, and its sequence numbers are exactly the consecutive numbers from the requested
  start, cut at the requested limit or the end of the stream.\<close>

theorem replay_gapless:
  assumes "db_step\<^sup>*\<^sup>* empty_db db" "find_run_state db rid \<noteq> None"
    and "Sequence_new start = Ok s" "ReplayRequest_new s limit = Ok q"
  shows "\<exists>events. read_run_events db rid q = Ok events
    \<and> map sev_sequence events =
        take (unat limit) [unat start..<Suc (length (run_events_of db rid))]"
proof -
  have inv: "db_inv db" using db_steps_grow [OF assms(1)] empty_db_inv by (simp add: db_grows_def)
  have q: "replay_from q = start" "replay_limit q = limit" "start \<noteq> 0"
    using assms(3,4) by (auto simp: Sequence_new_def ReplayRequest_new_def split: if_splits)
  have "1 \<le> unat start" using q(3) by (simp add: unat_gt_0 Suc_leI)
  then show ?thesis
    using replay_sequences [of db "unat start" "unat limit" rid] inv stream_inv_readable assms(2) q
    by (auto simp: read_run_events_def db_inv_def)
qed

theorem replay_gapless_witness:
  "\<exists>events. read_run_events sample_db (replicate 36 97) \<lparr>replay_from = 1, replay_limit = 5\<rparr> = Ok events
    \<and> map sev_sequence events =
        take (unat (5 :: 32 word)) [unat (1 :: 32 word)..<Suc (length (run_events_of sample_db (replicate 36 97)))]"
proof (rule replay_gapless [OF sample_db_reachable])
  show "Sequence_new 1 = Ok (1 :: 32 word)" by (simp add: Sequence_new_def)
  show "ReplayRequest_new 1 5 = Ok \<lparr>replay_from = 1, replay_limit = 5\<rparr>"
    by (simp add: ReplayRequest_new_def MAX_REPLAY_EVENTS_def)
qed (simp add: find_run_state_def sample_db_runs)

end
