(* ===== verification/Tool_Identity.thy ===== *)
theory Tool_Identity
  imports Core_Values
begin

text \<open>
  Names and grants of the tool layer: canonical tool identifiers
  (\<open>jarvis-tools/src/identifier.rs\<close>), the source class a namespace implies (\<open>policy.rs\<close>), and
  capability scopes with their covering rule (\<open>scope.rs\<close>). The locale \<open>qualified_name\<close> states the
  round trip of a dotted pair once; the locale \<open>grant_order\<close> states what covering gives to a set of
  requirements.
\<close>

section \<open>Tool identifiers\<close>

definition MAX_TOOL_ID_CHARS :: nat where "MAX_TOOL_ID_CHARS = 128"

definition MAX_TOOL_ID_SEGMENT_CHARS :: nat where "MAX_TOOL_ID_SEGMENT_CHARS = 48"

definition MAX_TOOL_VERSION_CHARS :: nat where "MAX_TOOL_VERSION_CHARS = 32"

datatype ToolIdError = ToolId_Empty | ToolId_TooLong | ToolId_NotQualified | ToolId_Segment rstr
  | ToolId_InvalidVersion

record ToolId =
  tid_namespace :: rstr
  tid_name :: rstr

definition version_char :: "uchar \<Rightarrow> bool" where
  "version_char c \<longleftrightarrow> is_ascii_alphanumeric c \<or> c = 46 \<or> c = 45 \<or> c = 95 \<or> c = 43"

definition validate_version :: "rstr \<Rightarrow> ToolIdError + unit" where
  "validate_version s =
     (if s \<noteq> [] \<and> length s \<le> MAX_TOOL_VERSION_CHARS \<and> list_all version_char s
      then Ok () else Err ToolId_InvalidVersion)"

definition operation_char :: "uchar \<Rightarrow> bool" where
  "operation_char c \<longleftrightarrow> is_ascii_lowercase c \<or> is_ascii_digit c \<or> c = 95 \<or> c = 45 \<or> c = 58"

definition validate_segment :: "rstr \<Rightarrow> rstr \<Rightarrow> ToolIdError + unit" where
  "validate_segment s segment =
     (if s \<noteq> [] \<and> length s \<le> MAX_TOOL_ID_SEGMENT_CHARS
        \<and> list_all (\<lambda>c. operation_char c \<or> c = 46) s
      then Ok () else Err (ToolId_Segment segment))"

definition validate_operation :: "rstr \<Rightarrow> ToolIdError + unit" where
  "validate_operation s =
     (if s \<noteq> [] \<and> length s \<le> MAX_TOOL_ID_SEGMENT_CHARS \<and> list_all operation_char s
      then Ok () else Err (ToolId_Segment (lit ''name'')))"

definition ToolId_from_parts :: "rstr \<Rightarrow> rstr \<Rightarrow> ToolIdError + ToolId" where
  "ToolId_from_parts namespace name =
     and_then (validate_segment namespace (lit ''namespace'')) (\<lambda>_.
     and_then (validate_operation name) (\<lambda>_.
       Ok \<lparr>tid_namespace = namespace, tid_name = name\<rparr>))"

definition ToolId_display :: "ToolId \<Rightarrow> rstr" where
  "ToolId_display t = tid_namespace t @ [46] @ tid_name t"

definition ToolId_from_str :: "rstr \<Rightarrow> ToolIdError + ToolId" where
  "ToolId_from_str s =
     (if trim s = [] then Err ToolId_Empty
      else if length s > MAX_TOOL_ID_CHARS then Err ToolId_TooLong
      else case rsplit_once 46 s of
             None \<Rightarrow> Err ToolId_NotQualified
           | Some (namespace, name) \<Rightarrow> ToolId_from_parts namespace name)"

section \<open>Sources\<close>

datatype ToolSource = Native | Connector | Mcp | Runtime | Extension

fun ToolSource_as_str :: "ToolSource \<Rightarrow> rstr" where
  "ToolSource_as_str Native = lit ''native''"
| "ToolSource_as_str Connector = lit ''connector''"
| "ToolSource_as_str Mcp = lit ''mcp''"
| "ToolSource_as_str Runtime = lit ''runtime''"
| "ToolSource_as_str Extension = lit ''extension''"

text \<open>The whole namespace, or a leading segment of it: the marker followed by a dot.\<close>

definition has_marker :: "rstr \<Rightarrow> rstr \<Rightarrow> bool" where
  "has_marker namespace marker \<longleftrightarrow>
     namespace = marker
     \<or> has_prefix marker namespace
       \<and> (case drop (length marker) namespace of [] \<Rightarrow> False | c # _ \<Rightarrow> c = 46)"

definition from_namespace :: "rstr \<Rightarrow> ToolSource" where
  "from_namespace namespace =
     (if has_marker namespace (lit ''jarvis'') then Native
      else if has_marker namespace (lit ''mcp'') then Mcp
      else if has_marker namespace (lit ''runtime'') then Runtime
      else if has_marker namespace (lit ''extension'') then Extension
      else Connector)"

definition is_third_party :: "ToolSource \<Rightarrow> bool" where
  "is_third_party s \<longleftrightarrow> s = Mcp \<or> s = Runtime \<or> s = Extension"

definition ToolId_source :: "ToolId \<Rightarrow> ToolSource" where
  "ToolId_source t = from_namespace (tid_namespace t)"

section \<open>Scopes\<close>

definition MAX_SCOPE_CHARS :: nat where "MAX_SCOPE_CHARS = 64"

definition MAX_SCOPE_SEGMENT_CHARS :: nat where "MAX_SCOPE_SEGMENT_CHARS = 40"

definition WILDCARD_ACTION :: rstr where "WILDCARD_ACTION = lit ''*''"

datatype ScopeError = Scope_Empty | Scope_TooLong | Scope_NotQualified | Scope_Segment rstr

record Scope =
  scope_resource :: rstr
  scope_action :: rstr

definition scope_char :: "uchar \<Rightarrow> bool" where
  "scope_char c \<longleftrightarrow> is_ascii_lowercase c \<or> is_ascii_digit c \<or> c = 95 \<or> c = 45 \<or> c = 46"

definition validate_simple :: "rstr \<Rightarrow> rstr \<Rightarrow> ScopeError + unit" where
  "validate_simple s segment =
     (if s \<noteq> [] \<and> length s \<le> MAX_SCOPE_SEGMENT_CHARS \<and> list_all scope_char s
      then Ok () else Err (Scope_Segment segment))"

definition Scope_from_parts :: "rstr \<Rightarrow> rstr \<Rightarrow> ScopeError + Scope" where
  "Scope_from_parts resource action =
     and_then (validate_simple resource (lit ''resource'')) (\<lambda>_.
     and_then (if action \<noteq> WILDCARD_ACTION then validate_simple action (lit ''action'') else Ok ()) (\<lambda>_.
       Ok \<lparr>scope_resource = resource, scope_action = action\<rparr>))"

definition is_wildcard :: "Scope \<Rightarrow> bool" where
  "is_wildcard s \<longleftrightarrow> scope_action s = WILDCARD_ACTION"

definition covers :: "Scope \<Rightarrow> Scope \<Rightarrow> bool" where
  "covers s required =
     (if scope_resource s \<noteq> scope_resource required then False
      else is_wildcard s \<or> scope_action s = scope_action required)"

definition Scope_display :: "Scope \<Rightarrow> rstr" where
  "Scope_display s = scope_resource s @ [46] @ scope_action s"

definition Scope_from_str :: "rstr \<Rightarrow> ScopeError + Scope" where
  "Scope_from_str s =
     (if trim s = [] then Err Scope_Empty
      else if length s > MAX_SCOPE_CHARS then Err Scope_TooLong
      else case rsplit_once 46 s of
             None \<Rightarrow> Err Scope_NotQualified
           | Some (resource, action) \<Rightarrow> Scope_from_parts resource action)"

text \<open>A \<open>BTreeSet\<close> of scopes; its order is not observed by the operations.\<close>

type_synonym ScopeSet = "Scope set"

definition ScopeSet_new :: "Scope list \<Rightarrow> ScopeSet" where
  "ScopeSet_new scopes = set scopes"

definition is_satisfied_by :: "ScopeSet \<Rightarrow> ScopeSet \<Rightarrow> bool" where
  "is_satisfied_by required held \<longleftrightarrow> (\<forall>r \<in> required. \<exists>g \<in> held. covers g r)"

section \<open>Interfaces\<close>

subsection \<open>Grants\<close>

locale grant_order =
  fixes grants :: "'g \<Rightarrow> 'g \<Rightarrow> bool"
    and satisfied :: "'g set \<Rightarrow> 'g set \<Rightarrow> bool"
  assumes grants_refl: "grants g g"
    and grants_trans: "grants a b \<Longrightarrow> grants b c \<Longrightarrow> grants a c"
    and satisfied_iff: "satisfied required held \<longleftrightarrow> (\<forall>r \<in> required. \<exists>g \<in> held. grants g r)"
begin

lemma satisfied_self: "satisfied s s"
  using grants_refl by (auto simp: satisfied_iff)

lemma satisfied_mono: "satisfied r h \<Longrightarrow> r' \<subseteq> r \<Longrightarrow> h \<subseteq> h' \<Longrightarrow> satisfied r' h'"
  unfolding satisfied_iff by blast

lemma satisfied_trans: "satisfied a b \<Longrightarrow> satisfied b c \<Longrightarrow> satisfied a c"
  unfolding satisfied_iff by (meson grants_trans)

lemma satisfied_union: "satisfied (a \<union> b) h \<longleftrightarrow> satisfied a h \<and> satisfied b h"
  by (auto simp: satisfied_iff)

end

subsection \<open>Qualified names\<close>

text \<open>
  A pair written \<open>left.right\<close> and read at the last dot is recovered when the right half has no dot
  and the parser's outer checks pass.
\<close>

locale qualified_name =
  fixes display :: "'n \<Rightarrow> rstr"
    and left :: "'n \<Rightarrow> rstr"
    and right :: "'n \<Rightarrow> rstr"
    and parse :: "rstr \<Rightarrow> 'e + 'n"
    and build :: "rstr \<Rightarrow> rstr \<Rightarrow> 'e + 'n"
    and limit :: nat
  assumes display_eq: "display n = left n @ [46] @ right n"
    and build_halves: "build l r = Inr n \<Longrightarrow> left n = l \<and> right n = r"
    and parse_split: "length s \<le> limit \<Longrightarrow> rsplit_once 46 s = Some (l, r) \<Longrightarrow> parse s = build l r"
    and parse_Ok: "parse s = Inr n \<Longrightarrow>
      length s \<le> limit \<and> (\<exists>l r. rsplit_once 46 s = Some (l, r) \<and> build l r = Inr n)"
begin

lemma parse_display:
  assumes "build (left n) (right n) = Inr n" "46 \<notin> set (right n)" "length (display n) \<le> limit"
  shows "parse (display n) = Inr n"
proof -
  have "rsplit_once 46 (display n) = Some (left n, right n)"
    using assms(2) by (simp add: rsplit_once_Some display_eq)
  with assms show ?thesis by (simp add: parse_split)
qed

lemma display_parse: "parse s = Inr n \<Longrightarrow> display n = s"
  using parse_Ok build_halves by (fastforce simp: display_eq rsplit_once_Some)

lemma parse_right_plain: "parse s = Inr n \<Longrightarrow> 46 \<notin> set (right n)"
  using parse_Ok build_halves by (fastforce simp: rsplit_once_Some)

lemma parse_stable:
  assumes "parse s = Inr n"
  shows "parse (display n) = Inr n"
  using assms display_parse by metis

lemma parse_inj_string: "parse s = Inr n \<Longrightarrow> parse t = Inr n \<Longrightarrow> s = t"
  using display_parse by metis

end

section \<open>Lemmas\<close>

lemma trim_nonblank: "46 \<in> set s \<Longrightarrow> trim s \<noteq> []"
  unfolding trim_eq_Nil by (rule notI, drule bspec [of _ _ 46]) (simp_all add: is_whitespace_def)

lemma rsplit_once_mem: "rsplit_once d s = Some p \<Longrightarrow> d \<in> set s"
  by (cases p) (auto simp: rsplit_once_Some)

lemma ToolId_from_parts_Ok:
  "ToolId_from_parts ns n = Ok t \<longleftrightarrow>
     t = \<lparr>tid_namespace = ns, tid_name = n\<rparr>
     \<and> ns \<noteq> [] \<and> length ns \<le> 48 \<and> list_all (\<lambda>c. operation_char c \<or> c = 46) ns
     \<and> n \<noteq> [] \<and> length n \<le> 48 \<and> list_all operation_char n"
  by (auto simp: ToolId_from_parts_def validate_segment_def validate_operation_def
      MAX_TOOL_ID_SEGMENT_CHARS_def split: if_splits)

interpretation tool_name: qualified_name
  ToolId_display tid_namespace tid_name ToolId_from_str ToolId_from_parts MAX_TOOL_ID_CHARS
proof
  fix s l r n
  show "ToolId_display n = tid_namespace n @ [46] @ tid_name n" by (simp add: ToolId_display_def)
  show "ToolId_from_parts l r = Inr n \<Longrightarrow> tid_namespace n = l \<and> tid_name n = r"
    by (simp add: ToolId_from_parts_Ok)
  show "length s \<le> MAX_TOOL_ID_CHARS \<Longrightarrow> rsplit_once 46 s = Some (l, r)
      \<Longrightarrow> ToolId_from_str s = ToolId_from_parts l r"
    using trim_nonblank rsplit_once_mem by (simp add: ToolId_from_str_def)
  show "ToolId_from_str s = Inr n \<Longrightarrow> length s \<le> MAX_TOOL_ID_CHARS
      \<and> (\<exists>l r. rsplit_once 46 s = Some (l, r) \<and> ToolId_from_parts l r = Inr n)"
    by (auto simp: ToolId_from_str_def split: if_splits option.splits)
qed

lemma Scope_from_parts_Ok:
  "Scope_from_parts r a = Ok s \<longleftrightarrow>
     s = \<lparr>scope_resource = r, scope_action = a\<rparr>
     \<and> r \<noteq> [] \<and> length r \<le> 40 \<and> list_all scope_char r
     \<and> (a = WILDCARD_ACTION \<or> a \<noteq> [] \<and> length a \<le> 40 \<and> list_all scope_char a)"
  by (auto simp: Scope_from_parts_def validate_simple_def MAX_SCOPE_SEGMENT_CHARS_def
      split: if_splits)

interpretation scope_name: qualified_name
  Scope_display scope_resource scope_action Scope_from_str Scope_from_parts MAX_SCOPE_CHARS
proof
  fix s l r n
  show "Scope_display n = scope_resource n @ [46] @ scope_action n" by (simp add: Scope_display_def)
  show "Scope_from_parts l r = Inr n \<Longrightarrow> scope_resource n = l \<and> scope_action n = r"
    by (simp add: Scope_from_parts_Ok)
  show "length s \<le> MAX_SCOPE_CHARS \<Longrightarrow> rsplit_once 46 s = Some (l, r)
      \<Longrightarrow> Scope_from_str s = Scope_from_parts l r"
    using trim_nonblank rsplit_once_mem by (simp add: Scope_from_str_def)
  show "Scope_from_str s = Inr n \<Longrightarrow> length s \<le> MAX_SCOPE_CHARS
      \<and> (\<exists>l r. rsplit_once 46 s = Some (l, r) \<and> Scope_from_parts l r = Inr n)"
    by (auto simp: Scope_from_str_def split: if_splits option.splits)
qed

interpretation scope_grants: grant_order covers is_satisfied_by
  by unfold_locales (auto simp: covers_def is_wildcard_def is_satisfied_by_def split: if_splits)

lemma operation_char_no_dot: "list_all operation_char n \<Longrightarrow> 46 \<notin> set n"
  by (auto simp: list_all_iff operation_char_def char_class_defs)

lemma has_marker_iff: "has_marker ns m \<longleftrightarrow> ns = m \<or> (\<exists>rest. ns = m @ [46] @ rest)"
proof
  assume "has_marker ns m"
  then show "ns = m \<or> (\<exists>rest. ns = m @ [46] @ rest)"
    by (auto simp: has_marker_def has_prefix_iff split: list.splits)
qed (auto simp: has_marker_def has_prefix_iff)

section \<open>Properties\<close>

text \<open>Tool identifiers are canonical. Every identifier built from accepted halves prints to a
  string that parses back to it, and every string that parses is the printed form of what it
  parses to, so one string names exactly one tool.\<close>

theorem tool_id_canonical:
  "(ToolId_from_parts ns n = Ok t \<longrightarrow> ToolId_from_str (ToolId_display t) = Ok t)
   \<and> (ToolId_from_str s = Ok t \<longrightarrow> ToolId_display t = s)"
proof (intro conjI impI)
  assume p: "ToolId_from_parts ns n = Ok t"
  then have "length (ToolId_display t) \<le> MAX_TOOL_ID_CHARS"
    by (simp add: ToolId_from_parts_Ok ToolId_display_def MAX_TOOL_ID_CHARS_def)
  with p show "ToolId_from_str (ToolId_display t) = Ok t"
    using operation_char_no_dot by (intro tool_name.parse_display) (auto simp: ToolId_from_parts_Ok)
qed (rule tool_name.display_parse)

theorem tool_id_canonical_witness:
  "ToolId_from_str (lit ''mcp.github.search'')
     = Ok \<lparr>tid_namespace = lit ''mcp.github'', tid_name = lit ''search''\<rparr>"
proof -
  let ?t = "\<lparr>tid_namespace = lit ''mcp.github'', tid_name = lit ''search''\<rparr>"
  have "ToolId_from_parts (lit ''mcp.github'') (lit ''search'') = Ok ?t"
    by (simp add: ToolId_from_parts_Ok lit_def operation_char_def char_class_defs)
  then have "ToolId_from_str (ToolId_display ?t) = Ok ?t"
    using tool_id_canonical [of "lit ''mcp.github''" "lit ''search''" ?t "[]"] by blast
  then show ?thesis by (simp add: ToolId_display_def lit_def)
qed

text \<open>Scope satisfaction is a preorder on grants: holding exactly what is required suffices,
  holding more never loses a permission and requiring less never needs one, satisfaction
  composes, and a grant on one resource never satisfies a requirement on another.\<close>

theorem scope_satisfaction:
  "is_satisfied_by s s
   \<and> (is_satisfied_by r h \<longrightarrow> r' \<subseteq> r \<longrightarrow> h \<subseteq> h' \<longrightarrow> is_satisfied_by r' h')
   \<and> (is_satisfied_by a b \<longrightarrow> is_satisfied_by b c \<longrightarrow> is_satisfied_by a c)
   \<and> (is_satisfied_by {q} h \<longrightarrow> (\<exists>g \<in> h. scope_resource g = scope_resource q
        \<and> (scope_action g = WILDCARD_ACTION \<or> scope_action g = scope_action q)))"
proof (intro conjI impI)
  show "is_satisfied_by s s" by (rule scope_grants.satisfied_self)
  show "is_satisfied_by r h \<Longrightarrow> r' \<subseteq> r \<Longrightarrow> h \<subseteq> h' \<Longrightarrow> is_satisfied_by r' h'"
    by (rule scope_grants.satisfied_mono)
  show "is_satisfied_by a b \<Longrightarrow> is_satisfied_by b c \<Longrightarrow> is_satisfied_by a c"
    by (rule scope_grants.satisfied_trans)
  show "is_satisfied_by {q} h \<Longrightarrow> \<exists>g \<in> h. scope_resource g = scope_resource q
        \<and> (scope_action g = WILDCARD_ACTION \<or> scope_action g = scope_action q)"
    by (auto simp: is_satisfied_by_def covers_def is_wildcard_def split: if_splits)
qed

definition sample_scope :: "string \<Rightarrow> string \<Rightarrow> Scope" where
  "sample_scope r a = \<lparr>scope_resource = lit r, scope_action = lit a\<rparr>"

theorem scope_satisfaction_witness:
  "is_satisfied_by {sample_scope ''files'' ''read''}
     {sample_scope ''files'' ''*'', sample_scope ''gmail'' ''send''}"
proof -
  have "is_satisfied_by {sample_scope ''files'' ''read''} {sample_scope ''files'' ''*''}"
    by (simp add: is_satisfied_by_def covers_def is_wildcard_def WILDCARD_ACTION_def
        sample_scope_def)
  from scope_satisfaction [THEN conjunct2, THEN conjunct1, rule_format, OF this order_refl]
  show ?thesis by simp
qed

text \<open>A scope built from halves need not survive its own text. The string form is read at the
  last dot, and \<open>from_parts\<close> accepts a dotted action, so the pair \<open>drive\<close> and \<open>files.read\<close> prints as
  a scope that parses to a different resource, one the original grant does not cover.\<close>

theorem scope_parts_not_canonical:
  "\<exists>s s'. Scope_from_parts (lit ''drive'') (lit ''files.read'') = Ok s
     \<and> Scope_from_str (Scope_display s) = Ok s' \<and> s' \<noteq> s \<and> \<not> covers s s'"
proof -
  let ?s = "\<lparr>scope_resource = lit ''drive'', scope_action = lit ''files.read''\<rparr>"
  let ?s' = "\<lparr>scope_resource = lit ''drive.files'', scope_action = lit ''read''\<rparr>"
  have "Scope_from_parts (lit ''drive'') (lit ''files.read'') = Ok ?s"
    by (simp add: Scope_from_parts_Ok lit_def scope_char_def char_class_defs)
  moreover have "Scope_from_str (Scope_display ?s) = Ok ?s'"
  proof -
    have "rsplit_once 46 (Scope_display ?s) = Some (lit ''drive.files'', lit ''read'')"
      by (simp add: rsplit_once_Some Scope_display_def lit_def)
    moreover have "length (Scope_display ?s) \<le> MAX_SCOPE_CHARS"
      by (simp add: Scope_display_def MAX_SCOPE_CHARS_def)
    ultimately have "Scope_from_str (Scope_display ?s)
        = Scope_from_parts (lit ''drive.files'') (lit ''read'')"
      by (intro scope_name.parse_split)
    also have "\<dots> = Ok ?s'"
      by (simp add: Scope_from_parts_Ok lit_def scope_char_def char_class_defs)
    finally show ?thesis .
  qed
  ultimately show ?thesis by (intro exI [of _ ?s] exI [of _ ?s']) (simp add: covers_def)
qed

end
