(* ===== verification/Tool_Outcome.thy ===== *)
theory Tool_Outcome
  imports Core_Values
begin

text \<open>
  What a tool call establishes (\<open>jarvis-core/src/tool_outcome.rs\<close>): the outcome vocabulary, its
  table of progressions, and the record that pairs an outcome with the evidence or reason it
  claims.
\<close>

definition MAX_OUTCOME_DETAIL_CHARS :: nat where "MAX_OUTCOME_DETAIL_CHARS = 512"

datatype ToolOutcome = Requested | Authorized | Submitted | Confirmed | Tool_Failed | Unknown
  | Tool_Cancelled

datatype InvalidToolOutcome = InvalidToolOutcome

fun ToolOutcome_as_str :: "ToolOutcome \<Rightarrow> rstr" where
  "ToolOutcome_as_str Requested = lit ''requested''"
| "ToolOutcome_as_str Authorized = lit ''authorized''"
| "ToolOutcome_as_str Submitted = lit ''submitted''"
| "ToolOutcome_as_str Confirmed = lit ''confirmed''"
| "ToolOutcome_as_str Tool_Failed = lit ''failed''"
| "ToolOutcome_as_str Unknown = lit ''unknown''"
| "ToolOutcome_as_str Tool_Cancelled = lit ''cancelled''"

definition ToolOutcome_is_terminal :: "ToolOutcome \<Rightarrow> bool" where
  "ToolOutcome_is_terminal t \<longleftrightarrow>
     t = Confirmed \<or> t = Tool_Failed \<or> t = Unknown \<or> t = Tool_Cancelled"

definition reached_provider :: "ToolOutcome \<Rightarrow> bool" where
  "reached_provider t \<longleftrightarrow> t = Submitted \<or> t = Confirmed \<or> t = Tool_Failed \<or> t = Unknown"

definition is_reported :: "ToolOutcome \<Rightarrow> bool" where
  "is_reported t \<longleftrightarrow> \<not> (t = Requested \<or> t = Authorized)"

definition may_have_had_an_effect :: "ToolOutcome \<Rightarrow> bool" where
  "may_have_had_an_effect t \<longleftrightarrow> t = Submitted \<or> t = Unknown"

definition is_safe_to_repeat_from_outcome :: "ToolOutcome \<Rightarrow> bool" where
  "is_safe_to_repeat_from_outcome t \<longleftrightarrow>
     t = Requested \<or> t = Authorized \<or> t = Tool_Failed \<or> t = Tool_Cancelled"

definition ToolOutcome_all :: "ToolOutcome list" where
  "ToolOutcome_all =
     [Requested, Authorized, Submitted, Confirmed, Tool_Failed, Unknown, Tool_Cancelled]"

fun can_advance_to :: "ToolOutcome \<Rightarrow> ToolOutcome \<Rightarrow> bool" where
  "can_advance_to Requested t =
     (t = Authorized \<or> t = Tool_Failed \<or> t = Tool_Cancelled \<or> t = Unknown)"
| "can_advance_to Authorized t =
     (t = Submitted \<or> t = Tool_Failed \<or> t = Tool_Cancelled \<or> t = Unknown)"
| "can_advance_to Submitted t =
     (t = Confirmed \<or> t = Tool_Failed \<or> t = Unknown \<or> t = Tool_Cancelled)"
| "can_advance_to Confirmed t = False"
| "can_advance_to Tool_Failed t = False"
| "can_advance_to Unknown t = False"
| "can_advance_to Tool_Cancelled t = False"

definition ToolOutcome_from_str :: "rstr \<Rightarrow> InvalidToolOutcome + ToolOutcome" where
  "ToolOutcome_from_str s =
     (if s = lit ''requested'' then Ok Requested
      else if s = lit ''authorized'' then Ok Authorized
      else if s = lit ''submitted'' then Ok Submitted
      else if s = lit ''confirmed'' then Ok Confirmed
      else if s = lit ''failed'' then Ok Tool_Failed
      else if s = lit ''unknown'' then Ok Unknown
      else if s = lit ''cancelled'' then Ok Tool_Cancelled
      else Err InvalidToolOutcome)"

section \<open>Records\<close>

datatype ToolOutcomeError = ConfirmedWithoutEvidence | FailedWithoutReason | DetailTooLong

record ToolOutcomeRecord =
  rec_outcome :: ToolOutcome
  rec_evidence :: "rstr option"
  rec_reason :: "rstr option"

definition bounded :: "rstr \<Rightarrow> ToolOutcomeError \<Rightarrow> ToolOutcomeError + rstr" where
  "bounded value empty_error =
     (let trimmed = trim value in
      if trimmed = [] then Err empty_error
      else if length trimmed > MAX_OUTCOME_DETAIL_CHARS then Err DetailTooLong
      else map_err (\<lambda>_. DetailTooLong) (SafeMessage_new trimmed))"

fun ToolOutcomeRecord_new :: "ToolOutcome \<Rightarrow> ToolOutcomeError + ToolOutcomeRecord" where
  "ToolOutcomeRecord_new Confirmed = Err ConfirmedWithoutEvidence"
| "ToolOutcomeRecord_new Tool_Failed = Err FailedWithoutReason"
| "ToolOutcomeRecord_new other = Ok \<lparr>rec_outcome = other, rec_evidence = None, rec_reason = None\<rparr>"

definition ToolOutcomeRecord_confirmed :: "rstr \<Rightarrow> ToolOutcomeError + ToolOutcomeRecord" where
  "ToolOutcomeRecord_confirmed evidence =
     map_ok (\<lambda>e. \<lparr>rec_outcome = Confirmed, rec_evidence = Some e, rec_reason = None\<rparr>)
       (bounded evidence ConfirmedWithoutEvidence)"

definition ToolOutcomeRecord_failed :: "rstr \<Rightarrow> ToolOutcomeError + ToolOutcomeRecord" where
  "ToolOutcomeRecord_failed reason =
     map_ok (\<lambda>r. \<lparr>rec_outcome = Tool_Failed, rec_evidence = None, rec_reason = Some r\<rparr>)
       (bounded reason FailedWithoutReason)"

text \<open>\<open>Option::map(..).transpose()?\<close>.\<close>

definition transpose_bounded ::
  "rstr option \<Rightarrow> ToolOutcomeError \<Rightarrow> ToolOutcomeError + rstr option" where
  "transpose_bounded value e =
     (case value of None \<Rightarrow> Ok None | Some v \<Rightarrow> map_ok Some (bounded v e))"

definition ToolOutcomeRecord_from_stored ::
  "ToolOutcome \<Rightarrow> rstr option \<Rightarrow> rstr option \<Rightarrow> ToolOutcomeError + ToolOutcomeRecord" where
  "ToolOutcomeRecord_from_stored outcome evidence reason =
     and_then (transpose_bounded evidence ConfirmedWithoutEvidence) (\<lambda>e.
     and_then (transpose_bounded reason FailedWithoutReason) (\<lambda>r.
       if outcome = Confirmed \<and> e = None then Err ConfirmedWithoutEvidence
       else if outcome = Tool_Failed \<and> r = None then Err FailedWithoutReason
       else Ok \<lparr>rec_outcome = outcome, rec_evidence = e, rec_reason = r\<rparr>))"

section \<open>Lemmas\<close>

interpretation tool_outcome_wire: wire_vocabulary
  ToolOutcome_as_str ToolOutcome_from_str ToolOutcome_all
proof
  fix x s
  show "ToolOutcome_from_str (ToolOutcome_as_str x) = Ok x"
    by (cases x; simp add: ToolOutcome_from_str_def)
  show "x \<in> set ToolOutcome_all" by (cases x; simp add: ToolOutcome_all_def)
  show "ToolOutcome_from_str s = Ok x \<Longrightarrow> s = ToolOutcome_as_str x"
    by (auto simp: ToolOutcome_from_str_def split: if_splits)
qed

interpretation tool_life: lifecycle can_advance_to ToolOutcome_is_terminal
proof
  fix s t
  show "ToolOutcome_is_terminal s \<Longrightarrow> \<not> can_advance_to s t"
    by (cases s; simp add: ToolOutcome_is_terminal_def)
  show "\<exists>t. can_advance_to s t \<and> ToolOutcome_is_terminal t" if "\<not> ToolOutcome_is_terminal s"
    using that by (intro exI [of _ Unknown]) (cases s; simp add: ToolOutcome_is_terminal_def)
qed

lemma bounded_Ok:
  "bounded v e = Ok b \<longleftrightarrow>
     b = trim v \<and> b \<noteq> [] \<and> length b \<le> 512 \<and> str_len b \<le> 512 \<and> (\<forall>c \<in> set b. \<not> is_control c)"
  by (auto simp: bounded_def Let_def SafeMessage_new_Ok MAX_OUTCOME_DETAIL_CHARS_def)

lemma bounded_idem: "bounded v e = Ok b \<Longrightarrow> bounded b e' = Ok b"
  by (auto simp: bounded_Ok)

text \<open>The honesty rule: a confirmation carries evidence, a failure carries a reason.\<close>

definition record_honest :: "ToolOutcomeRecord \<Rightarrow> bool" where
  "record_honest r \<longleftrightarrow> (rec_outcome r = Confirmed \<longrightarrow> rec_evidence r \<noteq> None)
     \<and> (rec_outcome r = Tool_Failed \<longrightarrow> rec_reason r \<noteq> None)
     \<and> (\<forall>d. rec_evidence r = Some d \<or> rec_reason r = Some d \<longrightarrow> bounded d DetailTooLong = Ok d)"

lemma transpose_bounded_Ok:
  "transpose_bounded v e = Ok x \<longleftrightarrow>
     (case v of None \<Rightarrow> x = None | Some a \<Rightarrow> (\<exists>b. bounded a e = Ok b \<and> x = Some b))"
  by (cases v) (auto simp: transpose_bounded_def)

lemma record_honest_intro:
  assumes "oc = Confirmed \<Longrightarrow> e \<noteq> None" "oc = Tool_Failed \<Longrightarrow> r \<noteq> None"
    and "\<And>d. e = Some d \<Longrightarrow> \<exists>v x. bounded v x = Ok d" "\<And>d. r = Some d \<Longrightarrow> \<exists>v x. bounded v x = Ok d"
  shows "record_honest \<lparr>rec_outcome = oc, rec_evidence = e, rec_reason = r\<rparr>"
  using assms bounded_idem unfolding record_honest_def by simp blast

lemma from_stored_honest:
  assumes "ToolOutcomeRecord_from_stored oc ev rs = Ok r"
  shows "record_honest r"
proof -
  obtain e x where "transpose_bounded ev ConfirmedWithoutEvidence = Ok e"
      "transpose_bounded rs FailedWithoutReason = Ok x"
      "r = \<lparr>rec_outcome = oc, rec_evidence = e, rec_reason = x\<rparr>"
      "oc = Confirmed \<longrightarrow> e \<noteq> None" "oc = Tool_Failed \<longrightarrow> x \<noteq> None"
    using assms by (auto simp: ToolOutcomeRecord_from_stored_def split: if_splits)
  then show ?thesis
    by (auto simp: transpose_bounded_Ok split: option.splits intro!: record_honest_intro)
qed

lemma from_stored_again:
  assumes "record_honest r"
  shows "ToolOutcomeRecord_from_stored (rec_outcome r) (rec_evidence r) (rec_reason r) = Ok r"
proof -
  have "transpose_bounded (rec_evidence r) e = Ok (rec_evidence r)"
    "transpose_bounded (rec_reason r) e = Ok (rec_reason r)" for e
    using assms bounded_idem
    by (auto simp: record_honest_def transpose_bounded_def split: option.splits)
  with assms show ?thesis
    by (auto simp: ToolOutcomeRecord_from_stored_def record_honest_def)
qed

lemma constructors_honest:
  "ToolOutcomeRecord_new oc = Ok r \<Longrightarrow> record_honest r"
  "ToolOutcomeRecord_confirmed d = Ok r \<Longrightarrow> record_honest r"
  "ToolOutcomeRecord_failed d = Ok r \<Longrightarrow> record_honest r"
  by (cases oc; auto simp: ToolOutcomeRecord_confirmed_def ToolOutcomeRecord_failed_def
      intro!: record_honest_intro)+

inductive outcome_path :: "ToolOutcome \<Rightarrow> ToolOutcome list \<Rightarrow> bool" where
  start: "outcome_path Requested [Requested]"
| step: "outcome_path s h \<Longrightarrow> can_advance_to s t \<Longrightarrow> outcome_path t (t # h)"

lemma outcome_path_shape:
  "outcome_path s h \<Longrightarrow>
     (s = Requested \<and> h = [Requested]) \<or> (s = Authorized \<and> h = [Authorized, Requested])
     \<or> (s = Submitted \<and> h = [Submitted, Authorized, Requested])
     \<or> (ToolOutcome_is_terminal s \<and> length h \<le> 4
        \<and> (s = Confirmed \<longrightarrow> h = [Confirmed, Submitted, Authorized, Requested]))"
proof (induction rule: outcome_path.induct)
  case (step s h t)
  from step.IH show ?case
  proof (elim disjE)
    assume "ToolOutcome_is_terminal s \<and> length h \<le> 4
        \<and> (s = Confirmed \<longrightarrow> h = [Confirmed, Submitted, Authorized, Requested])"
    with tool_life.terminal_stuck step.hyps(2) show ?thesis by blast
  qed (use step.hyps(2) in \<open>auto simp: ToolOutcome_is_terminal_def\<close>)
qed simp

lemma outcome_path_bounds:
  "outcome_path s h \<Longrightarrow> length h \<le> 4"
  "outcome_path Confirmed h \<Longrightarrow> h = [Confirmed, Submitted, Authorized, Requested]"
  by (drule outcome_path_shape, auto)+

section \<open>Properties\<close>

text \<open>Confirmation is never claimed early. A call recorded as confirmed went through
  requested, authorized and submitted, in that order and with nothing in between; no call takes
  more than three steps, and a settled call never changes.\<close>

theorem confirmed_only_after_submission:
  "(outcome_path Confirmed h \<longrightarrow> h = [Confirmed, Submitted, Authorized, Requested])
   \<and> (outcome_path s h \<longrightarrow> length h \<le> 4)
   \<and> (can_advance_to\<^sup>*\<^sup>* s t \<longrightarrow> ToolOutcome_is_terminal s \<longrightarrow> t = s)"
  using outcome_path_bounds tool_life.terminal_absorbing by blast

theorem confirmed_only_after_submission_witness:
  "length [Confirmed, Submitted, Authorized, Requested] \<le> 4"
proof -
  have "outcome_path Authorized [Authorized, Requested]"
    by (rule outcome_path.step [OF outcome_path.start]) simp
  from outcome_path.step [OF this, of Submitted]
  have "outcome_path Submitted [Submitted, Authorized, Requested]" by simp
  from outcome_path.step [OF this, of Confirmed]
  have "outcome_path Confirmed [Confirmed, Submitted, Authorized, Requested]" by simp
  then show ?thesis using confirmed_only_after_submission by blast
qed

text \<open>Outcome records are honest, however they are made. Every record a constructor or the
  storage decoder returns carries evidence when it says confirmed and a reason when it says
  failed, each trimmed, single-line and bounded; and every such record is accepted back from
  storage unchanged.\<close>

theorem outcome_records_honest:
  assumes "ToolOutcomeRecord_new oc = Ok r \<or> ToolOutcomeRecord_confirmed d = Ok r
    \<or> ToolOutcomeRecord_failed d = Ok r \<or> ToolOutcomeRecord_from_stored oc ev rs = Ok r"
  shows "record_honest r
    \<and> ToolOutcomeRecord_from_stored (rec_outcome r) (rec_evidence r) (rec_reason r) = Ok r"
  using assms from_stored_honest constructors_honest from_stored_again by blast

theorem outcome_records_honest_witness:
  "record_honest \<lparr>rec_outcome = Confirmed, rec_evidence = Some (lit ''msg-1''), rec_reason = None\<rparr>"
proof -
  have "trim (lit ''msg-1'') = lit ''msg-1''" by (simp add: trim_def lit_def is_whitespace_def)
  then have "ToolOutcomeRecord_confirmed (lit ''msg-1'')
      = Ok \<lparr>rec_outcome = Confirmed, rec_evidence = Some (lit ''msg-1''), rec_reason = None\<rparr>"
    by (simp add: ToolOutcomeRecord_confirmed_def bounded_Ok)
      (simp add: lit_def str_len_def utf8_width_def is_control_def)
  then show ?thesis using outcome_records_honest by blast
qed

end
