(* ===== verification/Risk_Vocabulary.thy ===== *)
theory Risk_Vocabulary
  imports Jarvis_Prelude
begin

text \<open>
  The closed, ordered vocabularies every policy decision is written in: risk levels
  (\<open>jarvis-core/src/risk.rs\<close>), approval policies (\<open>approval_policy.rs\<close>), data sensitivity
  (\<open>sensitivity.rs\<close>) and the signals that escalate a call (\<open>escalation.rs\<close>). Each enum is a
  datatype, its \<open>Ord\<close> an instance of \<open>linorder\<close>, its spelling an interpretation of
  \<open>wire_vocabulary\<close> and its level an interpretation of \<open>severity_scale\<close>.
\<close>

section \<open>Risk\<close>

datatype Risk = Minimal | Low | Moderate | High

datatype RiskError = OutOfRange | BelowEffectFloor nat nat

definition MAX_RISK_LEVEL :: nat where
  "MAX_RISK_LEVEL = 3"

text \<open>Levels are \<open>u8\<close> values; no arithmetic is done on them, so \<open>nat\<close> is exact.\<close>

definition Risk_from_level :: "nat \<Rightarrow> RiskError + Risk" where
  "Risk_from_level n =
     (if n = 0 then Ok Minimal else if n = 1 then Ok Low else if n = 2 then Ok Moderate
      else if n = 3 then Ok High else Err OutOfRange)"

fun Risk_level :: "Risk \<Rightarrow> nat" where
  "Risk_level Minimal = 0"
| "Risk_level Low = 1"
| "Risk_level Moderate = 2"
| "Risk_level High = 3"

fun Risk_as_str :: "Risk \<Rightarrow> rstr" where
  "Risk_as_str Minimal = lit ''minimal''"
| "Risk_as_str Low = lit ''low''"
| "Risk_as_str Moderate = lit ''moderate''"
| "Risk_as_str High = lit ''high''"

definition Risk_all :: "Risk list" where
  "Risk_all = [Minimal, Low, Moderate, High]"

definition Risk_declared_for :: "nat \<Rightarrow> nat \<Rightarrow> RiskError + Risk" where
  "Risk_declared_for declared floor =
     and_then (Risk_from_level declared) (\<lambda>risk.
       if declared < floor then Err (BelowEffectFloor declared floor) else Ok risk)"

instantiation Risk :: linorder
begin

definition less_eq_Risk :: "Risk \<Rightarrow> Risk \<Rightarrow> bool" where
  "less_eq_Risk a b \<longleftrightarrow> Risk_level a \<le> Risk_level b"

definition less_Risk :: "Risk \<Rightarrow> Risk \<Rightarrow> bool" where
  "less_Risk a b \<longleftrightarrow> Risk_level a < Risk_level b"

instance
proof
  fix x y :: Risk
  show "x \<le> y \<Longrightarrow> y \<le> x \<Longrightarrow> x = y"
    by (cases x; cases y; simp add: less_eq_Risk_def)
qed (auto simp: less_eq_Risk_def less_Risk_def)

end

lemmas risk_order = less_eq_Risk_def less_Risk_def

lemma Risk_level_inj [simp]: "Risk_level a = Risk_level b \<longleftrightarrow> a = b"
  by (cases a; cases b; simp)

lemma Risk_level_le_3 [simp]: "Risk_level r \<le> 3"
  by (cases r; simp)

lemma Risk_level_max: "Risk_level (max a b) = max (Risk_level a) (Risk_level b)"
  by (simp add: max_def less_eq_Risk_def)

lemma max_Minimal [simp]: "max a Minimal = a" "max Minimal a = a"
  by (cases a; simp add: max_def less_eq_Risk_def)+

lemma Risk_from_level_level [simp]: "Risk_from_level (Risk_level r) = Ok r"
  by (cases r; simp add: Risk_from_level_def)

lemma Risk_from_level_Ok: "Risk_from_level n = Ok r \<longleftrightarrow> n = Risk_level r"
  by (cases r; auto simp: Risk_from_level_def split: if_splits)

lemma Risk_from_level_error: "Risk_from_level n = Err e \<longleftrightarrow> 3 < n \<and> e = OutOfRange"
  by (auto simp: Risk_from_level_def split: if_splits)

lemma Risk_declared_for_Ok:
  "Risk_declared_for n floor = Ok r \<longleftrightarrow> n = Risk_level r \<and> floor \<le> n"
  by (auto simp: Risk_declared_for_def Risk_from_level_Ok)

interpretation risk_scale: severity_scale Risk_level max
  by unfold_locales (auto simp: max_def less_eq_Risk_def)

section \<open>Approval policies\<close>

datatype ApprovalPolicy = Auto | Policy | Ask | Deny

datatype ApprovalPolicyError = ApprovalPolicyUnknown

fun ApprovalPolicy_as_str :: "ApprovalPolicy \<Rightarrow> rstr" where
  "ApprovalPolicy_as_str Auto = lit ''auto''"
| "ApprovalPolicy_as_str Policy = lit ''policy''"
| "ApprovalPolicy_as_str Ask = lit ''ask''"
| "ApprovalPolicy_as_str Deny = lit ''deny''"

definition is_runnable :: "ApprovalPolicy \<Rightarrow> bool" where
  "is_runnable p \<longleftrightarrow> p \<noteq> Deny"

fun strictness :: "ApprovalPolicy \<Rightarrow> nat" where
  "strictness Auto = 0"
| "strictness Policy = 1"
| "strictness Ask = 2"
| "strictness Deny = 3"

definition tighter :: "ApprovalPolicy \<Rightarrow> ApprovalPolicy \<Rightarrow> ApprovalPolicy" where
  "tighter a b = (if strictness a \<ge> strictness b then a else b)"

definition ApprovalPolicy_all :: "ApprovalPolicy list" where
  "ApprovalPolicy_all = [Auto, Policy, Ask, Deny]"

definition ApprovalPolicy_from_str :: "rstr \<Rightarrow> ApprovalPolicyError + ApprovalPolicy" where
  "ApprovalPolicy_from_str s =
     (if s = lit ''auto'' then Ok Auto
      else if s = lit ''policy'' then Ok Policy
      else if s = lit ''ask'' then Ok Ask
      else if s = lit ''deny'' then Ok Deny
      else Err ApprovalPolicyUnknown)"

fun for_approval :: "Risk \<Rightarrow> ApprovalPolicy" where
  "for_approval Minimal = Auto"
| "for_approval Low = Policy"
| "for_approval Moderate = Ask"
| "for_approval High = Ask"

lemma strictness_inj [simp]: "strictness a = strictness b \<longleftrightarrow> a = b"
  by (cases a; cases b; simp)

interpretation approval_scale: severity_scale strictness tighter
  by unfold_locales (auto simp: tighter_def)

interpretation approval_wire: wire_vocabulary
  ApprovalPolicy_as_str ApprovalPolicy_from_str ApprovalPolicy_all
proof
  fix x s
  show "ApprovalPolicy_from_str (ApprovalPolicy_as_str x) = Ok x"
    by (cases x; simp add: ApprovalPolicy_from_str_def)
  show "x \<in> set ApprovalPolicy_all" by (cases x; simp add: ApprovalPolicy_all_def)
  show "ApprovalPolicy_from_str s = Ok x \<Longrightarrow> s = ApprovalPolicy_as_str x"
    by (auto simp: ApprovalPolicy_from_str_def split: if_splits)
qed

lemma tighter_eq_Deny [simp]: "tighter a b = Deny \<longleftrightarrow> a = Deny \<or> b = Deny"
  by (cases a; cases b; simp add: tighter_def)

lemma for_approval_mono: "a \<le> b \<Longrightarrow> strictness (for_approval a) \<le> strictness (for_approval b)"
  by (cases a; cases b; simp add: less_eq_Risk_def)

section \<open>Sensitivity\<close>

datatype Sensitivity = Public | Internal | Confidential | Restricted

datatype InvalidSensitivity = UnknownSensitivity

fun Sensitivity_as_str :: "Sensitivity \<Rightarrow> rstr" where
  "Sensitivity_as_str Public = lit ''public''"
| "Sensitivity_as_str Internal = lit ''internal''"
| "Sensitivity_as_str Confidential = lit ''confidential''"
| "Sensitivity_as_str Restricted = lit ''restricted''"

fun Sensitivity_level :: "Sensitivity \<Rightarrow> nat" where
  "Sensitivity_level Public = 0"
| "Sensitivity_level Internal = 1"
| "Sensitivity_level Confidential = 2"
| "Sensitivity_level Restricted = 3"

definition can_flow_to :: "Sensitivity \<Rightarrow> Sensitivity \<Rightarrow> bool" where
  "can_flow_to s destination \<longleftrightarrow> Sensitivity_level destination \<ge> Sensitivity_level s"

definition requires_local_handling :: "Sensitivity \<Rightarrow> bool" where
  "requires_local_handling s \<longleftrightarrow> Sensitivity_level s \<ge> Sensitivity_level Confidential"

definition Sensitivity_all :: "Sensitivity list" where
  "Sensitivity_all = [Public, Internal, Confidential, Restricted]"

definition Sensitivity_from_str :: "rstr \<Rightarrow> InvalidSensitivity + Sensitivity" where
  "Sensitivity_from_str s =
     (if s = lit ''public'' then Ok Public
      else if s = lit ''internal'' then Ok Internal
      else if s = lit ''confidential'' then Ok Confidential
      else if s = lit ''restricted'' then Ok Restricted
      else Err UnknownSensitivity)"

instantiation Sensitivity :: linorder
begin

definition less_eq_Sensitivity :: "Sensitivity \<Rightarrow> Sensitivity \<Rightarrow> bool" where
  "less_eq_Sensitivity a b \<longleftrightarrow> Sensitivity_level a \<le> Sensitivity_level b"

definition less_Sensitivity :: "Sensitivity \<Rightarrow> Sensitivity \<Rightarrow> bool" where
  "less_Sensitivity a b \<longleftrightarrow> Sensitivity_level a < Sensitivity_level b"

instance
proof
  fix x y :: Sensitivity
  show "x \<le> y \<Longrightarrow> y \<le> x \<Longrightarrow> x = y"
    by (cases x; cases y; simp add: less_eq_Sensitivity_def)
qed (auto simp: less_eq_Sensitivity_def less_Sensitivity_def)

end

lemma can_flow_to_iff: "can_flow_to a b \<longleftrightarrow> a \<le> b"
  by (simp add: can_flow_to_def less_eq_Sensitivity_def)

lemma can_flow_to_trans: "can_flow_to a b \<Longrightarrow> can_flow_to b c \<Longrightarrow> can_flow_to a c"
  by (simp add: can_flow_to_iff)

lemma local_handling_upward:
  "requires_local_handling a \<Longrightarrow> can_flow_to a b \<Longrightarrow> requires_local_handling b"
  by (simp add: requires_local_handling_def can_flow_to_def)

interpretation sensitivity_wire: wire_vocabulary
  Sensitivity_as_str Sensitivity_from_str Sensitivity_all
proof
  fix x s
  show "Sensitivity_from_str (Sensitivity_as_str x) = Ok x"
    by (cases x; simp add: Sensitivity_from_str_def)
  show "x \<in> set Sensitivity_all" by (cases x; simp add: Sensitivity_all_def)
  show "Sensitivity_from_str s = Ok x \<Longrightarrow> s = Sensitivity_as_str x"
    by (auto simp: Sensitivity_from_str_def split: if_splits)
qed

interpretation sensitivity_scale: severity_scale Sensitivity_level max
proof
  fix x y :: Sensitivity
  show "Sensitivity_level x = Sensitivity_level y \<Longrightarrow> x = y"
    by (cases x; cases y; simp)
  then show "max x y = (if Sensitivity_level y \<le> Sensitivity_level x then x else y)"
    by (cases x; cases y; simp add: max_def less_eq_Sensitivity_def)
qed

section \<open>Escalation signals\<close>

datatype EscalationSignal = External | Bulk | Sensitive | Production

datatype InvalidEscalationSignal = InvalidEscalationSignal

fun EscalationSignal_code :: "EscalationSignal \<Rightarrow> rstr" where
  "EscalationSignal_code External = lit ''external''"
| "EscalationSignal_code Bulk = lit ''bulk''"
| "EscalationSignal_code Sensitive = lit ''sensitive''"
| "EscalationSignal_code Production = lit ''production''"

definition EscalationSignal_all :: "EscalationSignal list" where
  "EscalationSignal_all = [External, Bulk, Sensitive, Production]"

fun EscalationSignal_escalation :: "EscalationSignal \<Rightarrow> Risk" where
  "EscalationSignal_escalation Bulk = High"
| "EscalationSignal_escalation Sensitive = High"
| "EscalationSignal_escalation External = Moderate"
| "EscalationSignal_escalation Production = Moderate"

definition EscalationSignal_from_str :: "rstr \<Rightarrow> InvalidEscalationSignal + EscalationSignal" where
  "EscalationSignal_from_str s =
     (if s = lit ''external'' then Ok External
      else if s = lit ''bulk'' then Ok Bulk
      else if s = lit ''sensitive'' then Ok Sensitive
      else if s = lit ''production'' then Ok Production
      else Err InvalidEscalationSignal)"

interpretation escalation_wire: wire_vocabulary
  EscalationSignal_code EscalationSignal_from_str EscalationSignal_all
proof
  fix x s
  show "EscalationSignal_from_str (EscalationSignal_code x) = Ok x"
    by (cases x; simp add: EscalationSignal_from_str_def)
  show "x \<in> set EscalationSignal_all" by (cases x; simp add: EscalationSignal_all_def)
  show "EscalationSignal_from_str s = Ok x \<Longrightarrow> s = EscalationSignal_code x"
    by (auto simp: EscalationSignal_from_str_def split: if_splits)
qed

text \<open>Every signal lifts a call to a level that is never run without asking by default.\<close>

lemma escalation_at_least_moderate: "Moderate \<le> EscalationSignal_escalation s"
  by (cases s; simp add: less_eq_Risk_def)

end
