(* ===== verification/Tool_Contract.thy ===== *)
theory Tool_Contract
  imports Tool_Identity Tool_Outcome Risk_Vocabulary
begin

text \<open>
  The declared contract of a tool: effect classes (\<open>jarvis-tools/src/effect.rs\<close>), idempotency,
  retry, availability and classification (\<open>policy.rs\<close>), the risk floor binding (\<open>risk.rs\<close>) and
  the validated definition (\<open>definition.rs\<close>). A JSON Schema is kept as its document.
\<close>

section \<open>Effects\<close>

datatype ToolEffect = ReadOnly | Write | Delegation | ExternalCommunication | Destructive
  | CodeExecution | Financial | Privileged

fun ToolEffect_as_str :: "ToolEffect \<Rightarrow> rstr" where
  "ToolEffect_as_str ReadOnly = lit ''read_only''"
| "ToolEffect_as_str Write = lit ''write''"
| "ToolEffect_as_str Delegation = lit ''delegation''"
| "ToolEffect_as_str ExternalCommunication = lit ''external_communication''"
| "ToolEffect_as_str Destructive = lit ''destructive''"
| "ToolEffect_as_str CodeExecution = lit ''code_execution''"
| "ToolEffect_as_str Financial = lit ''financial''"
| "ToolEffect_as_str Privileged = lit ''privileged''"

definition ToolEffect_is_mutating :: "ToolEffect \<Rightarrow> bool" where
  "ToolEffect_is_mutating e \<longleftrightarrow> e \<noteq> ReadOnly"

fun ToolEffect_risk_floor :: "ToolEffect \<Rightarrow> nat" where
  "ToolEffect_risk_floor ReadOnly = 0"
| "ToolEffect_risk_floor Write = 1"
| "ToolEffect_risk_floor Delegation = 1"
| "ToolEffect_risk_floor ExternalCommunication = 2"
| "ToolEffect_risk_floor Destructive = 3"
| "ToolEffect_risk_floor Financial = 3"
| "ToolEffect_risk_floor Privileged = 3"
| "ToolEffect_risk_floor CodeExecution = 3"

definition ToolEffect_all :: "ToolEffect list" where
  "ToolEffect_all = [ReadOnly, Write, Delegation, ExternalCommunication, CodeExecution, Destructive,
     Financial, Privileged]"

text \<open>A \<open>BTreeSet\<close> of effects, never empty.\<close>

type_synonym EffectSet = "ToolEffect set"

definition EffectSet_new :: "ToolEffect list \<Rightarrow> EffectSet option" where
  "EffectSet_new effects = (if effects = [] then None else Some (set effects))"

definition EffectSet_is_mutating :: "EffectSet \<Rightarrow> bool" where
  "EffectSet_is_mutating effects \<longleftrightarrow> (\<exists>e \<in> effects. ToolEffect_is_mutating e)"

text \<open>\<open>max().unwrap_or(0)\<close> over the floors.\<close>

definition EffectSet_risk_floor :: "EffectSet \<Rightarrow> nat" where
  "EffectSet_risk_floor effects = Max (insert 0 (ToolEffect_risk_floor ` effects))"

datatype DelegationBoundary = NativeRun | HostProcess

definition DelegationBoundary_effects :: "DelegationBoundary \<Rightarrow> EffectSet" where
  "DelegationBoundary_effects b =
     (let effects = insert Write {Delegation}
      in if b = HostProcess then insert CodeExecution effects else effects)"

fun DelegationBoundary_approval :: "DelegationBoundary \<Rightarrow> ApprovalPolicy" where
  "DelegationBoundary_approval NativeRun = Auto"
| "DelegationBoundary_approval HostProcess = Ask"

definition declared_for_effects :: "nat \<Rightarrow> EffectSet \<Rightarrow> RiskError + Risk" where
  "declared_for_effects declared effects = Risk_declared_for declared (EffectSet_risk_floor effects)"

section \<open>Retry, idempotency, availability, classification\<close>

definition MAX_TOOL_TIMEOUT_SECONDS :: nat where "MAX_TOOL_TIMEOUT_SECONDS = 600"

definition MAX_TOOL_RETRY_ATTEMPTS :: nat where "MAX_TOOL_RETRY_ATTEMPTS = 5"

definition MAX_TOOL_BACKOFF_SECONDS :: nat where "MAX_TOOL_BACKOFF_SECONDS = 300"

datatype Idempotency = Unsupported | Optional | Required | ProviderKey

definition requires_key :: "Idempotency \<Rightarrow> bool" where
  "requires_key i \<longleftrightarrow> i = Required"

definition makes_repeats_safe :: "Idempotency \<Rightarrow> bool" where
  "makes_repeats_safe i \<longleftrightarrow> i = Required \<or> i = ProviderKey"

datatype RetryPolicyError = TooManyAttempts | BackoffTooLong | BlindRetryOfAmbiguousEffect

record RetryDeclaration =
  attempts :: nat
  backoff_ceiling_seconds :: nat

record RetryPolicy =
  blind_retries :: nat
  retry_backoff_ceiling :: nat

definition RetryPolicy_blind ::
  "nat \<Rightarrow> nat \<Rightarrow> EffectSet \<Rightarrow> Idempotency \<Rightarrow> RetryPolicyError + RetryPolicy" where
  "RetryPolicy_blind n ceiling effects idempotency =
     (if n > MAX_TOOL_RETRY_ATTEMPTS then Err TooManyAttempts
      else if ceiling > MAX_TOOL_BACKOFF_SECONDS then Err BackoffTooLong
      else if n > 0 \<and> EffectSet_is_mutating effects \<and> \<not> makes_repeats_safe idempotency
      then Err BlindRetryOfAmbiguousEffect
      else Ok \<lparr>blind_retries = n, retry_backoff_ceiling = ceiling\<rparr>)"

definition RetryDeclaration_validate ::
  "RetryDeclaration \<Rightarrow> EffectSet \<Rightarrow> Idempotency \<Rightarrow> RetryPolicyError + RetryPolicy" where
  "RetryDeclaration_validate d effects idempotency =
     RetryPolicy_blind (attempts d) (backoff_ceiling_seconds d) effects idempotency"

definition allows_retry :: "RetryPolicy \<Rightarrow> bool" where
  "allows_retry p \<longleftrightarrow> blind_retries p > 0"

definition MAX_AVAILABILITY_REASON_CHARS :: nat where "MAX_AVAILABILITY_REASON_CHARS = 200"

datatype Availability = Available | Unavailable rstr

definition Availability_unavailable :: "rstr \<Rightarrow> Availability option" where
  "Availability_unavailable reason =
     (let trimmed = trim reason in
      if trimmed = [] \<or> length trimmed > MAX_AVAILABILITY_REASON_CHARS then None
      else Some (Unavailable trimmed))"

definition is_available :: "Availability \<Rightarrow> bool" where
  "is_available a \<longleftrightarrow> a = Available"

record ToolSensitivity =
  sens_input :: Sensitivity
  sens_output :: Sensitivity

definition sens_ceiling :: "ToolSensitivity \<Rightarrow> Sensitivity" where
  "sens_ceiling s =
     (if Sensitivity_level (sens_input s) \<ge> Sensitivity_level (sens_output s)
      then sens_input s else sens_output s)"

section \<open>Definitions\<close>

definition MAX_TOOL_TITLE_CHARS :: nat where "MAX_TOOL_TITLE_CHARS = 80"

definition MAX_TOOL_DESCRIPTION_CHARS :: nat where "MAX_TOOL_DESCRIPTION_CHARS = 1024"

datatype ToolDefinitionError = InvalidTitle | InvalidDescription | InvalidVersion
  | RiskInvalid RiskError | InvalidTimeout | RetryInvalid RetryPolicyError
  | SourceMismatch ToolSource ToolSource

record ToolDefinitionParts =
  tp_id :: ToolId
  tp_version :: rstr
  tp_title :: rstr
  tp_description :: rstr
  tp_input_schema :: json
  tp_output_schema :: json
  tp_effects :: EffectSet
  tp_risk :: nat
  tp_required_scopes :: ScopeSet
  tp_approval :: ApprovalPolicy
  tp_timeout_seconds :: nat
  tp_retry :: RetryDeclaration
  tp_idempotency :: Idempotency
  tp_source :: ToolSource
  tp_availability :: Availability
  tp_sensitivity :: ToolSensitivity

record ToolDefinition =
  td_id :: ToolId
  td_version :: rstr
  td_title :: rstr
  td_description :: rstr
  td_input_schema :: json
  td_output_schema :: json
  td_effects :: EffectSet
  td_risk :: Risk
  td_required_scopes :: ScopeSet
  td_approval :: ApprovalPolicy
  td_timeout_seconds :: nat
  td_retry :: RetryPolicy
  td_idempotency :: Idempotency
  td_source :: ToolSource
  td_availability :: Availability
  td_sensitivity :: ToolSensitivity

definition validate_text :: "rstr \<Rightarrow> nat \<Rightarrow> bool" where
  "validate_text s limit \<longleftrightarrow> trim s \<noteq> [] \<and> length (trim s) \<le> limit"

definition ToolDefinition_new :: "ToolDefinitionParts \<Rightarrow> ToolDefinitionError + ToolDefinition" where
  "ToolDefinition_new p =
     (if \<not> validate_text (tp_title p) MAX_TOOL_TITLE_CHARS then Err InvalidTitle
      else if \<not> validate_text (tp_description p) MAX_TOOL_DESCRIPTION_CHARS then Err InvalidDescription
      else
        and_then (map_err (\<lambda>_. InvalidVersion) (validate_version (tp_version p))) (\<lambda>_.
        and_then (map_err RiskInvalid (declared_for_effects (tp_risk p) (tp_effects p))) (\<lambda>risk.
        and_then (map_err RetryInvalid
                    (RetryDeclaration_validate (tp_retry p) (tp_effects p) (tp_idempotency p))) (\<lambda>retry.
          if \<not> (1 \<le> tp_timeout_seconds p \<and> tp_timeout_seconds p \<le> MAX_TOOL_TIMEOUT_SECONDS)
          then Err InvalidTimeout
          else if tp_source p \<noteq> ToolId_source (tp_id p)
          then Err (SourceMismatch (ToolId_source (tp_id p)) (tp_source p))
          else Ok \<lparr>td_id = tp_id p, td_version = tp_version p, td_title = tp_title p,
                   td_description = tp_description p, td_input_schema = tp_input_schema p,
                   td_output_schema = tp_output_schema p, td_effects = tp_effects p,
                   td_risk = risk, td_required_scopes = tp_required_scopes p,
                   td_approval = tp_approval p, td_timeout_seconds = tp_timeout_seconds p,
                   td_retry = retry, td_idempotency = tp_idempotency p, td_source = tp_source p,
                   td_availability = tp_availability p, td_sensitivity = tp_sensitivity p\<rparr>))))"

definition may_retry_automatically :: "ToolDefinition \<Rightarrow> ToolOutcome \<Rightarrow> bool" where
  "may_retry_automatically d outcome \<longleftrightarrow>
     is_safe_to_repeat_from_outcome outcome \<and> makes_repeats_safe (td_idempotency d)
     \<and> allows_retry (td_retry d)"

section \<open>Lemmas\<close>

lemma ToolEffect_UNIV: "UNIV = set ToolEffect_all"
  by (auto simp: ToolEffect_all_def) (metis ToolEffect.exhaust)

lemma finite_EffectSet [simp, intro]: "finite (s :: EffectSet)"
  by (rule finite_subset [OF subset_UNIV]) (simp only: ToolEffect_UNIV finite_set)

lemma risk_floor_ge: "e \<in> s \<Longrightarrow> ToolEffect_risk_floor e \<le> EffectSet_risk_floor s"
  by (simp add: EffectSet_risk_floor_def)

lemma risk_floor_le_iff: "EffectSet_risk_floor s \<le> n \<longleftrightarrow> (\<forall>e \<in> s. ToolEffect_risk_floor e \<le> n)"
  by (simp add: EffectSet_risk_floor_def)

lemma risk_floor_mono: "s \<subseteq> t \<Longrightarrow> EffectSet_risk_floor s \<le> EffectSet_risk_floor t"
  using risk_floor_ge by (auto simp: risk_floor_le_iff)

lemma sens_ceiling_max: "sens_ceiling s = max (sens_input s) (sens_output s)"
  by (simp add: sens_ceiling_def sensitivity_scale.join_def')

text \<open>What every constructed definition satisfies.\<close>

definition definition_wf :: "ToolDefinition \<Rightarrow> bool" where
  "definition_wf d \<longleftrightarrow>
     EffectSet_risk_floor (td_effects d) \<le> Risk_level (td_risk d)
     \<and> td_source d = ToolId_source (td_id d)
     \<and> is_ok (validate_version (td_version d))
     \<and> validate_text (td_title d) 80 \<and> validate_text (td_description d) 1024
     \<and> 1 \<le> td_timeout_seconds d \<and> td_timeout_seconds d \<le> 600
     \<and> blind_retries (td_retry d) \<le> 5 \<and> retry_backoff_ceiling (td_retry d) \<le> 300
     \<and> (allows_retry (td_retry d) \<longrightarrow> EffectSet_is_mutating (td_effects d)
          \<longrightarrow> makes_repeats_safe (td_idempotency d))"

lemma RetryPolicy_blind_Ok:
  "RetryPolicy_blind n c es i = Ok p \<longleftrightarrow>
     n \<le> 5 \<and> c \<le> 300 \<and> (n > 0 \<longrightarrow> EffectSet_is_mutating es \<longrightarrow> makes_repeats_safe i)
     \<and> p = \<lparr>blind_retries = n, retry_backoff_ceiling = c\<rparr>"
  by (auto simp: RetryPolicy_blind_def MAX_TOOL_RETRY_ATTEMPTS_def MAX_TOOL_BACKOFF_SECONDS_def)

lemma ToolDefinition_new_wf: "ToolDefinition_new p = Ok d \<Longrightarrow> definition_wf d"
  by (auto simp: ToolDefinition_new_def definition_wf_def declared_for_effects_def
      Risk_declared_for_Ok RetryDeclaration_validate_def RetryPolicy_blind_Ok allows_retry_def
      MAX_TOOL_TITLE_CHARS_def MAX_TOOL_DESCRIPTION_CHARS_def MAX_TOOL_TIMEOUT_SECONDS_def
      is_ok_iff split: if_splits)

section \<open>Properties\<close>

text \<open>A definition cannot understate itself. Whatever a manifest declares, a definition that
  the constructor accepts has a risk at or above the floor of every declared effect, the source its
  namespace implies, a bounded deadline and retry budget, and never a blind retry of a mutating
  effect that its provider does not deduplicate.\<close>

theorem definition_consistent:
  assumes "ToolDefinition_new p = Ok d"
  shows "(\<forall>e \<in> td_effects d. ToolEffect_risk_floor e \<le> Risk_level (td_risk d))
    \<and> td_source d = ToolId_source (td_id d)
    \<and> 1 \<le> td_timeout_seconds d \<and> td_timeout_seconds d \<le> MAX_TOOL_TIMEOUT_SECONDS
    \<and> blind_retries (td_retry d) \<le> MAX_TOOL_RETRY_ATTEMPTS
    \<and> (blind_retries (td_retry d) > 0 \<longrightarrow> EffectSet_is_mutating (td_effects d)
        \<longrightarrow> makes_repeats_safe (td_idempotency d))"
  using ToolDefinition_new_wf [OF assms] risk_floor_ge
  by (auto simp: definition_wf_def allows_retry_def MAX_TOOL_TIMEOUT_SECONDS_def
      MAX_TOOL_RETRY_ATTEMPTS_def intro: order_trans)

definition sample_parts :: ToolDefinitionParts where
  "sample_parts = \<lparr>tp_id = \<lparr>tid_namespace = lit ''gmail'', tid_name = lit ''send''\<rparr>,
     tp_version = lit ''1.0'', tp_title = lit ''Send'', tp_description = lit ''Send a message'',
     tp_input_schema = JObject [], tp_output_schema = JObject [],
     tp_effects = {ExternalCommunication}, tp_risk = 2,
     tp_required_scopes = {sample_scope ''gmail'' ''send''}, tp_approval = Ask,
     tp_timeout_seconds = 30, tp_retry = \<lparr>attempts = 2, backoff_ceiling_seconds = 10\<rparr>,
     tp_idempotency = Required, tp_source = Connector, tp_availability = Available,
     tp_sensitivity = \<lparr>sens_input = Internal, sens_output = Internal\<rparr>\<rparr>"

definition sample_tool :: ToolDefinition where
  "sample_tool = \<lparr>td_id = \<lparr>tid_namespace = lit ''gmail'', tid_name = lit ''send''\<rparr>,
     td_version = lit ''1.0'', td_title = lit ''Send'', td_description = lit ''Send a message'',
     td_input_schema = JObject [], td_output_schema = JObject [],
     td_effects = {ExternalCommunication}, td_risk = Moderate,
     td_required_scopes = {sample_scope ''gmail'' ''send''}, td_approval = Ask,
     td_timeout_seconds = 30, td_retry = \<lparr>blind_retries = 2, retry_backoff_ceiling = 10\<rparr>,
     td_idempotency = Required, td_source = Connector, td_availability = Available,
     td_sensitivity = \<lparr>sens_input = Internal, sens_output = Internal\<rparr>\<rparr>"

lemma sample_tool_new: "ToolDefinition_new sample_parts = Ok sample_tool"
proof -
  have "validate_text (lit ''Send'') 80" "validate_text (lit ''Send a message'') 1024"
    by (simp_all add: validate_text_def trim_def lit_def is_whitespace_def)
  moreover have "validate_version (lit ''1.0'') = Ok ()"
    by (simp add: validate_version_def lit_def version_char_def char_class_defs
        MAX_TOOL_VERSION_CHARS_def)
  moreover have "from_namespace (lit ''gmail'') = Connector"
    by (simp add: from_namespace_def has_marker_def lit_def)
  ultimately show ?thesis
    by (simp add: ToolDefinition_new_def sample_parts_def sample_tool_def ToolId_source_def
        MAX_TOOL_TITLE_CHARS_def MAX_TOOL_DESCRIPTION_CHARS_def MAX_TOOL_TIMEOUT_SECONDS_def
        declared_for_effects_def Risk_declared_for_Ok EffectSet_risk_floor_def
        RetryDeclaration_validate_def RetryPolicy_blind_Ok makes_repeats_safe_def)
qed

theorem definition_consistent_witness:
  "ToolEffect_risk_floor ExternalCommunication \<le> Risk_level (td_risk sample_tool)
   \<and> td_timeout_seconds sample_tool \<le> MAX_TOOL_TIMEOUT_SECONDS"
  using definition_consistent [OF sample_tool_new] by (simp add: sample_tool_def)

text \<open>No automatic retry can repeat a possible effect. When a constructed definition permits an
  automatic retry after an outcome, that outcome is not one that may have had an unproven effect
  and not a confirmed one, the provider makes repeats safe, and the retry budget is bounded.\<close>

theorem automatic_retry_safe:
  assumes "ToolDefinition_new p = Ok d" "may_retry_automatically d outcome"
  shows "\<not> may_have_had_an_effect outcome \<and> outcome \<noteq> Confirmed
    \<and> makes_repeats_safe (td_idempotency d) \<and> blind_retries (td_retry d) \<in> {1..5}"
  using ToolDefinition_new_wf [OF assms(1)] assms(2)
  by (auto simp: may_retry_automatically_def is_safe_to_repeat_from_outcome_def
      may_have_had_an_effect_def definition_wf_def allows_retry_def)

theorem automatic_retry_safe_witness:
  "makes_repeats_safe (td_idempotency sample_tool) \<and> blind_retries (td_retry sample_tool) \<in> {1..5}"
  using automatic_retry_safe [OF sample_tool_new, of Tool_Failed]
  by (simp add: sample_tool_def may_retry_automatically_def is_safe_to_repeat_from_outcome_def
      makes_repeats_safe_def allows_retry_def)

end
