(* ===== verification/Policy_Evaluation.thy ===== *)
theory Policy_Evaluation
  imports Tool_Contract
begin

text \<open>
  The authorization decision (\<open>jarvis-tools/src/evaluation.rs\<close>): actor authority, the workspace
  policy and the operations that build it, the signals that escalate a call, and \<open>evaluate\<close>, whose
  order of checks is the deny-overrides rule.
\<close>

section \<open>Actors and workspace policy\<close>

datatype ActorStatus = Active | Suspended

record ActorAuthority =
  actor_status :: ActorStatus
  actor_scopes :: ScopeSet

definition ActorAuthority_active :: "ScopeSet \<Rightarrow> ActorAuthority" where
  "ActorAuthority_active scopes = \<lparr>actor_status = Active, actor_scopes = scopes\<rparr>"

definition ActorAuthority_suspended :: "ScopeSet \<Rightarrow> ActorAuthority" where
  "ActorAuthority_suspended scopes = \<lparr>actor_status = Suspended, actor_scopes = scopes\<rparr>"

record WorkspacePolicy =
  max_risk :: Risk
  approval_threshold :: Risk
  requires_approval_for_external_communication :: bool
  denied_tools :: "ToolId set"
  approval_tools :: "ToolId \<rightharpoonup> ApprovalPolicy"
  trusted_tools :: "ToolId set"

datatype PolicyError = ApprovalThresholdAboveMaximum Risk Risk

definition WorkspacePolicy_default :: WorkspacePolicy where
  "WorkspacePolicy_default = \<lparr>max_risk = High, approval_threshold = Moderate,
     requires_approval_for_external_communication = True, denied_tools = {},
     approval_tools = Map.empty, trusted_tools = {}\<rparr>"

definition WorkspacePolicy_new :: "Risk \<Rightarrow> Risk \<Rightarrow> bool \<Rightarrow> PolicyError + WorkspacePolicy" where
  "WorkspacePolicy_new maximum threshold external =
     (if threshold > maximum then Err (ApprovalThresholdAboveMaximum threshold maximum)
      else Ok \<lparr>max_risk = maximum, approval_threshold = threshold,
               requires_approval_for_external_communication = external, denied_tools = {},
               approval_tools = Map.empty, trusted_tools = {}\<rparr>)"

definition denying :: "WorkspacePolicy \<Rightarrow> ToolId \<Rightarrow> WorkspacePolicy" where
  "denying w i = w\<lparr>approval_tools := (approval_tools w)(i := None),
     trusted_tools := trusted_tools w - {i}, denied_tools := insert i (denied_tools w)\<rparr>"

definition trusting :: "WorkspacePolicy \<Rightarrow> ToolId \<Rightarrow> WorkspacePolicy" where
  "trusting w i =
     (if i \<notin> denied_tools w \<and> approval_tools w i = None
      then w\<lparr>trusted_tools := insert i (trusted_tools w)\<rparr> else w)"

definition trusts :: "WorkspacePolicy \<Rightarrow> ToolId \<Rightarrow> bool" where
  "trusts w i \<longleftrightarrow> i \<in> trusted_tools w"

definition requiring :: "WorkspacePolicy \<Rightarrow> ToolId \<Rightarrow> ApprovalPolicy \<Rightarrow> WorkspacePolicy" where
  "requiring w i approval =
     (if i \<notin> denied_tools w
      then w\<lparr>trusted_tools := trusted_tools w - {i},
             approval_tools := (approval_tools w)(i \<mapsto> approval)\<rparr>
      else w)"

definition denies :: "WorkspacePolicy \<Rightarrow> ToolId \<Rightarrow> bool" where
  "denies w i \<longleftrightarrow> i \<in> denied_tools w"

definition effective_approval :: "WorkspacePolicy \<Rightarrow> ToolId \<Rightarrow> ApprovalPolicy \<Rightarrow> ApprovalPolicy" where
  "effective_approval w i declared =
     (case approval_tools w i of Some override \<Rightarrow> tighter declared override | None \<Rightarrow> declared)"

definition external_rule_applies :: "WorkspacePolicy \<Rightarrow> ToolDefinition \<Rightarrow> bool" where
  "external_rule_applies w d \<longleftrightarrow> ExternalCommunication \<in> td_effects d \<and> \<not> trusts w (td_id d)"

definition asks_first :: "WorkspacePolicy \<Rightarrow> ToolDefinition \<Rightarrow> bool" where
  "asks_first w d =
     (let effective = effective_approval w (td_id d) (td_approval d) in
      if denies w (td_id d) \<or> \<not> is_runnable effective then False
      else
        let externally_communicates = external_rule_applies w d;
            trusted = trusts w (td_id d) \<and> \<not> externally_communicates;
            by_tool = \<not> trusted \<and> effective = Ask;
            by_risk = \<not> trusted \<and> td_risk d \<ge> approval_threshold w;
            by_external = requires_approval_for_external_communication w \<and> externally_communicates
        in by_tool \<or> by_risk \<or> by_external)"

section \<open>Requests and decisions\<close>

type_synonym TargetAssessment = "EscalationSignal set"

text \<open>\<open>max().unwrap_or(Risk::Minimal)\<close>.\<close>

definition TargetAssessment_escalation :: "TargetAssessment \<Rightarrow> Risk" where
  "TargetAssessment_escalation signals = Max (insert Minimal (EscalationSignal_escalation ` signals))"

text \<open>The signals in the order of the \<open>BTreeSet\<close>, which is the order of the enum.\<close>

definition escalation_signals :: "TargetAssessment \<Rightarrow> EscalationSignal list" where
  "escalation_signals target = filter (\<lambda>s. s \<in> target) EscalationSignal_all"

record PolicyRequest =
  req_definition :: ToolDefinition
  req_actor :: ActorAuthority
  req_workspace :: WorkspacePolicy
  req_available :: bool
  req_target :: TargetAssessment

datatype DenyReason = CapabilityUnavailable | ActorNotPermitted | ToolDeniedByWorkspace
  | AboveWorkspaceCeiling | MissingScope | ToolPolicyDenies | ApprovalRequired
  | ExternalCommunicationRequiresApproval

fun DenyReason_code :: "DenyReason \<Rightarrow> rstr" where
  "DenyReason_code CapabilityUnavailable = lit ''capability_unavailable''"
| "DenyReason_code ActorNotPermitted = lit ''actor_not_permitted''"
| "DenyReason_code ToolDeniedByWorkspace = lit ''tool_denied_by_workspace''"
| "DenyReason_code AboveWorkspaceCeiling = lit ''above_workspace_ceiling''"
| "DenyReason_code MissingScope = lit ''missing_scope''"
| "DenyReason_code ToolPolicyDenies = lit ''tool_policy_denies''"
| "DenyReason_code ApprovalRequired = lit ''approval_required''"
| "DenyReason_code ExternalCommunicationRequiresApproval =
     lit ''external_communication_requires_approval''"

definition is_refusal :: "DenyReason \<Rightarrow> bool" where
  "is_refusal r \<longleftrightarrow> \<not> (r = ApprovalRequired \<or> r = ExternalCommunicationRequiresApproval)"

datatype Decision = Decide_Allow | Decide_RequireApproval | Decide_Deny

record PolicyDecision =
  pd_decision :: Decision
  pd_reason :: "DenyReason option"
  pd_effective_risk :: Risk
  pd_escalated_by :: "EscalationSignal list"

definition held_by_approval :: "nat \<Rightarrow> PolicyDecision" where
  "held_by_approval level = \<lparr>pd_decision = Decide_RequireApproval, pd_reason = None,
     pd_effective_risk = (case Risk_from_level level of Inl _ \<Rightarrow> High | Inr r \<Rightarrow> r),
     pd_escalated_by = []\<rparr>"

definition is_allowed :: "PolicyDecision \<Rightarrow> bool" where
  "is_allowed p \<longleftrightarrow> pd_decision p = Decide_Allow"

definition is_held :: "PolicyDecision \<Rightarrow> bool" where
  "is_held p \<longleftrightarrow> pd_decision p = Decide_RequireApproval"

definition is_denied :: "PolicyDecision \<Rightarrow> bool" where
  "is_denied p \<longleftrightarrow> pd_decision p = Decide_Deny"

definition reason_code :: "PolicyDecision \<Rightarrow> rstr" where
  "reason_code p = (case pd_reason p of None \<Rightarrow> lit ''allowed'' | Some r \<Rightarrow> DenyReason_code r)"

definition effective_risk :: "ToolDefinition \<Rightarrow> TargetAssessment \<Rightarrow> Risk" where
  "effective_risk d target =
     (let escalated = TargetAssessment_escalation target
      in if escalated > td_risk d then escalated else td_risk d)"

definition evaluate :: "PolicyRequest \<Rightarrow> PolicyDecision" where
  "evaluate q =
     (let d = req_definition q;
          w = req_workspace q;
          risk = effective_risk d (req_target q);
          result = (\<lambda>decision reason. \<lparr>pd_decision = decision, pd_reason = reason,
                      pd_effective_risk = risk,
                      pd_escalated_by = escalation_signals (req_target q)\<rparr>);
          held = (\<lambda>reason. result Decide_RequireApproval (Some reason));
          denied = (\<lambda>reason. result Decide_Deny (Some reason))
      in if \<not> req_available q then denied CapabilityUnavailable
         else if actor_status (req_actor q) = Suspended then denied ActorNotPermitted
         else if denies w (td_id d) then denied ToolDeniedByWorkspace
         else if risk > max_risk w then denied AboveWorkspaceCeiling
         else if \<not> is_satisfied_by (td_required_scopes d) (actor_scopes (req_actor q))
         then denied MissingScope
         else
           let effective = effective_approval w (td_id d) (td_approval d)
           in if \<not> is_runnable effective then denied ToolPolicyDenies
              else
                let externally_communicates = external_rule_applies w d;
                    trusted = trusts w (td_id d) \<and> \<not> externally_communicates;
                    tool_requires_approval = \<not> trusted \<and> effective = Ask;
                    risk_requires_approval = \<not> trusted \<and> risk \<ge> approval_threshold w;
                    external_requires_approval =
                      requires_approval_for_external_communication w \<and> externally_communicates
                in if external_requires_approval then held ExternalCommunicationRequiresApproval
                   else if tool_requires_approval \<or> risk_requires_approval
                   then held ApprovalRequired
                   else result Decide_Allow None)"

section \<open>Lemmas\<close>

lemma effective_risk_max: "effective_risk d t = max (td_risk d) (TargetAssessment_escalation t)"
  by (auto simp: effective_risk_def max_def Let_def)

lemma finite_TargetAssessment [simp, intro]: "finite (t :: TargetAssessment)"
proof -
  have "(UNIV :: EscalationSignal set) = set EscalationSignal_all"
    using escalation_wire.members_all by blast
  then show ?thesis by (metis finite_set finite_subset subset_UNIV)
qed

lemma escalation_ge: "s \<in> t \<Longrightarrow> EscalationSignal_escalation s \<le> TargetAssessment_escalation t"
  by (simp add: TargetAssessment_escalation_def)

lemma escalation_mono: "t \<subseteq> t' \<Longrightarrow> TargetAssessment_escalation t \<le> TargetAssessment_escalation t'"
  by (auto simp: TargetAssessment_escalation_def intro!: Max_mono)

lemma effective_risk_mono:
  "td_risk d \<le> td_risk d' \<Longrightarrow> t \<subseteq> t' \<Longrightarrow> effective_risk d t \<le> effective_risk d' t'"
  unfolding effective_risk_max by (intro max.mono escalation_mono)

lemma effective_approval_tightens: "strictness declared \<le> strictness (effective_approval w i declared)"
  using approval_scale.join_upper by (simp add: effective_approval_def split: option.split)

text \<open>The trust that waives an approval, without the external rule it makes vacuous.\<close>

lemma trusted_iff:
  "trusts w (td_id d) \<and> \<not> external_rule_applies w d \<longleftrightarrow> trusts w (td_id d)"
  by (auto simp: external_rule_applies_def)

text \<open>The conditions of \<open>evaluate\<close>, named.\<close>

definition refused :: "PolicyRequest \<Rightarrow> bool" where
  "refused q \<longleftrightarrow>
     \<not> req_available q
     \<or> actor_status (req_actor q) = Suspended
     \<or> denies (req_workspace q) (td_id (req_definition q))
     \<or> max_risk (req_workspace q) < effective_risk (req_definition q) (req_target q)
     \<or> \<not> is_satisfied_by (td_required_scopes (req_definition q)) (actor_scopes (req_actor q))
     \<or> effective_approval (req_workspace q) (td_id (req_definition q))
         (td_approval (req_definition q)) = Deny"

definition owes_approval :: "PolicyRequest \<Rightarrow> bool" where
  "owes_approval q \<longleftrightarrow> \<not> trusts (req_workspace q) (td_id (req_definition q)) \<and>
     (ExternalCommunication \<in> td_effects (req_definition q)
        \<and> requires_approval_for_external_communication (req_workspace q)
      \<or> effective_approval (req_workspace q) (td_id (req_definition q))
          (td_approval (req_definition q)) = Ask
      \<or> approval_threshold (req_workspace q) \<le> effective_risk (req_definition q) (req_target q))"

lemma evaluate_decision:
  "pd_decision (evaluate q) =
     (if refused q then Decide_Deny else if owes_approval q then Decide_RequireApproval
      else Decide_Allow)"
  by (auto simp: evaluate_def Let_def refused_def owes_approval_def is_runnable_def
      external_rule_applies_def)

lemma evaluate_risk: "pd_effective_risk (evaluate q) = effective_risk (req_definition q) (req_target q)"
  by (simp add: evaluate_def Let_def)

lemma evaluate_reason:
  "pd_reason (evaluate q) = None \<longleftrightarrow> is_allowed (evaluate q)"
  "pd_reason (evaluate q) = Some r \<Longrightarrow> is_denied (evaluate q) \<longleftrightarrow> is_refusal r"
  by (auto simp: evaluate_def Let_def is_allowed_def is_denied_def is_refusal_def split: if_splits)

subsection \<open>The workspace policy invariant\<close>

definition policy_wf :: "WorkspacePolicy \<Rightarrow> bool" where
  "policy_wf w \<longleftrightarrow> approval_threshold w \<le> max_risk w
     \<and> denied_tools w \<inter> trusted_tools w = {} \<and> denied_tools w \<inter> dom (approval_tools w) = {}
     \<and> trusted_tools w \<inter> dom (approval_tools w) = {}"

inductive policy_op :: "WorkspacePolicy \<Rightarrow> WorkspacePolicy \<Rightarrow> bool" where
  op_denying: "policy_op w (denying w i)"
| op_trusting: "policy_op w (trusting w i)"
| op_requiring: "policy_op w (requiring w i a)"

inductive_cases policy_opE: "policy_op w w'"

lemma policy_wf_initial:
  "policy_wf WorkspacePolicy_default" "WorkspacePolicy_new m t e = Ok w \<Longrightarrow> policy_wf w"
  by (auto simp: policy_wf_def WorkspacePolicy_default_def WorkspacePolicy_new_def risk_order
      split: if_splits)

lemma policy_op_wf: "policy_op w w' \<Longrightarrow> policy_wf w \<Longrightarrow> policy_wf w'"
  by (induction rule: policy_op.induct)
    (auto simp: policy_wf_def denying_def trusting_def requiring_def dom_def)

lemma policy_ops_wf: "policy_op\<^sup>*\<^sup>* w w' \<Longrightarrow> policy_wf w \<Longrightarrow> policy_wf w'"
  by (induction rule: rtranclp_induct) (auto dest: policy_op_wf)

text \<open>What no builder operation can undo.\<close>

lemma policy_op_keeps:
  assumes "policy_op w w'"
  shows "i \<in> denied_tools w \<Longrightarrow> i \<in> denied_tools w'"
    "i \<in> denied_tools w \<union> dom (approval_tools w) \<Longrightarrow> i \<in> denied_tools w' \<union> dom (approval_tools w')"
    "max_risk w' = max_risk w" "approval_threshold w' = approval_threshold w"
  using assms by (cases; auto simp: denying_def trusting_def requiring_def split: if_splits)+

lemma policy_ops_keep:
  assumes "policy_op\<^sup>*\<^sup>* w w'"
  shows "i \<in> denied_tools w \<Longrightarrow> i \<in> denied_tools w'"
    "i \<in> denied_tools w \<union> dom (approval_tools w) \<Longrightarrow> i \<in> denied_tools w' \<union> dom (approval_tools w')"
  using assms by (induction rule: rtranclp_induct) (blast dest: policy_op_keeps)+

subsection \<open>Restriction\<close>

fun decision_level :: "Decision \<Rightarrow> nat" where
  "decision_level Decide_Allow = 0"
| "decision_level Decide_RequireApproval = 1"
| "decision_level Decide_Deny = 2"

definition policy_restricts :: "WorkspacePolicy \<Rightarrow> WorkspacePolicy \<Rightarrow> bool" where
  "policy_restricts w w' \<longleftrightarrow>
     max_risk w' \<le> max_risk w \<and> approval_threshold w' \<le> approval_threshold w
     \<and> (requires_approval_for_external_communication w
          \<longrightarrow> requires_approval_for_external_communication w')
     \<and> denied_tools w \<subseteq> denied_tools w' \<and> trusted_tools w' \<subseteq> trusted_tools w
     \<and> (\<forall>i a. i \<notin> denied_tools w'
          \<longrightarrow> strictness (effective_approval w i a) \<le> strictness (effective_approval w' i a))"

text \<open>The same call, asked about with no more authority, no looser policy and no fewer signals.\<close>

definition request_restricts :: "PolicyRequest \<Rightarrow> PolicyRequest \<Rightarrow> bool" where
  "request_restricts q q' \<longleftrightarrow>
     req_definition q' = req_definition q
     \<and> (req_available q' \<longrightarrow> req_available q)
     \<and> (actor_status (req_actor q) = Suspended \<longrightarrow> actor_status (req_actor q') = Suspended)
     \<and> actor_scopes (req_actor q') \<subseteq> actor_scopes (req_actor q)
     \<and> req_target q \<subseteq> req_target q'
     \<and> policy_restricts (req_workspace q) (req_workspace q')"

lemma strict_Deny: "strictness Deny \<le> strictness a \<Longrightarrow> a = Deny"
  by (cases a) simp_all

lemma strict_Ask: "strictness Ask \<le> strictness a \<Longrightarrow> a = Ask \<or> a = Deny"
  by (cases a) simp_all

lemma refused_mono:
  assumes "request_restricts q q'" "refused q"
  shows "refused q'"
proof -
  let ?d = "req_definition q" and ?w = "req_workspace q" and ?w' = "req_workspace q'"
  have d: "req_definition q' = ?d" and w: "policy_restricts ?w ?w'"
    using assms(1) by (auto simp: request_restricts_def)
  have risk: "effective_risk ?d (req_target q) \<le> effective_risk ?d (req_target q')"
    using assms(1) by (intro effective_risk_mono) (auto simp: request_restricts_def)
  have deny: "effective_approval ?w' i a = Deny"
    if "effective_approval ?w i a = Deny" "i \<notin> denied_tools ?w'" for i a
    using strict_Deny [of "effective_approval ?w' i a"] that w by (metis policy_restricts_def)
  have scopes: "is_satisfied_by r (actor_scopes (req_actor q'))
      \<Longrightarrow> is_satisfied_by r (actor_scopes (req_actor q))" for r
    using assms(1) by (auto simp: request_restricts_def intro: scope_grants.satisfied_mono)
  show ?thesis
    using assms(2) deny scopes risk assms(1) w
    unfolding refused_def d request_restricts_def policy_restricts_def denies_def
    by (meson less_le_trans order_le_less_trans subsetD)
qed

lemma owes_mono:
  assumes "request_restricts q q'" "owes_approval q"
  shows "refused q' \<or> owes_approval q'"
proof -
  let ?d = "req_definition q" and ?w = "req_workspace q" and ?w' = "req_workspace q'"
  have d: "req_definition q' = ?d" and w: "policy_restricts ?w ?w'"
    using assms(1) by (auto simp: request_restricts_def)
  have risk: "effective_risk ?d (req_target q) \<le> effective_risk ?d (req_target q')"
    using assms(1) by (intro effective_risk_mono) (auto simp: request_restricts_def)
  have ask: "effective_approval ?w' i a = Ask \<or> effective_approval ?w' i a = Deny"
    if "effective_approval ?w i a = Ask" "i \<notin> denied_tools ?w'" for i a
    using strict_Ask [of "effective_approval ?w' i a"] that w by (metis policy_restricts_def)
  show ?thesis
    using assms(2) ask risk w
    unfolding refused_def owes_approval_def d policy_restricts_def trusts_def denies_def
    by (meson order_trans subsetD)
qed

lemma evaluate_mono:
  "request_restricts q q' \<Longrightarrow>
     decision_level (pd_decision (evaluate q)) \<le> decision_level (pd_decision (evaluate q'))"
  using refused_mono owes_mono by (auto simp: evaluate_decision)

lemma policy_restricts_denying: "policy_restricts w (denying w i)"
  by (auto simp: policy_restricts_def denying_def effective_approval_def)

lemma policy_restricts_requiring:
  assumes "approval_tools w i = None"
  shows "policy_restricts w (requiring w i a)"
  using assms approval_scale.join_upper
  by (auto simp: policy_restricts_def requiring_def effective_approval_def)

section \<open>Properties\<close>

text \<open>The documented order of the checks, as a table read from the top.\<close>

definition refusal_table :: "PolicyRequest \<Rightarrow> (bool \<times> DenyReason) list" where
  "refusal_table q =
     (let d = req_definition q; w = req_workspace q; risk = effective_risk d (req_target q);
          approval = effective_approval w (td_id d) (td_approval d)
      in [(\<not> req_available q, CapabilityUnavailable),
          (actor_status (req_actor q) = Suspended, ActorNotPermitted),
          (td_id d \<in> denied_tools w, ToolDeniedByWorkspace),
          (max_risk w < risk, AboveWorkspaceCeiling),
          (\<not> is_satisfied_by (td_required_scopes d) (actor_scopes (req_actor q)), MissingScope),
          (approval = Deny, ToolPolicyDenies),
          (td_id d \<notin> trusted_tools w \<and> ExternalCommunication \<in> td_effects d
             \<and> requires_approval_for_external_communication w, ExternalCommunicationRequiresApproval),
          (td_id d \<notin> trusted_tools w \<and> (approval = Ask \<or> approval_threshold w \<le> risk),
             ApprovalRequired)])"


text \<open>C28: authorization is monotone. Withdrawing availability, suspending the actor, taking scopes
  away, adding escalation signals, or restricting the workspace policy (lower ceiling or threshold,
  more denials, less trust, tighter approvals) never turns a denial into a hold or an allow, nor a
  hold into an allow.\<close>

theorem evaluate_monotone:
  assumes "request_restricts q q'"
  shows "decision_level (pd_decision (evaluate q)) \<le> decision_level (pd_decision (evaluate q'))"
  using assms by (rule evaluate_mono)

definition sample_request :: PolicyRequest where
  "sample_request = \<lparr>req_definition = sample_tool,
     req_actor = ActorAuthority_active {sample_scope ''gmail'' ''*''},
     req_workspace = trusting WorkspacePolicy_default (td_id sample_tool),
     req_available = True, req_target = {}\<rparr>"

theorem evaluate_monotone_witness:
  "decision_level (pd_decision (evaluate sample_request))
     \<le> decision_level (pd_decision (evaluate (sample_request\<lparr>req_target := {Bulk},
         req_workspace := denying (req_workspace sample_request) (td_id sample_tool)\<rparr>)))"
  by (rule evaluate_monotone)
    (simp add: request_restricts_def policy_restricts_denying sample_request_def)

text \<open>Tightening outranks trust, in whatever order the owner's settings are applied. Once a
  workspace denies a tool, no later setting makes any call of it anything but denied; once it
  overrides a tool's approval, no later setting trusts that tool, so a tool that declares
  \<open>Ask\<close> is never run without an approval.\<close>

theorem tightening_outranks_trust:
  assumes "policy_wf w" "policy_wf (req_workspace q)"
  shows "(policy_op\<^sup>*\<^sup>* (denying w (td_id (req_definition q))) (req_workspace q)
            \<longrightarrow> is_denied (evaluate q))
    \<and> (policy_op\<^sup>*\<^sup>* (requiring w (td_id (req_definition q)) a) (req_workspace q)
            \<longrightarrow> td_approval (req_definition q) = Ask \<longrightarrow> \<not> is_allowed (evaluate q))"
proof (intro conjI impI)
  let ?i = "td_id (req_definition q)" and ?w = "req_workspace q"
  assume "policy_op\<^sup>*\<^sup>* (denying w ?i) ?w"
  then have "?i \<in> denied_tools ?w"
    by (rule policy_ops_keep(1)) (simp add: denying_def)
  then show "is_denied (evaluate q)"
    by (simp add: is_denied_def evaluate_decision refused_def denies_def)
next
  let ?i = "td_id (req_definition q)" and ?w = "req_workspace q"
  assume ops: "policy_op\<^sup>*\<^sup>* (requiring w ?i a) ?w" and ask: "td_approval (req_definition q) = Ask"
  have "?i \<in> denied_tools ?w \<union> dom (approval_tools ?w)"
    using ops by (rule policy_ops_keep(2)) (auto simp: requiring_def)
  with assms(2) have "\<not> trusts ?w ?i" by (auto simp: policy_wf_def trusts_def)
  moreover have "effective_approval ?w ?i Ask = Ask \<or> effective_approval ?w ?i Ask = Deny"
    using effective_approval_tightens [of Ask ?w ?i] by (rule strict_Ask)
  ultimately show "\<not> is_allowed (evaluate q)"
    using ask by (auto simp: is_allowed_def evaluate_decision refused_def owes_approval_def)
qed

theorem tightening_outranks_trust_witness:
  "is_denied (evaluate (sample_request\<lparr>req_workspace :=
     trusting (denying WorkspacePolicy_default (td_id sample_tool)) (td_id sample_tool)\<rparr>))"
proof -
  let ?w = "trusting (denying WorkspacePolicy_default (td_id sample_tool)) (td_id sample_tool)"
  let ?q = "sample_request\<lparr>req_workspace := ?w\<rparr>"
  have ops: "policy_op (denying WorkspacePolicy_default (td_id sample_tool)) ?w"
    by (rule op_trusting)
  have "policy_wf ?w"
    by (rule policy_op_wf [OF ops]) (rule policy_op_wf [OF op_denying policy_wf_initial(1)])
  with tightening_outranks_trust [OF policy_wf_initial(1), of ?q] ops show ?thesis
    by (auto simp: sample_request_def)
qed

text \<open>Context raises risk and never lowers it. The risk a decision is taken at is at least the
  declared risk, the floor of every declared effect and the level of every signal present, and it
  is one of the first two or the level of a signal; a call that is allowed was evaluated at a risk
  within the workspace's ceiling and, unless its tool is trusted by name, below the approval
  threshold.\<close>

theorem effective_risk_bounds:
  assumes "definition_wf (req_definition q)"
  shows "td_risk (req_definition q) \<le> pd_effective_risk (evaluate q)
    \<and> (\<forall>e \<in> td_effects (req_definition q).
         ToolEffect_risk_floor e \<le> Risk_level (pd_effective_risk (evaluate q)))
    \<and> (\<forall>s \<in> req_target q. EscalationSignal_escalation s \<le> pd_effective_risk (evaluate q))
    \<and> pd_effective_risk (evaluate q) \<in>
        insert (td_risk (req_definition q)) (EscalationSignal_escalation ` req_target q)
    \<and> (is_allowed (evaluate q) \<longrightarrow>
         pd_effective_risk (evaluate q) \<le> max_risk (req_workspace q)
         \<and> (trusts (req_workspace q) (td_id (req_definition q))
            \<or> pd_effective_risk (evaluate q) < approval_threshold (req_workspace q)))"
proof (intro conjI)
  let ?d = "req_definition q" and ?t = "req_target q"
  have max: "pd_effective_risk (evaluate q) = max (td_risk ?d) (TargetAssessment_escalation ?t)"
    by (simp add: evaluate_risk effective_risk_max)
  show declared: "td_risk ?d \<le> pd_effective_risk (evaluate q)" by (simp add: max)
  show "\<forall>e \<in> td_effects ?d. ToolEffect_risk_floor e \<le> Risk_level (pd_effective_risk (evaluate q))"
    using assms risk_floor_ge declared
    by (force simp: definition_wf_def less_eq_Risk_def intro: order_trans)
  show "\<forall>s \<in> ?t. EscalationSignal_escalation s \<le> pd_effective_risk (evaluate q)"
    using escalation_ge by (auto simp: max le_max_iff_disj)
  have "TargetAssessment_escalation ?t \<in> insert Minimal (EscalationSignal_escalation ` ?t)"
    unfolding TargetAssessment_escalation_def by (rule Max_in) auto
  then show "pd_effective_risk (evaluate q) \<in>
      insert (td_risk ?d) (EscalationSignal_escalation ` ?t)"
    by (cases "TargetAssessment_escalation ?t = Minimal") (auto simp: max, auto simp: max_def)
  show "is_allowed (evaluate q) \<longrightarrow> pd_effective_risk (evaluate q) \<le> max_risk (req_workspace q)
      \<and> (trusts (req_workspace q) (td_id ?d)
         \<or> pd_effective_risk (evaluate q) < approval_threshold (req_workspace q))"
    by (auto simp: is_allowed_def evaluate_decision evaluate_risk refused_def owes_approval_def
        split: if_splits)
qed

theorem effective_risk_bounds_witness:
  "td_risk sample_tool \<le> pd_effective_risk (evaluate sample_request)
   \<and> pd_effective_risk (evaluate sample_request) \<in> {td_risk sample_tool}"
proof -
  have "definition_wf (req_definition sample_request)"
    using ToolDefinition_new_wf [OF sample_tool_new] by (simp add: sample_request_def)
  from effective_risk_bounds [OF this] show ?thesis by (simp add: sample_request_def)
qed

text \<open>The "asks first" label agrees with the decision. For an available tool, an active actor
  that holds the scopes, an unremarkable target and a declared risk within the ceiling, the screen
  says a tool asks first exactly when \<open>evaluate\<close> would hold its call.\<close>

theorem asks_first_parity:
  assumes "req_available q" "actor_status (req_actor q) = Active" "req_target q = {}"
    and "is_satisfied_by (td_required_scopes (req_definition q)) (actor_scopes (req_actor q))"
    and "td_risk (req_definition q) \<le> max_risk (req_workspace q)"
  shows "asks_first (req_workspace q) (req_definition q) \<longleftrightarrow> is_held (evaluate q)"
proof -
  have "effective_risk (req_definition q) (req_target q) = td_risk (req_definition q)"
    using assms(3) by (simp add: effective_risk_max TargetAssessment_escalation_def)
  then show ?thesis
    using assms
    by (auto simp: asks_first_def Let_def is_held_def evaluate_decision refused_def
        owes_approval_def is_runnable_def external_rule_applies_def)
qed

theorem asks_first_parity_witness:
  "asks_first (req_workspace sample_request) sample_tool \<longleftrightarrow> is_held (evaluate sample_request)"
  using asks_first_parity [of sample_request]
  by (simp add: sample_request_def ActorAuthority_active_def sample_tool_def trusting_def
      WorkspacePolicy_default_def less_eq_Risk_def is_satisfied_by_def covers_def is_wildcard_def
      WILDCARD_ACTION_def sample_scope_def)

text \<open>Above the ceiling the label and the decision part: the label says the tool asks first, and the
  call is denied.\<close>

theorem asks_first_above_ceiling:
  "\<exists>w. WorkspacePolicy_new Low Low True = Ok w \<and> asks_first w sample_tool
     \<and> is_denied (evaluate (sample_request\<lparr>req_workspace := w\<rparr>))"
proof -
  let ?w = "\<lparr>max_risk = Low, approval_threshold = Low,
     requires_approval_for_external_communication = True, denied_tools = {},
     approval_tools = Map.empty, trusted_tools = {}\<rparr>"
  have "WorkspacePolicy_new Low Low True = Ok ?w" by (simp add: WorkspacePolicy_new_def)
  moreover have "asks_first ?w sample_tool"
    by (simp add: asks_first_def Let_def denies_def effective_approval_def is_runnable_def
        sample_tool_def trusts_def external_rule_applies_def)
  moreover have "is_denied (evaluate (sample_request\<lparr>req_workspace := ?w\<rparr>))"
    by (simp add: is_denied_def evaluate_decision refused_def sample_request_def effective_risk_max
        TargetAssessment_escalation_def sample_tool_def risk_order max_def)
  ultimately show ?thesis by blast
qed

text \<open>A tool trusted by name runs without an approval even when it communicates externally and the
  workspace requires an approval for that: the guard on \<open>trusted\<close> in \<open>evaluate\<close> never applies.\<close>

theorem trust_releases_external_communication:
  "ExternalCommunication \<in> td_effects (req_definition sample_request)
   \<and> requires_approval_for_external_communication (req_workspace sample_request)
   \<and> is_allowed (evaluate sample_request)"
  by (simp add: is_allowed_def evaluate_decision refused_def owes_approval_def sample_request_def
      ActorAuthority_active_def sample_tool_def trusting_def WorkspacePolicy_default_def denies_def
      trusts_def effective_approval_def effective_risk_max TargetAssessment_escalation_def
      risk_order max_def is_satisfied_by_def covers_def is_wildcard_def WILDCARD_ACTION_def
      sample_scope_def)

text \<open>The held decision a resumed call is built on reports the code of an allowed one.\<close>

lemma held_by_approval_code:
  "is_held (held_by_approval level) \<and> reason_code (held_by_approval level) = lit ''allowed''"
  by (simp add: is_held_def held_by_approval_def reason_code_def)

end
