(* ===== verification/Tool_Execution.thy ===== *)
theory Tool_Execution
  imports Policy_Evaluation Approval
begin

text \<open>
  The path from a decision to an adapter: bounded output, provider evidence, idempotency keys and
  the authorization receipt (\<open>jarvis-tools/src/execution.rs\<close>), and the execution request that must
  match the receipt it carries (\<open>executor.rs\<close>). The serialiser and the digest are the parameters
  of \<open>intent_compute\<close>.
\<close>

section \<open>Bounded output\<close>

definition MAX_TOOL_OUTPUT_BYTES :: nat where "MAX_TOOL_OUTPUT_BYTES = 32 * 1024"

definition MAX_PROVIDER_EVIDENCE_CHARS :: nat where "MAX_PROVIDER_EVIDENCE_CHARS = 256"

definition MAX_POLICY_VERSION_CHARS :: nat where "MAX_POLICY_VERSION_CHARS = 64"

datatype OutputError = OutputTooLarge

record BoundedOutput =
  out_content :: rstr
  out_truncated :: bool

definition BoundedOutput_strict :: "rstr \<Rightarrow> OutputError + BoundedOutput" where
  "BoundedOutput_strict content =
     (if str_len content > MAX_TOOL_OUTPUT_BYTES then Err OutputTooLarge
      else Ok \<lparr>out_content = content, out_truncated = False\<rparr>)"

text \<open>
  \<open>str::is_char_boundary\<close>, the loop that steps back to one, and the byte slice \<open>content[..end]\<close>
  at a boundary.
\<close>

definition is_char_boundary :: "rstr \<Rightarrow> nat \<Rightarrow> bool" where
  "is_char_boundary s n \<longleftrightarrow> n \<in> set (map (\<lambda>k. str_len (take k s)) [0..<Suc (length s)])"

fun floor_boundary :: "rstr \<Rightarrow> nat \<Rightarrow> nat" where
  "floor_boundary s 0 = 0"
| "floor_boundary s (Suc n) = (if \<not> is_char_boundary s (Suc n) then floor_boundary s n else Suc n)"

fun byte_prefix :: "rstr \<Rightarrow> nat \<Rightarrow> rstr" where
  "byte_prefix [] n = []"
| "byte_prefix (c # s) n = (if utf8_width c \<le> n then c # byte_prefix s (n - utf8_width c) else [])"

definition BoundedOutput_truncating :: "rstr \<Rightarrow> BoundedOutput" where
  "BoundedOutput_truncating content =
     (if str_len content \<le> MAX_TOOL_OUTPUT_BYTES
      then \<lparr>out_content = content, out_truncated = False\<rparr>
      else \<lparr>out_content = byte_prefix content (floor_boundary content MAX_TOOL_OUTPUT_BYTES),
            out_truncated = True\<rparr>)"

definition BoundedOutput_from_bounded :: "rstr \<Rightarrow> bool \<Rightarrow> BoundedOutput" where
  "BoundedOutput_from_bounded content truncated =
     (if str_len content > MAX_TOOL_OUTPUT_BYTES
      then (BoundedOutput_truncating content)\<lparr>out_truncated := True\<rparr>
      else \<lparr>out_content = content, out_truncated = truncated\<rparr>)"

section \<open>Evidence and idempotency keys\<close>

datatype EvidenceError = EvidenceUnusable

definition ProviderEvidence_new :: "rstr \<Rightarrow> EvidenceError + rstr" where
  "ProviderEvidence_new value =
     (let trimmed = trim value in
      if trimmed = [] \<or> length trimmed > MAX_PROVIDER_EVIDENCE_CHARS then Err EvidenceUnusable
      else Ok trimmed)"

datatype IdempotencyKeyError = KeyLength | KeyNotHexadecimal | RandomUnavailable

text \<open>The sixteen bytes of the platform random source, or its failure, are an argument.\<close>

definition IdempotencyKey_generate :: "byte list option \<Rightarrow> IdempotencyKeyError + rstr" where
  "IdempotencyKey_generate random = map_ok encode_hex (ok_or random RandomUnavailable)"

definition IdempotencyKey_parse :: "rstr \<Rightarrow> IdempotencyKeyError + rstr" where
  "IdempotencyKey_parse text =
     (let trimmed = trim text in
      if str_len trimmed \<noteq> 32 then Err KeyLength
      else if \<not> list_all is_ascii_hexdigit trimmed then Err KeyNotHexadecimal
      else Ok (map to_ascii_lowercase trimmed))"

section \<open>Receipts\<close>

datatype ReceiptError = PolicyVersionInvalid | ApprovalIncomplete | ApproverWithoutApproval
  | DecisionNotAuthorizing | IntentMismatch

record ApprovalCitation =
  cite_approval_id :: rstr
  cite_approver_id :: rstr
  cite_approved_at :: instant
  cite_expires_at :: instant

record AuthorizationReceiptParts =
  arp_receipt_id :: rstr
  arp_tool :: ToolId
  arp_tool_version :: rstr
  arp_arguments :: json
  arp_intent_hash :: CanonicalIntentHash
  arp_policy_version :: rstr
  arp_decision :: PolicyDecision
  arp_approval :: "ApprovalCitation option"
  arp_correlation_id :: ident
  arp_issued_at :: instant

record AuthorizationReceipt =
  rcp_receipt_id :: rstr
  rcp_tool :: rstr
  rcp_tool_version :: rstr
  rcp_intent_hash :: rstr
  rcp_policy_version :: rstr
  rcp_risk_level :: nat
  rcp_approval_id :: "rstr option"
  rcp_approver_id :: "rstr option"
  rcp_approved_at :: "instant option"
  rcp_expires_at :: "instant option"
  rcp_correlation_id :: ident
  rcp_issued_at :: instant

definition AuthorizationReceipt_new ::
  "(json \<Rightarrow> rstr option) \<Rightarrow> (rstr \<Rightarrow> byte list) \<Rightarrow> AuthorizationReceiptParts
    \<Rightarrow> ReceiptError + AuthorizationReceipt" where
  "AuthorizationReceipt_new to_string sha256 p =
     (let policy_version = trim (arp_policy_version p) in
      if policy_version = [] \<or> length policy_version > MAX_POLICY_VERSION_CHARS
      then Err PolicyVersionInvalid
      else if is_denied (arp_decision p) then Err DecisionNotAuthorizing
      else if is_held (arp_decision p) \<and> arp_approval p = None then Err DecisionNotAuthorizing
      else
        and_then (map_err (\<lambda>_. IntentMismatch)
          (intent_compute to_string sha256 (ToolId_display (arp_tool p)) (arp_tool_version p)
             (arp_arguments p))) (\<lambda>expected.
        if expected \<noteq> arp_intent_hash p then Err IntentMismatch
        else
          and_then (case arp_approval p of
              None \<Rightarrow> Ok ()
            | Some citation \<Rightarrow> guard (trim (cite_approver_id citation) = []) ApprovalIncomplete) (\<lambda>_.
          Ok \<lparr>rcp_receipt_id = arp_receipt_id p,
              rcp_tool = ToolId_display (arp_tool p),
              rcp_tool_version = arp_tool_version p,
              rcp_intent_hash = encode_hex (arp_intent_hash p),
              rcp_policy_version = policy_version,
              rcp_risk_level = Risk_level (pd_effective_risk (arp_decision p)),
              rcp_approval_id = map_option cite_approval_id (arp_approval p),
              rcp_approver_id = map_option cite_approver_id (arp_approval p),
              rcp_approved_at = map_option cite_approved_at (arp_approval p),
              rcp_expires_at = map_option cite_expires_at (arp_approval p),
              rcp_correlation_id = arp_correlation_id p,
              rcp_issued_at = arp_issued_at p\<rparr>)))"

definition receipt_is_valid_at :: "AuthorizationReceipt \<Rightarrow> instant \<Rightarrow> bool" where
  "receipt_is_valid_at r now =
     (case rcp_expires_at r of Some expires_at \<Rightarrow> now < expires_at | None \<Rightarrow> True)"

record ToolCallResult =
  res_record :: ToolOutcomeRecord
  res_evidence :: "rstr option"
  res_output :: "BoundedOutput option"
  res_reported_at :: instant

definition ToolCallResult_is_terminal :: "ToolCallResult \<Rightarrow> bool" where
  "ToolCallResult_is_terminal r = ToolOutcome_is_terminal (rec_outcome (res_record r))"

section \<open>Execution requests\<close>

datatype ExecutionRequestError = Exec_ArgumentsNotAnObject | ReceiptExpired
  | ToolNotAuthorized rstr rstr | ArgumentsNotAuthorized

record ToolExecutionRequestParts =
  exp_call_id :: rstr
  exp_tool :: ToolId
  exp_tool_version :: rstr
  exp_arguments :: json
  exp_receipt :: AuthorizationReceipt
  exp_idempotency_key :: rstr
  exp_deadline :: instant
  exp_correlation_id :: ident

record ToolExecutionRequest = ToolExecutionRequestParts +
  exr_read_context :: "(ident \<times> Sensitivity) option"

definition ToolExecutionRequest_new ::
  "(json \<Rightarrow> rstr option) \<Rightarrow> (rstr \<Rightarrow> byte list) \<Rightarrow> ToolExecutionRequestParts
    \<Rightarrow> ExecutionRequestError + ToolExecutionRequest" where
  "ToolExecutionRequest_new to_string sha256 p =
     (let receipt = exp_receipt p; tool = ToolId_display (exp_tool p) in
      if \<not> is_object (exp_arguments p) then Err Exec_ArgumentsNotAnObject
      else if \<not> receipt_is_valid_at receipt (rcp_issued_at receipt) then Err ReceiptExpired
      else if rcp_tool receipt \<noteq> tool \<or> rcp_tool_version receipt \<noteq> exp_tool_version p
      then Err (ToolNotAuthorized (rcp_tool receipt @ lit ''@'' @ rcp_tool_version receipt)
                  (tool @ lit ''@'' @ exp_tool_version p))
      else
        and_then (map_err (\<lambda>_. ArgumentsNotAuthorized)
          (intent_compute to_string sha256 tool (exp_tool_version p) (exp_arguments p))) (\<lambda>computed.
        if encode_hex computed \<noteq> rcp_intent_hash receipt then Err ArgumentsNotAuthorized
        else Ok (ToolExecutionRequestParts.extend (ToolExecutionRequestParts.truncate p)
                   \<lparr>exr_read_context = None\<rparr>)))"

definition with_read_context ::
  "ToolExecutionRequest \<Rightarrow> ident \<Rightarrow> Sensitivity \<Rightarrow> ToolExecutionRequest" where
  "with_read_context r workspace destination = r\<lparr>exr_read_context := Some (workspace, destination)\<rparr>"

definition is_past_deadline :: "ToolExecutionRequest \<Rightarrow> instant \<Rightarrow> bool" where
  "is_past_deadline r now \<longleftrightarrow> now \<ge> exp_deadline r"

datatype AdapterError = NotImplemented rstr | RefusedBeforeReaching rstr
  | AmbiguousAfterReaching rstr | ProviderRefused rstr

section \<open>Lemmas\<close>

interpretation receipt_authority: lapsing_authority receipt_is_valid_at rcp_expires_at
  by unfold_locales (auto simp: receipt_is_valid_at_def split: option.splits)

lemma is_char_boundary_iff: "is_char_boundary s n \<longleftrightarrow> (\<exists>k \<le> length s. n = str_len (take k s))"
  by (auto simp: is_char_boundary_def less_Suc_eq_le simp del: upt_Suc)

lemma floor_boundary_props:
  "is_char_boundary s (floor_boundary s n) \<and> floor_boundary s n \<le> n
   \<and> (\<forall>m. is_char_boundary s m \<and> m \<le> n \<longrightarrow> m \<le> floor_boundary s n)"
proof (induction n)
  case 0
  have "is_char_boundary s 0" by (auto simp: is_char_boundary_iff intro: exI [of _ 0])
  then show ?case by simp
next
  case (Suc n)
  then show ?case by (auto simp: le_Suc_eq)
qed

lemma byte_prefix_boundary: "k \<le> length s \<Longrightarrow> byte_prefix s (str_len (take k s)) = take k s"
proof (induction s arbitrary: k)
  case (Cons c s)
  then show ?case using utf8_width_bounds(1) [of c] by (cases k) auto
qed simp

lemma next_boundary:
  assumes "k < length s"
  shows "str_len (take (Suc k) s) \<le> str_len (take k s) + 4"
  using assms utf8_width_bounds(2) [of "s ! k"] by (simp add: take_Suc_conv_app_nth)

lemma truncating_prefix:
  assumes "MAX_TOOL_OUTPUT_BYTES < str_len s"
  obtains k where "k < length s" "out_content (BoundedOutput_truncating s) = take k s"
    "str_len (take k s) \<le> MAX_TOOL_OUTPUT_BYTES" "MAX_TOOL_OUTPUT_BYTES < str_len (take k s) + 4"
proof -
  let ?n = MAX_TOOL_OUTPUT_BYTES
  let ?b = "floor_boundary s ?n"
  obtain k where k: "k \<le> length s" "?b = str_len (take k s)"
    using floor_boundary_props [of s ?n] by (auto simp: is_char_boundary_iff)
  have le: "str_len (take k s) \<le> ?n" using floor_boundary_props [of s ?n] k(2) by simp
  have "k \<noteq> length s" using le assms by auto
  with k(1) have lt: "k < length s" by simp
  have "\<not> str_len (take (Suc k) s) \<le> ?n"
  proof
    assume "str_len (take (Suc k) s) \<le> ?n"
    moreover have "is_char_boundary s (str_len (take (Suc k) s))"
      using lt by (auto simp: is_char_boundary_iff intro!: exI [of _ "Suc k"])
    ultimately have "str_len (take (Suc k) s) \<le> ?b" using floor_boundary_props [of s ?n] by blast
    moreover have "str_len (take k s) < str_len (take (Suc k) s)"
      using lt utf8_width_bounds(1) [of "s ! k"] by (simp add: take_Suc_conv_app_nth)
    ultimately show False using k(2) by simp
  qed
  with next_boundary [OF lt] have "?n < str_len (take k s) + 4" by simp
  moreover have "out_content (BoundedOutput_truncating s) = take k s"
    using assms k byte_prefix_boundary [OF k(1)] by (simp add: BoundedOutput_truncating_def)
  ultimately show thesis using that lt le by blast
qed

lemma encode_hex_inj [simp]: "encode_hex a = encode_hex b \<longleftrightarrow> a = b"
  by (metis hex_pairs_encode_hex)

lemma AuthorizationReceipt_new_Ok:
  assumes "AuthorizationReceipt_new ts sha p = Ok r"
  shows "\<not> is_denied (arp_decision p)" "is_held (arp_decision p) \<Longrightarrow> arp_approval p \<noteq> None"
    "intent_compute ts sha (ToolId_display (arp_tool p)) (arp_tool_version p) (arp_arguments p)
       = Ok (arp_intent_hash p)"
    "rcp_tool r = ToolId_display (arp_tool p)" "rcp_tool_version r = arp_tool_version p"
    "rcp_intent_hash r = encode_hex (arp_intent_hash p)"
    "rcp_risk_level r = Risk_level (pd_effective_risk (arp_decision p))"
    "rcp_approval_id r = map_option cite_approval_id (arp_approval p)"
    "rcp_approver_id r = map_option cite_approver_id (arp_approval p)"
    "rcp_expires_at r = map_option cite_expires_at (arp_approval p)"
    "rcp_issued_at r = arp_issued_at p"
    "\<And>c. arp_approval p = Some c \<Longrightarrow> trim (cite_approver_id c) \<noteq> []"
  using assms
  by (auto simp: AuthorizationReceipt_new_def Let_def split: if_splits option.splits)

lemma ToolExecutionRequest_new_Ok:
  assumes "ToolExecutionRequest_new ts sha p = Ok x"
  shows "rcp_tool (exp_receipt p) = ToolId_display (exp_tool p)"
    "rcp_tool_version (exp_receipt p) = exp_tool_version p"
    "receipt_is_valid_at (exp_receipt p) (rcp_issued_at (exp_receipt p))"
    "\<exists>h. intent_compute ts sha (ToolId_display (exp_tool p)) (exp_tool_version p) (exp_arguments p) = Ok h
       \<and> encode_hex h = rcp_intent_hash (exp_receipt p)"
    "exp_receipt x = exp_receipt p" "exp_arguments x = exp_arguments p" "exp_tool x = exp_tool p"
    "exp_tool_version x = exp_tool_version p" "exr_read_context x = None"
  using assms
  by (auto simp: ToolExecutionRequest_new_def Let_def ToolExecutionRequestParts.defs
      split: if_splits)

section \<open>Properties\<close>

text \<open>Retained output is bounded and honest. Truncating keeps a prefix of whole characters of at
  most 32 KiB, loses nothing that fits, marks the result exactly when something was cut, and never
  drops more than three bytes below the bound; recording already bounded content keeps the same
  bound and never clears the caller's truncation claim.\<close>

theorem bounded_output:
  "\<exists>k. out_content (BoundedOutput_truncating s) = take k s
      \<and> str_len (take k s) \<le> MAX_TOOL_OUTPUT_BYTES
      \<and> (out_truncated (BoundedOutput_truncating s) \<longleftrightarrow> take k s \<noteq> s)
      \<and> (take k s \<noteq> s \<longrightarrow> MAX_TOOL_OUTPUT_BYTES - 3 \<le> str_len (take k s))
      \<and> out_content (BoundedOutput_from_bounded s t) = take k s
      \<and> (out_truncated (BoundedOutput_from_bounded s t) \<longleftrightarrow> t \<or> take k s \<noteq> s)"
proof (cases "str_len s \<le> MAX_TOOL_OUTPUT_BYTES")
  case True
  then show ?thesis
    by (intro exI [of _ "length s"])
      (simp add: BoundedOutput_truncating_def BoundedOutput_from_bounded_def)
next
  case False
  then obtain k where k: "k < length s" "out_content (BoundedOutput_truncating s) = take k s"
    "str_len (take k s) \<le> MAX_TOOL_OUTPUT_BYTES" "MAX_TOOL_OUTPUT_BYTES < str_len (take k s) + 4"
    using truncating_prefix [of s] by (auto simp: not_le)
  have "out_truncated (BoundedOutput_truncating s)" using False
    by (simp add: BoundedOutput_truncating_def)
  moreover have "take k s \<noteq> s" using k(1) by (metis length_take less_irrefl min.absorb2 less_imp_le)
  ultimately show ?thesis
    using k False by (intro exI [of _ k]) (auto simp: BoundedOutput_from_bounded_def)
qed

theorem bounded_output_witness:
  "\<exists>k. out_content (BoundedOutput_truncating (lit ''ok'')) = take k (lit ''ok'')
     \<and> str_len (take k (lit ''ok'')) \<le> MAX_TOOL_OUTPUT_BYTES"
  using bounded_output [of "lit ''ok''" False] by blast

text \<open>A receipt exists only for a call that was authorized. Whatever parts a caller assembles,
  a receipt comes out only when the decision allowed the call or held it and an approval with a
  named approver is cited; it carries the risk of that decision, the digest of exactly these
  arguments, and lapses exactly when the cited approval does.\<close>

theorem receipt_only_from_authority:
  assumes "AuthorizationReceipt_new to_string sha256 p = Ok r"
  shows "(is_allowed (arp_decision p)
          \<or> is_held (arp_decision p) \<and> (\<exists>c. arp_approval p = Some c \<and> trim (cite_approver_id c) \<noteq> []))
    \<and> rcp_risk_level r = Risk_level (pd_effective_risk (arp_decision p))
    \<and> intent_from_str (rcp_intent_hash r) =
        (if length (arp_intent_hash p) = 32
         then intent_compute to_string sha256 (rcp_tool r) (rcp_tool_version r) (arp_arguments p)
         else Err NotCanonicalizable)
    \<and> (\<forall>t. receipt_is_valid_at r t \<longleftrightarrow> (\<forall>c. arp_approval p = Some c \<longrightarrow> t < cite_expires_at c))"
proof -
  note ok = AuthorizationReceipt_new_Ok [OF assms]
  have "is_allowed (arp_decision p)
      \<or> is_held (arp_decision p) \<and> (\<exists>c. arp_approval p = Some c \<and> trim (cite_approver_id c) \<noteq> [])"
    using ok(1,2,12)
    by (cases "pd_decision (arp_decision p)") (auto simp: is_allowed_def is_held_def is_denied_def)
  moreover have "intent_from_str (encode_hex h) = (if length h = 32 then Ok h else Err NotCanonicalizable)"
    for h
    using encode_hex_hexdigits [of h] str_len_ascii [of "encode_hex h"]
    by (auto simp: intent_from_str_def list_all_iff hex_pairs_encode_hex)
  moreover have "receipt_is_valid_at r t \<longleftrightarrow> (\<forall>c. arp_approval p = Some c \<longrightarrow> t < cite_expires_at c)" for t
    using ok(10) by (cases "arp_approval p") (auto simp: receipt_is_valid_at_def)
  ultimately show ?thesis using ok(3-7) by simp
qed

text \<open>A serialiser and a digest for the empty object, for closed examples.\<close>

definition sample_to_string :: "json \<Rightarrow> rstr option" where
  "sample_to_string v = (if v = JObject [] then Some (lit ''{}'') else None)"

definition sample_sha :: "rstr \<Rightarrow> byte list" where
  "sample_sha s = replicate 32 (of_nat (length s))"

definition sample_receipt_parts :: AuthorizationReceiptParts where
  "sample_receipt_parts = \<lparr>arp_receipt_id = lit ''r1'', arp_tool = td_id sample_tool,
     arp_tool_version = lit ''1.0'', arp_arguments = JObject [],
     arp_intent_hash = sample_sha (canonical_text (lit ''gmail.send'') (lit ''1.0'') (lit ''{}'')),
     arp_policy_version = lit ''p1'', arp_decision = evaluate sample_request, arp_approval = None,
     arp_correlation_id = lit ''c1'', arp_issued_at = 10\<rparr>"

lemma sample_intent:
  "intent_compute sample_to_string sample_sha (lit ''gmail.send'') (lit ''1.0'') (JObject [])
     = Ok (sample_sha (canonical_text (lit ''gmail.send'') (lit ''1.0'') (lit ''{}'')))"
  by (simp add: intent_compute_Ok sample_to_string_def is_object_def canonical_text_def
      MAX_CANONICAL_INTENT_CHARS_def)

lemma sample_display: "ToolId_display (td_id sample_tool) = lit ''gmail.send''"
  by (simp add: sample_tool_def ToolId_display_def lit_def)

lemma sample_receipt_ok:
  "\<exists>r. AuthorizationReceipt_new sample_to_string sample_sha sample_receipt_parts = Ok r"
proof -
  have "trim (lit ''p1'') = lit ''p1''" by (simp add: trim_def lit_def is_whitespace_def)
  moreover have "is_allowed (evaluate sample_request)"
    using trust_releases_external_communication by blast
  ultimately show ?thesis
    by (simp add: AuthorizationReceipt_new_def sample_receipt_parts_def Let_def sample_display
        sample_intent MAX_POLICY_VERSION_CHARS_def is_allowed_def is_denied_def is_held_def)
qed

theorem receipt_only_from_authority_witness:
  "\<exists>r. AuthorizationReceipt_new sample_to_string sample_sha sample_receipt_parts = Ok r
     \<and> rcp_risk_level r = Risk_level (pd_effective_risk (evaluate sample_request))"
proof -
  obtain r where "AuthorizationReceipt_new sample_to_string sample_sha sample_receipt_parts = Ok r"
    using sample_receipt_ok by blast
  from receipt_only_from_authority [OF this] this show ?thesis
    by (auto simp: sample_receipt_parts_def)
qed

text \<open>C4: nothing executes that was not authorized. When an executor request is built around a
  receipt, the call it describes is the very call the receipt was issued for (tool, version, and
  arguments up to key order, digests not colliding), whose policy decision did not deny it and, if
  held, was released by a cited approval that had not lapsed when the receipt was issued.\<close>

theorem execution_only_as_authorized:
  assumes "AuthorizationReceipt_new to_string sha256 a = Ok (exp_receipt p)"
    and "ToolExecutionRequest_new to_string sha256 p = Ok x"
    and "serialiser_injective to_string"
    and "\<forall>c c'. to_string (json_sorted (arp_arguments a)) = Some c
      \<longrightarrow> to_string (json_sorted (exp_arguments p)) = Some c'
      \<longrightarrow> no_collision sha256
            (canonical_text (ToolId_display (arp_tool a)) (arp_tool_version a) c)
            (canonical_text (ToolId_display (exp_tool p)) (exp_tool_version p) c')"
  shows "ToolId_display (exp_tool x) = ToolId_display (arp_tool a)
    \<and> exp_tool_version x = arp_tool_version a
    \<and> json_same (arp_arguments a) (exp_arguments x)
    \<and> \<not> is_denied (arp_decision a)
    \<and> (is_held (arp_decision a) \<longrightarrow>
        (\<exists>c. arp_approval a = Some c \<and> arp_issued_at a < cite_expires_at c))"
proof -
  note r = AuthorizationReceipt_new_Ok [OF assms(1)]
  note x = ToolExecutionRequest_new_Ok [OF assms(2)]
  have tool: "ToolId_display (exp_tool p) = ToolId_display (arp_tool a)"
    and version: "exp_tool_version p = arp_tool_version a" using r(4,5) x(1,2) by simp_all
  have "intent_compute to_string sha256 (ToolId_display (exp_tool p)) (exp_tool_version p)
      (exp_arguments p) = Ok (arp_intent_hash a)"
    using x(4) r(6) by auto
  with r(3) obtain c c' where c: "to_string (json_sorted (arp_arguments a)) = Some c"
    "to_string (json_sorted (exp_arguments p)) = Some c'"
    "canonical_text (ToolId_display (arp_tool a)) (arp_tool_version a) c
       = canonical_text (ToolId_display (exp_tool p)) (exp_tool_version p) c'"
    using assms(4) by (auto simp: intent_compute_Ok no_collision_def)
  then have "c = c'" by (simp add: tool version canonical_text_def)
  with c assms(3) have "json_sorted (arp_arguments a) = json_sorted (exp_arguments p)"
    unfolding serialiser_injective_def by blast
  then have "json_same (arp_arguments a) (exp_arguments x)"
    using json_sorted_same by (simp add: x(6))
  moreover have "\<exists>c. arp_approval a = Some c \<and> arp_issued_at a < cite_expires_at c"
    if "is_held (arp_decision a)"
    using r(2) [OF that] r(10,11) x(3) by (auto simp: receipt_is_valid_at_def)
  ultimately show ?thesis using tool version r(1) x(7,8) by simp
qed

definition sample_exec_parts :: "AuthorizationReceipt \<Rightarrow> ToolExecutionRequestParts" where
  "sample_exec_parts r = \<lparr>exp_call_id = lit ''call'', exp_tool = td_id sample_tool,
     exp_tool_version = lit ''1.0'', exp_arguments = JObject [], exp_receipt = r,
     exp_idempotency_key = lit ''k'', exp_deadline = 100, exp_correlation_id = lit ''c1''\<rparr>"

lemma sample_exec_ok:
  assumes "AuthorizationReceipt_new sample_to_string sample_sha sample_receipt_parts = Ok r"
  shows "\<exists>x. ToolExecutionRequest_new sample_to_string sample_sha (sample_exec_parts r) = Ok x"
  using AuthorizationReceipt_new_Ok [OF assms]
  by (simp add: ToolExecutionRequest_new_def sample_exec_parts_def sample_receipt_parts_def
      receipt_is_valid_at_def is_object_def sample_display sample_intent Let_def)

theorem execution_only_as_authorized_witness:
  "\<exists>r x. ToolExecutionRequest_new sample_to_string sample_sha (sample_exec_parts r) = Ok x
     \<and> exp_tool_version x = lit ''1.0'' \<and> \<not> is_denied (evaluate sample_request)"
proof -
  obtain r where r: "AuthorizationReceipt_new sample_to_string sample_sha sample_receipt_parts = Ok r"
    using sample_receipt_ok by blast
  then obtain x where x: "ToolExecutionRequest_new sample_to_string sample_sha (sample_exec_parts r) = Ok x"
    using sample_exec_ok by blast
  have r': "AuthorizationReceipt_new sample_to_string sample_sha sample_receipt_parts
      = Ok (exp_receipt (sample_exec_parts r))" using r by (simp add: sample_exec_parts_def)
  have "serialiser_injective sample_to_string"
    by (auto simp: serialiser_injective_def sample_to_string_def split: if_splits)
  from execution_only_as_authorized [OF r' x this] x show ?thesis
    by (auto simp: sample_exec_parts_def sample_receipt_parts_def sample_to_string_def
        no_collision_def sample_display)
qed

end
