(* ===== verification/Ordered_Map.thy ===== *)
theory Ordered_Map
  imports Main "HOL-Library.Product_Lexorder"
begin

text \<open>
  \<open>std::collections::BTreeMap\<close> as the list of its entries in ascending key order. The locale
  \<open>ordered_store\<close> is what the registry relies on: lookup after insertion and removal, the order of
  iteration, and the entry count.
\<close>

type_synonym ('k, 'v) btree_map = "('k \<times> 'v) list"

definition bt_get :: "('k, 'v) btree_map \<Rightarrow> 'k \<Rightarrow> 'v option" where
  "bt_get m k = map_of m k"

fun bt_insert :: "('k :: linorder) \<Rightarrow> 'v \<Rightarrow> ('k, 'v) btree_map \<Rightarrow> ('k, 'v) btree_map" where
  "bt_insert k v [] = [(k, v)]"
| "bt_insert k v ((a, b) # m) =
     (if k < a then (k, v) # (a, b) # m
      else if k = a then (k, v) # m
      else (a, b) # bt_insert k v m)"

definition bt_remove :: "'k \<Rightarrow> ('k, 'v) btree_map \<Rightarrow> ('k, 'v) btree_map" where
  "bt_remove k m = filter (\<lambda>p. fst p \<noteq> k) m"

definition bt_contains :: "('k, 'v) btree_map \<Rightarrow> 'k \<Rightarrow> bool" where
  "bt_contains m k \<longleftrightarrow> bt_get m k \<noteq> None"

definition bt_inv :: "(('k :: linorder), 'v) btree_map \<Rightarrow> bool" where
  "bt_inv m \<longleftrightarrow> sorted_wrt (<) (map fst m)"

section \<open>The interface\<close>

locale ordered_store =
  fixes get :: "'m \<Rightarrow> 'k :: linorder \<Rightarrow> 'v option"
    and ins :: "'k \<Rightarrow> 'v \<Rightarrow> 'm \<Rightarrow> 'm"
    and rem :: "'k \<Rightarrow> 'm \<Rightarrow> 'm"
    and entries :: "'m \<Rightarrow> ('k \<times> 'v) list"
    and inv :: "'m \<Rightarrow> bool"
  assumes get_ins: "inv m \<Longrightarrow> get (ins k v m) j = (if j = k then Some v else get m j)"
    and get_rem: "inv m \<Longrightarrow> get (rem k m) j = (if j = k then None else get m j)"
    and inv_ins: "inv m \<Longrightarrow> inv (ins k v m)"
    and inv_rem: "inv m \<Longrightarrow> inv (rem k m)"
    and entries_get: "inv m \<Longrightarrow> (k, v) \<in> set (entries m) \<longleftrightarrow> get m k = Some v"
    and entries_sorted: "inv m \<Longrightarrow> sorted_wrt (<) (map fst (entries m))"
begin

lemma keys_distinct: "inv m \<Longrightarrow> distinct (map fst (entries m))"
  using entries_sorted strict_sorted_iff by blast

lemma entries_distinct: "inv m \<Longrightarrow> distinct (entries m)"
  using keys_distinct by (metis distinct_map)

lemma keys_dom: "inv m \<Longrightarrow> set (map fst (entries m)) = {k. get m k \<noteq> None}"
  using entries_get by force

lemma length_keys: "inv m \<Longrightarrow> length (entries m) = card {k. get m k \<noteq> None}"
  using keys_distinct keys_dom by (metis distinct_card length_map)

lemma finite_keys: "inv m \<Longrightarrow> finite {k. get m k \<noteq> None}"
  using keys_dom by (metis finite_set)

lemma length_ins:
  assumes "inv m"
  shows "length (entries (ins k v m)) =
    (if get m k = None then Suc (length (entries m)) else length (entries m))"
proof -
  have "{j. get (ins k v m) j \<noteq> None} = insert k {j. get m j \<noteq> None}"
    using get_ins [OF assms] by auto
  then show ?thesis
    using finite_keys [OF assms]
    by (simp add: length_keys assms inv_ins card_insert_if)
qed

lemma length_rem_le: "inv m \<Longrightarrow> length (entries (rem k m)) \<le> length (entries m)"
  using finite_keys [of m]
  by (auto simp: length_keys inv_rem get_rem intro!: card_mono)

end

section \<open>The model provides it\<close>

lemma fst_bt_insert: "fst ` set (bt_insert k v m) = insert k (fst ` set m)"
  by (induction k v m rule: bt_insert.induct) auto

lemma bt_inv_insert: "bt_inv m \<Longrightarrow> bt_inv (bt_insert k v m)"
proof (induction m)
  case (Cons p m)
  obtain a b where p: "p = (a, b)" by force
  show ?case
  proof (cases "k < a \<or> k = a")
    case True
    with Cons.prems show ?thesis by (auto simp: p bt_inv_def)
  next
    case False
    have "\<forall>x \<in> fst ` set (bt_insert k v m). a < x"
      using Cons.prems False unfolding fst_bt_insert by (auto simp: p bt_inv_def)
    with Cons False show ?thesis by (auto simp: p bt_inv_def)
  qed
qed (simp add: bt_inv_def)

lemma bt_get_insert:
  "bt_inv m \<Longrightarrow> bt_get (bt_insert k v m) j = (if j = k then Some v else bt_get m j)"
  by (induction m) (auto simp: bt_get_def bt_inv_def)

lemma map_of_filter_key: "map_of (filter (\<lambda>p. fst p \<noteq> k) m) j = (if j = k then None else map_of m j)"
  by (induction m) auto

interpretation bt: ordered_store bt_get bt_insert bt_remove "\<lambda>m. m" bt_inv
proof
  fix m :: "('a \<times> 'b) list" and k j :: 'a and v :: 'b
  assume inv: "bt_inv m"
  show "bt_get (bt_insert k v m) j = (if j = k then Some v else bt_get m j)"
    by (rule bt_get_insert [OF inv])
  show "bt_get (bt_remove k m) j = (if j = k then None else bt_get m j)"
    by (simp add: bt_get_def bt_remove_def map_of_filter_key)
  show "bt_inv (bt_insert k v m)" by (rule bt_inv_insert [OF inv])
  show "bt_inv (bt_remove k m)"
    using inv by (simp add: bt_inv_def bt_remove_def sorted_wrt_filter sorted_wrt_map)
  show sorted: "sorted_wrt (<) (map fst m)" using inv by (simp add: bt_inv_def)
  then have "distinct (map fst m)" using strict_sorted_iff by blast
  then show "(k, v) \<in> set m \<longleftrightarrow> bt_get m k = Some v" by (simp add: bt_get_def)
qed

end
