(* ===== verification/Tool_Registry.thy ===== *)
theory Tool_Registry
  imports Tool_Contract Ordered_Map
begin

text \<open>
  The tool registry (\<open>jarvis-tools/src/registry.rs\<close>): registration with collision, version and
  size rules, atomic batches, runtime availability, bounded discovery for a model and the
  inventory for an operator. The registry is the ordered map from identifiers to entries.
\<close>

section \<open>Entries and operations\<close>

definition MAX_REGISTERED_TOOLS :: nat where "MAX_REGISTERED_TOOLS = 512"

definition MAX_DISCOVERY_TOOLS :: nat where "MAX_DISCOVERY_TOOLS = 64"

definition MAX_SUMMARY_DESCRIPTION_CHARS :: nat where "MAX_SUMMARY_DESCRIPTION_CHARS = 160"

datatype RegistrationError = Duplicate rstr | UnknownTool rstr | VersionUnchanged rstr rstr
  | RegistryFull

datatype RegistryError = ToolNotFound rstr

record Entry =
  ent_definition :: ToolDefinition
  ent_runtime :: "Availability option"

definition effective_availability :: "Entry \<Rightarrow> Availability" where
  "effective_availability e =
     (if \<not> is_available (td_availability (ent_definition e)) then td_availability (ent_definition e)
      else case ent_runtime e of Some a \<Rightarrow> a | None \<Rightarrow> td_availability (ent_definition e))"

text \<open>\<open>ToolId\<close> derives its order from its fields: namespace first, then name.\<close>

type_synonym registry_key = "rstr \<times> rstr"

definition tool_key :: "ToolId \<Rightarrow> registry_key" where
  "tool_key t = (tid_namespace t, tid_name t)"

type_synonym ToolRegistry = "(registry_key, Entry) btree_map"

definition registry_new :: ToolRegistry where
  "registry_new = []"

definition define_tool :: "ToolRegistry \<Rightarrow> ToolDefinition \<Rightarrow> ToolRegistry \<times> (RegistrationError + unit)" where
  "define_tool reg d =
     (if bt_contains reg (tool_key (td_id d)) then (reg, Err (Duplicate (ToolId_display (td_id d))))
      else if length reg \<ge> MAX_REGISTERED_TOOLS then (reg, Err RegistryFull)
      else (bt_insert (tool_key (td_id d)) \<lparr>ent_definition = d, ent_runtime = None\<rparr> reg, Ok ()))"

definition replace_tool :: "ToolRegistry \<Rightarrow> ToolDefinition \<Rightarrow> ToolRegistry \<times> (RegistrationError + unit)" where
  "replace_tool reg d =
     (case bt_get reg (tool_key (td_id d)) of
        None \<Rightarrow> (reg, Err (UnknownTool (ToolId_display (td_id d))))
      | Some existing \<Rightarrow>
          if td_version (ent_definition existing) = td_version d
          then (reg, Err (VersionUnchanged (ToolId_display (td_id d)) (td_version d)))
          else (bt_insert (tool_key (td_id d))
                  \<lparr>ent_definition = d, ent_runtime = ent_runtime existing\<rparr> reg, Ok ()))"

text \<open>The first loop of \<open>define_all\<close>: collisions with the registry or within the batch.\<close>

fun collect_batch ::
  "ToolRegistry \<Rightarrow> (registry_key, ToolDefinition) btree_map \<Rightarrow> ToolDefinition list
    \<Rightarrow> RegistrationError + (registry_key, ToolDefinition) btree_map" where
  "collect_batch reg batch [] = Ok batch"
| "collect_batch reg batch (d # ds) =
     (if bt_contains reg (tool_key (td_id d)) then Err (Duplicate (ToolId_display (td_id d)))
      else if bt_contains batch (tool_key (td_id d)) then Err (Duplicate (ToolId_display (td_id d)))
      else collect_batch reg (bt_insert (tool_key (td_id d)) d batch) ds)"

definition define_all ::
  "ToolRegistry \<Rightarrow> ToolDefinition list \<Rightarrow> ToolRegistry \<times> (RegistrationError + unit)" where
  "define_all reg definitions =
     (case collect_batch reg [] definitions of
        Inl e \<Rightarrow> (reg, Err e)
      | Inr batch \<Rightarrow>
          if length reg + length batch > MAX_REGISTERED_TOOLS then (reg, Err RegistryFull)
          else (foldl (\<lambda>r (k, d). bt_insert k \<lparr>ent_definition = d, ent_runtime = None\<rparr> r) reg batch,
                Ok ()))"

definition remove_tool :: "ToolRegistry \<Rightarrow> ToolId \<Rightarrow> ToolRegistry \<times> bool" where
  "remove_tool reg i = (bt_remove (tool_key i) reg, bt_contains reg (tool_key i))"

definition set_availability ::
  "ToolRegistry \<Rightarrow> ToolId \<Rightarrow> Availability \<Rightarrow> ToolRegistry \<times> (RegistryError + unit)" where
  "set_availability reg i a =
     (case bt_get reg (tool_key i) of
        None \<Rightarrow> (reg, Err (ToolNotFound (ToolId_display i)))
      | Some e \<Rightarrow> (bt_insert (tool_key i) (e\<lparr>ent_runtime := Some a\<rparr>) reg, Ok ()))"

definition clear_availability :: "ToolRegistry \<Rightarrow> ToolId \<Rightarrow> ToolRegistry \<times> (RegistryError + unit)" where
  "clear_availability reg i =
     (case bt_get reg (tool_key i) of
        None \<Rightarrow> (reg, Err (ToolNotFound (ToolId_display i)))
      | Some e \<Rightarrow> (bt_insert (tool_key i) (e\<lparr>ent_runtime := None\<rparr>) reg, Ok ()))"

definition get_tool :: "ToolRegistry \<Rightarrow> ToolId \<Rightarrow> RegistryError + ToolDefinition" where
  "get_tool reg i = ok_or (map_option ent_definition (bt_get reg (tool_key i))) (ToolNotFound (ToolId_display i))"

definition availability_of :: "ToolRegistry \<Rightarrow> ToolId \<Rightarrow> RegistryError + Availability" where
  "availability_of reg i =
     ok_or (map_option effective_availability (bt_get reg (tool_key i))) (ToolNotFound (ToolId_display i))"

definition is_callable :: "ToolRegistry \<Rightarrow> ToolId \<Rightarrow> bool" where
  "is_callable reg i =
     (case bt_get reg (tool_key i) of None \<Rightarrow> False | Some e \<Rightarrow> is_available (effective_availability e))"

section \<open>Discovery and inventory\<close>

text \<open>The effects in the order of the \<open>BTreeSet\<close>, which is the order of the enum.\<close>

definition effects_to_vec :: "EffectSet \<Rightarrow> ToolEffect list" where
  "effects_to_vec s = filter (\<lambda>e. e \<in> s) [ReadOnly, Write, Delegation, ExternalCommunication,
     Destructive, CodeExecution, Financial, Privileged]"

record ToolSummary =
  sum_id :: rstr
  sum_title :: rstr
  sum_description :: rstr
  sum_source :: ToolSource
  sum_effects :: "ToolEffect list"
  sum_risk :: Risk

definition display_key :: "registry_key \<Rightarrow> rstr" where
  "display_key k = ToolId_display \<lparr>tid_namespace = fst k, tid_name = snd k\<rparr>"

definition ToolSummary_from_definition :: "registry_key \<Rightarrow> ToolDefinition \<Rightarrow> ToolSummary" where
  "ToolSummary_from_definition k d =
     \<lparr>sum_id = display_key k, sum_title = td_title d,
      sum_description = take MAX_SUMMARY_DESCRIPTION_CHARS (td_description d) @
        (if length (td_description d) > MAX_SUMMARY_DESCRIPTION_CHARS then [0x2026] else []),
      sum_source = td_source d, sum_effects = effects_to_vec (td_effects d), sum_risk = td_risk d\<rparr>"

record DiscoveryReport =
  rep_tools :: "ToolSummary list"
  rep_omitted :: nat
  rep_available_total :: nat
  rep_registered_total :: nat

definition discover_step :: "DiscoveryReport \<Rightarrow> registry_key \<times> Entry \<Rightarrow> DiscoveryReport" where
  "discover_step report p =
     (if \<not> is_available (effective_availability (snd p)) then report
      else
        let counted = report\<lparr>rep_available_total := rep_available_total report + 1\<rparr>
        in if length (rep_tools counted) \<ge> MAX_DISCOVERY_TOOLS then counted
           else counted\<lparr>rep_tools := rep_tools counted
                  @ [ToolSummary_from_definition (fst p) (ent_definition (snd p))]\<rparr>)"

definition discover :: "ToolRegistry \<Rightarrow> DiscoveryReport" where
  "discover reg =
     (let report = foldl discover_step
            \<lparr>rep_tools = [], rep_omitted = 0, rep_available_total = 0,
             rep_registered_total = length reg\<rparr> reg
      in report\<lparr>rep_omitted := rep_available_total report - length (rep_tools report)\<rparr>)"

record ToolInventoryEntry =
  inv_id :: rstr
  inv_version :: rstr
  inv_source :: ToolSource
  inv_risk :: Risk
  inv_effects :: "ToolEffect list"
  inv_callable :: bool
  inv_unavailable_reason :: "rstr option"

definition inventory :: "ToolRegistry \<Rightarrow> ToolInventoryEntry list" where
  "inventory reg = map (\<lambda>(k, e).
     let a = effective_availability e; d = ent_definition e in
     \<lparr>inv_id = display_key k, inv_version = td_version d, inv_source = td_source d,
      inv_risk = td_risk d, inv_effects = effects_to_vec (td_effects d),
      inv_callable = is_available a,
      inv_unavailable_reason = (case a of Available \<Rightarrow> None | Unavailable r \<Rightarrow> Some r)\<rparr>) reg"

section \<open>Lemmas\<close>

lemma tool_key_inj [simp]: "tool_key a = tool_key b \<longleftrightarrow> a = b"
  by (cases a; cases b) (simp add: tool_key_def)

text \<open>
  The registry invariant: the map is ordered, bounded, keyed by its definitions' identifiers, and
  holds validated definitions only.
\<close>

definition registry_inv :: "ToolRegistry \<Rightarrow> bool" where
  "registry_inv reg \<longleftrightarrow> bt_inv reg \<and> length reg \<le> MAX_REGISTERED_TOOLS
     \<and> (\<forall>k e. bt_get reg k = Some e \<longrightarrow>
          k = tool_key (td_id (ent_definition e)) \<and> definition_wf (ent_definition e))"

lemma registry_inv_new: "registry_inv registry_new"
  by (simp add: registry_inv_def registry_new_def bt_inv_def bt_get_def)

lemma registry_inv_key:
  "registry_inv reg \<Longrightarrow> bt_get reg k = Some e
    \<Longrightarrow> k = tool_key (td_id (ent_definition e))"
  unfolding registry_inv_def by blast

lemma registry_inv_entry:
  "registry_inv reg \<Longrightarrow> bt_get reg (tool_key i) = Some e
    \<Longrightarrow> td_id (ent_definition e) = i \<and> definition_wf (ent_definition e)"
  unfolding registry_inv_def by (metis tool_key_inj)

lemma registry_inv_insert:
  assumes "registry_inv reg" "definition_wf (ent_definition e)"
    and "k = tool_key (td_id (ent_definition e))"
    and "bt_get reg k = None \<Longrightarrow> length reg < MAX_REGISTERED_TOOLS"
  shows "registry_inv (bt_insert k e reg)"
proof -
  have inv: "bt_inv reg" using assms(1) by (simp add: registry_inv_def)
  show ?thesis
    using assms bt.length_ins [OF inv, of k e]
    by (auto simp: registry_inv_def bt.inv_ins [OF inv] bt.get_ins [OF inv] split: if_splits)
qed

lemma collect_batch_Ok:
  assumes "bt_inv batch" "collect_batch reg batch ds = Ok b"
  shows "bt_inv b
    \<and> (\<forall>k. bt_get b k = (case map_of (map (\<lambda>d. (tool_key (td_id d), d)) ds) k of
              Some d \<Rightarrow> Some d | None \<Rightarrow> bt_get batch k))
    \<and> length b = length batch + length ds
    \<and> distinct (map td_id ds)
    \<and> (\<forall>d \<in> set ds. bt_get reg (tool_key (td_id d)) = None \<and> bt_get batch (tool_key (td_id d)) = None)"
  using assms
proof (induction ds arbitrary: batch)
  case (Cons d ds)
  let ?k = "tool_key (td_id d)"
  from Cons.prems(2) have free: "bt_get reg ?k = None" "bt_get batch ?k = None"
    and rest: "collect_batch reg (bt_insert ?k d batch) ds = Ok b"
    by (auto simp: bt_contains_def split: if_splits)
  have inv: "bt_inv (bt_insert ?k d batch)" by (rule bt.inv_ins [OF Cons.prems(1)])
  note IH = Cons.IH [OF inv rest]
  have other: "tool_key (td_id d') \<noteq> ?k" if "d' \<in> set ds" for d'
    using IH that by (auto simp: bt.get_ins [OF Cons.prems(1)] split: if_splits)
  then have none: "map_of (map (\<lambda>d. (tool_key (td_id d), d)) ds) ?k = None"
    by (auto simp: map_of_eq_None_iff simp del: tool_key_inj) (metis)
  have new: "td_id d \<notin> td_id ` set ds" using other by force
  have batch: "bt_get batch (tool_key (td_id d')) = None" if "d' \<in> set ds" for d'
    using IH other [OF that] that by (auto simp: bt.get_ins [OF Cons.prems(1)] split: if_splits)
  show ?case
    using IH free none new batch
    by (auto simp: bt.get_ins [OF Cons.prems(1)] bt.length_ins [OF Cons.prems(1)]
        split: option.splits if_splits)
qed auto

lemma collect_batch_complete:
  assumes "bt_inv batch" "distinct (map td_id ds)"
    and "\<forall>d \<in> set ds. bt_get reg (tool_key (td_id d)) = None \<and> bt_get batch (tool_key (td_id d)) = None"
  shows "\<exists>b. collect_batch reg batch ds = Ok b"
  using assms
proof (induction ds arbitrary: batch)
  case (Cons d ds)
  have "td_id d' \<noteq> td_id d" if "d' \<in> set ds" for d'
    using Cons.prems(2) that by (metis distinct.simps(2) image_eqI list.simps(9) set_map)
  with Cons.prems have "\<exists>b. collect_batch reg (bt_insert (tool_key (td_id d)) d batch) ds = Ok b"
    by (intro Cons.IH) (auto simp: bt.inv_ins bt.get_ins)
  with Cons.prems show ?case by (simp add: bt_contains_def)
qed simp

lemma collect_batch_Err:
  "collect_batch reg batch ds = Err e \<Longrightarrow> \<exists>i. e = Duplicate i"
  by (induction ds arbitrary: batch) (auto split: if_splits)

lemma insert_batch_get:
  assumes "bt_inv reg" "distinct (map fst b)"
  shows "bt_inv (foldl (\<lambda>r (k, d). bt_insert k (f d) r) reg b)
    \<and> bt_get (foldl (\<lambda>r (k, d). bt_insert k (f d) r) reg b) k
      = (case map_of b k of Some d \<Rightarrow> Some (f d) | None \<Rightarrow> bt_get reg k)"
  using assms
proof (induction b arbitrary: reg)
  case (Cons p b)
  obtain j d where p: "p = (j, d)" by force
  have inv: "bt_inv (bt_insert j (f d) reg)" by (rule bt.inv_ins [OF Cons.prems(1)])
  have "map_of b j = None" using Cons.prems(2) by (auto simp: p map_of_eq_None_iff)
  with Cons.IH [OF inv] Cons.prems show ?case
    by (auto simp: p bt.get_ins split: option.splits)
qed simp


lemma collect_batch_Ok_empty:
  assumes "collect_batch reg [] ds = Ok b"
  shows "bt_inv b" "bt_get b = map_of (map (\<lambda>d. (tool_key (td_id d), d)) ds)"
    "length b = length ds" "distinct (map td_id ds)"
    "\<And>d. d \<in> set ds \<Longrightarrow> bt_get reg (tool_key (td_id d)) = None"
proof -
  have "bt_inv ([] :: (registry_key, ToolDefinition) btree_map)" by (simp add: bt_inv_def)
  note C = collect_batch_Ok [OF this assms]
  show "bt_inv b" "length b = length ds" "distinct (map td_id ds)"
    "\<And>d. d \<in> set ds \<Longrightarrow> bt_get reg (tool_key (td_id d)) = None"
    using C by simp_all
  have "bt_get b k = map_of (map (\<lambda>d. (tool_key (td_id d), d)) ds) k" for k
    using C [THEN conjunct2, THEN conjunct1, THEN spec, of k]
    by (simp add: bt_get_def [of "[]"] split: option.splits)
  then show "bt_get b = map_of (map (\<lambda>d. (tool_key (td_id d), d)) ds)" by (rule ext)
qed

lemma insert_batch_length:
  assumes "bt_inv reg" "distinct (map fst b)" "\<And>k. k \<in> fst ` set b \<Longrightarrow> bt_get reg k = None"
  shows "length (foldl (\<lambda>r (k, d). bt_insert k (f d) r) reg b) = length reg + length b"
  using assms
proof (induction b arbitrary: reg)
  case (Cons p b)
  obtain j d where p: "p = (j, d)" by force
  have inv: "bt_inv (bt_insert j (f d) reg)" by (rule bt.inv_ins [OF Cons.prems(1)])
  have "bt_get (bt_insert j (f d) reg) k = None" if "k \<in> fst ` set b" for k
    using Cons.prems that by (auto simp: p bt.get_ins)
  with Cons.IH [OF inv] Cons.prems show ?case by (auto simp: p bt.length_ins)
qed simp

text \<open>What an accepted batch leaves in the registry.\<close>

lemma define_all_Ok:
  assumes "registry_inv reg" "define_all reg ds = (reg', Ok ())"
  shows "bt_inv reg'" "length reg' = length reg + length ds" "length reg' \<le> MAX_REGISTERED_TOOLS"
    "bt_get reg' k = (case map_of (map (\<lambda>d. (tool_key (td_id d), d)) ds) k of
        Some d \<Rightarrow> Some \<lparr>ent_definition = d, ent_runtime = None\<rparr> | None \<Rightarrow> bt_get reg k)"
    "distinct (map td_id ds)" "\<And>d. d \<in> set ds \<Longrightarrow> bt_get reg (tool_key (td_id d)) = None"
proof -
  let ?e = "\<lambda>d. \<lparr>ent_definition = d, ent_runtime = None\<rparr>"
  have inv: "bt_inv reg" using assms(1) by (simp add: registry_inv_def)
  from assms(2) obtain b where b: "collect_batch reg [] ds = Ok b"
    and bound: "length reg + length b \<le> MAX_REGISTERED_TOOLS"
    and reg': "reg' = foldl (\<lambda>r (k, d). bt_insert k (?e d) r) reg b"
    by (auto simp: define_all_def split: sum.splits if_splits)
  note B = collect_batch_Ok_empty [OF b]
  have dist: "distinct (map fst b)" using B(1) by (rule bt.keys_distinct)
  have free: "bt_get reg j = None" if "j \<in> fst ` set b" for j
  proof -
    have "bt_get b j \<noteq> None" using that by (simp add: bt_get_def map_of_eq_None_iff)
    then show ?thesis using B(5) unfolding B(2)
      by (auto dest!: map_of_SomeD)
  qed
  note G = insert_batch_get [OF inv dist, of ?e]
  show "bt_inv reg'" using G by (simp add: reg')
  show len: "length reg' = length reg + length ds"
    using insert_batch_length [OF inv dist free, of ?e] B(3) by (simp add: reg')
  show "length reg' \<le> MAX_REGISTERED_TOOLS" using len bound B(3) by simp
  show "bt_get reg' k = (case map_of (map (\<lambda>d. (tool_key (td_id d), d)) ds) k of
        Some d \<Rightarrow> Some (?e d) | None \<Rightarrow> bt_get reg k)"
    using G [of k] unfolding reg' B(2) [symmetric] by (simp add: bt_get_def [of b])
  show "distinct (map td_id ds)" by (rule B(4))
  show "bt_get reg (tool_key (td_id d)) = None" if "d \<in> set ds" for d using that by (rule B(5))
qed

lemma define_all_iff:
  assumes "registry_inv reg"
  shows "snd (define_all reg ds) = Ok () \<longleftrightarrow>
    distinct (map td_id ds) \<and> (\<forall>d \<in> set ds. bt_get reg (tool_key (td_id d)) = None)
    \<and> length reg + length ds \<le> MAX_REGISTERED_TOOLS" (is "?L \<longleftrightarrow> ?R")
proof
  assume ?L
  then have "define_all reg ds = (fst (define_all reg ds), Ok ())" by (metis prod.collapse)
  from define_all_Ok [OF assms this] show ?R by auto
next
  assume R: ?R
  then obtain b where b: "collect_batch reg [] ds = Ok b"
    using collect_batch_complete [of "[]" ds reg] by (auto simp: bt_inv_def bt_get_def)
  with R collect_batch_Ok_empty(3) [OF b] show ?L by (simp add: define_all_def)
qed

lemma define_all_Err: "snd (define_all reg ds) \<noteq> Ok () \<Longrightarrow> fst (define_all reg ds) = reg"
  by (auto simp: define_all_def split: sum.splits if_splits)

lemma map_of_by_id:
  "map_of (map (\<lambda>d. (tool_key (td_id d), d)) ds) (tool_key i) = find (\<lambda>d. td_id d = i) ds"
  by (induction ds) auto

section \<open>Histories of a registry\<close>

text \<open>Every operation that changes the registry, with definitions that passed their constructor.\<close>

inductive registry_step :: "ToolRegistry \<Rightarrow> ToolRegistry \<Rightarrow> bool" where
  Define: "definition_wf d \<Longrightarrow> registry_step reg (fst (define_tool reg d))"
| Replace: "definition_wf d \<Longrightarrow> registry_step reg (fst (replace_tool reg d))"
| DefineAll: "\<forall>d \<in> set ds. definition_wf d \<Longrightarrow> registry_step reg (fst (define_all reg ds))"
| Remove: "registry_step reg (fst (remove_tool reg i))"
| SetAvailability: "registry_step reg (fst (set_availability reg i a))"
| ClearAvailability: "registry_step reg (fst (clear_availability reg i))"

inductive registry_reachable :: "ToolRegistry \<Rightarrow> bool" where
  New: "registry_reachable registry_new"
| Step: "registry_reachable reg \<Longrightarrow> registry_step reg reg' \<Longrightarrow> registry_reachable reg'"

lemma registry_inv_define_all:
  assumes "registry_inv reg" "\<forall>d \<in> set ds. definition_wf d"
  shows "registry_inv (fst (define_all reg ds))"
proof (cases "snd (define_all reg ds) = Ok ()")
  case True
  then obtain reg' where d: "define_all reg ds = (reg', Ok ())" by (metis prod.collapse)
  show ?thesis
    using assms define_all_Ok [OF assms(1) d]
    by (auto simp: d registry_inv_def split: option.splits dest!: map_of_SomeD)
next
  case False
  then show ?thesis using define_all_Err assms(1) by simp
qed

lemma registry_inv_step: "registry_step reg reg' \<Longrightarrow> registry_inv reg \<Longrightarrow> registry_inv reg'"
proof (induction rule: registry_step.induct)
  case (Define d reg)
  then show ?case
    by (auto simp: define_tool_def bt_contains_def intro!: registry_inv_insert)
next
  case (Replace d reg)
  then show ?case
    by (auto simp: replace_tool_def split: option.splits intro!: registry_inv_insert)
next
  case (DefineAll ds reg)
  then show ?case by (intro registry_inv_define_all) auto
next
  case (Remove reg i)
  then show ?case
    using bt.length_rem_le [of reg "tool_key i"]
    by (auto simp: remove_tool_def registry_inv_def bt.inv_rem bt.get_rem split: if_splits)
next
  case (SetAvailability reg i a)
  then show ?case
    by (auto simp: set_availability_def split: option.splits intro!: registry_inv_insert
        dest: registry_inv_entry)
next
  case (ClearAvailability reg i)
  then show ?case
    by (auto simp: clear_availability_def split: option.splits intro!: registry_inv_insert
        dest: registry_inv_entry)
qed

lemma registry_inv_reachable: "registry_reachable reg \<Longrightarrow> registry_inv reg"
  by (induction rule: registry_reachable.induct) (auto intro: registry_inv_new registry_inv_step)


lemma discover_fold:
  "foldl discover_step report reg = report
    \<lparr>rep_tools := rep_tools report @ take (MAX_DISCOVERY_TOOLS - length (rep_tools report))
       (map (\<lambda>p. ToolSummary_from_definition (fst p) (ent_definition (snd p)))
         (filter (\<lambda>p. is_available (effective_availability (snd p))) reg)),
     rep_available_total := rep_available_total report
       + length (filter (\<lambda>p. is_available (effective_availability (snd p))) reg)\<rparr>"
proof (induction reg arbitrary: report)
  case (Cons p reg)
  show ?case
  proof (cases "is_available (effective_availability (snd p))
      \<and> length (rep_tools report) < MAX_DISCOVERY_TOOLS")
    case True
    then obtain n where "MAX_DISCOVERY_TOOLS - length (rep_tools report) = Suc n"
      by (metis Suc_diff_Suc)
    moreover from this have "MAX_DISCOVERY_TOOLS - Suc (length (rep_tools report)) = n" by simp
    ultimately show ?thesis
      using True by (simp add: Cons.IH discover_step_def [of report] Let_def)
  next
    case False
    then show ?thesis by (auto simp: Cons.IH discover_step_def [of report] Let_def)
  qed
qed simp

lemma callable_count:
  assumes "registry_inv reg"
  shows "length (filter (\<lambda>p. is_available (effective_availability (snd p))) reg)
    = card {i. is_callable reg i}"
proof -
  let ?f = "filter (\<lambda>p. is_available (effective_availability (snd p))) reg"
  have inv: "bt_inv reg" using assms by (simp add: registry_inv_def)
  have dist: "distinct (map fst ?f)"
    using bt.keys_distinct [OF inv] by (rule distinct_map_filter)
  have "set (map fst ?f) = tool_key ` {i. is_callable reg i}"
  proof (intro set_eqI iffI)
    fix k
    assume "k \<in> set (map fst ?f)"
    then obtain e where e: "(k, e) \<in> set reg" "is_available (effective_availability e)" by auto
    then have g: "bt_get reg k = Some e" using bt.entries_get [OF inv] by blast
    then have "k = tool_key (td_id (ent_definition e))" using registry_inv_key [OF assms] by blast
    with g e(2) show "k \<in> tool_key ` {i. is_callable reg i}" by (auto simp: is_callable_def)
  next
    fix k
    assume "k \<in> tool_key ` {i. is_callable reg i}"
    then obtain i e where "k = tool_key i" "bt_get reg k = Some e"
      "is_available (effective_availability e)"
      by (auto simp: is_callable_def split: option.splits)
    then have "(k, e) \<in> set ?f" using bt.entries_get [OF inv] by simp
    from imageI [OF this, of fst] show "k \<in> set (map fst ?f)" unfolding set_map fst_conv .
  qed
  moreover have "inj tool_key" by (simp add: inj_on_def)
  ultimately show ?thesis
    using distinct_card [OF dist] by (simp add: card_image inj_on_def)
qed

section \<open>Properties\<close>

text \<open>The registry of the witnesses holds one tool.\<close>

definition sample_registry :: ToolRegistry where
  "sample_registry = [(tool_key (td_id sample_tool), \<lparr>ent_definition = sample_tool, ent_runtime = None\<rparr>)]"

definition sample_other :: ToolDefinition where
  "sample_other = sample_tool\<lparr>td_id := \<lparr>tid_namespace = lit ''gmail'', tid_name = lit ''read''\<rparr>\<rparr>"

lemma sample_registry_define: "define_tool registry_new sample_tool = (sample_registry, Ok ())"
  by (simp add: define_tool_def registry_new_def sample_registry_def bt_contains_def bt_get_def
      MAX_REGISTERED_TOOLS_def)

lemma sample_registry_reachable: "registry_reachable sample_registry"
  using registry_reachable.Step [OF registry_reachable.New
      registry_step.Define [OF ToolDefinition_new_wf [OF sample_tool_new]]]
  by (simp add: sample_registry_define)

lemmas sample_registry_inv = registry_inv_reachable [OF sample_registry_reachable]

lemma sample_registry_get: "get_tool sample_registry (td_id sample_tool) = Ok sample_tool"
  by (simp add: get_tool_def sample_registry_def bt_get_def ok_or_def)

text \<open>Whatever sequence of registrations, batches, replacements, removals and health reports a
  registry went through, it holds at most \<open>MAX_REGISTERED_TOOLS\<close> entries, lists them in strictly
  ascending identifier order, and a lookup answers only with a validated definition whose own
  identifier is the one asked for.\<close>

theorem registry_always_consistent:
  assumes "registry_reachable reg"
  shows "length reg \<le> MAX_REGISTERED_TOOLS \<and> sorted_wrt (<) (map fst reg)
    \<and> (\<forall>i d. get_tool reg i = Ok d \<longrightarrow> td_id d = i \<and> definition_wf d)"
proof -
  note inv = registry_inv_reachable [OF assms]
  have "td_id d = i \<and> definition_wf d" if "get_tool reg i = Ok d" for i d
    using that registry_inv_entry [OF inv, of i]
    by (auto simp: get_tool_def ok_or_def split: option.splits)
  with inv show ?thesis by (simp add: registry_inv_def bt_inv_def)
qed

theorem registry_always_consistent_witness:
  "length sample_registry \<le> MAX_REGISTERED_TOOLS \<and> definition_wf sample_tool"
  using registry_always_consistent [OF sample_registry_reachable] sample_registry_get by blast

text \<open>A batch is all or nothing. It is accepted exactly when its identifiers are distinct, none
  of them is taken and the total fits; a refused batch leaves the registry as it was; after an
  accepted one every member is found and every other lookup answers as before.\<close>

theorem define_all_atomic:
  assumes "registry_inv reg"
  shows "(snd (define_all reg ds) = Ok () \<longleftrightarrow>
      distinct (map td_id ds)
      \<and> (\<forall>d \<in> set ds. get_tool reg (td_id d) = Err (ToolNotFound (ToolId_display (td_id d))))
      \<and> length reg + length ds \<le> MAX_REGISTERED_TOOLS)
    \<and> (snd (define_all reg ds) \<noteq> Ok () \<longrightarrow> fst (define_all reg ds) = reg)
    \<and> (snd (define_all reg ds) = Ok () \<longrightarrow>
        (\<forall>i. get_tool (fst (define_all reg ds)) i =
          (case find (\<lambda>d. td_id d = i) ds of Some d \<Rightarrow> Ok d | None \<Rightarrow> get_tool reg i)))"
proof (intro conjI impI allI)
  show "snd (define_all reg ds) = Ok () \<longleftrightarrow>
      distinct (map td_id ds)
      \<and> (\<forall>d \<in> set ds. get_tool reg (td_id d) = Err (ToolNotFound (ToolId_display (td_id d))))
      \<and> length reg + length ds \<le> MAX_REGISTERED_TOOLS"
    unfolding define_all_iff [OF assms] by (auto simp: get_tool_def ok_or_def split: option.splits)
next
  assume "snd (define_all reg ds) = Ok ()"
  then have "define_all reg ds = (fst (define_all reg ds), Ok ())" by (metis prod.collapse)
  note G = define_all_Ok(4) [OF assms this]
  fix i
  show "get_tool (fst (define_all reg ds)) i =
      (case find (\<lambda>d. td_id d = i) ds of Some d \<Rightarrow> Ok d | None \<Rightarrow> get_tool reg i)"
    by (simp add: get_tool_def G map_of_by_id ok_or_def split: option.splits)
qed (rule define_all_Err)

theorem define_all_atomic_witness:
  "snd (define_all sample_registry [sample_other]) = Ok ()
   \<and> get_tool (fst (define_all sample_registry [sample_other])) (td_id sample_other) = Ok sample_other
   \<and> fst (define_all sample_registry [sample_tool]) = sample_registry"
proof -
  have free: "get_tool sample_registry (td_id sample_other)
      = Err (ToolNotFound (ToolId_display (td_id sample_other)))"
    by (simp add: get_tool_def sample_registry_def bt_get_def ok_or_def sample_other_def
        sample_tool_def lit_def)
  have len: "length sample_registry = 1" by (simp add: sample_registry_def)
  have ok: "snd (define_all sample_registry [sample_other]) = Ok ()"
    using define_all_atomic [OF sample_registry_inv, of "[sample_other]"] free
    by (simp add: len MAX_REGISTERED_TOOLS_def)
  have no: "snd (define_all sample_registry [sample_tool]) \<noteq> Ok ()"
    using define_all_atomic [OF sample_registry_inv, of "[sample_tool]"]
    by (auto simp: sample_registry_get)
  show ?thesis
    using ok no define_all_atomic [OF sample_registry_inv, of "[sample_other]"]
      define_all_atomic [OF sample_registry_inv, of "[sample_tool]"]
    by simp
qed

text \<open>A definition never changes under an unchanged version: when one operation leaves a tool
  registered with the version it had, it leaves the very same definition.\<close>

theorem version_pins_definition:
  assumes "registry_inv reg" "registry_step reg reg'"
    and "get_tool reg i = Ok d" "get_tool reg' i = Ok d'" "td_version d = td_version d'"
  shows "d' = d"
proof -
  have inv: "bt_inv reg" using assms(1) by (simp add: registry_inv_def)
  note simps = get_tool_def ok_or_def bt.get_ins [OF inv] bt.get_rem [OF inv]
  from assms(2,3,4,5) show ?thesis
  proof (cases rule: registry_step.cases)
    case (DefineAll ds)
    show ?thesis
    proof (cases "snd (define_all reg ds) = Ok ()")
      case True
      then have "define_all reg ds = (reg', Ok ())" using DefineAll by (metis prod.collapse)
      note A = define_all_Ok [OF assms(1) this]
      have "find (\<lambda>d. td_id d = i) ds = None"
        using A(6) assms(3) by (auto simp: find_None_iff get_tool_def ok_or_def)
      with A(4) [of "tool_key i"] have "bt_get reg' (tool_key i) = bt_get reg (tool_key i)"
        by (simp add: map_of_by_id)
      with assms(3,4) show ?thesis by (auto simp: get_tool_def)
    next
      case False
      then show ?thesis using define_all_Err DefineAll assms(3,4) by simp
    qed
  qed (auto simp: simps define_tool_def replace_tool_def remove_tool_def set_availability_def
      clear_availability_def bt_contains_def split: option.splits if_splits)
qed

theorem version_pins_definition_witness:
  "\<exists>d'. get_tool (fst (set_availability sample_registry (td_id sample_tool)
      (Unavailable (lit ''down'')))) (td_id sample_tool) = Ok d' \<and> d' = sample_tool"
proof -
  let ?reg = "fst (set_availability sample_registry (td_id sample_tool) (Unavailable (lit ''down'')))"
  have "get_tool ?reg (td_id sample_tool) = Ok sample_tool"
    by (simp add: get_tool_def set_availability_def sample_registry_def bt_get_def ok_or_def)
  from version_pins_definition [OF sample_registry_inv registry_step.SetAvailability
      sample_registry_get this refl] this
  show ?thesis by blast
qed

text \<open>Discovery offers the model the first \<open>MAX_DISCOVERY_TOOLS\<close> callable tools in identifier
  order and nothing else, and its counts are exact: what can run, what was left out, and what is
  registered.\<close>

theorem discovery_exact:
  assumes "registry_inv reg"
  shows "rep_tools (discover reg) = take MAX_DISCOVERY_TOOLS
      (map (\<lambda>p. ToolSummary_from_definition (fst p) (ent_definition (snd p)))
        (filter (\<lambda>p. is_callable reg (td_id (ent_definition (snd p)))) reg))
    \<and> rep_available_total (discover reg) = card {i. is_callable reg i}
    \<and> rep_omitted (discover reg) = card {i. is_callable reg i} - MAX_DISCOVERY_TOOLS
    \<and> rep_registered_total (discover reg) = length reg"
proof -
  have inv: "bt_inv reg" using assms by (simp add: registry_inv_def)
  have call: "is_callable reg (td_id (ent_definition (snd p))) \<longleftrightarrow>
      is_available (effective_availability (snd p))" if "p \<in> set reg" for p
  proof -
    obtain k e where p: "p = (k, e)" by (cases p)
    have "bt_get reg k = Some e" using that bt.entries_get [OF inv] by (simp add: p)
    moreover from this have "k = tool_key (td_id (ent_definition e))"
      by (rule registry_inv_key [OF assms])
    ultimately show ?thesis by (simp add: p is_callable_def)
  qed
  show ?thesis
    using callable_count [OF assms]
    by (auto simp: discover_def Let_def discover_fold call cong: filter_cong)
qed

theorem discovery_exact_witness:
  "rep_tools (discover sample_registry)
     = [ToolSummary_from_definition (tool_key (td_id sample_tool)) sample_tool]
   \<and> rep_omitted (discover sample_registry) = 0"
proof -
  have "is_callable sample_registry (td_id sample_tool)"
    by (simp add: is_callable_def sample_registry_def bt_get_def effective_availability_def
        sample_tool_def is_available_def)
  moreover have "card {i. is_callable sample_registry i} \<le> 1"
    using callable_count [OF sample_registry_inv]
    by (simp add: sample_registry_def split: if_splits)
  ultimately show ?thesis
    using discovery_exact [OF sample_registry_inv]
    by (simp add: sample_registry_def MAX_DISCOVERY_TOOLS_def)
qed

text \<open>A health report never enables a tool its own declaration rules out, whatever was
  reported before, and clearing a report restores the declared availability.\<close>

theorem declaration_is_a_ceiling:
  assumes "registry_inv reg" "get_tool reg i = Ok d"
  shows "(\<not> is_available (td_availability d) \<longrightarrow>
      \<not> is_callable reg i \<and> \<not> is_callable (fst (set_availability reg i a)) i)
    \<and> (is_available (td_availability d) \<longrightarrow>
      availability_of (fst (set_availability reg i a)) i = Ok a)
    \<and> availability_of (fst (clear_availability reg i)) i = Ok (td_availability d)
    \<and> get_tool (fst (set_availability reg i a)) i = Ok d"
proof -
  have inv: "bt_inv reg" using assms(1) by (simp add: registry_inv_def)
  from assms(2) obtain e where "bt_get reg (tool_key i) = Some e" "ent_definition e = d"
    by (auto simp: get_tool_def ok_or_def split: option.splits)
  then show ?thesis
    by (auto simp: is_callable_def availability_of_def get_tool_def ok_or_def set_availability_def
        clear_availability_def effective_availability_def bt.get_ins [OF inv])
qed

theorem declaration_is_a_ceiling_witness:
  "availability_of (fst (set_availability sample_registry (td_id sample_tool)
      (Unavailable (lit ''down'')))) (td_id sample_tool) = Ok (Unavailable (lit ''down''))
   \<and> availability_of (fst (clear_availability sample_registry (td_id sample_tool)))
      (td_id sample_tool) = Ok Available"
  using declaration_is_a_ceiling [OF sample_registry_inv sample_registry_get,
      of "Unavailable (lit ''down'')"]
  by (simp add: sample_tool_def is_available_def)

end
