(* ===== verification/Work_Admission.thy ===== *)
theory Work_Admission
  imports Jarvis_Prelude
begin

text \<open>
  The admission gate of one daemon incarnation (\<open>jarvis-core/src/work_admission.rs\<close>). The mutex
  makes every operation one atomic step on the gate; the permits it hands out are counted beside
  it, so that the interleavings of all their holders are the step sequences of
  \<open>admission_step\<close>. A panic of the launch callback, which runs under the lock, poisons the mutex.
\<close>

section \<open>The gate\<close>

datatype Phase = Open | Checking | Closed

record State =
  phase :: Phase
  active :: "64 word"
  poisoned :: bool

datatype WorkAdmissionError = Busy "64 word" | Stopping | Unavailable_gate

definition WorkAdmission_default :: State where
  "WorkAdmission_default = \<lparr>phase = Open, active = 0, poisoned = False\<rparr>"

text \<open>\<open>Mutex::lock\<close> reports the poison to every caller that asks.\<close>

definition locked :: "State \<Rightarrow> (WorkAdmissionError + 'a) \<Rightarrow> WorkAdmissionError + 'a" where
  "locked s r = (if poisoned s then Err Unavailable_gate else r)"

definition is_drained :: "State \<Rightarrow> WorkAdmissionError + bool" where
  "is_drained s = locked s (Ok (phase s = Closed \<and> active s = 0))"

definition active_count :: "State \<Rightarrow> WorkAdmissionError + 64 word" where
  "active_count s = locked s (Ok (active s))"

text \<open>The second component says whether a permit was handed out.\<close>

definition admit :: "State \<Rightarrow> State \<times> (WorkAdmissionError + unit)" where
  "admit s =
     (if poisoned s then (s, Err Unavailable_gate)
      else if phase s \<noteq> Open then (s, Err Stopping)
      else if active s = - 1 then (s, Err Unavailable_gate)
      else (s\<lparr>active := active s + 1\<rparr>, Ok ()))"

text \<open>\<open>Ok True\<close> hands out a \<open>ShutdownPermit\<close>; \<open>Ok False\<close> is the \<open>None\<close> of a committed shutdown.\<close>

definition prepare_shutdown :: "State \<Rightarrow> bool \<Rightarrow> State \<times> (WorkAdmissionError + bool)" where
  "prepare_shutdown s force =
     (if poisoned s then (s, Err Unavailable_gate)
      else case phase s of
        Closed \<Rightarrow> (s, Ok False)
      | Checking \<Rightarrow> (s, Err Stopping)
      | Open \<Rightarrow>
          if \<not> force \<and> active s \<noteq> 0 then (s, Err (Busy (active s)))
          else (s\<lparr>phase := Checking\<rparr>, Ok True))"

definition close_gate :: "State \<Rightarrow> State" where
  "close_gate s = s\<lparr>phase := Closed\<rparr>"

definition drop_shutdown_permit :: "State \<Rightarrow> State" where
  "drop_shutdown_permit s =
     (if \<not> poisoned s \<and> phase s = Checking then s\<lparr>phase := Open\<rparr> else s)"

text \<open>\<open>commit\<close> and \<open>commit_if\<close> consume the permit, so its \<open>Drop\<close> runs when they return.\<close>

definition commit :: "State \<Rightarrow> State" where
  "commit s = drop_shutdown_permit (close_gate s)"

text \<open>The callback answers a boolean or panics (\<open>None\<close>); the panic unwinds through the guard.\<close>

definition commit_if :: "State \<Rightarrow> bool option \<Rightarrow> State \<times> (WorkAdmissionError + unit) option" where
  "commit_if s launch =
     (if poisoned s then (drop_shutdown_permit s, Some (Err Unavailable_gate))
      else if phase s \<noteq> Checking then (drop_shutdown_permit s, Some (Err Stopping))
      else case launch of
        None \<Rightarrow> (drop_shutdown_permit (s\<lparr>poisoned := True\<rparr>), None)
      | Some True \<Rightarrow> (drop_shutdown_permit (s\<lparr>phase := Closed\<rparr>), Some (Ok ()))
      | Some False \<Rightarrow> (drop_shutdown_permit s, Some (Ok ())))"

text \<open>\<open>active -= 1\<close> at the width of \<open>usize\<close>; that it never wraps is proved below.\<close>

definition drop_work_permit :: "State \<Rightarrow> State" where
  "drop_work_permit s = (if poisoned s then s else s\<lparr>active := active s - 1\<rparr>)"

section \<open>Interleavings\<close>

text \<open>The gate with the permits now held by someone.\<close>

record admission_system =
  gate :: State
  live_work :: nat
  live_shutdown :: nat

definition admission_init :: admission_system where
  "admission_init = \<lparr>gate = WorkAdmission_default, live_work = 0, live_shutdown = 0\<rparr>"

inductive admission_step :: "admission_system \<Rightarrow> admission_system \<Rightarrow> bool" where
  Admit: "admit (gate y) = (s, r) \<Longrightarrow>
     admission_step y (y\<lparr>gate := s, live_work := live_work y + (if is_ok r then 1 else 0)\<rparr>)"
| Release: "0 < live_work y \<Longrightarrow>
     admission_step y (y\<lparr>gate := drop_work_permit (gate y), live_work := live_work y - 1\<rparr>)"
| Prepare: "prepare_shutdown (gate y) force = (s, r) \<Longrightarrow>
     admission_step y (y\<lparr>gate := s, live_shutdown := live_shutdown y + (if r = Ok True then 1 else 0)\<rparr>)"
| Commit: "0 < live_shutdown y \<Longrightarrow>
     admission_step y (y\<lparr>gate := commit (gate y), live_shutdown := live_shutdown y - 1\<rparr>)"
| CommitIf: "0 < live_shutdown y \<Longrightarrow>
     admission_step y (y\<lparr>gate := fst (commit_if (gate y) launch), live_shutdown := live_shutdown y - 1\<rparr>)"
| Abandon: "0 < live_shutdown y \<Longrightarrow>
     admission_step y (y\<lparr>gate := drop_shutdown_permit (gate y), live_shutdown := live_shutdown y - 1\<rparr>)"
| Close: "admission_step y (y\<lparr>gate := close_gate (gate y)\<rparr>)"

lemmas admission_defs = admit_def prepare_shutdown_def close_gate_def drop_shutdown_permit_def
  commit_def commit_if_def drop_work_permit_def

inductive_cases admission_stepE: "admission_step y y'"

text \<open>
  While the mutex is healthy the counter is exactly the number of live permits and the phase says
  who holds the reservation; a poisoned gate only ever over-counts.
\<close>

definition admission_inv :: "admission_system \<Rightarrow> bool" where
  "admission_inv y \<longleftrightarrow>
     live_work y \<le> unat (active (gate y))
     \<and> (\<not> poisoned (gate y) \<longrightarrow> live_work y = unat (active (gate y)))
     \<and> live_shutdown y \<le> 1
     \<and> (phase (gate y) = Open \<longrightarrow> live_shutdown y = 0)
     \<and> (phase (gate y) = Checking \<and> \<not> poisoned (gate y) \<longrightarrow> live_shutdown y = 1)"

lemma admission_inv_init: "admission_inv admission_init"
  by (simp add: admission_inv_def admission_init_def WorkAdmission_default_def)

lemma unat_succ: "w \<noteq> - 1 \<Longrightarrow> unat (w + 1) = Suc (unat w)" for w :: "64 word"
  by (metis unat_1 unat_add_lem unat_eq_zero Suc_eq_plus1 add.commute add_eq_0_iff2
      unatSuc)

lemma unat_pred: "0 < unat w \<Longrightarrow> unat (w - 1) = unat w - 1" for w :: "64 word"
  by (metis unat_minus_one unat_gt_0)

lemma admission_inv_step: "admission_step y y' \<Longrightarrow> admission_inv y \<Longrightarrow> admission_inv y'"
proof (induction rule: admission_step.induct)
  case (Admit y s r)
  then show ?case by (auto simp: admission_inv_def admission_defs unat_succ split: if_splits)
next
  case (Release y)
  then show ?case by (auto simp: admission_inv_def admission_defs unat_pred)
qed (auto simp: admission_inv_def admission_defs split: if_splits Phase.splits option.splits bool.splits)

lemma admission_inv_reach: "admission_step\<^sup>*\<^sup>* y y' \<Longrightarrow> admission_inv y \<Longrightarrow> admission_inv y'"
  by (induction rule: rtranclp_induct) (auto intro: admission_inv_step)

lemma closed_step:
  "admission_step y y' \<Longrightarrow> phase (gate y) = Closed
    \<Longrightarrow> phase (gate y') = Closed \<and> live_work y' \<le> live_work y"
  by (induction rule: admission_step.induct)
     (auto simp: admission_defs split: if_splits Phase.splits option.splits bool.splits)

lemma closed_reach:
  "admission_step\<^sup>*\<^sup>* y y' \<Longrightarrow> phase (gate y) = Closed
    \<Longrightarrow> phase (gate y') = Closed \<and> live_work y' \<le> live_work y"
  by (induction rule: rtranclp_induct) (use closed_step le_trans in blast)+


text \<open>Steps during which a shutdown reservation stays held.\<close>

definition holding_step :: "admission_system \<Rightarrow> admission_system \<Rightarrow> bool" where
  "holding_step y y' \<longleftrightarrow> admission_step y y' \<and> 0 < live_shutdown y'"

lemma holding_step_frozen:
  assumes "holding_step y y'" "admission_inv y" "phase (gate y) \<noteq> Open"
  shows "phase (gate y') \<noteq> Open \<and> live_work y' \<le> live_work y \<and> (poisoned (gate y') \<longrightarrow> poisoned (gate y))"
  using assms unfolding holding_step_def
  by (auto elim!: admission_stepE
      simp: admission_inv_def admission_defs split: if_splits Phase.splits option.splits bool.splits)

lemma holding_reach:
  assumes "holding_step\<^sup>*\<^sup>* y y'" "admission_inv y" "phase (gate y) \<noteq> Open" "\<not> poisoned (gate y)"
  shows "admission_inv y' \<and> phase (gate y') \<noteq> Open \<and> live_work y' \<le> live_work y
    \<and> \<not> poisoned (gate y')"
  using assms
proof (induction rule: rtranclp_induct)
  case (step a b)
  then have a: "admission_inv a" "phase (gate a) \<noteq> Open" "live_work a \<le> live_work y"
    "\<not> poisoned (gate a)" by auto
  have "admission_inv b"
    using step.hyps(2) a(1) admission_inv_step by (auto simp: holding_step_def)
  with holding_step_frozen [OF step.hyps(2) a(1,2)] a show ?case by auto
qed simp

section \<open>Properties\<close>

text \<open>The gate's books balance in every interleaving. While the lock is healthy the counter is
  exactly the number of permits still held, so releasing one never wraps below zero; at most one
  shutdown reservation exists, and none while the gate is open.\<close>

theorem admission_accounting:
  assumes "admission_step\<^sup>*\<^sup>* admission_init y" "\<not> poisoned (gate y)"
  shows "\<exists>n. active_count (gate y) = Ok n \<and> unat n = live_work y
    \<and> (0 < live_work y \<longrightarrow> unat (active (drop_work_permit (gate y))) = live_work y - 1)
    \<and> live_shutdown y \<le> 1 \<and> (phase (gate y) = Open \<longrightarrow> live_shutdown y = 0)"
proof -
  have inv: "admission_inv y" by (rule admission_inv_reach [OF assms(1) admission_inv_init])
  then have "live_work y = unat (active (gate y))" using assms(2) by (simp add: admission_inv_def)
  with inv assms(2) show ?thesis
    by (auto simp: active_count_def locked_def drop_work_permit_def unat_pred admission_inv_def)
qed

definition one_admitted :: admission_system where
  "one_admitted = \<lparr>gate = \<lparr>phase = Open, active = 1, poisoned = False\<rparr>, live_work = 1, live_shutdown = 0\<rparr>"

lemma one_admitted_reach: "admission_step\<^sup>*\<^sup>* admission_init one_admitted"
  using admission_step.Admit [of admission_init "\<lparr>phase = Open, active = 1, poisoned = False\<rparr>" "Ok ()"]
  by (auto simp: admission_init_def WorkAdmission_default_def one_admitted_def admit_def is_ok_def)

theorem admission_accounting_witness:
  "\<exists>n. active_count (gate one_admitted) = Ok n \<and> unat n = 1"
  using admission_accounting [OF one_admitted_reach] by (auto simp: one_admitted_def)

text \<open>Drained means drained for good. Once the gate reports that it is drained, no operation is
  running then or at any later moment, whatever anyone does with the gate, and every later attempt
  to start one is refused.\<close>

theorem drained_is_final:
  assumes "admission_step\<^sup>*\<^sup>* admission_init y" "is_drained (gate y) = Ok True"
    and "admission_step\<^sup>*\<^sup>* y y'"
  shows "live_work y = 0 \<and> live_work y' = 0 \<and> phase (gate y') = Closed
    \<and> (snd (admit (gate y')) = Err Stopping \<or> snd (admit (gate y')) = Err Unavailable_gate)"
proof -
  have "admission_inv y" by (rule admission_inv_reach [OF assms(1) admission_inv_init])
  moreover have "phase (gate y) = Closed" "active (gate y) = 0"
    using assms(2) by (auto simp: is_drained_def locked_def split: if_splits)
  ultimately show ?thesis
    using closed_reach [OF assms(3)] by (auto simp: admission_inv_def admit_def)
qed

theorem drained_is_final_witness:
  "live_work (admission_init\<lparr>gate := close_gate WorkAdmission_default\<rparr>) = 0"
proof -
  let ?y = "admission_init\<lparr>gate := close_gate WorkAdmission_default\<rparr>"
  have "admission_step admission_init ?y"
    using admission_step.Close [of admission_init] by (simp add: admission_init_def)
  moreover have "is_drained (gate ?y) = Ok True"
    by (simp add: is_drained_def locked_def close_gate_def WorkAdmission_default_def)
  ultimately show ?thesis using drained_is_final [of ?y ?y] by blast
qed

text \<open>C39: an unforced shutdown never interrupts work, and never strands the daemon. From the moment
  \<open>prepare_shutdown\<close> without force hands out its reservation, in every interleaving that keeps the
  reservation, no operation is running; committing it leaves a drained gate, and giving it up reopens
  admission unless the gate was closed by someone else meanwhile.\<close>

theorem unforced_shutdown_quiet:
  assumes "admission_step\<^sup>*\<^sup>* admission_init y"
    and "prepare_shutdown (gate y) False = (s, Ok True)"
    and "holding_step\<^sup>*\<^sup>* (y\<lparr>gate := s, live_shutdown := live_shutdown y + 1\<rparr>) y'"
  shows "live_work y' = 0 \<and> is_drained (commit (gate y')) = Ok True
    \<and> is_drained (fst (commit_if (gate y') (Some True))) = Ok True
    \<and> phase (drop_shutdown_permit (gate y')) =
        (if phase (gate y') = Closed then Closed else Open)"
proof -
  let ?y = "y\<lparr>gate := s, live_shutdown := live_shutdown y + 1\<rparr>"
  have inv: "admission_inv y" by (rule admission_inv_reach [OF assms(1) admission_inv_init])
  have "admission_step y ?y" using admission_step.Prepare [OF assms(2)] by simp
  then have inv': "admission_inv ?y" using inv by (rule admission_inv_step)
  have s: "phase s = Checking" "\<not> poisoned s" "live_work y = 0"
    using assms(2) inv
    by (auto simp: prepare_shutdown_def admission_inv_def split: if_splits Phase.splits)
  from holding_reach [OF assms(3) inv'] s
  have "admission_inv y'" "phase (gate y') \<noteq> Open" "live_work y' = 0" "\<not> poisoned (gate y')" by auto
  then show ?thesis
    by (cases "phase (gate y')")
       (auto simp: admission_inv_def admission_defs is_drained_def locked_def unat_eq_zero)
qed

theorem unforced_shutdown_quiet_witness:
  "is_drained (commit (fst (prepare_shutdown WorkAdmission_default False))) = Ok True"
proof -
  let ?s = "\<lparr>phase = Checking, active = 0, poisoned = False\<rparr>"
  have p: "prepare_shutdown (gate admission_init) False = (?s, Ok True)"
    by (simp add: prepare_shutdown_def admission_init_def WorkAdmission_default_def)
  from unforced_shutdown_quiet [OF _ p] show ?thesis
    using p by (force simp: admission_init_def)
qed

end
