(* ===== verification/Context_Assembly.thy ===== *)
theory Context_Assembly
  imports Risk_Vocabulary "HOL-Library.Multiset" "HOL-Library.Sublist"
begin

text \<open>
  Assembly of the context of one model call (\<open>jarvis-core/src/context.rs\<close>): the envelope of a
  context item, the token budget, and the selection of the offered items under the destination's
  sensitivity ceiling. Token estimates are \<open>u32\<close> words, and the per-kind sums, which the source
  also keeps in a \<open>u32\<close>, wrap; the \<open>u64\<close> totals of \<open>u32\<close> summands cannot wrap for fewer than
  \<open>2 ^ 32\<close> items and are natural numbers.
\<close>

definition MAX_SOURCE_REFERENCE_CHARS :: nat where "MAX_SOURCE_REFERENCE_CHARS = 256"

definition MAX_RETAINED_SOURCES :: nat where "MAX_RETAINED_SOURCES = 32"

datatype ContextError = EmptySourceReference | SourceReferenceTooLong | SourceReferenceTooLongForLogging
  | ZeroTokenEstimate | TrustNotAllowedForSource rstr rstr | UntrustedMustBeQuoted
  | RequiredMustBeTrusted | PriorityReasonMismatch rstr rstr | ReasonSourceMismatch rstr rstr
  | CompactionWithoutSources | TooManyRetainedSources | ReservedExceedsBudget | ZeroSourceCap
  | SourceCapExceedsTotal | UnknownSourceKind | RequiredExceedsBudget nat nat

section \<open>Sources, trust and reasons\<close>

datatype ContextSourceKind = Src_IdentityPolicy | Src_WorkspacePolicy | Src_RuntimeInstructions
  | Src_CurrentInput | Src_ActiveRunState | Src_ToolContract | Src_RecentConversation | Src_Memory
  | Src_Skill | Src_Document | Src_Event | Src_ToolObservation | Src_ExternalContent

fun ContextSourceKind_as_str :: "ContextSourceKind \<Rightarrow> rstr" where
  "ContextSourceKind_as_str Src_IdentityPolicy = lit ''identity_policy''"
| "ContextSourceKind_as_str Src_WorkspacePolicy = lit ''workspace_policy''"
| "ContextSourceKind_as_str Src_RuntimeInstructions = lit ''runtime_instructions''"
| "ContextSourceKind_as_str Src_CurrentInput = lit ''current_input''"
| "ContextSourceKind_as_str Src_ActiveRunState = lit ''active_run_state''"
| "ContextSourceKind_as_str Src_ToolContract = lit ''tool_contract''"
| "ContextSourceKind_as_str Src_RecentConversation = lit ''recent_conversation''"
| "ContextSourceKind_as_str Src_Memory = lit ''memory''"
| "ContextSourceKind_as_str Src_Skill = lit ''skill''"
| "ContextSourceKind_as_str Src_Document = lit ''document''"
| "ContextSourceKind_as_str Src_Event = lit ''event''"
| "ContextSourceKind_as_str Src_ToolObservation = lit ''tool_observation''"
| "ContextSourceKind_as_str Src_ExternalContent = lit ''external_content''"

datatype ContextTrust = Authoritative | User | Derived | Untrusted

fun ContextTrust_as_str :: "ContextTrust \<Rightarrow> rstr" where
  "ContextTrust_as_str Authoritative = lit ''authoritative''"
| "ContextTrust_as_str User = lit ''user''"
| "ContextTrust_as_str Derived = lit ''derived''"
| "ContextTrust_as_str Untrusted = lit ''untrusted''"

definition is_instruction_bearing :: "ContextTrust \<Rightarrow> bool" where
  "is_instruction_bearing t \<longleftrightarrow> t = Authoritative"

definition is_external :: "ContextTrust \<Rightarrow> bool" where
  "is_external t \<longleftrightarrow> t = Untrusted"

fun allowed_trusts :: "ContextSourceKind \<Rightarrow> ContextTrust list" where
  "allowed_trusts Src_IdentityPolicy = [Authoritative]"
| "allowed_trusts Src_WorkspacePolicy = [Authoritative]"
| "allowed_trusts Src_RuntimeInstructions = [Authoritative]"
| "allowed_trusts Src_CurrentInput = [User]"
| "allowed_trusts Src_ActiveRunState = [Derived]"
| "allowed_trusts Src_ToolContract = [Authoritative, Derived]"
| "allowed_trusts Src_RecentConversation = [User, Derived, Untrusted]"
| "allowed_trusts Src_Memory = [User, Derived, Untrusted]"
| "allowed_trusts Src_Document = [User, Derived, Untrusted]"
| "allowed_trusts Src_Event = [User, Derived, Untrusted]"
| "allowed_trusts Src_Skill = [Derived, Untrusted]"
| "allowed_trusts Src_ToolObservation = [Derived, Untrusted]"
| "allowed_trusts Src_ExternalContent = [Untrusted]"

definition is_always_untrusted :: "ContextSourceKind \<Rightarrow> bool" where
  "is_always_untrusted k \<longleftrightarrow> k = Src_ExternalContent"

definition is_retrieved :: "ContextSourceKind \<Rightarrow> bool" where
  "is_retrieved k \<longleftrightarrow> k \<in> {Src_RecentConversation, Src_Memory, Src_Skill, Src_Document, Src_Event,
     Src_ToolObservation, Src_ExternalContent}"

definition ContextSourceKind_from_str :: "rstr \<Rightarrow> ContextError + ContextSourceKind" where
  "ContextSourceKind_from_str s =
     (if s = lit ''identity_policy'' then Ok Src_IdentityPolicy
      else if s = lit ''workspace_policy'' then Ok Src_WorkspacePolicy
      else if s = lit ''runtime_instructions'' then Ok Src_RuntimeInstructions
      else if s = lit ''current_input'' then Ok Src_CurrentInput
      else if s = lit ''active_run_state'' then Ok Src_ActiveRunState
      else if s = lit ''tool_contract'' then Ok Src_ToolContract
      else if s = lit ''recent_conversation'' then Ok Src_RecentConversation
      else if s = lit ''memory'' then Ok Src_Memory
      else if s = lit ''skill'' then Ok Src_Skill
      else if s = lit ''document'' then Ok Src_Document
      else if s = lit ''event'' then Ok Src_Event
      else if s = lit ''tool_observation'' then Ok Src_ToolObservation
      else if s = lit ''external_content'' then Ok Src_ExternalContent
      else Err UnknownSourceKind)"

datatype ContextPriority = Prio_Required | Prio_Preferred | Prio_Optional

fun ContextPriority_as_str :: "ContextPriority \<Rightarrow> rstr" where
  "ContextPriority_as_str Prio_Required = lit ''required''"
| "ContextPriority_as_str Prio_Preferred = lit ''preferred''"
| "ContextPriority_as_str Prio_Optional = lit ''optional''"

text \<open>The derived \<open>Ord\<close> of the enum.\<close>

fun priority_rank :: "ContextPriority \<Rightarrow> nat" where
  "priority_rank Prio_Required = 0"
| "priority_rank Prio_Preferred = 1"
| "priority_rank Prio_Optional = 2"

datatype InclusionReason = Reason_ReservedPolicy | Reason_CurrentUserIntent | Reason_ActiveRunState
  | Reason_ToolContract | Reason_RetrievedMatch | Reason_Compacted "rstr list"

fun InclusionReason_as_str :: "InclusionReason \<Rightarrow> rstr" where
  "InclusionReason_as_str Reason_ReservedPolicy = lit ''reserved_policy''"
| "InclusionReason_as_str Reason_CurrentUserIntent = lit ''current_user_intent''"
| "InclusionReason_as_str Reason_ActiveRunState = lit ''active_run_state''"
| "InclusionReason_as_str Reason_ToolContract = lit ''tool_contract''"
| "InclusionReason_as_str Reason_RetrievedMatch = lit ''retrieved_match''"
| "InclusionReason_as_str (Reason_Compacted _) = lit ''compacted''"

fun implied_priority :: "InclusionReason \<Rightarrow> ContextPriority" where
  "implied_priority Reason_RetrievedMatch = Prio_Optional"
| "implied_priority (Reason_Compacted _) = Prio_Optional"
| "implied_priority _ = Prio_Required"

fun required_source_kind :: "InclusionReason \<Rightarrow> ContextSourceKind option" where
  "required_source_kind Reason_CurrentUserIntent = Some Src_CurrentInput"
| "required_source_kind Reason_ActiveRunState = Some Src_ActiveRunState"
| "required_source_kind Reason_ToolContract = Some Src_ToolContract"
| "required_source_kind _ = None"

fun requires_retrieved_source :: "InclusionReason \<Rightarrow> bool" where
  "requires_retrieved_source Reason_RetrievedMatch = True"
| "requires_retrieved_source (Reason_Compacted _) = True"
| "requires_retrieved_source _ = False"

section \<open>Items and budgets\<close>

record ContextSource =
  src_kind :: ContextSourceKind
  src_reference :: rstr

definition ContextSource_new :: "ContextSourceKind \<Rightarrow> rstr \<Rightarrow> ContextError + ContextSource" where
  "ContextSource_new kind reference =
     (if reference = [] then Err EmptySourceReference
      else if length reference > MAX_SOURCE_REFERENCE_CHARS then Err SourceReferenceTooLong
      else if list_ex is_control reference then Err SourceReferenceTooLongForLogging
      else Ok \<lparr>src_kind = kind, src_reference = reference\<rparr>)"

record ContextItem =
  item_source :: ContextSource
  item_trust :: ContextTrust
  item_sensitivity :: Sensitivity
  item_priority :: ContextPriority
  token_estimate :: "32 word"
  item_reason :: InclusionReason
  item_quoted :: bool

definition ContextItem_new ::
  "ContextSource \<Rightarrow> ContextTrust \<Rightarrow> Sensitivity \<Rightarrow> ContextPriority \<Rightarrow> 32 word \<Rightarrow> InclusionReason
    \<Rightarrow> bool \<Rightarrow> ContextError + ContextItem" where
  "ContextItem_new source trust sensitivity priority tokens reason quoted =
     (let kind = src_kind source;
          mismatch = Err (ReasonSourceMismatch (InclusionReason_as_str reason) (ContextSourceKind_as_str kind));
          item = \<lparr>item_source = source, item_trust = trust, item_sensitivity = sensitivity,
                  item_priority = priority, token_estimate = tokens, item_reason = reason,
                  item_quoted = quoted\<rparr>
      in if tokens = 0 then Err ZeroTokenEstimate
      else if trust \<notin> set (allowed_trusts kind)
      then Err (TrustNotAllowedForSource (ContextSourceKind_as_str kind) (ContextTrust_as_str trust))
      else if is_external trust \<and> \<not> quoted then Err UntrustedMustBeQuoted
      else if priority = Prio_Required \<and> is_external trust then Err RequiredMustBeTrusted
      else if implied_priority reason \<noteq> priority
      then Err (PriorityReasonMismatch (ContextPriority_as_str priority) (InclusionReason_as_str reason))
      else if (case required_source_kind reason of
                 Some required_kind \<Rightarrow> required_kind \<noteq> kind
               | None \<Rightarrow> requires_retrieved_source reason \<and> \<not> is_retrieved kind) then mismatch
      else case reason of
        Reason_Compacted retained \<Rightarrow>
          if retained = [] then Err CompactionWithoutSources
          else if length retained > MAX_RETAINED_SOURCES then Err TooManyRetainedSources
          else Ok item
      | _ \<Rightarrow> Ok item)"

record ContextBudget =
  total_tokens :: "32 word"
  reserved_policy :: "32 word"
  reserved_user_intent :: "32 word"
  per_source_cap :: "32 word"

definition ContextBudget_new :: "32 word \<Rightarrow> 32 word \<Rightarrow> 32 word \<Rightarrow> 32 word \<Rightarrow> ContextError + ContextBudget" where
  "ContextBudget_new tokens policy intent cap =
     (if unat policy + unat intent > unat tokens then Err ReservedExceedsBudget
      else if cap = 0 then Err ZeroSourceCap
      else if cap > tokens then Err SourceCapExceedsTotal
      else Ok \<lparr>total_tokens = tokens, reserved_policy = policy, reserved_user_intent = intent,
               per_source_cap = cap\<rparr>)"

definition ContextBudget_unreserved :: "32 word \<Rightarrow> ContextBudget" where
  "ContextBudget_unreserved tokens =
     \<lparr>total_tokens = tokens, reserved_policy = 0, reserved_user_intent = 0, per_source_cap = tokens\<rparr>"

definition retrievable_tokens :: "ContextBudget \<Rightarrow> 32 word" where
  "retrievable_tokens b = total_tokens b - reserved_policy b - reserved_user_intent b"

section \<open>Assembly\<close>

datatype ExclusionReason = SensitivityExceedsDestination Sensitivity Sensitivity
  | DuplicateSource rstr | OverBudget "32 word" "32 word" | OverSourceCap "32 word" "32 word"

record ExcludedContext =
  exc_source :: ContextSource
  exc_reason :: ExclusionReason
  exc_tokens :: "32 word"

record ContextManifest =
  man_destination :: Sensitivity
  man_budget :: ContextBudget
  man_included :: "ContextItem list"
  man_excluded :: "ExcludedContext list"
  man_used_tokens :: nat
  man_instruction_tokens :: nat
  man_untrusted_tokens :: nat

record AssemblyState =
  as_destination :: Sensitivity
  as_budget :: ContextBudget
  as_included :: "ContextItem list"
  as_excluded :: "ExcludedContext list"
  seen_sources :: "rstr list"
  used_tokens :: nat
  retrieved_tokens :: nat
  instruction_tokens :: nat
  untrusted_tokens :: nat
  source_usage :: "(ContextSourceKind \<times> 32 word) list"

definition AssemblyState_new :: "ContextBudget \<Rightarrow> Sensitivity \<Rightarrow> AssemblyState" where
  "AssemblyState_new budget destination =
     \<lparr>as_destination = destination, as_budget = budget, as_included = [], as_excluded = [],
      seen_sources = [], used_tokens = 0, retrieved_tokens = 0, instruction_tokens = 0,
      untrusted_tokens = 0, source_usage = []\<rparr>"

definition exclude :: "AssemblyState \<Rightarrow> ContextSource \<Rightarrow> ExclusionReason \<Rightarrow> 32 word \<Rightarrow> AssemblyState" where
  "exclude st source reason tokens =
     st\<lparr>as_excluded := as_excluded st @ [\<lparr>exc_source = source, exc_reason = reason, exc_tokens = tokens\<rparr>]\<rparr>"

definition source_usage_of :: "AssemblyState \<Rightarrow> ContextSourceKind \<Rightarrow> 32 word" where
  "source_usage_of st kind = (case map_of (source_usage st) kind of Some used \<Rightarrow> used | None \<Rightarrow> 0)"

text \<open>The mutable \<open>find\<close> over the usage list: the first entry of the kind grows, or one is added.\<close>

fun add_usage ::
  "ContextSourceKind \<Rightarrow> 32 word \<Rightarrow> (ContextSourceKind \<times> 32 word) list \<Rightarrow> (ContextSourceKind \<times> 32 word) list" where
  "add_usage kind tokens [] = [(kind, tokens)]"
| "add_usage kind tokens ((k, used) # usage) =
     (if k = kind then (k, used + tokens) # usage else (k, used) # add_usage kind tokens usage)"

definition admit_item :: "AssemblyState \<Rightarrow> ContextItem \<Rightarrow> AssemblyState" where
  "admit_item st item =
     (let source = item_source item;
          tokens = token_estimate item;
          is_required = (item_priority item = Prio_Required);
          kind_used = source_usage_of st (src_kind source);
          (allowance, allowance_used) =
            (if is_required then (unat (total_tokens (as_budget st)), used_tokens st)
             else (unat (retrievable_tokens (as_budget st)), retrieved_tokens st))
      in if \<not> can_flow_to (item_sensitivity item) (as_destination st)
      then exclude st source
             (SensitivityExceedsDestination (item_sensitivity item) (as_destination st)) tokens
      else if src_reference source \<in> set (seen_sources st)
      then exclude st source (DuplicateSource (src_reference source)) tokens
      else if \<not> is_required \<and> kind_used + tokens > per_source_cap (as_budget st)
      then exclude st source (OverSourceCap (per_source_cap (as_budget st)) kind_used) tokens
      else if allowance_used + unat tokens > allowance
      then exclude st source (OverBudget tokens (of_nat (allowance - allowance_used))) tokens
      else st
        \<lparr>used_tokens := used_tokens st + unat tokens,
         retrieved_tokens := retrieved_tokens st + (if is_required then 0 else unat tokens),
         instruction_tokens := instruction_tokens st
           + (if is_instruction_bearing (item_trust item) then unat tokens else 0),
         untrusted_tokens := untrusted_tokens st
           + (if is_external (item_trust item) then unat tokens else 0),
         seen_sources := seen_sources st @ [src_reference source],
         source_usage := add_usage (src_kind source) tokens (source_usage st),
         as_included := as_included st @ [item]\<rparr>)"

definition finish :: "AssemblyState \<Rightarrow> ContextManifest" where
  "finish st = \<lparr>man_destination = as_destination st, man_budget = as_budget st,
     man_included = as_included st, man_excluded = as_excluded st,
     man_used_tokens = used_tokens st, man_instruction_tokens = instruction_tokens st,
     man_untrusted_tokens = untrusted_tokens st\<rparr>"

definition is_required :: "ContextItem \<Rightarrow> bool" where
  "is_required item \<longleftrightarrow> item_priority item = Prio_Required"

text \<open>Sorting by priority and then by position is the stable sort by priority.\<close>

definition assemble_context ::
  "ContextItem list \<Rightarrow> ContextBudget \<Rightarrow> Sensitivity \<Rightarrow> ContextError + ContextManifest" where
  "assemble_context offered budget destination =
     (let required_tokens = sum_list (map (\<lambda>i. unat (token_estimate i)) (filter is_required offered))
      in if required_tokens > unat (total_tokens budget)
      then Err (RequiredExceedsBudget required_tokens (unat (total_tokens budget)))
      else
        let ordered = sort_key (\<lambda>i. priority_rank (item_priority i)) offered
        in Ok (finish (foldl admit_item (AssemblyState_new budget destination) ordered)))"

definition contains_external_content :: "ContextManifest \<Rightarrow> bool" where
  "contains_external_content m \<longleftrightarrow> man_untrusted_tokens m > 0"

definition is_truncated :: "ContextManifest \<Rightarrow> bool" where
  "is_truncated m \<longleftrightarrow> man_excluded m \<noteq> []"

section \<open>Lemmas\<close>

interpretation context_kind_wire: wire_vocabulary
  ContextSourceKind_as_str ContextSourceKind_from_str
  "[Src_IdentityPolicy, Src_WorkspacePolicy, Src_RuntimeInstructions, Src_CurrentInput,
    Src_ActiveRunState, Src_ToolContract, Src_RecentConversation, Src_Memory, Src_Skill,
    Src_Document, Src_Event, Src_ToolObservation, Src_ExternalContent]"
proof
  fix x s
  show "ContextSourceKind_from_str (ContextSourceKind_as_str x) = Ok x"
    by (cases x; simp add: ContextSourceKind_from_str_def)
  show "x \<in> set [Src_IdentityPolicy, Src_WorkspacePolicy, Src_RuntimeInstructions, Src_CurrentInput,
    Src_ActiveRunState, Src_ToolContract, Src_RecentConversation, Src_Memory, Src_Skill,
    Src_Document, Src_Event, Src_ToolObservation, Src_ExternalContent]"
    by (cases x; simp)
  show "ContextSourceKind_from_str s = Ok x \<Longrightarrow> s = ContextSourceKind_as_str x"
    by (auto simp: ContextSourceKind_from_str_def split: if_splits)
qed

text \<open>The tokens of the items of a list that satisfy a predicate.\<close>

definition tokens_of :: "(ContextItem \<Rightarrow> bool) \<Rightarrow> ContextItem list \<Rightarrow> nat" where
  "tokens_of P xs = sum_list (map (\<lambda>i. unat (token_estimate i)) (filter P xs))"

lemma tokens_of_simps [simp]:
  "tokens_of P [] = 0"
  "tokens_of P (x # xs) = (if P x then unat (token_estimate x) else 0) + tokens_of P xs"
  "tokens_of P (xs @ ys) = tokens_of P xs + tokens_of P ys"
  by (simp_all add: tokens_of_def)

lemma tokens_of_split: "tokens_of P xs = tokens_of (\<lambda>i. P i \<and> Q i) xs + tokens_of (\<lambda>i. P i \<and> \<not> Q i) xs"
  by (induction xs) auto

lemma tokens_of_mono: "(\<And>i. P i \<Longrightarrow> Q i) \<Longrightarrow> tokens_of P xs \<le> tokens_of Q xs"
  by (induction xs) (auto simp: add_mono trans_le_add2)

definition admitted :: "AssemblyState \<Rightarrow> ContextItem \<Rightarrow> bool" where
  "admitted st item \<longleftrightarrow>
     can_flow_to (item_sensitivity item) (as_destination st)
     \<and> src_reference (item_source item) \<notin> set (seen_sources st)
     \<and> (is_required item \<or>
          source_usage_of st (src_kind (item_source item)) + token_estimate item
            \<le> per_source_cap (as_budget st)
          \<and> retrieved_tokens st + unat (token_estimate item) \<le> unat (retrievable_tokens (as_budget st)))
     \<and> (is_required item \<longrightarrow>
          used_tokens st + unat (token_estimate item) \<le> unat (total_tokens (as_budget st)))"

lemma admit_item_eq:
  "admit_item st item =
     (if admitted st item
      then st\<lparr>used_tokens := used_tokens st + unat (token_estimate item),
         retrieved_tokens := retrieved_tokens st + (if is_required item then 0 else unat (token_estimate item)),
         instruction_tokens := instruction_tokens st
           + (if is_instruction_bearing (item_trust item) then unat (token_estimate item) else 0),
         untrusted_tokens := untrusted_tokens st
           + (if is_external (item_trust item) then unat (token_estimate item) else 0),
         seen_sources := seen_sources st @ [src_reference (item_source item)],
         source_usage := add_usage (src_kind (item_source item)) (token_estimate item) (source_usage st),
         as_included := as_included st @ [item]\<rparr>
      else exclude st (item_source item)
        (if \<not> can_flow_to (item_sensitivity item) (as_destination st)
         then SensitivityExceedsDestination (item_sensitivity item) (as_destination st)
         else if src_reference (item_source item) \<in> set (seen_sources st)
         then DuplicateSource (src_reference (item_source item))
         else if \<not> is_required item \<and> source_usage_of st (src_kind (item_source item)) + token_estimate item
             > per_source_cap (as_budget st)
         then OverSourceCap (per_source_cap (as_budget st)) (source_usage_of st (src_kind (item_source item)))
         else OverBudget (token_estimate item)
           (of_nat (if is_required item then unat (total_tokens (as_budget st)) - used_tokens st
                    else unat (retrievable_tokens (as_budget st)) - retrieved_tokens st)))
        (token_estimate item))"
  by (auto simp: admit_item_def admitted_def is_required_def Let_def not_le)

text \<open>What the running state says of the items already processed.\<close>

definition assembly_inv :: "AssemblyState \<Rightarrow> bool" where
  "assembly_inv st \<longleftrightarrow>
     used_tokens st = tokens_of (\<lambda>_. True) (as_included st)
     \<and> retrieved_tokens st = tokens_of (\<lambda>i. \<not> is_required i) (as_included st)
     \<and> instruction_tokens st = tokens_of (\<lambda>i. is_instruction_bearing (item_trust i)) (as_included st)
     \<and> untrusted_tokens st = tokens_of (\<lambda>i. is_external (item_trust i)) (as_included st)
     \<and> seen_sources st = map (\<lambda>i. src_reference (item_source i)) (as_included st)
     \<and> distinct (map (\<lambda>i. src_reference (item_source i)) (as_included st))
     \<and> (\<forall>i \<in> set (as_included st). can_flow_to (item_sensitivity i) (as_destination st))
     \<and> tokens_of (\<lambda>i. \<not> is_required i) (as_included st) \<le> unat (retrievable_tokens (as_budget st))
     \<and> tokens_of is_required (as_included st) \<le> unat (total_tokens (as_budget st))
     \<and> (\<forall>k. source_usage_of st k =
          of_nat (tokens_of (\<lambda>i. src_kind (item_source i) = k) (as_included st)))"

lemma usage_add:
  "(case map_of (add_usage k t u) j of Some x \<Rightarrow> x | None \<Rightarrow> 0)
    = (case map_of u j of Some x \<Rightarrow> x | None \<Rightarrow> 0) + (if j = k then t else 0)"
proof (induction u)
  case (Cons p u)
  obtain a b where p: "p = (a, b)" by (cases p)
  show ?case using Cons.IH by (cases "a = k") (auto simp: p)
qed simp

lemma assembly_inv_new: "assembly_inv (AssemblyState_new b d)"
  by (simp add: assembly_inv_def AssemblyState_new_def source_usage_of_def)

lemma assembly_inv_admit:
  assumes "assembly_inv st"
  shows "assembly_inv (admit_item st item)"
proof (cases "admitted st item")
  case True
  have req: "tokens_of is_required (as_included st) \<le> used_tokens st"
    using assms by (auto simp: assembly_inv_def intro: tokens_of_mono)
  show ?thesis
    using assms True req
    by (auto simp: admit_item_eq assembly_inv_def source_usage_of_def usage_add admitted_def)
next
  case False
  then show ?thesis
    using assms by (simp add: admit_item_eq assembly_inv_def exclude_def source_usage_of_def)
qed

lemma admit_fixed [simp]:
  "as_budget (admit_item st item) = as_budget st"
  "as_destination (admit_item st item) = as_destination st"
  by (simp_all add: admit_item_eq exclude_def)

lemma assembly_fold:
  "as_budget (foldl admit_item st xs) = as_budget st"
  "as_destination (foldl admit_item st xs) = as_destination st"
  "assembly_inv st \<Longrightarrow> assembly_inv (foldl admit_item st xs)"
  by (induction xs arbitrary: st) (auto intro: assembly_inv_admit)

text \<open>Every processed item is included, in order, or excluded.\<close>

lemma admit_accounts:
  "mset (map item_source (as_included (admit_item st item))) + mset (map exc_source (as_excluded (admit_item st item)))
    = add_mset (item_source item)
        (mset (map item_source (as_included st)) + mset (map exc_source (as_excluded st)))"
  by (simp add: admit_item_eq exclude_def)

lemma fold_accounts:
  "mset (map item_source (as_included (foldl admit_item st xs)))
     + mset (map exc_source (as_excluded (foldl admit_item st xs)))
    = mset (map item_source (as_included st)) + mset (map exc_source (as_excluded st))
      + mset (map item_source xs)"
proof (induction xs arbitrary: st)
  case (Cons x xs)
  show ?case using Cons.IH [of "admit_item st x"] admit_accounts [of st x] by (simp add: ac_simps)
qed simp

lemma fold_included: "\<exists>ys. as_included (foldl admit_item st xs) = as_included st @ ys \<and> subseq ys xs"
proof (induction xs arbitrary: st)
  case (Cons x xs)
  obtain ys where ys: "as_included (foldl admit_item (admit_item st x) xs) = as_included (admit_item st x) @ ys"
    "subseq ys xs" using Cons.IH by blast
  show ?case
  proof (cases "admitted st x")
    case True
    then have "as_included (foldl admit_item st (x # xs)) = as_included st @ (x # ys)"
      using ys(1) by (simp add: admit_item_eq)
    then show ?thesis using ys(2) by blast
  next
    case False
    then have "as_included (foldl admit_item st (x # xs)) = as_included st @ ys"
      using ys(1) by (simp add: admit_item_eq exclude_def)
    then show ?thesis using ys(2) by (meson list_emb_Cons)
  qed
qed auto

lemma fold_included_new: "subseq (as_included (foldl admit_item (AssemblyState_new b d) xs)) xs"
proof -
  have "as_included (AssemblyState_new b d) = []" by (simp add: AssemblyState_new_def)
  then show ?thesis using fold_included [of "AssemblyState_new b d" xs] by auto
qed

lemma subseq_set: "subseq xs ys \<Longrightarrow> set xs \<subseteq> set ys"
  by (metis set_nths_subset subseq_conv_nths)

lemma sorted_rank_split:
  fixes f :: "'a \<Rightarrow> nat"
  shows "sorted (map f xs) \<Longrightarrow> xs = filter (\<lambda>x. f x = 0) xs @ filter (\<lambda>x. f x \<noteq> 0) xs"
proof (induction xs)
  case (Cons x xs)
  show ?case
  proof (cases "f x = 0")
    case False
    with Cons.prems have "\<forall>y \<in> set xs. f y \<noteq> 0" by auto
    then have "filter (\<lambda>x. f x = 0) xs = []" "filter (\<lambda>x. f x \<noteq> 0) xs = xs"
      by (simp_all add: filter_empty_conv filter_id_conv)
    with False show ?thesis by simp
  qed (use Cons in auto)
qed simp

lemma required_rank: "is_required i \<longleftrightarrow> priority_rank (item_priority i) = 0"
  by (cases "item_priority i") (simp_all add: is_required_def)

text \<open>The processing order: the required items as offered, then everything else.\<close>

lemma ordered_split:
  "\<exists>rest. sort_key (\<lambda>i. priority_rank (item_priority i)) offered = filter is_required offered @ rest
    \<and> (\<forall>i \<in> set rest. \<not> is_required i)"
proof -
  let ?f = "\<lambda>i. priority_rank (item_priority i)"
  let ?s = "sort_key ?f offered"
  have "?s = filter (\<lambda>x. ?f x = 0) ?s @ filter (\<lambda>x. ?f x \<noteq> 0) ?s"
    by (rule sorted_rank_split) simp
  then have "?s = filter (\<lambda>x. ?f x = 0) offered @ filter (\<lambda>x. ?f x \<noteq> 0) ?s"
    by (simp only: sort_key_stable)
  moreover have "\<forall>i \<in> set (filter (\<lambda>x. ?f x \<noteq> 0) ?s). \<not> is_required i" by (simp add: required_rank)
  moreover have "filter (\<lambda>x. ?f x = 0) offered = filter is_required offered"
    by (rule filter_cong) (simp_all add: required_rank)
  ultimately show ?thesis by metis
qed

lemma tokens_of_subseq: "subseq xs ys \<Longrightarrow> tokens_of P xs \<le> tokens_of P ys"
  by (induction rule: list_emb.induct) (auto simp: trans_le_add2)

lemma included_required:
  "tokens_of is_required (as_included (foldl admit_item (AssemblyState_new b d)
      (sort_key (\<lambda>i. priority_rank (item_priority i)) offered))) \<le> tokens_of is_required offered"
proof -
  obtain rest where rest: "sort_key (\<lambda>i. priority_rank (item_priority i)) offered
      = filter is_required offered @ rest" "\<forall>i \<in> set rest. \<not> is_required i"
    using ordered_split by blast
  have "tokens_of is_required rest = 0" using rest(2) by (simp add: tokens_of_def)
  moreover have "tokens_of is_required (filter is_required offered) = tokens_of is_required offered"
    by (simp add: tokens_of_def)
  ultimately show ?thesis
    using tokens_of_subseq [OF fold_included_new, of is_required b d "filter is_required offered @ rest"]
    by (simp add: rest(1))
qed

lemma seen_grows: "set (seen_sources st) \<subseteq> set (seen_sources (foldl admit_item st xs))"
proof (induction xs arbitrary: st)
  case (Cons x xs)
  have "set (seen_sources st) \<subseteq> set (seen_sources (admit_item st x))"
    by (auto simp: admit_item_eq exclude_def)
  with Cons.IH show ?case by fastforce
qed simp

lemma required_fit:
  assumes "\<forall>i \<in> set xs. is_required i"
    and "used_tokens st + tokens_of (\<lambda>_. True) xs \<le> unat (total_tokens (as_budget st))"
    and "i \<in> set xs" "can_flow_to (item_sensitivity i) (as_destination st)"
  shows "src_reference (item_source i) \<in> set (seen_sources (foldl admit_item st xs))"
  using assms
proof (induction xs arbitrary: st)
  case (Cons x xs)
  have fits: "used_tokens (admit_item st x) + tokens_of (\<lambda>_. True) xs
      \<le> unat (total_tokens (as_budget (admit_item st x)))"
    using Cons.prems(2) by (simp add: admit_item_eq exclude_def)
  have here: "src_reference (item_source x) \<in> set (seen_sources (admit_item st x))"
    if "can_flow_to (item_sensitivity x) (as_destination st)"
    using that Cons.prems(1,2) by (auto simp: admit_item_eq exclude_def admitted_def)
  show ?case
  proof (cases "i = x")
    case True
    then show ?thesis
      using here Cons.prems(4) seen_grows [of "admit_item st x" xs] by auto
  next
    case False
    then show ?thesis using Cons.IH [OF _ fits] Cons.prems by auto
  qed
qed simp

definition budget_wf :: "ContextBudget \<Rightarrow> bool" where
  "budget_wf b \<longleftrightarrow> unat (reserved_policy b) + unat (reserved_user_intent b) \<le> unat (total_tokens b)"

lemma retrievable_unat:
  assumes "budget_wf b"
  shows "unat (retrievable_tokens b)
    = unat (total_tokens b) - unat (reserved_policy b) - unat (reserved_user_intent b)"
proof -
  have "unat (total_tokens b - reserved_policy b) = unat (total_tokens b) - unat (reserved_policy b)"
    using assms by (simp add: budget_wf_def unat_sub word_le_nat_alt)
  then show ?thesis
    using assms by (simp add: budget_wf_def retrievable_tokens_def unat_sub word_le_nat_alt)
qed

text \<open>Below half the width of the counters no sum of an admitted item wraps, and the cap holds.\<close>

definition within_cap :: "AssemblyState \<Rightarrow> bool" where
  "within_cap st \<longleftrightarrow> (\<forall>k. tokens_of (\<lambda>i. \<not> is_required i \<and> src_kind (item_source i) = k) (as_included st)
     \<le> unat (per_source_cap (as_budget st)))"

lemma within_cap_admit:
  assumes "assembly_inv st" "budget_wf (as_budget st)" "unat (total_tokens (as_budget st)) < 2 ^ 31"
    and "within_cap st"
  shows "within_cap (admit_item st item)"
proof (cases "admitted st item \<and> \<not> is_required item")
  case True
  let ?k = "src_kind (item_source item)" and ?t = "token_estimate item"
  let ?n = "tokens_of (\<lambda>i. src_kind (item_source i) = ?k) (as_included st)"
  let ?r = "tokens_of (\<lambda>i. \<not> is_required i) (as_included st)"
  have le: "?n \<le> tokens_of is_required (as_included st) + ?r"
    using tokens_of_split [of "\<lambda>_. True" "as_included st" is_required]
      tokens_of_mono [of "\<lambda>i. src_kind (item_source i) = ?k" "\<lambda>_. True" "as_included st"] by simp
  moreover have "?r + unat ?t \<le> unat (retrievable_tokens (as_budget st))"
    using True assms(1) by (auto simp: admitted_def assembly_inv_def)
  moreover have "unat (retrievable_tokens (as_budget st)) \<le> unat (total_tokens (as_budget st))"
    using assms(2) by (simp add: retrievable_unat)
  moreover have "tokens_of is_required (as_included st) \<le> unat (total_tokens (as_budget st))"
    using assms(1) by (simp add: assembly_inv_def)
  ultimately have small: "?n + unat ?t < 2 ^ 32" using assms(3) by simp
  have "of_nat ?n + ?t \<le> per_source_cap (as_budget st)"
    using True assms(1) by (auto simp: admitted_def assembly_inv_def)
  moreover have "of_nat ?n + ?t = (of_nat (?n + unat ?t) :: 32 word)" by simp
  moreover have "unat (of_nat (?n + unat ?t) :: 32 word) = ?n + unat ?t"
    unfolding unat_of_nat using small by (simp add: take_bit_nat_eq_self)
  ultimately have "?n + unat ?t \<le> unat (per_source_cap (as_budget st))"
    by (metis word_le_nat_alt)
  moreover have "tokens_of (\<lambda>i. \<not> is_required i \<and> src_kind (item_source i) = ?k) (as_included st) \<le> ?n"
    by (rule tokens_of_mono) simp
  ultimately show ?thesis
    using assms(4) True by (auto simp: within_cap_def admit_item_eq)
next
  case False
  then show ?thesis using assms(4) by (auto simp: within_cap_def admit_item_eq exclude_def)
qed

lemma within_cap_fold:
  assumes "assembly_inv st" "budget_wf (as_budget st)" "unat (total_tokens (as_budget st)) < 2 ^ 31"
    and "within_cap st"
  shows "within_cap (foldl admit_item st xs)"
  using assms
  by (induction xs arbitrary: st) (simp_all add: assembly_inv_admit within_cap_admit)

lemma assemble_Ok:
  assumes "assemble_context offered b d = Ok m"
  defines "st \<equiv> foldl admit_item (AssemblyState_new b d)
    (sort_key (\<lambda>i. priority_rank (item_priority i)) offered)"
  shows "m = finish st" "assembly_inv st" "as_budget st = b" "as_destination st = d"
    "tokens_of is_required offered \<le> unat (total_tokens b)"
  using assms assembly_fold(1,2) [of "AssemblyState_new b d"] assembly_fold(3) [OF assembly_inv_new]
  by (auto simp: assemble_context_def Let_def tokens_of_def AssemblyState_new_def split: if_splits)

lemma ContextItem_new_Ok:
  assumes "ContextItem_new src t sn p n r q = Ok i"
  shows "i = \<lparr>item_source = src, item_trust = t, item_sensitivity = sn, item_priority = p,
      token_estimate = n, item_reason = r, item_quoted = q\<rparr>"
    "n \<noteq> 0" "t \<in> set (allowed_trusts (src_kind src))" "is_external t \<longrightarrow> q \<and> p \<noteq> Prio_Required"
    "implied_priority r = p" "requires_retrieved_source r \<longrightarrow> is_retrieved (src_kind src)"
  using assms
  by (auto simp: ContextItem_new_def Let_def split: if_splits option.splits InclusionReason.splits)

section \<open>Properties\<close>

text \<open>Labels cannot promote content. An item that passed its constructor may instruct the model
  only when its source is JARVIS's own policy, runtime instructions or a tool contract; external
  content is always marked quoted and never required; a required item states a reserved reason,
  and retrieved or compacted content comes from a retrieved kind of source.\<close>

theorem context_item_envelope:
  assumes "ContextItem_new src t sn p n r q = Ok i"
  shows "(is_instruction_bearing (item_trust i) \<longrightarrow>
      src_kind (item_source i) \<in> {Src_IdentityPolicy, Src_WorkspacePolicy, Src_RuntimeInstructions, Src_ToolContract})
    \<and> (is_external (item_trust i) \<longrightarrow> item_quoted i \<and> \<not> is_required i)
    \<and> (is_required i \<longleftrightarrow> \<not> requires_retrieved_source (item_reason i))
    \<and> (\<not> is_required i \<longrightarrow> is_retrieved (src_kind (item_source i)) \<and> \<not> is_instruction_bearing (item_trust i))"
proof -
  note ok = ContextItem_new_Ok [OF assms]
  have instr: "src_kind src \<in> {Src_IdentityPolicy, Src_WorkspacePolicy, Src_RuntimeInstructions, Src_ToolContract}"
    if "t = Authoritative" using ok(3) that by (cases "src_kind src") auto
  moreover have "p = Prio_Required \<longleftrightarrow> \<not> requires_retrieved_source r"
    using ok(5) by (cases r) auto
  moreover have "\<not> is_retrieved (src_kind src)" if "t = Authoritative"
    using instr [OF that] by (auto simp: is_retrieved_def)
  ultimately show ?thesis
    using ok(4,6) by (auto simp: ok(1) is_required_def is_instruction_bearing_def)
qed

text \<open>The manifest accounts for everything and leaks nothing. Every offered item is either
  included or excluded with a reason, each once; included items are in the order of their tier and
  of the offer, may all flow to the destination, never cite one source twice, and the recorded
  totals are exactly their tokens.\<close>

theorem manifest_accounts:
  assumes "assemble_context offered b d = Ok m"
  shows "mset (map item_source (man_included m)) + mset (map exc_source (man_excluded m))
      = mset (map item_source offered)
    \<and> subseq (man_included m) (sort_key (\<lambda>i. priority_rank (item_priority i)) offered)
    \<and> (\<forall>i \<in> set (man_included m). can_flow_to (item_sensitivity i) d)
    \<and> distinct (map (\<lambda>i. src_reference (item_source i)) (man_included m))
    \<and> man_used_tokens m = tokens_of (\<lambda>_. True) (man_included m)
    \<and> man_instruction_tokens m = tokens_of (\<lambda>i. is_instruction_bearing (item_trust i)) (man_included m)
    \<and> man_untrusted_tokens m = tokens_of (\<lambda>i. is_external (item_trust i)) (man_included m)"
proof -
  let ?s = "sort_key (\<lambda>i. priority_rank (item_priority i)) offered"
  note ok = assemble_Ok [OF assms]
  have "mset (map item_source ?s) = mset (map item_source offered)" by simp
  then have "mset (map item_source (man_included m)) + mset (map exc_source (man_excluded m))
      = mset (map item_source offered)"
    using fold_accounts [of "AssemblyState_new b d" ?s] by (simp add: ok(1) finish_def AssemblyState_new_def)
  moreover have "subseq (man_included m) ?s"
    using fold_included_new by (simp add: ok(1) finish_def)
  ultimately show ?thesis
    using ok(2,4) unfolding assembly_inv_def by (simp add: ok(1) finish_def)
qed

text \<open>Retrieval cannot displace what was reserved. Retrieved content never takes more than the
  budget less its reservations, required content never more than the budget, and, for budgets below
  half the counter's range, no kind of source retrieves more than its cap. So the whole context fits
  the budget whenever the required items fit the reservations.\<close>

theorem retrieval_within_reservation:
  assumes "ContextBudget_new t p u c = Ok b" "assemble_context offered b d = Ok m"
  shows "tokens_of (\<lambda>i. \<not> is_required i) (man_included m) \<le> unat t - unat p - unat u
    \<and> tokens_of is_required (man_included m) \<le> unat t
    \<and> (unat t < 2 ^ 31 \<longrightarrow>
        tokens_of (\<lambda>i. \<not> is_required i \<and> src_kind (item_source i) = k) (man_included m) \<le> unat c)
    \<and> (tokens_of is_required offered \<le> unat p + unat u \<longrightarrow> man_used_tokens m \<le> unat t)"
proof -
  note ok = assemble_Ok [OF assms(2)]
  have b: "budget_wf b" "total_tokens b = t" "reserved_policy b = p" "reserved_user_intent b = u"
    "per_source_cap b = c"
    using assms(1) by (auto simp: ContextBudget_new_def budget_wf_def split: if_splits)
  have new: "as_budget (AssemblyState_new b d) = b" "within_cap (AssemblyState_new b d)"
    by (simp_all add: AssemblyState_new_def within_cap_def)
  have "tokens_of (\<lambda>i. \<not> is_required i \<and> src_kind (item_source i) = k) (man_included m) \<le> unat c"
    if "unat t < 2 ^ 31"
  proof -
    have "within_cap (foldl admit_item (AssemblyState_new b d)
        (sort_key (\<lambda>i. priority_rank (item_priority i)) offered))"
      using b(1) that new by (intro within_cap_fold assembly_inv_new) (simp_all add: b(2))
    then show ?thesis by (simp add: within_cap_def ok(1,3) finish_def b(5))
  qed
  moreover have budget: "tokens_of (\<lambda>i. \<not> is_required i) (man_included m) \<le> unat t - unat p - unat u"
    "tokens_of is_required (man_included m) \<le> unat t"
    "man_used_tokens m = tokens_of (\<lambda>_. True) (man_included m)"
    using ok(2,3) unfolding assembly_inv_def
    by (simp_all add: ok(1) finish_def retrievable_unat [OF b(1)] b(2-4))
  moreover have "tokens_of is_required (man_included m) \<le> tokens_of is_required offered"
    using included_required [of b d offered] by (simp add: ok(1) finish_def)
  moreover have "unat p + unat u \<le> unat t" using b(1) by (simp add: budget_wf_def b(2-4))
  moreover have "man_used_tokens m \<le> unat t" if "tokens_of is_required offered \<le> unat p + unat u"
    using that calculation tokens_of_split [of "\<lambda>_. True" "man_included m" is_required] by simp
  ultimately show ?thesis by simp
qed

lemma required_included:
  assumes ok: "assemble_context offered b d = Ok m" and i: "i \<in> set offered" "is_required i"
    "can_flow_to (item_sensitivity i) d"
  shows "\<exists>j \<in> set (man_included m). is_required j
    \<and> src_reference (item_source j) = src_reference (item_source i)"
proof -
  let ?n = "AssemblyState_new b d"
  let ?R = "filter is_required offered"
  obtain rest where rest: "sort_key (\<lambda>i. priority_rank (item_priority i)) offered = ?R @ rest"
    using ordered_split by blast
  have "tokens_of (\<lambda>_. True) ?R = tokens_of is_required offered" by (simp add: tokens_of_def)
  then have "src_reference (item_source i) \<in> set (seen_sources (foldl admit_item ?n ?R))"
    using assemble_Ok(5) [OF ok] i by (intro required_fit) (auto simp: AssemblyState_new_def)
  then have "src_reference (item_source i)
      \<in> (\<lambda>i. src_reference (item_source i)) ` set (as_included (foldl admit_item ?n ?R))"
    using assembly_fold(3) [OF assembly_inv_new, of b d ?R] by (simp add: assembly_inv_def)
  then obtain j where j: "j \<in> set (as_included (foldl admit_item ?n ?R))"
    "src_reference (item_source j) = src_reference (item_source i)" by auto
  have "set (as_included (foldl admit_item ?n ?R)) \<subseteq> set ?R"
    using fold_included_new [of b d ?R] subseq_set by blast
  then have "is_required j" using j(1) by auto
  moreover have "j \<in> set (man_included m)"
    using fold_included [of "foldl admit_item ?n ?R" rest] j(1)
    by (auto simp: assemble_Ok(1) [OF ok] rest finish_def)
  ultimately show ?thesis using j(2) by blast
qed

lemma included_offered:
  assumes "assemble_context offered b d = Ok m"
  shows "set (man_included m) \<subseteq> set offered"
proof -
  have "set (man_included m) \<subseteq> set (sort_key (\<lambda>i. priority_rank (item_priority i)) offered)"
    using fold_included_new subseq_set by (fastforce simp: assemble_Ok(1) [OF assms] finish_def)
  then show ?thesis by simp
qed


text \<open>One policy item and one retrieved memory, for closed examples.\<close>

definition sample_policy :: ContextItem where
  "sample_policy = \<lparr>item_source = \<lparr>src_kind = Src_IdentityPolicy, src_reference = lit ''p''\<rparr>,
     item_trust = Authoritative, item_sensitivity = Internal, item_priority = Prio_Required,
     token_estimate = 60, item_reason = Reason_ReservedPolicy, item_quoted = False\<rparr>"

definition sample_memory :: ContextItem where
  "sample_memory = \<lparr>item_source = \<lparr>src_kind = Src_Memory, src_reference = lit ''m''\<rparr>,
     item_trust = Untrusted, item_sensitivity = Internal, item_priority = Prio_Optional,
     token_estimate = 70, item_reason = Reason_RetrievedMatch, item_quoted = True\<rparr>"

definition sample_budget :: ContextBudget where
  "sample_budget = \<lparr>total_tokens = 100, reserved_policy = 0, reserved_user_intent = 0, per_source_cap = 100\<rparr>"

lemma sample_items:
  "ContextItem_new (item_source sample_policy) Authoritative Internal Prio_Required 60 Reason_ReservedPolicy False
     = Ok sample_policy"
  "ContextItem_new (item_source sample_memory) Untrusted Internal Prio_Optional 70 Reason_RetrievedMatch True
     = Ok sample_memory"
  "ContextBudget_new 100 0 0 100 = Ok sample_budget"
  by (simp_all add: ContextItem_new_def sample_policy_def sample_memory_def is_external_def
      is_retrieved_def ContextBudget_new_def sample_budget_def)

lemma sample_assembly:
  "assemble_context [sample_memory, sample_policy] sample_budget Restricted
     = Ok \<lparr>man_destination = Restricted, man_budget = sample_budget,
           man_included = [sample_policy, sample_memory], man_excluded = [],
           man_used_tokens = 130, man_instruction_tokens = 60, man_untrusted_tokens = 70\<rparr>"
  by (simp add: assemble_context_def sample_memory_def sample_policy_def sample_budget_def
      is_required_def AssemblyState_new_def admit_item_def can_flow_to_def source_usage_of_def
      retrievable_tokens_def is_instruction_bearing_def is_external_def finish_def Let_def)

theorem context_item_envelope_witness:
  "item_quoted sample_memory \<and> \<not> is_required sample_memory"
  using context_item_envelope [OF sample_items(2)] by (simp add: sample_memory_def is_external_def)

theorem manifest_accounts_witness:
  "\<exists>m. assemble_context [sample_memory, sample_policy] sample_budget Restricted = Ok m
     \<and> man_used_tokens m = tokens_of (\<lambda>_. True) (man_included m)"
  using manifest_accounts [OF sample_assembly] sample_assembly by blast

theorem retrieval_within_reservation_witness:
  "tokens_of (\<lambda>i. \<not> is_required i) [sample_policy, sample_memory] \<le> 100"
  using retrieval_within_reservation [OF sample_items(3) sample_assembly] by simp


text \<open>
  The two allowances are separate and the retrieved one is not lowered by required content beyond
  the reservations: a budget that reserves less than the required items use is exceeded.
\<close>

theorem context_overcommitted:
  "\<exists>m. assemble_context [sample_memory, sample_policy] sample_budget Restricted = Ok m
     \<and> unat (total_tokens sample_budget) < man_used_tokens m"
  by (simp add: sample_assembly) (simp add: sample_budget_def)

text \<open>
  A required item the destination may not receive is not an error of the assembly: the context is
  built without it.
\<close>

theorem required_silently_excluded:
  "\<exists>m. assemble_context [sample_policy] sample_budget Public = Ok m
     \<and> is_required sample_policy \<and> man_included m = []"
  by (simp add: assemble_context_def sample_policy_def sample_budget_def is_required_def
      AssemblyState_new_def admit_item_def can_flow_to_def finish_def Let_def exclude_def)

end
