(* ===== verification/Isolation.thy ===== *)
theory Isolation
  imports Jarvis_Prelude
begin

text \<open>
  Isolation of untrusted text before it reaches a prompt (\<open>jarvis-core/src/isolation.rs\<close>):
  characters that change how text reads are dropped, the fence token is removed from the payload,
  and the payload is rendered between the fence markers.

  The scan for the token runs over bytes in the source. Every byte it compares with is ASCII and
  the bytes of a wider character are not, so the scan is written here over characters: matches
  start, step and end at the same places and have the same length.
\<close>

definition FENCE_TOKEN :: rstr where "FENCE_TOKEN = lit ''JARVIS-UNTRUSTED-DATA''"

definition FENCE_OPEN :: rstr where "FENCE_OPEN = lit ''<<JARVIS-UNTRUSTED-DATA>>''"

definition FENCE_CLOSE :: rstr where "FENCE_CLOSE = lit ''<<END-JARVIS-UNTRUSTED-DATA>>''"

definition MAX_ISOLATED_CHARS :: nat where "MAX_ISOLATED_CHARS = 4096"

datatype IsolationError = Isolation_Empty | Isolation_TooLong nat

record IsolatedText =
  iso_body :: rstr
  iso_removed :: nat
  contained_fence :: bool

definition is_format_character :: "uchar \<Rightarrow> bool" where
  "is_format_character c \<longleftrightarrow> c \<in> {0x200b..0x200f} \<or> c \<in> {0x202a..0x202e}
     \<or> c \<in> {0x2060..0x2064} \<or> c \<in> {0x2066..0x2069}"

definition is_separator :: "uchar \<Rightarrow> bool" where
  "is_separator c \<longleftrightarrow> c = 45 \<or> c = 95 \<or> c = 32 \<or> c = 9"

definition normalise_for_comparison :: "rstr \<Rightarrow> rstr" where
  "normalise_for_comparison cs =
     map to_ascii_uppercase (filter (\<lambda>c. is_ascii c \<and> \<not> is_separator c) cs)"

definition normalised_needle :: rstr where
  "normalised_needle = normalise_for_comparison FENCE_TOKEN"

definition contains_fence_token :: "rstr \<Rightarrow> bool" where
  "contains_fence_token cs \<longleftrightarrow> contains_sub normalised_needle (normalise_for_comparison cs)"

definition eq_ignore_ascii_case :: "uchar \<Rightarrow> uchar \<Rightarrow> bool" where
  "eq_ignore_ascii_case a b \<longleftrightarrow> to_ascii_lowercase a = to_ascii_lowercase b"

text \<open>The text from the cursor on, the rest of the needle, and whether its first character matched.\<close>

fun fence_token_at :: "bool \<Rightarrow> rstr \<Rightarrow> rstr \<Rightarrow> nat option" where
  "fence_token_at started cs [] = Some 0"
| "fence_token_at started [] (n # ns) = None"
| "fence_token_at started (c # cs) (n # ns) =
     (if started \<and> is_separator c then map_option Suc (fence_token_at True cs (n # ns))
      else if eq_ignore_ascii_case c n then map_option Suc (fence_token_at True cs ns)
      else None)"

lemma fence_token_at_length: "fence_token_at st cs ns = Some k \<Longrightarrow> length ns \<le> k \<and> k \<le> length cs"
  by (induction st cs ns arbitrary: k rule: fence_token_at.induct) (auto split: if_splits)

function remove_fence_token :: "rstr \<Rightarrow> rstr" where
  "remove_fence_token [] = []"
| "remove_fence_token (c # cs) =
     (case fence_token_at False (c # cs) normalised_needle of
        Some len \<Rightarrow> 32 # remove_fence_token (drop len (c # cs))
      | None \<Rightarrow> c # remove_fence_token cs)"
  by pat_completeness auto

lemma normalised_needle_eq: "normalised_needle = lit ''JARVISUNTRUSTEDDATA''"
  by (simp add: normalised_needle_def normalise_for_comparison_def FENCE_TOKEN_def lit_def
      is_ascii_def is_separator_def to_ascii_uppercase_def is_ascii_lowercase_def)

termination remove_fence_token
proof (relation "measure length")
  fix c cs len
  assume "fence_token_at False (c # cs) normalised_needle = Some len"
  then have "0 < len" using fence_token_at_length by (fastforce simp: normalised_needle_eq)
  then show "(drop len (c # cs), c # cs) \<in> measure length" by simp
qed auto

definition keeps :: "uchar \<Rightarrow> bool" where
  "keeps c \<longleftrightarrow> c = 10 \<or> c = 9 \<or> \<not> (is_control c \<or> is_format_character c)"

definition IsolatedText_new :: "rstr \<Rightarrow> IsolationError + IsolatedText" where
  "IsolatedText_new payload =
     (let kept = filter keeps payload;
          removed = length payload - length kept;
          trimmed = trim kept
      in if trimmed = [] then Err Isolation_Empty
      else
        let contained = contains_fence_token trimmed;
            body = (if contained then remove_fence_token trimmed else trimmed)
        in if length body > MAX_ISOLATED_CHARS then Err (Isolation_TooLong (length body))
           else if trim body = [] then Err Isolation_Empty
           else Ok \<lparr>iso_body = body, iso_removed = removed, contained_fence = contained\<rparr>)"

definition was_altered :: "IsolatedText \<Rightarrow> bool" where
  "was_altered t \<longleftrightarrow> iso_removed t > 0 \<or> contained_fence t"

definition render :: "IsolatedText \<Rightarrow> rstr" where
  "render t = FENCE_OPEN @ [10] @ iso_body t @ [10] @ FENCE_CLOSE"

text \<open>\<open>str::to_lowercase\<close> follows the Unicode tables and is an argument.\<close>

definition instruction_markers :: "rstr list" where
  "instruction_markers = [lit ''ignore previous'', lit ''ignore all previous'',
     lit ''disregard the above'', lit ''disregard previous'', lit ''you are now'',
     lit ''system:'', lit ''new instructions'', lit ''override your'']"

definition looks_like_an_instruction :: "(rstr \<Rightarrow> rstr) \<Rightarrow> rstr \<Rightarrow> bool" where
  "looks_like_an_instruction to_lowercase cs \<longleftrightarrow>
     list_ex (\<lambda>marker. contains_sub marker (to_lowercase cs)) instruction_markers"

section \<open>Lemmas\<close>

lemma fence_token_at_append:
  "fence_token_at st cs ns = Some k \<Longrightarrow> fence_token_at st (cs @ rest) ns = Some k"
  by (induction st cs ns arbitrary: k rule: fence_token_at.induct) (auto split: if_splits)

text \<open>A needle of upper-case letters, as the fence token is once its hyphens are gone.\<close>

definition letters :: "rstr \<Rightarrow> bool" where
  "letters ns \<longleftrightarrow> (\<forall>n \<in> set ns. is_ascii_uppercase n)"

lemma letters_needle: "letters normalised_needle"
  by (simp add: letters_def normalised_needle_eq lit_def is_ascii_uppercase_def)

lemma eq_ignore_case_upper:
  "is_ascii_uppercase n \<Longrightarrow> eq_ignore_ascii_case c n
    \<Longrightarrow> is_ascii c \<and> \<not> is_separator c \<and> to_ascii_uppercase c = n"
  by (auto simp: eq_ignore_ascii_case_def to_ascii_lowercase_def to_ascii_uppercase_def
      is_ascii_uppercase_def is_ascii_lowercase_def is_ascii_def is_separator_def split: if_splits)

lemma normalise_append:
  "normalise_for_comparison (a @ b) = normalise_for_comparison a @ normalise_for_comparison b"
  by (simp add: normalise_for_comparison_def)

lemma fence_token_at_normalise:
  "fence_token_at st cs ns = Some k \<Longrightarrow> letters ns
    \<Longrightarrow> normalise_for_comparison (take k cs) = ns"
proof (induction st cs ns arbitrary: k rule: fence_token_at.induct)
  case (3 started c cs n ns)
  then show ?case
    by (auto simp: normalise_for_comparison_def letters_def dest!: eq_ignore_case_upper
        split: if_splits)
qed (auto simp: normalise_for_comparison_def)

lemma spelled_contains:
  assumes "fence_token_at False w normalised_needle = Some k"
  shows "contains_fence_token (a @ w @ b)"
proof -
  have "normalise_for_comparison w
      = normalised_needle @ normalise_for_comparison (drop k w)"
    using fence_token_at_normalise [OF assms letters_needle] normalise_append [of "take k w" "drop k w"]
    by simp
  then show ?thesis
    unfolding contains_fence_token_def contains_sub_iff normalise_append by (metis append.assoc)
qed

lemma remove_Cons_cases:
  obtains (removed) len where "fence_token_at False (c # cs) normalised_needle = Some len"
      "remove_fence_token (c # cs) = 32 # remove_fence_token (drop len (c # cs))"
  | (kept) "fence_token_at False (c # cs) normalised_needle = None"
      "remove_fence_token (c # cs) = c # remove_fence_token cs"
  by (cases "fence_token_at False (c # cs) normalised_needle") auto

text \<open>Every emitted character is one step of the scan.\<close>

lemma remove_suffix: "remove_fence_token s = a @ t \<Longrightarrow> \<exists>s'. t = remove_fence_token s'"
proof (induction a arbitrary: s)
  case (Cons x a)
  then obtain c cs where s: "s = c # cs" by (cases s) auto
  show ?case
    by (rule remove_Cons_cases [of c cs]) (use Cons s in auto)
qed auto

lemma remove_copies: "remove_fence_token s = w @ b \<Longrightarrow> 32 \<notin> set w \<Longrightarrow> \<exists>s'. s = w @ s'"
proof (induction w arbitrary: s)
  case (Cons x w)
  then obtain c cs where s: "s = c # cs" by (cases s) auto
  show ?case
    by (rule remove_Cons_cases [of c cs]) (use Cons s in auto)
qed auto

lemma remove_leaves_no_token:
  assumes "remove_fence_token s = a @ w @ b" "32 \<notin> set w"
  shows "fence_token_at False w normalised_needle = None"
proof (rule ccontr)
  assume "fence_token_at False w normalised_needle \<noteq> None"
  then obtain k where k: "fence_token_at False w normalised_needle = Some k" by auto
  obtain s1 where s1: "remove_fence_token s1 = w @ b" using remove_suffix [OF assms(1)] by metis
  then obtain s2 where s2: "s1 = w @ s2" using remove_copies assms(2) by blast
  have "w \<noteq> []" using k by (auto simp: normalised_needle_eq lit_def)
  then obtain c w' where w: "w = c # w'" by (cases w) auto
  have "fence_token_at False (c # w' @ s2) normalised_needle = Some k"
    using fence_token_at_append [OF k, of s2] by (simp add: w)
  then have "hd (remove_fence_token s1) = 32" by (simp add: s2 w)
  then show False using s1 assms(2) w by simp
qed

lemma set_remove_fence_token: "set (remove_fence_token s) \<subseteq> insert 32 (set s)"
proof (induction s rule: remove_fence_token.induct)
  case (2 c cs)
  show ?case
    by (rule remove_Cons_cases [of c cs])
      (use 2 set_drop_subset in \<open>fastforce+\<close>)
qed simp

lemma word_in_lines:
  assumes "xs @ z # ys = a @ w @ b" "z \<notin> set w" "w \<noteq> []"
  shows "(\<exists>c. xs = a @ w @ c) \<or> (\<exists>c. ys = c @ w @ b)"
  using assms by (auto simp: append_eq_append_conv2 Cons_eq_append_conv append_eq_Cons_conv)


lemma IsolatedText_new_Ok:
  assumes "IsolatedText_new p = Ok t"
  shows "iso_body t = (if contains_fence_token (trim (filter keeps p))
      then remove_fence_token (trim (filter keeps p)) else trim (filter keeps p))"
    "contained_fence t = contains_fence_token (trim (filter keeps p))"
    "iso_removed t = length p - length (filter keeps p)"
    "length (iso_body t) \<le> MAX_ISOLATED_CHARS" "trim (iso_body t) \<noteq> []"
  using assms by (auto simp: IsolatedText_new_def Let_def split: if_splits)

lemma body_keeps:
  assumes "IsolatedText_new p = Ok t" "c \<in> set (iso_body t)"
  shows "keeps c"
proof -
  have "set (iso_body t) \<subseteq> insert 32 (set (filter keeps p))"
    using IsolatedText_new_Ok(1) [OF assms(1)] set_trim [of "filter keeps p"]
      set_remove_fence_token [of "trim (filter keeps p)"] by auto
  with assms(2) show ?thesis by (auto simp: keeps_def is_control_def is_format_character_def)
qed

lemma body_no_token:
  assumes "IsolatedText_new p = Ok t" "iso_body t = a @ w @ b" "32 \<notin> set w"
  shows "fence_token_at False w normalised_needle = None"
proof (cases "contained_fence t")
  case True
  then show ?thesis
    using remove_leaves_no_token [OF _ assms(3)] IsolatedText_new_Ok(1,2) [OF assms(1)] assms(2) by metis
next
  case False
  then have "\<not> contains_fence_token (a @ w @ b)"
    using IsolatedText_new_Ok(1,2) [OF assms(1)] assms(2) by auto
  then show ?thesis using spelled_contains by (metis option.exhaust)
qed

lemma close_spells_token:
  "FENCE_CLOSE = lit ''<<END-'' @ FENCE_TOKEN @ lit ''>>''" "10 \<notin> set FENCE_CLOSE"
  "length FENCE_OPEN < length FENCE_CLOSE" "32 \<notin> set FENCE_TOKEN"
  "fence_token_at False FENCE_TOKEN normalised_needle = Some 21"
  by (simp_all add: FENCE_CLOSE_def FENCE_TOKEN_def FENCE_OPEN_def lit_def normalised_needle_eq
      eq_ignore_ascii_case_def to_ascii_lowercase_def is_ascii_uppercase_def is_separator_def)

section \<open>Properties\<close>

text \<open>C38: a fenced payload cannot close its own fence. Whatever the payload, in the rendering the
  closing marker stands at the very end and nowhere else, and no stretch of the body without a
  space spells the fence token in any case with any separators between its letters.\<close>

theorem fence_unclosable:
  assumes "IsolatedText_new payload = Ok t"
  shows "(render t = before @ FENCE_CLOSE @ after \<longrightarrow> after = [])
    \<and> (iso_body t = a @ w @ b \<longrightarrow> 32 \<notin> set w \<longrightarrow> fence_token_at False w normalised_needle = None)"
proof (intro conjI impI)
  assume "render t = before @ FENCE_CLOSE @ after"
  then have eq: "FENCE_OPEN @ 10 # (iso_body t @ 10 # FENCE_CLOSE) = before @ FENCE_CLOSE @ after"
    by (simp add: render_def)
  have ne: "FENCE_CLOSE \<noteq> []" by (simp add: FENCE_CLOSE_def)
  have "\<not> (\<exists>c. FENCE_OPEN = before @ FENCE_CLOSE @ c)"
  proof
    assume "\<exists>c. FENCE_OPEN = before @ FENCE_CLOSE @ c"
    then obtain c where c: "FENCE_OPEN = before @ FENCE_CLOSE @ c" ..
    have "length FENCE_CLOSE \<le> length FENCE_OPEN" unfolding c by simp
    then show False using close_spells_token(3) by simp
  qed
  then obtain c where c: "iso_body t @ 10 # FENCE_CLOSE = c @ FENCE_CLOSE @ after"
    using word_in_lines [OF eq close_spells_token(2) ne] by auto
  have "\<not> (\<exists>d. iso_body t = c @ FENCE_CLOSE @ d)"
  proof
    assume "\<exists>d. iso_body t = c @ FENCE_CLOSE @ d"
    then obtain d where "iso_body t = (c @ lit ''<<END-'') @ FENCE_TOKEN @ (lit ''>>'' @ d)"
      by (auto simp: close_spells_token(1))
    from body_no_token [OF assms this close_spells_token(4)] close_spells_token(5) show False by simp
  qed
  then obtain d where "FENCE_CLOSE = d @ FENCE_CLOSE @ after"
    using word_in_lines [OF c close_spells_token(2) ne] by auto
  then have "length FENCE_CLOSE = length d + length FENCE_CLOSE + length after"
    by (metis length_append add.assoc)
  then show "after = []" by simp
next
  assume "iso_body t = a @ w @ b" "32 \<notin> set w"
  then show "fence_token_at False w normalised_needle = None" using body_no_token [OF assms] by blast
qed

lemma sample_isolated:
  "IsolatedText_new (lit ''hi'') = Ok \<lparr>iso_body = lit ''hi'', iso_removed = 0, contained_fence = False\<rparr>"
proof -
  have "filter keeps (lit ''hi'') = lit ''hi''"
    by (simp add: lit_def keeps_def is_control_def is_format_character_def)
  moreover have "trim (lit ''hi'') = lit ''hi''"
    by (simp add: trim_def lit_def is_whitespace_def)
  moreover have "\<not> contains_fence_token (lit ''hi'')"
    by (simp add: contains_fence_token_def normalised_needle_eq normalise_for_comparison_def lit_def
        is_ascii_def is_separator_def to_ascii_uppercase_def is_ascii_lowercase_def)
  ultimately show ?thesis by (simp add: IsolatedText_new_def MAX_ISOLATED_CHARS_def)
qed

theorem fence_unclosable_witness:
  "fence_token_at False (lit ''hi'') normalised_needle = None"
  using fence_unclosable [OF sample_isolated, of "[]" "[]" "[]" "lit ''hi''" "[]"]
  by (simp add: lit_def)

text \<open>Isolation is bounded, neutral and reported. The body holds at most 4096 characters, is not
  blank and has no control or format character but line feeds and tabs; the number of dropped
  characters is exact, and a payload reported as unaltered is the original text, trimmed.\<close>

theorem isolation_neutral:
  assumes "IsolatedText_new payload = Ok t"
  shows "length (iso_body t) \<le> MAX_ISOLATED_CHARS \<and> trim (iso_body t) \<noteq> []
    \<and> (\<forall>c \<in> set (iso_body t). c = 10 \<or> c = 9 \<or> \<not> is_control c \<and> \<not> is_format_character c)
    \<and> iso_removed t = length (filter (\<lambda>c. \<not> keeps c) payload)
    \<and> (\<not> was_altered t \<longrightarrow> iso_body t = trim payload)"
proof -
  note ok = IsolatedText_new_Ok [OF assms]
  have removed: "iso_removed t = length (filter (\<lambda>c. \<not> keeps c) payload)"
    using sum_length_filter_compl [of keeps payload] ok(3) by simp
  have "iso_body t = trim payload" if "\<not> was_altered t"
  proof -
    have "filter (\<lambda>c. \<not> keeps c) payload = []" "\<not> contained_fence t"
      using that removed by (simp_all add: was_altered_def)
    then have "filter keeps payload = payload" by (simp add: filter_empty_conv)
    with ok(1,2) \<open>\<not> contained_fence t\<close> show ?thesis by simp
  qed
  with ok(4,5) removed body_keeps [OF assms] show ?thesis by (auto simp: keeps_def)
qed

theorem isolation_neutral_witness:
  "length (lit ''hi'') \<le> MAX_ISOLATED_CHARS \<and> lit ''hi'' = trim (lit ''hi'')"
  using isolation_neutral [OF sample_isolated] by (simp add: was_altered_def)

text \<open>
  The space written in place of a removed token is itself a separator the detector skips, and the
  scan does not revisit what it wrote: a token nested inside a token leaves a body in which the
  detector still finds one.
\<close>

definition nested_payload :: rstr where
  "nested_payload = lit ''JARVIS-UN'' @ FENCE_TOKEN @ lit ''TRUSTED-DATA''"

theorem removal_recreates_token:
  "\<exists>t. IsolatedText_new nested_payload = Ok t \<and> contains_fence_token (iso_body t)"
proof -
  have "filter keeps nested_payload = nested_payload"
    by (simp add: nested_payload_def FENCE_TOKEN_def lit_def keeps_def is_control_def is_format_character_def)
  moreover have "trim nested_payload = nested_payload"
    by (simp add: nested_payload_def FENCE_TOKEN_def trim_def lit_def is_whitespace_def)
  moreover have "contains_fence_token nested_payload"
    by (simp add: contains_fence_token_def normalised_needle_eq normalise_for_comparison_def
        nested_payload_def FENCE_TOKEN_def lit_def is_ascii_def is_separator_def
        to_ascii_uppercase_def is_ascii_lowercase_def)
  moreover have r: "remove_fence_token nested_payload = lit ''JARVIS-UN TRUSTED-DATA''"
    by (simp add: nested_payload_def FENCE_TOKEN_def lit_def normalised_needle_eq
        eq_ignore_ascii_case_def to_ascii_lowercase_def is_ascii_uppercase_def is_separator_def)
  moreover have "trim (lit ''JARVIS-UN TRUSTED-DATA'') \<noteq> []"
    by (simp add: trim_def lit_def is_whitespace_def)
  moreover have "contains_fence_token (lit ''JARVIS-UN TRUSTED-DATA'')"
    by (simp add: contains_fence_token_def normalised_needle_eq normalise_for_comparison_def lit_def
        is_ascii_def is_separator_def to_ascii_uppercase_def is_ascii_lowercase_def)
  moreover have "nested_payload \<noteq> []" by (simp add: nested_payload_def)
  ultimately show ?thesis by (simp add: IsolatedText_new_def MAX_ISOLATED_CHARS_def)
qed

end
