(* ===== verification/Schedule.thy ===== *)
theory Schedule
  imports Core_Values
begin

unbundle bit_operations_syntax

text \<open>
  When a scheduled task fires (\<open>jarvis-core/src/schedule.rs\<close>): intervals, one-off instants and
  wall-clock times on weekdays of a named zone, and the quiet hours of the owner. The time zone
  database and the calendar are the \<open>jiff\<close> crate's and are a parameter, a record of the functions
  the source calls; a civil date is its day number, 0 being Monday 29 December 1969, so that the
  weekday offset from Monday is the remainder by 7.
\<close>

definition MIN_INTERVAL_SECONDS :: nat where "MIN_INTERVAL_SECONDS = 60"

definition MAX_INTERVAL_SECONDS :: nat where "MAX_INTERVAL_SECONDS = 366 * 24 * 60 * 60"

definition MAX_SCHEDULE_OBJECTIVE_CHARS :: nat where "MAX_SCHEDULE_OBJECTIVE_CHARS = 4096"

datatype InvalidSchedule = IntervalSyntax | IntervalTooShort | IntervalTooLong | InThePast
  | ExactlyOneCadence | TimeSyntax | DaysSyntax | UnknownZone | ZoneRequired
  | DailyFieldsWithoutTime | EmptyObjective | ObjectiveTooLong

section \<open>Weekdays\<close>

type_synonym Weekdays = "8 word"

definition ALL_DAYS :: Weekdays where "ALL_DAYS = 0b1111111"

definition WORK_DAYS :: Weekdays where "WORK_DAYS = 0b0011111"

definition WEEKEND_DAYS :: Weekdays where "WEEKEND_DAYS = 0b1100000"

definition DAY_ABBREVIATIONS :: "rstr list" where
  "DAY_ABBREVIATIONS = [lit ''mon'', lit ''tue'', lit ''wed'', lit ''thu'', lit ''fri'', lit ''sat'', lit ''sun'']"

definition Weekdays_from_bits :: "8 word \<Rightarrow> InvalidSchedule + Weekdays" where
  "Weekdays_from_bits bits = (if bits = 0 \<or> bits > ALL_DAYS then Err DaysSyntax else Ok bits)"

definition weekdays_contains :: "Weekdays \<Rightarrow> nat \<Rightarrow> bool" where
  "weekdays_contains days index \<longleftrightarrow> days AND push_bit index 1 \<noteq> 0"

definition day_index :: "rstr \<Rightarrow> InvalidSchedule + nat" where
  "day_index name =
     (if name \<in> {lit ''mon'', lit ''monday''} then Ok 0
      else if name \<in> {lit ''tue'', lit ''tues'', lit ''tuesday''} then Ok 1
      else if name \<in> {lit ''wed'', lit ''wednesday''} then Ok 2
      else if name \<in> {lit ''thu'', lit ''thur'', lit ''thurs'', lit ''thursday''} then Ok 3
      else if name \<in> {lit ''fri'', lit ''friday''} then Ok 4
      else if name \<in> {lit ''sat'', lit ''saturday''} then Ok 5
      else if name \<in> {lit ''sun'', lit ''sunday''} then Ok 6
      else Err DaysSyntax)"

text \<open>
  The loop over a range of days, which wraps over the weekend. \<open>day_index\<close> answers below 7, where
  the loop meets its end within seven rounds; beyond that range the model stops at once.
\<close>

function day_range :: "nat \<Rightarrow> nat \<Rightarrow> 8 word \<Rightarrow> 8 word" where
  "day_range day stop bits =
     (let bits' = bits OR push_bit day 1
      in if day = stop \<or> stop \<ge> 7 then bits' else day_range ((day + 1) mod 7) stop bits')"
  by pat_completeness auto

termination day_range
proof (relation "measure (\<lambda>(day, stop, _). if day < 7 then (stop + 7 - day) mod 7 else 7)")
  fix day stop :: nat and bits bits' :: "8 word"
  assume "\<not> (day = stop \<or> stop \<ge> 7)"
  then have l: "stop < 7" "day \<noteq> stop" by auto
  show "(((day + 1) mod 7, stop, bits'), day, stop, bits)
      \<in> measure (\<lambda>(day, stop, _). if day < 7 then (stop + 7 - day) mod 7 else 7)"
  proof (cases "day < 7")
    case True
    have "((stop + 7 - (day + 1) mod 7) mod 7) < (stop + 7 - day) mod 7"
      using l True by (cases "day = 6") (auto simp: mod_if)
    with True show ?thesis by simp
  qed simp
qed simp

declare day_range.simps [simp del]

fun parse_days :: "rstr list \<Rightarrow> 8 word \<Rightarrow> InvalidSchedule + 8 word" where
  "parse_days [] bits = Ok bits"
| "parse_days (p # ps) bits =
     (let part = trim p in
      case split_once 45 part of
        None \<Rightarrow> and_then (day_index part) (\<lambda>i. parse_days ps (bits OR push_bit i 1))
      | Some (first, second) \<Rightarrow>
          and_then (day_index (trim first)) (\<lambda>start.
          and_then (day_index (trim second)) (\<lambda>stop.
          parse_days ps (day_range start stop bits))))"

definition Weekdays_parse :: "rstr \<Rightarrow> InvalidSchedule + Weekdays" where
  "Weekdays_parse s =
     (let lowered = map to_ascii_lowercase (trim s) in
      if lowered \<in> {lit ''daily'', lit ''everyday'', lit ''every day'', lit ''all'', lit ''*''} then Ok ALL_DAYS
      else if lowered \<in> {lit ''weekdays'', lit ''workdays''} then Ok WORK_DAYS
      else if lowered \<in> {lit ''weekends'', lit ''weekend''} then Ok WEEKEND_DAYS
      else and_then (parse_days (split_on 44 lowered) 0) Weekdays_from_bits)"

fun join_comma :: "rstr list \<Rightarrow> rstr" where
  "join_comma [] = []"
| "join_comma [x] = x"
| "join_comma (x # y # xs) = x @ lit '', '' @ join_comma (y # xs)"

definition Weekdays_describe :: "Weekdays \<Rightarrow> rstr" where
  "Weekdays_describe bits =
     (if bits = ALL_DAYS then lit ''every day''
      else if bits = WORK_DAYS then lit ''weekdays''
      else if bits = WEEKEND_DAYS then lit ''weekends''
      else join_comma (map snd (filter (\<lambda>(index, name). bits AND push_bit index 1 \<noteq> 0)
             (enumerate 0 DAY_ABBREVIATIONS))))"

section \<open>Times of day and quiet hours\<close>

definition parse_digits :: "rstr \<Rightarrow> nat \<Rightarrow> nat \<Rightarrow> InvalidSchedule + nat" where
  "parse_digits part least most =
     (if least \<le> str_len part \<and> str_len part \<le> most \<and> list_all is_ascii_digit part
      then Ok (digits_value part) else Err TimeSyntax)"

definition parse_time_of_day :: "rstr \<Rightarrow> InvalidSchedule + nat" where
  "parse_time_of_day s =
     and_then (ok_or (split_once 58 (trim s)) TimeSyntax) (\<lambda>(h, m).
     and_then (parse_digits h 1 2) (\<lambda>hours.
     and_then (parse_digits m 2 2) (\<lambda>minutes.
     if hours \<ge> 24 \<or> minutes \<ge> 60 then Err TimeSyntax else Ok (hours * 60 + minutes))))"

text \<open>\<open>{:02}\<close> for the numbers below 100 that hours and minutes are.\<close>

definition two_digits :: "nat \<Rightarrow> rstr" where
  "two_digits n = [48 + n div 10, 48 + n mod 10]"

record QuietHours =
  qh_start :: nat
  qh_end :: nat

definition QuietHours_parse :: "rstr \<Rightarrow> InvalidSchedule + QuietHours" where
  "QuietHours_parse s =
     and_then (ok_or (split_once 45 s) TimeSyntax) (\<lambda>(a, b).
     and_then (parse_time_of_day a) (\<lambda>start.
     and_then (parse_time_of_day b) (\<lambda>stop.
     if start = stop then Err TimeSyntax else Ok \<lparr>qh_start = start, qh_end = stop\<rparr>)))"

definition contains_minute :: "QuietHours \<Rightarrow> nat \<Rightarrow> bool" where
  "contains_minute q minute =
     (if qh_start q < qh_end q then minute \<ge> qh_start q \<and> minute < qh_end q
      else minute \<ge> qh_start q \<or> minute < qh_end q)"

definition QuietHours_describe :: "QuietHours \<Rightarrow> rstr" where
  "QuietHours_describe q =
     two_digits (qh_start q div 60) @ lit '':'' @ two_digits (qh_start q mod 60) @ lit ''-'' @
     two_digits (qh_end q div 60) @ lit '':'' @ two_digits (qh_end q mod 60)"

section \<open>Wall clocks\<close>

text \<open>What the source calls of \<open>jiff\<close>.\<close>

record 'z calendar =
  tz_get :: "rstr \<Rightarrow> 'z option"
  iana_name :: "'z \<Rightarrow> rstr option"
  system_zone :: 'z
  timestamp_ok :: "instant \<Rightarrow> bool"
  local_date :: "'z \<Rightarrow> instant \<Rightarrow> int"
  local_minute :: "'z \<Rightarrow> instant \<Rightarrow> nat"
  tomorrow :: "int \<Rightarrow> int option"
  resolve :: "'z \<Rightarrow> int \<Rightarrow> nat \<Rightarrow> nat \<Rightarrow> instant option"

definition is_quiet_at :: "'z calendar \<Rightarrow> QuietHours \<Rightarrow> instant \<Rightarrow> rstr option \<Rightarrow> bool" where
  "is_quiet_at cal q at zone =
     (if \<not> timestamp_ok cal at then False
      else
        let z = (case Option.bind zone (tz_get cal) of Some z \<Rightarrow> z | None \<Rightarrow> system_zone cal)
        in contains_minute q (local_minute cal z at))"

definition MAX_ZONE_NAME_CHARS :: nat where "MAX_ZONE_NAME_CHARS = 64"

definition zone_char :: "uchar \<Rightarrow> bool" where
  "zone_char c \<longleftrightarrow> is_ascii_alphanumeric c \<or> c = 47 \<or> c = 95 \<or> c = 45 \<or> c = 43"

definition canonical_zone :: "'z calendar \<Rightarrow> rstr \<Rightarrow> InvalidSchedule + rstr" where
  "canonical_zone cal n =
     (let name = trim n in
      if \<not> (name \<noteq> [] \<and> length name \<le> MAX_ZONE_NAME_CHARS \<and> list_all zone_char name) then Err UnknownZone
      else and_then (ok_or (tz_get cal name) UnknownZone) (\<lambda>z. ok_or (iana_name cal z) UnknownZone))"

record WallClock =
  minute_of_day :: nat
  wc_days :: Weekdays
  wc_zone :: rstr

definition WallClock_from_parts :: "'z calendar \<Rightarrow> nat \<Rightarrow> Weekdays \<Rightarrow> rstr \<Rightarrow> InvalidSchedule + WallClock" where
  "WallClock_from_parts cal minute days zone =
     (if minute \<ge> 24 * 60 then Err TimeSyntax
      else and_then (canonical_zone cal zone) (\<lambda>z.
        Ok \<lparr>minute_of_day = minute, wc_days = days, wc_zone = z\<rparr>))"

definition WallClock_parse :: "'z calendar \<Rightarrow> rstr \<Rightarrow> rstr option \<Rightarrow> rstr \<Rightarrow> InvalidSchedule + WallClock" where
  "WallClock_parse cal time days zone =
     and_then (case days of None \<Rightarrow> Ok ALL_DAYS | Some d \<Rightarrow> Weekdays_parse d) (\<lambda>days.
     and_then (parse_time_of_day time) (\<lambda>minute.
     WallClock_from_parts cal minute days zone))"

definition WallClock_describe :: "WallClock \<Rightarrow> rstr" where
  "WallClock_describe c =
     two_digits (minute_of_day c div 60) @ lit '':'' @ two_digits (minute_of_day c mod 60) @ lit '' on '' @
     Weekdays_describe (wc_days c) @ lit '' ('' @ wc_zone c @ lit '')''"

definition weekday :: "int \<Rightarrow> nat" where
  "weekday date = nat (date mod 7)"

text \<open>The rounds left of the bounded search, the date it is at and the instant to get past.\<close>

fun search_day ::
  "'z calendar \<Rightarrow> (int \<Rightarrow> bool) \<Rightarrow> 'z \<Rightarrow> WallClock \<Rightarrow> instant \<Rightarrow> nat \<Rightarrow> int \<Rightarrow> instant option" where
  "search_day cal rep z c after 0 date = None"
| "search_day cal rep z c after (Suc n) date =
     (let onward = Option.bind (tomorrow cal date) (search_day cal rep z c after n) in
      if weekdays_contains (wc_days c) (weekday date) then
        Option.bind (resolve cal z date (minute_of_day c div 60) (minute_of_day c mod 60)) (\<lambda>t.
          if t > after then (case from_unix_nanos rep t of Inr u \<Rightarrow> Some u | Inl _ \<Rightarrow> None)
          else onward)
      else onward)"

definition WallClock_next_after ::
  "'z calendar \<Rightarrow> (int \<Rightarrow> bool) \<Rightarrow> WallClock \<Rightarrow> instant \<Rightarrow> instant option" where
  "WallClock_next_after cal rep c after =
     Option.bind (tz_get cal (wc_zone c)) (\<lambda>z.
       if \<not> timestamp_ok cal after then None
       else search_day cal rep z c after 15 (local_date cal z after))"

section \<open>Cadences\<close>

datatype Cadence = Every nat | Once instant | Daily WallClock

definition every_seconds :: "nat \<Rightarrow> InvalidSchedule + Cadence" where
  "every_seconds seconds =
     (if seconds < MIN_INTERVAL_SECONDS then Err IntervalTooShort
      else if seconds > MAX_INTERVAL_SECONDS then Err IntervalTooLong
      else Ok (Every seconds))"

definition once_at :: "instant \<Rightarrow> instant \<Rightarrow> InvalidSchedule + Cadence" where
  "once_at at now = (if at \<le> now then Err InThePast else Ok (Once at))"

text \<open>\<open>u64\<close> amounts: a literal beyond the width does not parse, a product beyond it is too long.\<close>

definition interval_unit :: "rstr \<Rightarrow> InvalidSchedule + nat" where
  "interval_unit u =
     (if u = lit ''s'' then Ok 1 else if u = lit ''m'' then Ok 60
      else if u = lit ''h'' then Ok 3600 else if u = lit ''d'' then Ok 86400
      else Err IntervalSyntax)"

definition parse_interval :: "rstr \<Rightarrow> InvalidSchedule + nat" where
  "parse_interval s =
     (let t = trim s; digits = takeWhile is_ascii_digit t; unit = dropWhile is_ascii_digit t in
      if unit = [] then Err IntervalSyntax
      else if digits = [] \<or> digits_value digits \<ge> 2 ^ 64 then Err IntervalSyntax
      else and_then (interval_unit unit) (\<lambda>multiplier.
        let seconds = digits_value digits * multiplier in
        if seconds \<ge> 2 ^ 64 then Err IntervalTooLong
        else map_ok (\<lambda>_. seconds) (every_seconds seconds)))"

definition Cadence_from_request ::
  "'z calendar \<Rightarrow> rstr option \<Rightarrow> instant option \<Rightarrow> rstr option \<Rightarrow> rstr option \<Rightarrow> rstr option \<Rightarrow> instant
    \<Rightarrow> InvalidSchedule + Cadence" where
  "Cadence_from_request cal every at at_time days zone now =
     (case (every, at, at_time) of
        (Some e, None, None) \<Rightarrow>
          if days \<noteq> None \<or> zone \<noteq> None then Err DailyFieldsWithoutTime
          else and_then (parse_interval e) every_seconds
      | (None, Some t, None) \<Rightarrow>
          if days \<noteq> None \<or> zone \<noteq> None then Err DailyFieldsWithoutTime
          else once_at t now
      | (None, None, Some time) \<Rightarrow>
          and_then (case zone of Some z \<Rightarrow> Ok z
                    | None \<Rightarrow> ok_or (iana_name cal (system_zone cal)) ZoneRequired) (\<lambda>z.
          map_ok Daily (WallClock_parse cal time days z))
      | _ \<Rightarrow> Err ExactlyOneCadence)"

text \<open>The \<open>i128\<close> sums of an instant and a \<open>u64\<close> of seconds stay far from saturation.\<close>

definition advance :: "(int \<Rightarrow> bool) \<Rightarrow> instant \<Rightarrow> nat \<Rightarrow> instant" where
  "advance rep from_time seconds =
     (case from_unix_nanos rep (from_time + int seconds * 1000000000) of Inr t \<Rightarrow> t | Inl _ \<Rightarrow> from_time)"

definition first_fire :: "'z calendar \<Rightarrow> (int \<Rightarrow> bool) \<Rightarrow> Cadence \<Rightarrow> instant \<Rightarrow> instant" where
  "first_fire cal rep c created =
     (case c of
        Every seconds \<Rightarrow> advance rep created seconds
      | Once at \<Rightarrow> at
      | Daily clock \<Rightarrow> (case WallClock_next_after cal rep clock created of Some t \<Rightarrow> t | None \<Rightarrow> created))"

definition Cadence_next_after :: "'z calendar \<Rightarrow> (int \<Rightarrow> bool) \<Rightarrow> Cadence \<Rightarrow> instant \<Rightarrow> instant option" where
  "Cadence_next_after cal rep c now =
     (case c of
        Every seconds \<Rightarrow> Some (advance rep now seconds)
      | Once at \<Rightarrow> None
      | Daily clock \<Rightarrow> WallClock_next_after cal rep clock now)"

definition validate_objective :: "rstr \<Rightarrow> InvalidSchedule + rstr" where
  "validate_objective objective =
     (let trimmed = trim objective in
      if trimmed = [] then Err EmptyObjective
      else if length trimmed > MAX_SCHEDULE_OBJECTIVE_CHARS then Err ObjectiveTooLong
      else Ok trimmed)"

section \<open>Lemmas\<close>

subsection \<open>Weekday sets\<close>

lemma weekdays_contains_bit: "weekdays_contains w i \<longleftrightarrow> bit w i"
  by (simp add: weekdays_contains_def bit_iff_and_push_bit_not_eq_0)

lemma from_bits_bit:
  assumes "Weekdays_from_bits b = Ok w" "bit w i"
  shows "i < 7"
proof (rule ccontr)
  assume "\<not> i < 7"
  moreover have "i < 8" using bit_imp_le_length [OF assms(2)] by simp
  ultimately have "i = 7" by simp
  with assms(2) have "bit (unat w) 7" by (simp add: bit_unsigned_iff)
  then have "odd (unat w div 128)" by (simp add: bit_iff_odd)
  moreover have "unat w \<le> 127"
    using assms(1) by (auto simp: Weekdays_from_bits_def ALL_DAYS_def word_le_nat_alt not_less split: if_splits)
  ultimately show False by simp
qed

lemma weekday_nonempty:
  assumes "Weekdays_from_bits b = Ok w"
  shows "\<exists>i < 7. weekdays_contains w i"
proof -
  have "w \<noteq> 0" using assms by (auto simp: Weekdays_from_bits_def split: if_splits)
  then obtain i where "bit w i" by (auto simp: bit_eq_iff)
  with from_bits_bit [OF assms] show ?thesis by (auto simp: weekdays_contains_bit)
qed

lemma weekday_reached:
  assumes "i < 7"
  shows "\<exists>k < 7. weekday (d + int k) = i"
proof -
  let ?k = "nat ((int i - d) mod 7)"
  have "(d + (int i - d) mod 7) mod 7 = int i mod 7" by (simp add: mod_simps)
  then have "weekday (d + int ?k) = i" using assms by (simp add: weekday_def)
  moreover have "?k < 7" by (simp add: nat_less_iff)
  ultimately show ?thesis by blast
qed

subsection \<open>The search for the next day\<close>

text \<open>
  The laws of the calendar the search relies on, for one zone and time of day: dates go on, every
  date has an instant for the time of day and it can be stored, a later date never has an earlier
  instant, and a date two days on is in the future.
\<close>

definition calendar_laws :: "'z calendar \<Rightarrow> (int \<Rightarrow> bool) \<Rightarrow> 'z \<Rightarrow> nat \<Rightarrow> bool" where
  "calendar_laws cal rep z minute \<longleftrightarrow>
     (\<forall>d. tomorrow cal d = Some (d + 1))
     \<and> (\<forall>d. \<exists>t. resolve cal z d (minute div 60) (minute mod 60) = Some t \<and> rep t)
     \<and> (\<forall>d e t u. d \<le> e \<longrightarrow> resolve cal z d (minute div 60) (minute mod 60) = Some t
          \<longrightarrow> resolve cal z e (minute div 60) (minute mod 60) = Some u \<longrightarrow> t \<le> u)
     \<and> (\<forall>a d t. local_date cal z a + 2 \<le> d \<longrightarrow> resolve cal z d (minute div 60) (minute mod 60) = Some t
          \<longrightarrow> a < t)"

abbreviation fire_on :: "'z calendar \<Rightarrow> 'z \<Rightarrow> WallClock \<Rightarrow> int \<Rightarrow> instant option" where
  "fire_on cal z c d \<equiv> resolve cal z d (minute_of_day c div 60) (minute_of_day c mod 60)"

abbreviation fires_on :: "WallClock \<Rightarrow> int \<Rightarrow> bool" where
  "fires_on c d \<equiv> weekdays_contains (wc_days c) (weekday d)"

lemma search_day_sound:
  assumes "\<And>d. tomorrow cal d = Some (d + 1)" "search_day cal rep z c after n d = Some t"
  shows "\<exists>k < n. fires_on c (d + int k) \<and> fire_on cal z c (d + int k) = Some t \<and> after < t \<and> rep t
    \<and> (\<forall>j < k. fires_on c (d + int j) \<longrightarrow> (\<exists>u. fire_on cal z c (d + int j) = Some u \<and> u \<le> after))"
  using assms(2)
proof (induction n arbitrary: d)
  case (Suc n)
  show ?case
  proof (cases "fires_on c d \<and> (\<exists>u. fire_on cal z c d = Some u \<and> after < u)")
    case True
    with Suc.prems have "fire_on cal z c d = Some t \<and> after < t \<and> rep t"
      by (auto simp: assms(1) Let_def from_unix_nanos_def split: if_splits sum.splits)
    with True show ?thesis by (intro exI [of _ 0]) simp
  next
    case False
    with Suc.prems have rec: "search_day cal rep z c after n (d + 1) = Some t"
      and here: "fires_on c d \<longrightarrow> (\<exists>u. fire_on cal z c d = Some u \<and> u \<le> after)"
      by (auto simp: assms(1) Let_def bind_eq_Some_conv split: if_splits)
    obtain k where k: "k < n" "fires_on c (d + 1 + int k)" "fire_on cal z c (d + 1 + int k) = Some t"
      "after < t" "rep t"
      "\<forall>j < k. fires_on c (d + 1 + int j) \<longrightarrow> (\<exists>u. fire_on cal z c (d + 1 + int j) = Some u \<and> u \<le> after)"
      using Suc.IH [OF rec] by blast
    have "\<forall>j < Suc k. fires_on c (d + int j) \<longrightarrow> (\<exists>u. fire_on cal z c (d + int j) = Some u \<and> u \<le> after)"
    proof (intro allI impI)
      fix j assume j: "j < Suc k" "fires_on c (d + int j)"
      show "\<exists>u. fire_on cal z c (d + int j) = Some u \<and> u \<le> after"
      proof (cases j)
        case 0
        with here j(2) show ?thesis by simp
      next
        case (Suc i)
        with k(6) j have "i < k" "fires_on c (d + 1 + int i)" by (simp_all add: add.assoc)
        with k(6) Suc show ?thesis by (simp add: add.assoc)
      qed
    qed
    with k show ?thesis by (intro exI [of _ "Suc k"]) (simp add: add.assoc)
  qed
qed simp

lemma search_day_total:
  assumes "\<And>d. tomorrow cal d = Some (d + 1)" "\<And>d. \<exists>t. fire_on cal z c d = Some t \<and> rep t"
    and "k < n" "fires_on c (d + int k)" "\<And>t. fire_on cal z c (d + int k) = Some t \<Longrightarrow> after < t"
  shows "\<exists>t. search_day cal rep z c after n d = Some t"
  using assms(3-5)
proof (induction n arbitrary: d k)
  case (Suc n)
  obtain u where u: "fire_on cal z c d = Some u" "rep u" using assms(2) by blast
  show ?case
  proof (cases "fires_on c d \<and> after < u")
    case True
    then show ?thesis using u by (simp add: from_unix_nanos_def Let_def)
  next
    case False
    then obtain i where i: "k = Suc i" using Suc.prems u(1) by (cases k) auto
    have "\<exists>t. search_day cal rep z c after n (d + 1) = Some t"
      using Suc.prems i by (intro Suc.IH [of i]) (simp_all add: add.assoc)
    then show ?thesis using False u by (auto simp: assms(1) Let_def)
  qed
qed simp

subsection \<open>Text forms\<close>

text \<open>The names \<open>describe\<close> writes, and what the parser makes of them.\<close>

lemma day_names:
  assumes "i < 7"
  shows "day_index (DAY_ABBREVIATIONS ! i) = Ok i" "44 \<notin> set (DAY_ABBREVIATIONS ! i)"
    "45 \<notin> set (DAY_ABBREVIATIONS ! i)" "trim (DAY_ABBREVIATIONS ! i) = DAY_ABBREVIATIONS ! i"
    "trim (32 # DAY_ABBREVIATIONS ! i) = DAY_ABBREVIATIONS ! i"
    "map to_ascii_lowercase (DAY_ABBREVIATIONS ! i) = DAY_ABBREVIATIONS ! i"
    "DAY_ABBREVIATIONS ! i \<notin> {lit ''daily'', lit ''everyday'', lit ''every day'', lit ''all'', lit ''*'',
       lit ''weekdays'', lit ''workdays'', lit ''weekends'', lit ''weekend''}"
proof -
  have "i \<in> {0, 1, 2, 3, 4, 5, 6}" using assms by auto
  then show "day_index (DAY_ABBREVIATIONS ! i) = Ok i"
    by (auto simp: DAY_ABBREVIATIONS_def day_index_def)
  show "44 \<notin> set (DAY_ABBREVIATIONS ! i)" "45 \<notin> set (DAY_ABBREVIATIONS ! i)"
    "trim (DAY_ABBREVIATIONS ! i) = DAY_ABBREVIATIONS ! i"
    "trim (32 # DAY_ABBREVIATIONS ! i) = DAY_ABBREVIATIONS ! i"
    "map to_ascii_lowercase (DAY_ABBREVIATIONS ! i) = DAY_ABBREVIATIONS ! i"
    "DAY_ABBREVIATIONS ! i \<notin> {lit ''daily'', lit ''everyday'', lit ''every day'', lit ''all'', lit ''*'',
       lit ''weekdays'', lit ''workdays'', lit ''weekends'', lit ''weekend''}"
    using \<open>i \<in> {0, 1, 2, 3, 4, 5, 6}\<close>
    by (auto simp: DAY_ABBREVIATIONS_def lit_def trim_def is_whitespace_def to_ascii_lowercase_def
        is_ascii_uppercase_def)
qed

lemma split_on_no: "d \<notin> set s \<Longrightarrow> split_on d s = [s]"
  by (induction s) auto

lemma split_on_append: "d \<notin> set a \<Longrightarrow> split_on d (a @ d # b) = a # split_on d b"
  by (induction a) auto

lemma split_join:
  "ns \<noteq> [] \<Longrightarrow> \<forall>n \<in> set ns. 44 \<notin> set n
    \<Longrightarrow> split_on 44 (join_comma ns) = hd ns # map (\<lambda>n. 32 # n) (tl ns)
      \<and> split_on 44 (32 # join_comma ns) = map (\<lambda>n. 32 # n) ns"
proof (induction ns rule: join_comma.induct)
  case (3 x y xs)
  have c: "lit '', '' = [44, 32]" by (simp add: lit_def)
  have "split_on 44 (x @ 44 # 32 # join_comma (y # xs)) = x # split_on 44 (32 # join_comma (y # xs))"
    "split_on 44 ((32 # x) @ 44 # 32 # join_comma (y # xs)) = (32 # x) # split_on 44 (32 # join_comma (y # xs))"
    using 3 by (intro split_on_append; simp)+
  with 3 show ?case by (simp add: c)
qed (auto simp: split_on_no)

definition or_days :: "8 word \<Rightarrow> nat list \<Rightarrow> 8 word" where
  "or_days = foldl (\<lambda>b i. b OR push_bit i 1)"

lemma parse_days_names:
  assumes "\<forall>i \<in> set is. i < 7"
    and "ps = map (\<lambda>i. DAY_ABBREVIATIONS ! i) is \<or> ps = map (\<lambda>i. 32 # DAY_ABBREVIATIONS ! i) is"
  shows "parse_days ps b = Ok (or_days b is)"
  using assms
proof (induction "is" arbitrary: ps b)
  case (Cons i "is")
  have i: "i < 7" using Cons.prems(1) by simp
  obtain p qs where ps: "ps = p # qs" "trim p = DAY_ABBREVIATIONS ! i"
    "qs = map (\<lambda>i. DAY_ABBREVIATIONS ! i) is \<or> qs = map (\<lambda>i. 32 # DAY_ABBREVIATIONS ! i) is"
    using Cons.prems(2) day_names(4,5) [OF i] by auto
  have "split_once 45 (DAY_ABBREVIATIONS ! i) = None"
    using day_names(3) [OF i] by (simp add: split_once_None)
  then show ?case
    using Cons.IH [OF _ ps(3)] Cons.prems(1) day_names(1) [OF i] by (simp add: ps(1,2) or_days_def)
qed (simp add: or_days_def)

lemma bit_or_days: "\<forall>i \<in> set is. i < 7 \<Longrightarrow> bit (or_days b is) n \<longleftrightarrow> bit b n \<or> n \<in> set is"
  for b :: "8 word"
proof (induction "is" arbitrary: b)
  case (Cons i "is")
  have "bit (or_days b (i # is)) n \<longleftrightarrow> bit (b OR push_bit i 1) n \<or> n \<in> set is"
    using Cons by (simp add: or_days_def)
  also have "bit (b OR push_bit i 1 :: 8 word) n \<longleftrightarrow> bit b n \<or> n = i"
    using Cons.prems by (auto simp: bit_or_iff bit_exp_iff)
  finally show ?case by auto
qed (simp add: or_days_def)

lemma enumerate_names:
  "map snd (filter (\<lambda>(index, name). P index) (enumerate 0 DAY_ABBREVIATIONS))
     = map (\<lambda>i. DAY_ABBREVIATIONS ! i) (filter P [0..<7])"
  by (simp add: DAY_ABBREVIATIONS_def upt_rec)

lemma join_lower:
  "\<forall>n \<in> set ns. map to_ascii_lowercase n = n \<Longrightarrow> map to_ascii_lowercase (join_comma ns) = join_comma ns"
  by (induction ns rule: join_comma.induct)
     (auto simp: lit_def to_ascii_lowercase_def is_ascii_uppercase_def)

lemma join_ends:
  "ns \<noteq> [] \<Longrightarrow> \<forall>n \<in> set ns. n \<noteq> [] \<Longrightarrow>
    join_comma ns \<noteq> [] \<and> hd (join_comma ns) = hd (hd ns) \<and> last (join_comma ns) = last (last ns)"
  by (induction ns rule: join_comma.induct) (auto simp: lit_def)

lemma join_comma_many: "length ns \<ge> 2 \<Longrightarrow> 44 \<in> set (join_comma ns)"
  by (induction ns rule: join_comma.induct) (auto simp: lit_def)

lemma day_name_ends:
  assumes "i < 7"
  shows "DAY_ABBREVIATIONS ! i \<noteq> [] \<and> \<not> is_whitespace (hd (DAY_ABBREVIATIONS ! i))
    \<and> \<not> is_whitespace (last (DAY_ABBREVIATIONS ! i))"
proof -
  have "i \<in> {0, 1, 2, 3, 4, 5, 6}" using assms by auto
  then show ?thesis by (auto simp: DAY_ABBREVIATIONS_def lit_def is_whitespace_def)
qed

text \<open>A list of day names reads back as the set of those days.\<close>

lemma parse_day_list:
  assumes "is \<noteq> []" "\<forall>i \<in> set is. i < 7"
  defines "s \<equiv> join_comma (map (\<lambda>i. DAY_ABBREVIATIONS ! i) is)"
  shows "Weekdays_parse s = Weekdays_from_bits (or_days 0 is)"
proof -
  let ?ns = "map (\<lambda>i. DAY_ABBREVIATIONS ! i) is"
  have ns: "?ns \<noteq> []" "\<forall>n \<in> set ?ns. 44 \<notin> set n" "\<forall>n \<in> set ?ns. map to_ascii_lowercase n = n"
    "\<forall>n \<in> set ?ns. n \<noteq> []"
    using assms(1,2) day_names(2,6) day_name_ends by auto
  have "hd is < 7" "last is < 7" using assms(1,2) by simp_all
  then have "\<not> is_whitespace (hd s)" "\<not> is_whitespace (last s)" "s \<noteq> []"
    using join_ends [OF ns(1,4)] day_name_ends assms(1) by (simp_all add: s_def hd_map last_map)
  then have "trim s = s" by (intro trim_id) auto
  moreover have "map to_ascii_lowercase s = s" unfolding s_def by (rule join_lower [OF ns(3)])
  moreover have "s \<notin> {lit ''daily'', lit ''everyday'', lit ''every day'', lit ''all'', lit ''*'',
       lit ''weekdays'', lit ''workdays'', lit ''weekends'', lit ''weekend''}"
  proof (cases "length is \<ge> 2")
    case True
    then have "44 \<in> set s" unfolding s_def by (intro join_comma_many) simp
    then show ?thesis by (auto simp: lit_def)
  next
    case False
    with assms(1) obtain i where "is = [i]" by (cases "is") (auto simp: Suc_le_eq)
    then show ?thesis using day_names(7) [of i] assms(2) by (simp add: s_def)
  qed
  moreover have "parse_days (split_on 44 s) 0 = Ok (or_days 0 is)"
  proof -
    obtain i js where "is": "is = i # js" using assms(1) by (cases "is") auto
    have i: "i < 7" "\<forall>j \<in> set js. j < 7" using assms(2) "is" by auto
    have "split_on 44 s = DAY_ABBREVIATIONS ! i # map (\<lambda>i. 32 # DAY_ABBREVIATIONS ! i) js"
      using split_join [OF ns(1,2)] by (simp add: s_def "is")
    moreover have "parse_days (map (\<lambda>i. 32 # DAY_ABBREVIATIONS ! i) js) (push_bit i 1)
        = Ok (or_days (push_bit i 1) js)"
      using parse_days_names [OF i(2)] by blast
    ultimately show ?thesis
      using day_names(1,3,4) [OF i(1)]
      by (simp add: "is" or_days_def split_once_None [THEN iffD2])
  qed
  ultimately show ?thesis by (simp add: Weekdays_parse_def Let_def)
qed

lemma weekdays_round_trip:
  assumes "Weekdays_from_bits b = Ok w"
  shows "Weekdays_parse (Weekdays_describe w) = Ok w"
proof (cases "w = ALL_DAYS \<or> w = WORK_DAYS \<or> w = WEEKEND_DAYS")
  case True
  have "trim (lit ''every day'') = lit ''every day''" "trim (lit ''weekdays'') = lit ''weekdays''"
    "trim (lit ''weekends'') = lit ''weekends''"
    "map to_ascii_lowercase (lit ''every day'') = lit ''every day''"
    "map to_ascii_lowercase (lit ''weekdays'') = lit ''weekdays''"
    "map to_ascii_lowercase (lit ''weekends'') = lit ''weekends''"
    by (simp_all add: trim_def lit_def is_whitespace_def to_ascii_lowercase_def is_ascii_uppercase_def)
  moreover have "WORK_DAYS \<noteq> ALL_DAYS" "WEEKEND_DAYS \<noteq> ALL_DAYS" "WEEKEND_DAYS \<noteq> WORK_DAYS"
    by (simp_all add: ALL_DAYS_def WORK_DAYS_def WEEKEND_DAYS_def)
  ultimately show ?thesis using True by (auto simp: Weekdays_describe_def Weekdays_parse_def)
next
  case False
  let ?is = "filter (\<lambda>i. w AND push_bit i 1 \<noteq> 0) [0..<7]"
  have bits: "i \<in> set ?is \<longleftrightarrow> bit w i" for i
    using from_bits_bit [OF assms, of i] weekdays_contains_bit [of w i]
    by (auto simp: weekdays_contains_def)
  have "bit (or_days 0 ?is) n \<longleftrightarrow> bit w n" for n
    using bit_or_days [of ?is 0 n] bits [of n] by auto
  then have "or_days 0 ?is = w" by (intro bit_eqI) blast
  moreover have "?is \<noteq> []"
    using weekday_nonempty [OF assms] bits by (auto simp: weekdays_contains_bit simp del: set_filter)
  moreover have "Weekdays_describe w = join_comma (map (\<lambda>i. DAY_ABBREVIATIONS ! i) ?is)"
    using False by (simp add: Weekdays_describe_def enumerate_names)
  moreover have "\<forall>i \<in> set ?is. i < 7" by simp
  ultimately have "Weekdays_parse (Weekdays_describe w) = Weekdays_from_bits w"
    using parse_day_list [of ?is] by metis
  also have "\<dots> = Ok w" using assms by (auto simp: Weekdays_from_bits_def split: if_splits)
  finally show ?thesis .
qed

lemma time_round_trip:
  assumes "m < 24 * 60"
  shows "parse_time_of_day (two_digits (m div 60) @ [58] @ two_digits (m mod 60)) = Ok m"
proof -
  let ?s = "two_digits (m div 60) @ [58] @ two_digits (m mod 60)"
  have h: "m div 60 < 24" using assms by auto
  have d: "m div 60 div 10 < 10" "m mod 60 div 10 < 10" using h by auto
  have ws: "\<not> is_whitespace (48 + n)" if "n < 10" for n :: nat using that by (simp add: is_whitespace_def)
  have t: "trim ?s = ?s" using ws d by (intro trim_id) (auto simp: two_digits_def)
  have sp: "split_once 58 ?s = Some (two_digits (m div 60), two_digits (m mod 60))"
    using d by (simp add: two_digits_def)
  have v: "parse_digits (two_digits n) l 2 = Ok n" if "n < 100" "l \<le> 2" for n l
  proof -
    have "n div 10 < 10" using that(1) by auto
    then have "str_len (two_digits n) = 2" "list_all is_ascii_digit (two_digits n)"
      by (auto simp: two_digits_def utf8_width_def is_ascii_digit_def)
    then show ?thesis using that(2) by (simp add: parse_digits_def digits_value_def two_digits_def)
  qed
  have "m div 60 * 60 + m mod 60 = m" by simp
  then show ?thesis
    using h unfolding parse_time_of_day_def t sp by (simp add: v)
qed


lemma cadence_from_request_cases:
  assumes "Cadence_from_request cal every at at_time days zone now = Ok c"
  obtains (Every) n where "c = Every n" "MIN_INTERVAL_SECONDS \<le> n" "n \<le> MAX_INTERVAL_SECONDS"
  | (Once) t where "c = Once t" "now < t"
  | (Daily) w where "c = Daily w" "minute_of_day w < 24 * 60"
proof -
  have wall: "minute_of_day w < 24 * 60" if "WallClock_parse cal time days z = Ok w" for w time z
    using that by (auto simp: WallClock_parse_def WallClock_from_parts_def split: if_splits)
  show thesis
    using assms that wall
    by (auto simp: Cadence_from_request_def every_seconds_def once_at_def not_less not_le
        split: option.splits if_splits sum.splits)
qed

section \<open>Properties\<close>


text \<open>The calendar of a zone without offset, for closed examples.\<close>

definition utc_calendar :: "unit calendar" where
  "utc_calendar = \<lparr>tz_get = (\<lambda>_. Some ()), iana_name = (\<lambda>_. Some (lit ''UTC'')), system_zone = (),
     timestamp_ok = (\<lambda>_. True), local_date = (\<lambda>_ a. a div 86400000000000 + 3),
     local_minute = (\<lambda>_ a. nat (a mod 86400000000000 div 60000000000)), tomorrow = (\<lambda>d. Some (d + 1)),
     resolve = (\<lambda>_ d h m. Some ((d - 3) * 86400000000000 + int (h * 60 + m) * 60000000000))\<rparr>"

definition sample_clock :: WallClock where
  "sample_clock = \<lparr>minute_of_day = 480, wc_days = WORK_DAYS, wc_zone = lit ''UTC''\<rparr>"

lemma utc_laws: "calendar_laws utc_calendar (\<lambda>_. True) () 480"
proof -
  have "a < (d - 3) * 86400000000000 + 28800000000000" if "a div 86400000000000 + 5 \<le> d" for a d :: int
  proof -
    have "(a div 86400000000000 + 2) * 86400000000000 \<le> (d - 3) * 86400000000000" using that by simp
    moreover have "a = a div 86400000000000 * 86400000000000 + a mod 86400000000000" by simp
    moreover have "a mod 86400000000000 < 86400000000000" by simp
    ultimately show ?thesis by (simp add: distrib_right)
  qed
  then show ?thesis by (simp add: calendar_laws_def utc_calendar_def)
qed


text \<open>A backlog is skipped, never replayed. Whatever a request asks for and whenever the task last
  ran, the next fire of an accepted cadence is measured from that run: strictly later for a daily
  time, later by the whole interval, which is between a minute and 366 days, for a repeating task
  that stays in the representable range, and none for a one-off, which fires in the future of its
  creation.\<close>

theorem backlog_skipped:
  assumes "Cadence_from_request cal every at at_time days zone created = Ok c"
    and "\<And>d. tomorrow cal d = Some (d + 1)"
  shows "(case c of
      Every n \<Rightarrow> 60 \<le> n \<and> n \<le> 366 * 86400
        \<and> (rep (now + int n * 1000000000) \<longrightarrow>
            Cadence_next_after cal rep c now = Some (now + int n * 1000000000))
    | Once t \<Rightarrow> created < t \<and> first_fire cal rep c created = t \<and> Cadence_next_after cal rep c now = None
    | Daily w \<Rightarrow> minute_of_day w < 1440
        \<and> (\<forall>t. Cadence_next_after cal rep c now = Some t \<longrightarrow> now < t))"
  using assms(1)
proof (cases rule: cadence_from_request_cases)
  case (Daily w)
  have "now < t" if "Cadence_next_after cal rep c now = Some t" for t
    using that search_day_sound [OF assms(2)]
    by (fastforce simp: Daily Cadence_next_after_def WallClock_next_after_def bind_eq_Some_conv
        split: if_splits)
  with Daily show ?thesis by simp
qed (auto simp: MIN_INTERVAL_SECONDS_def MAX_INTERVAL_SECONDS_def Cadence_next_after_def advance_def
    first_fire_def from_unix_nanos_def)

theorem backlog_skipped_witness:
  "Cadence_next_after utc_calendar (\<lambda>_. True) (Every 90) 0 = Some 90000000000"
proof -
  have "trim (lit ''90s'') = lit ''90s''" by (simp add: trim_def lit_def is_whitespace_def)
  then have "Cadence_from_request utc_calendar (Some (lit ''90s'')) None None None None 0 = Ok (Every 90)"
    by (simp add: Cadence_from_request_def parse_interval_def lit_def is_ascii_digit_def
        digits_value_def interval_unit_def every_seconds_def MIN_INTERVAL_SECONDS_def
        MAX_INTERVAL_SECONDS_def)
  from backlog_skipped [OF this, of "\<lambda>_. True" 0] show ?thesis by (simp add: utc_calendar_def)
qed

text \<open>What the schedule screen shows reads back as what it shows. The description of every valid
  set of days parses to that set, the description of every window of quiet hours parses to that
  window, and a window and its reverse share the day between them, minute by minute.\<close>

theorem schedule_text_round_trip:
  assumes "Weekdays_from_bits b = Ok w" "qh_start q < 1440" "qh_end q < 1440" "qh_start q \<noteq> qh_end q"
  shows "Weekdays_parse (Weekdays_describe w) = Ok w \<and> QuietHours_parse (QuietHours_describe q) = Ok q
    \<and> (contains_minute q m \<longleftrightarrow> \<not> contains_minute \<lparr>qh_start = qh_end q, qh_end = qh_start q\<rparr> m)"
proof -
  let ?t = "\<lambda>m. two_digits (m div 60) @ [58] @ two_digits (m mod 60)"
  have lits: "lit '':'' = [58]" "lit ''-'' = [45]" by (simp_all add: lit_def)
  have "split_once 45 (?t (qh_start q) @ [45] @ ?t (qh_end q)) = Some (?t (qh_start q), ?t (qh_end q))"
    by (simp add: two_digits_def)
  then have "QuietHours_parse (QuietHours_describe q) = Ok q"
    using time_round_trip [of "qh_start q"] time_round_trip [of "qh_end q"] assms(2-4)
    by (simp add: QuietHours_parse_def QuietHours_describe_def lits)
  moreover have "contains_minute q m \<longleftrightarrow> \<not> contains_minute \<lparr>qh_start = qh_end q, qh_end = qh_start q\<rparr> m"
    using assms(4) by (auto simp: contains_minute_def)
  ultimately show ?thesis using weekdays_round_trip [OF assms(1)] by simp
qed

theorem schedule_text_round_trip_witness:
  "QuietHours_parse (QuietHours_describe \<lparr>qh_start = 1320, qh_end = 420\<rparr>)
     = Ok \<lparr>qh_start = 1320, qh_end = 420\<rparr> \<and> Weekdays_parse (Weekdays_describe WORK_DAYS) = Ok WORK_DAYS"
proof -
  have "Weekdays_from_bits WORK_DAYS = Ok WORK_DAYS"
    by (simp add: Weekdays_from_bits_def WORK_DAYS_def ALL_DAYS_def)
  from schedule_text_round_trip [OF this, of "\<lparr>qh_start = 1320, qh_end = 420\<rparr>"] show ?thesis by simp
qed

text \<open>Past the representable range an interval does not saturate: the next fire is the present one.\<close>

theorem advance_stalls:
  "\<not> rep (now + int n * 1000000000) \<Longrightarrow> Cadence_next_after cal rep (Every n) now = Some now"
  by (simp add: Cadence_next_after_def advance_def from_unix_nanos_def)

end
