(* ===== verification/Tool_Schema.thy ===== *)
theory Tool_Schema
  imports Core_Values Ordered_Map "HOL-Library.List_Lexorder"
begin

text \<open>
  Tool schemas and the documents they may compose against (\<open>jarvis-tools/src/schema.rs\<close>,
  \<open>documents.rs\<close>). Parsing and printing JSON and compiling and running a validator are the
  \<open>serde_json\<close> and \<open>jsonschema\<close> crates' and are arguments: a parser of text, the size of a printed
  document, the registry check, and a compiler from a document to a validator, which lists the
  errors of an instance as pairs of an instance path and a keyword.
\<close>

definition TOOL_SCHEMA_DIALECT :: rstr where
  "TOOL_SCHEMA_DIALECT = lit ''https://json-schema.org/draft/2020-12/schema''"

definition MAX_TOOL_SCHEMA_BYTES :: nat where "MAX_TOOL_SCHEMA_BYTES = 64 * 1024"

definition MAX_REPORTED_VIOLATIONS :: nat where "MAX_REPORTED_VIOLATIONS = 16"

definition MAX_SUPPLIED_DOCUMENTS :: nat where "MAX_SUPPLIED_DOCUMENTS = 64"

datatype SchemaError = NotJson | Schema_NotAnObject | Schema_TooLarge | Schema_WrongDialect "rstr option"
  | ExternalReference rstr | InvalidSchema rstr

datatype DocumentError = Document_NotAnObject | Document_TooLarge | Document_WrongDialect | MissingId
  | DuplicateId rstr | TooManyDocuments

section \<open>Supplied documents\<close>

definition as_str :: "json \<Rightarrow> rstr option" where
  "as_str v = (case v of JString s \<Rightarrow> Some s | _ \<Rightarrow> None)"

text \<open>\<open>Map::get\<close> followed by \<open>Value::as_str\<close>.\<close>

definition get_str :: "(rstr \<times> json) list \<Rightarrow> rstr \<Rightarrow> rstr option" where
  "get_str object key = Option.bind (map_of object key) as_str"

type_synonym DocumentSet = "(rstr, json) btree_map"

definition DocumentSet_new :: DocumentSet where
  "DocumentSet_new = []"

definition DocumentSet_insert ::
  "(json \<Rightarrow> nat) \<Rightarrow> DocumentSet \<Rightarrow> json \<Rightarrow> DocumentSet \<times> (DocumentError + unit)" where
  "DocumentSet_insert encoded_len documents document =
     (case document of
        JObject object \<Rightarrow>
          if encoded_len document > MAX_TOOL_SCHEMA_BYTES then (documents, Err Document_TooLarge)
          else if get_str object (lit ''$schema'') \<noteq> Some TOOL_SCHEMA_DIALECT
          then (documents, Err Document_WrongDialect)
          else (case get_str object (lit ''$id'') of
              None \<Rightarrow> (documents, Err MissingId)
            | Some name \<Rightarrow>
                if bt_contains documents name then (documents, Err (DuplicateId name))
                else if length documents \<ge> MAX_SUPPLIED_DOCUMENTS then (documents, Err TooManyDocuments)
                else (bt_insert name document documents, Ok ()))
      | _ \<Rightarrow> (documents, Err Document_NotAnObject))"

definition resolves :: "DocumentSet \<Rightarrow> rstr \<Rightarrow> bool" where
  "resolves documents reference = bt_contains documents reference"

section \<open>Schemas\<close>

definition is_local_reference :: "rstr \<Rightarrow> bool" where
  "is_local_reference reference = has_prefix (lit ''#'') reference"

text \<open>What the walk refuses: a string under \<open>$ref\<close> or \<open>$id\<close> that resolves nowhere.\<close>

definition refused_reference :: "DocumentSet \<Rightarrow> rstr \<Rightarrow> json \<Rightarrow> rstr option" where
  "refused_reference documents key child =
     (if key = lit ''$ref'' \<or> key = lit ''$id'' then
        (case as_str child of
           Some reference \<Rightarrow>
             if \<not> is_local_reference reference \<and> \<not> resolves documents reference then Some reference else None
         | None \<Rightarrow> None)
      else None)"

fun reject_unresolvable_references :: "DocumentSet \<Rightarrow> json \<Rightarrow> SchemaError + unit"
  and reject_entries :: "DocumentSet \<Rightarrow> (rstr \<times> json) list \<Rightarrow> SchemaError + unit"
  and reject_items :: "DocumentSet \<Rightarrow> json list \<Rightarrow> SchemaError + unit" where
  "reject_unresolvable_references documents (JObject object) = reject_entries documents object"
| "reject_unresolvable_references documents (JArray items) = reject_items documents items"
| "reject_unresolvable_references documents _ = Ok ()"
| "reject_entries documents [] = Ok ()"
| "reject_entries documents ((key, child) # object) =
     (case refused_reference documents key child of
        Some reference \<Rightarrow> Err (ExternalReference reference)
      | None \<Rightarrow> and_then (reject_unresolvable_references documents child) (\<lambda>_. reject_entries documents object))"
| "reject_items documents [] = Ok ()"
| "reject_items documents (item # items) =
     and_then (reject_unresolvable_references documents item) (\<lambda>_. reject_items documents items)"

definition bounded_detail :: "rstr \<Rightarrow> rstr" where
  "bounded_detail detail = (if length detail \<le> 200 then detail else take 200 detail @ [0x2026])"

definition sanitize_char :: "uchar \<Rightarrow> uchar" where
  "sanitize_char c = (if is_control c then 0xb7 else c)"

definition sanitize_pointer :: "rstr \<Rightarrow> rstr" where
  "sanitize_pointer pointer = bounded_detail (map sanitize_char pointer)"

definition sanitize_keyword :: "rstr \<Rightarrow> rstr" where
  "sanitize_keyword keyword = bounded_detail (map sanitize_char keyword)"

record SchemaViolation =
  instance_path :: rstr
  violated_keyword :: rstr

type_synonym validator = "json \<Rightarrow> (rstr \<times> rstr) list"

record ToolSchema =
  schema_document :: json
  schema_validator :: validator

definition from_value_with ::
  "(DocumentSet \<Rightarrow> rstr + unit) \<Rightarrow> (DocumentSet \<Rightarrow> json \<Rightarrow> rstr + validator) \<Rightarrow> json \<Rightarrow> DocumentSet
    \<Rightarrow> SchemaError + ToolSchema" where
  "from_value_with build_registry build v documents =
     (case v of
        JObject object \<Rightarrow>
          if get_str object (lit ''$schema'') \<noteq> Some TOOL_SCHEMA_DIALECT
          then Err (Schema_WrongDialect (get_str object (lit ''$schema'')))
          else
            and_then (reject_unresolvable_references documents v) (\<lambda>_.
            and_then (if documents = [] then Ok ()
                      else map_err (\<lambda>d. InvalidSchema (bounded_detail d)) (build_registry documents)) (\<lambda>_.
            and_then (map_err (\<lambda>d. InvalidSchema (bounded_detail d)) (build documents v)) (\<lambda>check.
            Ok \<lparr>schema_document = v, schema_validator = check\<rparr>)))
      | _ \<Rightarrow> Err Schema_NotAnObject)"

definition from_value ::
  "(DocumentSet \<Rightarrow> rstr + unit) \<Rightarrow> (DocumentSet \<Rightarrow> json \<Rightarrow> rstr + validator) \<Rightarrow> json \<Rightarrow> SchemaError + ToolSchema" where
  "from_value build_registry build v = from_value_with build_registry build v DocumentSet_new"

definition parse_with ::
  "(rstr \<Rightarrow> json option) \<Rightarrow> (DocumentSet \<Rightarrow> rstr + unit) \<Rightarrow> (DocumentSet \<Rightarrow> json \<Rightarrow> rstr + validator)
    \<Rightarrow> rstr \<Rightarrow> DocumentSet \<Rightarrow> SchemaError + ToolSchema" where
  "parse_with parse_json build_registry build document documents =
     (if str_len document > MAX_TOOL_SCHEMA_BYTES then Err Schema_TooLarge
      else and_then (ok_or (parse_json document) NotJson) (\<lambda>v.
        from_value_with build_registry build v documents))"

fun collect_violations :: "(rstr \<times> rstr) list \<Rightarrow> SchemaViolation list \<Rightarrow> SchemaViolation list" where
  "collect_violations [] violations = violations"
| "collect_violations ((path, keyword) # errors) violations =
     (if length violations \<ge> MAX_REPORTED_VIOLATIONS then violations
      else collect_violations errors
        (violations @ [\<lparr>instance_path = sanitize_pointer path, violated_keyword = sanitize_keyword keyword\<rparr>]))"

definition schema_validate :: "ToolSchema \<Rightarrow> json \<Rightarrow> SchemaError + SchemaViolation list" where
  "schema_validate schema v = Ok (collect_violations (schema_validator schema v) [])"

definition report_is_valid :: "SchemaViolation list \<Rightarrow> bool" where
  "report_is_valid violations \<longleftrightarrow> violations = []"

section \<open>Lemmas\<close>

text \<open>The references of a document, wherever they stand.\<close>

inductive mentions :: "json \<Rightarrow> rstr \<Rightarrow> bool" where
  Here: "(key, JString r) \<in> set object \<Longrightarrow> key = lit ''$ref'' \<or> key = lit ''$id'' \<Longrightarrow> mentions (JObject object) r"
| Child: "(key, child) \<in> set object \<Longrightarrow> mentions child r \<Longrightarrow> mentions (JObject object) r"
| Item: "item \<in> set items \<Longrightarrow> mentions item r \<Longrightarrow> mentions (JArray items) r"

inductive_simps mentions_simps [simp]:
  "mentions JNull r" "mentions (JBool b) r" "mentions (JNumber n) r" "mentions (JString s) r"

inductive_simps mentions_array: "mentions (JArray items) r"

inductive_simps mentions_object: "mentions (JObject object) r"

lemma mentions_lists [simp]:
  "mentions (JArray []) r = False"
  "mentions (JArray (item # items)) r \<longleftrightarrow> mentions item r \<or> mentions (JArray items) r"
  "mentions (JObject []) r = False"
  "mentions (JObject ((key, child) # object)) r \<longleftrightarrow>
     child = JString r \<and> (key = lit ''$ref'' \<or> key = lit ''$id'') \<or> mentions child r
     \<or> mentions (JObject object) r"
  by (auto simp: mentions_array mentions_object)

definition resolvable :: "DocumentSet \<Rightarrow> rstr \<Rightarrow> bool" where
  "resolvable documents r \<longleftrightarrow> is_local_reference r \<or> resolves documents r"

lemma refused_reference_Some:
  "refused_reference documents key child = Some r \<longleftrightarrow>
     child = JString r \<and> (key = lit ''$ref'' \<or> key = lit ''$id'') \<and> \<not> resolvable documents r"
  by (auto simp: refused_reference_def as_str_def resolvable_def split: json.splits)

lemma reject_Ok:
  "reject_unresolvable_references documents v = Ok () \<longleftrightarrow> (\<forall>r. mentions v r \<longrightarrow> resolvable documents r)"
  "reject_entries documents object = Ok () \<longleftrightarrow> (\<forall>r. mentions (JObject object) r \<longrightarrow> resolvable documents r)"
  "reject_items documents items = Ok () \<longleftrightarrow> (\<forall>r. mentions (JArray items) r \<longrightarrow> resolvable documents r)"
proof (induction documents v and documents object and documents items
    rule: reject_unresolvable_references_reject_entries_reject_items.induct)
  case (5 documents key child object)
  show ?case
  proof (cases "refused_reference documents key child")
    case None
    then have "resolvable documents r" if "child = JString r" "key = lit ''$ref'' \<or> key = lit ''$id''" for r
      using that refused_reference_Some [of documents key child r] by auto
    with None 5 show ?thesis by auto
  next
    case (Some r)
    from this [unfolded refused_reference_Some] have "mentions (JObject ((key, child) # object)) r"
      "\<not> resolvable documents r" by simp_all
    with Some show ?thesis by auto
  qed
qed auto

lemma reject_Err:
  "reject_unresolvable_references documents v = Err e \<Longrightarrow>
     \<exists>r. e = ExternalReference r \<and> mentions v r \<and> \<not> resolvable documents r"
  "reject_entries documents object = Err e \<Longrightarrow>
     \<exists>r. e = ExternalReference r \<and> mentions (JObject object) r \<and> \<not> resolvable documents r"
  "reject_items documents items = Err e \<Longrightarrow>
     \<exists>r. e = ExternalReference r \<and> mentions (JArray items) r \<and> \<not> resolvable documents r"
  by (induction documents v and documents object and documents items
      rule: reject_unresolvable_references_reject_entries_reject_items.induct)
    (fastforce simp: refused_reference_Some and_then_eq_Inl split: option.splits)+

lemma collect_violations_eq:
  "collect_violations errors violations = violations @ take (MAX_REPORTED_VIOLATIONS - length violations)
     (map (\<lambda>(p, k). \<lparr>instance_path = sanitize_pointer p, violated_keyword = sanitize_keyword k\<rparr>) errors)"
proof (induction errors violations rule: collect_violations.induct)
  case (2 path keyword errors violations)
  show ?case
  proof (cases "MAX_REPORTED_VIOLATIONS - length violations")
    case (Suc n)
    then have "MAX_REPORTED_VIOLATIONS - Suc (length violations) = n" by simp
    with Suc 2 show ?thesis by simp
  qed simp
qed simp

lemma sanitized:
  "length (sanitize_pointer p) \<le> 201" "c \<in> set (sanitize_pointer p) \<Longrightarrow> \<not> is_control c"
  "length (sanitize_keyword p) \<le> 201" "c \<in> set (sanitize_keyword p) \<Longrightarrow> \<not> is_control c"
  by (auto simp: sanitize_pointer_def sanitize_keyword_def bounded_detail_def sanitize_char_def
      is_control_def dest!: in_set_takeD split: if_splits)


section \<open>Properties\<close>

text \<open>An accepted schema is closed. A document becomes a schema only when it is an object that
  declares the one dialect and every reference and identifier in it, at any depth, is local or names
  a supplied document; a document refused for a reference does contain that very reference and it
  resolves nowhere; and what external input supplies may refer to nothing but itself.\<close>

theorem schema_references_closed:
  "(from_value_with build_registry build v documents = Ok schema \<longrightarrow>
      schema_document schema = v
      \<and> (\<exists>object. v = JObject object \<and> get_str object (lit ''$schema'') = Some TOOL_SCHEMA_DIALECT)
      \<and> (\<forall>r. mentions v r \<longrightarrow> is_local_reference r \<or> resolves documents r))
   \<and> (from_value_with build_registry build v documents = Err (ExternalReference reference) \<longrightarrow>
      mentions v reference \<and> \<not> is_local_reference reference \<and> \<not> resolves documents reference)
   \<and> (from_value build_registry build v = Ok schema \<longrightarrow> mentions v r \<longrightarrow> is_local_reference r)"
proof -
  have ok: "schema_document schema = v
      \<and> (\<exists>object. v = JObject object \<and> get_str object (lit ''$schema'') = Some TOOL_SCHEMA_DIALECT)
      \<and> (\<forall>r. mentions v r \<longrightarrow> resolvable ds r)"
    if built: "from_value_with build_registry build v ds = Ok schema" for ds
  proof -
    obtain object where v: "v = JObject object"
      using built by (cases v) (auto simp: from_value_with_def)
    then have "reject_unresolvable_references ds v = Ok ()"
      using built by (auto simp: from_value_with_def split: if_splits)
    then show ?thesis
      using built unfolding reject_Ok(1) by (auto simp: v from_value_with_def split: if_splits)
  qed
  moreover have "mentions v reference \<and> \<not> resolvable documents reference"
    if built: "from_value_with build_registry build v documents = Err (ExternalReference reference)"
  proof -
    obtain object where v: "v = JObject object"
      using built by (cases v) (auto simp: from_value_with_def)
    then have "reject_unresolvable_references documents v = Err (ExternalReference reference)"
      using built by (auto simp: from_value_with_def and_then_eq_Inl map_err_def split: if_splits sum.splits)
    then show ?thesis using reject_Err(1) by blast
  qed
  moreover have "\<not> resolves DocumentSet_new r" for r
    by (simp add: resolves_def DocumentSet_new_def bt_contains_def bt_get_def)
  ultimately show ?thesis unfolding from_value_def resolvable_def by blast
qed

definition sample_schema :: json where
  "sample_schema = JObject [(lit ''$schema'', JString TOOL_SCHEMA_DIALECT), (lit ''$ref'', JString (lit ''#/x''))]"

theorem schema_references_closed_witness:
  "is_local_reference (lit ''#/x'')"
proof -
  let ?s = "\<lparr>schema_document = sample_schema, schema_validator = (\<lambda>_. [])\<rparr>"
  have k: "lit ''$schema'' \<noteq> lit ''$ref''" "lit ''$schema'' \<noteq> lit ''$id''" by simp_all
  have "from_value (\<lambda>_. Ok ()) (\<lambda>_ _. Ok (\<lambda>_. [])) sample_schema = Ok ?s"
    by (simp add: from_value_def from_value_with_def sample_schema_def get_str_def as_str_def
        DocumentSet_new_def refused_reference_def is_local_reference_def lit_def [of "''#/x''"]
        lit_def [of "''#''"])
  moreover have "mentions sample_schema (lit ''#/x'')" by (auto simp: sample_schema_def)
  ultimately show ?thesis
    using schema_references_closed [of "\<lambda>_. Ok ()" "\<lambda>_ _. Ok (\<lambda>_. [])" sample_schema "[]" ?s "[]" "lit ''#/x''"]
    by blast
qed

text \<open>A validation report is faithful and safe to show. It says valid exactly when the validator
  found no error; otherwise it lists the first sixteen errors in order, each a bounded path and
  keyword without a control character.\<close>

theorem violations_bounded:
  "\<exists>report. schema_validate schema v = Ok report
    \<and> (report_is_valid report \<longleftrightarrow> schema_validator schema v = [])
    \<and> length report = min MAX_REPORTED_VIOLATIONS (length (schema_validator schema v))
    \<and> (\<forall>i < length report.
        instance_path (report ! i) = sanitize_pointer (fst (schema_validator schema v ! i)))
    \<and> list_all (\<lambda>x. length (instance_path x) \<le> 201 \<and> length (violated_keyword x) \<le> 201
        \<and> list_all (\<lambda>c. \<not> is_control c) (instance_path x @ violated_keyword x)) report"
proof -
  let ?f = "\<lambda>(p, k). \<lparr>instance_path = sanitize_pointer p, violated_keyword = sanitize_keyword k\<rparr>"
  let ?r = "take MAX_REPORTED_VIOLATIONS (map ?f (schema_validator schema v))"
  have "schema_validate schema v = Ok ?r" by (simp add: schema_validate_def collect_violations_eq)
  moreover have "report_is_valid ?r \<longleftrightarrow> schema_validator schema v = []"
    by (simp add: report_is_valid_def MAX_REPORTED_VIOLATIONS_def)
  moreover have "instance_path (?r ! i) = sanitize_pointer (fst (schema_validator schema v ! i))"
    if "i < length ?r" for i using that by (simp add: split_beta)
  moreover have "list_all (\<lambda>x. length (instance_path x) \<le> 201 \<and> length (violated_keyword x) \<le> 201
        \<and> list_all (\<lambda>c. \<not> is_control c) (instance_path x @ violated_keyword x)) ?r"
    using sanitized by (auto simp: list_all_iff dest!: in_set_takeD)
  ultimately show ?thesis by (intro exI [of _ ?r]) (auto simp: min.commute)
qed

theorem violations_bounded_witness:
  "\<exists>report. schema_validate \<lparr>schema_document = JNull, schema_validator = (\<lambda>_. [])\<rparr> JNull = Ok report
     \<and> report_is_valid report"
  using violations_bounded [of "\<lparr>schema_document = JNull, schema_validator = (\<lambda>_. [])\<rparr>" JNull] by auto

text \<open>
  The document set: bounded, ordered, and every document under the identifier it declares.
\<close>

definition documents_inv :: "(json \<Rightarrow> nat) \<Rightarrow> DocumentSet \<Rightarrow> bool" where
  "documents_inv encoded_len documents \<longleftrightarrow> bt_inv documents \<and> length documents \<le> MAX_SUPPLIED_DOCUMENTS
     \<and> (\<forall>name d. bt_get documents name = Some d \<longrightarrow>
          (\<exists>object. d = JObject object \<and> get_str object (lit ''$id'') = Some name
             \<and> get_str object (lit ''$schema'') = Some TOOL_SCHEMA_DIALECT)
          \<and> encoded_len d \<le> MAX_TOOL_SCHEMA_BYTES)"

text \<open>Supplied documents cannot shadow each other. Inserting any value keeps every document under
  the identifier it declares, within the bounds; it never changes what an identifier already resolved
  to, and a refused insertion changes nothing.\<close>

theorem documents_never_shadowed:
  assumes "documents_inv encoded_len documents"
  shows "documents_inv encoded_len (fst (DocumentSet_insert encoded_len documents v))
    \<and> (bt_get documents name = Some d \<longrightarrow>
        bt_get (fst (DocumentSet_insert encoded_len documents v)) name = Some d)
    \<and> (snd (DocumentSet_insert encoded_len documents v) \<noteq> Ok () \<longrightarrow>
        fst (DocumentSet_insert encoded_len documents v) = documents)"
proof -
  have inv: "bt_inv documents" using assms by (simp add: documents_inv_def)
  show ?thesis
    using assms
    by (auto simp: DocumentSet_insert_def documents_inv_def bt_contains_def bt.get_ins [OF inv]
        bt.inv_ins [OF inv] bt.length_ins [OF inv] split: json.splits option.splits if_splits)
qed

theorem documents_never_shadowed_witness:
  "documents_inv (\<lambda>_. 0) (fst (DocumentSet_insert (\<lambda>_. 0) DocumentSet_new sample_schema))"
proof -
  have "documents_inv (\<lambda>_. 0) DocumentSet_new"
    by (simp add: documents_inv_def DocumentSet_new_def bt_inv_def bt_get_def)
  from documents_never_shadowed [OF this] show ?thesis by blast
qed

end
