(* ===== verification/Tool_Call_Store.thy ===== *)
theory Tool_Call_Store
  imports Run_Store_Laws Tool_Outcome Ordered_Map "HOL-Library.List_Lexorder"
begin

text \<open>
  The durable ledger of tool calls (\<open>jarvis-storage/src/tool_call_repository.rs\<close>, migration
  \<open>0007_tool_calls.sql\<close>), on the table model of \<open>Run_Store\<close>: admission under an idempotency key,
  guarded outcome writes, the approval link, and the settlement of calls a stopped daemon left
  behind. The \<open>CHECK\<close> clauses and the unique index of the migration are part of the model: a write
  they refuse leaves the table as it was and reports an SQL failure. Instants and correlation
  identifiers are kept as values, since their text form reads back unchanged; only the order of the
  text form is observed, so it is an argument (\<open>stamp\<close>) where rows are sorted.
\<close>

section \<open>Rows and stored calls\<close>

record tool_call_row =
  tcr_id :: ident
  tcr_workspace_id :: ident
  tcr_run_id :: ident
  tcr_step_id :: "ident option"
  tcr_tool :: rstr
  tcr_tool_version :: rstr
  tcr_intent_hash :: rstr
  tcr_idempotency_key :: rstr
  tcr_receipt :: rstr
  tcr_policy_version :: rstr
  tcr_approval_id :: "ident option"
  tcr_outcome :: rstr
  tcr_evidence :: "rstr option"
  tcr_output :: "rstr option"
  tcr_output_truncated :: int
  tcr_reason :: "rstr option"
  tcr_correlation_id :: ident
  tcr_created_at :: instant
  tcr_updated_at :: instant
  tcr_reported_at :: "instant option"
  tcr_version :: int

text \<open>The run store and the call table of one database.\<close>

record call_db =
  cdb_store :: run_db
  cdb_calls :: "tool_call_row list"

datatype ToolCallError =
    InvalidToolCallRequest rstr
  | ToolCallDuplicate ident
  | ToolCallNotFound
  | StoredToolCallInvalid rstr
  | ToolCallAlreadyResolved rstr
  | ToolCallConflict
  | ToolCallApprovalLinkConflict
  | Call_Sqlite rstr

record StoredToolCall =
  stc_id :: ident
  stc_workspace_id :: ident
  stc_run_id :: ident
  stc_step_id :: "ident option"
  stc_tool :: rstr
  stc_tool_version :: rstr
  stc_intent_hash :: rstr
  stc_idempotency_key :: rstr
  stc_receipt :: rstr
  stc_policy_version :: rstr
  stc_approval_id :: "ident option"
  stc_record :: ToolOutcomeRecord
  stc_output :: "rstr option"
  stc_output_truncated :: bool
  stc_correlation_id :: ident
  stc_created_at :: instant
  stc_updated_at :: instant
  stc_reported_at :: "instant option"
  stc_version :: int

definition StoredToolCall_outcome :: "StoredToolCall \<Rightarrow> ToolOutcome" where
  "StoredToolCall_outcome call = rec_outcome (stc_record call)"

definition must_not_repeat :: "StoredToolCall \<Rightarrow> bool" where
  "must_not_repeat call \<longleftrightarrow> may_have_had_an_effect (StoredToolCall_outcome call)
     \<or> \<not> ToolOutcome_is_terminal (StoredToolCall_outcome call)"

record CallOrigin =
  origin_workspace_id :: ident
  origin_run_id :: ident
  origin_step_id :: "ident option"

record CallTarget =
  target_tool :: rstr
  target_tool_version :: rstr

record CallBinding =
  binding_intent_hash :: rstr
  binding_idempotency_key :: rstr
  binding_receipt :: rstr
  binding_policy_version :: rstr
  binding_approval_id :: "ident option"

record NewToolCall =
  ntc_id :: ident
  ntc_origin :: CallOrigin
  ntc_target :: CallTarget
  ntc_binding :: CallBinding
  ntc_correlation_id :: ident
  ntc_created_at :: instant

section \<open>Admission\<close>

definition is_lowercase_hex :: "rstr \<Rightarrow> nat \<Rightarrow> bool" where
  "is_lowercase_hex value n \<longleftrightarrow>
     str_len value = n \<and> list_all (\<lambda>b. is_ascii_digit b \<or> (97 \<le> b \<and> b \<le> 102)) value"

definition uuid_sized :: "ident option \<Rightarrow> bool" where
  "uuid_sized v \<longleftrightarrow> (case v of None \<Rightarrow> True | Some s \<Rightarrow> str_len s = 36)"

definition validate_fields ::
  "ident \<Rightarrow> CallOrigin \<Rightarrow> CallTarget \<Rightarrow> CallBinding \<Rightarrow> ToolCallError + unit" where
  "validate_fields cid origin target binding =
     (if str_len cid \<noteq> 36 then Err (InvalidToolCallRequest (lit ''id''))
      else if str_len (origin_workspace_id origin) \<noteq> 36
      then Err (InvalidToolCallRequest (lit ''workspace_id''))
      else if str_len (origin_run_id origin) \<noteq> 36 then Err (InvalidToolCallRequest (lit ''run_id''))
      else if \<not> uuid_sized (origin_step_id origin) then Err (InvalidToolCallRequest (lit ''step_id''))
      else if \<not> uuid_sized (binding_approval_id binding)
      then Err (InvalidToolCallRequest (lit ''approval_id''))
      else if str_len (target_tool target) < 3 \<or> str_len (target_tool target) > 128
      then Err (InvalidToolCallRequest (lit ''tool''))
      else if target_tool_version target = [] \<or> str_len (target_tool_version target) > 32
      then Err (InvalidToolCallRequest (lit ''tool_version''))
      else if \<not> is_lowercase_hex (binding_intent_hash binding) 64
      then Err (InvalidToolCallRequest (lit ''intent_hash''))
      else if \<not> is_lowercase_hex (binding_idempotency_key binding) 32
      then Err (InvalidToolCallRequest (lit ''idempotency_key''))
      else if str_len (binding_receipt binding) < 2 \<or> str_len (binding_receipt binding) > 4096
      then Err (InvalidToolCallRequest (lit ''receipt''))
      else if binding_policy_version binding = [] \<or> str_len (binding_policy_version binding) > 64
      then Err (InvalidToolCallRequest (lit ''policy_version''))
      else Ok ())"

definition NewToolCall_new ::
  "ident \<Rightarrow> CallOrigin \<Rightarrow> CallTarget \<Rightarrow> CallBinding \<Rightarrow> ident \<Rightarrow> instant
    \<Rightarrow> ToolCallError + NewToolCall" where
  "NewToolCall_new cid origin target binding correlation_id created_at =
     and_then (validate_fields cid origin target binding) (\<lambda>_.
       Ok \<lparr>ntc_id = cid, ntc_origin = origin, ntc_target = target, ntc_binding = binding,
           ntc_correlation_id = correlation_id, ntc_created_at = created_at\<rparr>)"

text \<open>\<open>c BETWEEN a AND b\<close> on the number of characters.\<close>

definition chars_between :: "nat \<Rightarrow> nat \<Rightarrow> rstr \<Rightarrow> bool" where
  "chars_between a b s \<longleftrightarrow> a \<le> length s \<and> length s \<le> b"

definition null_or :: "('a \<Rightarrow> bool) \<Rightarrow> 'a option \<Rightarrow> bool" where
  "null_or P v \<longleftrightarrow> (case v of None \<Rightarrow> True | Some x \<Rightarrow> P x)"

definition hex_glob :: "nat \<Rightarrow> rstr \<Rightarrow> bool" where
  "hex_glob n s \<longleftrightarrow> length s = n \<and> list_all (\<lambda>b. is_ascii_digit b \<or> (97 \<le> b \<and> b \<le> 102)) s"

text \<open>The \<open>CHECK\<close> clauses of the table.\<close>

definition tool_call_checks :: "tool_call_row \<Rightarrow> bool" where
  "tool_call_checks r \<longleftrightarrow>
     length (tcr_id r) = 36
     \<and> chars_between 3 128 (tcr_tool r) \<and> chars_between 1 32 (tcr_tool_version r)
     \<and> hex_glob 64 (tcr_intent_hash r) \<and> hex_glob 32 (tcr_idempotency_key r)
     \<and> 2 \<le> str_len (tcr_receipt r) \<and> str_len (tcr_receipt r) \<le> 4096
     \<and> chars_between 1 64 (tcr_policy_version r)
     \<and> tcr_outcome r \<in> {lit ''requested'', lit ''authorized'', lit ''submitted'', lit ''confirmed'',
          lit ''failed'', lit ''unknown'', lit ''cancelled''}
     \<and> null_or (chars_between 1 256) (tcr_evidence r)
     \<and> null_or (\<lambda>s. str_len s \<le> 32768) (tcr_output r)
     \<and> tcr_output_truncated r \<in> {0, 1}
     \<and> null_or (chars_between 1 512) (tcr_reason r)
     \<and> 1 \<le> tcr_version r
     \<and> (tcr_outcome r \<noteq> lit ''confirmed'' \<or> tcr_evidence r \<noteq> None)
     \<and> (tcr_outcome r \<noteq> lit ''failed'' \<or> tcr_reason r \<noteq> None)
     \<and> (tcr_output r \<noteq> None \<or> tcr_output_truncated r = 0)
     \<and> ((tcr_outcome r \<in> {lit ''requested'', lit ''authorized''} \<and> tcr_reported_at r = None)
        \<or> (tcr_outcome r \<in> {lit ''submitted'', lit ''confirmed'', lit ''failed'', lit ''unknown'',
              lit ''cancelled''} \<and> tcr_reported_at r \<noteq> None))"

definition admitted_row :: "NewToolCall \<Rightarrow> tool_call_row" where
  "admitted_row new = \<lparr>tcr_id = ntc_id new,
     tcr_workspace_id = origin_workspace_id (ntc_origin new),
     tcr_run_id = origin_run_id (ntc_origin new), tcr_step_id = origin_step_id (ntc_origin new),
     tcr_tool = target_tool (ntc_target new),
     tcr_tool_version = target_tool_version (ntc_target new),
     tcr_intent_hash = binding_intent_hash (ntc_binding new),
     tcr_idempotency_key = binding_idempotency_key (ntc_binding new),
     tcr_receipt = binding_receipt (ntc_binding new),
     tcr_policy_version = binding_policy_version (ntc_binding new),
     tcr_approval_id = binding_approval_id (ntc_binding new),
     tcr_outcome = lit ''requested'', tcr_evidence = None, tcr_output = None,
     tcr_output_truncated = 0, tcr_reason = None, tcr_correlation_id = ntc_correlation_id new,
     tcr_created_at = ntc_created_at new, tcr_updated_at = ntc_created_at new,
     tcr_reported_at = None, tcr_version = 1\<rparr>"

section \<open>Reading\<close>

definition decode_tool_call :: "tool_call_row \<Rightarrow> ToolCallError + StoredToolCall" where
  "decode_tool_call row =
     (if tcr_output_truncated row \<noteq> 0 \<and> tcr_output_truncated row \<noteq> 1
      then Err (StoredToolCallInvalid (lit ''output_truncated''))
      else if tcr_version row < 1 then Err (StoredToolCallInvalid (lit ''version''))
      else and_then (map_err (\<lambda>_. StoredToolCallInvalid (lit ''outcome''))
                       (ToolOutcome_from_str (tcr_outcome row))) (\<lambda>outcome.
        and_then (map_err (\<lambda>_. StoredToolCallInvalid (lit ''outcome''))
             (ToolOutcomeRecord_from_stored outcome (tcr_evidence row) (tcr_reason row))) (\<lambda>rec.
          if tcr_output row = None \<and> tcr_output_truncated row = 1
          then Err (StoredToolCallInvalid (lit ''output_truncated''))
          else Ok \<lparr>stc_id = tcr_id row, stc_workspace_id = tcr_workspace_id row,
                 stc_run_id = tcr_run_id row, stc_step_id = tcr_step_id row,
                 stc_tool = tcr_tool row, stc_tool_version = tcr_tool_version row,
                 stc_intent_hash = tcr_intent_hash row,
                 stc_idempotency_key = tcr_idempotency_key row, stc_receipt = tcr_receipt row,
                 stc_policy_version = tcr_policy_version row,
                 stc_approval_id = tcr_approval_id row, stc_record = rec,
                 stc_output = tcr_output row,
                 stc_output_truncated = (tcr_output_truncated row = 1),
                 stc_correlation_id = tcr_correlation_id row,
                 stc_created_at = tcr_created_at row, stc_updated_at = tcr_updated_at row,
                 stc_reported_at = tcr_reported_at row, stc_version = tcr_version row\<rparr>)))"

definition find_call_by_idempotency_key ::
  "call_db \<Rightarrow> ident \<Rightarrow> rstr \<Rightarrow> ToolCallError + StoredToolCall option" where
  "find_call_by_idempotency_key db rid key =
     (case find (\<lambda>r. tcr_run_id r = rid \<and> tcr_idempotency_key r = key) (cdb_calls db) of
        None \<Rightarrow> Ok None
      | Some row \<Rightarrow> map_ok Some (decode_tool_call row))"

definition find_tool_call :: "call_db \<Rightarrow> ident \<Rightarrow> ToolCallError + StoredToolCall" where
  "find_tool_call db cid =
     and_then (ok_or (find (\<lambda>r. tcr_id r = cid) (cdb_calls db)) ToolCallNotFound) decode_tool_call"

definition read_run_tool_calls ::
  "(instant \<Rightarrow> rstr) \<Rightarrow> call_db \<Rightarrow> ident \<Rightarrow> ToolCallError + StoredToolCall list" where
  "read_run_tool_calls stamp db rid =
     collect_results decode_tool_call
       (sort_key (\<lambda>r. (stamp (tcr_created_at r), tcr_id r))
          (filter (\<lambda>r. tcr_run_id r = rid) (cdb_calls db)))"

definition count_tool_calls :: "call_db \<Rightarrow> nat" where
  "count_tool_calls db = length (cdb_calls db)"

definition read_unrepeatable_calls ::
  "(instant \<Rightarrow> rstr) \<Rightarrow> call_db \<Rightarrow> ident \<Rightarrow> ToolCallError + StoredToolCall list" where
  "read_unrepeatable_calls stamp db rid =
     map_ok (filter must_not_repeat) (read_run_tool_calls stamp db rid)"

section \<open>Writing\<close>

text \<open>
  The insert. \<open>ON CONFLICT (run_id, idempotency_key) DO NOTHING\<close> is decided before the primary
  key; the foreign key to the run is checked against the run table, those to the workspace, the
  step and the approval are the argument \<open>parents_exist\<close>.
\<close>

definition admit_tool_call ::
  "(NewToolCall \<Rightarrow> bool) \<Rightarrow> call_db \<Rightarrow> NewToolCall \<Rightarrow> call_db \<times> (ToolCallError + ident)" where
  "admit_tool_call parents_exist db new =
     (let row = admitted_row new in
      if \<not> tool_call_checks row then (db, Err (Call_Sqlite (lit ''admit a tool call'')))
      else if list_ex (\<lambda>r. tcr_run_id r = tcr_run_id row
                 \<and> tcr_idempotency_key r = tcr_idempotency_key row) (cdb_calls db)
      then (db, and_then (find_call_by_idempotency_key db (origin_run_id (ntc_origin new))
                            (binding_idempotency_key (ntc_binding new))) (\<lambda>found.
             and_then (ok_or found (Call_Sqlite (lit ''resolve a tool call duplicate''))) (\<lambda>existing.
               Err (ToolCallDuplicate (stc_id existing)))))
      else if list_ex (\<lambda>r. tcr_id r = tcr_id row) (cdb_calls db) \<or> \<not> parents_exist new
        \<or> \<not> list_ex (\<lambda>r. run_id r = tcr_run_id row) (db_runs (cdb_store db))
      then (db, Err (Call_Sqlite (lit ''admit a tool call'')))
      else (db\<lparr>cdb_calls := cdb_calls db @ [row]\<rparr>, Ok (ntc_id new)))"

text \<open>The \<open>SET\<close> clause and the \<open>WHERE\<close> clause of the outcome write.\<close>

definition outcome_row ::
  "ToolOutcomeRecord \<Rightarrow> (rstr \<times> bool) option \<Rightarrow> instant \<Rightarrow> tool_call_row \<Rightarrow> tool_call_row" where
  "outcome_row rec output at row = row\<lparr>
     tcr_outcome := ToolOutcome_as_str (rec_outcome rec),
     tcr_evidence := rec_evidence rec,
     tcr_reason := rec_reason rec,
     tcr_output := map_option fst output,
     tcr_output_truncated := (case output of Some (_, truncated) \<Rightarrow> of_bool truncated | None \<Rightarrow> 0),
     tcr_reported_at := (if is_reported (rec_outcome rec) then Some at else None),
     tcr_updated_at := at,
     tcr_version := tcr_version row + 1\<rparr>"

definition run_open_for_calls :: "run_db \<Rightarrow> ident \<Rightarrow> bool" where
  "run_open_for_calls store rid =
     list_ex (\<lambda>r. run_id r = rid \<and> run_cancellation_requested_at r = None \<and> run_state r \<noteq> Cancelled)
       (db_runs store)"

definition outcome_hit ::
  "run_db \<Rightarrow> ident \<Rightarrow> int \<Rightarrow> ToolOutcome \<Rightarrow> tool_call_row \<Rightarrow> bool" where
  "outcome_hit store cid version outcome row \<longleftrightarrow>
     tcr_id row = cid \<and> tcr_version row = version
     \<and> (ToolOutcome_as_str outcome \<notin> {lit ''authorized'', lit ''submitted''}
        \<or> run_open_for_calls store (tcr_run_id row))"

text \<open>
  What \<open>record_tool_outcome\<close> does once it has read the call as \<open>existing\<close>. The read and the
  guarded \<open>UPDATE\<close> are two statements, so other writers may act in between; this definition takes
  the database as it is at the second.
\<close>

definition write_outcome ::
  "call_db \<Rightarrow> ident \<Rightarrow> StoredToolCall \<Rightarrow> ToolOutcomeRecord \<Rightarrow> (rstr \<times> bool) option \<Rightarrow> instant
    \<Rightarrow> call_db \<times> (ToolCallError + StoredToolCall)" where
  "write_outcome db cid existing rec output at =
     (if ToolOutcome_is_terminal (StoredToolCall_outcome existing) then
        (if StoredToolCall_outcome existing = rec_outcome rec then (db, Ok existing)
         else (db, Err (ToolCallAlreadyResolved
                          (ToolOutcome_as_str (StoredToolCall_outcome existing)))))
      else if \<not> can_advance_to (StoredToolCall_outcome existing) (rec_outcome rec)
      then (db, Err (StoredToolCallInvalid (lit ''outcome'')))
      else
        let hit = outcome_hit (cdb_store db) cid (stc_version existing) (rec_outcome rec);
            written = map (outcome_row rec output at) (filter hit (cdb_calls db));
            db' = db\<lparr>cdb_calls := sql_update hit (outcome_row rec output at) (cdb_calls db)\<rparr>
        in if \<not> list_all tool_call_checks written
           then (db, Err (Call_Sqlite (lit ''record a tool outcome'')))
           else if rows_affected hit (cdb_calls db) = 0 then (db, Err ToolCallConflict)
           else (db', find_tool_call db' cid))"

definition record_tool_outcome ::
  "call_db \<Rightarrow> ident \<Rightarrow> ToolOutcomeRecord \<Rightarrow> (rstr \<times> bool) option \<Rightarrow> instant
    \<Rightarrow> call_db \<times> (ToolCallError + StoredToolCall)" where
  "record_tool_outcome db cid rec output at =
     (case find_tool_call db cid of
        Inl e \<Rightarrow> (db, Err e)
      | Inr existing \<Rightarrow> write_outcome db cid existing rec output at)"

definition link_row :: "ident \<Rightarrow> instant \<Rightarrow> tool_call_row \<Rightarrow> tool_call_row" where
  "link_row aid now row = row\<lparr>tcr_approval_id := Some aid, tcr_updated_at := now,
     tcr_version := tcr_version row + 1\<rparr>"

definition link_tool_call_approval ::
  "(ident \<Rightarrow> bool) \<Rightarrow> call_db \<Rightarrow> ident \<Rightarrow> ident \<Rightarrow> instant \<Rightarrow> call_db \<times> (ToolCallError + unit)" where
  "link_tool_call_approval approval_exists db cid aid now =
     (if str_len cid \<noteq> 36 then (db, Err (InvalidToolCallRequest (lit ''id'')))
      else if str_len aid \<noteq> 36 then (db, Err (InvalidToolCallRequest (lit ''approval_id'')))
      else
        let hit = (\<lambda>r. tcr_id r = cid \<and> tcr_approval_id r = None) in
        if rows_affected hit (cdb_calls db) = 0 then
          (db, and_then (find_tool_call db cid) (\<lambda>existing.
            (case stc_approval_id existing of
               Some linked \<Rightarrow> if linked = aid then Ok () else Err ToolCallApprovalLinkConflict
             | None \<Rightarrow> Err ToolCallConflict)))
        else if \<not> approval_exists aid
        then (db, Err (Call_Sqlite (lit ''link a tool call to its approval'')))
        else (db\<lparr>cdb_calls := sql_update hit (link_row aid now) (cdb_calls db)\<rparr>, Ok ()))"

section \<open>Settling what a stopped daemon left\<close>

definition ORPHANED_BEFORE_SENDING :: rstr where
  "ORPHANED_BEFORE_SENDING = lit ''the daemon stopped before this call was sent, so it did not run''"

definition ORPHANED_WHILE_RUNNING :: rstr where
  "ORPHANED_WHILE_RUNNING =
     lit ''the daemon stopped while this call was running, so it may or may not have happened''"

definition orphan_record :: "rstr \<Rightarrow> ToolOutcomeError + ToolOutcomeRecord" where
  "orphan_record outcome =
     (if outcome = lit ''authorized'' then ToolOutcomeRecord_failed ORPHANED_BEFORE_SENDING
      else ToolOutcomeRecord_from_stored Unknown None (Some ORPHANED_WHILE_RUNNING))"

fun settle_loop ::
  "call_db \<Rightarrow> instant \<Rightarrow> (ident \<times> rstr) list \<Rightarrow> (ident \<times> ToolOutcome) list
    \<Rightarrow> call_db \<times> (ToolCallError + (ident \<times> ToolOutcome) list)" where
  "settle_loop db at [] settled = (db, Ok settled)"
| "settle_loop db at ((cid, outcome) # rows) settled =
     (case orphan_record outcome of
        Inl _ \<Rightarrow> (db, Err (InvalidToolCallRequest (lit ''outcome'')))
      | Inr rec \<Rightarrow>
          (case record_tool_outcome db cid rec None at of
             (db', Inl e) \<Rightarrow> (db', Err e)
           | (db', Inr stored) \<Rightarrow>
               settle_loop db' at rows (settled @ [(cid, StoredToolCall_outcome stored)])))"

definition settle_orphaned_calls ::
  "call_db \<Rightarrow> instant \<Rightarrow> call_db \<times> (ToolCallError + (ident \<times> ToolOutcome) list)" where
  "settle_orphaned_calls db at =
     settle_loop db at
       (map (\<lambda>r. (tcr_id r, tcr_outcome r))
          (filter (\<lambda>r. tcr_outcome r \<in> {lit ''authorized'', lit ''submitted''}) (cdb_calls db))) []"

definition advance_tool_call ::
  "call_db \<Rightarrow> ident \<Rightarrow> ToolOutcome \<Rightarrow> instant \<Rightarrow> call_db \<times> (ToolCallError + StoredToolCall)" where
  "advance_tool_call db cid outcome at =
     (case ToolOutcomeRecord_new outcome of
        Inl _ \<Rightarrow> (db, Err (InvalidToolCallRequest (lit ''outcome'')))
      | Inr rec \<Rightarrow> record_tool_outcome db cid rec None at)"

end
