(* ===== verification/Tool_Call_Laws.thy ===== *)
theory Tool_Call_Laws
  imports Tool_Call_Store
begin

text \<open>
  What the ledger of tool calls guarantees when several writers work on it at once. A system state
  is the database together with the calls its writers have read and may still act on; the ledger it
  implements maps a call to its outcome and an idempotency key to its call. The simulation is an
  instance of \<open>forward_simulation\<close>.
\<close>

section \<open>Rows\<close>

definition row_outcome :: "tool_call_row \<Rightarrow> ToolOutcome option" where
  "row_outcome r = (case ToolOutcome_from_str (tcr_outcome r) of Inl _ \<Rightarrow> None | Inr oc \<Rightarrow> Some oc)"

definition call_row_ok :: "tool_call_row \<Rightarrow> bool" where
  "call_row_ok r \<longleftrightarrow> tool_call_checks r \<and> (\<exists>oc. row_outcome r = Some oc
     \<and> record_honest \<lparr>rec_outcome = oc, rec_evidence = tcr_evidence r, rec_reason = tcr_reason r\<rparr>)"

lemma row_outcome_Some: "row_outcome r = Some oc \<longleftrightarrow> tcr_outcome r = ToolOutcome_as_str oc"
  using tool_outcome_wire.parse_iff [of "tcr_outcome r" oc]
  by (auto simp: row_outcome_def split: sum.splits)

lemma tool_call_checks_facts:
  assumes "tool_call_checks r"
  shows "tcr_output_truncated r = 0 \<or> tcr_output_truncated r = 1" "1 \<le> tcr_version r"
    "tcr_output r = None \<Longrightarrow> tcr_output_truncated r = 0"
  using assms unfolding tool_call_checks_def by blast+

lemma decode_tool_call_fields:
  assumes "decode_tool_call r = Ok c"
  shows "stc_id c = tcr_id r" "stc_version c = tcr_version r" "stc_run_id c = tcr_run_id r"
    "row_outcome r = Some (StoredToolCall_outcome c)" "stc_approval_id c = tcr_approval_id r"
  using assms
  by (auto simp: decode_tool_call_def row_outcome_def StoredToolCall_outcome_def
      ToolOutcomeRecord_from_stored_def split: if_splits)

lemma decode_tool_call_ok:
  assumes "call_row_ok r"
  obtains c where "decode_tool_call r = Ok c"
    "stc_record c = \<lparr>rec_outcome = StoredToolCall_outcome c, rec_evidence = tcr_evidence r,
       rec_reason = tcr_reason r\<rparr>"
proof -
  from assms obtain oc where oc: "row_outcome r = Some oc"
      and honest: "record_honest \<lparr>rec_outcome = oc, rec_evidence = tcr_evidence r, rec_reason = tcr_reason r\<rparr>"
      and checks: "tool_call_checks r"
    by (auto simp: call_row_ok_def)
  from oc have "ToolOutcome_from_str (tcr_outcome r) = Ok oc"
    by (simp add: row_outcome_Some tool_outcome_wire.parse_spell)
  moreover have "ToolOutcomeRecord_from_stored oc (tcr_evidence r) (tcr_reason r)
      = Ok \<lparr>rec_outcome = oc, rec_evidence = tcr_evidence r, rec_reason = tcr_reason r\<rparr>"
    using from_stored_again [OF honest] by simp
  moreover note tool_call_checks_facts [OF checks]
  ultimately have "\<exists>c. decode_tool_call r = Ok c \<and> stc_record c
      = \<lparr>rec_outcome = oc, rec_evidence = tcr_evidence r, rec_reason = tcr_reason r\<rparr>"
    by (force simp: decode_tool_call_def)
  then show ?thesis
    by (auto simp: StoredToolCall_outcome_def intro: that)
qed

text \<open>One write to one row: a legal advance whose gate was open, or a first approval link.\<close>

inductive call_row_step :: "run_db \<Rightarrow> tool_call_row \<Rightarrow> tool_call_row \<Rightarrow> bool" for store where
  advance: "row_outcome r = Some oc \<Longrightarrow> can_advance_to oc (rec_outcome rec) \<Longrightarrow> record_honest rec
    \<Longrightarrow> (rec_outcome rec \<in> {Authorized, Submitted} \<longrightarrow> run_open_for_calls store (tcr_run_id r))
    \<Longrightarrow> tool_call_checks (outcome_row rec out at r)
    \<Longrightarrow> call_row_step store r (outcome_row rec out at r)"
| link: "tcr_approval_id r = None \<Longrightarrow> call_row_step store r (link_row aid now r)"

inductive_cases call_row_stepE: "call_row_step store r r'"

lemma row_outcome_update [simp]:
  "row_outcome (outcome_row rec out at r) = Some (rec_outcome rec)"
  "row_outcome (link_row aid now r) = row_outcome r"
  by (simp_all add: row_outcome_Some outcome_row_def) (simp add: row_outcome_def link_row_def)

lemma record_eta: "\<lparr>rec_outcome = rec_outcome rec, rec_evidence = rec_evidence rec,
    rec_reason = rec_reason rec\<rparr> = (rec :: ToolOutcomeRecord)"
  by simp

lemma call_row_step_facts:
  assumes "call_row_step store r r'"
  shows "tcr_id r' = tcr_id r" "tcr_run_id r' = tcr_run_id r"
    "tcr_idempotency_key r' = tcr_idempotency_key r" "tcr_version r' = tcr_version r + 1"
    "tcr_approval_id r = Some aid \<Longrightarrow> tcr_approval_id r' = Some aid"
    "tcr_intent_hash r' = tcr_intent_hash r" "tcr_receipt r' = tcr_receipt r"
  using assms by (cases rule: call_row_step.cases; simp add: outcome_row_def link_row_def)+

lemma outcome_row_ok:
  "tool_call_checks (outcome_row rec out at r) \<Longrightarrow> record_honest rec
    \<Longrightarrow> call_row_ok (outcome_row rec out at r)"
  by (simp add: call_row_ok_def) (simp add: outcome_row_def record_eta)

lemma call_row_step_ok:
  assumes "call_row_step store r r'" "call_row_ok r"
  shows "call_row_ok r'"
  using assms
proof (cases rule: call_row_step.cases)
  case (advance oc rec out at)
  then show ?thesis
    by (simp add: outcome_row_ok)
next
  case (link aid now)
  with assms(2) show ?thesis
    by (auto simp: call_row_ok_def tool_call_checks_def link_row_def row_outcome_def)
qed

lemma call_row_step_outcome:
  assumes "call_row_step store r r'"
  shows "row_outcome r' = row_outcome r \<or> (\<exists>oc oc'. row_outcome r = Some oc \<and> row_outcome r' = Some oc'
     \<and> can_advance_to oc oc'
     \<and> (oc' \<in> {Authorized, Submitted} \<longrightarrow> run_open_for_calls store (tcr_run_id r)))"
  using assms by (cases rule: call_row_step.cases) auto

section \<open>Tables\<close>

definition calls_inv :: "tool_call_row list \<Rightarrow> bool" where
  "calls_inv rows \<longleftrightarrow> distinct (map tcr_id rows)
     \<and> distinct (map (\<lambda>r. (tcr_run_id r, tcr_idempotency_key r)) rows)
     \<and> (\<forall>r \<in> set rows. call_row_ok r)"

text \<open>\<open>calls_step store rows rows'\<close>: each row took at most one write, and rows are only added.\<close>

definition calls_step :: "run_db \<Rightarrow> tool_call_row list \<Rightarrow> tool_call_row list \<Rightarrow> bool" where
  "calls_step store rows rows' \<longleftrightarrow> length rows \<le> length rows'
     \<and> (\<forall>i < length rows. (call_row_step store)\<^sup>=\<^sup>= (rows ! i) (rows' ! i))"

lemma calls_step_refl [simp, intro]: "calls_step store rows rows"
  by (simp add: calls_step_def)

lemma calls_step_append [intro]: "calls_step store rows (rows @ new)"
  by (simp add: calls_step_def nth_append)

lemma calls_step_update:
  "(\<And>r. r \<in> set rows \<Longrightarrow> P r \<Longrightarrow> call_row_step store r (f r))
    \<Longrightarrow> calls_step store rows (sql_update P f rows)"
  by (auto simp: calls_step_def sql_update_def)

lemma calls_step_member:
  assumes "calls_step store rows rows'" "r \<in> set rows"
  obtains r' where "r' \<in> set rows'" "r' = r \<or> call_row_step store r r'"
proof -
  from assms(2) obtain i where "i < length rows" "rows ! i = r" by (auto simp: in_set_conv_nth)
  with assms(1) show ?thesis
    by (intro that [of "rows' ! i"]) (auto simp: calls_step_def)
qed

lemma calls_inv_update:
  assumes "\<And>r. r \<in> set rows \<Longrightarrow> P r \<Longrightarrow> call_row_step store r (f r)" "calls_inv rows"
  shows "calls_inv (sql_update P f rows)"
proof -
  have "map tcr_id (sql_update P f rows) = map tcr_id rows"
    "map (\<lambda>r. (tcr_run_id r, tcr_idempotency_key r)) (sql_update P f rows)
      = map (\<lambda>r. (tcr_run_id r, tcr_idempotency_key r)) rows"
    using assms(1) by (auto simp: sql_update_def dest: call_row_step_facts)
  moreover have "\<forall>r \<in> set (sql_update P f rows). call_row_ok r"
    using assms by (auto simp: sql_update_def calls_inv_def dest: call_row_step_ok)
  ultimately show ?thesis using assms(2) by (simp add: calls_inv_def)
qed

lemma calls_inv_inj:
  "calls_inv rows \<Longrightarrow> r \<in> set rows \<Longrightarrow> q \<in> set rows \<Longrightarrow> tcr_id r = tcr_id q \<Longrightarrow> r = q"
  by (auto simp: calls_inv_def distinct_map inj_on_def)

lemma find_call_by_id:
  assumes "distinct (map tcr_id rows)" "r \<in> set rows"
  shows "find (\<lambda>q. tcr_id q = tcr_id r) rows = Some r"
  using assms by (induction rows) force+

lemma find_call_by_key:
  assumes "calls_inv rows" "r \<in> set rows"
  shows "find (\<lambda>q. tcr_run_id q = tcr_run_id r \<and> tcr_idempotency_key q = tcr_idempotency_key r) rows = Some r"
proof -
  have "distinct (map (\<lambda>r. (tcr_run_id r, tcr_idempotency_key r)) rows)"
    using assms(1) by (simp add: calls_inv_def)
  with assms(2) show ?thesis by (induction rows) force+
qed

lemma find_tool_call_row:
  assumes "calls_inv (cdb_calls db)" "r \<in> set (cdb_calls db)"
  shows "find_tool_call db (tcr_id r) = decode_tool_call r"
  using assms find_call_by_id [of "cdb_calls db" r] by (simp add: find_tool_call_def calls_inv_def)

lemma find_tool_call_Ok:
  assumes "find_tool_call db cid = Ok c"
  obtains r where "r \<in> set (cdb_calls db)" "tcr_id r = cid" "decode_tool_call r = Ok c"
  using assms that by (auto simp: find_tool_call_def dest!: find_SomeD)

section \<open>Writers that interleave\<close>

record call_sys =
  sys_db :: call_db
  sys_reads :: "StoredToolCall list"

inductive sys_step :: "call_sys \<Rightarrow> call_sys \<Rightarrow> bool" where
  act_admit: "NewToolCall_new cid origin target binding corr at = Ok new
    \<Longrightarrow> sys_step s (s\<lparr>sys_db := fst (admit_tool_call pe (sys_db s) new)\<rparr>)"
| act_read: "find_tool_call (sys_db s) cid = Ok call
    \<Longrightarrow> sys_step s (s\<lparr>sys_reads := call # sys_reads s\<rparr>)"
| act_write: "call \<in> set (sys_reads s) \<Longrightarrow> record_honest rec
    \<Longrightarrow> sys_step s (s\<lparr>sys_db := fst (write_outcome (sys_db s) (stc_id call) call rec out at)\<rparr>)"
| act_link: "sys_step s (s\<lparr>sys_db := fst (link_tool_call_approval ae (sys_db s) cid aid now)\<rparr>)"
| act_runs: "db_step (cdb_store (sys_db s)) store
    \<Longrightarrow> sys_step s (s\<lparr>sys_db := (sys_db s)\<lparr>cdb_store := store\<rparr>\<rparr>)"

text \<open>A call read earlier is the row as it is, or the row has a higher version by now.\<close>

definition read_current :: "tool_call_row list \<Rightarrow> StoredToolCall \<Rightarrow> bool" where
  "read_current rows call \<longleftrightarrow> (\<exists>r \<in> set rows. tcr_id r = stc_id call \<and> stc_version call \<le> tcr_version r
     \<and> (tcr_version r = stc_version call \<longrightarrow> decode_tool_call r = Ok call))"

definition sys_inv :: "call_sys \<Rightarrow> bool" where
  "sys_inv s \<longleftrightarrow> db_inv (cdb_store (sys_db s)) \<and> calls_inv (cdb_calls (sys_db s))
     \<and> (\<forall>call \<in> set (sys_reads s). read_current (cdb_calls (sys_db s)) call)"

definition empty_sys :: call_sys where
  "empty_sys = \<lparr>sys_db = \<lparr>cdb_store = empty_db, cdb_calls = []\<rparr>, sys_reads = []\<rparr>"

lemma empty_sys_inv: "sys_inv empty_sys"
  by (simp add: sys_inv_def empty_sys_def empty_db_inv calls_inv_def)

lemma read_current_step:
  assumes "calls_step store rows rows'" "read_current rows call"
  shows "read_current rows' call"
proof -
  from assms(2) obtain r where r: "r \<in> set rows" "tcr_id r = stc_id call"
      "stc_version call \<le> tcr_version r" "tcr_version r = stc_version call \<longrightarrow> decode_tool_call r = Ok call"
    by (auto simp: read_current_def)
  from calls_step_member [OF assms(1) r(1)] obtain r' where "r' \<in> set rows'"
      "r' = r \<or> call_row_step store r r'" .
  with r show ?thesis
    unfolding read_current_def by (intro bexI [of _ r']) (auto dest: call_row_step_facts(1,4))
qed

text \<open>What each operation does to the table, stale reads included.\<close>

lemma admit_cases:
  assumes "NewToolCall_new cid origin target binding corr at = Ok new"
  obtains (refused) "fst (admit_tool_call pe db new) = db"
  | (added) "fst (admit_tool_call pe db new) = db\<lparr>cdb_calls := cdb_calls db @ [admitted_row new]\<rparr>"
      "tool_call_checks (admitted_row new)"
      "\<forall>r \<in> set (cdb_calls db). tcr_id r \<noteq> ntc_id new"
      "\<forall>r \<in> set (cdb_calls db). (tcr_run_id r, tcr_idempotency_key r)
         \<noteq> (origin_run_id (ntc_origin new), binding_idempotency_key (ntc_binding new))"
      "snd (admit_tool_call pe db new) = Ok (ntc_id new)"
proof -
  have "fst (admit_tool_call pe db new) = db \<or>
     (fst (admit_tool_call pe db new) = db\<lparr>cdb_calls := cdb_calls db @ [admitted_row new]\<rparr>
      \<and> tool_call_checks (admitted_row new)
      \<and> (\<forall>r \<in> set (cdb_calls db). tcr_id r \<noteq> ntc_id new)
      \<and> (\<forall>r \<in> set (cdb_calls db). (tcr_run_id r, tcr_idempotency_key r)
         \<noteq> (origin_run_id (ntc_origin new), binding_idempotency_key (ntc_binding new)))
      \<and> snd (admit_tool_call pe db new) = Ok (ntc_id new))"
    unfolding admit_tool_call_def Let_def
    by (auto simp: list_ex_iff admitted_row_def split: if_splits)
  then show ?thesis using that by blast
qed

lemma admitted_row_facts [simp]:
  "row_outcome (admitted_row new) = Some Requested" "tcr_id (admitted_row new) = ntc_id new"
  "tcr_run_id (admitted_row new) = origin_run_id (ntc_origin new)"
  "tcr_idempotency_key (admitted_row new) = binding_idempotency_key (ntc_binding new)"
  by (simp_all add: row_outcome_Some admitted_row_def)

lemma admitted_row_ok: "tool_call_checks (admitted_row new) \<Longrightarrow> call_row_ok (admitted_row new)"
  by (simp add: call_row_ok_def) (simp add: admitted_row_def record_honest_def)

lemma as_str_gate:
  "ToolOutcome_as_str oc \<in> {lit ''authorized'', lit ''submitted''} \<longleftrightarrow> oc \<in> {Authorized, Submitted}"
  by (cases oc) simp_all

lemma write_outcome_cases:
  assumes "calls_inv (cdb_calls db)" "read_current (cdb_calls db) call" "record_honest rec"
  obtains (refused) "fst (write_outcome db (stc_id call) call rec out at) = db"
  | (written) r where "r \<in> set (cdb_calls db)" "decode_tool_call r = Ok call"
      "call_row_step (cdb_store db) r (outcome_row rec out at r)"
      "fst (write_outcome db (stc_id call) call rec out at)
        = db\<lparr>cdb_calls := sql_update (\<lambda>q. q = r) (outcome_row rec out at) (cdb_calls db)\<rparr>"
      "can_advance_to (StoredToolCall_outcome call) (rec_outcome rec)"
      "rec_outcome rec \<in> {Authorized, Submitted} \<longrightarrow> run_open_for_calls (cdb_store db) (tcr_run_id r)"
proof (cases "fst (write_outcome db (stc_id call) call rec out at) = db")
  case False
  let ?hit = "outcome_hit (cdb_store db) (stc_id call) (stc_version call) (rec_outcome rec)"
  from False have adv: "can_advance_to (StoredToolCall_outcome call) (rec_outcome rec)"
      and checks: "list_all tool_call_checks (map (outcome_row rec out at) (filter ?hit (cdb_calls db)))"
      and hit: "rows_affected ?hit (cdb_calls db) \<noteq> 0"
      and eff: "fst (write_outcome db (stc_id call) call rec out at)
        = db\<lparr>cdb_calls := sql_update ?hit (outcome_row rec out at) (cdb_calls db)\<rparr>"
    by (auto simp: write_outcome_def Let_def split: if_splits)
  from hit obtain q where q: "q \<in> set (cdb_calls db)" "?hit q"
    by (auto simp: rows_affected_def filter_empty_conv)
  from assms(2) obtain r where r: "r \<in> set (cdb_calls db)" "tcr_id r = stc_id call"
      "tcr_version r = stc_version call \<longrightarrow> decode_tool_call r = Ok call"
    by (auto simp: read_current_def)
  with q have "r = q" by (intro calls_inv_inj [OF assms(1)]) (auto simp: outcome_hit_def)
  with q r have dec: "decode_tool_call r = Ok call" and gate: "?hit r" by (auto simp: outcome_hit_def)
  have only: "?hit x \<longleftrightarrow> x = r" if "x \<in> set (cdb_calls db)" for x
    using that gate r calls_inv_inj [OF assms(1), of x r] by (auto simp: outcome_hit_def)
  then have "sql_update ?hit (outcome_row rec out at) (cdb_calls db)
      = sql_update (\<lambda>q. q = r) (outcome_row rec out at) (cdb_calls db)"
    by (simp add: sql_update_def)
  moreover have opened: "rec_outcome rec \<in> {Authorized, Submitted}
      \<longrightarrow> run_open_for_calls (cdb_store db) (tcr_run_id r)"
    using gate as_str_gate [of "rec_outcome rec"] by (auto simp: outcome_hit_def)
  moreover have "call_row_step (cdb_store db) r (outcome_row rec out at r)"
    using checks gate r(1)
    by (intro call_row_step.advance [OF decode_tool_call_fields(4) [OF dec] adv assms(3) opened])
      (auto simp: list_all_iff)
  ultimately show ?thesis using written [OF r(1) dec _ _ adv] eff by simp
qed

lemma link_cases:
  obtains (refused) "fst (link_tool_call_approval ae db cid aid now) = db"
  | (linked) "fst (link_tool_call_approval ae db cid aid now) = db\<lparr>cdb_calls :=
      sql_update (\<lambda>r. tcr_id r = cid \<and> tcr_approval_id r = None) (link_row aid now) (cdb_calls db)\<rparr>"
      "ae aid"
proof -
  have "fst (link_tool_call_approval ae db cid aid now) = db
    \<or> (fst (link_tool_call_approval ae db cid aid now) = db\<lparr>cdb_calls :=
      sql_update (\<lambda>r. tcr_id r = cid \<and> tcr_approval_id r = None) (link_row aid now) (cdb_calls db)\<rparr>
      \<and> ae aid)"
    by (auto simp: link_tool_call_approval_def Let_def)
  then show ?thesis using that by blast
qed

lemma link_step:
  "call_row_step store r (link_row aid now r)" if "tcr_id r = cid \<and> tcr_approval_id r = None"
  using that by (intro call_row_step.link) simp

text \<open>Every step but a run's own moves the call table by at most one write per row.\<close>

lemma sys_step_calls:
  assumes "sys_step s s'" "sys_inv s"
  shows "calls_step (cdb_store (sys_db s)) (cdb_calls (sys_db s)) (cdb_calls (sys_db s'))
    \<and> calls_inv (cdb_calls (sys_db s')) \<and> db_grows (cdb_store (sys_db s)) (cdb_store (sys_db s'))"
  using assms(1)
proof (cases rule: sys_step.cases)
  case (act_admit cid origin target binding corr at new pe)
  from act_admit(2) show ?thesis
  proof (cases rule: admit_cases [of _ _ _ _ _ _ _ pe "sys_db s"])
    case added
    with assms(2) admitted_row_ok [of new] show ?thesis
      by (auto simp: act_admit sys_inv_def calls_inv_def)
  qed (use assms(2) in \<open>simp add: act_admit sys_inv_def\<close>)
next
  case (act_write call rec out at)
  have inv: "calls_inv (cdb_calls (sys_db s))" "read_current (cdb_calls (sys_db s)) call"
    using assms(2) act_write by (auto simp: sys_inv_def)
  from inv act_write(3) show ?thesis
  proof (cases rule: write_outcome_cases [of _ _ _ out at])
    case (written r)
    then show ?thesis
      using inv(1) by (auto simp: act_write intro!: calls_step_update calls_inv_update)
  qed (use inv in \<open>simp add: act_write\<close>)
next
  case (act_link ae cid aid now)
  show ?thesis
  proof (cases rule: link_cases [of ae "sys_db s" cid aid now])
    case linked
    then show ?thesis using assms(2)
      by (auto simp: act_link sys_inv_def intro!: calls_step_update calls_inv_update link_step)
  qed (use assms(2) in \<open>simp add: act_link sys_inv_def\<close>)
qed (use assms(2) in \<open>auto simp: sys_inv_def db_step_grows\<close>)

lemma sys_step_inv:
  assumes "sys_step s s'" "sys_inv s"
  shows "sys_inv s'"
proof -
  note step = sys_step_calls [OF assms]
  have "read_current (cdb_calls (sys_db s')) call" if "call \<in> set (sys_reads s')" for call
  proof (cases "call \<in> set (sys_reads s)")
    case True
    with assms(2) step show ?thesis by (auto simp: sys_inv_def intro: read_current_step)
  next
    case False
    with assms(1) that obtain cid where "find_tool_call (sys_db s) cid = Ok call" "sys_db s' = sys_db s"
      by (cases rule: sys_step.cases) auto
    then show ?thesis
      by (auto simp: read_current_def decode_tool_call_fields elim!: find_tool_call_Ok)
  qed
  with step assms(2) show ?thesis by (auto simp: sys_inv_def db_grows_def)
qed

text \<open>The handlers are sequences of these steps: a read, then a write from what was read.\<close>

lemma record_is_steps:
  assumes "record_honest rec"
  shows "\<exists>reads'. sys_step\<^sup>*\<^sup>* \<lparr>sys_db = db, sys_reads = reads\<rparr>
    \<lparr>sys_db = fst (record_tool_outcome db cid rec out at), sys_reads = reads'\<rparr>"
proof (cases "find_tool_call db cid")
  case (Inl e)
  then show ?thesis by (intro exI [of _ reads]) (simp add: record_tool_outcome_def)
next
  case (Inr c)
  then have c: "stc_id c = cid" by (auto elim!: find_tool_call_Ok simp: decode_tool_call_fields)
  let ?s = "\<lparr>sys_db = db, sys_reads = reads\<rparr>" and ?t = "\<lparr>sys_db = db, sys_reads = c # reads\<rparr>"
  have "sys_step ?s ?t" using act_read [of ?s cid c] Inr by simp
  moreover have "sys_step ?t \<lparr>sys_db = fst (record_tool_outcome db cid rec out at), sys_reads = c # reads\<rparr>"
    using act_write [of c ?t rec out at] assms c Inr by (simp add: record_tool_outcome_def)
  ultimately show ?thesis by (meson r_into_rtranclp rtranclp.rtrancl_into_rtrancl)
qed

lemma orphan_record_honest: "orphan_record w = Ok rec \<Longrightarrow> record_honest rec"
  using constructors_honest(3) from_stored_honest by (auto simp: orphan_record_def split: if_splits)

lemma settle_is_steps:
  "\<exists>reads'. sys_step\<^sup>*\<^sup>* \<lparr>sys_db = db, sys_reads = reads\<rparr>
    \<lparr>sys_db = fst (settle_loop db at rows acc), sys_reads = reads'\<rparr>"
proof (induction rows arbitrary: db reads acc)
  case Nil
  show ?case by (intro exI [of _ reads]) simp
next
  case (Cons row rows)
  obtain cid w where row: "row = (cid, w)" by (cases row)
  show ?case
  proof (cases "orphan_record w")
    case (Inl e)
    then show ?thesis by (intro exI [of _ reads]) (simp add: row)
  next
    case (Inr rec)
    obtain db' res where res: "record_tool_outcome db cid rec None at = (db', res)" by force
    with record_is_steps [OF orphan_record_honest [OF Inr], of db reads cid None at] obtain mid where
      mid: "sys_step\<^sup>*\<^sup>* \<lparr>sys_db = db, sys_reads = reads\<rparr> \<lparr>sys_db = db', sys_reads = mid\<rparr>" by auto
    show ?thesis
    proof (cases res)
      case (Inr stored)
      with Cons.IH [of db' mid "acc @ [(cid, StoredToolCall_outcome stored)]"] mid res row
        \<open>orphan_record w = Ok rec\<close> show ?thesis by (auto intro: rtranclp_trans)
    qed (use mid res row \<open>orphan_record w = Ok rec\<close> in auto)
  qed
qed

section \<open>The ledger the table implements\<close>

record ledger =
  led_outcome :: "ident \<rightharpoonup> ToolOutcome"
  led_run :: "ident \<rightharpoonup> ident"
  led_key :: "ident \<times> rstr \<rightharpoonup> ident"
  led_stopped :: "ident set"

inductive ledger_step :: "ledger \<Rightarrow> ledger \<Rightarrow> bool" where
  claim: "led_outcome L cid = None \<Longrightarrow> led_key L (rid, key) = None \<Longrightarrow>
    ledger_step L (L\<lparr>led_outcome := (led_outcome L)(cid \<mapsto> Requested),
      led_run := (led_run L)(cid \<mapsto> rid), led_key := (led_key L)((rid, key) \<mapsto> cid)\<rparr>)"
| move: "led_outcome L cid = Some oc \<Longrightarrow> can_advance_to oc oc'
    \<Longrightarrow> led_run L cid = Some rid \<Longrightarrow> oc' \<in> {Authorized, Submitted} \<longrightarrow> rid \<notin> led_stopped L
    \<Longrightarrow> ledger_step L (L\<lparr>led_outcome := (led_outcome L)(cid \<mapsto> oc')\<rparr>)"
| stop: "led_stopped L \<subseteq> S \<Longrightarrow> ledger_step L (L\<lparr>led_stopped := S\<rparr>)"

definition run_stopped :: "run_db \<Rightarrow> ident \<Rightarrow> bool" where
  "run_stopped store rid \<longleftrightarrow> (\<exists>r \<in> set (db_runs store). run_id r = rid
     \<and> (run_cancellation_requested_at r \<noteq> None \<or> run_state r = Cancelled))"

definition ledger_of :: "call_sys \<Rightarrow> ledger" where
  "ledger_of s = \<lparr>
     led_outcome = (\<lambda>cid. Option.bind (find (\<lambda>r. tcr_id r = cid) (cdb_calls (sys_db s))) row_outcome),
     led_run = (\<lambda>cid. map_option tcr_run_id (find (\<lambda>r. tcr_id r = cid) (cdb_calls (sys_db s)))),
     led_key = (\<lambda>p. map_option tcr_id (find (\<lambda>r. (tcr_run_id r, tcr_idempotency_key r) = p)
                    (cdb_calls (sys_db s)))),
     led_stopped = {rid. run_stopped (cdb_store (sys_db s)) rid}\<rparr>"

text \<open>A run asked to stop stays so, whatever the run store does next.\<close>

lemma run_stopped_grows:
  assumes "db_grows store store'" "run_stopped store rid"
  shows "run_stopped store' rid"
proof -
  from assms(2) obtain r where r: "r \<in> set (db_runs store)" "run_id r = rid"
      "run_cancellation_requested_at r \<noteq> None \<or> run_state r = Cancelled"
    by (auto simp: run_stopped_def)
  from assms(1) have "runs_evolve (db_runs store) (db_runs store')" by (simp add: db_grows_def)
  from runs_evolve_member [OF this r(1)] obtain r' where r': "r' \<in> set (db_runs store')"
      "row_step\<^sup>*\<^sup>* r r'" .
  note f = row_steps_facts [OF r'(2)]
  from r(3) have "run_cancellation_requested_at r' \<noteq> None \<or> run_state r' = Cancelled"
  proof
    assume "run_state r = Cancelled"
    then have "r' = r" by (intro f(4)) (simp add: RunState_is_terminal_def)
    with \<open>run_state r = Cancelled\<close> show ?thesis by simp
  qed (use f(5) in auto)
  with r' f(1) r(2) show ?thesis by (auto simp: run_stopped_def)
qed

lemma open_not_stopped:
  assumes "db_inv store" "run_open_for_calls store rid"
  shows "\<not> run_stopped store rid"
  using assms runs_inv_inj
  by (fastforce simp: run_stopped_def run_open_for_calls_def list_ex_iff db_inv_def)

lemma ledger_of_added:
  assumes "cdb_store db' = cdb_store (sys_db s)" "cdb_calls db' = cdb_calls (sys_db s) @ [admitted_row new]"
    and "\<forall>r \<in> set (cdb_calls (sys_db s)). tcr_id r \<noteq> ntc_id new"
    and "\<forall>r \<in> set (cdb_calls (sys_db s)). (tcr_run_id r, tcr_idempotency_key r)
         \<noteq> (origin_run_id (ntc_origin new), binding_idempotency_key (ntc_binding new))"
  shows "ledger_step (ledger_of s) (ledger_of (s\<lparr>sys_db := db'\<rparr>))"
proof -
  let ?c = "ntc_id new" and ?r = "origin_run_id (ntc_origin new)"
  let ?k = "binding_idempotency_key (ntc_binding new)"
  have none: "find (\<lambda>r. tcr_id r = ?c) (cdb_calls (sys_db s)) = None"
    "find (\<lambda>r. (tcr_run_id r, tcr_idempotency_key r) = (?r, ?k)) (cdb_calls (sys_db s)) = None"
    using assms(3,4) by (auto intro!: find_none)
  have "ledger_of (s\<lparr>sys_db := db'\<rparr>) = (ledger_of s)\<lparr>
      led_outcome := (led_outcome (ledger_of s))(?c \<mapsto> Requested),
      led_run := (led_run (ledger_of s))(?c \<mapsto> ?r), led_key := (led_key (ledger_of s))((?r, ?k) \<mapsto> ?c)\<rparr>"
    using none by (auto simp: ledger_of_def assms(1,2) find_append fun_eq_iff split: option.splits)
  moreover have "led_outcome (ledger_of s) ?c = None" "led_key (ledger_of s) (?r, ?k) = None"
    using none by (simp_all add: ledger_of_def)
  ultimately show ?thesis by (metis ledger_step.claim)
qed

lemma ledger_of_written:
  assumes inv: "sys_inv s" and r: "r \<in> set (cdb_calls (sys_db s))"
    and step: "call_row_step (cdb_store (sys_db s)) r (f r)" "row_outcome r = Some oc"
      "row_outcome (f r) = Some oc'" "can_advance_to oc oc'"
      "oc' \<in> {Authorized, Submitted} \<longrightarrow> run_open_for_calls (cdb_store (sys_db s)) (tcr_run_id r)"
    and db': "db' = (sys_db s)\<lparr>cdb_calls := sql_update (\<lambda>q. q = r) f (cdb_calls (sys_db s))\<rparr>"
  shows "ledger_step (ledger_of s) (ledger_of (s\<lparr>sys_db := db'\<rparr>))"
proof -
  let ?rows = "cdb_calls (sys_db s)"
  from inv have rows: "calls_inv ?rows" and store: "db_inv (cdb_store (sys_db s))"
    by (simp_all add: sys_inv_def)
  note f = call_row_step_facts [OF step(1)]
  have found: "find (\<lambda>q. tcr_id q = tcr_id r) ?rows = Some r"
    using rows r by (intro find_call_by_id) (simp_all add: calls_inv_def)
  have upd: "find (\<lambda>q. tcr_id q = c) (sql_update (\<lambda>q. q = r) f ?rows)
      = map_option (\<lambda>q. if q = r then f q else q) (find (\<lambda>q. tcr_id q = c) ?rows)"
    "find (\<lambda>q. (tcr_run_id q, tcr_idempotency_key q) = p) (sql_update (\<lambda>q. q = r) f ?rows)
      = map_option (\<lambda>q. if q = r then f q else q)
          (find (\<lambda>q. (tcr_run_id q, tcr_idempotency_key q) = p) ?rows)" for c p
    by (rule find_sql_update; use f in auto)+
  have other: "find (\<lambda>q. tcr_id q = c) ?rows \<noteq> Some r" if "c \<noteq> tcr_id r" for c
    using that by (auto dest: find_SomeD)
  let ?s = "s\<lparr>sys_db := db'\<rparr>"
  have "led_outcome (ledger_of ?s) c = ((led_outcome (ledger_of s))(tcr_id r \<mapsto> oc')) c" for c
    using found step(3) other [of c] by (cases "find (\<lambda>q. tcr_id q = c) ?rows")
      (auto simp: ledger_of_def db' upd)
  moreover have "led_run (ledger_of ?s) c = led_run (ledger_of s) c"
      "led_key (ledger_of ?s) k = led_key (ledger_of s) k" for c k
    using f by (auto simp: ledger_of_def db' upd option.map_comp comp_def intro!: map_option_cong)
  moreover have "led_stopped (ledger_of ?s) = led_stopped (ledger_of s)"
    by (simp add: ledger_of_def db')
  ultimately have "ledger_of ?s
      = (ledger_of s)\<lparr>led_outcome := (led_outcome (ledger_of s))(tcr_id r \<mapsto> oc')\<rparr>"
    by (intro ledger.equality ext) simp_all
  moreover have "led_outcome (ledger_of s) (tcr_id r) = Some oc"
    "led_run (ledger_of s) (tcr_id r) = Some (tcr_run_id r)"
    using found step(2) by (simp_all add: ledger_of_def)
  moreover have "oc' \<in> {Authorized, Submitted} \<longrightarrow> tcr_run_id r \<notin> led_stopped (ledger_of s)"
    using step(5) open_not_stopped [OF store] by (simp add: ledger_of_def)
  ultimately show ?thesis using ledger_step.move [OF _ step(4)] by metis
qed

lemma ledger_of_linked:
  assumes "cdb_store db' = cdb_store (sys_db s)"
    and "cdb_calls db' = sql_update P (link_row aid now) (cdb_calls (sys_db s))"
  shows "ledger_of (s\<lparr>sys_db := db'\<rparr>) = ledger_of s"
proof -
  have same: "tcr_id (link_row aid now r) = tcr_id r" "tcr_run_id (link_row aid now r) = tcr_run_id r"
    "tcr_idempotency_key (link_row aid now r) = tcr_idempotency_key r" for r
    by (simp_all add: link_row_def)
  have upd: "find Q (cdb_calls db') = map_option (\<lambda>q. if P q then link_row aid now q else q)
      (find Q (cdb_calls (sys_db s)))" if "\<And>r. Q (link_row aid now r) = Q r" for Q
    unfolding assms(2) by (rule find_sql_update) (rule that)
  show ?thesis
    by (auto simp: ledger_of_def assms(1) upd same fun_eq_iff map_option_case split: option.splits)
qed

lemma sys_step_simulated:
  assumes "sys_inv s" "sys_step s s'"
  shows "ledger_step\<^sup>*\<^sup>* (ledger_of s) (ledger_of s')"
  using assms(2)
proof (cases rule: sys_step.cases)
  case (act_admit cid origin target binding corr at new pe)
  from act_admit(2) show ?thesis
  proof (cases rule: admit_cases [of _ _ _ _ _ _ _ pe "sys_db s"])
    case added
    then show ?thesis unfolding act_admit(1) by (intro r_into_rtranclp ledger_of_added) simp_all
  qed (simp add: act_admit)
next
  case (act_write call rec out at)
  with assms(1) have "calls_inv (cdb_calls (sys_db s))" "read_current (cdb_calls (sys_db s)) call"
    by (auto simp: sys_inv_def)
  from this act_write(3) show ?thesis
  proof (cases rule: write_outcome_cases [of _ _ _ out at])
    case (written r)
    then show ?thesis unfolding act_write(1)
      by (intro r_into_rtranclp ledger_of_written [OF assms(1) written(1,3)
            decode_tool_call_fields(4) [OF written(2)] _ written(5,6,4)]) simp
  qed (simp add: act_write)
next
  case (act_link ae cid aid now)
  show ?thesis
    by (cases rule: link_cases [of ae "sys_db s" cid aid now])
      (simp_all add: act_link ledger_of_linked)
next
  case (act_runs store)
  have "led_stopped (ledger_of s) \<subseteq> {rid. run_stopped store rid}"
    using run_stopped_grows [OF db_step_grows [OF act_runs(2)]] by (auto simp: ledger_of_def)
  then have "ledger_step (ledger_of s) ((ledger_of s)\<lparr>led_stopped := {rid. run_stopped store rid}\<rparr>)"
    by (rule ledger_step.stop)
  then show ?thesis by (intro r_into_rtranclp) (simp add: act_runs ledger_of_def)
next
  case (act_read cid call)
  then show ?thesis by (simp add: ledger_of_def)
qed

interpretation call_ledger: forward_simulation sys_step ledger_step ledger_of sys_inv
  by unfold_locales (simp_all add: sys_step_inv sys_step_simulated)

section \<open>The outcome write in closed form\<close>

text \<open>What recording an outcome does when no other writer comes between its read and its write.\<close>

definition record_spec ::
  "call_db \<Rightarrow> ident \<Rightarrow> ToolOutcomeRecord \<Rightarrow> (rstr \<times> bool) option \<Rightarrow> instant
    \<Rightarrow> call_db \<times> (ToolCallError + StoredToolCall)" where
  "record_spec db cid rec out at =
     (case find (\<lambda>r. tcr_id r = cid) (cdb_calls db) of
        None \<Rightarrow> (db, Err ToolCallNotFound)
      | Some r \<Rightarrow>
          let oc = the (row_outcome r); r' = outcome_row rec out at r in
          if ToolOutcome_is_terminal oc
          then (db, if oc = rec_outcome rec then decode_tool_call r
                    else Err (ToolCallAlreadyResolved (ToolOutcome_as_str oc)))
          else if \<not> can_advance_to oc (rec_outcome rec)
          then (db, Err (StoredToolCallInvalid (lit ''outcome'')))
          else if rec_outcome rec \<in> {Authorized, Submitted}
                  \<and> \<not> run_open_for_calls (cdb_store db) (tcr_run_id r)
          then (db, Err ToolCallConflict)
          else if \<not> tool_call_checks r'
          then (db, Err (Call_Sqlite (lit ''record a tool outcome'')))
          else (db\<lparr>cdb_calls := map (\<lambda>q. if tcr_id q = cid then r' else q) (cdb_calls db)\<rparr>,
                decode_tool_call r'))"

lemma sql_update_point:
  assumes "calls_inv rows" "r \<in> set rows" "\<And>q. q \<in> set rows \<Longrightarrow> P q \<longleftrightarrow> tcr_id q = tcr_id r"
  shows "sql_update P f rows = map (\<lambda>q. if tcr_id q = tcr_id r then f r else q) rows"
  using assms(3) calls_inv_inj [OF assms(1) _ assms(2)] by (auto simp: sql_update_def)

lemma find_written:
  assumes "r \<in> set rows" "tcr_id r' = tcr_id r"
  shows "find (\<lambda>q. tcr_id q = tcr_id r) (map (\<lambda>q. if tcr_id q = tcr_id r then r' else q) rows) = Some r'"
  using assms by (induction rows) auto

lemma outcome_row_id [simp]: "tcr_id (outcome_row rec out at r) = tcr_id r"
  by (simp add: outcome_row_def)

lemma record_tool_outcome_closed:
  assumes inv: "calls_inv (cdb_calls db)"
  shows "record_tool_outcome db cid rec out at = record_spec db cid rec out at"
proof (cases "find (\<lambda>r. tcr_id r = cid) (cdb_calls db)")
  case None
  then show ?thesis by (simp add: record_tool_outcome_def find_tool_call_def record_spec_def)
next
  case (Some r)
  then have r: "r \<in> set (cdb_calls db)" "tcr_id r = cid" by (auto dest: find_SomeD)
  with inv have "call_row_ok r" by (simp add: calls_inv_def)
  then obtain c where c: "decode_tool_call r = Ok c" by (rule decode_tool_call_ok)
  note f = decode_tool_call_fields [OF c]
  have read: "find_tool_call db cid = Ok c" using find_tool_call_row [OF inv r(1)] r c by simp
  let ?hit = "outcome_hit (cdb_store db) cid (stc_version c) (rec_outcome rec)"
  let ?r' = "outcome_row rec out at r"
  define opened where "opened \<longleftrightarrow>
    (rec_outcome rec \<in> {Authorized, Submitted} \<longrightarrow> run_open_for_calls (cdb_store db) (tcr_run_id r))"
  have hit: "?hit q \<longleftrightarrow> tcr_id q = tcr_id r \<and> opened" if "q \<in> set (cdb_calls db)" for q
    using that calls_inv_inj [OF inv that r(1)] r(2) f(2) as_str_gate [of "rec_outcome rec"]
    by (auto simp: outcome_hit_def opened_def)
  have shut: "filter ?hit (cdb_calls db) = []" if "\<not> opened"
    using hit that by (simp add: filter_empty_conv)
  have open': "rows_affected ?hit (cdb_calls db) \<noteq> 0"
    "list_all tool_call_checks (map (outcome_row rec out at) (filter ?hit (cdb_calls db)))
      \<longleftrightarrow> tool_call_checks ?r'" if opened
    using hit that r(1) calls_inv_inj [OF inv _ r(1)]
    by (auto simp: rows_affected_def filter_empty_conv list_all_iff)
  have upd: "sql_update ?hit (outcome_row rec out at) (cdb_calls db)
      = map (\<lambda>q. if tcr_id q = cid then ?r' else q) (cdb_calls db)" if opened
    using sql_update_point [OF inv r(1), of ?hit] hit that r(2) by simp
  have again: "find_tool_call (db\<lparr>cdb_calls := map (\<lambda>q. if tcr_id q = cid then ?r' else q) (cdb_calls db)\<rparr>) cid
      = decode_tool_call ?r'"
    using find_written [OF r(1), of ?r'] r(2) by (simp add: find_tool_call_def)
  show ?thesis
    using shut open' upd again
    by (cases opened) (auto simp: record_tool_outcome_def read write_outcome_def Let_def f(4) c
        record_spec_def Some rows_affected_def opened_def)
qed

section \<open>Orphans\<close>

definition is_orphan :: "tool_call_row \<Rightarrow> bool" where
  "is_orphan r \<longleftrightarrow> row_outcome r = Some Authorized \<or> row_outcome r = Some Submitted"

definition orphan_verdict :: "tool_call_row \<Rightarrow> ToolOutcomeRecord" where
  "orphan_verdict r =
     (if row_outcome r = Some Authorized
      then \<lparr>rec_outcome = Tool_Failed, rec_evidence = None, rec_reason = Some ORPHANED_BEFORE_SENDING\<rparr>
      else \<lparr>rec_outcome = Unknown, rec_evidence = None, rec_reason = Some ORPHANED_WHILE_RUNNING\<rparr>)"

definition settled_row :: "instant \<Rightarrow> tool_call_row \<Rightarrow> tool_call_row" where
  "settled_row at r = (if is_orphan r then outcome_row (orphan_verdict r) None at r else r)"

lemma orphan_texts:
  "bounded ORPHANED_BEFORE_SENDING e = Ok ORPHANED_BEFORE_SENDING"
  "bounded ORPHANED_WHILE_RUNNING e = Ok ORPHANED_WHILE_RUNNING"
proof -
  have "trim ORPHANED_BEFORE_SENDING = ORPHANED_BEFORE_SENDING"
    "trim ORPHANED_WHILE_RUNNING = ORPHANED_WHILE_RUNNING"
    by (intro trim_id disjI2; simp add: ORPHANED_BEFORE_SENDING_def ORPHANED_WHILE_RUNNING_def lit_def
        is_whitespace_def)+
  then show "bounded ORPHANED_BEFORE_SENDING e = Ok ORPHANED_BEFORE_SENDING"
    "bounded ORPHANED_WHILE_RUNNING e = Ok ORPHANED_WHILE_RUNNING"
    by (simp_all add: bounded_Ok ORPHANED_BEFORE_SENDING_def ORPHANED_WHILE_RUNNING_def lit_def
        str_len_def utf8_width_def is_control_def)
qed

lemma orphan_record_verdict:
  assumes "is_orphan r"
  shows "orphan_record (tcr_outcome r) = Ok (orphan_verdict r)" "record_honest (orphan_verdict r)"
  using assms orphan_texts
  by (auto simp: is_orphan_def row_outcome_Some orphan_record_def orphan_verdict_def
      ToolOutcomeRecord_failed_def ToolOutcomeRecord_from_stored_def transpose_bounded_def record_honest_def)

lemma orphan_edge:
  assumes "is_orphan r"
  shows "\<not> ToolOutcome_is_terminal (the (row_outcome r))"
    "can_advance_to (the (row_outcome r)) (rec_outcome (orphan_verdict r))"
    "rec_outcome (orphan_verdict r) \<noteq> Authorized" "rec_outcome (orphan_verdict r) \<noteq> Submitted"
  using assms by (auto simp: is_orphan_def orphan_verdict_def ToolOutcome_is_terminal_def)

lemma orphan_checks:
  assumes "call_row_ok r" "is_orphan r"
  shows "tool_call_checks (outcome_row (orphan_verdict r) None at r)"
proof -
  have "chars_between 1 512 ORPHANED_BEFORE_SENDING" "chars_between 1 512 ORPHANED_WHILE_RUNNING"
    by (simp_all add: chars_between_def ORPHANED_BEFORE_SENDING_def ORPHANED_WHILE_RUNNING_def)
  with assms show ?thesis
    by (cases "row_outcome r = Some Authorized")
      (simp_all add: call_row_ok_def tool_call_checks_def outcome_row_def orphan_verdict_def
        null_or_def is_reported_def)
qed

lemma orphan_step:
  assumes "call_row_ok r" "is_orphan r"
  shows "call_row_step store r (outcome_row (orphan_verdict r) None at r)"
  using assms orphan_record_verdict(2) [OF assms(2)] orphan_checks [OF assms, of at]
  by (auto simp: is_orphan_def orphan_verdict_def intro!: call_row_step.advance)

lemma record_orphan:
  assumes inv: "calls_inv (cdb_calls db)" and rows: "cdb_calls db = settled @ r # rest"
    and orphan: "is_orphan r"
  shows "\<exists>c. record_tool_outcome db (tcr_id r) (orphan_verdict r) None at
      = (db\<lparr>cdb_calls := settled @ outcome_row (orphan_verdict r) None at r # rest\<rparr>, Ok c)
      \<and> StoredToolCall_outcome c = rec_outcome (orphan_verdict r)"
    and "calls_inv (settled @ outcome_row (orphan_verdict r) None at r # rest)"
proof -
  let ?r' = "outcome_row (orphan_verdict r) None at r"
  have ok: "call_row_ok r" using inv rows by (simp add: calls_inv_def)
  note step = orphan_step [OF ok orphan, of "cdb_store db" at]
  have upd: "map (\<lambda>q. if tcr_id q = tcr_id r then ?r' else q) (cdb_calls db) = settled @ ?r' # rest"
    using inv by (auto simp: rows calls_inv_def intro!: map_idI) (metis imageI)+
  moreover have "sql_update (\<lambda>q. q = r) (outcome_row (orphan_verdict r) None at) (cdb_calls db)
      = map (\<lambda>q. if tcr_id q = tcr_id r then ?r' else q) (cdb_calls db)"
    using rows calls_inv_inj [OF inv] by (intro sql_update_point [OF inv]) auto
  moreover have "calls_inv (sql_update (\<lambda>q. q = r) (outcome_row (orphan_verdict r) None at) (cdb_calls db))"
    using step by (intro calls_inv_update [of _ _ "cdb_store db"] inv) simp
  ultimately show "calls_inv (settled @ ?r' # rest)" by simp
  from call_row_step_ok [OF step ok] obtain c where c: "decode_tool_call ?r' = Ok c"
    by (rule decode_tool_call_ok)
  have "find (\<lambda>q. tcr_id q = tcr_id r) (cdb_calls db) = Some r"
    using inv rows by (intro find_call_by_id) (simp_all add: calls_inv_def)
  then have "record_spec db (tcr_id r) (orphan_verdict r) None at
      = (db\<lparr>cdb_calls := settled @ ?r' # rest\<rparr>, Ok c)"
    using orphan_checks [OF ok orphan, of at] upd c orphan_edge [OF orphan]
    by (auto simp: record_spec_def Let_def)
  then show "\<exists>c. record_tool_outcome db (tcr_id r) (orphan_verdict r) None at
      = (db\<lparr>cdb_calls := settled @ ?r' # rest\<rparr>, Ok c)
      \<and> StoredToolCall_outcome c = rec_outcome (orphan_verdict r)"
    using record_tool_outcome_closed [OF inv] decode_tool_call_fields(4) [OF c] by auto
qed

lemma settle_loop_effect:
  assumes "calls_inv (settled @ todo)" "cdb_calls db = settled @ todo"
  shows "settle_loop db at (map (\<lambda>r. (tcr_id r, tcr_outcome r)) (filter is_orphan todo)) acc
    = (db\<lparr>cdb_calls := settled @ map (settled_row at) todo\<rparr>,
       Ok (acc @ map (\<lambda>r. (tcr_id r, rec_outcome (orphan_verdict r))) (filter is_orphan todo)))"
  using assms
proof (induction todo arbitrary: settled db acc)
  case Nil
  then show ?case by simp
next
  case (Cons r todo)
  show ?case
  proof (cases "is_orphan r")
    case True
    let ?r' = "outcome_row (orphan_verdict r) None at r"
    let ?db = "db\<lparr>cdb_calls := settled @ ?r' # todo\<rparr>"
    note step = record_orphan [of db settled r todo, OF _ Cons.prems(2) True]
    from step Cons.prems obtain c where c: "record_tool_outcome db (tcr_id r) (orphan_verdict r) None at
        = (?db, Ok c)" "StoredToolCall_outcome c = rec_outcome (orphan_verdict r)"
      by auto
    have "calls_inv ((settled @ [?r']) @ todo)" using step Cons.prems by simp
    from Cons.IH [OF this, of ?db] c True show ?thesis
      by (simp add: orphan_record_verdict settled_row_def)
  next
    case False
    then show ?thesis using Cons.IH [of "settled @ [r]" db] Cons.prems
      by (simp add: settled_row_def)
  qed
qed

lemma orphan_scan: "(tcr_outcome r \<in> {lit ''authorized'', lit ''submitted''}) = is_orphan r"
  by (auto simp: is_orphan_def row_outcome_Some)

section \<open>Rows through time\<close>

text \<open>What a row keeps for ever, and what it keeps once it is set.\<close>

definition row_kept :: "tool_call_row \<Rightarrow> tool_call_row \<Rightarrow> bool" where
  "row_kept r r' \<longleftrightarrow> tcr_id r' = tcr_id r \<and> tcr_run_id r' = tcr_run_id r
     \<and> tcr_idempotency_key r' = tcr_idempotency_key r \<and> tcr_tool r' = tcr_tool r
     \<and> tcr_tool_version r' = tcr_tool_version r \<and> tcr_intent_hash r' = tcr_intent_hash r
     \<and> tcr_receipt r' = tcr_receipt r \<and> tcr_policy_version r' = tcr_policy_version r
     \<and> tcr_version r \<le> tcr_version r'
     \<and> (\<forall>aid. tcr_approval_id r = Some aid \<longrightarrow> tcr_approval_id r' = Some aid)
     \<and> (\<forall>oc. row_outcome r = Some oc \<longrightarrow> ToolOutcome_is_terminal oc \<longrightarrow> row_outcome r' = Some oc
          \<and> tcr_evidence r' = tcr_evidence r \<and> tcr_reason r' = tcr_reason r \<and> tcr_output r' = tcr_output r)"

lemma row_kept_refl [simp, intro]: "row_kept r r"
  by (simp add: row_kept_def)

lemma row_kept_trans: "row_kept a b \<Longrightarrow> row_kept b c \<Longrightarrow> row_kept a c"
  by (auto simp: row_kept_def)

lemma call_row_step_kept:
  assumes "call_row_step store r r'"
  shows "row_kept r r'"
  using assms
proof (cases rule: call_row_step.cases)
  case (advance oc rec out at)
  with tool_life.terminal_stuck show ?thesis by (auto simp: row_kept_def outcome_row_def)
next
  case (link aid now)
  then show ?thesis by (simp add: row_kept_def) (simp add: link_row_def)
qed

lemma sys_steps_kept:
  assumes "sys_step\<^sup>*\<^sup>* s s'" "sys_inv s" "r \<in> set (cdb_calls (sys_db s))"
  obtains r' where "r' \<in> set (cdb_calls (sys_db s'))" "row_kept r r'"
proof -
  from assms(1,2) have "\<exists>r' \<in> set (cdb_calls (sys_db s')). row_kept r r'"
  proof (induction rule: rtranclp_induct)
    case base
    then show ?case using assms(3) by blast
  next
    case (step t u)
    then obtain q where q: "q \<in> set (cdb_calls (sys_db t))" "row_kept r q" by blast
    have "sys_inv t" using call_ledger.keeps_all [OF step(1)] step.prems by blast
    with sys_step_calls [OF step(2)] have
      "calls_step (cdb_store (sys_db t)) (cdb_calls (sys_db t)) (cdb_calls (sys_db u))" by blast
    then obtain q' where "q' \<in> set (cdb_calls (sys_db u))"
        "q' = q \<or> call_row_step (cdb_store (sys_db t)) q q'"
      using q(1) by (rule calls_step_member)
    with q(2) show ?case by (meson call_row_step_kept row_kept_refl row_kept_trans)
  qed
  then show ?thesis using that by blast
qed

section \<open>Properties\<close>

text \<open>C14: the call table implements the ledger. Whatever writers do, in whatever order and from
  however old a read, every state of the database stands for a ledger that was reached by claiming
  a fresh key, by a legal advance of one call (never into authorized or submitted for a run that
  has been asked to stop), or by stopping runs; and the ledger says of every row what the row
  says.\<close>

theorem call_ledger_refined:
  assumes "sys_step\<^sup>*\<^sup>* empty_sys s"
  shows "ledger_step\<^sup>*\<^sup>* \<lparr>led_outcome = Map.empty, led_run = Map.empty, led_key = Map.empty,
      led_stopped = {}\<rparr> (ledger_of s)
    \<and> (\<forall>r \<in> set (cdb_calls (sys_db s)). led_outcome (ledger_of s) (tcr_id r) = row_outcome r
        \<and> row_outcome r \<noteq> None \<and> led_run (ledger_of s) (tcr_id r) = Some (tcr_run_id r)
        \<and> led_key (ledger_of s) (tcr_run_id r, tcr_idempotency_key r) = Some (tcr_id r))"
proof (intro conjI ballI)
  have inv: "calls_inv (cdb_calls (sys_db s))"
    using call_ledger.keeps_all [OF assms empty_sys_inv] by (simp add: sys_inv_def)
  show "ledger_step\<^sup>*\<^sup>* \<lparr>led_outcome = Map.empty, led_run = Map.empty, led_key = Map.empty,
      led_stopped = {}\<rparr> (ledger_of s)"
    using call_ledger.simulates_all [OF assms empty_sys_inv]
    by (simp add: ledger_of_def empty_sys_def empty_db_def run_stopped_def)
  fix r assume r: "r \<in> set (cdb_calls (sys_db s))"
  with inv have "call_row_ok r" by (simp add: calls_inv_def)
  then show "row_outcome r \<noteq> None" by (auto simp: call_row_ok_def)
  have "find (\<lambda>q. tcr_id q = tcr_id r) (cdb_calls (sys_db s)) = Some r"
    using inv r by (intro find_call_by_id) (simp_all add: calls_inv_def)
  then show "led_outcome (ledger_of s) (tcr_id r) = row_outcome r"
    "led_run (ledger_of s) (tcr_id r) = Some (tcr_run_id r)"
    by (simp_all add: ledger_of_def)
  show "led_key (ledger_of s) (tcr_run_id r, tcr_idempotency_key r) = Some (tcr_id r)"
    using find_call_by_key [OF inv r] by (simp add: ledger_of_def)
qed

definition sample_new_call :: NewToolCall where
  "sample_new_call = \<lparr>ntc_id = replicate 36 102,
     ntc_origin = \<lparr>origin_workspace_id = replicate 36 99, origin_run_id = replicate 36 97,
       origin_step_id = None\<rparr>,
     ntc_target = \<lparr>target_tool = lit ''mail.send'', target_tool_version = lit ''1.0.0''\<rparr>,
     ntc_binding = \<lparr>binding_intent_hash = replicate 64 97, binding_idempotency_key = replicate 32 98,
       binding_receipt = lit ''{}'', binding_policy_version = lit ''p1'', binding_approval_id = None\<rparr>,
     ntc_correlation_id = replicate 36 101, ntc_created_at = 1\<rparr>"

definition sample_call_db :: call_db where
  "sample_call_db = fst (admit_tool_call (\<lambda>_. True) \<lparr>cdb_store = sample_db, cdb_calls = []\<rparr> sample_new_call)"

lemma str_len_replicate [simp]: "str_len (replicate n c) = n * utf8_width c"
  by (induction n) simp_all

lemma sample_call_checks: "tool_call_checks (admitted_row sample_new_call)"
  unfolding tool_call_checks_def
  by (simp add: admitted_row_def sample_new_call_def chars_between_def hex_glob_def null_or_def
      list_all_iff is_ascii_digit_def) (simp add: lit_def utf8_width_def)

lemma sample_call_db_eq:
  "sample_call_db = \<lparr>cdb_store = sample_db, cdb_calls = [admitted_row sample_new_call]\<rparr>"
  using sample_call_checks
  by (simp add: sample_call_db_def admit_tool_call_def Let_def sample_db_runs)
    (simp add: admitted_row_def sample_new_call_def)

lemma sample_new_call_Ok:
  "NewToolCall_new (ntc_id sample_new_call) (ntc_origin sample_new_call) (ntc_target sample_new_call)
     (ntc_binding sample_new_call) (ntc_correlation_id sample_new_call) (ntc_created_at sample_new_call)
   = Ok sample_new_call"
  by (simp add: NewToolCall_new_def validate_fields_def sample_new_call_def utf8_width_def uuid_sized_def
      is_lowercase_hex_def list_all_iff is_ascii_digit_def) (simp add: lit_def utf8_width_def)

lemma sample_sys_reachable: "sys_step\<^sup>*\<^sup>* empty_sys \<lparr>sys_db = sample_call_db, sys_reads = []\<rparr>"
proof -
  let ?s = "\<lparr>sys_db = \<lparr>cdb_store = sample_db, cdb_calls = []\<rparr>, sys_reads = []\<rparr>"
  have "sys_step empty_sys ?s"
    using act_runs [of empty_sys sample_db] op_create [of empty_db "\<lambda>_. True" sample_new_run]
    by (simp add: empty_sys_def sample_db_def)
  moreover have "sys_step ?s \<lparr>sys_db = sample_call_db, sys_reads = []\<rparr>"
    using act_admit [OF sample_new_call_Ok, of ?s "\<lambda>_. True"] by (simp add: sample_call_db_def)
  ultimately show ?thesis by (meson r_into_rtranclp rtranclp.rtrancl_into_rtrancl)
qed

theorem call_ledger_refined_witness:
  "led_outcome (ledger_of \<lparr>sys_db = sample_call_db, sys_reads = []\<rparr>) (replicate 36 102) = Some Requested"
  using call_ledger_refined [OF sample_sys_reachable]
  by (simp add: sample_call_db_eq) (simp add: sample_new_call_def)

text \<open>C15: stopping a run stops its calls. Once a run has been asked to stop, no call of that run is
  authorized or submitted any more, whatever any writer had read before: a call found in such an
  outcome later was already in it when the run was stopped.\<close>

theorem no_call_after_stop:
  assumes "sys_step\<^sup>*\<^sup>* empty_sys s" "run_stopped (cdb_store (sys_db s)) rid" "sys_step\<^sup>*\<^sup>* s s'"
    and "r' \<in> set (cdb_calls (sys_db s'))" "tcr_run_id r' = rid"
    and "row_outcome r' = Some Authorized \<or> row_outcome r' = Some Submitted"
  shows "\<exists>r \<in> set (cdb_calls (sys_db s)). tcr_id r = tcr_id r' \<and> row_outcome r = row_outcome r'"
proof -
  let ?A = "ledger_of s"
  define P where "P L \<longleftrightarrow> rid \<in> led_stopped L \<and> (\<forall>cid oc. led_run L cid = Some rid
    \<longrightarrow> led_outcome L cid = Some oc \<longrightarrow> oc \<in> {Authorized, Submitted} \<longrightarrow> led_outcome ?A cid = Some oc)" for L :: ledger
  have inv: "sys_inv s" "sys_inv s'"
    using call_ledger.keeps_all [OF assms(1) empty_sys_inv] call_ledger.keeps_all [OF assms(3)] by blast+
  have "P (ledger_of s')"
  proof (rule call_ledger.transfers [OF assms(3) inv(1)])
    show "P ?A" using assms(2) by (simp add: P_def ledger_of_def)
    show "P b" if "ledger_step a b" "P a" for a b
      using that by (cases rule: ledger_step.cases) (auto simp: P_def split: if_splits)
  qed
  moreover have "find (\<lambda>q. tcr_id q = tcr_id r') (cdb_calls (sys_db s')) = Some r'"
    using inv(2) assms(4) by (intro find_call_by_id) (simp_all add: sys_inv_def calls_inv_def)
  ultimately have "led_outcome ?A (tcr_id r') = row_outcome r'"
    using assms(5,6) by (auto simp: P_def ledger_of_def)
  then show ?thesis using assms(6)
    by (auto simp: ledger_of_def bind_eq_Some_conv dest!: find_SomeD)
qed

definition authorized_record :: ToolOutcomeRecord where
  "authorized_record = \<lparr>rec_outcome = Authorized, rec_evidence = None, rec_reason = None\<rparr>"

definition sample_authorized_db :: call_db where
  "sample_authorized_db = fst (advance_tool_call sample_call_db (replicate 36 102) Authorized 2)"

definition sample_stopped_db :: call_db where
  "sample_stopped_db = sample_authorized_db\<lparr>cdb_store := fst (transition_run sample_db (replicate 36 97)
     sample_expected RunTransition_cancelled 5)\<rparr>"

lemma sample_call_inv: "calls_inv (cdb_calls sample_call_db)"
  using sample_call_checks by (simp add: sample_call_db_eq calls_inv_def admitted_row_ok)

lemma sample_authorized_checks:
  "tool_call_checks (outcome_row authorized_record None 2 (admitted_row sample_new_call))"
  using sample_call_checks
  by (simp add: tool_call_checks_def outcome_row_def authorized_record_def null_or_def is_reported_def)

lemma sample_authorized_db_eq: "sample_authorized_db = \<lparr>cdb_store = sample_db,
    cdb_calls = [outcome_row authorized_record None 2 (admitted_row sample_new_call)]\<rparr>"
proof -
  have [simp]: "ntc_id sample_new_call = replicate 36 102"
    "origin_run_id (ntc_origin sample_new_call) = replicate 36 97"
    by (simp_all add: sample_new_call_def)
  have "run_open_for_calls sample_db (replicate 36 97)"
    by (simp add: run_open_for_calls_def sample_db_runs)
  then show ?thesis
    using sample_authorized_checks record_tool_outcome_closed [OF sample_call_inv]
    by (simp add: sample_authorized_db_def advance_tool_call_def)
      (simp add: sample_call_db_eq record_spec_def ToolOutcome_is_terminal_def authorized_record_def Let_def)
qed

lemma sample_call_to_authorized:
  "\<exists>reads. sys_step\<^sup>*\<^sup>* \<lparr>sys_db = sample_call_db, sys_reads = []\<rparr>
    \<lparr>sys_db = sample_authorized_db, sys_reads = reads\<rparr>"
proof -
  have "record_honest authorized_record" by (simp add: record_honest_def authorized_record_def)
  from record_is_steps [OF this, of sample_call_db "[]" "replicate 36 102" None 2]
  show ?thesis by (simp add: sample_authorized_db_def advance_tool_call_def authorized_record_def)
qed

lemma sample_call_to_stopped:
  "\<exists>reads. sys_step\<^sup>*\<^sup>* \<lparr>sys_db = sample_call_db, sys_reads = []\<rparr>
    \<lparr>sys_db = sample_stopped_db, sys_reads = reads\<rparr>"
proof -
  obtain reads where r: "sys_step\<^sup>*\<^sup>* \<lparr>sys_db = sample_call_db, sys_reads = []\<rparr>
      \<lparr>sys_db = sample_authorized_db, sys_reads = reads\<rparr>"
    using sample_call_to_authorized by blast
  have "sys_step \<lparr>sys_db = sample_authorized_db, sys_reads = reads\<rparr>
      \<lparr>sys_db = sample_stopped_db, sys_reads = reads\<rparr>"
    using act_runs [of "\<lparr>sys_db = sample_authorized_db, sys_reads = reads\<rparr>"]
      op_transition [OF transition_wf_constructors(2), of sample_db "replicate 36 97" sample_expected 5]
    by (simp add: sample_stopped_db_def sample_authorized_db_eq)
  with r show ?thesis by (meson rtranclp.rtrancl_into_rtrancl)
qed

lemma sample_reachable:
  "\<exists>reads. sys_step\<^sup>*\<^sup>* empty_sys \<lparr>sys_db = sample_authorized_db, sys_reads = reads\<rparr>"
  "\<exists>reads. sys_step\<^sup>*\<^sup>* empty_sys \<lparr>sys_db = sample_stopped_db, sys_reads = reads\<rparr>"
  using sample_sys_reachable sample_call_to_authorized sample_call_to_stopped
  by (meson rtranclp_trans)+

theorem no_call_after_stop_witness:
  "\<exists>r \<in> set (cdb_calls sample_stopped_db). tcr_id r = replicate 36 102 \<and> row_outcome r = Some Authorized"
proof -
  obtain reads where s: "sys_step\<^sup>*\<^sup>* empty_sys \<lparr>sys_db = sample_stopped_db, sys_reads = reads\<rparr>"
    using sample_reachable(2) by blast
  have "run_stopped (cdb_store sample_stopped_db) (replicate 36 97)"
    by (simp add: sample_stopped_db_def run_stopped_def transition_run_def RunTransition_apply_def
        sample_expected_def RunTransition_cancelled_def sample_db_runs sql_update_def matches_expectation_def
        rows_affected_def require_run_transition_def advance_row_def Let_def)
  with no_call_after_stop [OF s _ rtranclp.rtrancl_refl,
      of "replicate 36 97" "outcome_row authorized_record None 2 (admitted_row sample_new_call)"]
  show ?thesis
    by (simp add: sample_stopped_db_def sample_authorized_db_eq)
      (simp add: outcome_row_def sample_new_call_def authorized_record_def row_outcome_Some)
qed

text \<open>C31: after a restart no call is left half-way, and none is judged too kindly. Settling orphans
  always succeeds on a reachable store: every authorized call becomes failed, every submitted call
  becomes unknown, every other row is untouched, the answer lists exactly the settled calls with
  their verdicts, and nothing is left authorized or submitted.\<close>

theorem orphans_settled:
  assumes "sys_step\<^sup>*\<^sup>* empty_sys s"
  shows "settle_orphaned_calls (sys_db s) at =
      ((sys_db s)\<lparr>cdb_calls := map (settled_row at) (cdb_calls (sys_db s))\<rparr>,
       Ok (map (\<lambda>r. (tcr_id r, if row_outcome r = Some Authorized then Tool_Failed else Unknown))
             (filter is_orphan (cdb_calls (sys_db s)))))
    \<and> (\<forall>r. \<not> is_orphan (settled_row at r))"
proof
  have "calls_inv ([] @ cdb_calls (sys_db s))"
    using call_ledger.keeps_all [OF assms empty_sys_inv] by (simp add: sys_inv_def)
  from settle_loop_effect [OF this, of "sys_db s" at "[]"]
  show "settle_orphaned_calls (sys_db s) at =
      ((sys_db s)\<lparr>cdb_calls := map (settled_row at) (cdb_calls (sys_db s))\<rparr>,
       Ok (map (\<lambda>r. (tcr_id r, if row_outcome r = Some Authorized then Tool_Failed else Unknown))
             (filter is_orphan (cdb_calls (sys_db s)))))"
    unfolding settle_orphaned_calls_def orphan_scan
    by (simp add: orphan_verdict_def if_distrib cong: if_cong)
  show "\<forall>r. \<not> is_orphan (settled_row at r)"
    by (simp add: settled_row_def) (simp add: is_orphan_def orphan_verdict_def)
qed

theorem orphans_settled_witness:
  "snd (settle_orphaned_calls sample_authorized_db 9) = Ok [(replicate 36 102, Tool_Failed)]"
proof -
  obtain reads where "sys_step\<^sup>*\<^sup>* empty_sys \<lparr>sys_db = sample_authorized_db, sys_reads = reads\<rparr>"
    using sample_reachable(1) by blast
  from orphans_settled [OF this, of 9] show ?thesis
    by (simp add: sample_authorized_db_eq is_orphan_def)
      (simp add: sample_new_call_def authorized_record_def)
qed

text \<open>Recording an outcome answers every case as documented. On a consistent table it equals its
  closed form: an unknown call is not found; a settled call accepts the same outcome again as a
  no-op and refuses any other; an illegal advance is refused; authorizing or submitting for a
  stopped run is a conflict; a row the table's constraints refuse is an SQL failure; in each of
  these the database is unchanged, and otherwise exactly that row is rewritten and read back.\<close>

theorem recording_exact:
  assumes "calls_inv (cdb_calls db)"
  shows "record_tool_outcome db cid rec out at = record_spec db cid rec out at
    \<and> (\<forall>e. snd (record_tool_outcome db cid rec out at) = Err e \<longrightarrow> record_honest rec
         \<longrightarrow> fst (record_tool_outcome db cid rec out at) = db)"
proof (intro conjI allI impI)
  show closed: "record_tool_outcome db cid rec out at = record_spec db cid rec out at"
    by (rule record_tool_outcome_closed [OF assms])
  fix e
  assume err: "snd (record_tool_outcome db cid rec out at) = Err e" and honest: "record_honest rec"
  show "fst (record_tool_outcome db cid rec out at) = db"
  proof (cases "\<exists>r. find (\<lambda>r. tcr_id r = cid) (cdb_calls db) = Some r
      \<and> tool_call_checks (outcome_row rec out at r)")
    case True
    then obtain r where r: "find (\<lambda>r. tcr_id r = cid) (cdb_calls db) = Some r"
      "tool_call_checks (outcome_row rec out at r)" by blast
    from outcome_row_ok [OF r(2) honest] obtain c where "decode_tool_call (outcome_row rec out at r) = Ok c"
      by (rule decode_tool_call_ok)
    with err r show ?thesis by (auto simp: closed record_spec_def Let_def split: if_splits)
  next
    case False
    then show ?thesis by (auto simp: closed record_spec_def Let_def split: option.splits)
  qed
qed

theorem recording_exact_witness:
  "record_tool_outcome sample_call_db (replicate 36 102) authorized_record None 2
    = record_spec sample_call_db (replicate 36 102) authorized_record None 2"
  using recording_exact [OF sample_call_inv] by blast

text \<open>C17: a re-driven pipeline adopts the call it already made. After a call was admitted under a
  run's idempotency key, and whatever happened since, admitting any call under the same key writes
  nothing and names the existing call.\<close>

theorem redrive_adopts:
  assumes "sys_step\<^sup>*\<^sup>* empty_sys s" "admit_tool_call pe (sys_db s) new = (db, Ok cid)"
    and "NewToolCall_new cid' origin target binding corr at = Ok new"
    and "sys_step\<^sup>*\<^sup>* (s\<lparr>sys_db := db\<rparr>) s'"
    and "origin_run_id (ntc_origin again) = origin_run_id (ntc_origin new)"
      "binding_idempotency_key (ntc_binding again) = binding_idempotency_key (ntc_binding new)"
    and "tool_call_checks (admitted_row again)"
  shows "admit_tool_call pe' (sys_db s') again = (sys_db s', Err (ToolCallDuplicate cid))"
proof -
  let ?t = "s\<lparr>sys_db := db\<rparr>" and ?rows = "cdb_calls (sys_db s')"
  have step: "sys_step s ?t" using act_admit [OF assms(3), of s pe] assms(2) by simp
  then have inv: "sys_inv ?t" "sys_inv s'"
    using call_ledger.keeps_all [OF assms(1) empty_sys_inv] sys_step_inv
      call_ledger.keeps_all [OF assms(4)] by blast+
  have "cid = ntc_id new \<and> admitted_row new \<in> set (cdb_calls db)"
    using assms(2) by (auto simp: admit_tool_call_def Let_def and_then_def split: if_splits sum.splits)
  then obtain r' where r': "r' \<in> set ?rows" "row_kept (admitted_row new) r'" "cid = ntc_id new"
    using sys_steps_kept [OF assms(4) inv(1), of "admitted_row new"] by auto
  have rows: "calls_inv ?rows" using inv(2) by (simp add: sys_inv_def)
  then have "call_row_ok r'" using r'(1) by (simp add: calls_inv_def)
  then obtain c where c: "decode_tool_call r' = Ok c" by (rule decode_tool_call_ok)
  have key: "tcr_run_id r' = origin_run_id (ntc_origin again)"
    "tcr_idempotency_key r' = binding_idempotency_key (ntc_binding again)" "tcr_id r' = cid"
    using r'(2,3) assms(5,6) by (simp_all add: row_kept_def)
  have "find_call_by_idempotency_key (sys_db s') (origin_run_id (ntc_origin again))
      (binding_idempotency_key (ntc_binding again)) = Ok (Some c)"
    using find_call_by_key [OF rows r'(1)] key c by (simp add: find_call_by_idempotency_key_def)
  moreover have "list_ex (\<lambda>r. tcr_run_id r = origin_run_id (ntc_origin again)
      \<and> tcr_idempotency_key r = binding_idempotency_key (ntc_binding again)) ?rows"
    using r'(1) key by (auto simp: list_ex_iff)
  ultimately show ?thesis
    using assms(7) key(3) decode_tool_call_fields(1) [OF c] by (simp add: admit_tool_call_def Let_def)
qed

theorem redrive_adopts_witness:
  "admit_tool_call (\<lambda>_. True) sample_stopped_db (sample_new_call\<lparr>ntc_id := replicate 36 48\<rparr>)
    = (sample_stopped_db, Err (ToolCallDuplicate (replicate 36 102)))"
proof -
  let ?s = "\<lparr>sys_db = \<lparr>cdb_store = sample_db, cdb_calls = []\<rparr>, sys_reads = []\<rparr>"
  let ?again = "sample_new_call\<lparr>ntc_id := replicate 36 48\<rparr>"
  have reach: "sys_step\<^sup>*\<^sup>* empty_sys ?s"
    using act_runs [of empty_sys sample_db] op_create [of empty_db "\<lambda>_. True" sample_new_run]
    by (simp add: empty_sys_def sample_db_def)
  have admitted: "admit_tool_call (\<lambda>_. True) (sys_db ?s) sample_new_call = (sample_call_db, Ok (replicate 36 102))"
    using sample_call_checks
    by (simp add: sample_call_db_eq admit_tool_call_def Let_def sample_db_runs)
      (simp add: admitted_row_def sample_new_call_def)
  have checks: "tool_call_checks (admitted_row ?again)"
    using sample_call_checks by (simp add: tool_call_checks_def admitted_row_def)
  obtain reads where later: "sys_step\<^sup>*\<^sup>* \<lparr>sys_db = sample_call_db, sys_reads = []\<rparr>
      \<lparr>sys_db = sample_stopped_db, sys_reads = reads\<rparr>"
    using sample_call_to_stopped by blast
  show ?thesis
    using redrive_adopts [OF reach admitted sample_new_call_Ok, of "\<lparr>sys_db = sample_stopped_db, sys_reads = reads\<rparr>"
        ?again "\<lambda>_. True"] later checks by simp
qed

text \<open>A call's record is permanent. Between any two moments of any run of the system a call's
  row stays, its identity, tool, intent digest, receipt, policy version and key never change, its
  approval link is written once, and a settled outcome keeps its value, evidence, reason and
  output; every row reads back as a stored call.\<close>

theorem call_record_permanent:
  assumes "sys_step\<^sup>*\<^sup>* empty_sys s" "sys_step\<^sup>*\<^sup>* s s'" "r \<in> set (cdb_calls (sys_db s))"
  shows "\<exists>r' \<in> set (cdb_calls (sys_db s')). row_kept r r'
    \<and> (\<exists>c. find_tool_call (sys_db s') (tcr_id r) = Ok c \<and> row_outcome r' = Some (StoredToolCall_outcome c))"
proof -
  have inv: "sys_inv s" "sys_inv s'"
    using call_ledger.keeps_all [OF assms(1) empty_sys_inv] call_ledger.keeps_all [OF assms(2)] by blast+
  obtain r' where r': "r' \<in> set (cdb_calls (sys_db s'))" "row_kept r r'"
    by (rule sys_steps_kept [OF assms(2) inv(1) assms(3)])
  have rows: "calls_inv (cdb_calls (sys_db s'))" using inv(2) by (simp add: sys_inv_def)
  then have "call_row_ok r'" using r'(1) by (simp add: calls_inv_def)
  then obtain c where c: "decode_tool_call r' = Ok c" by (rule decode_tool_call_ok)
  with find_tool_call_row [OF rows r'(1)] decode_tool_call_fields(4) [OF c] r' show ?thesis
    by (auto simp: row_kept_def)
qed

theorem call_record_permanent_witness:
  "\<exists>c. find_tool_call sample_stopped_db (replicate 36 102) = Ok c"
proof -
  obtain reads where "sys_step\<^sup>*\<^sup>* \<lparr>sys_db = sample_call_db, sys_reads = []\<rparr>
      \<lparr>sys_db = sample_stopped_db, sys_reads = reads\<rparr>"
    using sample_call_to_stopped by blast
  from call_record_permanent [OF sample_sys_reachable this, of "admitted_row sample_new_call"]
  have "\<exists>c. find_tool_call sample_stopped_db (ntc_id sample_new_call) = Ok c"
    by (auto simp: sample_call_db_eq)
  then show ?thesis by (simp add: sample_new_call_def)
qed

text \<open>The domain allows evidence of up to 512 characters, the table only 256: a confirmation with
  longer evidence is refused by the database, so the confirmed effect stays recorded as
  submitted.\<close>

theorem long_evidence_unrecorded:
  assumes "calls_inv (cdb_calls db)" "r \<in> set (cdb_calls db)" "row_outcome r = Some Submitted"
    and "rec_outcome rec = Confirmed" "rec_evidence rec = Some e" "256 < length e"
  shows "record_tool_outcome db (tcr_id r) rec out at
    = (db, Err (Call_Sqlite (lit ''record a tool outcome'')))"
proof -
  have "\<not> tool_call_checks (outcome_row rec out at r)"
    using assms(5,6) by (simp add: tool_call_checks_def outcome_row_def null_or_def chars_between_def)
  moreover have "find (\<lambda>q. tcr_id q = tcr_id r) (cdb_calls db) = Some r"
    using assms(1,2) by (intro find_call_by_id) (simp_all add: calls_inv_def)
  ultimately show ?thesis
    using assms(3,4) record_tool_outcome_closed [OF assms(1)]
    by (simp add: record_spec_def Let_def ToolOutcome_is_terminal_def)
qed

end
