(* ===== verification/Approval_Store.thy ===== *)
theory Approval_Store
  imports Tool_Call_Store
begin

text \<open>
  The durable store of approvals (\<open>jarvis-storage/src/approval_repository.rs\<close>, migrations
  \<open>0006_approvals.sql\<close>, \<open>0015_repeatable_approved_calls.sql\<close>, \<open>0029_coding_workspace_jobs.sql\<close>),
  on the table model of \<open>Run_Store\<close>. The foreign keys to the workspace and the run are the argument
  \<open>parents_exist\<close>; identifiers and instants read back as they were written, so their text form is not
  modelled, except that rows are ordered by the text of an instant (\<open>stamp\<close>).
\<close>

section \<open>Rows\<close>

record stored_approval =
  sap_id :: ident
  sap_workspace_id :: ident
  sap_run_id :: ident
  sap_actor_id :: rstr
  sap_tool :: rstr
  sap_tool_version :: rstr
  sap_intent_hash :: rstr
  sap_preview :: rstr
  sap_risk_level :: int
  sap_required_strength :: rstr
  sap_nonce_hash :: rstr
  sap_state :: rstr
  sap_decision_channel :: "rstr option"
  sap_decision_strength :: "rstr option"
  sap_decided_by :: "rstr option"
  sap_correlation_id :: ident
  sap_created_at :: instant
  sap_expires_at :: instant
  sap_occurred_at :: "instant option"
  sap_arguments_json :: "rstr option"

datatype ApprovalStoreError =
    InvalidApprovalRequest rstr
  | ApprovalNotFound
  | StoredApprovalInvalid rstr
  | ApprovalAlreadyDecided
  | ApprovalConflict
  | Approval_Sqlite rstr

definition unused_column_values :: "rstr \<times> rstr" where
  "unused_column_values =
     (lit ''e3b0c44298fc1c149afbf4c8996fb92427ae41e4649b934ca495991b7852b855'', lit ''credential'')"

text \<open>The \<open>CHECK\<close> clauses of the table.\<close>

definition strengths :: "rstr set" where
  "strengths = {lit ''absent'', lit ''channel_evidence'', lit ''credential'', lit ''present''}"

definition undecided_columns :: "stored_approval \<Rightarrow> bool" where
  "undecided_columns r \<longleftrightarrow> sap_decision_channel r = None \<and> sap_decision_strength r = None
     \<and> sap_decided_by r = None \<and> sap_occurred_at r = None"

definition decided_columns :: "stored_approval \<Rightarrow> bool" where
  "decided_columns r \<longleftrightarrow> sap_decision_channel r \<noteq> None \<and> sap_decision_strength r \<noteq> None
     \<and> sap_decided_by r \<noteq> None \<and> sap_occurred_at r \<noteq> None"

definition approval_checks :: "stored_approval \<Rightarrow> bool" where
  "approval_checks r \<longleftrightarrow>
     length (sap_id r) = 36 \<and> chars_between 1 128 (sap_actor_id r)
     \<and> chars_between 3 128 (sap_tool r) \<and> chars_between 1 32 (sap_tool_version r)
     \<and> hex_glob 64 (sap_intent_hash r) \<and> chars_between 1 512 (sap_preview r)
     \<and> 0 \<le> sap_risk_level r \<and> sap_risk_level r \<le> 3
     \<and> sap_required_strength r \<in> strengths \<and> hex_glob 64 (sap_nonce_hash r)
     \<and> null_or (\<lambda>c. c \<in> {lit ''cli'', lit ''desktop'', lit ''api'', lit ''voice''}) (sap_decision_channel r)
     \<and> null_or (\<lambda>c. c \<in> strengths) (sap_decision_strength r)
     \<and> null_or (chars_between 1 128) (sap_decided_by r)
     \<and> null_or (\<lambda>a. str_len a \<le> 1048576) (sap_arguments_json r)
     \<and> (sap_state r \<in> {lit ''pending'', lit ''expired''} \<and> undecided_columns r
        \<or> sap_state r \<in> {lit ''approved'', lit ''denied'', lit ''cancelled''} \<and> decided_columns r)"

text \<open>\<open>invalid_field\<close>: the domain's refusals by the column they concern.\<close>

fun invalid_field :: "InvalidApprovalField \<Rightarrow> ApprovalStoreError" where
  "invalid_field Preview = InvalidApprovalRequest (lit ''preview'')"
| "invalid_field ExpiryNotAfterCreation = InvalidApprovalRequest (lit ''expiry'')"
| "invalid_field LifetimeTooLong = InvalidApprovalRequest (lit ''expiry'')"
| "invalid_field UnknownChannel = InvalidApprovalRequest (lit ''decision_channel'')"
| "invalid_field ApproverUnusable = InvalidApprovalRequest (lit ''decided_by'')"
| "invalid_field (AlreadyDecided _) = InvalidApprovalRequest (lit ''state'')"
| "invalid_field (ApprovalExpired _) = InvalidApprovalRequest (lit ''expires_at'')"

definition acknowledge :: "stored_approval list \<Rightarrow> ident \<Rightarrow> ApprovalStoreError + unit" where
  "acknowledge rows aid = map_ok (\<lambda>_. ()) (ok_or (find (\<lambda>r. sap_id r = aid) rows) ApprovalNotFound)"

definition approval_row_of :: "ApprovalRequest \<Rightarrow> stored_approval" where
  "approval_row_of request = \<lparr>sap_id = apr_id request, sap_workspace_id = apr_workspace_id request,
     sap_run_id = apr_run_id request, sap_actor_id = apr_actor_id request,
     sap_tool = apr_tool request, sap_tool_version = apr_tool_version request,
     sap_intent_hash = encode_hex (apr_intent request), sap_preview = apr_preview request,
     sap_risk_level = int (apr_risk_level request),
     sap_required_strength = snd unused_column_values, sap_nonce_hash = fst unused_column_values,
     sap_state = lit ''pending'', sap_decision_channel = None, sap_decision_strength = None,
     sap_decided_by = None, sap_correlation_id = apr_correlation_id request,
     sap_created_at = apr_created_at request, sap_expires_at = apr_expires_at request,
     sap_occurred_at = None, sap_arguments_json = None\<rparr>"

text \<open>The partial unique index: one pending or denied approval per run and intent.\<close>

definition intent_blocked :: "stored_approval list \<Rightarrow> stored_approval \<Rightarrow> bool" where
  "intent_blocked rows row = list_ex (\<lambda>r. sap_run_id r = sap_run_id row
     \<and> sap_intent_hash r = sap_intent_hash row
     \<and> sap_state r \<in> {lit ''pending'', lit ''denied''}) rows"

definition create_approval ::
  "(ApprovalRequest \<Rightarrow> bool) \<Rightarrow> stored_approval list \<Rightarrow> ApprovalRequest
    \<Rightarrow> stored_approval list \<times> (ApprovalStoreError + unit)" where
  "create_approval parents_exist rows request =
     (if apr_decision request \<noteq> None then (rows, Err (InvalidApprovalRequest (lit ''state'')))
      else
        let row = approval_row_of request in
        if \<not> approval_checks row \<or> list_ex (\<lambda>r. sap_id r = sap_id row) rows
           \<or> intent_blocked rows row \<or> \<not> parents_exist request
        then (rows, Err (Approval_Sqlite (lit ''create an approval'')))
        else (rows @ [row], acknowledge (rows @ [row]) (apr_id request)))"

section \<open>Reading\<close>

definition decode_decision ::
  "stored_approval \<Rightarrow> ApprovalState \<Rightarrow> ApprovalStoreError + ApprovalDecision option" where
  "decode_decision row state =
     (if state = Pending \<or> state = Expired then Ok None
      else
        and_then (ok_or (sap_decision_channel row) (StoredApprovalInvalid (lit ''decision_channel''))) (\<lambda>channel.
        and_then (ok_or (sap_decided_by row) (StoredApprovalInvalid (lit ''decided_by''))) (\<lambda>decided_by.
        and_then (ok_or (sap_occurred_at row) (StoredApprovalInvalid (lit ''occurred_at''))) (\<lambda>occurred_at.
          if trim decided_by = [] then Err (StoredApprovalInvalid (lit ''decided_by''))
          else
            and_then (map_err (\<lambda>_. StoredApprovalInvalid (lit ''decision_channel''))
                        (ApprovalChannel_from_str channel)) (\<lambda>ch.
              map_ok Some (map_err invalid_field
                (ApprovalDecision_new
                   (if state = Approved then Approve
                    else if state = Denied then Decision_Deny else Decision_Cancel)
                   ch occurred_at decided_by)))))))"

text \<open>\<open>u8::try_from\<close> on the stored integer, then each closed set is parsed.\<close>

definition decode_approval :: "stored_approval \<Rightarrow> ApprovalStoreError + ApprovalRequest" where
  "decode_approval row =
     (if sap_risk_level row < 0 \<or> 255 < sap_risk_level row
      then Err (StoredApprovalInvalid (lit ''risk_level''))
      else
        and_then (map_err (\<lambda>_. StoredApprovalInvalid (lit ''intent_hash''))
                    (intent_from_str (sap_intent_hash row))) (\<lambda>intent.
        and_then (map_err (\<lambda>_. StoredApprovalInvalid (lit ''state''))
                    (ApprovalState_from_str (sap_state row))) (\<lambda>state.
        and_then (decode_decision row state) (\<lambda>decision.
          map_err invalid_field (ApprovalRequest_from_stored
            \<lparr>apr_id = sap_id row, apr_workspace_id = sap_workspace_id row, apr_run_id = sap_run_id row,
             apr_actor_id = sap_actor_id row, apr_tool = sap_tool row,
             apr_tool_version = sap_tool_version row, apr_intent = intent,
             apr_preview = sap_preview row, apr_risk_level = nat (sap_risk_level row),
             apr_correlation_id = sap_correlation_id row, apr_created_at = sap_created_at row,
             apr_expires_at = sap_expires_at row\<rparr> decision)))))"

definition find_approval :: "stored_approval list \<Rightarrow> ident \<Rightarrow> ApprovalStoreError + ApprovalRequest" where
  "find_approval rows aid =
     and_then (ok_or (find (\<lambda>r. sap_id r = aid) rows) ApprovalNotFound) decode_approval"

text \<open>\<open>ORDER BY created_at DESC, id ASC\<close>.\<close>

definition newest_first :: "(instant \<Rightarrow> rstr) \<Rightarrow> stored_approval list \<Rightarrow> stored_approval list" where
  "newest_first stamp rows =
     rev (sort_key (\<lambda>r. stamp (sap_created_at r)) (rev (sort_key sap_id rows)))"

definition read_run_approvals ::
  "(instant \<Rightarrow> rstr) \<Rightarrow> stored_approval list \<Rightarrow> ident \<Rightarrow> ApprovalStoreError + ApprovalRequest list" where
  "read_run_approvals stamp rows rid =
     collect_results decode_approval (newest_first stamp (filter (\<lambda>r. sap_run_id r = rid) rows))"

definition read_pending_approvals ::
  "(instant \<Rightarrow> rstr) \<Rightarrow> stored_approval list \<Rightarrow> ident \<Rightarrow> instant
    \<Rightarrow> ApprovalStoreError + ApprovalRequest list" where
  "read_pending_approvals stamp rows rid now =
     map_ok (filter (\<lambda>request. state_at request now = Pending)) (read_run_approvals stamp rows rid)"

definition read_workspace_pending_approvals ::
  "(instant \<Rightarrow> rstr) \<Rightarrow> stored_approval list \<Rightarrow> ident \<Rightarrow> instant
    \<Rightarrow> ApprovalStoreError + ApprovalRequest list" where
  "read_workspace_pending_approvals stamp rows wid now =
     map_ok (filter (\<lambda>request. state_at request now = Pending))
       (collect_results decode_approval (newest_first stamp
          (filter (\<lambda>r. sap_workspace_id r = wid \<and> sap_state r = lit ''pending'') rows)))"

section \<open>Deciding\<close>

text \<open>What the decision write sets: a denial or cancellation drops the held arguments.\<close>

definition decision_row :: "ApprovalState \<Rightarrow> ApprovalDecision \<Rightarrow> stored_approval \<Rightarrow> stored_approval" where
  "decision_row state decision row = row\<lparr>
     sap_state := ApprovalState_as_str state,
     sap_decision_channel := Some (ApprovalChannel_as_str (dec_channel decision)),
     sap_decision_strength := Some (snd unused_column_values),
     sap_decided_by := Some (dec_approver_id decision),
     sap_occurred_at := Some (dec_decided_at decision),
     sap_nonce_hash := fst unused_column_values,
     sap_arguments_json := (if ApprovalState_as_str state = lit ''approved''
                            then sap_arguments_json row else None)\<rparr>"

text \<open>The part of \<open>record_decision\<close> after its read; other writers may have acted in between.\<close>

definition write_decision ::
  "stored_approval list \<Rightarrow> ident \<Rightarrow> ApprovalRequest \<Rightarrow> ApprovalDecision
    \<Rightarrow> stored_approval list \<times> (ApprovalStoreError + ApprovalRequest)" where
  "write_decision rows aid request decision =
     (if apr_decision request \<noteq> None then (rows, Err ApprovalAlreadyDecided)
      else case apply_decision request decision of
          Inl e \<Rightarrow> (rows, Err (invalid_field e))
        | Inr decided \<Rightarrow>
            let hit = (\<lambda>r. sap_id r = aid \<and> sap_state r = lit ''pending'');
                new = decision_row (stored_state decided) decision
            in if \<not> list_all approval_checks (map new (filter hit rows))
               then (rows, Err (Approval_Sqlite (lit ''record an approval decision'')))
               else if rows_affected hit rows = 0 then (rows, Err ApprovalConflict)
               else (sql_update hit new rows, find_approval (sql_update hit new rows) aid))"

definition record_decision ::
  "stored_approval list \<Rightarrow> ident \<Rightarrow> ApprovalDecision
    \<Rightarrow> stored_approval list \<times> (ApprovalStoreError + ApprovalRequest)" where
  "record_decision rows aid decision =
     (case find_approval rows aid of
        Inl e \<Rightarrow> (rows, Err e)
      | Inr request \<Rightarrow> write_decision rows aid request decision)"

section \<open>Held arguments\<close>

definition MAX_APPROVAL_ARGUMENTS_BYTES :: nat where
  "MAX_APPROVAL_ARGUMENTS_BYTES = 1048576"

definition attach_approval_arguments ::
  "stored_approval list \<Rightarrow> ident \<Rightarrow> rstr \<Rightarrow> stored_approval list \<times> bool" where
  "attach_approval_arguments rows aid arguments_json =
     (if str_len arguments_json > MAX_APPROVAL_ARGUMENTS_BYTES then (rows, False)
      else
        let hit = (\<lambda>r. sap_id r = aid \<and> sap_state r = lit ''pending'') in
        (sql_update hit (\<lambda>r. r\<lparr>sap_arguments_json := Some arguments_json\<rparr>) rows,
         rows_affected hit rows = 1))"

definition clear_approval_arguments :: "stored_approval list \<Rightarrow> ident \<Rightarrow> stored_approval list" where
  "clear_approval_arguments rows aid =
     sql_update (\<lambda>r. sap_id r = aid) (\<lambda>r. r\<lparr>sap_arguments_json := None\<rparr>) rows"

definition read_approval_arguments ::
  "stored_approval list \<Rightarrow> ident \<Rightarrow> ApprovalStoreError + rstr option" where
  "read_approval_arguments rows aid =
     map_ok sap_arguments_json (ok_or (find (\<lambda>r. sap_id r = aid) rows) ApprovalNotFound)"

text \<open>\<open>EXISTS (SELECT 1 FROM tool_calls c WHERE c.approval_id = approvals.id AND c.outcome <> 'requested')\<close>.\<close>

definition call_started :: "tool_call_row list \<Rightarrow> stored_approval \<Rightarrow> bool" where
  "call_started calls r =
     list_ex (\<lambda>c. tcr_approval_id c = Some (sap_id r) \<and> tcr_outcome c \<noteq> lit ''requested'') calls"

definition clear_arguments_of_started_calls ::
  "tool_call_row list \<Rightarrow> stored_approval list \<Rightarrow> stored_approval list \<times> nat" where
  "clear_arguments_of_started_calls calls rows =
     (let hit = (\<lambda>r. sap_state r = lit ''approved'' \<and> sap_arguments_json r \<noteq> None
                    \<and> call_started calls r)
      in (sql_update hit (\<lambda>r. r\<lparr>sap_arguments_json := None\<rparr>) rows, rows_affected hit rows))"

definition read_workspace_unreleased_approvals ::
  "(instant \<Rightarrow> rstr) \<Rightarrow> tool_call_row list \<Rightarrow> stored_approval list \<Rightarrow> ident
    \<Rightarrow> ApprovalStoreError + ApprovalRequest list" where
  "read_workspace_unreleased_approvals stamp calls rows wid =
     collect_results decode_approval (newest_first stamp
       (filter (\<lambda>r. sap_workspace_id r = wid \<and> sap_state r = lit ''approved''
                 \<and> sap_arguments_json r \<noteq> None \<and> \<not> call_started calls r) rows))"

text \<open>
  What stopping runs does to this table (\<open>run_repository.rs\<close>): the approvals of the stopped runs
  that are pending expire, and pending and approved ones lose their arguments.
\<close>

definition withdraw_rows :: "(ident \<Rightarrow> bool) \<Rightarrow> stored_approval list \<Rightarrow> stored_approval list" where
  "withdraw_rows stopped rows =
     sql_update (\<lambda>r. stopped (sap_run_id r) \<and> sap_state r \<in> {lit ''pending'', lit ''approved''})
       (\<lambda>r. r\<lparr>sap_state := (if sap_state r = lit ''pending'' then lit ''expired'' else sap_state r),
              sap_arguments_json := None\<rparr>) rows"

end
