(* ===== verification/Approval_Laws.thy ===== *)
theory Approval_Laws
  imports Approval_Store
begin

text \<open>
  What the approval table guarantees under interleaved writers: it implements a registry of the
  domain's approval requests, in which a request is decided at most once and only by
  \<open>apply_decision\<close>; held arguments exist only where they can still be used. The simulation is an
  instance of \<open>forward_simulation\<close>.
\<close>

section \<open>Rows\<close>

definition parts_of :: "stored_approval \<Rightarrow> CanonicalIntentHash \<Rightarrow> ApprovalRequestParts" where
  "parts_of row intent =
     \<lparr>apr_id = sap_id row, apr_workspace_id = sap_workspace_id row, apr_run_id = sap_run_id row,
      apr_actor_id = sap_actor_id row, apr_tool = sap_tool row,
      apr_tool_version = sap_tool_version row, apr_intent = intent,
      apr_preview = sap_preview row, apr_risk_level = nat (sap_risk_level row),
      apr_correlation_id = sap_correlation_id row, apr_created_at = sap_created_at row,
      apr_expires_at = sap_expires_at row\<rparr>"

lemma decode_approval_Ok:
  "decode_approval r = Ok req \<longleftrightarrow> 0 \<le> sap_risk_level r \<and> sap_risk_level r \<le> 255
     \<and> (\<exists>intent st dec req0. intent_from_str (sap_intent_hash r) = Ok intent
        \<and> sap_state r = ApprovalState_as_str st \<and> decode_decision r st = Ok dec
        \<and> ApprovalRequest_new (parts_of r intent) = Ok req0 \<and> req = req0\<lparr>apr_decision := dec\<rparr>)"
  by (auto simp: decode_approval_def ApprovalRequest_from_stored_def parts_of_def
      approval_state_wire.parse_iff)

lemma decode_approval_I:
  assumes "0 \<le> sap_risk_level r" "sap_risk_level r \<le> 255" "intent_from_str (sap_intent_hash r) = Ok intent"
    and "sap_state r = ApprovalState_as_str st" "decode_decision r st = Ok dec"
    and "ApprovalRequest_new (parts_of r intent) = Ok req0"
  shows "decode_approval r = Ok (req0\<lparr>apr_decision := dec\<rparr>)"
  using assms unfolding decode_approval_Ok by blast

lemma ApprovalRequest_new_fields:
  assumes "ApprovalRequest_new p = Ok r"
  shows "apr_id r = apr_id p" "apr_run_id r = apr_run_id p" "apr_workspace_id r = apr_workspace_id p"
    "apr_expires_at r = apr_expires_at p" "apr_decision r = None"
  using assms by (auto simp: ApprovalRequest_new_Ok ApprovalRequestParts.defs)

lemma decode_approval_fields:
  assumes "decode_approval r = Ok req"
  shows "apr_id req = sap_id r" "apr_run_id req = sap_run_id r" "apr_workspace_id req = sap_workspace_id r"
    "apr_expires_at req = sap_expires_at r"
    "apr_decision req = None \<longleftrightarrow> sap_state r \<in> {lit ''pending'', lit ''expired''}"
    "apr_decision req \<noteq> None \<Longrightarrow> sap_state r = ApprovalState_as_str (stored_state req)"
proof -
  from assms obtain intent st dec req0 where d: "sap_state r = ApprovalState_as_str st"
      "decode_decision r st = Ok dec" "ApprovalRequest_new (parts_of r intent) = Ok req0"
      "req = req0\<lparr>apr_decision := dec\<rparr>"
    by (auto simp: decode_approval_Ok)
  note f = ApprovalRequest_new_fields [OF d(3)]
  show "apr_id req = sap_id r" "apr_run_id req = sap_run_id r" "apr_workspace_id req = sap_workspace_id r"
    "apr_expires_at req = sap_expires_at r"
    using f d(4) by (simp_all add: parts_of_def)
  have "dec = None \<longleftrightarrow> st = Pending \<or> st = Expired"
    using d(2) by (auto simp: decode_decision_def split: if_splits)
  then show "apr_decision req = None \<longleftrightarrow> sap_state r \<in> {lit ''pending'', lit ''expired''}"
    using d(1,4) by (cases st) simp_all
  have "\<And>x. dec = Some x \<Longrightarrow> outcome_state (dec_outcome x) = st"
    using d(2) by (cases st) (auto simp: decode_decision_def ApprovalDecision_new_def split: if_splits)
  then show "apr_decision req \<noteq> None \<Longrightarrow> sap_state r = ApprovalState_as_str (stored_state req)"
    using d(1,4) by (auto simp: stored_state_def)
qed

text \<open>The columns a row is read back from: all but the held arguments.\<close>

lemma decode_decision_arguments [simp]:
  "decode_decision (r\<lparr>sap_arguments_json := a\<rparr>) = decode_decision r"
  by (simp add: decode_decision_def fun_eq_iff)

lemma decode_approval_arguments [simp]:
  "decode_approval (r\<lparr>sap_arguments_json := a\<rparr>) = decode_approval r"
  unfolding decode_approval_def decode_decision_arguments by simp

definition approval_row_ok :: "stored_approval \<Rightarrow> bool" where
  "approval_row_ok r \<longleftrightarrow> approval_checks r \<and> is_ok (decode_approval r)
     \<and> (sap_arguments_json r \<noteq> None \<longrightarrow> sap_state r \<in> {lit ''pending'', lit ''approved''})"

lemma approval_row_of_ok:
  assumes "ApprovalRequest_new p = Ok request" "approval_checks (approval_row_of request)"
  shows "decode_approval (approval_row_of request) = Ok request" "approval_row_ok (approval_row_of request)"
proof -
  have len: "length (encode_hex (apr_intent request)) = 64"
    using assms(2) by (simp add: approval_checks_def approval_row_of_def hex_glob_def)
  then have "intent_from_str (encode_hex (apr_intent request)) = Ok (apr_intent request)"
    using encode_hex_hexdigits [of "apr_intent request"] str_len_ascii [of "encode_hex (apr_intent request)"]
    by (auto simp: intent_from_str_def list_all_iff hex_pairs_encode_hex)
  moreover have "ApprovalRequest_new (parts_of (approval_row_of request) (apr_intent request)) = Ok request"
    using assms(1)
    by (auto simp: ApprovalRequest_new_Ok parts_of_def approval_row_of_def ApprovalRequestParts.defs)
  moreover have "request\<lparr>apr_decision := None\<rparr> = request"
    using ApprovalRequest_new_fields(5) [OF assms(1)] by simp
  moreover have "0 \<le> sap_risk_level (approval_row_of request) \<and> sap_risk_level (approval_row_of request) \<le> 255"
    using assms(2) by (simp add: approval_checks_def)
  ultimately show dec: "decode_approval (approval_row_of request) = Ok request"
    using decode_approval_I [of "approval_row_of request" "apr_intent request" Pending None request]
    by (simp add: approval_row_of_def decode_decision_def)
  show "approval_row_ok (approval_row_of request)"
    using assms(2) dec by (simp add: approval_row_ok_def) (simp add: approval_row_of_def)
qed

lemma sap_id_decision_row [simp]: "sap_id (decision_row st d r) = sap_id r"
  by (simp add: decision_row_def)

text \<open>The decision columns read back as the decision.\<close>

lemma decode_decision_row:
  assumes "decode_approval r = Ok req" "sap_state r = lit ''pending''"
    and "ApprovalDecision_new oc ch at approver = Ok d"
  shows "decode_approval (decision_row (outcome_state (dec_outcome d)) d r) = Ok (req\<lparr>apr_decision := Some d\<rparr>)"
proof -
  from assms(1) obtain intent st dec req0 where r: "0 \<le> sap_risk_level r" "sap_risk_level r \<le> 255"
      "intent_from_str (sap_intent_hash r) = Ok intent"
      "ApprovalRequest_new (parts_of r intent) = Ok req0" "req = req0\<lparr>apr_decision := dec\<rparr>"
    by (auto simp: decode_approval_Ok)
  let ?r = "decision_row (outcome_state (dec_outcome d)) d r"
  have "parts_of ?r intent = parts_of r intent" "sap_risk_level ?r = sap_risk_level r"
    "sap_intent_hash ?r = sap_intent_hash r"
    by (simp_all add: parts_of_def decision_row_def)
  moreover have "decode_decision ?r (outcome_state (dec_outcome d)) = Ok (Some d)"
    using assms(3) by (cases oc)
      (auto simp: decode_decision_def decision_row_def ApprovalDecision_new_def
        channel_wire.parse_spell split: if_splits)
  moreover have "sap_state ?r = ApprovalState_as_str (outcome_state (dec_outcome d))"
    by (simp add: decision_row_def)
  ultimately show ?thesis
    using r decode_approval_I [of ?r intent "outcome_state (dec_outcome d)" "Some d" req0] by simp
qed

lemma decode_withdrawn:
  assumes "decode_approval r = Ok req" "sap_state r = lit ''pending''"
  shows "decode_approval (r\<lparr>sap_state := lit ''expired'', sap_arguments_json := a\<rparr>) = Ok req"
proof -
  from assms obtain intent dec req0 where r: "0 \<le> sap_risk_level r" "sap_risk_level r \<le> 255"
      "intent_from_str (sap_intent_hash r) = Ok intent" "decode_decision r Pending = Ok dec"
      "ApprovalRequest_new (parts_of r intent) = Ok req0" "req = req0\<lparr>apr_decision := dec\<rparr>"
    unfolding decode_approval_Ok by (metis ApprovalState_as_str.simps(1) approval_state_wire.spell_inj)
  let ?r = "r\<lparr>sap_state := lit ''expired'', sap_arguments_json := a\<rparr>"
  have "parts_of ?r intent = parts_of r intent" "decode_decision ?r Expired = Ok None" "dec = None"
    using r(4) by (simp_all add: parts_of_def decode_decision_def)
  with r decode_approval_I [of ?r intent Expired None req0] show ?thesis by simp
qed

section \<open>Writes\<close>

inductive approval_row_step :: "stored_approval \<Rightarrow> stored_approval \<Rightarrow> bool" where
  row_decide: "sap_state r = lit ''pending'' \<Longrightarrow> decode_approval r = Ok req
    \<Longrightarrow> ApprovalDecision_new oc ch at approver = Ok d \<Longrightarrow> apply_decision req d = Ok req'
    \<Longrightarrow> approval_checks (decision_row (outcome_state (dec_outcome d)) d r)
    \<Longrightarrow> approval_row_step r (decision_row (outcome_state (dec_outcome d)) d r)"
| row_hold: "sap_state r = lit ''pending'' \<Longrightarrow> str_len a \<le> MAX_APPROVAL_ARGUMENTS_BYTES
    \<Longrightarrow> approval_row_step r (r\<lparr>sap_arguments_json := Some a\<rparr>)"
| row_drop: "approval_row_step r (r\<lparr>sap_arguments_json := None\<rparr>)"
| row_withdraw: "sap_state r = lit ''pending''
    \<Longrightarrow> approval_row_step r (r\<lparr>sap_state := lit ''expired'', sap_arguments_json := None\<rparr>)"

inductive_cases approval_row_stepE: "approval_row_step r r'"

definition blocks_intent :: "stored_approval \<Rightarrow> bool" where
  "blocks_intent r \<longleftrightarrow> sap_state r \<in> {lit ''pending'', lit ''denied''}"

lemma approval_row_step_facts:
  assumes "approval_row_step r r'"
  shows "sap_id r' = sap_id r" "sap_run_id r' = sap_run_id r" "sap_intent_hash r' = sap_intent_hash r"
    "blocks_intent r' \<Longrightarrow> blocks_intent r"
    "sap_state r \<noteq> lit ''pending'' \<Longrightarrow> sap_state r' = sap_state r \<and> decode_approval r' = decode_approval r"
    "sap_state r' = lit ''pending'' \<Longrightarrow> decode_approval r' = decode_approval r \<and> sap_state r = lit ''pending''"
proof -
  show "sap_id r' = sap_id r" "sap_run_id r' = sap_run_id r" "sap_intent_hash r' = sap_intent_hash r"
    using assms by (cases rule: approval_row_step.cases; simp add: decision_row_def)+
  show "blocks_intent r' \<Longrightarrow> blocks_intent r"
    "sap_state r \<noteq> lit ''pending'' \<Longrightarrow> sap_state r' = sap_state r \<and> decode_approval r' = decode_approval r"
    using assms by (cases rule: approval_row_step.cases; auto simp: blocks_intent_def)+
  show "sap_state r' = lit ''pending'' \<Longrightarrow> decode_approval r' = decode_approval r \<and> sap_state r = lit ''pending''"
    using assms
  proof (cases rule: approval_row_step.cases)
    case (row_decide req oc ch at approver d req')
    then show "sap_state r' = lit ''pending'' \<Longrightarrow> ?thesis"
      by (cases "dec_outcome d") (simp_all add: decision_row_def)
  qed auto
qed

lemma approval_row_step_ok:
  assumes "approval_row_step r r'" "approval_row_ok r"
  shows "approval_row_ok r'"
  using assms
proof (cases rule: approval_row_step.cases)
  case (row_decide req oc ch at approver d req')
  have "sap_arguments_json r' \<noteq> None \<longrightarrow> sap_state r' \<in> {lit ''pending'', lit ''approved''}"
    using row_decide(1) by (cases "dec_outcome d") (simp_all add: decision_row_def)
  with row_decide decode_decision_row [OF row_decide(3,2,4)] show ?thesis
    by (simp add: approval_row_ok_def)
next
  case (row_hold a)
  with assms(2) show ?thesis
    by (simp add: approval_row_ok_def approval_checks_def undecided_columns_def decided_columns_def
        null_or_def MAX_APPROVAL_ARGUMENTS_BYTES_def)
next
  case row_drop
  with assms(2) show ?thesis
    by (simp add: approval_row_ok_def approval_checks_def undecided_columns_def decided_columns_def null_or_def)
next
  case row_withdraw
  from assms(2) obtain req where "decode_approval r = Ok req" by (auto simp: approval_row_ok_def is_ok_iff)
  from decode_withdrawn [OF this row_withdraw(2), of None] assms(2) row_withdraw show ?thesis
    by (simp add: approval_row_ok_def approval_checks_def undecided_columns_def decided_columns_def null_or_def)
qed

definition approvals_inv :: "stored_approval list \<Rightarrow> bool" where
  "approvals_inv rows \<longleftrightarrow> distinct (map sap_id rows) \<and> (\<forall>r \<in> set rows. approval_row_ok r)
     \<and> (\<forall>r \<in> set rows. \<forall>q \<in> set rows. blocks_intent r \<longrightarrow> blocks_intent q \<longrightarrow> sap_run_id r = sap_run_id q
          \<longrightarrow> sap_intent_hash r = sap_intent_hash q \<longrightarrow> sap_id r = sap_id q)"

definition approvals_step :: "stored_approval list \<Rightarrow> stored_approval list \<Rightarrow> bool" where
  "approvals_step rows rows' \<longleftrightarrow> length rows \<le> length rows'
     \<and> (\<forall>i < length rows. approval_row_step\<^sup>=\<^sup>= (rows ! i) (rows' ! i))"

lemma approvals_step_update:
  "(\<And>r. r \<in> set rows \<Longrightarrow> P r \<Longrightarrow> approval_row_step r (f r)) \<Longrightarrow> approvals_step rows (sql_update P f rows)"
  by (auto simp: approvals_step_def sql_update_def)

lemma approvals_step_member:
  assumes "approvals_step rows rows'" "r \<in> set rows"
  obtains r' where "r' \<in> set rows'" "r' = r \<or> approval_row_step r r'"
proof -
  from assms(2) obtain i where "i < length rows" "rows ! i = r" by (auto simp: in_set_conv_nth)
  with assms(1) show ?thesis
    by (intro that [of "rows' ! i"]) (auto simp: approvals_step_def)
qed

lemma approvals_inv_update:
  assumes step: "\<And>r. r \<in> set rows \<Longrightarrow> P r \<Longrightarrow> approval_row_step r (f r)" and inv: "approvals_inv rows"
  shows "approvals_inv (sql_update P f rows)"
proof -
  let ?g = "\<lambda>r. if P r then f r else r"
  have same: "sap_id (?g r) = sap_id r" "sap_run_id (?g r) = sap_run_id r"
    "sap_intent_hash (?g r) = sap_intent_hash r" "blocks_intent (?g r) \<Longrightarrow> blocks_intent r"
    if "r \<in> set rows" for r
    using approval_row_step_facts [OF step [OF that]] by (auto split: if_splits)
  have "map sap_id (map ?g rows) = map sap_id rows" using same(1) by simp
  then have "distinct (map sap_id (map ?g rows))" using inv by (simp only: approvals_inv_def)
  moreover have "\<forall>r \<in> set (map ?g rows). approval_row_ok r"
    using step inv by (auto simp: approvals_inv_def intro: approval_row_step_ok)
  moreover have "sap_id (?g r) = sap_id (?g q)"
    if "r \<in> set rows" "q \<in> set rows" "blocks_intent (?g r)" "blocks_intent (?g q)"
      "sap_run_id (?g r) = sap_run_id (?g q)" "sap_intent_hash (?g r) = sap_intent_hash (?g q)" for r q
  proof -
    have "sap_id r = sap_id q"
      using that inv same [OF that(1)] same [OF that(2)] unfolding approvals_inv_def by metis
    then show ?thesis using same(1) that by simp
  qed
  ultimately show ?thesis unfolding approvals_inv_def sql_update_def by (simp only: set_map ball_simps) blast
qed

lemma approvals_inv_inj:
  "approvals_inv rows \<Longrightarrow> r \<in> set rows \<Longrightarrow> q \<in> set rows \<Longrightarrow> sap_id r = sap_id q \<Longrightarrow> r = q"
  by (auto simp: approvals_inv_def distinct_map inj_on_def)

lemma find_approval_row:
  assumes "approvals_inv rows" "r \<in> set rows"
  shows "find (\<lambda>q. sap_id q = sap_id r) rows = Some r"
proof -
  have "distinct (map sap_id rows)" using assms(1) by (simp add: approvals_inv_def)
  with assms(2) show ?thesis by (induction rows) force+
qed

section \<open>Writers that interleave\<close>

record approval_sys =
  aps_rows :: "stored_approval list"
  aps_reads :: "ApprovalRequest list"

inductive aps_step :: "approval_sys \<Rightarrow> approval_sys \<Rightarrow> bool" where
  aps_create: "ApprovalRequest_new p = Ok request
    \<Longrightarrow> aps_step s (s\<lparr>aps_rows := fst (create_approval pe (aps_rows s) request)\<rparr>)"
| aps_read: "find_approval (aps_rows s) aid = Ok request
    \<Longrightarrow> aps_step s (s\<lparr>aps_reads := request # aps_reads s\<rparr>)"
| aps_decide: "request \<in> set (aps_reads s) \<Longrightarrow> ApprovalDecision_new oc ch at approver = Ok d
    \<Longrightarrow> aps_step s (s\<lparr>aps_rows := fst (write_decision (aps_rows s) (apr_id request) request d)\<rparr>)"
| aps_attach: "aps_step s (s\<lparr>aps_rows := fst (attach_approval_arguments (aps_rows s) aid a)\<rparr>)"
| aps_clear: "aps_step s (s\<lparr>aps_rows := clear_approval_arguments (aps_rows s) aid\<rparr>)"
| aps_started: "aps_step s (s\<lparr>aps_rows := fst (clear_arguments_of_started_calls calls (aps_rows s))\<rparr>)"
| aps_withdraw: "aps_step s (s\<lparr>aps_rows := withdraw_rows stopped (aps_rows s)\<rparr>)"

definition request_current :: "stored_approval list \<Rightarrow> ApprovalRequest \<Rightarrow> bool" where
  "request_current rows request \<longleftrightarrow> (\<exists>r \<in> set rows. sap_id r = apr_id request
     \<and> (sap_state r = lit ''pending'' \<longrightarrow> decode_approval r = Ok request))"

definition aps_inv :: "approval_sys \<Rightarrow> bool" where
  "aps_inv s \<longleftrightarrow> approvals_inv (aps_rows s) \<and> (\<forall>q \<in> set (aps_reads s). request_current (aps_rows s) q)"

lemma request_current_step:
  assumes "approvals_step rows rows'" "request_current rows request"
  shows "request_current rows' request"
proof -
  from assms(2) obtain r where r: "r \<in> set rows" "sap_id r = apr_id request"
      "sap_state r = lit ''pending'' \<longrightarrow> decode_approval r = Ok request"
    by (auto simp: request_current_def)
  from approvals_step_member [OF assms(1) r(1)] obtain r' where "r' \<in> set rows'"
      "r' = r \<or> approval_row_step r r'" .
  with r show ?thesis
    unfolding request_current_def by (intro bexI [of _ r']) (auto dest: approval_row_step_facts(1,6))
qed

lemma create_cases:
  assumes "ApprovalRequest_new p = Ok request"
  obtains (refused) "fst (create_approval pe rows request) = rows"
  | (added) "fst (create_approval pe rows request) = rows @ [approval_row_of request]"
      "approval_checks (approval_row_of request)" "\<forall>r \<in> set rows. sap_id r \<noteq> apr_id request"
      "\<not> intent_blocked rows (approval_row_of request)"
proof -
  have "fst (create_approval pe rows request) = rows
    \<or> (fst (create_approval pe rows request) = rows @ [approval_row_of request]
       \<and> approval_checks (approval_row_of request) \<and> (\<forall>r \<in> set rows. sap_id r \<noteq> apr_id request)
       \<and> \<not> intent_blocked rows (approval_row_of request))"
    by (auto simp: create_approval_def Let_def list_ex_iff approval_row_of_def)
  then show ?thesis using that by blast
qed

lemma approvals_inv_added:
  assumes "approvals_inv rows" "ApprovalRequest_new p = Ok request"
    "approval_checks (approval_row_of request)" "\<forall>r \<in> set rows. sap_id r \<noteq> apr_id request"
    "\<not> intent_blocked rows (approval_row_of request)"
  shows "approvals_inv (rows @ [approval_row_of request])"
proof -
  let ?a = "approval_row_of request"
  have aid: "sap_id ?a = apr_id request" by (simp add: approval_row_of_def)
  have fresh: "\<not> (sap_run_id r = sap_run_id ?a \<and> sap_intent_hash r = sap_intent_hash ?a \<and> blocks_intent r)"
    if "r \<in> set rows" for r
    using assms(5) that by (auto simp: intent_blocked_def list_ex_iff blocks_intent_def)
  have old: "distinct (map sap_id rows)" "\<forall>r \<in> set rows. approval_row_ok r"
    "\<And>r q. r \<in> set rows \<Longrightarrow> q \<in> set rows \<Longrightarrow> blocks_intent r \<Longrightarrow> blocks_intent q
      \<Longrightarrow> sap_run_id r = sap_run_id q \<Longrightarrow> sap_intent_hash r = sap_intent_hash q \<Longrightarrow> sap_id r = sap_id q"
    using assms(1) unfolding approvals_inv_def by blast+
  have "sap_id r = sap_id q"
    if "r \<in> set (rows @ [?a])" "q \<in> set (rows @ [?a])" "blocks_intent r" "blocks_intent q"
      "sap_run_id r = sap_run_id q" "sap_intent_hash r = sap_intent_hash q" for r q
  proof (cases "r \<in> set rows \<and> q \<in> set rows")
    case True
    then show ?thesis using old(3) that by blast
  next
    case False
    then show ?thesis using fresh [of r] fresh [of q] that by auto
  qed
  moreover have "distinct (map sap_id (rows @ [?a]))" using old(1) assms(4) aid by auto
  moreover have "\<forall>r \<in> set (rows @ [?a]). approval_row_ok r"
    using old(2) approval_row_of_ok(2) [OF assms(2,3)] by simp
  ultimately show ?thesis unfolding approvals_inv_def by blast
qed

lemma write_decision_cases:
  assumes inv: "approvals_inv rows" and "request_current rows request"
    and new: "ApprovalDecision_new oc ch at approver = Ok d"
  obtains (refused) "fst (write_decision rows (apr_id request) request d) = rows"
  | (written) r req' where "r \<in> set rows" "sap_state r = lit ''pending''" "decode_approval r = Ok request"
      "apply_decision request d = Ok req'"
      "approval_row_step r (decision_row (outcome_state (dec_outcome d)) d r)"
      "fst (write_decision rows (apr_id request) request d)
        = sql_update (\<lambda>q. q = r) (decision_row (outcome_state (dec_outcome d)) d) rows"
proof (cases "fst (write_decision rows (apr_id request) request d) = rows")
  case False
  let ?hit = "\<lambda>r. sap_id r = apr_id request \<and> sap_state r = lit ''pending''"
  from False obtain req' where app: "apply_decision request d = Ok req'"
    by (auto simp: write_decision_def split: sum.splits if_splits)
  then have st: "stored_state req' = outcome_state (dec_outcome d)"
    by (auto simp: apply_decision_Ok stored_state_def)
  let ?new = "decision_row (outcome_state (dec_outcome d)) d"
  from False app have checks: "list_all approval_checks (map ?new (filter ?hit rows))"
      and hit: "rows_affected ?hit rows \<noteq> 0"
      and eff: "fst (write_decision rows (apr_id request) request d) = sql_update ?hit ?new rows"
    by (auto simp: write_decision_def st Let_def split: if_splits)
  from hit obtain q where q: "q \<in> set rows" "?hit q"
    by (auto simp: rows_affected_def filter_empty_conv)
  from assms(2) obtain r where r: "r \<in> set rows" "sap_id r = apr_id request"
      "sap_state r = lit ''pending'' \<longrightarrow> decode_approval r = Ok request"
    by (auto simp: request_current_def)
  with q approvals_inv_inj [OF inv r(1) q(1)] have pend: "sap_state r = lit ''pending''" by simp
  have "?hit x \<longleftrightarrow> x = r" if "x \<in> set rows" for x
    using that r(1,2) pend approvals_inv_inj [OF inv that r(1)] by auto
  then have "sql_update ?hit ?new rows = sql_update (\<lambda>q. q = r) ?new rows" by (simp add: sql_update_def)
  moreover have "approval_row_step r (?new r)"
    using checks r pend
    by (intro row_decide [OF pend _ new app]) (auto simp: list_all_iff)
  ultimately show ?thesis using written [OF r(1) pend _ app] r(3) pend eff by simp
qed

lemma withdraw_step:
  assumes "sap_state r \<in> {lit ''pending'', lit ''approved''}"
  shows "approval_row_step r (r\<lparr>sap_state := (if sap_state r = lit ''pending'' then lit ''expired'' else sap_state r),
    sap_arguments_json := None\<rparr>)"
proof (cases "sap_state r = lit ''pending''")
  case False
  then have "r\<lparr>sap_state := sap_state r, sap_arguments_json := None\<rparr> = r\<lparr>sap_arguments_json := None\<rparr>" by simp
  with False row_drop [of r] show ?thesis by simp
qed (simp add: row_withdraw)

text \<open>The writes that touch no decision, as row-wise updates.\<close>

lemma plain_writes:
  "approvals_step rows (fst (attach_approval_arguments rows aid a))"
  "approvals_step rows (clear_approval_arguments rows aid)"
  "approvals_step rows (fst (clear_arguments_of_started_calls calls rows))"
  "approvals_step rows (withdraw_rows stopped rows)"
  "approvals_inv rows \<Longrightarrow> approvals_inv (fst (attach_approval_arguments rows aid a))"
  "approvals_inv rows \<Longrightarrow> approvals_inv (clear_approval_arguments rows aid)"
  "approvals_inv rows \<Longrightarrow> approvals_inv (fst (clear_arguments_of_started_calls calls rows))"
  "approvals_inv rows \<Longrightarrow> approvals_inv (withdraw_rows stopped rows)"
  unfolding attach_approval_arguments_def clear_approval_arguments_def
    clear_arguments_of_started_calls_def withdraw_rows_def Let_def
  by (auto intro!: approvals_step_update approvals_inv_update row_hold row_drop withdraw_step)
    (simp_all add: approvals_step_def)

lemma aps_step_rows:
  assumes "aps_step s s'" "aps_inv s"
  shows "approvals_step (aps_rows s) (aps_rows s') \<and> approvals_inv (aps_rows s')"
proof -
  have inv: "approvals_inv (aps_rows s)" using assms(2) by (simp add: aps_inv_def)
  have refl: "approvals_step (aps_rows s) (aps_rows s)" by (simp add: approvals_step_def)
  from assms(1) show ?thesis
  proof (cases rule: aps_step.cases)
    case (aps_create p request pe)
    from aps_create(2) show ?thesis
    proof (cases rule: create_cases [of _ _ pe "aps_rows s"])
      case added
      with approvals_inv_added [OF inv aps_create(2)] show ?thesis
        by (simp add: aps_create approvals_step_def nth_append)
    qed (use inv refl in \<open>simp add: aps_create\<close>)
  next
    case (aps_decide request oc ch at approver d)
    have "request_current (aps_rows s) request" using assms(2) aps_decide(2) by (simp add: aps_inv_def)
    from inv this aps_decide(3) show ?thesis
    proof (cases rule: write_decision_cases)
      case (written r req')
      then show ?thesis using inv
        by (auto simp: aps_decide intro!: approvals_step_update approvals_inv_update)
    qed (use inv refl in \<open>simp add: aps_decide\<close>)
  qed (use inv refl in \<open>simp_all add: plain_writes\<close>)
qed

lemma aps_step_inv:
  assumes "aps_inv s" "aps_step s s'"
  shows "aps_inv s'"
proof -
  note step = aps_step_rows [OF assms(2,1)]
  have "request_current (aps_rows s') q" if "q \<in> set (aps_reads s')" for q
  proof (cases "q \<in> set (aps_reads s)")
    case True
    with assms(1) step show ?thesis by (auto simp: aps_inv_def intro: request_current_step)
  next
    case False
    with assms(2) that obtain aid where "find_approval (aps_rows s) aid = Ok q" "aps_rows s' = aps_rows s"
      by (cases rule: aps_step.cases) auto
    then show ?thesis
      by (auto simp: request_current_def find_approval_def decode_approval_fields dest!: find_SomeD)
  qed
  with step show ?thesis by (simp add: aps_inv_def)
qed

section \<open>The registry the table implements\<close>

text \<open>An approval request of the domain, and whether it was withdrawn before it was decided.\<close>

type_synonym registry = "ident \<rightharpoonup> ApprovalRequest \<times> bool"

inductive decision_step :: "registry \<Rightarrow> registry \<Rightarrow> bool" where
  reg_open: "R (apr_id request) = None \<Longrightarrow> ApprovalRequest_new p = Ok request
    \<Longrightarrow> decision_step R (R(apr_id request \<mapsto> (request, False)))"
| reg_decide: "R aid = Some (request, False) \<Longrightarrow> ApprovalDecision_new oc ch at approver = Ok d
    \<Longrightarrow> apply_decision request d = Ok request' \<Longrightarrow> decision_step R (R(aid \<mapsto> (request', False)))"
| reg_withdraw: "decision_step R (\<lambda>aid. map_option (\<lambda>(request, withdrawn).
    (request, withdrawn \<or> apr_decision request = None \<and> stopped (apr_run_id request))) (R aid))"

definition entry_of :: "stored_approval \<Rightarrow> (ApprovalRequest \<times> bool) option" where
  "entry_of r = (case decode_approval r of Inl _ \<Rightarrow> None
     | Inr request \<Rightarrow> Some (request, sap_state r = lit ''expired''))"

definition registry_of :: "approval_sys \<Rightarrow> registry" where
  "registry_of s aid = Option.bind (find (\<lambda>r. sap_id r = aid) (aps_rows s)) entry_of"

lemma registry_of_update:
  assumes "\<And>r. r \<in> set rows \<Longrightarrow> P r \<Longrightarrow> sap_id (f r) = sap_id r"
  shows "registry_of (s\<lparr>aps_rows := sql_update P f rows\<rparr>) aid
    = Option.bind (find (\<lambda>r. sap_id r = aid) rows) (\<lambda>r. entry_of (if P r then f r else r))"
proof -
  have "find (\<lambda>r. sap_id r = aid) (sql_update P f rows)
      = map_option (\<lambda>r. if P r then f r else r) (find (\<lambda>r. sap_id r = aid) rows)"
    by (rule find_sql_update) (simp add: assms)
  then show ?thesis
    by (cases "find (\<lambda>r. sap_id r = aid) rows") (simp_all add: registry_of_def)
qed

lemma registry_of_same:
  assumes "\<And>r. r \<in> set (aps_rows s) \<Longrightarrow> P r \<Longrightarrow> sap_id (f r) = sap_id r \<and> entry_of (f r) = entry_of r"
  shows "registry_of (s\<lparr>aps_rows := sql_update P f (aps_rows s)\<rparr>) = registry_of s"
proof
  fix aid
  show "registry_of (s\<lparr>aps_rows := sql_update P f (aps_rows s)\<rparr>) aid = registry_of s aid"
    using assms registry_of_update [of "aps_rows s" P f s aid]
    by (cases "find (\<lambda>r. sap_id r = aid) (aps_rows s)") (auto simp: registry_of_def dest: find_SomeD)
qed

lemma entry_of_arguments [simp]: "entry_of (r\<lparr>sap_arguments_json := a\<rparr>) = entry_of r"
  by (simp add: entry_of_def split: sum.split)

lemma registry_of_withdrawn:
  assumes "approvals_inv (aps_rows s)"
  shows "registry_of (s\<lparr>aps_rows := withdraw_rows stopped (aps_rows s)\<rparr>)
    = (\<lambda>aid. map_option (\<lambda>(request, withdrawn).
        (request, withdrawn \<or> apr_decision request = None \<and> stopped (apr_run_id request))) (registry_of s aid))"
proof
  fix aid
  let ?P = "\<lambda>r. stopped (sap_run_id r) \<and> sap_state r \<in> {lit ''pending'', lit ''approved''}"
  let ?f = "\<lambda>r. r\<lparr>sap_state := (if sap_state r = lit ''pending'' then lit ''expired'' else sap_state r),
      sap_arguments_json := None\<rparr>"
  have upd: "registry_of (s\<lparr>aps_rows := withdraw_rows stopped (aps_rows s)\<rparr>) aid
    = Option.bind (find (\<lambda>r. sap_id r = aid) (aps_rows s)) (\<lambda>r. entry_of (if ?P r then ?f r else r))"
    unfolding withdraw_rows_def by (rule registry_of_update) simp
  show "registry_of (s\<lparr>aps_rows := withdraw_rows stopped (aps_rows s)\<rparr>) aid
    = map_option (\<lambda>(request, withdrawn).
        (request, withdrawn \<or> apr_decision request = None \<and> stopped (apr_run_id request))) (registry_of s aid)"
  proof (cases "find (\<lambda>r. sap_id r = aid) (aps_rows s)")
    case (Some r)
    then have "approval_row_ok r" using assms by (auto simp: approvals_inv_def dest: find_SomeD)
    then obtain req where req: "decode_approval r = Ok req" by (auto simp: approval_row_ok_def is_ok_iff)
    note f = decode_approval_fields [OF req]
    show ?thesis
    proof (cases "sap_state r = lit ''pending''")
      case True
      with upd Some req f decode_withdrawn [OF req True, of None] show ?thesis
        by (simp add: registry_of_def entry_of_def)
    next
      case False
      have "r\<lparr>sap_state := sap_state r, sap_arguments_json := None\<rparr> = r\<lparr>sap_arguments_json := None\<rparr>" by simp
      with False have "entry_of (if ?P r then ?f r else r) = entry_of r"
        by (simp only: if_False entry_of_arguments split: if_split) simp
      then have "registry_of (s\<lparr>aps_rows := withdraw_rows stopped (aps_rows s)\<rparr>) aid = entry_of r"
        unfolding upd Some bind.bind_lunit .
      with False Some req f show ?thesis by (auto simp: registry_of_def entry_of_def)
    qed
  next
    case None
    show ?thesis unfolding upd by (simp add: None registry_of_def)
  qed
qed

lemma registry_of_added:
  assumes "ApprovalRequest_new p = Ok request" "approval_checks (approval_row_of request)"
    "\<forall>r \<in> set (aps_rows s). sap_id r \<noteq> apr_id request"
  shows "decision_step (registry_of s) (registry_of (s\<lparr>aps_rows := aps_rows s @ [approval_row_of request]\<rparr>))"
proof -
  have none: "find (\<lambda>r. sap_id r = apr_id request) (aps_rows s) = None"
    using assms(3) by (intro find_none) auto
  have [simp]: "sap_id (approval_row_of request) = apr_id request"
    "sap_state (approval_row_of request) = lit ''pending''"
    by (simp_all add: approval_row_of_def)
  have "entry_of (approval_row_of request) = Some (request, False)"
    using approval_row_of_ok(1) [OF assms(1,2)] by (simp add: entry_of_def)
  then have "registry_of (s\<lparr>aps_rows := aps_rows s @ [approval_row_of request]\<rparr>)
      = (registry_of s)(apr_id request \<mapsto> (request, False))"
    using none by (auto simp: registry_of_def find_append fun_eq_iff split: option.splits)
  moreover have "registry_of s (apr_id request) = None" using none by (simp add: registry_of_def)
  ultimately show ?thesis using reg_open [of "registry_of s" request p] assms(1) by simp
qed

lemma registry_of_decided:
  assumes inv: "approvals_inv (aps_rows s)" and r: "r \<in> set (aps_rows s)" "sap_state r = lit ''pending''"
      "decode_approval r = Ok request"
    and new: "ApprovalDecision_new oc ch at approver = Ok d" "apply_decision request d = Ok req'"
  shows "decision_step (registry_of s) (registry_of (s\<lparr>aps_rows :=
    sql_update (\<lambda>q. q = r) (decision_row (outcome_state (dec_outcome d)) d) (aps_rows s)\<rparr>))"
proof -
  let ?f = "decision_row (outcome_state (dec_outcome d)) d"
  let ?s = "s\<lparr>aps_rows := sql_update (\<lambda>q. q = r) ?f (aps_rows s)\<rparr>"
  have req': "req' = request\<lparr>apr_decision := Some d\<rparr>" using new(2) by (simp add: apply_decision_Ok)
  have "sap_state (?f r) \<noteq> lit ''expired''" by (cases "dec_outcome d") (simp_all add: decision_row_def)
  then have entry: "entry_of (?f r) = Some (req', False)"
    using decode_decision_row [OF r(3,2) new(1)] req' by (simp add: entry_of_def)
  have found: "find (\<lambda>q. sap_id q = sap_id r) (aps_rows s) = Some r" by (rule find_approval_row [OF inv r(1)])
  have "registry_of ?s aid = Option.bind (find (\<lambda>q. sap_id q = aid) (aps_rows s))
      (\<lambda>q. entry_of (if q = r then ?f q else q))" for aid
    by (rule registry_of_update) (simp add: decision_row_def)
  then have "registry_of ?s = (registry_of s)(sap_id r \<mapsto> (req', False))"
    using entry found by (auto simp: fun_eq_iff registry_of_def split: bind_split dest: find_SomeD)
  moreover have "registry_of s (sap_id r) = Some (request, False)"
    using found r(2,3) by (simp add: registry_of_def entry_of_def)
  ultimately show ?thesis using reg_decide [OF _ new] by metis
qed

lemma aps_step_simulated:
  assumes "aps_inv s" "aps_step s s'"
  shows "decision_step\<^sup>*\<^sup>* (registry_of s) (registry_of s')"
proof -
  have inv: "approvals_inv (aps_rows s)" using assms(1) by (simp add: aps_inv_def)
  from assms(2) show ?thesis
  proof (cases rule: aps_step.cases)
    case (aps_create p request pe)
    from aps_create(2) show ?thesis
      by (cases rule: create_cases [of _ _ pe "aps_rows s"])
        (simp_all add: aps_create(1) registry_of_added [OF aps_create(2)] r_into_rtranclp)
  next
    case (aps_read aid request)
    then have "registry_of s' = registry_of s" by (simp add: registry_of_def fun_eq_iff)
    then show ?thesis by simp
  next
    case (aps_decide request oc ch at approver d)
    have "request_current (aps_rows s) request" using assms(1) aps_decide(2) by (simp add: aps_inv_def)
    from inv this aps_decide(3) show ?thesis
      by (cases rule: write_decision_cases)
        (simp_all add: aps_decide(1) registry_of_decided [OF inv _ _ _ aps_decide(3)] r_into_rtranclp)
  next
    case (aps_attach aid a)
    then show ?thesis
      by (simp add: attach_approval_arguments_def Let_def registry_of_same)
  next
    case (aps_clear aid)
    then show ?thesis by (simp add: clear_approval_arguments_def registry_of_same)
  next
    case (aps_started calls)
    then show ?thesis by (simp add: clear_arguments_of_started_calls_def Let_def registry_of_same)
  next
    case (aps_withdraw stopped)
    then show ?thesis
      using reg_withdraw [of "registry_of s" stopped] registry_of_withdrawn [OF inv, of stopped]
      by (simp add: r_into_rtranclp)
  qed
qed

interpretation approval_registry: forward_simulation aps_step decision_step registry_of aps_inv
  by unfold_locales (simp_all add: aps_step_inv aps_step_simulated)

lemma record_decision_is_steps:
  assumes "ApprovalDecision_new oc ch at approver = Ok d"
  shows "\<exists>reads'. aps_step\<^sup>*\<^sup>* \<lparr>aps_rows = rows, aps_reads = reads\<rparr>
    \<lparr>aps_rows = fst (record_decision rows aid d), aps_reads = reads'\<rparr>"
proof (cases "find_approval rows aid")
  case (Inl e)
  then show ?thesis by (intro exI [of _ reads]) (simp add: record_decision_def)
next
  case (Inr q)
  then have q: "apr_id q = aid"
    by (auto simp: find_approval_def decode_approval_fields dest!: find_SomeD)
  let ?s = "\<lparr>aps_rows = rows, aps_reads = reads\<rparr>" and ?t = "\<lparr>aps_rows = rows, aps_reads = q # reads\<rparr>"
  have "aps_step ?s ?t" using aps_read [of ?s aid q] Inr by simp
  moreover have "aps_step ?t \<lparr>aps_rows = fst (record_decision rows aid d), aps_reads = q # reads\<rparr>"
    using aps_decide [of q ?t, OF _ assms] q Inr by (simp add: record_decision_def)
  ultimately show ?thesis by (meson r_into_rtranclp rtranclp.rtrancl_into_rtrancl)
qed

lemma registry_entry: "(\<exists>w. registry_of s aid = Some (req, w)) \<longleftrightarrow> find_approval (aps_rows s) aid = Ok req"
  by (cases "find (\<lambda>r. sap_id r = aid) (aps_rows s)")
    (auto simp: registry_of_def find_approval_def entry_of_def split: sum.splits)

definition no_approvals :: approval_sys where
  "no_approvals = \<lparr>aps_rows = [], aps_reads = []\<rparr>"

lemma no_approvals_inv: "aps_inv no_approvals"
  by (simp add: aps_inv_def no_approvals_def approvals_inv_def)

text \<open>A decision stays, and a withdrawn request stays undecided.\<close>

lemma registry_step_decided:
  assumes "decision_step R R'" "R aid = Some (req, w)" "apr_decision req = Some d"
  shows "\<exists>w'. R' aid = Some (req, w')"
  using assms by (cases rule: decision_step.cases) (auto simp: apply_decision_Ok)

section \<open>Properties\<close>

text \<open>C16: the approval table implements the domain's approvals. Under any interleaving of writers,
  every database state stands for a registry reached by opening undecided requests, by deciding a
  request that was not withdrawn through \<open>apply_decision\<close>, or by withdrawing undecided requests of
  stopped runs; every row reads back as its entry; and every stored decision was made before the
  request expired, by a named approver.\<close>

theorem approval_store_refined:
  assumes "aps_step\<^sup>*\<^sup>* no_approvals s"
  shows "decision_step\<^sup>*\<^sup>* Map.empty (registry_of s)
    \<and> (\<forall>r \<in> set (aps_rows s). \<exists>req. find_approval (aps_rows s) (sap_id r) = Ok req
        \<and> registry_of s (sap_id r) = Some (req, sap_state r = lit ''expired'')
        \<and> (\<forall>d. apr_decision req = Some d \<longrightarrow>
             dec_decided_at d < apr_expires_at req \<and> trim (dec_approver_id d) \<noteq> []))"
proof (intro conjI ballI)
  note inv = approval_registry.keeps_all [OF assms no_approvals_inv]
  have start: "registry_of no_approvals = Map.empty"
    by (simp add: registry_of_def no_approvals_def fun_eq_iff)
  show "decision_step\<^sup>*\<^sup>* Map.empty (registry_of s)"
    using approval_registry.simulates_all [OF assms no_approvals_inv] start by simp
  define P where "P R \<longleftrightarrow> (\<forall>aid req w d. R aid = Some (req, w) \<longrightarrow> apr_decision req = Some d \<longrightarrow>
      dec_decided_at d < apr_expires_at req \<and> trim (dec_approver_id d) \<noteq> [])" for R :: registry
  have P: "P (registry_of s)"
  proof (rule approval_registry.transfers [OF assms no_approvals_inv])
    show "P (registry_of no_approvals)" by (simp add: P_def start)
    show "P b" if "decision_step a b" "P a" for a b
      using that by (cases rule: decision_step.cases)
        (auto simp: P_def ApprovalRequest_new_fields apply_decision_Ok ApprovalDecision_new_def
          split: if_splits)
  qed
  fix r assume r: "r \<in> set (aps_rows s)"
  then have found: "find (\<lambda>q. sap_id q = sap_id r) (aps_rows s) = Some r"
    using inv by (intro find_approval_row) (simp_all add: aps_inv_def)
  from r inv obtain req where req: "decode_approval r = Ok req"
    by (auto simp: aps_inv_def approvals_inv_def approval_row_ok_def is_ok_iff)
  have reg: "registry_of s (sap_id r) = Some (req, sap_state r = lit ''expired'')"
    using found req by (simp add: registry_of_def entry_of_def)
  show "\<exists>req. find_approval (aps_rows s) (sap_id r) = Ok req
        \<and> registry_of s (sap_id r) = Some (req, sap_state r = lit ''expired'')
        \<and> (\<forall>d. apr_decision req = Some d \<longrightarrow>
             dec_decided_at d < apr_expires_at req \<and> trim (dec_approver_id d) \<noteq> [])"
    using P reg found req by (intro exI [of _ req]) (auto simp: P_def find_approval_def)
qed

definition sample_stored_parts :: ApprovalRequestParts where
  "sample_stored_parts = \<lparr>apr_id = replicate 36 97, apr_workspace_id = replicate 36 99,
     apr_run_id = replicate 36 98, apr_actor_id = lit ''agent'', apr_tool = lit ''mail.send'',
     apr_tool_version = lit ''1.0.0'', apr_intent = replicate 32 0, apr_preview = lit ''send the mail'',
     apr_risk_level = 2, apr_correlation_id = replicate 36 101, apr_created_at = 0,
     apr_expires_at = 1000000000\<rparr>"

definition sample_stored :: ApprovalRequest where
  "sample_stored = ApprovalRequestParts.extend sample_stored_parts \<lparr>apr_decision = None\<rparr>"

definition sample_denial :: ApprovalDecision where
  "sample_denial = \<lparr>dec_outcome = Decision_Deny, dec_channel = Cli, dec_decided_at = 5,
     dec_approver_id = lit ''owner''\<rparr>"

definition sample_approvals :: "stored_approval list" where
  "sample_approvals = fst (create_approval (\<lambda>_. True) [] sample_stored)"

definition sample_denied_rows :: "stored_approval list" where
  "sample_denied_rows = fst (record_decision sample_approvals (replicate 36 97) sample_denial)"

lemma sample_stored_new: "ApprovalRequest_new sample_stored_parts = Ok sample_stored"
  unfolding ApprovalRequest_new_Ok
  by (simp add: sample_stored_def sample_stored_parts_def ApprovalRequestParts.defs is_ok_iff SafeMessage_new_Ok
      MAX_APPROVAL_PREVIEW_CHARS_def MAX_APPROVAL_LIFETIME_SECONDS_def)
    (simp add: lit_def utf8_width_def is_control_def)

lemma encode_hex_zeros: "encode_hex (replicate n 0) = replicate (2 * n) 48"
  by (induction n) (simp_all add: hex_digit_def lit_def)

lemma sample_row_checks: "approval_checks (approval_row_of sample_stored)"
  unfolding approval_checks_def
  by (simp add: approval_row_of_def sample_stored_def sample_stored_parts_def ApprovalRequestParts.defs
      chars_between_def hex_glob_def encode_hex_zeros null_or_def undecided_columns_def
      unused_column_values_def strengths_def list_all_iff is_ascii_digit_def)
    (simp add: lit_def)

lemma sample_approvals_eq: "sample_approvals = [approval_row_of sample_stored]"
  using sample_row_checks
  by (simp add: sample_approvals_def create_approval_def intent_blocked_def Let_def sample_stored_def
      ApprovalRequestParts.defs)

lemma sample_denial_new: "ApprovalDecision_new Decision_Deny Cli 5 (lit ''owner'') = Ok sample_denial"
proof -
  have "trim (lit ''owner'') = lit ''owner''" by (simp add: trim_def lit_def is_whitespace_def)
  moreover have "str_len (lit ''owner'') = 5" by (simp add: lit_def utf8_width_def)
  ultimately show ?thesis
    by (simp add: ApprovalDecision_new_def sample_denial_def MAX_APPROVER_ID_CHARS_def)
qed

lemma sample_approvals_reachable: "aps_step\<^sup>*\<^sup>* no_approvals \<lparr>aps_rows = sample_approvals, aps_reads = []\<rparr>"
  using aps_create [OF sample_stored_new, of no_approvals "\<lambda>_. True"]
  by (intro r_into_rtranclp) (simp add: no_approvals_def sample_approvals_def)

lemma sample_find: "find_approval sample_approvals (replicate 36 97) = Ok sample_stored"
  using approval_row_of_ok(1) [OF sample_stored_new sample_row_checks]
  by (simp add: sample_approvals_eq find_approval_def)
    (simp add: approval_row_of_def sample_stored_def sample_stored_parts_def ApprovalRequestParts.defs)

theorem approval_store_refined_witness:
  "\<exists>req. find_approval sample_approvals (replicate 36 97) = Ok req"
proof -
  have "sap_id (approval_row_of sample_stored) = replicate 36 97"
    by (simp add: approval_row_of_def sample_stored_def sample_stored_parts_def ApprovalRequestParts.defs)
  then show ?thesis
    using approval_store_refined [OF sample_approvals_reachable] by (auto simp: sample_approvals_eq)
qed

text \<open>C18: a decision is made once and stays. After an approval was decided, and whatever writers do
  from whatever they read before, the stored request keeps exactly that decision, and every further
  attempt to decide it is refused and writes nothing.\<close>

theorem decision_final:
  assumes "aps_step\<^sup>*\<^sup>* no_approvals s" "aps_step\<^sup>*\<^sup>* s s'"
    and "find_approval (aps_rows s) aid = Ok req" "apr_decision req = Some d"
  shows "find_approval (aps_rows s') aid = Ok req
    \<and> record_decision (aps_rows s') aid d' = (aps_rows s', Err ApprovalAlreadyDecided)
    \<and> (ApprovalDecision_new oc ch at approver = Ok d' \<longrightarrow> q \<in> set (aps_reads s') \<longrightarrow> apr_id q = aid
        \<longrightarrow> fst (write_decision (aps_rows s') aid q d') = aps_rows s')"
proof -
  have inv: "aps_inv s" "aps_inv s'"
    using approval_registry.keeps_all [OF assms(1) no_approvals_inv]
      approval_registry.keeps_all [OF assms(2)] by blast+
  obtain w where "registry_of s aid = Some (req, w)" using assms(3) registry_entry by blast
  then have "\<exists>w. registry_of s' aid = Some (req, w)"
    using approval_registry.transfers [OF assms(2) inv(1), of "\<lambda>R. \<exists>w. R aid = Some (req, w)"]
      registry_step_decided [OF _ _ assms(4)] by blast
  then have found: "find_approval (aps_rows s') aid = Ok req" using registry_entry by blast
  moreover have "fst (write_decision (aps_rows s') aid q d') = aps_rows s'"
    if "ApprovalDecision_new oc ch at approver = Ok d'" "q \<in> set (aps_reads s')" "apr_id q = aid"
  proof -
    have rows: "approvals_inv (aps_rows s')" and cur: "request_current (aps_rows s') q"
      using inv(2) that(2) by (simp_all add: aps_inv_def)
    from rows cur that(1) show ?thesis
    proof (cases rule: write_decision_cases)
      case (written r req')
      have "sap_id r = aid" using decode_approval_fields(1) [OF written(3)] that(3) by simp
      with found find_approval_row [OF rows written(1)] written(3) have "q = req"
        by (simp add: find_approval_def)
      with written(4) assms(4) show ?thesis by (simp add: apply_decision_Ok)
    qed (simp add: that(3))
  qed
  ultimately show ?thesis using assms(4) by (simp add: record_decision_def write_decision_def)
qed

theorem decision_final_witness:
  "record_decision sample_denied_rows (replicate 36 97) (sample_denial\<lparr>dec_outcome := Approve\<rparr>)
    = (sample_denied_rows, Err ApprovalAlreadyDecided)"
proof -
  obtain reads where reach: "aps_step\<^sup>*\<^sup>* no_approvals \<lparr>aps_rows = sample_denied_rows, aps_reads = reads\<rparr>"
    using record_decision_is_steps [OF sample_denial_new, of sample_approvals "[]" "replicate 36 97"]
      sample_approvals_reachable unfolding sample_denied_rows_def by (meson rtranclp_trans)
  let ?r = "approval_row_of sample_stored"
  have r: "sap_state ?r = lit ''pending''" "sap_id ?r = replicate 36 97"
    by (simp_all add: approval_row_of_def sample_stored_def sample_stored_parts_def ApprovalRequestParts.defs)
  have app: "apply_decision sample_stored sample_denial = Ok (sample_stored\<lparr>apr_decision := Some sample_denial\<rparr>)"
    by (simp add: apply_decision_Ok sample_stored_def sample_stored_parts_def sample_denial_def ApprovalRequestParts.defs)
  have "approval_checks (decision_row Denied sample_denial ?r)"
    using sample_row_checks
    by (simp add: approval_checks_def decision_row_def decided_columns_def null_or_def sample_denial_def
        unused_column_values_def strengths_def chars_between_def hex_glob_def) (simp add: lit_def is_ascii_digit_def)
  moreover have "find_approval [?r] (replicate 36 97) = Ok sample_stored"
    "apr_decision sample_stored = None" "dec_outcome sample_denial = Decision_Deny"
    using sample_find by (simp_all add: sample_approvals_eq sample_stored_def sample_denial_def ApprovalRequestParts.defs)
  ultimately have rows: "sample_denied_rows = [decision_row Denied sample_denial ?r]"
    using r app by (simp add: sample_denied_rows_def record_decision_def write_decision_def
        sample_approvals_eq Let_def rows_affected_def sql_update_def stored_state_def)
  have "decode_approval (decision_row Denied sample_denial ?r)
      = Ok (sample_stored\<lparr>apr_decision := Some sample_denial\<rparr>)"
    using decode_decision_row [OF approval_row_of_ok(1) [OF sample_stored_new sample_row_checks] r(1)
        sample_denial_new] by (simp add: sample_denial_def)
  then have "find_approval sample_denied_rows (replicate 36 97)
      = Ok (sample_stored\<lparr>apr_decision := Some sample_denial\<rparr>)"
    unfolding rows find_approval_def by (simp add: r(2))
  with decision_final [OF reach rtranclp.rtrancl_refl] show ?thesis by simp
qed

text \<open>An action's payload is kept only while it can still be used. In every reachable state held
  arguments belong to a pending or approved approval and are at most a mebibyte; once the started
  calls have been cleared, an approval that still holds arguments and is not pending is approved and
  none of its calls has started, so it is exactly what the list of unreleased approvals offers.\<close>

theorem held_arguments_usable:
  assumes "aps_step\<^sup>*\<^sup>* no_approvals s"
  shows "(\<forall>r \<in> set (aps_rows s). \<forall>a. sap_arguments_json r = Some a \<longrightarrow>
        sap_state r \<in> {lit ''pending'', lit ''approved''} \<and> str_len a \<le> MAX_APPROVAL_ARGUMENTS_BYTES)
    \<and> (\<forall>r \<in> set (fst (clear_arguments_of_started_calls calls (aps_rows s))).
        sap_arguments_json r \<noteq> None \<and> sap_state r \<noteq> lit ''pending'' \<longleftrightarrow>
        sap_state r = lit ''approved'' \<and> sap_arguments_json r \<noteq> None \<and> \<not> call_started calls r)"
proof -
  have inv: "\<forall>r \<in> set (aps_rows s). approval_row_ok r"
    using approval_registry.keeps_all [OF assms no_approvals_inv] by (simp add: aps_inv_def approvals_inv_def)
  have "call_started calls (r\<lparr>sap_arguments_json := a\<rparr>) = call_started calls r" for r a
    by (simp add: call_started_def)
  with inv show ?thesis
    by (auto simp: approval_row_ok_def approval_checks_def null_or_def MAX_APPROVAL_ARGUMENTS_BYTES_def
        clear_arguments_of_started_calls_def Let_def sql_update_def)
qed

theorem held_arguments_usable_witness:
  "list_all (\<lambda>r. case sap_arguments_json r of Some a \<Rightarrow> str_len a \<le> 1048576 | None \<Rightarrow> True)
     (fst (attach_approval_arguments sample_approvals (replicate 36 97) (lit ''{}'')))"
proof -
  have "aps_step\<^sup>*\<^sup>* no_approvals \<lparr>aps_rows = fst (attach_approval_arguments sample_approvals
      (replicate 36 97) (lit ''{}'')), aps_reads = []\<rparr>"
    using aps_attach [of "\<lparr>aps_rows = sample_approvals, aps_reads = []\<rparr>" "replicate 36 97" "lit ''{}''"]
      sample_approvals_reachable by (simp add: rtranclp.rtrancl_into_rtrancl)
  from held_arguments_usable [OF this] show ?thesis
    by (simp add: MAX_APPROVAL_ARGUMENTS_BYTES_def list_all_iff split: option.split)
qed

section \<open>The run store's view\<close>

text \<open>The columns cancellation touches, as \<open>Run_Store\<close> keeps them.\<close>

definition arow_of :: "stored_approval \<Rightarrow> approval_row" where
  "arow_of r = \<lparr>arow_run_id = sap_run_id r,
     arow_state = (case ApprovalState_from_str (sap_state r) of Inr st \<Rightarrow> st | Inl _ \<Rightarrow> Expired),
     arow_arguments = sap_arguments_json r\<rparr>"

lemma arow_state_iff:
  assumes "approval_row_ok r"
  shows "arow_state (arow_of r) = st \<longleftrightarrow> sap_state r = ApprovalState_as_str st"
proof -
  from assms obtain req where "decode_approval r = Ok req" by (auto simp: approval_row_ok_def is_ok_iff)
  then obtain st' where "sap_state r = ApprovalState_as_str st'" by (auto simp: decode_approval_Ok)
  then show ?thesis
    by (simp add: arow_of_def approval_state_wire.parse_spell approval_state_wire.spell_inj)
qed

text \<open>Withdrawing the approvals of cancelled runs is the same write on both.\<close>

lemma withdraw_rows_view:
  assumes "approvals_inv rows" "db_approvals db = map arow_of rows"
  shows "db_approvals (withdraw_cancelled_run_approvals db) = map arow_of
    (withdraw_rows (\<lambda>rid. list_ex (\<lambda>r. run_id r = rid \<and> run_state r = Cancelled) (db_runs db)) rows)"
proof -
  let ?stopped = "\<lambda>rid. list_ex (\<lambda>r. run_id r = rid \<and> run_state r = Cancelled) (db_runs db)"
  have row: "arow_of (if ?stopped (sap_run_id r) \<and> sap_state r \<in> {lit ''pending'', lit ''approved''}
      then r\<lparr>sap_state := (if sap_state r = lit ''pending'' then lit ''expired'' else sap_state r),
        sap_arguments_json := None\<rparr> else r)
    = (\<lambda>a. if arow_state a = Approved \<and> arow_arguments a \<noteq> None \<and> ?stopped (arow_run_id a)
          then a\<lparr>arow_arguments := None\<rparr> else a)
        (if arow_state (arow_of r) = Pending \<and> ?stopped (arow_run_id (arow_of r))
         then (arow_of r)\<lparr>arow_state := Expired, arow_arguments := None\<rparr> else arow_of r)"
    if "r \<in> set rows" for r
  proof -
    have ok: "approval_row_ok r" using assms(1) that by (simp add: approvals_inv_def)
    have [simp]: "arow_run_id (arow_of r) = sap_run_id r" "arow_arguments (arow_of r) = sap_arguments_json r"
      by (simp_all add: arow_of_def)
    show ?thesis
      using arow_state_iff [OF ok, of Pending] arow_state_iff [OF ok, of Approved]
      by (auto simp: arow_of_def ApprovalState_from_str_def)
  qed
  then show ?thesis
    by (simp add: withdraw_cancelled_run_approvals_def withdraw_rows_def sql_update_def assms(2) Let_def)
qed

text \<open>A withdrawn approval reads back as an undecided request, so the list of a run's pending
  approvals still offers it until it expires; the workspace list, which selects on the stored state,
  does not.\<close>

theorem withdrawn_listed_pending:
  "find_approval (withdraw_rows (\<lambda>_. True) sample_approvals) (replicate 36 97) = Ok sample_stored
   \<and> state_at sample_stored 5 = Pending
   \<and> read_pending_approvals stamp (withdraw_rows (\<lambda>_. True) sample_approvals) (replicate 36 98) 5 = Ok [sample_stored]
   \<and> read_workspace_pending_approvals stamp (withdraw_rows (\<lambda>_. True) sample_approvals) (replicate 36 99) 5 = Ok []"
proof -
  let ?r = "approval_row_of sample_stored"
  let ?w = "?r\<lparr>sap_state := lit ''expired'', sap_arguments_json := None\<rparr>"
  have r: "sap_state ?r = lit ''pending''" "sap_id ?r = replicate 36 97" "sap_run_id ?r = replicate 36 98"
    by (simp_all add: approval_row_of_def sample_stored_def sample_stored_parts_def ApprovalRequestParts.defs)
  have w: "withdraw_rows (\<lambda>_. True) sample_approvals = [?w]"
    using r by (simp add: withdraw_rows_def sample_approvals_eq sql_update_def)
  have dec: "decode_approval ?w = Ok sample_stored"
    by (rule decode_withdrawn [OF approval_row_of_ok(1) [OF sample_stored_new sample_row_checks] r(1)])
  have "state_at sample_stored 5 = Pending"
    by (simp add: state_at_def sample_stored_def sample_stored_parts_def ApprovalRequestParts.defs)
  with w dec r show ?thesis
    by (simp add: find_approval_def read_pending_approvals_def read_workspace_pending_approvals_def
        read_run_approvals_def newest_first_def)
qed

end
