(* ===== verification/Memory.thy ===== *)
theory Memory
  imports Isolation Context_Assembly Approval "HOL-Library.List_Lexorder"
begin

text \<open>
  Durable memory (\<open>jarvis-core/src/memory.rs\<close>): the vocabularies, the source a claim must name, the
  record with its constructor and its storage decoder, the transitions of its status, and how a
  record is offered as context. The Unicode tables behind \<open>char::is_alphanumeric\<close> and
  \<open>char::to_lowercase\<close> and the text of an instant are arguments.
\<close>

section \<open>Bounds and errors\<close>

definition MAX_MEMORY_CONTENT_CHARS :: nat where "MAX_MEMORY_CONTENT_CHARS = 4096"

definition MAX_MEMORY_ENTITIES :: nat where "MAX_MEMORY_ENTITIES = 16"

definition MAX_SEARCH_KEY_WORDS :: nat where "MAX_SEARCH_KEY_WORDS = 32"

definition MAX_SEARCH_KEY_WORD_CHARS :: nat where "MAX_SEARCH_KEY_WORD_CHARS = 64"

definition MAX_SEARCH_KEY_CHARS :: nat where "MAX_SEARCH_KEY_CHARS = 512"

definition MAX_CLAIM_PART_CHARS :: nat where "MAX_CLAIM_PART_CHARS = 256"

definition MAX_SOURCE_LOCATOR_CHARS :: nat where "MAX_SOURCE_LOCATOR_CHARS = 512"

definition MAX_MEMORY_IMPORTANCE :: nat where "MAX_MEMORY_IMPORTANCE = 4"

datatype InvalidMemory = Mem_Content | Mem_StructuredClaim | Mem_Source | SourceExcerptHash | Mem_Entities
  | SearchKey | ClaimPart | Validity | UnknownConfidence | UnknownType | UnknownStatus
  | UnknownSourceKind | UnknownTrust | EntityReference | SupersedesMissing | SupersedesSelf
  | AlreadyDeleted | DeletedRetainsText | IllegalStatus rstr rstr | Mem_ApproverUnusable
  | AdmissionInconsistent

section \<open>Vocabularies\<close>

datatype MemoryType = Working | Conversation | Episodic | Semantic | Preference | Relationship | Procedural

fun MemoryType_as_str :: "MemoryType \<Rightarrow> rstr" where
  "MemoryType_as_str Working = lit ''working''"
| "MemoryType_as_str Conversation = lit ''conversation''"
| "MemoryType_as_str Episodic = lit ''episodic''"
| "MemoryType_as_str Semantic = lit ''semantic''"
| "MemoryType_as_str Preference = lit ''preference''"
| "MemoryType_as_str Relationship = lit ''relationship''"
| "MemoryType_as_str Procedural = lit ''procedural''"

definition MemoryType_all :: "MemoryType list" where
  "MemoryType_all = [Working, Conversation, Episodic, Semantic, Preference, Relationship, Procedural]"

definition MemoryType_is_durable :: "MemoryType \<Rightarrow> bool" where
  "MemoryType_is_durable t \<longleftrightarrow> \<not> (t = Working \<or> t = Conversation)"

definition requires_confirmation :: "MemoryType \<Rightarrow> bool" where
  "requires_confirmation t \<longleftrightarrow> t = Relationship"

definition MemoryType_from_str :: "rstr \<Rightarrow> InvalidMemory + MemoryType" where
  "MemoryType_from_str s =
     (if s = lit ''working'' then Ok Working
      else if s = lit ''conversation'' then Ok Conversation
      else if s = lit ''episodic'' then Ok Episodic
      else if s = lit ''semantic'' then Ok Semantic
      else if s = lit ''preference'' then Ok Preference
      else if s = lit ''relationship'' then Ok Relationship
      else if s = lit ''procedural'' then Ok Procedural
      else Err UnknownType)"

datatype MemoryConfidence = Unverified | Uncertain | Likely | Conf_Confirmed

fun MemoryConfidence_as_str :: "MemoryConfidence \<Rightarrow> rstr" where
  "MemoryConfidence_as_str Unverified = lit ''unverified''"
| "MemoryConfidence_as_str Uncertain = lit ''uncertain''"
| "MemoryConfidence_as_str Likely = lit ''likely''"
| "MemoryConfidence_as_str Conf_Confirmed = lit ''confirmed''"

fun MemoryConfidence_level :: "MemoryConfidence \<Rightarrow> nat" where
  "MemoryConfidence_level Unverified = 0"
| "MemoryConfidence_level Uncertain = 1"
| "MemoryConfidence_level Likely = 2"
| "MemoryConfidence_level Conf_Confirmed = 3"

definition MemoryConfidence_all :: "MemoryConfidence list" where
  "MemoryConfidence_all = [Unverified, Uncertain, Likely, Conf_Confirmed]"

definition is_stated_as_fact :: "MemoryConfidence \<Rightarrow> bool" where
  "is_stated_as_fact c \<longleftrightarrow> c = Conf_Confirmed"

definition MemoryConfidence_from_str :: "rstr \<Rightarrow> InvalidMemory + MemoryConfidence" where
  "MemoryConfidence_from_str s =
     (if s = lit ''unverified'' then Ok Unverified
      else if s = lit ''uncertain'' then Ok Uncertain
      else if s = lit ''likely'' then Ok Likely
      else if s = lit ''confirmed'' then Ok Conf_Confirmed
      else Err UnknownConfidence)"

datatype MemoryStatus = Mem_Proposed | Mem_Active | Mem_Archived | Mem_Deleted

fun MemoryStatus_as_str :: "MemoryStatus \<Rightarrow> rstr" where
  "MemoryStatus_as_str Mem_Proposed = lit ''proposed''"
| "MemoryStatus_as_str Mem_Active = lit ''active''"
| "MemoryStatus_as_str Mem_Archived = lit ''archived''"
| "MemoryStatus_as_str Mem_Deleted = lit ''deleted''"

definition MemoryStatus_all :: "MemoryStatus list" where
  "MemoryStatus_all = [Mem_Proposed, Mem_Active, Mem_Archived, Mem_Deleted]"

datatype EffectiveMemoryStatus = Eff_Proposed | Eff_Active | Eff_Superseded | Eff_Expired | Eff_Deleted

fun EffectiveMemoryStatus_as_str :: "EffectiveMemoryStatus \<Rightarrow> rstr" where
  "EffectiveMemoryStatus_as_str Eff_Proposed = lit ''proposed''"
| "EffectiveMemoryStatus_as_str Eff_Active = lit ''active''"
| "EffectiveMemoryStatus_as_str Eff_Superseded = lit ''superseded''"
| "EffectiveMemoryStatus_as_str Eff_Expired = lit ''expired''"
| "EffectiveMemoryStatus_as_str Eff_Deleted = lit ''deleted''"

definition is_current_truth :: "EffectiveMemoryStatus \<Rightarrow> bool" where
  "is_current_truth e \<longleftrightarrow> e = Eff_Active"

fun effective_at :: "MemoryStatus \<Rightarrow> instant \<Rightarrow> instant option \<Rightarrow> EffectiveMemoryStatus" where
  "effective_at Mem_Proposed now valid_until = Eff_Proposed"
| "effective_at Mem_Deleted now valid_until = Eff_Deleted"
| "effective_at Mem_Archived now valid_until = Eff_Superseded"
| "effective_at Mem_Active now valid_until =
     (case valid_until of
        Some until \<Rightarrow> if now \<ge> until then Eff_Expired else Eff_Active
      | None \<Rightarrow> Eff_Active)"

definition is_current_claim :: "MemoryStatus \<Rightarrow> bool" where
  "is_current_claim s \<longleftrightarrow> s = Mem_Active"

definition MemoryStatus_is_terminal :: "MemoryStatus \<Rightarrow> bool" where
  "MemoryStatus_is_terminal s \<longleftrightarrow> s = Mem_Deleted"

definition MemoryStatus_can_advance_to :: "MemoryStatus \<Rightarrow> MemoryStatus \<Rightarrow> bool" where
  "MemoryStatus_can_advance_to s t \<longleftrightarrow>
     (s = Mem_Proposed \<and> (t = Mem_Active \<or> t = Mem_Archived))
     \<or> (s = Mem_Active \<and> t = Mem_Archived)
     \<or> (s = Mem_Archived \<and> t = Mem_Active)
     \<or> t = Mem_Deleted"

definition MemoryStatus_from_str :: "rstr \<Rightarrow> InvalidMemory + MemoryStatus" where
  "MemoryStatus_from_str s =
     (if s = lit ''proposed'' then Ok Mem_Proposed
      else if s = lit ''active'' then Ok Mem_Active
      else if s = lit ''archived'' then Ok Mem_Archived
      else if s = lit ''deleted'' then Ok Mem_Deleted
      else Err UnknownStatus)"

section \<open>Sources\<close>

datatype MemoryTrust = Mem_Untrusted | Mem_Derived | Mem_Authoritative

fun MemoryTrust_as_str :: "MemoryTrust \<Rightarrow> rstr" where
  "MemoryTrust_as_str Mem_Untrusted = lit ''untrusted''"
| "MemoryTrust_as_str Mem_Derived = lit ''derived''"
| "MemoryTrust_as_str Mem_Authoritative = lit ''authoritative''"

fun MemoryTrust_level :: "MemoryTrust \<Rightarrow> nat" where
  "MemoryTrust_level Mem_Untrusted = 0"
| "MemoryTrust_level Mem_Derived = 1"
| "MemoryTrust_level Mem_Authoritative = 2"

definition MemoryTrust_may_instruct :: "MemoryTrust \<Rightarrow> bool" where
  "MemoryTrust_may_instruct t \<longleftrightarrow> t = Mem_Authoritative"

definition MemoryTrust_from_str :: "rstr \<Rightarrow> InvalidMemory + MemoryTrust" where
  "MemoryTrust_from_str s =
     (if s = lit ''untrusted'' then Ok Mem_Untrusted
      else if s = lit ''derived'' then Ok Mem_Derived
      else if s = lit ''authoritative'' then Ok Mem_Authoritative
      else Err UnknownTrust)"

datatype MemorySourceKind = UserStatement | UserCorrection | ProviderRecord | ToolObservation
  | Mem_Document | ModelInference | ExternalContent

fun MemorySourceKind_as_str :: "MemorySourceKind \<Rightarrow> rstr" where
  "MemorySourceKind_as_str UserStatement = lit ''user_statement''"
| "MemorySourceKind_as_str UserCorrection = lit ''user_correction''"
| "MemorySourceKind_as_str ProviderRecord = lit ''provider_record''"
| "MemorySourceKind_as_str ToolObservation = lit ''tool_observation''"
| "MemorySourceKind_as_str Mem_Document = lit ''document''"
| "MemorySourceKind_as_str ModelInference = lit ''model_inference''"
| "MemorySourceKind_as_str ExternalContent = lit ''external_content''"

definition MemorySourceKind_all :: "MemorySourceKind list" where
  "MemorySourceKind_all = [UserStatement, UserCorrection, ProviderRecord, ToolObservation,
     Mem_Document, ModelInference, ExternalContent]"

fun permitted_trust :: "MemorySourceKind \<Rightarrow> MemoryTrust" where
  "permitted_trust UserStatement = Mem_Authoritative"
| "permitted_trust UserCorrection = Mem_Authoritative"
| "permitted_trust ProviderRecord = Mem_Authoritative"
| "permitted_trust ToolObservation = Mem_Derived"
| "permitted_trust Mem_Document = Mem_Derived"
| "permitted_trust ModelInference = Mem_Derived"
| "permitted_trust ExternalContent = Mem_Untrusted"

definition is_model_produced :: "MemorySourceKind \<Rightarrow> bool" where
  "is_model_produced k \<longleftrightarrow> k = ModelInference"

definition is_user_stated :: "MemorySourceKind \<Rightarrow> bool" where
  "is_user_stated k \<longleftrightarrow> k = UserStatement \<or> k = UserCorrection"

definition MemorySourceKind_from_str :: "rstr \<Rightarrow> InvalidMemory + MemorySourceKind" where
  "MemorySourceKind_from_str s =
     (if s = lit ''user_statement'' then Ok UserStatement
      else if s = lit ''user_correction'' then Ok UserCorrection
      else if s = lit ''provider_record'' then Ok ProviderRecord
      else if s = lit ''tool_observation'' then Ok ToolObservation
      else if s = lit ''document'' then Ok Mem_Document
      else if s = lit ''model_inference'' then Ok ModelInference
      else if s = lit ''external_content'' then Ok ExternalContent
      else Err UnknownSourceKind)"

definition MemorySourceKind_default :: MemorySourceKind where
  "MemorySourceKind_default = ExternalContent"

definition is_sha256_hex :: "rstr \<Rightarrow> bool" where
  "is_sha256_hex value \<longleftrightarrow>
     str_len value = 64 \<and> list_all (\<lambda>b. is_ascii_digit b \<or> (97 \<le> b \<and> b \<le> 102)) value"

record MemorySource =
  msrc_kind :: MemorySourceKind
  msrc_locator :: rstr
  msrc_trust :: MemoryTrust
  msrc_excerpt_hash :: "rstr option"

definition MemorySource_new ::
  "MemorySourceKind \<Rightarrow> rstr \<Rightarrow> MemoryTrust \<Rightarrow> rstr option \<Rightarrow> InvalidMemory + MemorySource" where
  "MemorySource_new kind locator trust excerpt_hash =
     (let trimmed = trim locator in
      if trimmed = [] \<or> length trimmed > MAX_SOURCE_LOCATOR_CHARS then Err Mem_Source
      else if permitted_trust kind \<noteq> trust then Err Mem_Source
      else and_then (case excerpt_hash of
                       Some hash \<Rightarrow> if is_sha256_hex hash then Ok (Some hash) else Err SourceExcerptHash
                     | None \<Rightarrow> Ok None) (\<lambda>excerpt.
        Ok \<lparr>msrc_kind = kind, msrc_locator = trimmed, msrc_trust = trust, msrc_excerpt_hash = excerpt\<rparr>))"

definition MemorySource_of_kind :: "MemorySourceKind \<Rightarrow> rstr \<Rightarrow> InvalidMemory + MemorySource" where
  "MemorySource_of_kind kind locator = MemorySource_new kind locator (permitted_trust kind) None"

definition with_excerpt_hash :: "MemorySource \<Rightarrow> rstr \<Rightarrow> InvalidMemory + MemorySource" where
  "with_excerpt_hash source hash =
     (if is_sha256_hex hash then Ok (source\<lparr>msrc_excerpt_hash := Some hash\<rparr>) else Err SourceExcerptHash)"

section \<open>Entities and claims\<close>

datatype EntityMatch = Match_Confirmed | ProviderId | ExactIdentifier | Probabilistic

fun EntityMatch_as_str :: "EntityMatch \<Rightarrow> rstr" where
  "EntityMatch_as_str Match_Confirmed = lit ''confirmed''"
| "EntityMatch_as_str ProviderId = lit ''provider_id''"
| "EntityMatch_as_str ExactIdentifier = lit ''exact_identifier''"
| "EntityMatch_as_str Probabilistic = lit ''probabilistic''"

definition may_merge :: "EntityMatch \<Rightarrow> bool" where
  "may_merge m \<longleftrightarrow> m = Match_Confirmed \<or> m = ProviderId \<or> m = ExactIdentifier"

definition EntityMatch_from_str :: "rstr \<Rightarrow> InvalidMemory + EntityMatch" where
  "EntityMatch_from_str s =
     (if s = lit ''confirmed'' then Ok Match_Confirmed
      else if s = lit ''provider_id'' then Ok ProviderId
      else if s = lit ''exact_identifier'' then Ok ExactIdentifier
      else if s = lit ''probabilistic'' then Ok Probabilistic
      else Err EntityReference)"

record EntityRef =
  ent_id :: ident
  ent_matched_by :: EntityMatch

definition EntityRef_confirmed :: "ident \<Rightarrow> EntityRef" where
  "EntityRef_confirmed eid = \<lparr>ent_id = eid, ent_matched_by = Match_Confirmed\<rparr>"

fun match_rank :: "EntityMatch \<Rightarrow> nat" where
  "match_rank Match_Confirmed = 3"
| "match_rank ProviderId = 2"
| "match_rank ExactIdentifier = 1"
| "match_rank Probabilistic = 0"

definition weaker_match :: "EntityMatch \<Rightarrow> EntityMatch \<Rightarrow> EntityMatch" where
  "weaker_match left right = (if match_rank left \<le> match_rank right then left else right)"

text \<open>The body of the loop: weaken the entry already there, or append.\<close>

fun weaken_entity :: "EntityRef \<Rightarrow> EntityRef list \<Rightarrow> EntityRef list" where
  "weaken_entity entity [] = [entity]"
| "weaken_entity entity (existing # out) =
     (if ent_id existing = ent_id entity
      then (if weaker_match (ent_matched_by entity) (ent_matched_by existing) = ent_matched_by entity
            then existing\<lparr>ent_matched_by := ent_matched_by entity\<rparr> else existing) # out
      else existing # weaken_entity entity out)"

definition dedupe_entities :: "EntityRef list \<Rightarrow> EntityRef list" where
  "dedupe_entities entities = foldl (\<lambda>out entity. weaken_entity entity out) [] entities"

record StructuredClaim =
  claim_subject :: rstr
  claim_predicate :: rstr
  claim_object :: rstr

definition claim_part :: "rstr \<Rightarrow> InvalidMemory + rstr" where
  "claim_part value =
     (let trimmed = trim value in
      if trimmed = [] \<or> length trimmed > MAX_CLAIM_PART_CHARS then Err ClaimPart else Ok trimmed)"

definition StructuredClaim_new :: "rstr \<Rightarrow> rstr \<Rightarrow> rstr \<Rightarrow> InvalidMemory + StructuredClaim" where
  "StructuredClaim_new subject predicate object =
     and_then (claim_part subject) (\<lambda>s.
     and_then (claim_part predicate) (\<lambda>p.
     and_then (claim_part object) (\<lambda>ob.
       Ok \<lparr>claim_subject = s, claim_predicate = p, claim_object = ob\<rparr>)))"

definition claim_as_key :: "StructuredClaim \<Rightarrow> rstr" where
  "claim_as_key c = claim_subject c @ [124] @ claim_predicate c @ [124] @ claim_object c"

section \<open>Search keys\<close>

text \<open>\<open>str::split_whitespace\<close>.\<close>

fun split_whitespace :: "rstr \<Rightarrow> rstr \<Rightarrow> rstr list" where
  "split_whitespace word [] = (if word = [] then [] else [word])"
| "split_whitespace word (c # s) =
     (if is_whitespace c then (if word = [] then [] else [word]) @ split_whitespace [] s
      else split_whitespace (word @ [c]) s)"

definition normalize_word :: "(uchar \<Rightarrow> bool) \<Rightarrow> (uchar \<Rightarrow> rstr) \<Rightarrow> rstr \<Rightarrow> rstr" where
  "normalize_word is_alphanumeric to_lower word =
     concat (map to_lower (filter is_alphanumeric word))"

fun key_words :: "rstr list \<Rightarrow> rstr list \<Rightarrow> rstr list" where
  "key_words [] words = words"
| "key_words (normalized # rest) words =
     (if normalized = [] \<or> length normalized > MAX_SEARCH_KEY_WORD_CHARS then key_words rest words
      else if normalized \<in> set words then key_words rest words
      else key_words rest (words @ [normalized]))"

fun join :: "rstr \<Rightarrow> rstr list \<Rightarrow> rstr" where
  "join separator [] = []"
| "join separator [s] = s"
| "join separator (s # t # ss) = s @ separator @ join separator (t # ss)"

definition MemorySearchKey_new ::
  "(uchar \<Rightarrow> bool) \<Rightarrow> (uchar \<Rightarrow> rstr) \<Rightarrow> MemoryType \<Rightarrow> EntityRef list \<Rightarrow> rstr \<Rightarrow> InvalidMemory + rstr" where
  "MemorySearchKey_new is_alphanumeric to_lower memory_type entities content =
     (let words = sort (key_words (map (normalize_word is_alphanumeric to_lower)
                                     (split_whitespace [] content)) []) in
      if words = [] then Err SearchKey
      else if length words > MAX_SEARCH_KEY_WORDS then Err SearchKey
      else
        let entity_ids = remdups_adj (sort (map ent_id entities));
            rendered = MemoryType_as_str memory_type @ [124] @ join [44] entity_ids @ [124] @ join [32] words
        in if length rendered > MAX_SEARCH_KEY_CHARS then Err SearchKey else Ok rendered)"

section \<open>Records\<close>

record MemoryRecordParts =
  mp_id :: ident
  mp_workspace_id :: ident
  mp_type :: MemoryType
  mp_content :: rstr
  mp_claim :: "StructuredClaim option"
  mp_source :: MemorySource
  mp_confidence :: MemoryConfidence
  mp_importance :: nat
  mp_sensitivity :: Sensitivity
  mp_entities :: "EntityRef list"
  mp_valid_from :: "instant option"
  mp_valid_until :: "instant option"
  mp_supersedes :: "ident option"
  mp_run_id :: "ident option"
  mp_created_by :: rstr
  mp_correlation_id :: ident
  mp_created_at :: instant

record StoredMemoryState =
  ms_status :: MemoryStatus
  ms_superseded_by :: "ident option"
  ms_updated_at :: instant
  ms_last_accessed_at :: "instant option"
  ms_retrieval_count :: "32 word"
  ms_admitted_by :: "rstr option"
  ms_admitted_at :: "instant option"

record MemoryRecord =
  mem_id :: ident
  mem_workspace_id :: ident
  mem_type :: MemoryType
  mem_content :: rstr
  mem_claim :: "StructuredClaim option"
  mem_source :: MemorySource
  mem_confidence :: MemoryConfidence
  mem_importance :: nat
  mem_sensitivity :: Sensitivity
  mem_entities :: "EntityRef list"
  mem_valid_from :: instant
  mem_valid_until :: "instant option"
  mem_supersedes :: "ident option"
  mem_superseded_by :: "ident option"
  mem_status :: MemoryStatus
  mem_run_id :: "ident option"
  mem_created_by :: rstr
  mem_correlation_id :: ident
  mem_created_at :: instant
  mem_updated_at :: instant
  mem_last_accessed_at :: "instant option"
  mem_retrieval_count :: "32 word"
  mem_admitted_by :: "rstr option"
  mem_admitted_at :: "instant option"

definition MemoryRecord_build :: "MemoryRecordParts \<Rightarrow> bool \<Rightarrow> bool \<Rightarrow> InvalidMemory + MemoryRecord" where
  "MemoryRecord_build parts require_entities permit_empty_content =
     (let content = trim (mp_content parts);
          entities = dedupe_entities (mp_entities parts);
          kind = msrc_kind (mp_source parts);
          valid_from = (case mp_valid_from parts of Some t \<Rightarrow> t | None \<Rightarrow> mp_created_at parts)
      in
      if (content = [] \<and> \<not> permit_empty_content) \<or> length content > MAX_MEMORY_CONTENT_CHARS
      then Err Mem_Content
      else if length entities > MAX_MEMORY_ENTITIES \<or> (require_entities \<and> entities = [])
      then Err Mem_Entities
      else if mp_supersedes parts = Some (mp_id parts) then Err SupersedesSelf
      else if is_model_produced kind \<and> mp_confidence parts \<noteq> Unverified then Err Mem_Source
      else if kind = ProviderRecord \<and> mp_type parts = Preference then Err Mem_Source
      else if (case mp_valid_until parts of Some until \<Rightarrow> until \<le> valid_from | None \<Rightarrow> False)
      then Err Validity
      else if valid_from < mp_created_at parts then Err Validity
      else Ok \<lparr>mem_id = mp_id parts, mem_workspace_id = mp_workspace_id parts,
             mem_type = mp_type parts, mem_content = content, mem_claim = mp_claim parts,
             mem_source = mp_source parts, mem_confidence = mp_confidence parts,
             mem_importance = min (mp_importance parts) MAX_MEMORY_IMPORTANCE,
             mem_sensitivity = mp_sensitivity parts, mem_entities = sort_key ent_id entities,
             mem_valid_from = valid_from, mem_valid_until = mp_valid_until parts,
             mem_supersedes = mp_supersedes parts, mem_superseded_by = None,
             mem_status = (if requires_confirmation (mp_type parts) \<or> is_model_produced kind
                           then Mem_Proposed else Mem_Active),
             mem_run_id = mp_run_id parts, mem_created_by = mp_created_by parts,
             mem_correlation_id = mp_correlation_id parts, mem_created_at = mp_created_at parts,
             mem_updated_at = mp_created_at parts, mem_last_accessed_at = None,
             mem_retrieval_count = 0, mem_admitted_by = None, mem_admitted_at = None\<rparr>)"

definition MemoryRecord_new :: "MemoryRecordParts \<Rightarrow> InvalidMemory + MemoryRecord" where
  "MemoryRecord_new parts = MemoryRecord_build parts True False"

definition MemoryRecord_from_stored ::
  "MemoryRecordParts \<Rightarrow> StoredMemoryState \<Rightarrow> InvalidMemory + MemoryRecord" where
  "MemoryRecord_from_stored parts state =
     and_then (MemoryRecord_build parts False (ms_status state = Mem_Deleted)) (\<lambda>record.
       if ms_status state \<noteq> Mem_Deleted \<and> mem_content record = [] then Err Mem_Content
       else if ms_status state = Mem_Deleted \<and> (mem_content record \<noteq> [] \<or> mem_claim record \<noteq> None)
       then Err DeletedRetainsText
       else if ms_superseded_by state = Some (mem_id record) then Err SupersedesSelf
       else if (ms_admitted_by state \<noteq> None) \<noteq> (ms_admitted_at state \<noteq> None)
       then Err AdmissionInconsistent
       else if ms_admitted_by state \<noteq> None
               \<and> \<not> (ms_status state = Mem_Active \<or> ms_status state = Mem_Archived)
       then Err AdmissionInconsistent
       else if (case ms_admitted_by state of
                  Some approver \<Rightarrow> trim approver = [] \<or> str_len approver > MAX_APPROVER_ID_CHARS
                | None \<Rightarrow> False)
       then Err Mem_ApproverUnusable
       else Ok (record\<lparr>mem_status := ms_status state, mem_superseded_by := ms_superseded_by state,
              mem_updated_at := ms_updated_at state, mem_last_accessed_at := ms_last_accessed_at state,
              mem_retrieval_count := ms_retrieval_count state,
              mem_admitted_by := ms_admitted_by state, mem_admitted_at := ms_admitted_at state\<rparr>))"

definition replace_entities :: "MemoryRecord \<Rightarrow> EntityRef list \<Rightarrow> MemoryRecord" where
  "replace_entities m entities = m\<lparr>mem_entities := sort_key ent_id (dedupe_entities entities)\<rparr>"

definition effective_status_at :: "MemoryRecord \<Rightarrow> instant \<Rightarrow> EffectiveMemoryStatus" where
  "effective_status_at m now = effective_at (mem_status m) now (mem_valid_until m)"

definition is_stateable_as_fact_at :: "MemoryRecord \<Rightarrow> instant \<Rightarrow> bool" where
  "is_stateable_as_fact_at m now \<longleftrightarrow>
     is_current_truth (effective_status_at m now) \<and> is_stated_as_fact (mem_confidence m)"

definition is_visible_in :: "MemoryRecord \<Rightarrow> ident \<Rightarrow> bool" where
  "is_visible_in m workspace_id \<longleftrightarrow> mem_workspace_id m = workspace_id"

section \<open>Transitions\<close>

definition memory_transition :: "MemoryRecord \<Rightarrow> MemoryStatus \<Rightarrow> instant \<Rightarrow> InvalidMemory + MemoryRecord" where
  "memory_transition m to at =
     (if MemoryStatus_is_terminal (mem_status m) then Err AlreadyDeleted
      else if \<not> MemoryStatus_can_advance_to (mem_status m) to
      then Err (IllegalStatus (MemoryStatus_as_str (mem_status m)) (MemoryStatus_as_str to))
      else Ok (m\<lparr>mem_status := to, mem_updated_at := at\<rparr>))"

definition memory_confirm :: "MemoryRecord \<Rightarrow> instant \<Rightarrow> InvalidMemory + MemoryRecord" where
  "memory_confirm m at = memory_transition m Mem_Active at"

definition confirm_by :: "MemoryRecord \<Rightarrow> rstr \<Rightarrow> instant \<Rightarrow> InvalidMemory + MemoryRecord" where
  "confirm_by m approver_id at =
     and_then (memory_transition m Mem_Active at) (\<lambda>approved.
       let trimmed = trim approver_id in
       if trimmed = [] \<or> str_len trimmed > MAX_APPROVER_ID_CHARS then Err Mem_ApproverUnusable
       else Ok (approved\<lparr>mem_admitted_by := Some trimmed, mem_admitted_at := Some at\<rparr>))"

definition memory_archive :: "MemoryRecord \<Rightarrow> instant \<Rightarrow> InvalidMemory + MemoryRecord" where
  "memory_archive m at = memory_transition m Mem_Archived at"

definition memory_delete :: "MemoryRecord \<Rightarrow> instant \<Rightarrow> InvalidMemory + MemoryRecord" where
  "memory_delete m at =
     and_then (memory_transition m Mem_Deleted at) (\<lambda>deleted.
       Ok (deleted\<lparr>mem_content := [], mem_claim := None, mem_superseded_by := None\<rparr>))"

definition replace_with :: "MemoryRecord \<Rightarrow> ident \<Rightarrow> instant \<Rightarrow> InvalidMemory + MemoryRecord" where
  "replace_with m replacement at =
     (if MemoryStatus_is_terminal (mem_status m) then Err AlreadyDeleted
      else if replacement = mem_id m then Err SupersedesSelf
      else case mem_superseded_by m of
          Some existing \<Rightarrow>
            if existing = replacement then Ok m
            else Err (IllegalStatus (MemoryStatus_as_str (mem_status m)) (MemoryStatus_as_str (mem_status m)))
        | None \<Rightarrow> Ok (m\<lparr>mem_superseded_by := Some replacement, mem_status := Mem_Archived,
                        mem_updated_at := at\<rparr>))"

text \<open>\<open>u32::saturating_add(1)\<close>.\<close>

definition memory_retrieved :: "MemoryRecord \<Rightarrow> instant \<Rightarrow> MemoryRecord" where
  "memory_retrieved m at = m\<lparr>mem_last_accessed_at := Some at,
     mem_retrieval_count := (if mem_retrieval_count m = - 1 then - 1 else mem_retrieval_count m + 1)\<rparr>"

section \<open>Memories as context\<close>

definition context_trust :: "MemoryRecord \<Rightarrow> ContextTrust" where
  "context_trust m =
     (case msrc_trust (mem_source m) of
        Mem_Untrusted \<Rightarrow> Untrusted
      | Mem_Derived \<Rightarrow> if is_model_produced (msrc_kind (mem_source m)) then Untrusted else Derived
      | Mem_Authoritative \<Rightarrow> if is_stated_as_fact (mem_confidence m) then User else Derived)"

datatype MemoryContextRefusal = TypeNotAllowed MemoryType | NotCurrent EffectiveMemoryStatus
  | Refusal_Content IsolationError | Refusal_Item ContextError

fun MemoryContextRefusal_as_str :: "MemoryContextRefusal \<Rightarrow> rstr" where
  "MemoryContextRefusal_as_str (TypeNotAllowed _) = lit ''type_not_allowed''"
| "MemoryContextRefusal_as_str (NotCurrent _) = lit ''not_current''"
| "MemoryContextRefusal_as_str (Refusal_Content _) = lit ''content_unusable''"
| "MemoryContextRefusal_as_str (Refusal_Item _) = lit ''envelope_refused''"

definition estimate_isolated_tokens :: "IsolatedText \<Rightarrow> 32 word" where
  "estimate_isolated_tokens isolated =
     (let n = str_len (render isolated)
      in max (if n < 2 ^ 32 then of_nat n else - 1) 1)"

definition memory_reference :: "ident \<Rightarrow> MemoryType \<Rightarrow> MemorySourceKind \<Rightarrow> rstr" where
  "memory_reference mid t kind = lit ''memory:'' @ mid @ [58] @ MemoryType_as_str t @ [58]
     @ MemorySourceKind_as_str kind"

definition context_item_for_payload ::
  "MemoryRecord \<Rightarrow> IsolatedText \<Rightarrow> MemoryContextRefusal + ContextItem" where
  "context_item_for_payload m isolated =
     and_then (map_err Refusal_Item (ContextSource_new Src_Memory
         (memory_reference (mem_id m) (mem_type m) (msrc_kind (mem_source m))))) (\<lambda>source.
       map_err Refusal_Item (ContextItem_new source (context_trust m) (mem_sensitivity m) Prio_Optional
         (estimate_isolated_tokens isolated) Reason_RetrievedMatch (is_external (context_trust m))))"

definition memory_context_item ::
  "MemoryRecord \<Rightarrow> MemoryType list \<Rightarrow> instant \<Rightarrow> MemoryContextRefusal + ContextItem" where
  "memory_context_item m allowed_types now =
     (if allowed_types \<noteq> [] \<and> mem_type m \<notin> set allowed_types then Err (TypeNotAllowed (mem_type m))
      else if \<not> is_current_truth (effective_status_at m now) then Err (NotCurrent (effective_status_at m now))
      else and_then (map_err Refusal_Content (IsolatedText_new (mem_content m))) (\<lambda>isolated.
        context_item_for_payload m isolated))"

record RetrievedMemory =
  rm_reference :: rstr
  rm_isolated :: IsolatedText
  rm_item :: ContextItem

definition RetrievedMemory_new ::
  "MemoryRecord \<Rightarrow> MemoryType list \<Rightarrow> instant \<Rightarrow> MemoryContextRefusal + RetrievedMemory" where
  "RetrievedMemory_new m allowed_types now =
     and_then (memory_context_item m allowed_types now) (\<lambda>item.
     and_then (map_err Refusal_Content (IsolatedText_new (mem_content m))) (\<lambda>isolated.
       Ok \<lparr>rm_reference = src_reference (item_source item), rm_isolated = isolated, rm_item = item\<rparr>))"

definition provenance_payload :: "(instant \<Rightarrow> rstr) \<Rightarrow> MemoryRecord \<Rightarrow> rstr" where
  "provenance_payload stamp m =
     lit ''memory_id: '' @ mem_id m
     @ [10] @ lit ''source_kind: '' @ MemorySourceKind_as_str (msrc_kind (mem_source m))
     @ [10] @ lit ''source: '' @ msrc_locator (mem_source m)
     @ [10] @ lit ''confidence: '' @ MemoryConfidence_as_str (mem_confidence m)
     @ [10] @ lit ''created_at: '' @ stamp (mem_created_at m)
     @ [10] @ lit ''valid_from: '' @ stamp (mem_valid_from m)
     @ [10] @ lit ''valid_until: ''
       @ (case mem_valid_until m of Some at \<Rightarrow> stamp at | None \<Rightarrow> lit ''unspecified'')
     @ [10] @ lit ''claim:'' @ [10] @ mem_content m"

definition with_provenance ::
  "(instant \<Rightarrow> rstr) \<Rightarrow> MemoryRecord \<Rightarrow> MemoryType list \<Rightarrow> instant \<Rightarrow> MemoryContextRefusal + RetrievedMemory" where
  "with_provenance stamp m allowed_types now =
     and_then (RetrievedMemory_new m allowed_types now) (\<lambda>retrieved.
     and_then (map_err Refusal_Content (IsolatedText_new (provenance_payload stamp m))) (\<lambda>isolated.
     and_then (context_item_for_payload m isolated) (\<lambda>item.
       Ok (retrieved\<lparr>rm_item := item, rm_isolated := isolated\<rparr>))))"

end
