(* ===== verification/Memory_Laws.thy ===== *)
theory Memory_Laws
  imports Memory
begin

text \<open>
  What a memory record guarantees through its life: the well-formedness every constructor and
  transition keeps, that a model's inference is never current by itself and never a fact, that a
  record reads back from storage as itself, that the search key depends only on the words and
  entities, and how a record enters a context.
\<close>

section \<open>Vocabularies\<close>

interpretation memory_type_wire: wire_vocabulary MemoryType_as_str MemoryType_from_str MemoryType_all
proof
  fix x s
  show "MemoryType_from_str (MemoryType_as_str x) = Ok x" by (cases x; simp add: MemoryType_from_str_def)
  show "x \<in> set MemoryType_all" by (cases x; simp add: MemoryType_all_def)
  show "MemoryType_from_str s = Ok x \<Longrightarrow> s = MemoryType_as_str x"
    by (auto simp: MemoryType_from_str_def split: if_splits)
qed

interpretation memory_confidence_wire: wire_vocabulary
  MemoryConfidence_as_str MemoryConfidence_from_str MemoryConfidence_all
proof
  fix x s
  show "MemoryConfidence_from_str (MemoryConfidence_as_str x) = Ok x"
    by (cases x; simp add: MemoryConfidence_from_str_def)
  show "x \<in> set MemoryConfidence_all" by (cases x; simp add: MemoryConfidence_all_def)
  show "MemoryConfidence_from_str s = Ok x \<Longrightarrow> s = MemoryConfidence_as_str x"
    by (auto simp: MemoryConfidence_from_str_def split: if_splits)
qed

interpretation memory_status_wire: wire_vocabulary MemoryStatus_as_str MemoryStatus_from_str MemoryStatus_all
proof
  fix x s
  show "MemoryStatus_from_str (MemoryStatus_as_str x) = Ok x" by (cases x; simp add: MemoryStatus_from_str_def)
  show "x \<in> set MemoryStatus_all" by (cases x; simp add: MemoryStatus_all_def)
  show "MemoryStatus_from_str s = Ok x \<Longrightarrow> s = MemoryStatus_as_str x"
    by (auto simp: MemoryStatus_from_str_def split: if_splits)
qed

interpretation memory_source_wire: wire_vocabulary
  MemorySourceKind_as_str MemorySourceKind_from_str MemorySourceKind_all
proof
  fix x s
  show "MemorySourceKind_from_str (MemorySourceKind_as_str x) = Ok x"
    by (cases x; simp add: MemorySourceKind_from_str_def)
  show "x \<in> set MemorySourceKind_all" by (cases x; simp add: MemorySourceKind_all_def)
  show "MemorySourceKind_from_str s = Ok x \<Longrightarrow> s = MemorySourceKind_as_str x"
    by (auto simp: MemorySourceKind_from_str_def split: if_splits)
qed

text \<open>The status table without the edge a transition refuses first.\<close>

definition memory_edge :: "MemoryStatus \<Rightarrow> MemoryStatus \<Rightarrow> bool" where
  "memory_edge s t \<longleftrightarrow> \<not> MemoryStatus_is_terminal s \<and> MemoryStatus_can_advance_to s t"

interpretation memory_life: lifecycle memory_edge MemoryStatus_is_terminal
  by unfold_locales (auto simp: memory_edge_def MemoryStatus_is_terminal_def MemoryStatus_can_advance_to_def)

lemma memory_transition_Ok:
  "memory_transition m t at = Ok m' \<longleftrightarrow>
     memory_edge (mem_status m) t \<and> m' = m\<lparr>mem_status := t, mem_updated_at := at\<rparr>"
  by (auto simp: memory_transition_def memory_edge_def)

section \<open>Entities\<close>

lemma weaken_entity_ids:
  "ent_id ` set (weaken_entity e out) = insert (ent_id e) (ent_id ` set out)"
  "distinct (map ent_id out) \<Longrightarrow> distinct (map ent_id (weaken_entity e out))"
proof -
  show ids: "ent_id ` set (weaken_entity e out) = insert (ent_id e) (ent_id ` set out)" for out
    by (induction out) auto
  show "distinct (map ent_id out) \<Longrightarrow> distinct (map ent_id (weaken_entity e out))"
  proof (induction out)
    case (Cons x out)
    have "ent_id x \<notin> ent_id ` set (weaken_entity e out)" if "ent_id x \<noteq> ent_id e"
      using Cons.prems that by (auto simp: ids)
    with Cons show ?case by auto
  qed simp
qed

lemma dedupe_entities_ids:
  "ent_id ` set (dedupe_entities es) = ent_id ` set es" "distinct (map ent_id (dedupe_entities es))"
proof -
  have fold: "ent_id ` set (foldl (\<lambda>out e. weaken_entity e out) acc es) = ent_id ` set acc \<union> ent_id ` set es
      \<and> (distinct (map ent_id acc) \<longrightarrow> distinct (map ent_id (foldl (\<lambda>out e. weaken_entity e out) acc es)))" for acc
    by (induction es arbitrary: acc) (auto simp: weaken_entity_ids)
  from fold [of "[]"] show "ent_id ` set (dedupe_entities es) = ent_id ` set es"
    "distinct (map ent_id (dedupe_entities es))"
    by (simp_all add: dedupe_entities_def)
qed

lemma weaken_entity_fresh: "ent_id e \<notin> ent_id ` set out \<Longrightarrow> weaken_entity e out = out @ [e]"
  by (induction out) auto

lemma dedupe_entities_distinct: "distinct (map ent_id es) \<Longrightarrow> dedupe_entities es = es"
proof -
  have "distinct (map ent_id (acc @ es)) \<Longrightarrow> foldl (\<lambda>out e. weaken_entity e out) acc es = acc @ es" for acc
    by (induction es arbitrary: acc) (auto simp: weaken_entity_fresh)
  from this [of "[]"] show "distinct (map ent_id es) \<Longrightarrow> dedupe_entities es = es"
    by (simp add: dedupe_entities_def)
qed

section \<open>Well-formed records\<close>

definition memory_wf :: "MemoryRecord \<Rightarrow> bool" where
  "memory_wf m \<longleftrightarrow>
     trim (mem_content m) = mem_content m \<and> length (mem_content m) \<le> 4096
     \<and> (mem_content m = [] \<longleftrightarrow> mem_status m = Mem_Deleted)
     \<and> (mem_status m = Mem_Deleted \<longrightarrow> mem_claim m = None)
     \<and> sorted (map ent_id (mem_entities m)) \<and> distinct (map ent_id (mem_entities m))
     \<and> length (mem_entities m) \<le> 16
     \<and> (is_model_produced (msrc_kind (mem_source m)) \<longrightarrow> mem_confidence m = Unverified)
     \<and> \<not> (msrc_kind (mem_source m) = ProviderRecord \<and> mem_type m = Preference)
     \<and> mem_created_at m \<le> mem_valid_from m
     \<and> (\<forall>u. mem_valid_until m = Some u \<longrightarrow> mem_valid_from m < u)
     \<and> mem_importance m \<le> 4
     \<and> mem_supersedes m \<noteq> Some (mem_id m) \<and> mem_superseded_by m \<noteq> Some (mem_id m)
     \<and> (mem_admitted_by m = None \<longleftrightarrow> mem_admitted_at m = None)
     \<and> (\<forall>a. mem_admitted_by m = Some a \<longrightarrow> mem_status m \<noteq> Mem_Proposed \<and> trim a \<noteq> [] \<and> str_len a \<le> 128)"

lemmas memory_bounds = MAX_MEMORY_CONTENT_CHARS_def MAX_MEMORY_ENTITIES_def MAX_MEMORY_IMPORTANCE_def
  MAX_APPROVER_ID_CHARS_def

definition parts_valid_from :: "MemoryRecordParts \<Rightarrow> instant" where
  "parts_valid_from p = (case mp_valid_from p of Some t \<Rightarrow> t | None \<Rightarrow> mp_created_at p)"

text \<open>The record a successful construction returns.\<close>

definition built_record :: "MemoryRecordParts \<Rightarrow> MemoryRecord" where
  "built_record p = \<lparr>mem_id = mp_id p, mem_workspace_id = mp_workspace_id p,
     mem_type = mp_type p, mem_content = trim (mp_content p), mem_claim = mp_claim p,
     mem_source = mp_source p, mem_confidence = mp_confidence p,
     mem_importance = min (mp_importance p) MAX_MEMORY_IMPORTANCE,
     mem_sensitivity = mp_sensitivity p, mem_entities = sort_key ent_id (dedupe_entities (mp_entities p)),
     mem_valid_from = parts_valid_from p, mem_valid_until = mp_valid_until p,
     mem_supersedes = mp_supersedes p, mem_superseded_by = None,
     mem_status = (if requires_confirmation (mp_type p) \<or> is_model_produced (msrc_kind (mp_source p))
                   then Mem_Proposed else Mem_Active),
     mem_run_id = mp_run_id p, mem_created_by = mp_created_by p,
     mem_correlation_id = mp_correlation_id p, mem_created_at = mp_created_at p,
     mem_updated_at = mp_created_at p, mem_last_accessed_at = None,
     mem_retrieval_count = 0, mem_admitted_by = None, mem_admitted_at = None\<rparr>"

lemma MemoryRecord_build_iff:
  "MemoryRecord_build p req allow = Ok m \<longleftrightarrow>
     (trim (mp_content p) = [] \<longrightarrow> allow) \<and> length (trim (mp_content p)) \<le> MAX_MEMORY_CONTENT_CHARS
     \<and> length (dedupe_entities (mp_entities p)) \<le> MAX_MEMORY_ENTITIES
     \<and> (req \<longrightarrow> dedupe_entities (mp_entities p) \<noteq> [])
     \<and> mp_supersedes p \<noteq> Some (mp_id p)
     \<and> (is_model_produced (msrc_kind (mp_source p)) \<longrightarrow> mp_confidence p = Unverified)
     \<and> \<not> (msrc_kind (mp_source p) = ProviderRecord \<and> mp_type p = Preference)
     \<and> \<not> (case mp_valid_until p of Some until \<Rightarrow> until \<le> parts_valid_from p | None \<Rightarrow> False)
     \<and> \<not> parts_valid_from p < mp_created_at p \<and> m = built_record p"
  unfolding MemoryRecord_build_def Let_def parts_valid_from_def [symmetric] built_record_def [symmetric]
  by (auto simp: not_less)

lemma MemoryRecord_build_Ok:
  assumes "MemoryRecord_build p req allow = Ok m"
  shows "trim (mem_content m) = mem_content m" "length (mem_content m) \<le> 4096"
    "mem_content m = [] \<Longrightarrow> allow"
    "sorted (map ent_id (mem_entities m))" "distinct (map ent_id (mem_entities m))"
    "length (mem_entities m) \<le> 16" "req \<Longrightarrow> mem_entities m \<noteq> []"
    "is_model_produced (msrc_kind (mem_source m)) \<longrightarrow> mem_confidence m = Unverified"
    "\<not> (msrc_kind (mem_source m) = ProviderRecord \<and> mem_type m = Preference)"
    "mem_created_at m \<le> mem_valid_from m" "\<forall>u. mem_valid_until m = Some u \<longrightarrow> mem_valid_from m < u"
    "mem_importance m \<le> 4" "mem_supersedes m \<noteq> Some (mem_id m)" "mem_superseded_by m = None"
    "mem_admitted_by m = None" "mem_admitted_at m = None"
    "mem_status m = (if requires_confirmation (mem_type m) \<or> is_model_produced (msrc_kind (mem_source m))
       then Mem_Proposed else Mem_Active)"
    "mem_claim m = mp_claim p" "mem_retrieval_count m = 0"
proof -
  let ?es = "dedupe_entities (mp_entities p)"
  have len: "length (sort_key ent_id ?es) = length ?es" by simp
  have nil: "sort_key ent_id ?es = [] \<longleftrightarrow> ?es = []" by (metis len length_0_conv)
  have dist: "distinct (map ent_id (sort_key ent_id ?es))"
  proof -
    have "mset (map ent_id (sort_key ent_id ?es)) = mset (map ent_id ?es)" by simp
    then show ?thesis using dedupe_entities_ids(2) [of "mp_entities p"] by (metis mset_eq_imp_distinct_iff)
  qed
  note ok = assms [unfolded MemoryRecord_build_iff]
  have m: "m = built_record p" using ok by blast
  show "trim (mem_content m) = mem_content m" by (simp add: m built_record_def)
  show "length (mem_content m) \<le> 4096" "mem_content m = [] \<Longrightarrow> allow"
    using ok by (simp_all add: m built_record_def memory_bounds)
  show "sorted (map ent_id (mem_entities m))" "distinct (map ent_id (mem_entities m))"
    "length (mem_entities m) \<le> 16" "req \<Longrightarrow> mem_entities m \<noteq> []"
    using ok dist nil by (simp_all add: m built_record_def memory_bounds)
  show "is_model_produced (msrc_kind (mem_source m)) \<longrightarrow> mem_confidence m = Unverified"
    "\<not> (msrc_kind (mem_source m) = ProviderRecord \<and> mem_type m = Preference)"
    "mem_created_at m \<le> mem_valid_from m"
    using ok by (simp_all add: m built_record_def not_less)
  show "\<forall>u. mem_valid_until m = Some u \<longrightarrow> mem_valid_from m < u"
    using ok by (cases "mp_valid_until p") (simp_all add: m built_record_def not_le)
  show "mem_importance m \<le> 4" "mem_supersedes m \<noteq> Some (mem_id m)" "mem_superseded_by m = None"
    "mem_admitted_by m = None" "mem_admitted_at m = None"
    "mem_status m = (if requires_confirmation (mem_type m) \<or> is_model_produced (msrc_kind (mem_source m))
       then Mem_Proposed else Mem_Active)"
    "mem_claim m = mp_claim p" "mem_retrieval_count m = 0"
    using ok by (simp_all add: m built_record_def memory_bounds)
qed

lemma MemoryRecord_new_wf:
  assumes "MemoryRecord_new p = Ok m"
  shows "memory_wf m" "mem_entities m \<noteq> []"
  using MemoryRecord_build_Ok [OF assms [unfolded MemoryRecord_new_def]]
  by (auto simp: memory_wf_def)

text \<open>One operation on a record.\<close>

inductive memory_step :: "MemoryRecord \<Rightarrow> MemoryRecord \<Rightarrow> bool" where
  step_confirm: "memory_confirm m at = Ok m' \<Longrightarrow> memory_step m m'"
| step_confirm_by: "confirm_by m approver at = Ok m' \<Longrightarrow> memory_step m m'"
| step_archive: "memory_archive m at = Ok m' \<Longrightarrow> memory_step m m'"
| step_delete: "memory_delete m at = Ok m' \<Longrightarrow> memory_step m m'"
| step_replace: "replace_with m replacement at = Ok m' \<Longrightarrow> memory_step m m'"
| step_retrieved: "memory_step m (memory_retrieved m at)"

inductive_cases memory_stepE: "memory_step m m'"

lemmas memory_op_defs = memory_confirm_def confirm_by_def memory_archive_def memory_delete_def
  replace_with_def memory_retrieved_def memory_transition_Ok

lemma confirm_by_Ok:
  "confirm_by m approver at = Ok m' \<longleftrightarrow> memory_edge (mem_status m) Mem_Active
     \<and> trim approver \<noteq> [] \<and> str_len (trim approver) \<le> 128
     \<and> m' = m\<lparr>mem_status := Mem_Active, mem_updated_at := at, mem_admitted_by := Some (trim approver),
            mem_admitted_at := Some at\<rparr>"
  by (auto simp: confirm_by_def memory_transition_Ok Let_def MAX_APPROVER_ID_CHARS_def)

lemma replace_with_Ok:
  assumes "replace_with m r at = Ok m'"
  shows "m' = m \<or> (mem_status m \<noteq> Mem_Deleted \<and> r \<noteq> mem_id m \<and> mem_superseded_by m = None
     \<and> m' = m\<lparr>mem_superseded_by := Some r, mem_status := Mem_Archived, mem_updated_at := at\<rparr>)"
  using assms by (auto simp: replace_with_def MemoryStatus_is_terminal_def split: if_splits option.splits)

lemma memory_step_wf:
  assumes "memory_step m m'" "memory_wf m"
  shows "memory_wf m'"
  using assms
proof (cases rule: memory_step.cases)
  case (step_confirm at)
  with assms(2) show ?thesis
    by (auto simp: memory_confirm_def memory_transition_Ok memory_wf_def memory_edge_def MemoryStatus_is_terminal_def)
next
  case (step_confirm_by approver at)
  with assms(2) show ?thesis
    by (auto simp: confirm_by_Ok memory_wf_def memory_edge_def MemoryStatus_is_terminal_def)
next
  case (step_archive at)
  with assms(2) show ?thesis
    by (auto simp: memory_archive_def memory_transition_Ok memory_wf_def memory_edge_def MemoryStatus_is_terminal_def)
next
  case (step_delete at)
  then have "m' = m\<lparr>mem_status := Mem_Deleted, mem_updated_at := at, mem_content := [],
      mem_claim := None, mem_superseded_by := None\<rparr>"
    by (simp add: memory_delete_def memory_transition_Ok)
  with assms(2) show ?thesis by (simp add: memory_wf_def)
next
  case (step_replace r at)
  from replace_with_Ok [OF this] assms(2) show ?thesis by (auto simp: memory_wf_def)
next
  case (step_retrieved at)
  with assms(2) show ?thesis by (simp add: memory_wf_def memory_retrieved_def)
qed

text \<open>What no operation changes.\<close>

lemma memory_step_fixed:
  assumes "memory_step m m'"
  shows "mem_id m' = mem_id m" "mem_source m' = mem_source m" "mem_confidence m' = mem_confidence m"
    "mem_type m' = mem_type m" "mem_sensitivity m' = mem_sensitivity m"
    "mem_content m' = mem_content m \<or> mem_content m' = []"
    "mem_status m = Mem_Deleted \<Longrightarrow> mem_status m' = Mem_Deleted"
proof -
  show "mem_id m' = mem_id m" "mem_source m' = mem_source m" "mem_confidence m' = mem_confidence m"
    "mem_type m' = mem_type m" "mem_sensitivity m' = mem_sensitivity m"
    "mem_content m' = mem_content m \<or> mem_content m' = []"
    "mem_status m = Mem_Deleted \<Longrightarrow> mem_status m' = Mem_Deleted"
    using assms
    by (cases rule: memory_step.cases;
        auto simp: memory_confirm_def confirm_by_Ok memory_archive_def memory_delete_def memory_retrieved_def
          memory_transition_Ok memory_edge_def MemoryStatus_is_terminal_def dest!: replace_with_Ok)+
qed

lemma memory_steps_fixed:
  assumes "memory_step\<^sup>*\<^sup>* m m'"
  shows "mem_source m' = mem_source m" "mem_confidence m' = mem_confidence m" "mem_type m' = mem_type m"
    "memory_wf m \<Longrightarrow> memory_wf m'"
    "mem_content m' = mem_content m \<or> mem_content m' = []"
  using assms by (induction rule: rtranclp_induct) (auto dest: memory_step_fixed memory_step_wf)

section \<open>Storage\<close>

text \<open>The columns of a stored memory, as the repository binds and decodes them.\<close>

definition stored_parts :: "MemoryRecord \<Rightarrow> MemoryRecordParts" where
  "stored_parts m = \<lparr>mp_id = mem_id m, mp_workspace_id = mem_workspace_id m, mp_type = mem_type m,
     mp_content = mem_content m, mp_claim = mem_claim m, mp_source = mem_source m,
     mp_confidence = mem_confidence m, mp_importance = mem_importance m,
     mp_sensitivity = mem_sensitivity m, mp_entities = mem_entities m,
     mp_valid_from = Some (mem_valid_from m), mp_valid_until = mem_valid_until m,
     mp_supersedes = mem_supersedes m, mp_run_id = mem_run_id m, mp_created_by = mem_created_by m,
     mp_correlation_id = mem_correlation_id m, mp_created_at = mem_created_at m\<rparr>"

definition stored_memory_state :: "MemoryRecord \<Rightarrow> StoredMemoryState" where
  "stored_memory_state m = \<lparr>ms_status = mem_status m, ms_superseded_by = mem_superseded_by m,
     ms_updated_at = mem_updated_at m, ms_last_accessed_at = mem_last_accessed_at m,
     ms_retrieval_count = mem_retrieval_count m, ms_admitted_by = mem_admitted_by m,
     ms_admitted_at = mem_admitted_at m\<rparr>"

lemma stored_build:
  assumes "memory_wf m"
  shows "MemoryRecord_build (stored_parts m) False (mem_status m = Mem_Deleted)
    = Ok (built_record (stored_parts m))"
proof -
  have "dedupe_entities (mem_entities m) = mem_entities m"
    using assms by (intro dedupe_entities_distinct) (simp add: memory_wf_def)
  with assms show ?thesis
    unfolding MemoryRecord_build_iff
    by (auto simp: stored_parts_def memory_wf_def parts_valid_from_def memory_bounds split: option.splits)
qed

lemma stored_built_record:
  assumes "memory_wf m"
  shows "(built_record (stored_parts m))\<lparr>mem_status := mem_status m, mem_superseded_by := mem_superseded_by m,
      mem_updated_at := mem_updated_at m, mem_last_accessed_at := mem_last_accessed_at m,
      mem_retrieval_count := mem_retrieval_count m, mem_admitted_by := mem_admitted_by m,
      mem_admitted_at := mem_admitted_at m\<rparr> = m"
proof -
  have es: "dedupe_entities (mem_entities m) = mem_entities m"
    using assms by (intro dedupe_entities_distinct) (simp add: memory_wf_def)
  have "sort_key ent_id (mem_entities m) = mem_entities m"
    using assms by (intro sort_key_id_if_sorted) (simp add: memory_wf_def)
  moreover have "trim (mem_content m) = mem_content m" "min (mem_importance m) 4 = mem_importance m"
    using assms by (simp_all add: memory_wf_def)
  ultimately show ?thesis
    by (intro MemoryRecord.equality)
      (simp_all add: built_record_def stored_parts_def parts_valid_from_def memory_bounds es)
qed

lemma from_stored_wf:
  assumes wf: "memory_wf m"
  shows "MemoryRecord_from_stored (stored_parts m) (stored_memory_state m) =
    (if mem_status m = Mem_Deleted \<and> mem_admitted_by m \<noteq> None then Err AdmissionInconsistent else Ok m)"
proof -
  have built: "mem_content (built_record (stored_parts m)) = mem_content m"
    "mem_claim (built_record (stored_parts m)) = mem_claim m"
    "mem_id (built_record (stored_parts m)) = mem_id m"
    using wf by (simp_all add: built_record_def stored_parts_def memory_wf_def)
  show ?thesis
    using stored_build [OF wf] stored_built_record [OF wf] wf
    by (cases "mem_admitted_by m"; cases "mem_status m")
      (simp_all add: MemoryRecord_from_stored_def built memory_wf_def stored_memory_state_def
        MAX_APPROVER_ID_CHARS_def not_less)
qed

lemma memory_storage_round_trip_helper:
  assumes "MemoryRecord_new p = Ok m" "memory_step\<^sup>*\<^sup>* m m'"
  shows "MemoryRecord_from_stored (stored_parts m') (stored_memory_state m') =
    (if mem_status m' = Mem_Deleted \<and> mem_admitted_by m' \<noteq> None then Err AdmissionInconsistent else Ok m')"
  using memory_steps_fixed(4) [OF assms(2) MemoryRecord_new_wf(1) [OF assms(1)]] by (rule from_stored_wf)

section \<open>Search keys\<close>

definition usable_word :: "rstr \<Rightarrow> bool" where
  "usable_word w \<longleftrightarrow> w \<noteq> [] \<and> length w \<le> 64"

lemma key_words_set: "set (key_words ws acc) = set acc \<union> set (filter usable_word ws)"
  by (induction ws acc rule: key_words.induct) (auto simp: MAX_SEARCH_KEY_WORD_CHARS_def usable_word_def)

lemma key_words_distinct: "distinct acc \<Longrightarrow> distinct (key_words ws acc)"
  by (induction ws acc rule: key_words.induct) simp_all

lemma sorted_key_words:
  "set (filter usable_word ws) = set (filter usable_word vs) \<Longrightarrow> sort (key_words ws []) = sort (key_words vs [])"
  by (intro sorted_distinct_set_unique) (simp_all add: key_words_set key_words_distinct)

lemma distinct_remdups_adj_sorted: "sorted xs \<Longrightarrow> distinct (remdups_adj xs)"
  by (induction xs rule: remdups_adj.induct) auto

lemma remdups_adj_sorted:
  assumes "set xs = set (ys :: rstr list)"
  shows "remdups_adj (sort xs) = remdups_adj (sort ys)"
  using assms by (intro sorted_distinct_set_unique) (simp_all add: distinct_remdups_adj_sorted)

lemma search_key_sets:
  assumes "set (filter usable_word (map (normalize_word alnum lower) (split_whitespace [] a)))
      = set (filter usable_word (map (normalize_word alnum lower) (split_whitespace [] b)))"
    and "ent_id ` set es = ent_id ` set fs"
  shows "MemorySearchKey_new alnum lower t es a = MemorySearchKey_new alnum lower t fs b"
proof -
  have "remdups_adj (sort (map ent_id es)) = remdups_adj (sort (map ent_id fs))"
    using assms(2) by (intro remdups_adj_sorted) simp
  then show ?thesis
    unfolding MemorySearchKey_new_def sorted_key_words [OF assms(1)] by (simp only:)
qed

section \<open>Context\<close>

lemma MemorySource_new_trust:
  "MemorySource_new k l t h = Ok src \<Longrightarrow> msrc_trust src = permitted_trust (msrc_kind src)"
  by (auto simp: MemorySource_new_def Let_def split: if_splits option.splits)

lemma memory_context_item_Ok:
  assumes "memory_context_item m types now = Ok i"
  shows "item_trust i = context_trust m" "item_priority i = Prio_Optional"
    "item_sensitivity i = mem_sensitivity m" "item_quoted i = is_external (context_trust m)"
    "effective_status_at m now = Eff_Active" "src_kind (item_source i) = Src_Memory"
proof -
  from assms obtain iso src where "ContextSource_new Src_Memory
      (memory_reference (mem_id m) (mem_type m) (msrc_kind (mem_source m))) = Ok src"
    and i: "ContextItem_new src (context_trust m) (mem_sensitivity m) Prio_Optional
      (estimate_isolated_tokens iso) Reason_RetrievedMatch (is_external (context_trust m)) = Ok i"
    and cur: "effective_status_at m now = Eff_Active"
    by (auto simp: memory_context_item_def context_item_for_payload_def is_current_truth_def split: if_splits)
  then have "src_kind src = Src_Memory" by (auto simp: ContextSource_new_def split: if_splits)
  with ContextItem_new_Ok(1) [OF i] cur show "item_trust i = context_trust m" "item_priority i = Prio_Optional"
    "item_sensitivity i = mem_sensitivity m" "item_quoted i = is_external (context_trust m)"
    "effective_status_at m now = Eff_Active" "src_kind (item_source i) = Src_Memory"
    by simp_all
qed

lemma context_trust_never_instructs: "\<not> is_instruction_bearing (context_trust m)"
  by (simp add: context_trust_def is_instruction_bearing_def split: MemoryTrust.splits)

text \<open>The operations that carry no reviewer's decision.\<close>

inductive unreviewed_step :: "MemoryRecord \<Rightarrow> MemoryRecord \<Rightarrow> bool" where
  "memory_archive m at = Ok m' \<Longrightarrow> unreviewed_step m m'"
| "memory_delete m at = Ok m' \<Longrightarrow> unreviewed_step m m'"
| "replace_with m replacement at = Ok m' \<Longrightarrow> unreviewed_step m m'"
| "unreviewed_step m (memory_retrieved m at)"

lemma unreviewed_not_active:
  assumes "unreviewed_step\<^sup>*\<^sup>* m m'" "mem_status m \<noteq> Mem_Active"
  shows "mem_status m' \<noteq> Mem_Active"
  using assms
proof (induction rule: rtranclp_induct)
  case (step y z)
  from step(2) step.IH [OF step.prems] show ?case
    by (cases rule: unreviewed_step.cases)
      (auto simp: memory_archive_def memory_delete_def memory_transition_Ok memory_retrieved_def
        dest!: replace_with_Ok)
qed

section \<open>Properties\<close>

text \<open>C33: an inference never passes for a fact. A record built from a model's inference is not
  current until a reviewer confirms it, and whatever operations follow, it is never stateable as a
  fact; when it is offered as context it is untrusted, quoted, optional content. No memory at all
  may instruct.\<close>

theorem inference_never_fact:
  assumes "MemoryRecord_new p = Ok m" "is_model_produced (msrc_kind (mp_source p))"
    and "MemorySource_new k l t h = Ok (mp_source p)"
  shows "(unreviewed_step\<^sup>*\<^sup>* m m' \<longrightarrow> \<not> is_current_truth (effective_status_at m' now))
    \<and> (memory_step\<^sup>*\<^sup>* m m' \<longrightarrow> \<not> is_stateable_as_fact_at m' now
         \<and> (\<forall>i. memory_context_item m' types now = Ok i \<longrightarrow>
              item_trust i = Untrusted \<and> item_quoted i \<and> item_priority i = Prio_Optional))
    \<and> (\<forall>r i. memory_context_item r types now = Ok i \<longrightarrow> \<not> is_instruction_bearing (item_trust i))"
proof (intro conjI impI allI)
  have m: "m = built_record p" using assms(1) by (simp add: MemoryRecord_new_def MemoryRecord_build_iff)
  then have src: "mem_source m = mp_source p" and st: "mem_status m = Mem_Proposed"
    using assms(2) by (simp_all add: built_record_def)
  have conf: "mem_confidence m = Unverified"
    using MemoryRecord_new_wf(1) [OF assms(1)] assms(2) src by (simp add: memory_wf_def)
  show "\<not> is_current_truth (effective_status_at m' now)" if "unreviewed_step\<^sup>*\<^sup>* m m'"
    using unreviewed_not_active [OF that] st
    by (cases "mem_status m'") (simp_all add: effective_status_at_def is_current_truth_def)
  { assume steps: "memory_step\<^sup>*\<^sup>* m m'"
    note f = memory_steps_fixed [OF steps]
    show "\<not> is_stateable_as_fact_at m' now"
      using f(2) conf by (simp add: is_stateable_as_fact_at_def is_stated_as_fact_def)
    have "context_trust m' = Untrusted"
      using f(1) src MemorySource_new_trust [OF assms(3)] assms(2)
      by (simp add: context_trust_def is_model_produced_def)
    then show "item_trust i = Untrusted" "item_quoted i" "item_priority i = Prio_Optional"
      if "memory_context_item m' types now = Ok i" for i
      using memory_context_item_Ok [OF that] by (simp_all add: is_external_def) }
  show "\<not> is_instruction_bearing (item_trust i)" if "memory_context_item r types now = Ok i" for r i
    using memory_context_item_Ok(1) [OF that] context_trust_never_instructs by simp
qed


text \<open>Storing a memory and reading it back gives the same record, with one exception: a deleted
  record that had been admitted by a reviewer cannot be read back.\<close>

theorem memory_storage_round_trip:
  assumes "MemoryRecord_new p = Ok m" "memory_step\<^sup>*\<^sup>* m m'"
  shows "MemoryRecord_from_stored (stored_parts m') (stored_memory_state m') =
    (if mem_status m' = Mem_Deleted \<and> mem_admitted_by m' \<noteq> None then Err AdmissionInconsistent else Ok m')"
  by (rule memory_storage_round_trip_helper [OF assms])

text \<open>The search key of a claim depends only on its type, the set of its usable words and the
  set of its entities, not on their order or repetition.\<close>

theorem search_key_canonical:
  assumes "set (filter usable_word (map (normalize_word alnum lower) (split_whitespace [] a)))
      = set (filter usable_word (map (normalize_word alnum lower) (split_whitespace [] b)))"
    and "ent_id ` set es = ent_id ` set fs"
  shows "MemorySearchKey_new alnum lower t es a = MemorySearchKey_new alnum lower t fs b"
  using assms by (rule search_key_sets)

definition sample_source :: MemorySource where
  "sample_source = \<lparr>msrc_kind = ModelInference, msrc_locator = lit ''run'', msrc_trust = Mem_Derived,
     msrc_excerpt_hash = None\<rparr>"

definition sample_memory_parts :: MemoryRecordParts where
  "sample_memory_parts = \<lparr>mp_id = lit ''m1'', mp_workspace_id = lit ''w'', mp_type = Semantic,
     mp_content = lit ''likes tea'', mp_claim = None, mp_source = sample_source, mp_confidence = Unverified,
     mp_importance = 1, mp_sensitivity = Sensitivity.Public, mp_entities = [EntityRef_confirmed (lit ''e1'')],
     mp_valid_from = None, mp_valid_until = None, mp_supersedes = None, mp_run_id = None,
     mp_created_by = lit ''owner'', mp_correlation_id = lit ''c'', mp_created_at = 0\<rparr>"

lemma sample_trims: "trim (lit ''likes tea'') = lit ''likes tea''" "trim (lit ''owner'') = lit ''owner''"
  "trim (lit ''run'') = lit ''run''"
  by (simp_all add: trim_def lit_def is_whitespace_def)

lemma sample_source_new: "MemorySource_new ModelInference (lit ''run'') Mem_Derived None = Ok sample_source"
  by (simp add: MemorySource_new_def sample_source_def sample_trims MAX_SOURCE_LOCATOR_CHARS_def)

lemma sample_memory_new: "MemoryRecord_new sample_memory_parts = Ok (built_record sample_memory_parts)"
  by (simp add: MemoryRecord_new_def MemoryRecord_build_iff)
    (simp add: sample_memory_parts_def sample_trims memory_bounds dedupe_entities_def parts_valid_from_def
      sample_source_def is_model_produced_def)

definition sample_confirmed :: MemoryRecord where
  "sample_confirmed = (built_record sample_memory_parts)\<lparr>mem_status := Mem_Active, mem_updated_at := 5,
     mem_admitted_by := Some (lit ''owner''), mem_admitted_at := Some 5\<rparr>"

definition sample_deleted :: MemoryRecord where
  "sample_deleted = sample_confirmed\<lparr>mem_status := Mem_Deleted, mem_updated_at := 6, mem_content := [],
     mem_claim := None, mem_superseded_by := None\<rparr>"

lemma sample_memory_ops:
  "confirm_by (built_record sample_memory_parts) (lit ''owner'') 5 = Ok sample_confirmed"
  "memory_delete sample_confirmed 6 = Ok sample_deleted"
proof -
  have "mem_status (built_record sample_memory_parts) = Mem_Proposed"
    by (simp add: built_record_def sample_memory_parts_def sample_source_def is_model_produced_def)
  moreover have "str_len (lit ''owner'') = 5" by (simp add: lit_def utf8_width_def)
  ultimately show "confirm_by (built_record sample_memory_parts) (lit ''owner'') 5 = Ok sample_confirmed"
    by (simp add: confirm_by_Ok sample_trims sample_confirmed_def memory_edge_def
        MemoryStatus_is_terminal_def MemoryStatus_can_advance_to_def)
  show "memory_delete sample_confirmed 6 = Ok sample_deleted"
    by (simp add: memory_delete_def memory_transition_Ok sample_deleted_def)
      (simp add: sample_confirmed_def memory_edge_def MemoryStatus_is_terminal_def MemoryStatus_can_advance_to_def)
qed

lemma sample_memory_steps:
  "memory_step\<^sup>*\<^sup>* (built_record sample_memory_parts) sample_confirmed"
  "memory_step\<^sup>*\<^sup>* (built_record sample_memory_parts) sample_deleted"
  using step_confirm_by [OF sample_memory_ops(1)] step_delete [OF sample_memory_ops(2)]
  by (meson r_into_rtranclp rtranclp.rtrancl_into_rtrancl)+

theorem inference_never_fact_witness: "\<not> is_stateable_as_fact_at sample_confirmed 9"
proof -
  have "is_model_produced (msrc_kind (mp_source sample_memory_parts))"
    "mp_source sample_memory_parts = sample_source"
    by (simp_all add: sample_memory_parts_def sample_source_def is_model_produced_def)
  with inference_never_fact [OF sample_memory_new, of _ _ _ _ sample_confirmed 9] sample_source_new
    sample_memory_steps(1) show ?thesis by auto
qed


theorem memory_storage_round_trip_witness:
  "MemoryRecord_from_stored (stored_parts sample_confirmed) (stored_memory_state sample_confirmed)
    = Ok sample_confirmed"
  using memory_storage_round_trip [OF sample_memory_new sample_memory_steps(1)]
  by (simp add: sample_confirmed_def)

theorem search_key_canonical_witness:
  "MemorySearchKey_new is_ascii_alphanumeric (\<lambda>c. [c]) Semantic [] (lit ''a b a'')
    = MemorySearchKey_new is_ascii_alphanumeric (\<lambda>c. [c]) Semantic [] (lit ''b a'')"
  by (rule search_key_canonical)
    (auto simp: lit_def is_whitespace_def normalize_word_def is_ascii_alphanumeric_def is_ascii_lowercase_def)

text \<open>A memory that a reviewer admitted keeps the admission when it is deleted, and a deleted row
  with an admission is refused on reading: after such a deletion the record cannot be read.\<close>

theorem admitted_memory_unreadable_once_deleted:
  assumes "MemoryRecord_new p = Ok m" "memory_step\<^sup>*\<^sup>* m m1" "confirm_by m1 approver at = Ok m2"
    and "memory_delete m2 at' = Ok m3"
  shows "MemoryRecord_from_stored (stored_parts m3) (stored_memory_state m3) = Err AdmissionInconsistent"
proof -
  have "memory_step\<^sup>*\<^sup>* m m3"
    using assms(2) step_confirm_by [OF assms(3)] step_delete [OF assms(4)]
    by (meson rtranclp.rtrancl_into_rtrancl)
  moreover have "mem_status m3 = Mem_Deleted" "mem_admitted_by m3 \<noteq> None"
    using assms(3,4) by (auto simp: confirm_by_Ok memory_delete_def memory_transition_Ok)
  ultimately show ?thesis
    using memory_storage_round_trip_helper [OF assms(1)] by simp
qed

text \<open>Confirmation is documented to apply to proposals only; the table lets it revive an archived
  record, also one that a correction replaced.\<close>

theorem replaced_memory_revived:
  assumes "memory_step\<^sup>*\<^sup>* m0 m" "replace_with m r at = Ok m1" "mem_superseded_by m = None"
    and "trim approver \<noteq> []" "str_len (trim approver) \<le> 128"
  shows "\<exists>m2. confirm_by m1 approver at' = Ok m2 \<and> mem_status m2 = Mem_Active \<and> mem_superseded_by m2 = Some r"
  using assms(2-5)
  by (auto simp: confirm_by_Ok replace_with_def memory_edge_def MemoryStatus_is_terminal_def
      MemoryStatus_can_advance_to_def split: if_splits)

end
