(* ===== verification/Memory_Candidate.thy ===== *)
theory Memory_Candidate
  imports Memory_Laws
begin

text \<open>
  Candidates for memories: what an extractor may propose and what the admission pipeline decides
  (jarvis-core, \<open>candidate.rs\<close>). The pipeline reads nothing from the store: what the store answered
  arrives in a context. The character tables of the search key stay arguments, as in \<open>Memory\<close>.
\<close>

section \<open>Data\<close>

definition MAX_CANDIDATE_CONTENT_CHARS :: nat where
  "MAX_CANDIDATE_CONTENT_CHARS = MAX_MEMORY_CONTENT_CHARS"

definition MAX_CANDIDATE_ENTITIES :: nat where
  "MAX_CANDIDATE_ENTITIES = MAX_MEMORY_ENTITIES"

datatype CandidateRefusal = Cand_Content | Unkeyable | Cand_Unsupported | TooManyEntities | EntityUnresolved
  | ConfidenceLowered MemoryConfidence MemoryConfidence | ProviderCannotPreference
  | Cand_Duplicate ident | Cand_AlreadySuperseded ident | Cand_Correction ident | Tombstoned

fun CandidateRefusal_as_str :: "CandidateRefusal \<Rightarrow> rstr" where
  "CandidateRefusal_as_str Cand_Content = lit ''content''"
| "CandidateRefusal_as_str Unkeyable = lit ''unkeyable''"
| "CandidateRefusal_as_str Cand_Unsupported = lit ''unsupported''"
| "CandidateRefusal_as_str TooManyEntities = lit ''too_many_entities''"
| "CandidateRefusal_as_str EntityUnresolved = lit ''entity_unresolved''"
| "CandidateRefusal_as_str (ConfidenceLowered _ _) = lit ''confidence_lowered''"
| "CandidateRefusal_as_str ProviderCannotPreference = lit ''provider_cannot_preference''"
| "CandidateRefusal_as_str (Cand_Duplicate _) = lit ''duplicate''"
| "CandidateRefusal_as_str (Cand_AlreadySuperseded _) = lit ''already_superseded''"
| "CandidateRefusal_as_str (Cand_Correction _) = lit ''correction''"
| "CandidateRefusal_as_str Tombstoned = lit ''tombstoned''"

definition forbids_writing :: "CandidateRefusal \<Rightarrow> bool" where
  "forbids_writing r = (case r of ConfidenceLowered _ _ \<Rightarrow> False | Cand_Duplicate _ \<Rightarrow> False
     | Cand_AlreadySuperseded _ \<Rightarrow> False | Cand_Correction _ \<Rightarrow> False | _ \<Rightarrow> True)"

fun confidence_ceiling :: "MemorySourceKind \<Rightarrow> MemoryConfidence" where
  "confidence_ceiling UserStatement = Conf_Confirmed"
| "confidence_ceiling UserCorrection = Conf_Confirmed"
| "confidence_ceiling ProviderRecord = Conf_Confirmed"
| "confidence_ceiling ToolObservation = Conf_Confirmed"
| "confidence_ceiling Mem_Document = Likely"
| "confidence_ceiling ExternalContent = Uncertain"
| "confidence_ceiling ModelInference = Unverified"

record CandidateClassification =
  cc_memory_type :: MemoryType
  cc_source_kind :: MemorySourceKind

definition classification_ceiling :: "CandidateClassification \<Rightarrow> MemoryConfidence" where
  "classification_ceiling c = confidence_ceiling (cc_source_kind c)"

definition requires_proposal :: "CandidateClassification \<Rightarrow> bool" where
  "requires_proposal c \<longleftrightarrow> requires_confirmation (cc_memory_type c) \<or> is_model_produced (cc_source_kind c)"

section \<open>Sensitivity floors\<close>

definition type_sensitivity_floor :: "MemoryType \<Rightarrow> Sensitivity" where
  "type_sensitivity_floor t = (if t = Relationship then Confidential else Internal)"

definition SECRET_PREFIXES :: "rstr list" where
  "SECRET_PREFIXES = [lit ''sk-'', lit ''ghp_'', lit ''gho_'', lit ''github_pat_'', lit ''xoxb-'',
     lit ''xoxp-'', lit ''akia'', lit ''-----begin '']"

definition RESTRICTED_WORDS :: "rstr list" where
  "RESTRICTED_WORDS = [lit ''password'', lit ''passphrase'', lit ''api key'', lit ''apikey'',
     lit ''secret'', lit ''token'', lit ''credential'', lit ''diagnosis'', lit ''medication'',
     lit ''prescription'']"

definition content_sensitivity_floor :: "rstr \<Rightarrow> Sensitivity" where
  "content_sensitivity_floor content =
     (let lowered = map to_ascii_lowercase content in
      if list_ex (\<lambda>prefix. contains_sub prefix lowered) SECRET_PREFIXES
        \<or> list_ex (\<lambda>word. contains_sub word lowered) RESTRICTED_WORDS
      then Restricted else Public)"

definition classify_sensitivity :: "MemoryType \<Rightarrow> Sensitivity \<Rightarrow> rstr \<Rightarrow> Sensitivity" where
  "classify_sensitivity memory_type proposed content =
     (let effective = type_sensitivity_floor memory_type;
          content_floor = content_sensitivity_floor content;
          effective = (if Sensitivity_level content_floor > Sensitivity_level effective
                       then content_floor else effective)
      in if Sensitivity_level proposed > Sensitivity_level effective then proposed else effective)"

section \<open>Candidates and admissions\<close>

record MemoryCandidate =
  cand_workspace_id :: ident
  cand_content :: rstr
  cand_classification :: CandidateClassification
  cand_proposed_sensitivity :: Sensitivity
  cand_proposed_confidence :: MemoryConfidence
  cand_importance :: nat
  cand_proposed_entities :: "EntityRef list"
  cand_structured_claim :: "StructuredClaim option"
  cand_source_locator :: rstr
  cand_source_excerpt_hash :: "rstr option"
  cand_run_id :: "ident option"
  cand_supersedes :: "ident option"
  cand_created_by :: rstr
  cand_correlation_id :: ident

record CandidateContext =
  ctx_resolved_entities :: "EntityRef list"
  ctx_existing :: "MemoryRecord option"
  ctx_superseded_by :: "ident option"
  ctx_tombstoned :: bool

record MemoryToStore =
  mts_workspace_id :: ident
  mts_memory_type :: MemoryType
  mts_content :: rstr
  mts_structured_claim :: "StructuredClaim option"
  mts_source_kind :: MemorySourceKind
  mts_source_locator :: rstr
  mts_source_trust :: MemoryTrust
  mts_source_excerpt_hash :: "rstr option"
  mts_confidence :: MemoryConfidence
  mts_sensitivity :: Sensitivity
  mts_importance :: nat
  mts_entities :: "EntityRef list"
  mts_search_key :: rstr
  mts_run_id :: "ident option"
  mts_created_by :: rstr
  mts_correlation_id :: ident

datatype MemoryAdmission = Admit_New MemoryToStore | Admit_Proposal MemoryToStore
  | Admit_Correction MemoryToStore ident | Admit_Duplicate ident | Admit_AlreadySuperseded ident

fun to_store :: "MemoryAdmission \<Rightarrow> MemoryToStore option" where
  "to_store (Admit_New v) = Some v"
| "to_store (Admit_Proposal v) = Some v"
| "to_store (Admit_Correction v _) = Some v"
| "to_store (Admit_Duplicate _) = None"
| "to_store (Admit_AlreadySuperseded _) = None"

fun admission_reason :: "MemoryAdmission \<Rightarrow> CandidateRefusal option" where
  "admission_reason (Admit_New _) = None"
| "admission_reason (Admit_Proposal _) = None"
| "admission_reason (Admit_Correction _ supersedes) = Some (Cand_Correction supersedes)"
| "admission_reason (Admit_Duplicate existing) = Some (Cand_Duplicate existing)"
| "admission_reason (Admit_AlreadySuperseded current) = Some (Cand_AlreadySuperseded current)"

definition admission_writes :: "MemoryAdmission \<Rightarrow> bool" where
  "admission_writes a \<longleftrightarrow> to_store a \<noteq> None"

definition is_proposal :: "MemoryAdmission \<Rightarrow> bool" where
  "is_proposal a \<longleftrightarrow> (case a of Admit_Proposal _ \<Rightarrow> True | _ \<Rightarrow> False)"

section \<open>Comparison with what the workspace holds\<close>

datatype MemoryCandidateComparison = Compare_New | Compare_Duplicate ident
  | Compare_AlreadySuperseded ident | Compare_Correction ident

fun MemoryCandidateComparison_as_str :: "MemoryCandidateComparison \<Rightarrow> rstr" where
  "MemoryCandidateComparison_as_str Compare_New = lit ''new''"
| "MemoryCandidateComparison_as_str (Compare_Duplicate _) = lit ''duplicate''"
| "MemoryCandidateComparison_as_str (Compare_AlreadySuperseded _) = lit ''already_superseded''"
| "MemoryCandidateComparison_as_str (Compare_Correction _) = lit ''correction''"

definition normalized_words :: "rstr \<Rightarrow> rstr list" where
  "normalized_words content = map (map to_ascii_lowercase) (split_whitespace [] content)"

definition normalized_equal :: "rstr \<Rightarrow> rstr \<Rightarrow> bool" where
  "normalized_equal left right =
     (let left_words = normalized_words left; right_words = normalized_words right in
      if length left_words \<noteq> length right_words then False
      else sort left_words = sort right_words)"

definition compare_claims ::
  "MemoryRecord option \<Rightarrow> rstr \<Rightarrow> ident option \<Rightarrow> MemoryCandidateComparison" where
  "compare_claims existing content superseded_by =
     (case existing of
        Some current \<Rightarrow>
          if normalized_equal (mem_content current) content then Compare_Duplicate (mem_id current)
          else Compare_Correction (mem_id current)
      | None \<Rightarrow> (case superseded_by of
          Some current_memory_id \<Rightarrow> Compare_AlreadySuperseded current_memory_id
        | None \<Rightarrow> Compare_New))"

section \<open>Admission\<close>

definition capped_confidence :: "MemoryCandidate \<Rightarrow> MemoryConfidence" where
  "capped_confidence c =
     (let ceiling = classification_ceiling (cand_classification c) in
      if MemoryConfidence_level (cand_proposed_confidence c) > MemoryConfidence_level ceiling
      then ceiling else cand_proposed_confidence c)"

definition admitted_values :: "MemoryCandidate \<Rightarrow> CandidateContext \<Rightarrow> rstr \<Rightarrow> MemoryToStore" where
  "admitted_values c x search_key =
     (let cls = cand_classification c; trimmed = trim (cand_content c) in
      \<lparr>mts_workspace_id = cand_workspace_id c, mts_memory_type = cc_memory_type cls,
       mts_content = trimmed, mts_structured_claim = cand_structured_claim c,
       mts_source_kind = cc_source_kind cls, mts_source_locator = trim (cand_source_locator c),
       mts_source_trust = permitted_trust (cc_source_kind cls),
       mts_source_excerpt_hash = cand_source_excerpt_hash c, mts_confidence = capped_confidence c,
       mts_sensitivity = classify_sensitivity (cc_memory_type cls) (cand_proposed_sensitivity c) trimmed,
       mts_importance = min (cand_importance c) MAX_MEMORY_IMPORTANCE,
       mts_entities = ctx_resolved_entities x, mts_search_key = search_key,
       mts_run_id = cand_run_id c, mts_created_by = cand_created_by c,
       mts_correlation_id = cand_correlation_id c\<rparr>)"

definition admit_candidate ::
  "(uchar \<Rightarrow> bool) \<Rightarrow> (uchar \<Rightarrow> rstr) \<Rightarrow> MemoryCandidate \<Rightarrow> CandidateContext
    \<Rightarrow> CandidateRefusal + MemoryAdmission" where
  "admit_candidate is_alphanumeric to_lower c x =
     (let trimmed = trim (cand_content c); cls = cand_classification c in
      if trimmed = [] \<or> length trimmed > MAX_CANDIDATE_CONTENT_CHARS then Err Cand_Content
      else if trim (cand_source_locator c) = [] then Err Cand_Unsupported
      else if length (cand_proposed_entities c) > MAX_CANDIDATE_ENTITIES
        \<or> length (ctx_resolved_entities x) > MAX_CANDIDATE_ENTITIES then Err TooManyEntities
      else if ctx_resolved_entities x = [] then Err EntityUnresolved
      else if cc_source_kind cls = ProviderRecord \<and> cc_memory_type cls = Preference
      then Err ProviderCannotPreference
      else and_then (map_err (\<lambda>_. Unkeyable)
             (MemorySearchKey_new is_alphanumeric to_lower (cc_memory_type cls)
                (ctx_resolved_entities x) trimmed)) (\<lambda>search_key.
        if ctx_tombstoned x then Err Tombstoned
        else
          let v = admitted_values c x search_key in
          case cand_supersedes c of
            Some supersedes \<Rightarrow> Ok (Admit_Correction v supersedes)
          | None \<Rightarrow> (case compare_claims (ctx_existing x) trimmed (ctx_superseded_by x) of
              Compare_Correction supersedes \<Rightarrow> Ok (Admit_Correction v supersedes)
            | Compare_Duplicate existing \<Rightarrow> Ok (Admit_Duplicate existing)
            | Compare_AlreadySuperseded current \<Rightarrow> Ok (Admit_AlreadySuperseded current)
            | Compare_New \<Rightarrow> if requires_proposal cls then Ok (Admit_Proposal v) else Ok (Admit_New v))))"

section \<open>Laws\<close>

named_theorems candidate_bounds

lemmas candidate_bound_defs [candidate_bounds] =
  MAX_CANDIDATE_CONTENT_CHARS_def MAX_CANDIDATE_ENTITIES_def MAX_MEMORY_CONTENT_CHARS_def MAX_MEMORY_ENTITIES_def

text \<open>Every admission that writes went through the whole pipeline.\<close>

lemma admit_candidate_Ok:
  assumes "admit_candidate alnum lower c x = Ok a"
  shows "trim (cand_content c) \<noteq> []" "length (trim (cand_content c)) \<le> 4096"
    "trim (cand_source_locator c) \<noteq> []"
    "ctx_resolved_entities x \<noteq> []" "length (ctx_resolved_entities x) \<le> 16" "\<not> ctx_tombstoned x"
    "\<not> (cc_source_kind (cand_classification c) = ProviderRecord
        \<and> cc_memory_type (cand_classification c) = Preference)"
    "\<exists>key. MemorySearchKey_new alnum lower (cc_memory_type (cand_classification c))
        (ctx_resolved_entities x) (trim (cand_content c)) = Ok key
      \<and> a = (case cand_supersedes c of Some s \<Rightarrow> Admit_Correction (admitted_values c x key) s
        | None \<Rightarrow> (case compare_claims (ctx_existing x) (trim (cand_content c)) (ctx_superseded_by x) of
            Compare_Correction s \<Rightarrow> Admit_Correction (admitted_values c x key) s
          | Compare_Duplicate e \<Rightarrow> Admit_Duplicate e
          | Compare_AlreadySuperseded e \<Rightarrow> Admit_AlreadySuperseded e
          | Compare_New \<Rightarrow> if requires_proposal (cand_classification c)
              then Admit_Proposal (admitted_values c x key) else Admit_New (admitted_values c x key)))"
  using assms
  by (auto simp: admit_candidate_def Let_def candidate_bounds not_less
      split: if_splits option.splits MemoryCandidateComparison.splits)

lemma admitted_values_of:
  assumes "admit_candidate alnum lower c x = Ok a" "to_store a = Some v"
  obtains key where "v = admitted_values c x key"
    "MemorySearchKey_new alnum lower (cc_memory_type (cand_classification c))
      (ctx_resolved_entities x) (trim (cand_content c)) = Ok key"
  using admit_candidate_Ok(8) [OF assms(1)] assms(2) that
  by (auto split: option.splits MemoryCandidateComparison.splits if_splits)

lemma classify_sensitivity_level:
  "Sensitivity_level (classify_sensitivity t p s) =
     Max {Sensitivity_level (type_sensitivity_floor t), Sensitivity_level (content_sensitivity_floor s),
       Sensitivity_level p}"
  by (simp add: classify_sensitivity_def Let_def max_def)

lemma capped_confidence_level:
  "MemoryConfidence_level (capped_confidence c) =
     min (MemoryConfidence_level (cand_proposed_confidence c))
       (MemoryConfidence_level (confidence_ceiling (cc_source_kind (cand_classification c))))"
  by (simp add: capped_confidence_def Let_def classification_ceiling_def min_def)

lemma model_produced_ceiling: "is_model_produced k \<Longrightarrow> confidence_ceiling k = Unverified"
  by (cases k) (simp_all add: is_model_produced_def)

lemma MemoryConfidence_level_inj: "MemoryConfidence_level a = MemoryConfidence_level b \<longleftrightarrow> a = b"
  by (cases a; cases b) simp_all

text \<open>The pipeline bounds what an extractor may claim. Whatever an admitted candidate stores carries
  exactly the highest of the three sensitivity floors, exactly the lower of the proposed confidence and
  what its source supports, the trust of its source, entities the store resolved, and the search key
  of the stored text; and nothing is stored for a claim that was deleted.\<close>

theorem admission_bounds:
  assumes "admit_candidate alnum lower c x = Ok a" "to_store a = Some v"
  shows "Sensitivity_level (mts_sensitivity v) =
      Max {Sensitivity_level (type_sensitivity_floor (mts_memory_type v)),
        Sensitivity_level (content_sensitivity_floor (mts_content v)),
        Sensitivity_level (cand_proposed_sensitivity c)}
    \<and> MemoryConfidence_level (mts_confidence v) =
      min (MemoryConfidence_level (cand_proposed_confidence c))
        (MemoryConfidence_level (confidence_ceiling (mts_source_kind v)))
    \<and> (is_model_produced (mts_source_kind v) \<longrightarrow> mts_confidence v = Unverified)
    \<and> mts_source_trust v = permitted_trust (mts_source_kind v)
    \<and> mts_entities v = ctx_resolved_entities x \<and> mts_entities v \<noteq> [] \<and> \<not> ctx_tombstoned x
    \<and> MemorySearchKey_new alnum lower (mts_memory_type v) (mts_entities v) (mts_content v)
        = Ok (mts_search_key v)"
proof -
  from admitted_values_of [OF assms] obtain key where v: "v = admitted_values c x key"
    and key: "MemorySearchKey_new alnum lower (cc_memory_type (cand_classification c))
      (ctx_resolved_entities x) (trim (cand_content c)) = Ok key" .
  have "is_model_produced (cc_source_kind (cand_classification c)) \<longrightarrow> capped_confidence c = Unverified"
    using capped_confidence_level [of c] MemoryConfidence_level_inj [of "capped_confidence c" Unverified]
    by (auto simp: model_produced_ceiling)
  then show ?thesis
    using admit_candidate_Ok(4,6) [OF assms(1)] key
    by (simp add: v admitted_values_def Let_def classify_sensitivity_level capped_confidence_level)
qed

text \<open>What decides whether a memory is written, and as what.\<close>

text \<open>A claim that needs review is never admitted as a plain new memory, a declared correction is
  always one, and without a declaration the pipeline writes a plain memory or a proposal exactly when
  the workspace holds nothing at the key.\<close>

theorem admission_decides:
  assumes "admit_candidate alnum lower c x = Ok a"
  shows "(\<forall>v. a = Admit_New v \<longrightarrow> \<not> requires_proposal (cand_classification c))
    \<and> (\<forall>s. cand_supersedes c = Some s \<longrightarrow> (\<exists>v. a = Admit_Correction v s))
    \<and> (cand_supersedes c = None \<longrightarrow>
        ((\<exists>v. a = Admit_New v) \<or> is_proposal a \<longleftrightarrow> ctx_existing x = None \<and> ctx_superseded_by x = None))
    \<and> (is_proposal a \<longrightarrow> requires_proposal (cand_classification c))"
  using admit_candidate_Ok(8) [OF assms]
  by (auto simp: is_proposal_def compare_claims_def
      split: option.splits MemoryCandidateComparison.splits if_splits)

section \<open>Duplicates and search keys\<close>

lemma normalize_word_case:
  assumes "\<And>ch. alnum (to_ascii_lowercase ch) = alnum ch" "\<And>ch. lower (to_ascii_lowercase ch) = lower ch"
  shows "normalize_word alnum lower (map to_ascii_lowercase w) = normalize_word alnum lower w"
  by (induction w) (simp_all add: normalize_word_def assms)

lemma normalized_equal_words:
  "normalized_equal a b \<Longrightarrow> set (normalized_words a) = set (normalized_words b)"
  by (auto simp: normalized_equal_def Let_def split: if_splits) (metis set_sort)+

text \<open>Contents that compare equal have the same search key, so a row reported as a duplicate is a
  row at the candidate's key. The character tables are assumed to agree on the two cases of an ASCII
  letter, as Unicode's do.\<close>

theorem duplicates_share_key:
  assumes "normalized_equal a b"
    and "\<And>ch. alnum (to_ascii_lowercase ch) = alnum ch" "\<And>ch. lower (to_ascii_lowercase ch) = lower ch"
  shows "MemorySearchKey_new alnum lower t es a = MemorySearchKey_new alnum lower t es b"
proof (rule search_key_sets)
  have "set (map (normalize_word alnum lower) (split_whitespace [] s)) =
      normalize_word alnum lower ` set (normalized_words s)" for s
    by (simp add: normalized_words_def image_image normalize_word_case [of alnum lower, OF assms(2,3)])
  then show "set (filter usable_word (map (normalize_word alnum lower) (split_whitespace [] a)))
      = set (filter usable_word (map (normalize_word alnum lower) (split_whitespace [] b)))"
    using normalized_equal_words [OF assms(1)] by (simp add: set_filter)
qed simp

section \<open>Witnesses\<close>

definition sample_candidate :: MemoryCandidate where
  "sample_candidate = \<lparr>cand_workspace_id = lit ''w'', cand_content = lit ''token'',
     cand_classification = \<lparr>cc_memory_type = Semantic, cc_source_kind = ModelInference\<rparr>,
     cand_proposed_sensitivity = Public, cand_proposed_confidence = Conf_Confirmed, cand_importance = 9,
     cand_proposed_entities = [], cand_structured_claim = None, cand_source_locator = lit ''run'',
     cand_source_excerpt_hash = None, cand_run_id = None, cand_supersedes = None,
     cand_created_by = lit ''owner'', cand_correlation_id = lit ''c''\<rparr>"

definition sample_candidate_context :: CandidateContext where
  "sample_candidate_context = \<lparr>ctx_resolved_entities = [EntityRef_confirmed (lit ''e1'')], ctx_existing = None,
     ctx_superseded_by = None, ctx_tombstoned = False\<rparr>"

definition sample_key :: rstr where
  "sample_key = lit ''semantic|e1|token''"

abbreviation ascii_lower :: "uchar \<Rightarrow> rstr" where
  "ascii_lower c \<equiv> [to_ascii_lowercase c]"

lemmas ascii_eval = lit_def is_whitespace_def to_ascii_lowercase_def is_ascii_alphanumeric_def
  is_ascii_lowercase_def is_ascii_uppercase_def is_ascii_digit_def

lemma sample_candidate_trims: "trim (lit ''token'') = lit ''token''" "trim (lit ''run'') = lit ''run''"
  by (simp_all add: trim_def lit_def is_whitespace_def)

lemma sample_key_of:
  "MemorySearchKey_new is_ascii_alphanumeric ascii_lower Semantic [EntityRef_confirmed (lit ''e1'')]
     (lit ''token'') = Ok sample_key"
  by (simp add: MemorySearchKey_new_def normalize_word_def ascii_eval sample_key_def MAX_SEARCH_KEY_WORDS_def
      MAX_SEARCH_KEY_WORD_CHARS_def MAX_SEARCH_KEY_CHARS_def EntityRef_confirmed_def)

lemma sample_admitted:
  "admit_candidate is_ascii_alphanumeric ascii_lower sample_candidate sample_candidate_context =
     Ok (Admit_Proposal (admitted_values sample_candidate sample_candidate_context sample_key))"
proof -
  have c: "cand_classification sample_candidate = \<lparr>cc_memory_type = Semantic, cc_source_kind = ModelInference\<rparr>"
    "trim (cand_content sample_candidate) = lit ''token''" "trim (cand_source_locator sample_candidate) = lit ''run''"
    "cand_proposed_entities sample_candidate = []" "cand_supersedes sample_candidate = None"
    "ctx_resolved_entities sample_candidate_context = [EntityRef_confirmed (lit ''e1'')]"
    "ctx_existing sample_candidate_context = None" "ctx_superseded_by sample_candidate_context = None"
    "\<not> ctx_tombstoned sample_candidate_context"
    by (simp_all add: sample_candidate_def sample_candidate_context_def sample_candidate_trims)
  have "lit ''token'' \<noteq> []" "lit ''run'' \<noteq> []" "length (lit ''token'') = 5" by (simp_all add: lit_def)
  then show ?thesis
    by (simp add: admit_candidate_def c sample_key_of compare_claims_def requires_proposal_def
        is_model_produced_def candidate_bounds)
qed

theorem admission_bounds_witness:
  "mts_confidence (admitted_values sample_candidate sample_candidate_context sample_key) = Unverified
   \<and> mts_entities (admitted_values sample_candidate sample_candidate_context sample_key) \<noteq> []"
proof -
  have "is_model_produced (mts_source_kind (admitted_values sample_candidate sample_candidate_context sample_key))"
    by (simp add: admitted_values_def Let_def sample_candidate_def is_model_produced_def)
  with admission_bounds [OF sample_admitted, of "admitted_values sample_candidate sample_candidate_context sample_key"]
  show ?thesis by (metis to_store.simps(2))
qed

theorem admission_decides_witness:
  "requires_proposal (cand_classification sample_candidate)"
  using admission_decides [OF sample_admitted] by (simp add: is_proposal_def)

theorem duplicates_share_key_witness:
  "MemorySearchKey_new is_ascii_alphanumeric ascii_lower Semantic [] (lit ''Likes  tea'')
    = MemorySearchKey_new is_ascii_alphanumeric ascii_lower Semantic [] (lit ''tea likes'')"
proof (rule duplicates_share_key)
  show "normalized_equal (lit ''Likes  tea'') (lit ''tea likes'')"
    by (simp add: normalized_equal_def normalized_words_def ascii_eval)
qed (auto simp: ascii_eval)

text \<open>The converse of \<open>duplicates_share_key\<close> fails: the key drops punctuation and the comparison does
  not, so a re-statement that differs in a full stop has the key of the stored claim and is compared as
  a correction of it.\<close>

theorem punctuation_is_a_correction:
  "MemorySearchKey_new is_ascii_alphanumeric ascii_lower Semantic es (lit ''likes tea.'')
    = MemorySearchKey_new is_ascii_alphanumeric ascii_lower Semantic es (lit ''likes tea'')"
  "mem_content m = lit ''likes tea''
    \<Longrightarrow> compare_claims (Some m) (lit ''likes tea.'') s = Compare_Correction (mem_id m)"
proof -
  have "map (normalize_word is_ascii_alphanumeric ascii_lower) (split_whitespace [] (lit ''likes tea.''))
      = map (normalize_word is_ascii_alphanumeric ascii_lower) (split_whitespace [] (lit ''likes tea''))"
    by (simp add: normalize_word_def ascii_eval)
  then show "MemorySearchKey_new is_ascii_alphanumeric ascii_lower Semantic es (lit ''likes tea.'')
    = MemorySearchKey_new is_ascii_alphanumeric ascii_lower Semantic es (lit ''likes tea'')"
    by (intro search_key_sets) simp_all
  have "\<not> normalized_equal (lit ''likes tea'') (lit ''likes tea.'')"
    by (simp add: normalized_equal_def normalized_words_def ascii_eval)
  then show "compare_claims (Some m) (lit ''likes tea.'') s = Compare_Correction (mem_id m)"
    if "mem_content m = lit ''likes tea''" using that by (simp add: compare_claims_def)
qed

end
