(* ===== verification/Memory_Store.thy ===== *)
theory Memory_Store
  imports Memory_Candidate Tool_Call_Store
begin

text \<open>
  The durable store of memories (\<open>jarvis-storage/src/memory_repository.rs\<close> with
  \<open>memory_correction_repository.rs\<close>, migrations \<open>0009_memories.sql\<close> and \<open>0011_memory_admission.sql\<close>):
  memories, their entity links, deletion tombstones, entities, aliases and relations, as tables of
  rows with the \<open>CHECK\<close> clauses, unique indexes and foreign keys of the migrations. Identifiers and
  instants are kept as values, since their text form reads back unchanged. SHA-256 is an argument;
  so are the identifiers the code draws at random and the rows of the workspace and run tables.
\<close>

section \<open>Vocabularies\<close>

datatype EntityKind = Person | Organization | Project | Ent_Document | Account | Device | Location
  | Ent_Event | Ent_Task | Ent_Conversation

fun EntityKind_as_str :: "EntityKind \<Rightarrow> rstr" where
  "EntityKind_as_str Person = lit ''person''"
| "EntityKind_as_str Organization = lit ''organization''"
| "EntityKind_as_str Project = lit ''project''"
| "EntityKind_as_str Ent_Document = lit ''document''"
| "EntityKind_as_str Account = lit ''account''"
| "EntityKind_as_str Device = lit ''device''"
| "EntityKind_as_str Location = lit ''location''"
| "EntityKind_as_str Ent_Event = lit ''event''"
| "EntityKind_as_str Ent_Task = lit ''task''"
| "EntityKind_as_str Ent_Conversation = lit ''conversation''"

definition EntityKind_all :: "EntityKind list" where
  "EntityKind_all = [Person, Organization, Project, Ent_Document, Account, Device, Location, Ent_Event,
     Ent_Task, Ent_Conversation]"

datatype MemoryStoreError =
    InvalidMemoryRequest rstr
  | MemoryTombstoned
  | MemoryDuplicate ident
  | MemoryNotFound
  | StoredMemoryInvalid rstr
  | MemoryConflict
  | InvalidMemoryStatus rstr rstr
  | EntityNotFound
  | InvalidEntityMerge rstr
  | AliasAlreadyVerified ident
  | Mem_Sqlite rstr

definition EntityKind_from_str :: "rstr \<Rightarrow> MemoryStoreError + EntityKind" where
  "EntityKind_from_str s =
     (if s = lit ''person'' then Ok Person
      else if s = lit ''organization'' then Ok Organization
      else if s = lit ''project'' then Ok Project
      else if s = lit ''document'' then Ok Ent_Document
      else if s = lit ''account'' then Ok Account
      else if s = lit ''device'' then Ok Device
      else if s = lit ''location'' then Ok Location
      else if s = lit ''event'' then Ok Ent_Event
      else if s = lit ''task'' then Ok Ent_Task
      else if s = lit ''conversation'' then Ok Ent_Conversation
      else Err (StoredMemoryInvalid (lit ''kind'')))"

datatype EntityStatus = Ent_Active | Ent_Merged | Ent_Archived | Ent_Deleted

fun EntityStatus_as_str :: "EntityStatus \<Rightarrow> rstr" where
  "EntityStatus_as_str Ent_Active = lit ''active''"
| "EntityStatus_as_str Ent_Merged = lit ''merged''"
| "EntityStatus_as_str Ent_Archived = lit ''archived''"
| "EntityStatus_as_str Ent_Deleted = lit ''deleted''"

definition EntityStatus_from_str :: "rstr \<Rightarrow> MemoryStoreError + EntityStatus" where
  "EntityStatus_from_str s =
     (if s = lit ''active'' then Ok Ent_Active
      else if s = lit ''merged'' then Ok Ent_Merged
      else if s = lit ''archived'' then Ok Ent_Archived
      else if s = lit ''deleted'' then Ok Ent_Deleted
      else Err (StoredMemoryInvalid (lit ''status'')))"

section \<open>Tables\<close>

record memory_row =
  mr_id :: ident
  mr_workspace_id :: ident
  mr_memory_type :: rstr
  mr_content :: rstr
  mr_claim_subject :: "rstr option"
  mr_claim_predicate :: "rstr option"
  mr_claim_object :: "rstr option"
  mr_source_kind :: rstr
  mr_source_locator :: rstr
  mr_source_trust :: rstr
  mr_source_excerpt_hash :: "rstr option"
  mr_confidence :: rstr
  mr_importance :: int
  mr_sensitivity :: rstr
  mr_search_key :: "rstr option"
  mr_status :: rstr
  mr_valid_from :: instant
  mr_valid_until :: "instant option"
  mr_supersedes :: "ident option"
  mr_superseded_by :: "ident option"
  mr_run_id :: "ident option"
  mr_created_by :: rstr
  mr_correlation_id :: ident
  mr_created_at :: instant
  mr_updated_at :: instant
  mr_last_accessed_at :: "instant option"
  mr_retrieval_count :: int
  mr_admitted_by :: "rstr option"
  mr_admitted_at :: "instant option"
  mr_version :: int

record memory_link_row =
  lk_memory_id :: ident
  lk_entity_id :: ident
  lk_matched_by :: rstr

record tombstone_row =
  ts_id :: ident
  ts_workspace_id :: ident
  ts_memory_type :: rstr
  ts_search_key_hash :: rstr
  ts_memory_id :: ident
  ts_deleted_by :: rstr
  ts_correlation_id :: ident
  ts_deleted_at :: instant

record entity_row =
  er_id :: ident
  er_workspace_id :: ident
  er_kind :: rstr
  er_label :: rstr
  er_attributes :: "rstr option"
  er_confidence :: rstr
  er_status :: rstr
  er_merged_into :: "ident option"
  er_created_at :: instant
  er_updated_at :: instant
  er_version :: int

record alias_row =
  ar_id :: ident
  ar_entity_id :: ident
  ar_workspace_id :: ident
  ar_alias_kind :: rstr
  ar_alias_value :: rstr
  ar_normalized :: rstr
  ar_source_kind :: rstr
  ar_verification :: rstr
  ar_confidence :: rstr
  ar_created_at :: instant

record relation_row =
  rr_id :: ident
  rr_workspace_id :: ident
  rr_subject_id :: ident
  rr_predicate :: rstr
  rr_object_id :: ident
  rr_source_kind :: rstr
  rr_source_locator :: rstr
  rr_source_trust :: rstr
  rr_source_excerpt_hash :: "rstr option"
  rr_confidence :: rstr
  rr_sensitivity :: rstr
  rr_status :: rstr
  rr_valid_from :: instant
  rr_valid_until :: "instant option"
  rr_created_by :: rstr
  rr_correlation_id :: ident
  rr_created_at :: instant

record memory_db =
  mdb_memories :: "memory_row list"
  mdb_links :: "memory_link_row list"
  mdb_tombstones :: "tombstone_row list"
  mdb_entities :: "entity_row list"
  mdb_aliases :: "alias_row list"
  mdb_relations :: "relation_row list"

text \<open>The \<open>CHECK\<close> clauses.\<close>

definition source_columns :: "rstr \<Rightarrow> rstr \<Rightarrow> rstr \<Rightarrow> rstr option \<Rightarrow> rstr \<Rightarrow> bool" where
  "source_columns kind locator trust excerpt_hash confidence \<longleftrightarrow>
     chars_between 1 512 locator
     \<and> null_or (hex_glob 64) excerpt_hash
     \<and> ((kind \<in> {lit ''user_statement'', lit ''user_correction'', lit ''provider_record''}
           \<and> trust = lit ''authoritative'')
        \<or> (kind \<in> {lit ''tool_observation'', lit ''document'', lit ''model_inference''}
           \<and> trust = lit ''derived'')
        \<or> (kind = lit ''external_content'' \<and> trust = lit ''untrusted''))
     \<and> confidence \<in> {lit ''unverified'', lit ''uncertain'', lit ''likely'', lit ''confirmed''}
     \<and> (kind \<noteq> lit ''model_inference'' \<or> confidence = lit ''unverified'')"

definition memory_types :: "rstr set" where
  "memory_types = {lit ''working'', lit ''conversation'', lit ''episodic'', lit ''semantic'',
     lit ''preference'', lit ''relationship'', lit ''procedural''}"

definition sensitivities :: "rstr set" where
  "sensitivities = {lit ''public'', lit ''internal'', lit ''confidential'', lit ''restricted''}"

definition memory_checks :: "memory_row \<Rightarrow> bool" where
  "memory_checks r \<longleftrightarrow>
     length (mr_id r) = 36 \<and> mr_memory_type r \<in> memory_types
     \<and> length (mr_content r) \<le> 4096
     \<and> null_or (chars_between 1 256) (mr_claim_subject r)
     \<and> null_or (chars_between 1 256) (mr_claim_predicate r)
     \<and> null_or (chars_between 1 256) (mr_claim_object r)
     \<and> source_columns (mr_source_kind r) (mr_source_locator r) (mr_source_trust r)
          (mr_source_excerpt_hash r) (mr_confidence r)
     \<and> 0 \<le> mr_importance r \<and> mr_importance r \<le> 4
     \<and> mr_sensitivity r \<in> sensitivities
     \<and> null_or (chars_between 1 512) (mr_search_key r)
     \<and> mr_status r \<in> {lit ''proposed'', lit ''active'', lit ''archived'', lit ''deleted''}
     \<and> chars_between 1 128 (mr_created_by r) \<and> length (mr_correlation_id r) = 36
     \<and> 0 \<le> mr_retrieval_count r \<and> 1 \<le> mr_version r
     \<and> \<not> (mr_source_kind r = lit ''provider_record'' \<and> mr_memory_type r = lit ''preference'')
     \<and> mr_supersedes r \<noteq> Some (mr_id r) \<and> mr_superseded_by r \<noteq> Some (mr_id r)
     \<and> (mr_status r \<noteq> lit ''deleted''
        \<or> mr_content r = [] \<and> mr_claim_subject r = None \<and> mr_search_key r = None)
     \<and> (mr_status r = lit ''deleted'' \<or> mr_content r \<noteq> [])
     \<and> (mr_claim_subject r = None \<and> mr_claim_predicate r = None \<and> mr_claim_object r = None
        \<or> mr_claim_subject r \<noteq> None \<and> mr_claim_predicate r \<noteq> None \<and> mr_claim_object r \<noteq> None)
     \<and> (mr_status r \<noteq> lit ''deleted'' \<or> mr_superseded_by r = None)
     \<and> null_or (chars_between 1 128) (mr_admitted_by r)"

definition matches :: "rstr set" where
  "matches = {lit ''confirmed'', lit ''provider_id'', lit ''exact_identifier'', lit ''probabilistic''}"

definition tombstone_checks :: "tombstone_row \<Rightarrow> bool" where
  "tombstone_checks r \<longleftrightarrow> length (ts_id r) = 36 \<and> ts_memory_type r \<in> memory_types
     \<and> hex_glob 64 (ts_search_key_hash r) \<and> length (ts_memory_id r) = 36
     \<and> chars_between 1 128 (ts_deleted_by r) \<and> length (ts_correlation_id r) = 36"

definition entity_checks :: "entity_row \<Rightarrow> bool" where
  "entity_checks r \<longleftrightarrow> length (er_id r) = 36
     \<and> er_kind r \<in> EntityKind_as_str ` set EntityKind_all
     \<and> chars_between 1 256 (er_label r)
     \<and> null_or (\<lambda>a. 2 \<le> str_len a \<and> str_len a \<le> 8192) (er_attributes r)
     \<and> er_confidence r \<in> {lit ''unverified'', lit ''uncertain'', lit ''likely'', lit ''confirmed''}
     \<and> er_status r \<in> {lit ''active'', lit ''merged'', lit ''archived'', lit ''deleted''}
     \<and> 1 \<le> er_version r
     \<and> (er_status r \<noteq> lit ''merged'' \<or> er_merged_into r \<noteq> None)
     \<and> er_merged_into r \<noteq> Some (er_id r)"

definition alias_checks :: "alias_row \<Rightarrow> bool" where
  "alias_checks r \<longleftrightarrow> length (ar_id r) = 36
     \<and> ar_alias_kind r \<in> {lit ''name'', lit ''email'', lit ''handle'', lit ''phone'', lit ''provider_id'',
          lit ''url'', lit ''other''}
     \<and> chars_between 1 256 (ar_alias_value r) \<and> chars_between 1 256 (ar_normalized r)
     \<and> ar_source_kind r \<in> MemorySourceKind_as_str ` set MemorySourceKind_all
     \<and> ar_verification r \<in> matches
     \<and> ar_confidence r \<in> {lit ''unverified'', lit ''uncertain'', lit ''likely'', lit ''confirmed''}
     \<and> (ar_verification r \<noteq> lit ''confirmed''
        \<or> ar_source_kind r \<in> {lit ''user_statement'', lit ''user_correction''})
     \<and> (ar_verification r \<noteq> lit ''probabilistic'' \<or> ar_confidence r \<noteq> lit ''confirmed'')"

definition relation_checks :: "relation_row \<Rightarrow> bool" where
  "relation_checks r \<longleftrightarrow> length (rr_id r) = 36 \<and> chars_between 1 256 (rr_predicate r)
     \<and> source_columns (rr_source_kind r) (rr_source_locator r) (rr_source_trust r)
          (rr_source_excerpt_hash r) (rr_confidence r)
     \<and> rr_sensitivity r \<in> sensitivities
     \<and> rr_status r \<in> {lit ''proposed'', lit ''active'', lit ''archived'', lit ''deleted''}
     \<and> chars_between 1 128 (rr_created_by r) \<and> length (rr_correlation_id r) = 36
     \<and> rr_subject_id r \<noteq> rr_object_id r
     \<and> (rr_status r \<noteq> lit ''deleted'' \<or> rr_predicate r = [])
     \<and> (rr_status r = lit ''deleted'' \<or> rr_predicate r \<noteq> [])"

section \<open>Decoding\<close>

fun invalid_memory_field :: "InvalidMemory \<Rightarrow> rstr" where
  "invalid_memory_field Mem_Content = lit ''content''"
| "invalid_memory_field Mem_StructuredClaim = lit ''structured_claim''"
| "invalid_memory_field Mem_Source = lit ''source''"
| "invalid_memory_field SourceExcerptHash = lit ''source_excerpt_hash''"
| "invalid_memory_field Mem_Entities = lit ''entities''"
| "invalid_memory_field SearchKey = lit ''search_key''"
| "invalid_memory_field ClaimPart = lit ''structured_claim''"
| "invalid_memory_field Validity = lit ''valid_until''"
| "invalid_memory_field UnknownConfidence = lit ''confidence''"
| "invalid_memory_field UnknownType = lit ''memory_type''"
| "invalid_memory_field UnknownStatus = lit ''status''"
| "invalid_memory_field UnknownSourceKind = lit ''source_kind''"
| "invalid_memory_field UnknownTrust = lit ''source_trust''"
| "invalid_memory_field EntityReference = lit ''entity_id''"
| "invalid_memory_field SupersedesMissing = lit ''supersedes_memory_id''"
| "invalid_memory_field SupersedesSelf = lit ''supersedes_memory_id''"
| "invalid_memory_field AlreadyDeleted = lit ''status''"
| "invalid_memory_field DeletedRetainsText = lit ''content''"
| "invalid_memory_field (IllegalStatus _ _) = lit ''status''"
| "invalid_memory_field Mem_ApproverUnusable = lit ''admitted_by_actor_id''"
| "invalid_memory_field AdmissionInconsistent = lit ''admitted_at''"

definition memory_error :: "InvalidMemory \<Rightarrow> MemoryStoreError" where
  "memory_error e = InvalidMemoryRequest (invalid_memory_field e)"

definition stored_invalid :: "string \<Rightarrow> 'e + 'a \<Rightarrow> MemoryStoreError + 'a" where
  "stored_invalid field r = map_err (\<lambda>_. StoredMemoryInvalid (lit field)) r"

text \<open>A \<open>NOT NULL\<close> read of a nullable column.\<close>

definition text_column :: "string \<Rightarrow> rstr option \<Rightarrow> MemoryStoreError + rstr" where
  "text_column field v = ok_or v (StoredMemoryInvalid (lit field))"

definition claim_of_row :: "memory_row \<Rightarrow> MemoryStoreError + StructuredClaim option" where
  "claim_of_row row =
     (case mr_claim_subject row of
        None \<Rightarrow> Ok None
      | Some subject \<Rightarrow>
          and_then (text_column ''claim_predicate'' (mr_claim_predicate row)) (\<lambda>predicate.
          and_then (text_column ''claim_object'' (mr_claim_object row)) (\<lambda>object.
            map_ok Some (stored_invalid ''structured_claim'' (StructuredClaim_new subject predicate object)))))"

definition read_memory_fields :: "memory_row \<Rightarrow> MemoryStoreError + MemoryRecordParts \<times> StoredMemoryState" where
  "read_memory_fields row =
     and_then (stored_invalid ''memory_type'' (MemoryType_from_str (mr_memory_type row))) (\<lambda>memory_type.
     and_then (claim_of_row row) (\<lambda>structured_claim.
     and_then (stored_invalid ''source_kind'' (MemorySourceKind_from_str (mr_source_kind row))) (\<lambda>source_kind.
     and_then (stored_invalid ''source_trust'' (MemoryTrust_from_str (mr_source_trust row))) (\<lambda>source_trust.
     and_then (stored_invalid ''source_kind''
         (MemorySource_new source_kind (mr_source_locator row) source_trust (mr_source_excerpt_hash row))) (\<lambda>source.
     and_then (stored_invalid ''confidence'' (MemoryConfidence_from_str (mr_confidence row))) (\<lambda>confidence.
     and_then (stored_invalid ''sensitivity'' (Sensitivity_from_str (mr_sensitivity row))) (\<lambda>sensitivity.
     and_then (stored_invalid ''status'' (MemoryStatus_from_str (mr_status row))) (\<lambda>status.
       Ok (\<lparr>mp_id = mr_id row, mp_workspace_id = mr_workspace_id row, mp_type = memory_type,
            mp_content = mr_content row, mp_claim = structured_claim, mp_source = source,
            mp_confidence = confidence,
            mp_importance = (if 0 \<le> mr_importance row \<and> mr_importance row < 256 then nat (mr_importance row)
                             else MAX_MEMORY_IMPORTANCE),
            mp_sensitivity = sensitivity, mp_entities = [], mp_valid_from = Some (mr_valid_from row),
            mp_valid_until = mr_valid_until row, mp_supersedes = mr_supersedes row,
            mp_run_id = mr_run_id row, mp_created_by = mr_created_by row,
            mp_correlation_id = mr_correlation_id row, mp_created_at = mr_created_at row\<rparr>,
           \<lparr>ms_status = status, ms_superseded_by = mr_superseded_by row, ms_updated_at = mr_updated_at row,
            ms_last_accessed_at = mr_last_accessed_at row,
            ms_retrieval_count = (if 0 \<le> mr_retrieval_count row \<and> mr_retrieval_count row < 2 ^ 32
                                  then of_int (mr_retrieval_count row) else - 1),
            ms_admitted_by = mr_admitted_by row, ms_admitted_at = mr_admitted_at row\<rparr>)))))))))"

definition decode_memory :: "memory_row \<Rightarrow> MemoryStoreError + MemoryRecord" where
  "decode_memory row =
     and_then (read_memory_fields row) (\<lambda>(parts, state).
       map_err (\<lambda>e. StoredMemoryInvalid (invalid_memory_field e)) (MemoryRecord_from_stored parts state))"

record StoredMemory =
  sm_record :: MemoryRecord
  sm_search_key :: "rstr option"
  sm_version :: int

definition decode_stored_memory :: "memory_row \<Rightarrow> MemoryStoreError + StoredMemory" where
  "decode_stored_memory row =
     and_then (decode_memory row) (\<lambda>record.
       Ok \<lparr>sm_record = record, sm_search_key = mr_search_key row, sm_version = mr_version row\<rparr>)"

definition decode_link :: "memory_link_row \<Rightarrow> MemoryStoreError + EntityRef" where
  "decode_link l = map_ok (\<lambda>m. \<lparr>ent_id = lk_entity_id l, ent_matched_by = m\<rparr>)
     (stored_invalid ''matched_by'' (EntityMatch_from_str (lk_matched_by l)))"

definition load_linked_entities :: "memory_db \<Rightarrow> MemoryRecord \<Rightarrow> MemoryStoreError + MemoryRecord" where
  "load_linked_entities db record =
     map_ok (replace_entities record)
       (collect_results decode_link
          (sort_key lk_entity_id (filter (\<lambda>l. lk_memory_id l = mem_id record) (mdb_links db))))"

definition load_links :: "memory_db \<Rightarrow> StoredMemory \<Rightarrow> MemoryStoreError + StoredMemory" where
  "load_links db stored =
     map_ok (\<lambda>record. stored\<lparr>sm_record := record\<rparr>) (load_linked_entities db (sm_record stored))"

definition attach_entity_links :: "memory_db \<Rightarrow> StoredMemory list \<Rightarrow> MemoryStoreError + StoredMemory list" where
  "attach_entity_links db memories = collect_results (load_links db) memories"

section \<open>Reading memories\<close>

definition find_memory :: "memory_db \<Rightarrow> ident \<Rightarrow> MemoryStoreError + StoredMemory" where
  "find_memory db mid =
     and_then (ok_or (find (\<lambda>r. mr_id r = mid) (mdb_memories db)) MemoryNotFound) (\<lambda>row.
     and_then (decode_memory row) (\<lambda>record.
     and_then (load_linked_entities db record) (\<lambda>record.
       Ok \<lparr>sm_record = record, sm_search_key = mr_search_key row, sm_version = mr_version row\<rparr>)))"

definition find_memory_including_deleted :: "memory_db \<Rightarrow> ident \<Rightarrow> MemoryStoreError + StoredMemory" where
  "find_memory_including_deleted db mid =
     (case find (\<lambda>r. mr_id r = mid) (mdb_memories db) of
        None \<Rightarrow> Err MemoryNotFound
      | Some row \<Rightarrow>
          and_then (decode_stored_memory row) (\<lambda>stored.
          and_then (load_linked_entities db (sm_record stored)) (\<lambda>record.
            Ok (stored\<lparr>sm_record := record\<rparr>))))"

definition find_memory_id_by_key :: "memory_db \<Rightarrow> ident \<Rightarrow> rstr \<Rightarrow> ident option" where
  "find_memory_id_by_key db workspace_id search_key =
     map_option mr_id (find (\<lambda>r. mr_workspace_id r = workspace_id \<and> mr_search_key r = Some search_key)
                          (mdb_memories db))"

text \<open>\<open>unixepoch(created_at)\<close>: whole seconds. \<open>ORDER BY unixepoch(created_at) DESC, id DESC\<close>.\<close>

definition unixepoch :: "instant \<Rightarrow> int" where
  "unixepoch t = t div 1000000000"

definition newest_memories :: "memory_row list \<Rightarrow> memory_row list" where
  "newest_memories rows = rev (sort_key (\<lambda>r. (unixepoch (mr_created_at r), mr_id r)) rows)"

text \<open>The statements without \<open>OFFSET\<close> skip nothing.\<close>

definition read_memories ::
  "memory_db \<Rightarrow> (memory_row \<Rightarrow> bool) \<Rightarrow> nat \<Rightarrow> nat \<Rightarrow> MemoryStoreError + StoredMemory list" where
  "read_memories db selected limit offset =
     and_then (collect_results decode_stored_memory
                 (take limit (drop offset (newest_memories (filter selected (mdb_memories db))))))
       (attach_entity_links db)"

definition read_workspace_memories :: "memory_db \<Rightarrow> ident \<Rightarrow> nat \<Rightarrow> MemoryStoreError + StoredMemory list" where
  "read_workspace_memories db workspace_id limit =
     read_memories db (\<lambda>r. mr_workspace_id r = workspace_id \<and> mr_status r \<noteq> lit ''deleted'') limit 0"

definition TASK_LIKE_PREDICATES :: "rstr list" where
  "TASK_LIKE_PREDICATES = [lit ''objective'', lit ''current_objective'', lit ''pending_call'',
     lit ''planned_step'', lit ''plan'', lit ''next_action'']"

definition retrievable :: "ident \<Rightarrow> memory_row \<Rightarrow> bool" where
  "retrievable workspace_id r \<longleftrightarrow>
     mr_workspace_id r = workspace_id \<and> mr_status r = lit ''active''
     \<and> mr_source_kind r \<noteq> lit ''model_inference''
     \<and> (case mr_claim_predicate r of
          None \<Rightarrow> True
        | Some p \<Rightarrow> map to_ascii_lowercase p \<notin> set TASK_LIKE_PREDICATES)"

definition read_retrievable_memories :: "memory_db \<Rightarrow> ident \<Rightarrow> nat \<Rightarrow> MemoryStoreError + StoredMemory list" where
  "read_retrievable_memories db workspace_id limit = read_memories db (retrievable workspace_id) limit 0"

definition read_entity_memories ::
  "memory_db \<Rightarrow> ident \<Rightarrow> ident \<Rightarrow> nat \<Rightarrow> MemoryStoreError + StoredMemory list" where
  "read_entity_memories db workspace_id entity_id limit =
     read_memories db (\<lambda>r. mr_workspace_id r = workspace_id
       \<and> list_ex (\<lambda>l. lk_memory_id l = mr_id r \<and> lk_entity_id l = entity_id) (mdb_links db)
       \<and> mr_status r \<noteq> lit ''deleted'') limit 0"

definition read_all_memories ::
  "memory_db \<Rightarrow> ident \<Rightarrow> nat \<Rightarrow> nat \<Rightarrow> MemoryStoreError + StoredMemory list" where
  "read_all_memories db workspace_id limit offset =
     read_memories db (\<lambda>r. mr_workspace_id r = workspace_id) limit offset"

definition count_memory_entity_links :: "memory_db \<Rightarrow> ident \<Rightarrow> MemoryStoreError + nat" where
  "count_memory_entity_links db mid =
     (let total = length (filter (\<lambda>l. lk_memory_id l = mid) (mdb_links db)) in
      if total < 2 ^ 32 then Ok total else Err (StoredMemoryInvalid (lit ''memory_entities_count'')))"

definition count_entity_memory_links :: "memory_db \<Rightarrow> ident \<Rightarrow> nat" where
  "count_entity_memory_links db eid =
     (let total = length (filter (\<lambda>l. lk_entity_id l = eid) (mdb_links db)) in
      if total < 2 ^ 32 then total else 2 ^ 32 - 1)"

section \<open>Tombstones\<close>

definition search_key_hash :: "(rstr \<Rightarrow> byte list) \<Rightarrow> rstr \<Rightarrow> rstr" where
  "search_key_hash sha256 search_key = encode_hex (sha256 search_key)"

definition is_tombstoned :: "(rstr \<Rightarrow> byte list) \<Rightarrow> memory_db \<Rightarrow> ident \<Rightarrow> rstr \<Rightarrow> bool" where
  "is_tombstoned sha256 db workspace_id search_key \<longleftrightarrow>
     list_ex (\<lambda>t. ts_workspace_id t = workspace_id \<and> ts_search_key_hash t = search_key_hash sha256 search_key)
       (mdb_tombstones db)"

text \<open>The insert into the tombstone table, \<open>ON CONFLICT (workspace_id, search_key_hash) DO NOTHING\<close>,
  shared by the two writers below; its workspace is that of a row that is there.\<close>

definition insert_tombstone :: "memory_db \<Rightarrow> tombstone_row \<Rightarrow> memory_db \<times> (MemoryStoreError + unit)" where
  "insert_tombstone db row =
     (if \<not> tombstone_checks row then (db, Err (Mem_Sqlite (lit ''record a memory tombstone'')))
      else if list_ex (\<lambda>t. ts_workspace_id t = ts_workspace_id row
                 \<and> ts_search_key_hash t = ts_search_key_hash row) (mdb_tombstones db) then (db, Ok ())
      else if list_ex (\<lambda>t. ts_id t = ts_id row) (mdb_tombstones db)
      then (db, Err (Mem_Sqlite (lit ''record a memory tombstone'')))
      else (db\<lparr>mdb_tombstones := mdb_tombstones db @ [row]\<rparr>, Ok ()))"

definition record_tombstone ::
  "(rstr \<Rightarrow> byte list) \<Rightarrow> ident \<Rightarrow> memory_db \<Rightarrow> MemoryRecord \<Rightarrow> rstr \<Rightarrow> instant
    \<Rightarrow> memory_db \<times> (MemoryStoreError + unit)" where
  "record_tombstone sha256 fresh db memory search_key at =
     insert_tombstone db \<lparr>ts_id = fresh, ts_workspace_id = mem_workspace_id memory,
       ts_memory_type = MemoryType_as_str (mem_type memory),
       ts_search_key_hash = search_key_hash sha256 search_key, ts_memory_id = mem_id memory,
       ts_deleted_by = mem_created_by memory, ts_correlation_id = mem_correlation_id memory,
       ts_deleted_at = at\<rparr>"

definition write_tombstone_on ::
  "(rstr \<Rightarrow> byte list) \<Rightarrow> ident \<Rightarrow> memory_db \<Rightarrow> memory_row \<Rightarrow> ident \<Rightarrow> instant
    \<Rightarrow> memory_db \<times> (MemoryStoreError + unit)" where
  "write_tombstone_on sha256 fresh db row mid at =
     (case mr_search_key row of
        None \<Rightarrow> (db, Ok ())
      | Some search_key \<Rightarrow>
          insert_tombstone db \<lparr>ts_id = fresh, ts_workspace_id = mr_workspace_id row,
            ts_memory_type = mr_memory_type row, ts_search_key_hash = search_key_hash sha256 search_key,
            ts_memory_id = mid, ts_deleted_by = mr_created_by row,
            ts_correlation_id = mr_correlation_id row, ts_deleted_at = at\<rparr>)"

section \<open>Writing memories\<close>

definition claim_columns :: "StructuredClaim option \<Rightarrow> rstr option \<times> rstr option \<times> rstr option" where
  "claim_columns c =
     (case c of
        Some c \<Rightarrow> (Some (claim_subject c), Some (claim_predicate c), Some (claim_object c))
      | None \<Rightarrow> (None, None, None))"

definition memory_row_of :: "MemoryRecord \<Rightarrow> rstr \<Rightarrow> memory_row" where
  "memory_row_of record search_key =
     (let structured = claim_columns (mem_claim record); source = mem_source record in
      \<lparr>mr_id = mem_id record, mr_workspace_id = mem_workspace_id record,
       mr_memory_type = MemoryType_as_str (mem_type record), mr_content = mem_content record,
       mr_claim_subject = fst structured, mr_claim_predicate = fst (snd structured),
       mr_claim_object = snd (snd structured),
       mr_source_kind = MemorySourceKind_as_str (msrc_kind source), mr_source_locator = msrc_locator source,
       mr_source_trust = MemoryTrust_as_str (msrc_trust source),
       mr_source_excerpt_hash = msrc_excerpt_hash source,
       mr_confidence = MemoryConfidence_as_str (mem_confidence record),
       mr_importance = int (mem_importance record),
       mr_sensitivity = Sensitivity_as_str (mem_sensitivity record), mr_search_key = Some search_key,
       mr_status = MemoryStatus_as_str (mem_status record), mr_valid_from = mem_valid_from record,
       mr_valid_until = mem_valid_until record, mr_supersedes = mem_supersedes record,
       mr_superseded_by = mem_superseded_by record, mr_run_id = mem_run_id record,
       mr_created_by = mem_created_by record, mr_correlation_id = mem_correlation_id record,
       mr_created_at = mem_created_at record, mr_updated_at = mem_created_at record,
       mr_last_accessed_at = mem_last_accessed_at record,
       mr_retrieval_count = uint (mem_retrieval_count record), mr_admitted_by = None, mr_admitted_at = None,
       mr_version = 1\<rparr>)"

text \<open>
  The rows other tables hold: the workspaces and the runs. A memory named by a supersession column
  must be in the table.
\<close>

record parent_rows =
  par_workspace :: "ident \<Rightarrow> bool"
  par_run :: "ident \<Rightarrow> bool"

definition memory_exists :: "memory_db \<Rightarrow> ident \<Rightarrow> bool" where
  "memory_exists db mid = list_ex (\<lambda>r. mr_id r = mid) (mdb_memories db)"

definition memory_parents :: "parent_rows \<Rightarrow> memory_db \<Rightarrow> memory_row \<Rightarrow> bool" where
  "memory_parents parents db row \<longleftrightarrow>
     par_workspace parents (mr_workspace_id row) \<and> null_or (par_run parents) (mr_run_id row)
     \<and> null_or (memory_exists db) (mr_supersedes row) \<and> null_or (memory_exists db) (mr_superseded_by row)"

definition insert_memory_on ::
  "parent_rows \<Rightarrow> memory_db \<Rightarrow> MemoryRecord \<Rightarrow> rstr \<Rightarrow> memory_db \<times> (MemoryStoreError + nat)" where
  "insert_memory_on parents db record search_key =
     (let row = memory_row_of record search_key in
      if \<not> memory_checks row then (db, Err (Mem_Sqlite (lit ''record a memory'')))
      else if list_ex (\<lambda>r. mr_workspace_id r = mr_workspace_id row \<and> mr_search_key r = Some search_key)
                (mdb_memories db) then (db, Ok 0)
      else if memory_exists db (mr_id row) \<or> \<not> memory_parents parents db row
      then (db, Err (Mem_Sqlite (lit ''record a memory'')))
      else (db\<lparr>mdb_memories := mdb_memories db @ [row]\<rparr>, Ok 1))"

text \<open>The \<open>CASE\<close> of the link upsert: the weaker of the two bases.\<close>

definition weaker_link :: "rstr \<Rightarrow> rstr \<Rightarrow> rstr" where
  "weaker_link excluded current =
     (if excluded = lit ''probabilistic'' then lit ''probabilistic''
      else if current = lit ''probabilistic'' then lit ''probabilistic''
      else if excluded = lit ''exact_identifier'' then lit ''exact_identifier''
      else if current = lit ''exact_identifier'' then lit ''exact_identifier''
      else if excluded = lit ''provider_id'' then lit ''provider_id''
      else if current = lit ''provider_id'' then lit ''provider_id''
      else current)"

definition link_memory_entity_on ::
  "memory_db \<Rightarrow> ident \<Rightarrow> EntityRef \<Rightarrow> memory_db \<times> (MemoryStoreError + unit)" where
  "link_memory_entity_on db mid entity =
     (let matched = EntityMatch_as_str (ent_matched_by entity);
          hit = (\<lambda>l. lk_memory_id l = mid \<and> lk_entity_id l = ent_id entity)
      in if list_ex hit (mdb_links db)
         then (db\<lparr>mdb_links := sql_update hit
                 (\<lambda>l. l\<lparr>lk_matched_by := weaker_link matched (lk_matched_by l)\<rparr>) (mdb_links db)\<rparr>, Ok ())
         else if \<not> memory_exists db mid \<or> \<not> list_ex (\<lambda>e. er_id e = ent_id entity) (mdb_entities db)
         then (db, Err (Mem_Sqlite (lit ''link a memory to an entity'')))
         else (db\<lparr>mdb_links := mdb_links db @
                 [\<lparr>lk_memory_id = mid, lk_entity_id = ent_id entity, lk_matched_by = matched\<rparr>]\<rparr>, Ok ()))"

fun link_entities ::
  "memory_db \<Rightarrow> ident \<Rightarrow> EntityRef list \<Rightarrow> memory_db \<times> (MemoryStoreError + unit)" where
  "link_entities db mid [] = (db, Ok ())"
| "link_entities db mid (entity # entities) =
     (case link_memory_entity_on db mid entity of
        (db', Inl e) \<Rightarrow> (db', Err e)
      | (db', Inr _) \<Rightarrow> link_entities db' mid entities)"

text \<open>
  \<open>record_memory\<close> checks the tombstone and then inserts; the two are separate statements, so the
  rest is a definition of its own, on the database as it is by then.
\<close>

definition write_memory ::
  "parent_rows \<Rightarrow> memory_db \<Rightarrow> MemoryRecord \<Rightarrow> rstr \<Rightarrow> memory_db \<times> (MemoryStoreError + ident)" where
  "write_memory parents db record search_key =
     (case insert_memory_on parents db record search_key of
        (db', Inl e) \<Rightarrow> (db', Err e)
      | (db', Inr affected) \<Rightarrow>
          if affected = 0
          then (db', and_then (ok_or (find_memory_id_by_key db' (mem_workspace_id record) search_key)
                                 (Mem_Sqlite (lit ''resolve a memory duplicate''))) (\<lambda>existing.
                       Err (MemoryDuplicate existing)))
          else (case link_entities db' (mem_id record) (mem_entities record) of
                  (db'', Inl e) \<Rightarrow> (db'', Err e)
                | (db'', Inr _) \<Rightarrow> (db'', Ok (mem_id record))))"

definition record_memory ::
  "(rstr \<Rightarrow> byte list) \<Rightarrow> parent_rows \<Rightarrow> memory_db \<Rightarrow> MemoryRecord \<Rightarrow> rstr
    \<Rightarrow> memory_db \<times> (MemoryStoreError + ident)" where
  "record_memory sha256 parents db record search_key =
     (if is_tombstoned sha256 db (mem_workspace_id record) search_key then (db, Err MemoryTombstoned)
      else write_memory parents db record search_key)"

section \<open>Reinforcing, transitions\<close>

definition write_reinforcement ::
  "memory_db \<Rightarrow> ident \<Rightarrow> StoredMemory \<Rightarrow> instant \<Rightarrow> memory_db \<times> (MemoryStoreError + StoredMemory)" where
  "write_reinforcement db mid existing at =
     (if MemoryStatus_is_terminal (mem_status (sm_record existing))
      then (db, Err (InvalidMemoryStatus (MemoryStatus_as_str (mem_status (sm_record existing)))
                       (lit ''reinforced'')))
      else
        let hit = (\<lambda>r. mr_id r = mid \<and> mr_version r = sm_version existing \<and> mr_status r \<noteq> lit ''deleted'');
            db' = db\<lparr>mdb_memories := sql_update hit (\<lambda>r. r\<lparr>mr_last_accessed_at := Some at,
                      mr_retrieval_count := mr_retrieval_count r + 1, mr_version := mr_version r + 1\<rparr>)
                      (mdb_memories db)\<rparr>
        in if rows_affected hit (mdb_memories db) = 0 then (db, Err MemoryConflict)
           else (db', find_memory db' mid))"

definition reinforce_memory ::
  "memory_db \<Rightarrow> ident \<Rightarrow> instant \<Rightarrow> memory_db \<times> (MemoryStoreError + StoredMemory)" where
  "reinforce_memory db mid at =
     (case find_memory db mid of
        Inl e \<Rightarrow> (db, Err e)
      | Inr existing \<Rightarrow> write_reinforcement db mid existing at)"

datatype MemoryTransition = Trans_Confirm rstr | Trans_Archive | Trans_Delete | Trans_ReplaceWith ident

fun transition_record :: "MemoryTransition \<Rightarrow> MemoryRecord \<Rightarrow> instant \<Rightarrow> InvalidMemory + MemoryRecord" where
  "transition_record (Trans_Confirm approver) m at = confirm_by m approver at"
| "transition_record Trans_Archive m at = memory_archive m at"
| "transition_record Trans_Delete m at = memory_delete m at"
| "transition_record (Trans_ReplaceWith replacement) m at = replace_with m replacement at"

text \<open>The \<open>SET\<close> clause.\<close>

definition transition_row :: "MemoryRecord \<Rightarrow> rstr option \<Rightarrow> memory_row \<Rightarrow> memory_row" where
  "transition_row next search_key row =
     (let claim = claim_columns (mem_claim next) in
      row\<lparr>mr_status := MemoryStatus_as_str (mem_status next), mr_content := mem_content next,
          mr_claim_subject := fst claim, mr_claim_predicate := fst (snd claim),
          mr_claim_object := snd (snd claim), mr_search_key := search_key,
          mr_superseded_by := mem_superseded_by next, mr_updated_at := mem_updated_at next,
          mr_admitted_by := mem_admitted_by next, mr_admitted_at := mem_admitted_at next,
          mr_version := mr_version row + 1\<rparr>)"

text \<open>
  After the read: the domain's transition, the guarded \<open>UPDATE\<close>, and then, as a statement of its
  own, the tombstone of a deletion.
\<close>

definition write_transition ::
  "(rstr \<Rightarrow> byte list) \<Rightarrow> ident \<Rightarrow> memory_db \<Rightarrow> ident \<Rightarrow> StoredMemory \<Rightarrow> MemoryTransition \<Rightarrow> instant
    \<Rightarrow> memory_db \<times> (MemoryStoreError + StoredMemory)" where
  "write_transition sha256 fresh db mid existing transition at =
     (case map_err memory_error (transition_record transition (sm_record existing) at) of
        Inl e \<Rightarrow> (db, Err e)
      | Inr next \<Rightarrow>
          let search_key = (if mem_status next = Mem_Deleted then None else sm_search_key existing);
              hit = (\<lambda>r. mr_id r = mid \<and> mr_version r = sm_version existing);
              written = map (transition_row next search_key) (filter hit (mdb_memories db));
              db' = db\<lparr>mdb_memories := sql_update hit (transition_row next search_key) (mdb_memories db)\<rparr>
          in if \<not> list_all memory_checks written \<or> \<not> list_all (\<lambda>r. null_or (memory_exists db) (mr_superseded_by r)) written
             then (db, Err (Mem_Sqlite (lit ''apply a memory transition'')))
             else if rows_affected hit (mdb_memories db) = 0 then (db, Err MemoryConflict)
             else (case (if mem_status next = Mem_Deleted then sm_search_key existing else None) of
                     Some key \<Rightarrow>
                       (case record_tombstone sha256 fresh db' (sm_record existing) key at of
                          (db'', Inl e) \<Rightarrow> (db'', Err e)
                        | (db'', Inr _) \<Rightarrow> (db'', find_memory db'' mid))
                   | None \<Rightarrow> (db', find_memory db' mid)))"

definition apply_memory_transition ::
  "(rstr \<Rightarrow> byte list) \<Rightarrow> ident \<Rightarrow> memory_db \<Rightarrow> ident \<Rightarrow> MemoryTransition \<Rightarrow> instant
    \<Rightarrow> memory_db \<times> (MemoryStoreError + StoredMemory)" where
  "apply_memory_transition sha256 fresh db mid transition at =
     (case find_memory db mid of
        Inl e \<Rightarrow> (db, Err e)
      | Inr existing \<Rightarrow> write_transition sha256 fresh db mid existing transition at)"

section \<open>Purging and replacing, in one transaction\<close>

text \<open>Deleting a memory removes its links and clears the columns that named it.\<close>

definition delete_memory_row :: "memory_db \<Rightarrow> ident \<Rightarrow> memory_db" where
  "delete_memory_row db mid =
     db\<lparr>mdb_memories := map (\<lambda>r. r\<lparr>mr_supersedes := (if mr_supersedes r = Some mid then None else mr_supersedes r),
                               mr_superseded_by := (if mr_superseded_by r = Some mid then None else mr_superseded_by r)\<rparr>)
                         (filter (\<lambda>r. mr_id r \<noteq> mid) (mdb_memories db)),
        mdb_links := filter (\<lambda>l. lk_memory_id l \<noteq> mid) (mdb_links db)\<rparr>"

definition purge_memory ::
  "(rstr \<Rightarrow> byte list) \<Rightarrow> ident \<Rightarrow> memory_db \<Rightarrow> ident \<Rightarrow> int \<Rightarrow> bool \<Rightarrow> instant
    \<Rightarrow> memory_db \<times> (MemoryStoreError + unit)" where
  "purge_memory sha256 fresh db mid expected_version allow_relearn at =
     (case find (\<lambda>r. mr_id r = mid) (mdb_memories db) of
        None \<Rightarrow> (db, Err MemoryNotFound)
      | Some row \<Rightarrow>
          if mr_version row \<noteq> expected_version then (db, Err MemoryConflict)
          else (case (if allow_relearn
                      then (db\<lparr>mdb_tombstones := filter (\<lambda>t. ts_memory_id t \<noteq> mid) (mdb_tombstones db)\<rparr>, Ok ())
                      else write_tombstone_on sha256 fresh db row mid at) of
                  (_, Inl e) \<Rightarrow> (db, Err e)
                | (db', Inr _) \<Rightarrow>
                    if rows_affected (\<lambda>r. mr_id r = mid \<and> mr_version r = expected_version) (mdb_memories db') = 0
                    then (db', Err MemoryConflict)
                    else (delete_memory_row db' mid, Ok ())))"

text \<open>The \<open>SET\<close> and the \<open>WHERE\<close> clause of the update of the original.\<close>

definition replaced_row :: "MemoryRecord \<Rightarrow> ident \<Rightarrow> memory_row \<Rightarrow> memory_row" where
  "replaced_row next by_id r = r\<lparr>mr_status := MemoryStatus_as_str (mem_status next),
     mr_superseded_by := Some by_id, mr_updated_at := mem_updated_at next, mr_version := mr_version r + 1\<rparr>"

definition replaceable :: "ident \<Rightarrow> int \<Rightarrow> memory_row \<Rightarrow> bool" where
  "replaceable original_id expected_version r \<longleftrightarrow>
     mr_id r = original_id \<and> mr_version r = expected_version \<and> mr_superseded_by r = None"

text \<open>The writes: the replacement, its links, the original; an error rolls all of them back.\<close>

definition write_replacement ::
  "parent_rows \<Rightarrow> memory_db \<Rightarrow> ident \<Rightarrow> int \<Rightarrow> MemoryRecord \<Rightarrow> rstr \<Rightarrow> MemoryRecord
    \<Rightarrow> memory_db \<times> (MemoryStoreError + unit)" where
  "write_replacement parents db original_id expected_version replacement search_key next =
     (case insert_memory_on parents db replacement search_key of
        (_, Inl e) \<Rightarrow> (db, Err e)
      | (db1, Inr affected) \<Rightarrow>
          if affected = 0
          then (db, and_then (ok_or (find_memory_id_by_key db1 (mem_workspace_id replacement) search_key)
                                (Mem_Sqlite (lit ''replace a memory atomically''))) (\<lambda>existing.
                      Err (MemoryDuplicate existing)))
          else (case link_entities db1 (mem_id replacement) (mem_entities replacement) of
              (_, Inl e) \<Rightarrow> (db, Err e)
            | (db2, Inr _) \<Rightarrow>
                let hit = replaceable original_id expected_version;
                    replaced = replaced_row next (mem_id replacement)
                in if \<not> list_all memory_checks (map replaced (filter hit (mdb_memories db2)))
                   then (db, Err (Mem_Sqlite (lit ''replace a memory atomically'')))
                   else if rows_affected hit (mdb_memories db2) \<noteq> 1 then (db, Err MemoryConflict)
                   else (db2\<lparr>mdb_memories := sql_update hit replaced (mdb_memories db2)\<rparr>, Ok ())))"

definition replace_memory ::
  "(rstr \<Rightarrow> byte list) \<Rightarrow> parent_rows \<Rightarrow> memory_db \<Rightarrow> ident \<Rightarrow> int \<Rightarrow> MemoryRecord \<Rightarrow> rstr \<Rightarrow> instant
    \<Rightarrow> memory_db \<times> (MemoryStoreError + unit)" where
  "replace_memory sha256 parents db original_id expected_version replacement search_key at =
     (case and_then (ok_or (find (\<lambda>r. mr_id r = original_id \<and> mr_workspace_id r = mem_workspace_id replacement)
                              (mdb_memories db)) MemoryNotFound) decode_stored_memory of
        Inl e \<Rightarrow> (db, Err e)
      | Inr original \<Rightarrow>
          if sm_version original \<noteq> expected_version \<or> mem_superseded_by (sm_record original) \<noteq> None
          then (db, Err MemoryConflict)
          else if mem_supersedes replacement \<noteq> Some (mem_id (sm_record original))
          then (db, Err (InvalidMemoryRequest (lit ''supersedes_memory_id'')))
          else (case map_err memory_error (replace_with (sm_record original) (mem_id replacement) at) of
              Inl e \<Rightarrow> (db, Err e)
            | Inr next \<Rightarrow>
                if is_tombstoned sha256 db (mem_workspace_id replacement) search_key
                then (db, Err MemoryTombstoned)
                else write_replacement parents db original_id expected_version replacement search_key next))"

section \<open>Entities\<close>

record StoredEntity =
  se_id :: ident
  se_workspace_id :: ident
  se_kind :: EntityKind
  se_label :: rstr
  se_attributes :: "rstr option"
  se_confidence :: MemoryConfidence
  se_status :: EntityStatus
  se_merged_into :: "ident option"
  se_created_at :: instant
  se_updated_at :: instant
  se_version :: int

definition is_usable :: "StoredEntity \<Rightarrow> bool" where
  "is_usable e \<longleftrightarrow> se_status e = Ent_Active"

record NewEntity =
  ne_id :: ident
  ne_workspace_id :: ident
  ne_kind :: EntityKind
  ne_label :: rstr
  ne_attributes :: "rstr option"
  ne_confidence :: MemoryConfidence
  ne_created_at :: instant

definition decode_entity :: "entity_row \<Rightarrow> MemoryStoreError + StoredEntity" where
  "decode_entity row =
     and_then (EntityKind_from_str (er_kind row)) (\<lambda>kind.
     and_then (stored_invalid ''confidence'' (MemoryConfidence_from_str (er_confidence row))) (\<lambda>confidence.
     and_then (EntityStatus_from_str (er_status row)) (\<lambda>status.
       Ok \<lparr>se_id = er_id row, se_workspace_id = er_workspace_id row, se_kind = kind, se_label = er_label row,
          se_attributes = er_attributes row, se_confidence = confidence, se_status = status,
          se_merged_into = er_merged_into row, se_created_at = er_created_at row,
          se_updated_at = er_updated_at row, se_version = er_version row\<rparr>)))"

definition record_entity ::
  "parent_rows \<Rightarrow> memory_db \<Rightarrow> NewEntity \<Rightarrow> memory_db \<times> (MemoryStoreError + ident)" where
  "record_entity parents db entity =
     (if trim (ne_label entity) = [] \<or> length (ne_label entity) > 256
      then (db, Err (InvalidMemoryRequest (lit ''label'')))
      else
        let row = \<lparr>er_id = ne_id entity, er_workspace_id = ne_workspace_id entity,
              er_kind = EntityKind_as_str (ne_kind entity), er_label = trim (ne_label entity),
              er_attributes = ne_attributes entity,
              er_confidence = MemoryConfidence_as_str (ne_confidence entity), er_status = lit ''active'',
              er_merged_into = None, er_created_at = ne_created_at entity,
              er_updated_at = ne_created_at entity, er_version = 1\<rparr>
        in if \<not> entity_checks row then (db, Err (Mem_Sqlite (lit ''record an entity'')))
           else if list_ex (\<lambda>e. er_id e = ne_id entity) (mdb_entities db) then (db, Ok (ne_id entity))
           else if \<not> par_workspace parents (ne_workspace_id entity)
           then (db, Err (Mem_Sqlite (lit ''record an entity'')))
           else (db\<lparr>mdb_entities := mdb_entities db @ [row]\<rparr>, Ok (ne_id entity)))"

definition find_entity :: "memory_db \<Rightarrow> ident \<Rightarrow> MemoryStoreError + StoredEntity" where
  "find_entity db eid = and_then (ok_or (find (\<lambda>e. er_id e = eid) (mdb_entities db)) EntityNotFound) decode_entity"

definition read_workspace_entities :: "memory_db \<Rightarrow> ident \<Rightarrow> nat \<Rightarrow> MemoryStoreError + StoredEntity list" where
  "read_workspace_entities db workspace_id limit =
     (if limit = 0 then Err (InvalidMemoryRequest (lit ''limit''))
      else collect_results decode_entity
        (take limit (rev (sort_key (\<lambda>e. (unixepoch (er_created_at e), er_id e))
           (filter (\<lambda>e. er_workspace_id e = workspace_id \<and> er_status e = lit ''active'') (mdb_entities db))))))"

text \<open>\<open>COLLATE NOCASE\<close> folds ASCII letters.\<close>

definition read_entities_by_label ::
  "memory_db \<Rightarrow> ident \<Rightarrow> rstr \<Rightarrow> nat \<Rightarrow> MemoryStoreError + StoredEntity list" where
  "read_entities_by_label db workspace_id label limit =
     (let label = trim label in
      if label = [] \<or> limit = 0 then Err (InvalidMemoryRequest (lit ''label''))
      else collect_results decode_entity
        (take limit (sort_key er_id
           (filter (\<lambda>e. er_workspace_id e = workspace_id \<and> er_status e = lit ''active''
              \<and> map to_ascii_lowercase (er_label e) = map to_ascii_lowercase label) (mdb_entities db)))))"

definition merge_row :: "ident \<Rightarrow> instant \<Rightarrow> entity_row \<Rightarrow> entity_row" where
  "merge_row target_id at row = row\<lparr>er_status := lit ''merged'', er_merged_into := Some target_id,
     er_updated_at := at, er_version := er_version row + 1\<rparr>"

text \<open>The checks on the two entities as read, then the guarded write on the database as it is.\<close>

definition write_merge ::
  "memory_db \<Rightarrow> StoredEntity \<Rightarrow> StoredEntity \<Rightarrow> instant \<Rightarrow> memory_db \<times> (MemoryStoreError + StoredEntity)" where
  "write_merge db source target at =
     (if se_workspace_id source \<noteq> se_workspace_id target
      then (db, Err (InvalidEntityMerge (lit ''both entities must belong to one workspace'')))
      else if \<not> is_usable source
      then (db, Err (InvalidEntityMerge (lit ''only an active entity can be merged away'')))
      else if \<not> is_usable target
      then (db, Err (InvalidEntityMerge (lit ''an entity may only be merged into the current winner'')))
      else
        let hit = (\<lambda>e. er_id e = se_id source \<and> er_version e = se_version source \<and> er_status e = lit ''active'');
            db' = db\<lparr>mdb_entities := sql_update hit (merge_row (se_id target) at) (mdb_entities db)\<rparr>
        in if \<not> list_ex (\<lambda>e. er_id e = se_id target) (mdb_entities db)
           then (db, Err (Mem_Sqlite (lit ''merge entities'')))
           else if rows_affected hit (mdb_entities db) = 0
           then (db, Err (InvalidEntityMerge
                  (lit ''the source entity changed before the merge could be recorded'')))
           else (db', find_entity db' (se_id source)))"

definition merge_entities ::
  "memory_db \<Rightarrow> ident \<Rightarrow> ident \<Rightarrow> instant \<Rightarrow> memory_db \<times> (MemoryStoreError + StoredEntity)" where
  "merge_entities db source_id target_id at =
     (if source_id = target_id
      then (db, Err (InvalidEntityMerge (lit ''an entity cannot be merged into itself'')))
      else (case and_then (find_entity db source_id) (\<lambda>source.
                   map_ok (Pair source) (find_entity db target_id)) of
              Inl e \<Rightarrow> (db, Err e)
            | Inr (source, target) \<Rightarrow> write_merge db source target at))"

section \<open>Aliases and relations\<close>

record StoredAlias =
  sal_id :: ident
  sal_entity_id :: ident
  sal_alias_kind :: rstr
  sal_alias_value :: rstr
  sal_normalized :: rstr
  sal_verification :: EntityMatch
  sal_confidence :: MemoryConfidence

definition decode_alias :: "alias_row \<Rightarrow> MemoryStoreError + StoredAlias" where
  "decode_alias row =
     and_then (stored_invalid ''verification'' (EntityMatch_from_str (ar_verification row))) (\<lambda>verification.
     and_then (stored_invalid ''confidence'' (MemoryConfidence_from_str (ar_confidence row))) (\<lambda>confidence.
       Ok \<lparr>sal_id = ar_id row, sal_entity_id = ar_entity_id row, sal_alias_kind = ar_alias_kind row,
          sal_alias_value = ar_alias_value row, sal_normalized = ar_normalized row,
          sal_verification = verification, sal_confidence = confidence\<rparr>))"

text \<open>\<open>str::to_lowercase\<close> is an argument, as in \<open>Isolation\<close>.\<close>

definition normalize_alias :: "(rstr \<Rightarrow> rstr) \<Rightarrow> rstr \<Rightarrow> rstr" where
  "normalize_alias to_lowercase value = to_lowercase (join [32] (split_whitespace [] value))"

definition read_entity_aliases :: "memory_db \<Rightarrow> ident \<Rightarrow> nat \<Rightarrow> MemoryStoreError + StoredAlias list" where
  "read_entity_aliases db eid limit =
     (if limit = 0 then Err (InvalidMemoryRequest (lit ''limit''))
      else collect_results decode_alias
        (take limit (sort_key ar_id (filter (\<lambda>a. ar_entity_id a = eid) (mdb_aliases db)))))"

definition verified_alias :: "ident \<Rightarrow> rstr \<Rightarrow> rstr \<Rightarrow> alias_row \<Rightarrow> bool" where
  "verified_alias workspace_id alias_kind normalized a \<longleftrightarrow>
     ar_workspace_id a = workspace_id \<and> ar_alias_kind a = alias_kind \<and> ar_normalized a = normalized
     \<and> ar_verification a \<noteq> lit ''probabilistic''"

definition read_verified_alias ::
  "memory_db \<Rightarrow> ident \<Rightarrow> rstr \<Rightarrow> rstr \<Rightarrow> MemoryStoreError + StoredAlias option" where
  "read_verified_alias db workspace_id alias_kind normalized =
     (case find (verified_alias workspace_id alias_kind normalized) (mdb_aliases db) of
        Some row \<Rightarrow> map_ok Some (decode_alias row)
      | None \<Rightarrow> Ok None)"

definition resolve_alias ::
  "(rstr \<Rightarrow> rstr) \<Rightarrow> memory_db \<Rightarrow> ident \<Rightarrow> rstr \<Rightarrow> rstr \<Rightarrow> MemoryStoreError + StoredAlias option" where
  "resolve_alias to_lowercase db workspace_id alias_kind alias_value =
     read_verified_alias db workspace_id alias_kind (normalize_alias to_lowercase alias_value)"

definition read_alias_candidates ::
  "(rstr \<Rightarrow> rstr) \<Rightarrow> memory_db \<Rightarrow> ident \<Rightarrow> rstr \<Rightarrow> rstr \<Rightarrow> MemoryStoreError + StoredAlias list" where
  "read_alias_candidates to_lowercase db workspace_id alias_kind alias_value =
     collect_results decode_alias (sort_key ar_id
       (filter (\<lambda>a. ar_workspace_id a = workspace_id \<and> ar_alias_kind a = alias_kind
          \<and> ar_normalized a = normalize_alias to_lowercase alias_value) (mdb_aliases db)))"

definition record_alias ::
  "(rstr \<Rightarrow> rstr) \<Rightarrow> ident \<Rightarrow> memory_db \<Rightarrow> ident \<Rightarrow> rstr \<Rightarrow> rstr \<Rightarrow> EntityMatch \<Rightarrow> MemoryConfidence
    \<Rightarrow> MemorySourceKind \<Rightarrow> instant \<Rightarrow> memory_db \<times> (MemoryStoreError + unit)" where
  "record_alias to_lowercase fresh db eid alias_kind alias_value verification confidence source_kind at =
     (case find_entity db eid of
        Inl e \<Rightarrow> (db, Err e)
      | Inr entity \<Rightarrow>
          let alias_value = trim alias_value in
          if alias_value = [] \<or> length alias_value > 256
          then (db, Err (InvalidMemoryRequest (lit ''alias_value'')))
          else
            let normalized = normalize_alias to_lowercase alias_value;
                row = \<lparr>ar_id = fresh, ar_entity_id = eid, ar_workspace_id = se_workspace_id entity,
                  ar_alias_kind = alias_kind, ar_alias_value = alias_value, ar_normalized = normalized,
                  ar_source_kind = MemorySourceKind_as_str source_kind,
                  ar_verification = EntityMatch_as_str verification,
                  ar_confidence = MemoryConfidence_as_str confidence, ar_created_at = at\<rparr>
            in if \<not> alias_checks row then (db, Err (Mem_Sqlite (lit ''record an entity alias'')))
               else if ar_verification row \<noteq> lit ''probabilistic''
                 \<and> list_ex (verified_alias (ar_workspace_id row) alias_kind normalized) (mdb_aliases db)
               then (db, if may_merge verification
                      then and_then (read_verified_alias db (se_workspace_id entity) alias_kind normalized) (\<lambda>found.
                           and_then (ok_or found (Mem_Sqlite (lit ''resolve a verified alias''))) (\<lambda>existing.
                             Err (AliasAlreadyVerified (sal_entity_id existing))))
                      else Ok ())
               else if list_ex (\<lambda>a. ar_id a = fresh) (mdb_aliases db)
               then (db, Err (Mem_Sqlite (lit ''record an entity alias'')))
               else (db\<lparr>mdb_aliases := mdb_aliases db @ [row]\<rparr>, Ok ()))"

record StoredRelation =
  sr_id :: ident
  sr_workspace_id :: ident
  sr_subject_id :: ident
  sr_predicate :: rstr
  sr_object_id :: ident
  sr_confidence :: MemoryConfidence
  sr_sensitivity :: Sensitivity
  sr_valid_from :: instant
  sr_valid_until :: "instant option"

definition decode_relation :: "relation_row \<Rightarrow> MemoryStoreError + StoredRelation" where
  "decode_relation row =
     and_then (stored_invalid ''confidence'' (MemoryConfidence_from_str (rr_confidence row))) (\<lambda>confidence.
     and_then (stored_invalid ''sensitivity'' (Sensitivity_from_str (rr_sensitivity row))) (\<lambda>sensitivity.
       Ok \<lparr>sr_id = rr_id row, sr_workspace_id = rr_workspace_id row, sr_subject_id = rr_subject_id row,
          sr_predicate = rr_predicate row, sr_object_id = rr_object_id row, sr_confidence = confidence,
          sr_sensitivity = sensitivity, sr_valid_from = rr_valid_from row, sr_valid_until = rr_valid_until row\<rparr>))"

definition record_relation ::
  "ident \<Rightarrow> parent_rows \<Rightarrow> memory_db \<Rightarrow> ident \<Rightarrow> ident \<Rightarrow> rstr \<Rightarrow> ident \<Rightarrow> MemorySource \<Rightarrow> MemoryConfidence
    \<Rightarrow> Sensitivity \<Rightarrow> rstr \<Rightarrow> ident \<Rightarrow> instant \<Rightarrow> memory_db \<times> (MemoryStoreError + ident)" where
  "record_relation fresh parents db workspace_id subject_id predicate object_id source confidence sensitivity
     actor_id correlation_id at =
     (let predicate = trim predicate in
      if subject_id = object_id then (db, Err (InvalidMemoryRequest (lit ''object_id'')))
      else if predicate = [] \<or> length predicate > 256
      then (db, Err (InvalidMemoryRequest (lit ''predicate'')))
      else if is_model_produced (msrc_kind source) \<and> confidence \<noteq> Unverified
      then (db, Err (InvalidMemoryRequest (lit ''confidence'')))
      else
        let row = \<lparr>rr_id = fresh, rr_workspace_id = workspace_id, rr_subject_id = subject_id,
              rr_predicate = predicate, rr_object_id = object_id,
              rr_source_kind = MemorySourceKind_as_str (msrc_kind source),
              rr_source_locator = msrc_locator source,
              rr_source_trust = MemoryTrust_as_str (msrc_trust source),
              rr_source_excerpt_hash = msrc_excerpt_hash source,
              rr_confidence = MemoryConfidence_as_str confidence,
              rr_sensitivity = Sensitivity_as_str sensitivity, rr_status = lit ''active'',
              rr_valid_from = at, rr_valid_until = None, rr_created_by = actor_id,
              rr_correlation_id = correlation_id, rr_created_at = at\<rparr>
        in if \<not> relation_checks row \<or> list_ex (\<lambda>q. rr_id q = fresh) (mdb_relations db)
             \<or> \<not> par_workspace parents workspace_id
             \<or> \<not> list_ex (\<lambda>e. er_id e = subject_id) (mdb_entities db)
             \<or> \<not> list_ex (\<lambda>e. er_id e = object_id) (mdb_entities db)
           then (db, Err (Mem_Sqlite (lit ''record an entity relation'')))
           else (db\<lparr>mdb_relations := mdb_relations db @ [row]\<rparr>, Ok fresh))"

definition read_subject_relations ::
  "memory_db \<Rightarrow> ident \<Rightarrow> ident \<Rightarrow> MemoryStoreError + StoredRelation list" where
  "read_subject_relations db workspace_id subject_id =
     collect_results decode_relation (sort_key (\<lambda>r. (rr_predicate r, rr_id r))
       (filter (\<lambda>r. rr_workspace_id r = workspace_id \<and> rr_subject_id r = subject_id
          \<and> rr_status r \<noteq> lit ''deleted'') (mdb_relations db)))"

end
