(* ===== verification/Memory_Store_Laws.thy ===== *)
theory Memory_Store_Laws
  imports Memory_Store
begin

text \<open>
  The invariant of the memory store: every row stands for a well-formed record and one row holds a
  search key of a workspace. One lemma per operation shows that it is kept, and where the keys of the
  table come from; \<open>store_op\<close> is one call of the repository.
\<close>

section \<open>Vocabularies\<close>

lemma MemoryTrust_parse_spell [simp]: "MemoryTrust_from_str (MemoryTrust_as_str t) = Ok t"
  by (cases t) (simp_all add: MemoryTrust_from_str_def)

lemma EntityMatch_parse_spell [simp]: "EntityMatch_from_str (EntityMatch_as_str t) = Ok t"
  by (cases t) (simp_all add: EntityMatch_from_str_def)

lemma Sensitivity_parse_spell [simp]: "Sensitivity_from_str (Sensitivity_as_str t) = Ok t"
  by (cases t) (simp_all add: Sensitivity_from_str_def)

interpretation entity_kind_wire: wire_vocabulary EntityKind_as_str EntityKind_from_str EntityKind_all
proof
  fix x s
  show "EntityKind_from_str (EntityKind_as_str x) = Ok x" by (cases x; simp add: EntityKind_from_str_def)
  show "x \<in> set EntityKind_all" by (cases x; simp add: EntityKind_all_def)
  show "EntityKind_from_str s = Ok x \<Longrightarrow> s = EntityKind_as_str x"
    by (auto simp: EntityKind_from_str_def split: if_splits)
qed

lemma weaker_link_match:
  "weaker_link (EntityMatch_as_str a) (EntityMatch_as_str b) = EntityMatch_as_str (weaker_match a b)"
  by (cases a; cases b) (simp_all add: weaker_link_def weaker_match_def)

section \<open>Rows stand for records\<close>

definition source_wf :: "MemorySource \<Rightarrow> bool" where
  "source_wf s \<longleftrightarrow> MemorySource_new (msrc_kind s) (msrc_locator s) (msrc_trust s) (msrc_excerpt_hash s) = Ok s"

definition claim_wf :: "StructuredClaim \<Rightarrow> bool" where
  "claim_wf c \<longleftrightarrow> StructuredClaim_new (claim_subject c) (claim_predicate c) (claim_object c) = Ok c"

lemma MemorySource_new_source_wf: "MemorySource_new k l t h = Ok s \<Longrightarrow> source_wf s"
  by (auto simp: source_wf_def MemorySource_new_def Let_def split: if_splits option.splits)

lemma StructuredClaim_new_wf: "StructuredClaim_new a b c = Ok s \<Longrightarrow> claim_wf s"
  by (auto simp: claim_wf_def StructuredClaim_new_def claim_part_def Let_def split: if_splits)

definition record_ok :: "MemoryRecord \<Rightarrow> bool" where
  "record_ok m \<longleftrightarrow> memory_wf m \<and> source_wf (mem_source m) \<and> pred_option claim_wf (mem_claim m)"

definition decoded_count :: "int \<Rightarrow> 32 word" where
  "decoded_count n = (if 0 \<le> n \<and> n < 2 ^ 32 then of_int n else - 1)"

definition row_for :: "MemoryRecord \<Rightarrow> rstr option \<Rightarrow> int \<Rightarrow> int \<Rightarrow> memory_row" where
  "row_for m key n version = (memory_row_of m [])\<lparr>mr_search_key := key, mr_updated_at := mem_updated_at m,
     mr_retrieval_count := n, mr_admitted_by := mem_admitted_by m, mr_admitted_at := mem_admitted_at m,
     mr_version := version\<rparr>"

text \<open>The record a row holds, without the links, which are rows of another table.\<close>

definition holds :: "memory_row \<Rightarrow> MemoryRecord \<Rightarrow> bool" where
  "holds r m \<longleftrightarrow> record_ok m \<and> mem_entities m = [] \<and> mem_retrieval_count m = decoded_count (mr_retrieval_count r)
     \<and> r = row_for m (mr_search_key r) (mr_retrieval_count r) (mr_version r)"

lemma row_for_fields [simp]:
  "mr_id (row_for m k c v) = mem_id m" "mr_workspace_id (row_for m k c v) = mem_workspace_id m"
  "mr_search_key (row_for m k c v) = k" "mr_version (row_for m k c v) = v"
  "mr_retrieval_count (row_for m k c v) = c" "mr_status (row_for m k c v) = MemoryStatus_as_str (mem_status m)"
  "mr_content (row_for m k c v) = mem_content m" "mr_admitted_by (row_for m k c v) = mem_admitted_by m"
  "mr_source_kind (row_for m k c v) = MemorySourceKind_as_str (msrc_kind (mem_source m))"
  "mr_supersedes (row_for m k c v) = mem_supersedes m" "mr_superseded_by (row_for m k c v) = mem_superseded_by m"
  by (simp_all add: row_for_def memory_row_of_def Let_def)

lemma holds_row_for:
  "holds (row_for m k c v) m \<longleftrightarrow> record_ok m \<and> mem_entities m = [] \<and> mem_retrieval_count m = decoded_count c"
  by (simp add: holds_def)

lemma holdsE:
  assumes "holds r m"
  obtains k c v where "r = row_for m k c v" "record_ok m" "mem_entities m = []"
    "mem_retrieval_count m = decoded_count c"
  using assms unfolding holds_def by metis

lemmas row_for_defs = row_for_def memory_row_of_def Let_def

lemma read_row_for:
  assumes "record_ok m" "mem_entities m = []" "mem_retrieval_count m = decoded_count c"
  shows "read_memory_fields (row_for m k c v) = Ok (stored_parts m, stored_memory_state m)"
proof -
  have "claim_of_row (row_for m k c v) = Ok (mem_claim m)"
    using assms(1)
    by (cases "mem_claim m") (simp_all add: claim_of_row_def row_for_def memory_row_of_def claim_columns_def
        text_column_def stored_invalid_def ok_or_def record_ok_def claim_wf_def Let_def)
  moreover have "mem_importance m < 256" using assms(1) by (simp add: record_ok_def memory_wf_def)
  ultimately show ?thesis
    using assms
    by (simp add: read_memory_fields_def stored_invalid_def memory_type_wire.parse_spell
        memory_source_wire.parse_spell memory_confidence_wire.parse_spell memory_status_wire.parse_spell
        record_ok_def source_wf_def stored_parts_def stored_memory_state_def decoded_count_def)
      (simp add: row_for_def memory_row_of_def Let_def memory_type_wire.parse_spell
        memory_source_wire.parse_spell memory_confidence_wire.parse_spell memory_status_wire.parse_spell)
qed

lemma decode_row_for:
  assumes "holds r m"
  shows "decode_memory r = (if mem_status m = Mem_Deleted \<and> mem_admitted_by m \<noteq> None
     then Err (StoredMemoryInvalid (lit ''admitted_at'')) else Ok m)"
proof -
  have "read_memory_fields r = Ok (stored_parts m, stored_memory_state m)"
    using assms read_row_for [of m "mr_retrieval_count r" "mr_search_key r" "mr_version r"]
    by (simp add: holds_def)
  then show ?thesis
    using from_stored_wf [of m] assms by (simp add: decode_memory_def holds_def record_ok_def)
qed

section \<open>One row at a time\<close>

definition new_record :: "MemoryRecord \<Rightarrow> bool" where
  "new_record m \<longleftrightarrow> (\<exists>p. MemoryRecord_new p = Ok m \<and> source_wf (mp_source p) \<and> pred_option claim_wf (mp_claim p))"

lemma new_record_facts:
  assumes "new_record m"
  shows "record_ok m" "mem_updated_at m = mem_created_at m" "mem_admitted_by m = None" "mem_admitted_at m = None"
    "mem_superseded_by m = None" "mem_status m \<noteq> Mem_Deleted" "mem_retrieval_count m = 0"
    "mem_last_accessed_at m = None"
proof -
  from assms obtain p where p: "MemoryRecord_new p = Ok m" "source_wf (mp_source p)" "pred_option claim_wf (mp_claim p)"
    by (auto simp: new_record_def)
  then have "m = built_record p" by (simp add: MemoryRecord_new_def MemoryRecord_build_iff)
  with p show "record_ok m" "mem_updated_at m = mem_created_at m" "mem_admitted_by m = None" "mem_admitted_at m = None"
    "mem_superseded_by m = None" "mem_status m \<noteq> Mem_Deleted" "mem_retrieval_count m = 0"
    "mem_last_accessed_at m = None"
    using MemoryRecord_new_wf(1) [OF p(1)] by (simp_all add: record_ok_def built_record_def)
qed

lemma record_ok_entities: "record_ok m \<Longrightarrow> record_ok (m\<lparr>mem_entities := []\<rparr>)"
  by (simp add: record_ok_def memory_wf_def)

lemma holds_new:
  assumes "new_record m"
  shows "holds (memory_row_of m key) (m\<lparr>mem_entities := []\<rparr>)"
  using new_record_facts [OF assms] record_ok_entities [of m]
  by (simp add: holds_def row_for_def memory_row_of_def Let_def decoded_count_def)

lemma holds_reinforced:
  assumes "holds r m"
  shows "holds (r\<lparr>mr_last_accessed_at := Some at, mr_retrieval_count := mr_retrieval_count r + 1,
      mr_version := mr_version r + 1\<rparr>)
    (m\<lparr>mem_last_accessed_at := Some at, mem_retrieval_count := decoded_count (mr_retrieval_count r + 1)\<rparr>)"
  using assms
proof (rule holdsE)
  fix k c v assume r: "r = row_for m k c v" and m: "record_ok m" "mem_entities m = []"
  let ?m = "m\<lparr>mem_last_accessed_at := Some at, mem_retrieval_count := decoded_count (c + 1)\<rparr>"
  have "holds (row_for ?m k (c + 1) (v + 1)) ?m"
    using m by (simp add: holds_row_for record_ok_def memory_wf_def)
  then show ?thesis unfolding r by (simp add: row_for_defs)
qed

text \<open>A transition of the record, and the columns it leaves alone.\<close>

lemma transition_record_step: "transition_record t m at = Ok n \<Longrightarrow> memory_step m n"
  by (cases t) (auto intro: memory_step.intros)

lemma transition_record_keeps:
  assumes "transition_record t m at = Ok n"
  shows "n = m\<lparr>mem_status := mem_status n, mem_content := mem_content n, mem_claim := mem_claim n,
      mem_superseded_by := mem_superseded_by n, mem_updated_at := mem_updated_at n,
      mem_admitted_by := mem_admitted_by n, mem_admitted_at := mem_admitted_at n\<rparr>"
    "mem_claim n = mem_claim m \<or> mem_claim n = None"
  using assms
  by (cases t; auto simp: confirm_by_Ok memory_archive_def memory_delete_def memory_transition_Ok
      dest!: replace_with_Ok)+

lemma transition_record_entities:
  "transition_record t (m\<lparr>mem_entities := es\<rparr>) at = map_ok (\<lambda>n. n\<lparr>mem_entities := es\<rparr>) (transition_record t m at)"
  by (cases t) (simp_all add: confirm_by_def memory_archive_def memory_delete_def replace_with_def
      memory_transition_def Let_def split: option.split)

lemma holds_transition:
  assumes "holds r m" "transition_record t m at = Ok n"
  shows "holds (transition_row n key r) n"
proof -
  have r: "r = row_for m (mr_search_key r) (mr_retrieval_count r) (mr_version r)"
    using assms by (simp add: holds_def)
  note n = transition_record_keeps [OF assms(2)]
  have same: "mem_id n = mem_id m" "mem_workspace_id n = mem_workspace_id m" "mem_type n = mem_type m"
    "mem_source n = mem_source m" "mem_confidence n = mem_confidence m" "mem_importance n = mem_importance m"
    "mem_sensitivity n = mem_sensitivity m" "mem_valid_from n = mem_valid_from m"
    "mem_valid_until n = mem_valid_until m" "mem_supersedes n = mem_supersedes m" "mem_run_id n = mem_run_id m"
    "mem_created_by n = mem_created_by m" "mem_correlation_id n = mem_correlation_id m"
    "mem_created_at n = mem_created_at m" "mem_last_accessed_at n = mem_last_accessed_at m"
    by (subst n(1), simp)+
  have "transition_row n key r = row_for n key (mr_retrieval_count r) (mr_version r + 1)"
    by (subst r) (simp add: row_for_def memory_row_of_def transition_row_def Let_def same)
  moreover have "record_ok n"
    using memory_step_wf [OF transition_record_step [OF assms(2)]] assms(1)
      memory_step_fixed(2) [OF transition_record_step [OF assms(2)]] n(2)
    by (auto simp: holds_def record_ok_def)
  moreover have "mem_entities n = mem_entities m" "mem_retrieval_count n = mem_retrieval_count m"
    by (subst n(1), simp)+
  ultimately show ?thesis using assms(1) by (simp add: holds_def)
qed

lemma row_for_supersession:
  "(row_for m k c v)\<lparr>mr_supersedes := a, mr_superseded_by := b\<rparr>
    = row_for (m\<lparr>mem_supersedes := a, mem_superseded_by := b\<rparr>) k c v"
  by (simp add: row_for_defs)

lemma holds_cleared:
  assumes "holds r m"
  shows "\<exists>m'. holds (r\<lparr>mr_supersedes := (if mr_supersedes r = Some mid then None else mr_supersedes r),
      mr_superseded_by := (if mr_superseded_by r = Some mid then None else mr_superseded_by r)\<rparr>) m'"
  using assms
proof (rule holdsE)
  fix k c v assume r: "r = row_for m k c v"
    and m: "record_ok m" "mem_entities m = []" "mem_retrieval_count m = decoded_count c"
  let ?m = "m\<lparr>mem_supersedes := (if mem_supersedes m = Some mid then None else mem_supersedes m),
      mem_superseded_by := (if mem_superseded_by m = Some mid then None else mem_superseded_by m)\<rparr>"
  have "holds (row_for ?m k c v) ?m" using m by (simp add: holds_row_for record_ok_def memory_wf_def)
  then show ?thesis unfolding r row_for_supersession row_for_fields by blast
qed

section \<open>The table of memories\<close>

definition one_per_key :: "memory_row list \<Rightarrow> bool" where
  "one_per_key rows \<longleftrightarrow> (\<forall>r \<in> set rows. \<forall>q \<in> set rows. mr_workspace_id r = mr_workspace_id q
     \<longrightarrow> mr_search_key r = mr_search_key q \<longrightarrow> mr_search_key r \<noteq> None \<longrightarrow> r = q)"

definition sound_row :: "memory_row \<Rightarrow> bool" where
  "sound_row r \<longleftrightarrow> memory_checks r \<and> (\<exists>m. holds r m)"

definition memories_inv :: "memory_row list \<Rightarrow> bool" where
  "memories_inv rows \<longleftrightarrow> distinct (map mr_id rows) \<and> (\<forall>r \<in> set rows. sound_row r) \<and> one_per_key rows"

lemma memories_inv_inj:
  "memories_inv rows \<Longrightarrow> r \<in> set rows \<Longrightarrow> q \<in> set rows \<Longrightarrow> mr_id r = mr_id q \<Longrightarrow> r = q"
  by (auto simp: memories_inv_def distinct_map inj_on_def)

lemma find_memory_by_id:
  assumes "memories_inv rows" "r \<in> set rows"
  shows "find (\<lambda>q. mr_id q = mr_id r) rows = Some r"
proof -
  have "distinct (map mr_id rows)" using assms(1) by (simp add: memories_inv_def)
  with assms(2) show ?thesis by (induction rows) force+
qed

lemma memories_inv_map:
  assumes "memories_inv rows"
    and "\<And>r. r \<in> set rows \<Longrightarrow> mr_id (f r) = mr_id r \<and> mr_workspace_id (f r) = mr_workspace_id r
      \<and> mr_search_key (f r) \<in> {None, mr_search_key r} \<and> sound_row (f r)"
  shows "memories_inv (map f rows)"
proof -
  have "map mr_id (map f rows) = map mr_id rows" using assms(2) by simp
  moreover have "one_per_key (map f rows)"
    unfolding one_per_key_def
  proof (intro ballI impI)
    fix a b assume "a \<in> set (map f rows)" "b \<in> set (map f rows)"
    then obtain r q where h: "a = f r" "b = f q" "r \<in> set rows" "q \<in> set rows" by auto
    assume k: "mr_workspace_id a = mr_workspace_id b" "mr_search_key a = mr_search_key b" "mr_search_key a \<noteq> None"
    have "mr_search_key r = mr_search_key q" "mr_search_key r \<noteq> None" "mr_workspace_id r = mr_workspace_id q"
      using k assms(2) [OF h(3)] assms(2) [OF h(4)] by (auto simp: h)
    with assms(1) h(3,4) have "r = q" unfolding memories_inv_def one_per_key_def by blast
    then show "a = b" by (simp add: h)
  qed
  moreover have "\<forall>r \<in> set (map f rows). sound_row r" using assms(2) by simp
  ultimately show ?thesis using assms(1) unfolding memories_inv_def by (simp del: map_map)
qed

lemma memories_inv_update:
  assumes "memories_inv rows"
    and "\<And>r. r \<in> set rows \<Longrightarrow> P r \<Longrightarrow> mr_id (f r) = mr_id r \<and> mr_workspace_id (f r) = mr_workspace_id r
      \<and> mr_search_key (f r) \<in> {None, mr_search_key r} \<and> sound_row (f r)"
  shows "memories_inv (sql_update P f rows)"
  unfolding sql_update_def
  using assms by (intro memories_inv_map) (auto simp: memories_inv_def)

lemma memories_inv_filter: "memories_inv rows \<Longrightarrow> memories_inv (filter P rows)"
  by (auto simp: memories_inv_def one_per_key_def distinct_map inj_on_def)

lemma memories_inv_append:
  assumes "memories_inv rows" "sound_row r" "\<not> list_ex (\<lambda>q. mr_id q = mr_id r) rows"
    and "\<not> list_ex (\<lambda>q. mr_workspace_id q = mr_workspace_id r \<and> mr_search_key q = mr_search_key r) rows"
  shows "memories_inv (rows @ [r])"
  using assms by (auto simp: memories_inv_def one_per_key_def list_ex_iff)

section \<open>What each operation does to the table\<close>

lemma find_memory_Ok:
  assumes "find_memory db mid = Ok sm" "memories_inv (mdb_memories db)"
  obtains r m es where "r \<in> set (mdb_memories db)" "mr_id r = mid" "holds r m"
    "sm_record sm = m\<lparr>mem_entities := es\<rparr>" "sm_search_key sm = mr_search_key r" "sm_version sm = mr_version r"
proof -
  from assms(1) obtain r m0 es where r: "find (\<lambda>r. mr_id r = mid) (mdb_memories db) = Some r"
      "decode_memory r = Ok m0" "sm_record sm = replace_entities m0 es"
      "sm_search_key sm = mr_search_key r" "sm_version sm = mr_version r"
    by (auto simp: find_memory_def load_linked_entities_def)
  from r(1) have "r \<in> set (mdb_memories db)" "mr_id r = mid" by (auto dest: find_SomeD)
  moreover from this assms(2) obtain m where m: "holds r m" by (auto simp: memories_inv_def sound_row_def)
  moreover from decode_row_for [OF m] r(2) have "m0 = m" by (simp split: if_splits)
  ultimately show ?thesis using r(3-5) that by (simp add: replace_entities_def)
qed

lemma insert_memory_on_cases:
  assumes "insert_memory_on parents db m key = (db', res)"
  shows "db' = db \<and> (isl res \<or> res = Ok 0
      \<and> list_ex (\<lambda>r. mr_workspace_id r = mem_workspace_id m \<and> mr_search_key r = Some key) (mdb_memories db))
    \<or> db' = db\<lparr>mdb_memories := mdb_memories db @ [memory_row_of m key]\<rparr> \<and> res = Ok 1
      \<and> memory_checks (memory_row_of m key) \<and> \<not> memory_exists db (mem_id m)
      \<and> \<not> list_ex (\<lambda>r. mr_workspace_id r = mem_workspace_id m \<and> mr_search_key r = Some key) (mdb_memories db)
      \<and> memory_parents parents db (memory_row_of m key)"
proof -
  have "mr_id (memory_row_of m key) = mem_id m" "mr_workspace_id (memory_row_of m key) = mem_workspace_id m"
    by (simp_all add: memory_row_of_def Let_def)
  with assms show ?thesis by (auto simp: insert_memory_on_def Let_def split: if_splits)
qed

lemma insert_memory_on_inv:
  assumes "insert_memory_on parents db m key = (db', res)" "new_record m" "memories_inv (mdb_memories db)"
  shows "memories_inv (mdb_memories db')"
proof -
  have "mr_id (memory_row_of m key) = mem_id m" "mr_workspace_id (memory_row_of m key) = mem_workspace_id m"
    "mr_search_key (memory_row_of m key) = Some key"
    by (simp_all add: memory_row_of_def Let_def)
  moreover have "memory_checks (memory_row_of m key) \<Longrightarrow> sound_row (memory_row_of m key)"
    using holds_new [OF assms(2)] by (auto simp: sound_row_def)
  ultimately show ?thesis
    using insert_memory_on_cases [OF assms(1)] assms(3)
    by (auto simp: memory_exists_def intro!: memories_inv_append)
qed

lemma link_memory_entity_on_frame:
  "mdb_memories (fst (link_memory_entity_on db mid e)) = mdb_memories db"
  "mdb_tombstones (fst (link_memory_entity_on db mid e)) = mdb_tombstones db"
  by (simp_all add: link_memory_entity_on_def Let_def)

lemma link_entities_frame:
  "mdb_memories (fst (link_entities db mid es)) = mdb_memories db
   \<and> mdb_tombstones (fst (link_entities db mid es)) = mdb_tombstones db"
proof (induction es arbitrary: db)
  case (Cons e es)
  obtain db1 r where "link_memory_entity_on db mid e = (db1, r)" by fastforce
  with Cons [of db1] link_memory_entity_on_frame [of db mid e] show ?case by (simp split: sum.split)
qed simp

lemma insert_tombstone_frame:
  "mdb_memories (fst (insert_tombstone db row)) = mdb_memories db"
  "set (mdb_tombstones db) \<subseteq> set (mdb_tombstones (fst (insert_tombstone db row)))"
  by (auto simp: insert_tombstone_def)

lemma write_memory_rows:
  obtains db1 res where "insert_memory_on parents db m key = (db1, res)"
    "mdb_memories (fst (write_memory parents db m key)) = mdb_memories db1"
    "mdb_tombstones (fst (write_memory parents db m key)) = mdb_tombstones db1"
proof -
  obtain db1 res where i: "insert_memory_on parents db m key = (db1, res)" by fastforce
  obtain db2 r where l: "link_entities db1 (mem_id m) (mem_entities m) = (db2, r)" by fastforce
  have "mdb_memories db2 = mdb_memories db1" "mdb_tombstones db2 = mdb_tombstones db1"
    using link_entities_frame [of db1 "mem_id m" "mem_entities m"] l by simp_all
  then show ?thesis
    using that [OF i] by (simp add: write_memory_def i l split: sum.split)
qed

lemma record_memory_inv:
  assumes "new_record m" "memories_inv (mdb_memories db)"
  shows "memories_inv (mdb_memories (fst (record_memory sha parents db m key)))"
proof (cases "is_tombstoned sha db (mem_workspace_id m) key")
  case False
  then show ?thesis
    using write_memory_rows [of parents db m key] insert_memory_on_inv [OF _ assms]
    by (metis record_memory_def)
qed (use assms in \<open>simp add: record_memory_def\<close>)

text \<open>
  Where the keys of a table come from: a row had its key before, or the key was free to be written.
  Tombstones are only added.
\<close>

definition keys_from :: "(rstr \<Rightarrow> byte list) \<Rightarrow> memory_db \<Rightarrow> memory_db \<Rightarrow> bool" where
  "keys_from sha db db' \<longleftrightarrow> set (mdb_tombstones db) \<subseteq> set (mdb_tombstones db')
     \<and> (\<forall>r \<in> set (mdb_memories db'). \<forall>k. mr_search_key r = Some k \<longrightarrow>
         (\<exists>q \<in> set (mdb_memories db). mr_workspace_id q = mr_workspace_id r \<and> mr_search_key q = Some k)
         \<or> \<not> is_tombstoned sha db (mr_workspace_id r) k)"

lemma keys_from_same: "mdb_memories db' = mdb_memories db \<Longrightarrow> set (mdb_tombstones db) \<subseteq> set (mdb_tombstones db')
    \<Longrightarrow> keys_from sha db db'"
  by (auto simp: keys_from_def)

lemma keys_from_map:
  assumes "mdb_memories db' = map f (filter P (mdb_memories db))"
    and "\<And>r. r \<in> set (mdb_memories db) \<Longrightarrow>
      mr_workspace_id (f r) = mr_workspace_id r \<and> mr_search_key (f r) \<in> {None, mr_search_key r}"
    and "set (mdb_tombstones db) \<subseteq> set (mdb_tombstones db')"
  shows "keys_from sha db db'"
  unfolding keys_from_def
proof (intro conjI assms(3) ballI allI impI)
  fix r k assume "r \<in> set (mdb_memories db')" and k: "mr_search_key r = Some k"
  with assms(1) obtain q where q: "q \<in> set (mdb_memories db)" "r = f q" by auto
  with assms(2) [OF q(1)] k have "mr_workspace_id q = mr_workspace_id r" "mr_search_key q = Some k" by auto
  with q(1) show "(\<exists>q \<in> set (mdb_memories db). mr_workspace_id q = mr_workspace_id r \<and> mr_search_key q = Some k)
      \<or> \<not> is_tombstoned sha db (mr_workspace_id r) k" by blast
qed

lemma keys_from_update:
  assumes "mdb_memories db' = sql_update P f (mdb_memories db)"
    and "\<And>r. r \<in> set (mdb_memories db) \<Longrightarrow> P r \<Longrightarrow>
      mr_workspace_id (f r) = mr_workspace_id r \<and> mr_search_key (f r) \<in> {None, mr_search_key r}"
    and "set (mdb_tombstones db) \<subseteq> set (mdb_tombstones db')"
  shows "keys_from sha db db'"
  using assms by (intro keys_from_map [of db' "\<lambda>r. if P r then f r else r" "\<lambda>_. True"]) (auto simp: sql_update_def)

lemma insert_memory_on_keys:
  assumes "insert_memory_on parents db m key = (db', res)" "\<not> is_tombstoned sha db (mem_workspace_id m) key"
  shows "keys_from sha db db'"
proof -
  have "mr_workspace_id (memory_row_of m key) = mem_workspace_id m"
    "mr_search_key (memory_row_of m key) = Some key"
    by (simp_all add: memory_row_of_def Let_def)
  with insert_memory_on_cases [OF assms(1)] assms(2) show ?thesis by (auto simp: keys_from_def)
qed

lemma record_memory_keys: "keys_from sha db (fst (record_memory sha parents db m key))"
proof (cases "is_tombstoned sha db (mem_workspace_id m) key")
  case False
  obtain db1 res where i: "insert_memory_on parents db m key = (db1, res)"
      and same: "mdb_memories (fst (write_memory parents db m key)) = mdb_memories db1"
        "mdb_tombstones (fst (write_memory parents db m key)) = mdb_tombstones db1"
    by (rule write_memory_rows)
  from insert_memory_on_keys [OF i False] same False show ?thesis
    by (simp add: keys_from_def record_memory_def)
qed (simp add: record_memory_def keys_from_same)

text \<open>Reinforcing.\<close>

definition reinforced :: "instant \<Rightarrow> memory_row \<Rightarrow> memory_row" where
  "reinforced at r = r\<lparr>mr_last_accessed_at := Some at, mr_retrieval_count := mr_retrieval_count r + 1,
     mr_version := mr_version r + 1\<rparr>"

lemma reinforced_sound: "sound_row r \<Longrightarrow> sound_row (reinforced at r)"
proof -
  have "memory_checks r \<Longrightarrow> memory_checks (reinforced at r)"
    by (auto simp: memory_checks_def reinforced_def)
  then show "sound_row r \<Longrightarrow> sound_row (reinforced at r)"
    unfolding sound_row_def by (metis holds_reinforced reinforced_def)
qed

lemma reinforced_fields [simp]:
  "mr_id (reinforced at r) = mr_id r" "mr_workspace_id (reinforced at r) = mr_workspace_id r"
  "mr_search_key (reinforced at r) = mr_search_key r"
  by (simp_all add: reinforced_def)

text \<open>An update that keeps identifiers and workspaces, and keeps or clears keys.\<close>

lemma update_effect:
  assumes "memories_inv (mdb_memories db)"
    and "mdb_memories db' = sql_update P f (mdb_memories db)"
    and "set (mdb_tombstones db) \<subseteq> set (mdb_tombstones db')"
    and "\<And>r. r \<in> set (mdb_memories db) \<Longrightarrow> P r \<Longrightarrow> mr_id (f r) = mr_id r
      \<and> mr_workspace_id (f r) = mr_workspace_id r \<and> mr_search_key (f r) \<in> {None, mr_search_key r} \<and> sound_row (f r)"
  shows "memories_inv (mdb_memories db') \<and> keys_from sha db db'"
proof
  show "memories_inv (mdb_memories db')"
    unfolding assms(2) using assms(1,4) by (rule memories_inv_update)
  show "keys_from sha db db'"
    by (rule keys_from_update [OF assms(2) _ assms(3)]) (use assms(4) in blast)
qed

lemma write_reinforcement_effect:
  assumes "memories_inv (mdb_memories db)"
  shows "memories_inv (mdb_memories (fst (write_reinforcement db mid existing at)))
    \<and> keys_from sha db (fst (write_reinforcement db mid existing at))"
proof -
  let ?db = "fst (write_reinforcement db mid existing at)"
  let ?P = "\<lambda>r. mr_id r = mid \<and> mr_version r = sm_version existing \<and> mr_status r \<noteq> lit ''deleted''"
  have "?db = db \<or> ?db = db\<lparr>mdb_memories := sql_update ?P (reinforced at) (mdb_memories db)\<rparr>"
    by (simp add: write_reinforcement_def Let_def reinforced_def [abs_def])
  then show ?thesis
  proof
    assume "?db = db\<lparr>mdb_memories := sql_update ?P (reinforced at) (mdb_memories db)\<rparr>"
    with assms show ?thesis
      by (intro update_effect [of db ?db ?P "reinforced at"]) (auto simp: memories_inv_def reinforced_sound)
  qed (simp add: assms keys_from_same)
qed

text \<open>Transitions.\<close>

lemma transition_row_fields [simp]:
  "mr_id (transition_row n key r) = mr_id r" "mr_workspace_id (transition_row n key r) = mr_workspace_id r"
  "mr_search_key (transition_row n key r) = key" "mr_version (transition_row n key r) = mr_version r + 1"
  "mr_status (transition_row n key r) = MemoryStatus_as_str (mem_status n)"
  by (simp_all add: transition_row_def Let_def)

lemma transition_row_entities: "transition_row (n\<lparr>mem_entities := es\<rparr>) = transition_row n"
  by (intro ext) (simp add: transition_row_def)

lemma fst_passed_on: "fst (case p of (d, Inl e) \<Rightarrow> (d, f e) | (d, Inr x) \<Rightarrow> (d, g d)) = fst p"
  by (cases p; cases "snd p") simp_all

definition version_hit :: "memory_row \<Rightarrow> memory_row \<Rightarrow> bool" where
  "version_hit r q \<longleftrightarrow> mr_id q = mr_id r \<and> mr_version q = mr_version r"

lemma write_transition_cases:
  assumes "mr_id r = mid" "sm_record sm = m\<lparr>mem_entities := es\<rparr>" "sm_search_key sm = mr_search_key r"
    "sm_version sm = mr_version r"
    and "transition_record t m at = Ok n" "key = (if mem_status n = Mem_Deleted then None else mr_search_key r)"
    and "db' = fst (write_transition sha fresh db mid sm t at)"
  shows "db' = db \<or> list_all memory_checks (map (transition_row n key) (filter (version_hit r) (mdb_memories db)))
        \<and> mdb_memories db' = sql_update (version_hit r) (transition_row n key) (mdb_memories db)
        \<and> set (mdb_tombstones db) \<subseteq> set (mdb_tombstones db')"
proof -
  let ?db1 = "db\<lparr>mdb_memories := sql_update (version_hit r) (transition_row n key) (mdb_memories db)\<rparr>"
  have frame: "mdb_memories (fst (record_tombstone sha fresh ?db1 (sm_record sm) k at)) = mdb_memories ?db1"
    "set (mdb_tombstones db) \<subseteq> set (mdb_tombstones (fst (record_tombstone sha fresh ?db1 (sm_record sm) k at)))" for k
    using insert_tombstone_frame [of ?db1] by (simp_all add: record_tombstone_def)
  have hit: "(\<lambda>q. mr_id q = mid \<and> mr_version q = sm_version sm) = version_hit r"
    by (auto simp: version_hit_def assms(1,4))
  have next_record: "transition_record t (sm_record sm) at = Ok (n\<lparr>mem_entities := es\<rparr>)"
    by (simp add: assms(2,5) transition_record_entities)
  have key: "(if mem_status n = Mem_Deleted then None else sm_search_key sm) = key"
    by (simp add: assms(3,6))
  have "db' = db \<or> list_all memory_checks (map (transition_row n key) (filter (version_hit r) (mdb_memories db)))
      \<and> (db' = ?db1 \<or> (\<exists>k. db' = fst (record_tombstone sha fresh ?db1 (sm_record sm) k at)))"
    unfolding assms(7) write_transition_def hit next_record
    by (simp add: transition_row_entities key fst_passed_on Let_def split: option.split) blast
  with frame show ?thesis by auto
qed

lemma apply_memory_transition_effect:
  assumes inv: "memories_inv (mdb_memories db)"
    and db': "db' = fst (apply_memory_transition sha fresh db mid t at)"
  shows "memories_inv (mdb_memories db') \<and> keys_from sha db db'"
proof (cases "find_memory db mid")
  case (Inr sm)
  from find_memory_Ok [OF Inr inv] obtain r m es where r: "r \<in> set (mdb_memories db)" "mr_id r = mid"
      and m: "holds r m" and sm: "sm_record sm = m\<lparr>mem_entities := es\<rparr>" "sm_search_key sm = mr_search_key r"
        "sm_version sm = mr_version r" .
  have db'_w: "db' = fst (write_transition sha fresh db mid sm t at)"
    by (simp add: db' apply_memory_transition_def Inr)
  show ?thesis
  proof (cases "transition_record t m at")
    case (Inl e)
    then have "db' = db" by (simp add: db'_w write_transition_def sm transition_record_entities)
    then show ?thesis by (simp add: inv keys_from_same)
  next
    case (Inr n)
    define key where "key = (if mem_status n = Mem_Deleted then None else mr_search_key r)"
    have only: "q = r" if "q \<in> set (mdb_memories db)" "version_hit r q" for q
      using memories_inv_inj [OF inv that(1) r(1)] that(2) by (simp add: version_hit_def)
    from write_transition_cases [OF r(2) sm Inr key_def db'_w] show ?thesis
    proof
      assume w: "list_all memory_checks (map (transition_row n key) (filter (version_hit r) (mdb_memories db)))
        \<and> mdb_memories db' = sql_update (version_hit r) (transition_row n key) (mdb_memories db)
        \<and> set (mdb_tombstones db) \<subseteq> set (mdb_tombstones db')"
      show ?thesis
      proof (rule update_effect [OF inv])
        fix q assume q: "q \<in> set (mdb_memories db)" "version_hit r q"
        then have "memory_checks (transition_row n key q)" using w by (auto simp: list_all_iff)
        with holds_transition [OF m Inr, of key] only [OF q] show "mr_id (transition_row n key q) = mr_id q
          \<and> mr_workspace_id (transition_row n key q) = mr_workspace_id q
          \<and> mr_search_key (transition_row n key q) \<in> {None, mr_search_key q} \<and> sound_row (transition_row n key q)"
          by (auto simp: sound_row_def key_def)
      qed (use w in simp_all)
    qed (simp add: inv keys_from_same)
  qed
qed (simp add: db' apply_memory_transition_def inv keys_from_same)

text \<open>Purging.\<close>

definition cleared :: "ident \<Rightarrow> memory_row \<Rightarrow> memory_row" where
  "cleared mid r = r\<lparr>mr_supersedes := (if mr_supersedes r = Some mid then None else mr_supersedes r),
     mr_superseded_by := (if mr_superseded_by r = Some mid then None else mr_superseded_by r)\<rparr>"

lemma cleared_fields [simp]:
  "mr_id (cleared mid r) = mr_id r" "mr_workspace_id (cleared mid r) = mr_workspace_id r"
  "mr_search_key (cleared mid r) = mr_search_key r" "mr_content (cleared mid r) = mr_content r"
  "mr_status (cleared mid r) = mr_status r"
  by (simp_all add: cleared_def)

lemma cleared_sound: "sound_row r \<Longrightarrow> sound_row (cleared mid r)"
proof -
  have "memory_checks r \<Longrightarrow> memory_checks (cleared mid r)" by (auto simp: memory_checks_def cleared_def)
  then show "sound_row r \<Longrightarrow> sound_row (cleared mid r)"
    unfolding sound_row_def by (metis holds_cleared cleared_def)
qed

lemma delete_memory_row_rows:
  "mdb_memories (delete_memory_row db mid) = map (cleared mid) (filter (\<lambda>r. mr_id r \<noteq> mid) (mdb_memories db))"
  "mdb_tombstones (delete_memory_row db mid) = mdb_tombstones db"
  by (simp_all add: delete_memory_row_def cleared_def [abs_def])

lemma delete_memory_row_inv:
  "memories_inv (mdb_memories db) \<Longrightarrow> memories_inv (mdb_memories (delete_memory_row db mid))"
  unfolding delete_memory_row_rows
  by (intro memories_inv_map memories_inv_filter) (auto simp: memories_inv_def cleared_sound)

lemma write_tombstone_on_frame:
  "mdb_memories (fst (write_tombstone_on sha fresh db row mid at)) = mdb_memories db"
  "set (mdb_tombstones db) \<subseteq> set (mdb_tombstones (fst (write_tombstone_on sha fresh db row mid at)))"
  by (simp_all add: write_tombstone_on_def insert_tombstone_frame split: option.split)

lemma purge_memory_cases:
  assumes "db' = fst (purge_memory sha fresh db mid v relearn at)"
  obtains "db' = db"
  | db1 where "mdb_memories db1 = mdb_memories db"
    "\<not> relearn \<Longrightarrow> set (mdb_tombstones db) \<subseteq> set (mdb_tombstones db1)" "db' = db1 \<or> db' = delete_memory_row db1 mid"
proof (cases "find (\<lambda>r. mr_id r = mid) (mdb_memories db)")
  case (Some row)
  define p where "p = (if relearn
      then (db\<lparr>mdb_tombstones := filter (\<lambda>t. ts_memory_id t \<noteq> mid) (mdb_tombstones db)\<rparr>, Ok ())
      else write_tombstone_on sha fresh db row mid at)"
  have p: "mdb_memories (fst p) = mdb_memories db" "\<not> relearn \<Longrightarrow> set (mdb_tombstones db) \<subseteq> set (mdb_tombstones (fst p))"
    by (simp_all add: p_def write_tombstone_on_frame)
  have "db' = db \<or> db' = fst p \<or> db' = delete_memory_row (fst p) mid"
    unfolding assms purge_memory_def Some option.case p_def [symmetric]
    by (cases p; cases "snd p") simp_all
  with p that show ?thesis by blast
qed (use assms that in \<open>simp add: purge_memory_def\<close>)

lemma purge_memory_inv:
  "memories_inv (mdb_memories db) \<Longrightarrow> memories_inv (mdb_memories (fst (purge_memory sha fresh db mid v relearn at)))"
  by (rule purge_memory_cases [OF refl, of sha fresh db mid v relearn at]) (auto simp: delete_memory_row_inv)

lemma purge_memory_keys: "keys_from sha db (fst (purge_memory sha fresh db mid v False at))"
proof (rule purge_memory_cases [OF refl, of sha fresh db mid v False at])
  fix db1 assume same: "mdb_memories db1 = mdb_memories db"
    and "\<not> False \<Longrightarrow> set (mdb_tombstones db) \<subseteq> set (mdb_tombstones db1)"
    and db': "fst (purge_memory sha fresh db mid v False at) = db1
      \<or> fst (purge_memory sha fresh db mid v False at) = delete_memory_row db1 mid"
  then have sub: "set (mdb_tombstones db) \<subseteq> set (mdb_tombstones db1)" by simp
  have "keys_from sha db (delete_memory_row db1 mid)"
    by (rule keys_from_map [of _ "cleared mid" "\<lambda>r. mr_id r \<noteq> mid"]) (simp_all add: delete_memory_row_rows same sub)
  moreover have "keys_from sha db db1" using same sub by (rule keys_from_same)
  ultimately show ?thesis using db' by auto
qed (simp add: keys_from_same)

text \<open>Replacing.\<close>

lemma replaced_row_fields [simp]:
  "mr_id (replaced_row n i r) = mr_id r" "mr_workspace_id (replaced_row n i r) = mr_workspace_id r"
  "mr_search_key (replaced_row n i r) = mr_search_key r"
  "mr_superseded_by (replaced_row n i r) = Some i" "mr_version (replaced_row n i r) = mr_version r + 1"
  "mr_status (replaced_row n i r) = MemoryStatus_as_str (mem_status n)"
  by (simp_all add: replaced_row_def)

lemma replaced_row_transition:
  assumes "holds r m" "replace_with m i at = Ok n" "mr_superseded_by r = None"
  shows "replaced_row n i r = transition_row n (mr_search_key r) r"
  using assms(1)
proof (rule holdsE)
  fix k c v assume r: "r = row_for m k c v"
  with assms(3) have "mem_superseded_by m = None" by simp
  with assms(2) have n: "n = m\<lparr>mem_superseded_by := Some i, mem_status := Mem_Archived,
      mem_updated_at := at\<rparr>" by (auto simp: replace_with_def split: if_splits)
  show ?thesis unfolding r n by (simp add: replaced_row_def transition_row_def row_for_defs)
qed

text \<open>What a successful replacement wrote, and that a failed one wrote nothing.\<close>

lemma write_replacement_cases:
  assumes "write_replacement parents db oid v replacement key n = (db', res)"
  obtains "db' = db" "isl res"
  | db1 where "res = Ok ()" "insert_memory_on parents db replacement key = (db1, Ok 1)"
      "list_all memory_checks (map (replaced_row n (mem_id replacement)) (filter (replaceable oid v) (mdb_memories db1)))"
      "mdb_memories db' = sql_update (replaceable oid v) (replaced_row n (mem_id replacement)) (mdb_memories db1)"
      "mdb_tombstones db' = mdb_tombstones db1"
proof -
  obtain db1 ins where ins: "insert_memory_on parents db replacement key = (db1, ins)" by fastforce
  obtain db2 lk where lk: "link_entities db1 (mem_id replacement) (mem_entities replacement) = (db2, lk)"
    by fastforce
  have frame: "mdb_memories db2 = mdb_memories db1" "mdb_tombstones db2 = mdb_tombstones db1"
    using link_entities_frame [of db1 "mem_id replacement" "mem_entities replacement"] lk by simp_all
  have one: "affected \<noteq> 0 \<Longrightarrow> ins = Ok affected \<Longrightarrow> affected = 1" for affected
    using insert_memory_on_cases [OF ins] by auto
  have "(db' = db \<and> isl res) \<or> (res = Ok () \<and> ins = Ok 1
      \<and> list_all memory_checks (map (replaced_row n (mem_id replacement)) (filter (replaceable oid v) (mdb_memories db1)))
      \<and> db' = db2\<lparr>mdb_memories := sql_update (replaceable oid v) (replaced_row n (mem_id replacement)) (mdb_memories db1)\<rparr>)"
    using assms one
    by (cases ins; cases lk)
      (auto simp: write_replacement_def ins lk frame Let_def ok_or_def split: if_splits option.splits)
  with ins frame(2) that show ?thesis by auto
qed

lemma replace_memory_cases:
  assumes inv: "memories_inv (mdb_memories db)"
    and run: "replace_memory sha parents db oid v replacement key at = (db', res)"
  obtains "db' = db" "isl res"
  | r m n db1 where "res = Ok ()" "r \<in> set (mdb_memories db)" "mr_id r = oid"
      "mr_workspace_id r = mem_workspace_id replacement" "mr_version r = v" "mr_superseded_by r = None" "holds r m"
      "mem_supersedes replacement = Some oid" "replace_with m (mem_id replacement) at = Ok n"
      "\<not> is_tombstoned sha db (mem_workspace_id replacement) key"
      "insert_memory_on parents db replacement key = (db1, Ok 1)"
      "list_all memory_checks (map (replaced_row n (mem_id replacement)) (filter (replaceable oid v) (mdb_memories db1)))"
      "mdb_memories db' = sql_update (replaceable oid v) (replaced_row n (mem_id replacement)) (mdb_memories db1)"
      "mdb_tombstones db' = mdb_tombstones db1"
proof (cases "and_then (ok_or (find (\<lambda>r. mr_id r = oid \<and> mr_workspace_id r = mem_workspace_id replacement)
      (mdb_memories db)) MemoryNotFound) decode_stored_memory")
  case (Inl e)
  with run have "db' = db" "res = Err e" by (simp_all add: replace_memory_def)
  with that(1) show ?thesis by simp
next
  case (Inr sm)
  then obtain r where f: "find (\<lambda>r. mr_id r = oid \<and> mr_workspace_id r = mem_workspace_id replacement) (mdb_memories db) = Some r"
      and d: "decode_stored_memory r = Ok sm"
    by (auto simp: ok_or_def split: option.splits)
  from f have r: "r \<in> set (mdb_memories db)" "mr_id r = oid" "mr_workspace_id r = mem_workspace_id replacement"
    by (auto dest: find_SomeD)
  with inv obtain m where m: "holds r m" by (auto simp: memories_inv_def sound_row_def)
  with d have sm: "sm_record sm = m" "sm_version sm = mr_version r"
    by (auto simp: decode_stored_memory_def decode_row_for split: if_splits)
  from m have ids: "mem_id m = oid" "mem_superseded_by m = mr_superseded_by r"
    using r(2) by (auto elim!: holdsE)
  show ?thesis
  proof (cases "mr_version r = v \<and> mr_superseded_by r = None \<and> mem_supersedes replacement = Some oid
      \<and> \<not> isl (replace_with m (mem_id replacement) at) \<and> \<not> is_tombstoned sha db (mem_workspace_id replacement) key")
    case False
    have "db' = db \<and> isl res"
      using run False by (auto simp: replace_memory_def Inr sm ids split: if_splits sum.splits)
    with that(1) show ?thesis by simp
  next
    case True
    then obtain n where n: "replace_with m (mem_id replacement) at = Ok n"
      by (cases "replace_with m (mem_id replacement) at") auto
    have "write_replacement parents db oid v replacement key n = (db', res)"
      using run True by (simp add: replace_memory_def Inr sm ids n)
    then show ?thesis
      by (rule write_replacement_cases) (use that r m n True in blast)+
  qed
qed

lemma replaced_in_table:
  assumes inv: "memories_inv rows" and "r \<in> set rows" "mr_id r = oid" "mr_superseded_by r = None" "holds r m"
    and "replace_with m i at = Ok n"
    and "list_all memory_checks (map (replaced_row n i) (filter (replaceable oid v) rows))"
    and "q \<in> set rows" "replaceable oid v q"
  shows "q = r" "sound_row (replaced_row n i q)"
proof -
  show "q = r" using memories_inv_inj [OF inv] assms by (simp add: replaceable_def)
  have "memory_checks (replaced_row n i q)" using assms(7-9) by (simp add: list_all_iff)
  moreover have "transition_record (Trans_ReplaceWith i) m at = Ok n" using assms(6) by simp
  then have "holds (replaced_row n i q) n"
    unfolding \<open>q = r\<close> replaced_row_transition [OF assms(5,6,4)] by (rule holds_transition [OF assms(5)])
  ultimately show "sound_row (replaced_row n i q)" by (auto simp: sound_row_def)
qed

lemma replace_memory_effect:
  assumes inv: "memories_inv (mdb_memories db)" and new: "new_record replacement"
  shows "memories_inv (mdb_memories (fst (replace_memory sha parents db oid v replacement key at)))
    \<and> keys_from sha db (fst (replace_memory sha parents db oid v replacement key at))"
proof -
  obtain db' res where run: "replace_memory sha parents db oid v replacement key at = (db', res)" by fastforce
  from inv run have "memories_inv (mdb_memories db') \<and> keys_from sha db db'"
  proof (cases rule: replace_memory_cases)
    case (2 r m n db1)
    have inv1: "memories_inv (mdb_memories db1)" using insert_memory_on_inv [OF 2(11) new inv] .
    have keys1: "keys_from sha db db1" using insert_memory_on_keys [OF 2(11,10)] .
    have "r \<in> set (mdb_memories db1)" using insert_memory_on_cases [OF 2(11)] 2(2) by auto
    note in_table = replaced_in_table [OF inv1 this 2(3,6,7,9,12)]
    have "memories_inv (mdb_memories db')"
      unfolding 2(13) using inv1 by (rule memories_inv_update) (simp add: in_table)
    moreover have "keys_from sha db db'"
      using keys1 unfolding keys_from_def 2(13,14) sql_update_def by fastforce
    ultimately show ?thesis by simp
  qed (simp add: inv keys_from_same)
  then show ?thesis by (simp add: run)
qed

section \<open>The operations of the repository\<close>

text \<open>
  One call of the repository on the tables. \<open>relearn\<close> says whether a purge may lift the tombstones of
  its memory.
\<close>

inductive store_op :: "(rstr \<Rightarrow> byte list) \<Rightarrow> bool \<Rightarrow> memory_db \<Rightarrow> memory_db \<Rightarrow> bool" for sha relearn where
  so_record: "new_record m \<Longrightarrow> store_op sha relearn db (fst (record_memory sha parents db m key))"
| so_link: "store_op sha relearn db (fst (link_memory_entity_on db mid e))"
| so_reinforce: "store_op sha relearn db (fst (reinforce_memory db mid at))"
| so_transition: "store_op sha relearn db (fst (apply_memory_transition sha fresh db mid t at))"
| so_tombstone: "store_op sha relearn db (fst (record_tombstone sha fresh db m key at))"
| so_purge: "(allow \<longrightarrow> relearn) \<Longrightarrow> store_op sha relearn db (fst (purge_memory sha fresh db mid v allow at))"
| so_replace: "new_record m \<Longrightarrow> store_op sha relearn db (fst (replace_memory sha parents db oid v m key at))"
| so_entity: "store_op sha relearn db (fst (record_entity parents db e))"
| so_merge: "store_op sha relearn db (fst (merge_entities db a b at))"
| so_alias: "store_op sha relearn db (fst (record_alias lower fresh db eid kind val ver conf src at))"
| so_relation: "store_op sha relearn db (fst (record_relation fresh parents db w a p b src conf sens actor corr at))"

definition empty_memory_db :: memory_db where
  "empty_memory_db = \<lparr>mdb_memories = [], mdb_links = [], mdb_tombstones = [], mdb_entities = [],
     mdb_aliases = [], mdb_relations = []\<rparr>"

lemma entity_ops_frame:
  "mdb_memories (fst (record_entity parents db e)) = mdb_memories db"
  "mdb_tombstones (fst (record_entity parents db e)) = mdb_tombstones db"
  "mdb_memories (fst (merge_entities db a b at)) = mdb_memories db"
  "mdb_tombstones (fst (merge_entities db a b at)) = mdb_tombstones db"
  "mdb_memories (fst (record_alias lower fresh db eid kind val ver conf src at)) = mdb_memories db"
  "mdb_tombstones (fst (record_alias lower fresh db eid kind val ver conf src at)) = mdb_tombstones db"
  "mdb_memories (fst (record_relation fresh parents db w a p b s conf sens actor corr at)) = mdb_memories db"
  "mdb_tombstones (fst (record_relation fresh parents db w a p b s conf sens actor corr at)) = mdb_tombstones db"
  "mdb_links (fst (record_entity parents db e)) = mdb_links db"
  "mdb_links (fst (merge_entities db a b at)) = mdb_links db"
  "mdb_links (fst (record_alias lower fresh db eid kind val ver conf src at)) = mdb_links db"
  "mdb_links (fst (record_relation fresh parents db w a p b s conf sens actor corr at)) = mdb_links db"
  by (simp_all add: record_entity_def merge_entities_def write_merge_def record_alias_def record_relation_def
      Let_def split: sum.split)

lemma reinforce_memory_effect:
  "memories_inv (mdb_memories db) \<Longrightarrow> memories_inv (mdb_memories (fst (reinforce_memory db mid at)))
    \<and> keys_from sha db (fst (reinforce_memory db mid at))"
  by (simp add: reinforce_memory_def write_reinforcement_effect keys_from_same split: sum.split)

lemma record_tombstone_frame:
  "mdb_memories (fst (record_tombstone sha fresh db m key at)) = mdb_memories db"
  "set (mdb_tombstones db) \<subseteq> set (mdb_tombstones (fst (record_tombstone sha fresh db m key at)))"
  by (simp_all add: record_tombstone_def insert_tombstone_frame)

lemma store_op_inv:
  assumes "store_op sha relearn db db'" "memories_inv (mdb_memories db)"
  shows "memories_inv (mdb_memories db')"
  using assms
  by (cases rule: store_op.cases)
    (simp_all add: record_memory_inv link_memory_entity_on_frame reinforce_memory_effect
      apply_memory_transition_effect [OF _ refl] record_tombstone_frame purge_memory_inv replace_memory_effect
      entity_ops_frame)

lemma store_op_keys:
  assumes "store_op sha False db db'" "memories_inv (mdb_memories db)"
  shows "keys_from sha db db'"
  using assms
  by (cases rule: store_op.cases)
    (simp_all add: record_memory_keys link_memory_entity_on_frame reinforce_memory_effect
      apply_memory_transition_effect [OF _ refl] record_tombstone_frame purge_memory_keys replace_memory_effect
      entity_ops_frame keys_from_same)

lemma store_ops_inv:
  "(store_op sha relearn)\<^sup>*\<^sup>* db db' \<Longrightarrow> memories_inv (mdb_memories db) \<Longrightarrow> memories_inv (mdb_memories db')"
  by (induction rule: rtranclp_induct) (auto intro: store_op_inv)

lemma empty_memory_db_inv: "memories_inv (mdb_memories empty_memory_db)"
  by (simp add: empty_memory_db_def memories_inv_def one_per_key_def)

text \<open>No row of the workspace has a key with the hash of a forgotten one.\<close>

definition forgotten :: "(rstr \<Rightarrow> byte list) \<Rightarrow> ident \<Rightarrow> rstr \<Rightarrow> memory_db \<Rightarrow> bool" where
  "forgotten sha w key db \<longleftrightarrow> is_tombstoned sha db w key
     \<and> (\<forall>r \<in> set (mdb_memories db). \<forall>k. mr_workspace_id r = w \<longrightarrow> mr_search_key r = Some k
         \<longrightarrow> search_key_hash sha k \<noteq> search_key_hash sha key)"

lemma forgotten_keys_from:
  assumes "forgotten sha w key db" "keys_from sha db db'"
  shows "forgotten sha w key db'"
proof -
  have kept: "is_tombstoned sha db' w key"
    using assms by (auto simp: forgotten_def keys_from_def is_tombstoned_def list_ex_iff)
  have "search_key_hash sha k \<noteq> search_key_hash sha key"
    if r: "r \<in> set (mdb_memories db')" "mr_workspace_id r = w" "mr_search_key r = Some k" for r k
  proof
    assume same: "search_key_hash sha k = search_key_hash sha key"
    then have "is_tombstoned sha db w k" using assms(1) by (simp add: forgotten_def is_tombstoned_def)
    with assms(2) r obtain q where "q \<in> set (mdb_memories db)" "mr_workspace_id q = w" "mr_search_key q = Some k"
      unfolding keys_from_def by blast
    with assms(1) same show False by (simp add: forgotten_def)
  qed
  with kept show ?thesis by (simp add: forgotten_def)
qed

lemma forgotten_ops:
  assumes "(store_op sha False)\<^sup>*\<^sup>* db db'" "memories_inv (mdb_memories db)" "forgotten sha w key db"
  shows "forgotten sha w key db'"
  using assms(1)
proof (induction rule: rtranclp_induct)
  case (step db1 db2)
  with forgotten_keys_from store_op_keys store_ops_inv [OF step(1) assms(2)] show ?case by blast
qed (rule assms(3))

end
