(* ===== verification/Memory_Guarantees.thy ===== *)
theory Memory_Guarantees
  imports Memory_Store_Laws
begin

text \<open>
  The guarantees of the memory store over every history of repository calls: a forgotten claim stays
  forgotten, the table stays sound, a correction happens whole or not at all, a recorded memory reads
  back as itself. The last sections show where the code falls short of its own documentation.
\<close>

section \<open>Forgetting\<close>

lemma purge_forgets:
  assumes inv: "memories_inv (mdb_memories db)"
    and r: "r \<in> set (mdb_memories db)" "mr_id r = mid" "mr_workspace_id r = w" "mr_search_key r = Some key"
    and run: "purge_memory sha fresh db mid v False at = (db', Ok ())"
    and no_collision: "\<forall>q \<in> set (mdb_memories db). \<forall>k. mr_search_key q = Some k
      \<longrightarrow> search_key_hash sha k = search_key_hash sha key \<longrightarrow> k = key"
  shows "forgotten sha w key db'" "\<not> memory_exists db' mid"
proof -
  have f: "find (\<lambda>q. mr_id q = mid) (mdb_memories db) = Some r" using find_memory_by_id [OF inv r(1)] r(2) by simp
  obtain db1 x where t: "write_tombstone_on sha fresh db r mid at = (db1, x)" by fastforce
  with run f have x: "x = Ok ()" and db': "db' = delete_memory_row db1 mid"
    by (auto simp: purge_memory_def split: if_splits sum.splits)
  have mems: "mdb_memories db1 = mdb_memories db" using write_tombstone_on_frame(1) [of sha fresh db r mid at] t by simp
  have "is_tombstoned sha db1 w key"
    using t x r by (auto simp: write_tombstone_on_def insert_tombstone_def is_tombstoned_def list_ex_iff split: if_splits)
  moreover have "search_key_hash sha k \<noteq> search_key_hash sha key"
    if q: "q \<in> set (mdb_memories db')" "mr_workspace_id q = w" "mr_search_key q = Some k" for q k
  proof
    assume "search_key_hash sha k = search_key_hash sha key"
    moreover from q obtain p where p: "p \<in> set (mdb_memories db)" "mr_id p \<noteq> mid" "mr_workspace_id p = w"
        "mr_search_key p = Some k"
      by (auto simp: db' delete_memory_row_rows mems)
    ultimately have "k = key" using no_collision by blast
    with p r inv have "p = r" unfolding memories_inv_def one_per_key_def by (metis option.distinct(1))
    with p r show False by simp
  qed
  ultimately show "forgotten sha w key db'"
    by (simp add: forgotten_def db') (simp add: delete_memory_row_rows is_tombstoned_def)
  show "\<not> memory_exists db' mid" by (auto simp: memory_exists_def db' delete_memory_row_rows list_ex_iff)
qed



text \<open>A correction happens whole or not at all. When it fails nothing changed; when it succeeds the
  original is archived and names the replacement, the replacement is the one new row and names the
  original, and every other row is as it was.\<close>

theorem replacement_atomic:
  assumes "(store_op sha True)\<^sup>*\<^sup>* empty_memory_db db"
    and "replace_memory sha parents db oid v replacement key at = (db', res)"
  shows "(res \<noteq> Ok () \<longrightarrow> db' = db)
    \<and> (res = Ok () \<longrightarrow> (\<exists>r m n. r \<in> set (mdb_memories db) \<and> mr_id r = oid \<and> mr_version r = v
        \<and> mr_superseded_by r = None \<and> decode_memory r = Ok m \<and> replace_with m (mem_id replacement) at = Ok n
        \<and> mem_status n = Mem_Archived \<and> mem_supersedes replacement = Some oid
        \<and> mdb_memories db' = map (\<lambda>q. if q = r then replaced_row n (mem_id replacement) q else q) (mdb_memories db)
            @ [memory_row_of replacement key]))"
proof -
  have inv: "memories_inv (mdb_memories db)" using store_ops_inv [OF assms(1) empty_memory_db_inv] .
  from inv assms(2) show ?thesis
  proof (cases rule: replace_memory_cases)
    case (2 r m n db1)
    have rows: "mdb_memories db1 = mdb_memories db @ [memory_row_of replacement key]"
      and fresh: "\<not> memory_exists db (mem_id replacement)"
      using insert_memory_on_cases [OF 2(11)] by auto
    have "mr_superseded_by r = mem_superseded_by m" using 2(7) by (auto elim: holdsE)
    then have n: "mem_status n = Mem_Archived" "mem_status m \<noteq> Mem_Deleted"
      using 2(6,9) by (auto simp: replace_with_def MemoryStatus_is_terminal_def split: if_splits)
    have "mem_id replacement \<noteq> oid" using fresh 2(2,3) by (auto simp: memory_exists_def list_ex_iff)
    then have "\<not> replaceable oid v (memory_row_of replacement key)"
      by (simp add: replaceable_def memory_row_of_def Let_def)
    moreover have "replaceable oid v q \<longleftrightarrow> q = r" if "q \<in> set (mdb_memories db)" for q
      using memories_inv_inj [OF inv that 2(2)] 2(3,5,6) by (auto simp: replaceable_def)
    ultimately have "mdb_memories db' = map (\<lambda>q. if q = r then replaced_row n (mem_id replacement) q else q) (mdb_memories db)
        @ [memory_row_of replacement key]"
      by (simp add: 2(13) rows sql_update_def)
    moreover have "decode_memory r = Ok m" using decode_row_for [OF 2(7)] n(2) by simp
    ultimately show ?thesis using 2 n(1) by blast
  qed auto
qed

section \<open>Links\<close>

definition links_ok :: "memory_db \<Rightarrow> bool" where
  "links_ok db \<longleftrightarrow> (\<forall>l \<in> set (mdb_links db). memory_exists db (lk_memory_id l))"

lemma memory_exists_iff: "memory_exists db mid \<longleftrightarrow> mid \<in> mr_id ` set (mdb_memories db)"
  by (auto simp: memory_exists_def list_ex_iff)

lemma links_ok_frame:
  assumes "links_ok db" "mdb_links db' = mdb_links db"
    and "mr_id ` set (mdb_memories db) \<subseteq> mr_id ` set (mdb_memories db')"
  shows "links_ok db'"
  using assms by (auto simp: links_ok_def memory_exists_iff)

lemma sql_update_ids:
  assumes "\<And>r. mr_id (f r) = mr_id r"
  shows "mr_id ` set (sql_update P f rows) = mr_id ` set rows"
proof -
  have "map mr_id (sql_update P f rows) = map mr_id rows" by (simp add: sql_update_def assms)
  then show ?thesis by (metis set_map)
qed

lemma link_memory_entity_on_links: "links_ok db \<Longrightarrow> links_ok (fst (link_memory_entity_on db mid e))"
  by (auto simp: link_memory_entity_on_def Let_def links_ok_def memory_exists_def sql_update_def)

lemma link_entities_links: "links_ok db \<Longrightarrow> links_ok (fst (link_entities db mid es))"
proof (induction es arbitrary: db)
  case (Cons e es)
  obtain db1 r where "link_memory_entity_on db mid e = (db1, r)" by fastforce
  with Cons.IH [of db1] Cons.prems link_memory_entity_on_links [of db mid e] show ?case
    by (simp split: sum.split)
qed simp

lemma insert_memory_on_links:
  assumes "insert_memory_on parents db m key = (db', res)"
  shows "mdb_links db' = mdb_links db" "mr_id ` set (mdb_memories db) \<subseteq> mr_id ` set (mdb_memories db')"
  using insert_memory_on_cases [OF assms] by auto

lemma write_memory_links: "links_ok db \<Longrightarrow> links_ok (fst (write_memory parents db m key))"
proof -
  assume ok: "links_ok db"
  obtain db1 res where i: "insert_memory_on parents db m key = (db1, res)" by fastforce
  have ok1: "links_ok db1" by (rule links_ok_frame [OF ok insert_memory_on_links [OF i]])
  then show ?thesis
    using link_entities_links [OF ok1, of "mem_id m" "mem_entities m"]
    by (simp add: write_memory_def i fst_passed_on split: sum.split)
qed

lemma tombstone_links: "mdb_links (fst (insert_tombstone db row)) = mdb_links db"
  by (simp add: insert_tombstone_def)

lemma write_transition_links: "mdb_links (fst (write_transition sha fresh db mid sm t at)) = mdb_links db"
  by (simp add: write_transition_def Let_def fst_passed_on record_tombstone_def tombstone_links
      split: sum.split option.split)

lemma apply_memory_transition_links:
  assumes "links_ok db" "memories_inv (mdb_memories db)"
  shows "links_ok (fst (apply_memory_transition sha fresh db mid t at))"
proof (cases "find_memory db mid")
  case (Inr sm)
  from find_memory_Ok [OF Inr assms(2)] obtain r m es where "r \<in> set (mdb_memories db)" and r: "mr_id r = mid"
      and "holds r m" and sm:
      "sm_record sm = m\<lparr>mem_entities := es\<rparr>" "sm_search_key sm = mr_search_key r" "sm_version sm = mr_version r" .
  have w: "fst (apply_memory_transition sha fresh db mid t at) = fst (write_transition sha fresh db mid sm t at)"
    by (simp add: apply_memory_transition_def Inr)
  have "mr_id ` set (mdb_memories (fst (write_transition sha fresh db mid sm t at))) = mr_id ` set (mdb_memories db)"
  proof (cases "transition_record t m at")
    case (Inr n)
    from write_transition_cases [OF r sm Inr refl refl, of sha fresh db] show ?thesis
      by (elim disjE conjE) (simp_all add: sql_update_ids)
  qed (simp add: write_transition_def sm transition_record_entities)
  then show ?thesis by (intro links_ok_frame [OF assms(1)]) (simp_all add: w write_transition_links)
qed (simp add: apply_memory_transition_def assms)

lemma purge_memory_links: "links_ok db \<Longrightarrow> links_ok (fst (purge_memory sha fresh db mid v relearn at))"
proof -
  assume ok: "links_ok db"
  have t: "mdb_links (fst (write_tombstone_on sha fresh db r mid at)) = mdb_links db"
    "mdb_memories (fst (write_tombstone_on sha fresh db r mid at)) = mdb_memories db" for r
    by (simp_all add: write_tombstone_on_def tombstone_links insert_tombstone_frame split: option.split)
  have d: "links_ok d \<Longrightarrow> links_ok (delete_memory_row d mid)" for d
    by (fastforce simp: links_ok_def memory_exists_def delete_memory_row_def list_ex_iff)
  have w: "links_ok (fst (write_tombstone_on sha fresh db r mid at))" for r
    by (rule links_ok_frame [OF ok]) (simp_all add: t)
  have l: "links_ok (db\<lparr>mdb_tombstones := ts\<rparr>)" for ts
    by (rule links_ok_frame [OF ok]) simp_all
  show ?thesis
    using ok w l d by (auto simp: purge_memory_def split: option.split prod.split sum.split) (metis fst_conv)+
qed

lemma replace_memory_links:
  assumes "links_ok db" shows "links_ok (fst (replace_memory sha parents db oid v m key at))"
proof -
  have "links_ok (fst (write_replacement parents db oid v m key n))" for n
  proof -
    obtain db1 ins where i: "insert_memory_on parents db m key = (db1, ins)" by fastforce
    obtain db2 lk where lk: "link_entities db1 (mem_id m) (mem_entities m) = (db2, lk)" by fastforce
    have "links_ok db1" by (rule links_ok_frame [OF assms insert_memory_on_links [OF i]])
    then have ok2: "links_ok db2" using link_entities_links [of db1 "mem_id m" "mem_entities m"] lk by simp
    have "links_ok (db2\<lparr>mdb_memories := sql_update (replaceable oid v) (replaced_row n (mem_id m)) (mdb_memories db2)\<rparr>)"
      by (rule links_ok_frame [OF ok2]) (simp_all add: sql_update_ids)
    then show ?thesis using assms by (simp add: write_replacement_def i lk Let_def split: sum.split)
  qed
  with assms show ?thesis by (simp add: replace_memory_def split: sum.split)
qed

lemma store_op_links:
  assumes "store_op sha relearn db db'" "memories_inv (mdb_memories db)" "links_ok db"
  shows "links_ok db'"
  using assms(1)
proof (cases rule: store_op.cases)
  case (so_record m parents key)
  then show ?thesis using assms(3) by (simp add: record_memory_def write_memory_links)
next
  case (so_reinforce mid at)
  have "links_ok (fst (write_reinforcement db mid sm at))" for sm
    using assms(3)
    by (auto simp: write_reinforcement_def Let_def intro!: links_ok_frame [of db] simp: sql_update_ids)
  then show ?thesis using so_reinforce assms(3) by (simp add: reinforce_memory_def split: sum.split)
next
  case (so_tombstone fresh m key at)
  show ?thesis
    by (rule links_ok_frame [OF assms(3)])
      (simp_all add: so_tombstone record_tombstone_def tombstone_links insert_tombstone_frame)
next
  case (so_transition fresh mid t at)
  then show ?thesis using apply_memory_transition_links [OF assms(3,2)] by simp
next
  case (so_link mid e)
  then show ?thesis using link_memory_entity_on_links [OF assms(3)] by simp
next
  case (so_purge allow fresh mid v at)
  then show ?thesis using purge_memory_links [OF assms(3)] by simp
next
  case (so_replace m parents oid v key at)
  then show ?thesis using replace_memory_links [OF assms(3)] by simp
qed (rule links_ok_frame [OF assms(3)]; simp add: entity_ops_frame)+

lemma store_ops_links:
  assumes "(store_op sha relearn)\<^sup>*\<^sup>* empty_memory_db db" shows "links_ok db"
  using assms
proof (induction rule: rtranclp_induct)
  case base
  show ?case by (simp add: links_ok_def empty_memory_db_def)
next
  case (step db1 db2)
  with store_op_links store_ops_inv [OF step(1) empty_memory_db_inv] show ?case by blast
qed

text \<open>The links of a memory that had none.\<close>

definition link_of :: "ident \<Rightarrow> EntityRef \<Rightarrow> memory_link_row" where
  "link_of mid e = \<lparr>lk_memory_id = mid, lk_entity_id = ent_id e,
     lk_matched_by = EntityMatch_as_str (ent_matched_by e)\<rparr>"

lemma link_entities_new:
  assumes "link_entities db mid es = (db', Ok ())" "distinct (map ent_id es)"
    and "\<forall>l \<in> set (mdb_links db). lk_memory_id l = mid \<longrightarrow> lk_entity_id l \<notin> ent_id ` set es"
  shows "mdb_links db' = mdb_links db @ map (link_of mid) es"
  using assms
proof (induction es arbitrary: db)
  case (Cons e es)
  obtain db1 r where l: "link_memory_entity_on db mid e = (db1, r)" by fastforce
  have "mdb_links db1 = mdb_links db @ [link_of mid e]" and "r = Ok ()"
    using l Cons.prems by (auto simp: link_memory_entity_on_def Let_def link_of_def list_ex_iff split: if_splits)
  moreover have "link_entities db1 mid es = (db', Ok ())" using Cons.prems(1) l \<open>r = Ok ()\<close> by simp
  ultimately show ?case
    using Cons.IH [of db1] Cons.prems(2,3) by (auto simp: link_of_def)
qed simp

lemma decode_links: "collect_results decode_link (map (link_of mid) es) = Ok es"
  by (induction es) (simp_all add: decode_link_def link_of_def stored_invalid_def)

text \<open>C36: a memory that was recorded reads back as itself: the row, the links and the search key.\<close>

theorem recorded_reads_back:
  assumes "(store_op sha True)\<^sup>*\<^sup>* empty_memory_db db" "new_record m"
    and "record_memory sha parents db m key = (db', Ok mid)"
  shows "mid = mem_id m \<and> find_memory db' mid = Ok \<lparr>sm_record = m, sm_search_key = Some key, sm_version = 1\<rparr>"
proof -
  have inv: "memories_inv (mdb_memories db)" using store_ops_inv [OF assms(1) empty_memory_db_inv] .
  obtain db1 ins where i: "insert_memory_on parents db m key = (db1, ins)" by fastforce
  obtain db2 lk where lk: "link_entities db1 (mem_id m) (mem_entities m) = (db2, lk)" by fastforce
  have run: "write_memory parents db m key = (db', Ok mid)"
    using assms(3) by (simp add: record_memory_def split: if_splits)
  have "\<not> isl ins"
    using run by (cases ins) (simp_all add: write_memory_def i)
  moreover have "ins \<noteq> Ok 0"
    using run by (auto simp: write_memory_def i)
  ultimately have ins: "ins = Ok 1" using insert_memory_on_cases [OF i] by blast
  with run have ok: "lk = Ok ()" "db' = db2" "mid = mem_id m"
    by (auto simp: write_memory_def i lk split: sum.splits)
  have mems: "mdb_memories db1 = mdb_memories db @ [memory_row_of m key]" and fresh: "\<not> memory_exists db (mem_id m)"
    using insert_memory_on_cases [OF i] ins by auto
  have mems': "mdb_memories db' = mdb_memories db1"
    using link_entities_frame [of db1 "mem_id m" "mem_entities m"] lk ok by simp
  have inv': "memories_inv (mdb_memories db')"
    using insert_memory_on_inv [OF i assms(2) inv] mems' by simp
  have "memory_row_of m key \<in> set (mdb_memories db')" "mr_id (memory_row_of m key) = mem_id m"
    by (simp_all add: mems' mems memory_row_of_def Let_def)
  with find_memory_by_id [OF inv'] have f: "find (\<lambda>r. mr_id r = mem_id m) (mdb_memories db') = Some (memory_row_of m key)"
    by metis
  have d: "decode_memory (memory_row_of m key) = Ok (m\<lparr>mem_entities := []\<rparr>)"
    using decode_row_for [OF holds_new [OF assms(2)]] new_record_facts(6) [OF assms(2)] by simp
  have wf: "sorted (map ent_id (mem_entities m))" "distinct (map ent_id (mem_entities m))"
    using new_record_facts(1) [OF assms(2)] by (simp_all add: record_ok_def memory_wf_def)
  have none: "lk_memory_id l \<noteq> mem_id m" if "l \<in> set (mdb_links db)" for l
    using store_ops_links [OF assms(1)] fresh that by (auto simp: links_ok_def)
  have "mdb_links db1 = mdb_links db" using insert_memory_on_links(1) [OF i] .
  with link_entities_new [OF lk [unfolded ok(1)] wf(2)] none
  have links: "mdb_links db' = mdb_links db @ map (link_of (mem_id m)) (mem_entities m)" by (auto simp: ok(2))
  have "filter (\<lambda>l. lk_memory_id l = mem_id m) (mdb_links db') = map (link_of (mem_id m)) (mem_entities m)"
    using none by (simp add: links filter_map o_def link_of_def cong: filter_cong)
  moreover have "sort_key lk_entity_id (map (link_of (mem_id m)) (mem_entities m)) = map (link_of (mem_id m)) (mem_entities m)"
    using wf(1) by (intro sort_key_id_if_sorted) (simp add: link_of_def o_def)
  ultimately have "load_linked_entities db' (m\<lparr>mem_entities := []\<rparr>) = Ok (replace_entities (m\<lparr>mem_entities := []\<rparr>) (mem_entities m))"
    by (simp add: load_linked_entities_def decode_links)
  moreover have "replace_entities (m\<lparr>mem_entities := []\<rparr>) (mem_entities m) = m"
    using wf by (simp add: replace_entities_def dedupe_entities_distinct sort_key_id_if_sorted)
  ultimately show ?thesis
    using ok(3) by (simp add: find_memory_def f d) (simp add: memory_row_of_def Let_def)
qed

section \<open>Witnesses\<close>

lemma encode_hex_glob: "hex_glob (2 * length bs) (encode_hex bs)"
proof -
  have "\<forall>n < 16. is_ascii_digit (hex_digit n) \<or> (97 \<le> hex_digit n \<and> hex_digit n \<le> 102)"
    by (simp add: hex_digit_def lit_def is_ascii_digit_def numeral_eq_Suc All_less_Suc)
  then have "list_all (\<lambda>b. is_ascii_digit b \<or> (97 \<le> b \<and> b \<le> 102)) (encode_hex bs)"
    by (induction bs) (auto simp: nibbles)
  then show ?thesis by (simp add: hex_glob_def)
qed

definition sample_uuid :: "nat \<Rightarrow> ident" where
  "sample_uuid c = replicate 36 c"

lemma sample_uuid_facts [simp]: "length (sample_uuid c) = 36" "sample_uuid a = sample_uuid b \<longleftrightarrow> a = b"
  by (simp_all add: sample_uuid_def)

definition sample_hash :: "rstr \<Rightarrow> byte list" where
  "sample_hash _ = replicate 32 0"

definition sample_parents :: parent_rows where
  "sample_parents = \<lparr>par_workspace = \<lambda>_. True, par_run = \<lambda>_. True\<rparr>"

definition sample_entity :: NewEntity where
  "sample_entity = \<lparr>ne_id = sample_uuid 101, ne_workspace_id = sample_uuid 119, ne_kind = Person,
     ne_label = lit ''You'', ne_attributes = None, ne_confidence = Conf_Confirmed, ne_created_at = 0\<rparr>"

definition sample_entity_db :: memory_db where
  "sample_entity_db = fst (record_entity sample_parents empty_memory_db sample_entity)"

lemma sample_entity_db_facts:
  "mdb_memories sample_entity_db = []" "mdb_links sample_entity_db = []" "mdb_tombstones sample_entity_db = []"
  "map er_id (mdb_entities sample_entity_db) = [sample_uuid 101]"
proof -
  have "trim (lit ''You'') = lit ''You''" by (simp add: trim_def lit_def is_whitespace_def)
  then show "mdb_memories sample_entity_db = []" "mdb_links sample_entity_db = []" "mdb_tombstones sample_entity_db = []"
    "map er_id (mdb_entities sample_entity_db) = [sample_uuid 101]"
    by (simp_all add: sample_entity_db_def record_entity_def sample_entity_def empty_memory_db_def Let_def
        sample_parents_def entity_checks_def EntityKind_all_def chars_between_def null_or_def lit_def)
qed

definition sample_store_parts :: MemoryRecordParts where
  "sample_store_parts = sample_memory_parts\<lparr>mp_id := sample_uuid 97, mp_workspace_id := sample_uuid 119,
     mp_entities := [EntityRef_confirmed (sample_uuid 101)], mp_correlation_id := sample_uuid 99\<rparr>"

definition sample_stored_memory :: MemoryRecord where
  "sample_stored_memory = built_record sample_store_parts"

lemma sample_stored_memory_new: "MemoryRecord_new sample_store_parts = Ok sample_stored_memory" "new_record sample_stored_memory"
proof -
  show new: "MemoryRecord_new sample_store_parts = Ok sample_stored_memory"
    by (simp add: MemoryRecord_new_def MemoryRecord_build_iff sample_stored_memory_def)
      (simp add: sample_store_parts_def sample_memory_parts_def sample_trims memory_bounds dedupe_entities_def
        parts_valid_from_def sample_source_def is_model_produced_def)
  have "source_wf (mp_source sample_store_parts)"
    using MemorySource_new_source_wf [OF sample_source_new] by (simp add: sample_store_parts_def sample_memory_parts_def)
  with new show "new_record sample_stored_memory"
    unfolding new_record_def by (intro exI [of _ sample_store_parts]) (simp add: sample_store_parts_def sample_memory_parts_def)
qed

lemma sample_stored_fields:
  "mem_id sample_stored_memory = sample_uuid 97" "mem_workspace_id sample_stored_memory = sample_uuid 119"
  "mem_entities sample_stored_memory = [EntityRef_confirmed (sample_uuid 101)]" "mem_supersedes sample_stored_memory = None"
  by (simp_all add: sample_stored_memory_def built_record_def sample_store_parts_def sample_memory_parts_def dedupe_entities_def)

definition sample_store_db :: memory_db where
  "sample_store_db = fst (record_memory sample_hash sample_parents sample_entity_db sample_stored_memory (lit ''k''))"

lemma sample_memory_row_checks: "memory_checks (memory_row_of sample_stored_memory (lit ''k''))"
  by (simp add: memory_checks_def memory_row_of_def Let_def sample_stored_memory_def built_record_def sample_store_parts_def
      sample_memory_parts_def sample_source_def sample_trims claim_columns_def null_or_def chars_between_def
      source_columns_def memory_types_def sensitivities_def is_model_produced_def memory_bounds)

lemma sample_recorded:
  "record_memory sample_hash sample_parents sample_entity_db sample_stored_memory (lit ''k'') = (sample_store_db, Ok (sample_uuid 97))"
  "mdb_memories sample_store_db = [memory_row_of sample_stored_memory (lit ''k'')]" "mdb_tombstones sample_store_db = []"
  and sample_entities: "mdb_entities sample_store_db = mdb_entities sample_entity_db"
  and sample_links: "mdb_links sample_store_db = [link_of (sample_uuid 97) (EntityRef_confirmed (sample_uuid 101))]"
proof -
  let ?row = "memory_row_of sample_stored_memory (lit ''k'')"
  have row: "mr_id ?row = sample_uuid 97" "mr_workspace_id ?row = sample_uuid 119" "mr_run_id ?row = None"
    "mr_supersedes ?row = None" "mr_superseded_by ?row = None"
    by (simp_all add: memory_row_of_def Let_def sample_stored_memory_def built_record_def sample_store_parts_def sample_memory_parts_def)
  have ent: "list_ex (\<lambda>e. er_id e = sample_uuid 101) (mdb_entities sample_entity_db)"
    using sample_entity_db_facts(4) by (auto simp: list_ex_iff)
  have "record_memory sample_hash sample_parents sample_entity_db sample_stored_memory (lit ''k'')
    = (sample_entity_db\<lparr>mdb_memories := [?row],
        mdb_links := [link_of (sample_uuid 97) (EntityRef_confirmed (sample_uuid 101))]\<rparr>, Ok (sample_uuid 97))"
    by (simp add: record_memory_def is_tombstoned_def sample_entity_db_facts write_memory_def insert_memory_on_def
        Let_def sample_memory_row_checks memory_exists_def memory_parents_def row null_or_def sample_parents_def
        sample_stored_fields link_memory_entity_on_def EntityRef_confirmed_def ent link_of_def)
  then show "record_memory sample_hash sample_parents sample_entity_db sample_stored_memory (lit ''k'') = (sample_store_db, Ok (sample_uuid 97))"
    "mdb_memories sample_store_db = [?row]" "mdb_tombstones sample_store_db = []"
    "mdb_entities sample_store_db = mdb_entities sample_entity_db"
    "mdb_links sample_store_db = [link_of (sample_uuid 97) (EntityRef_confirmed (sample_uuid 101))]"
    by (simp_all add: sample_store_db_def sample_entity_db_facts)
qed

lemma sample_store_reachable:
  "(store_op sample_hash True)\<^sup>*\<^sup>* empty_memory_db sample_entity_db"
  "(store_op sample_hash True)\<^sup>*\<^sup>* empty_memory_db sample_store_db"
proof -
  show e: "(store_op sample_hash True)\<^sup>*\<^sup>* empty_memory_db sample_entity_db"
    using so_entity [of sample_hash True empty_memory_db sample_parents sample_entity] by (auto simp: sample_entity_db_def)
  show "(store_op sample_hash True)\<^sup>*\<^sup>* empty_memory_db sample_store_db"
    using e so_record [OF sample_stored_memory_new(2), of sample_hash True sample_entity_db sample_parents "lit ''k''"]
    by (simp add: sample_store_db_def rtranclp.rtrancl_into_rtrancl)
qed


theorem recorded_reads_back_witness:
  "find_memory sample_store_db (sample_uuid 97)
    = Ok \<lparr>sm_record = sample_stored_memory, sm_search_key = Some (lit ''k''), sm_version = 1\<rparr>"
  using recorded_reads_back [OF sample_store_reachable(1) sample_stored_memory_new(2) sample_recorded(1)] by blast

lemma sample_purged:
  "snd (purge_memory sample_hash (sample_uuid 102) sample_store_db (sample_uuid 97) 1 False 9) = Ok ()"
proof -
  let ?row = "memory_row_of sample_stored_memory (lit ''k'')"
  have row: "mr_id ?row = sample_uuid 97" "mr_version ?row = 1" "mr_search_key ?row = Some (lit ''k'')"
    "mr_workspace_id ?row = sample_uuid 119"
    by (simp_all add: memory_row_of_def Let_def sample_stored_fields)
  have more: "mr_memory_type ?row \<in> memory_types" "chars_between 1 128 (mr_created_by ?row)" "length (mr_correlation_id ?row) = 36"
    using sample_memory_row_checks by (simp_all add: memory_checks_def)
  have "hex_glob 64 (search_key_hash sample_hash (lit ''k''))"
    using encode_hex_glob [of "sample_hash (lit ''k'')"] by (simp add: search_key_hash_def sample_hash_def)
  with more show ?thesis
    by (simp add: purge_memory_def sample_recorded row write_tombstone_on_def insert_tombstone_def tombstone_checks_def
        rows_affected_def)
qed


text \<open>A correction that succeeds.\<close>

definition sample_replacement_parts :: MemoryRecordParts where
  "sample_replacement_parts = sample_store_parts\<lparr>mp_id := sample_uuid 98, mp_supersedes := Some (sample_uuid 97)\<rparr>"

definition sample_replacement :: MemoryRecord where
  "sample_replacement = built_record sample_replacement_parts"

lemma sample_replacement_fields:
  "mem_id sample_replacement = sample_uuid 98" "mem_workspace_id sample_replacement = sample_uuid 119"
  "mem_entities sample_replacement = [EntityRef_confirmed (sample_uuid 101)]"
  "mem_supersedes sample_replacement = Some (sample_uuid 97)"
  by (simp_all add: sample_replacement_def sample_replacement_parts_def built_record_def sample_store_parts_def
      sample_memory_parts_def dedupe_entities_def)

lemma sample_replacement_checks:
  "memory_checks (memory_row_of sample_replacement (lit ''j''))"
proof -
  have "memory_row_of sample_replacement (lit ''j'') = (memory_row_of sample_stored_memory (lit ''k''))
      \<lparr>mr_id := sample_uuid 98, mr_supersedes := Some (sample_uuid 97), mr_search_key := Some (lit ''j'')\<rparr>"
    by (simp add: memory_row_of_def Let_def sample_replacement_def sample_replacement_parts_def sample_stored_memory_def
        built_record_def parts_valid_from_def sample_store_parts_def sample_memory_parts_def)
  moreover have "mr_status (memory_row_of sample_stored_memory (lit ''k'')) = lit ''proposed''"
    by (simp add: memory_row_of_def Let_def sample_stored_memory_def built_record_def sample_store_parts_def
        sample_memory_parts_def sample_source_def is_model_produced_def)
  moreover have "lit ''proposed'' \<noteq> lit ''deleted''" "chars_between 1 512 (lit ''j'')"
    "mr_superseded_by (memory_row_of sample_stored_memory (lit ''k'')) = None"
    by (simp_all add: lit_def chars_between_def memory_row_of_def Let_def sample_stored_memory_def built_record_def)
  ultimately show ?thesis using sample_memory_row_checks by (simp add: memory_checks_def null_or_def)
qed

lemma sample_replaced:
  "snd (replace_memory sample_hash sample_parents sample_store_db (sample_uuid 97) 1 sample_replacement (lit ''j'') 9) = Ok ()"
proof -
  let ?row = "memory_row_of sample_stored_memory (lit ''k'')" and ?new = "memory_row_of sample_replacement (lit ''j'')"
  let ?m = "sample_stored_memory\<lparr>mem_entities := []\<rparr>"
  have status: "mem_status sample_stored_memory = Mem_Proposed" "mem_superseded_by sample_stored_memory = None"
    by (simp_all add: sample_stored_memory_def built_record_def sample_store_parts_def sample_memory_parts_def
        sample_source_def is_model_produced_def)
  have row: "mr_id ?row = sample_uuid 97" "mr_workspace_id ?row = sample_uuid 119" "mr_version ?row = 1"
    "mr_superseded_by ?row = None" "mr_search_key ?row = Some (lit ''k'')"
    and new: "mr_id ?new = sample_uuid 98" "mr_workspace_id ?new = sample_uuid 119" "mr_run_id ?new = None"
    "mr_supersedes ?new = Some (sample_uuid 97)" "mr_superseded_by ?new = None"
    by (simp_all add: memory_row_of_def Let_def sample_stored_fields sample_replacement_fields status
        sample_replacement_def sample_replacement_parts_def built_record_def sample_store_parts_def sample_memory_parts_def)
  have d: "decode_stored_memory ?row = Ok \<lparr>sm_record = ?m, sm_search_key = Some (lit ''k''), sm_version = 1\<rparr>"
    using decode_row_for [OF holds_new [OF sample_stored_memory_new(2)], of "lit ''k''"] status(1) row
    by (simp add: decode_stored_memory_def)
  have n: "replace_with ?m (sample_uuid 98) 9 = Ok (?m\<lparr>mem_superseded_by := Some (sample_uuid 98),
      mem_status := Mem_Archived, mem_updated_at := 9\<rparr>)" (is "_ = Ok ?n")
    by (simp add: replace_with_def status sample_stored_fields MemoryStatus_is_terminal_def)
  have "lit ''archived'' \<noteq> lit ''deleted''" by (simp add: lit_def)
  moreover have "mr_content ?row \<noteq> []"
    by (simp add: memory_row_of_def Let_def sample_stored_memory_def built_record_def sample_store_parts_def
        sample_memory_parts_def sample_trims)
  ultimately have checks: "memory_checks (replaced_row ?n (sample_uuid 98) ?row)"
    using sample_memory_row_checks row by (simp add: memory_checks_def replaced_row_def)
  have ent: "list_ex (\<lambda>e. er_id e = sample_uuid 101) (mdb_entities sample_store_db)"
    using sample_entity_db_facts(4) by (auto simp: list_ex_iff sample_entities)
  have "lit ''k'' \<noteq> lit ''j''" by (simp add: lit_def)
  then show ?thesis
    by (simp add: replace_memory_def sample_recorded row sample_replacement_fields d n sample_stored_fields status
        is_tombstoned_def write_replacement_def insert_memory_on_def sample_replacement_checks Let_def new
        memory_exists_def memory_parents_def null_or_def sample_parents_def link_memory_entity_on_def
        EntityRef_confirmed_def ent replaceable_def checks rows_affected_def sample_links)
qed

theorem replacement_atomic_witness:
  "\<exists>r. mdb_memories (fst (replace_memory sample_hash sample_parents sample_store_db (sample_uuid 97) 1
        sample_replacement (lit ''j'') 9)) = [r, memory_row_of sample_replacement (lit ''j'')]
    \<and> mr_id r = sample_uuid 97 \<and> mr_superseded_by r = Some (sample_uuid 98)"
proof -
  let ?run = "replace_memory sample_hash sample_parents sample_store_db (sample_uuid 97) 1 sample_replacement (lit ''j'') 9"
  have run: "?run = (fst ?run, Ok ())" using sample_replaced by (metis prod.collapse)
  from replacement_atomic [OF sample_store_reachable(2) run] obtain r n where
      "r \<in> set (mdb_memories sample_store_db)" "mr_id r = sample_uuid 97"
      "mdb_memories (fst ?run) = map (\<lambda>q. if q = r then replaced_row n (mem_id sample_replacement) q else q)
        (mdb_memories sample_store_db) @ [memory_row_of sample_replacement (lit ''j'')]"
    by auto
  then show ?thesis
    by (intro exI [of _ "replaced_row n (sample_uuid 98) r"])
      (simp add: sample_recorded(2) sample_replacement_fields)
qed

section \<open>Where the code and its documentation part\<close>

text \<open>\<open>find_memory\<close> is documented to refuse a deleted row; it is the same read as
  \<open>find_memory_including_deleted\<close>.\<close>

theorem find_memory_reads_deleted: "find_memory db mid = find_memory_including_deleted db mid"
proof (cases "find (\<lambda>r. mr_id r = mid) (mdb_memories db)")
  case (Some row)
  then show ?thesis
    by (cases "decode_memory row") (simp_all add: find_memory_def find_memory_including_deleted_def ok_or_def
        decode_stored_memory_def)
qed (simp add: find_memory_def find_memory_including_deleted_def ok_or_def)

text \<open>A corrected claim keeps its search key: stating it again is answered with the archived row, which
  no retrieval returns, so the claim cannot be taken up again.\<close>

theorem corrected_claim_cannot_return:
  assumes "(store_op sha True)\<^sup>*\<^sup>* empty_memory_db db" "new_record replacement"
    and "r \<in> set (mdb_memories db)" "mr_id r = oid" "mr_search_key r = Some old"
    and "replace_memory sha parents db oid v replacement key at = (db1, Ok ())"
    and "mem_workspace_id m = mr_workspace_id r" "memory_checks (memory_row_of m old)"
    and "\<not> is_tombstoned sha db1 (mr_workspace_id r) old"
  shows "record_memory sha parents db1 m old = (db1, Err (MemoryDuplicate oid))
    \<and> (\<exists>q \<in> set (mdb_memories db1). mr_id q = oid \<and> mr_status q = lit ''archived''
        \<and> \<not> retrievable (mr_workspace_id r) q)"
proof -
  have inv: "memories_inv (mdb_memories db)" using store_ops_inv [OF assms(1) empty_memory_db_inv] .
  have inv1: "memories_inv (mdb_memories db1)"
    using replace_memory_effect [OF inv assms(2), of sha parents oid v key at] by (simp add: assms(6))
  from inv assms(6) show ?thesis
  proof (cases rule: replace_memory_cases)
    case (2 r' m' n db2)
    have "r' = r" using memories_inv_inj [OF inv 2(2) assms(3)] 2(3) assms(4) by simp
    have "mr_superseded_by r' = mem_superseded_by m'" using 2(7) by (auto elim: holdsE)
    then have n: "mem_status n = Mem_Archived"
      using 2(6,9) by (auto simp: replace_with_def split: if_splits)
    let ?q = "replaced_row n (mem_id replacement) r"
    have "r \<in> set (mdb_memories db2)" using insert_memory_on_cases [OF 2(11)] assms(3) by auto
    moreover have "replaceable oid v r" using 2 \<open>r' = r\<close> by (simp add: replaceable_def)
    ultimately have q: "?q \<in> set (mdb_memories db1)" by (auto simp: 2(13) sql_update_def image_iff)
    have "find (\<lambda>x. mr_workspace_id x = mr_workspace_id r \<and> mr_search_key x = Some old) (mdb_memories db1) = Some ?q"
    proof (cases "find (\<lambda>x. mr_workspace_id x = mr_workspace_id r \<and> mr_search_key x = Some old) (mdb_memories db1)")
      case None
      with q assms(5) show ?thesis unfolding find_None_iff by (metis replaced_row_fields(2,3))
    next
      case (Some x)
      with q assms(5) inv1 have "x = ?q"
        unfolding memories_inv_def one_per_key_def by (auto dest!: find_SomeD)
      with Some show ?thesis by simp
    qed
    moreover have "list_ex (\<lambda>x. mr_workspace_id x = mr_workspace_id r \<and> mr_search_key x = Some old) (mdb_memories db1)"
      unfolding list_ex_iff using q assms(5) by (intro bexI [of _ ?q]) simp_all
    moreover have "mr_workspace_id (memory_row_of m old) = mr_workspace_id r"
      by (simp add: memory_row_of_def Let_def assms(7))
    ultimately have "record_memory sha parents db1 m old = (db1, Err (MemoryDuplicate oid))"
      using assms(4,7-9)
      by (simp add: record_memory_def write_memory_def insert_memory_on_def Let_def find_memory_id_by_key_def ok_or_def)
    moreover have "mr_status ?q = lit ''archived''" "lit ''archived'' \<noteq> lit ''active''"
      by (simp_all add: n)
    ultimately show ?thesis using q assms(4) by (intro conjI bexI [of _ ?q]) (simp_all add: retrievable_def)
  qed simp
qed

text \<open>A merge is documented to keep the resolution of an entity at one hop. The target must be active when
  it is merged into, but it may be merged away afterwards: the chain then has two hops.\<close>

definition merged_into :: "memory_db \<Rightarrow> ident \<Rightarrow> ident \<Rightarrow> bool" where
  "merged_into db a b \<longleftrightarrow> (\<exists>e \<in> set (mdb_entities db). er_id e = a \<and> er_status e = lit ''merged'' \<and> er_merged_into e = Some b)"

lemma write_merge_merged:
  assumes "write_merge db a b at = (db', Ok e)"
  shows "merged_into db' (se_id a) (se_id b)"
    "\<And>x y. se_id a \<noteq> x \<Longrightarrow> merged_into db x y \<Longrightarrow> merged_into db' x y"
proof -
  let ?hit = "\<lambda>e. er_id e = se_id a \<and> er_version e = se_version a \<and> er_status e = lit ''active''"
  from assms have db': "db' = db\<lparr>mdb_entities := sql_update ?hit (merge_row (se_id b) at) (mdb_entities db)\<rparr>"
    and "rows_affected ?hit (mdb_entities db) \<noteq> 0"
    by (auto simp: write_merge_def Let_def split: if_splits)
  then obtain r where "r \<in> set (mdb_entities db)" "?hit r" by (auto simp: rows_affected_def filter_empty_conv)
  then show "merged_into db' (se_id a) (se_id b)"
    unfolding merged_into_def db' sql_update_def
    by (intro bexI [of _ "merge_row (se_id b) at r"]) (auto simp: merge_row_def image_iff)
  show "merged_into db' x y" if "se_id a \<noteq> x" "merged_into db x y" for x y
    using that unfolding merged_into_def db' sql_update_def by (auto simp: image_iff)
qed

lemma merge_entities_Ok:
  assumes "merge_entities db a b at = (db', Ok e)"
  obtains sa sb where "write_merge db sa sb at = (db', Ok e)" "se_id sa = a" "se_id sb = b"
proof -
  have id: "find_entity db x = Ok e \<Longrightarrow> se_id e = x" for x e
    by (auto simp: find_entity_def decode_entity_def ok_or_def dest!: find_SomeD split: option.splits)
  show ?thesis
  proof (cases "find_entity db a")
    case a: (Inr sa)
    show ?thesis
    proof (cases "find_entity db b")
      case b: (Inr sb)
      have "write_merge db sa sb at = (db', Ok e)"
        using assms by (simp add: merge_entities_def a b split: if_splits)
      then show ?thesis using id [OF a] id [OF b] by (rule that)
    qed (use assms a in \<open>simp add: merge_entities_def split: if_splits\<close>)
  qed (use assms in \<open>simp add: merge_entities_def split: if_splits\<close>)
qed

theorem merges_can_chain:
  assumes "merge_entities db a b at = (db1, Ok e1)" "merge_entities db1 b c at' = (db2, Ok e2)" "a \<noteq> b"
  shows "merged_into db2 a b \<and> merged_into db2 b c"
proof -
  from assms(1) obtain sa sb where "write_merge db sa sb at = (db1, Ok e1)" "se_id sa = a" "se_id sb = b"
    by (rule merge_entities_Ok)
  moreover from assms(2) obtain tb tc where "write_merge db1 tb tc at' = (db2, Ok e2)" "se_id tb = b" "se_id tc = c"
    by (rule merge_entities_Ok)
  ultimately show ?thesis using write_merge_merged assms(3) by metis
qed

text \<open>The tombstone check and the insert of \<open>record_memory\<close> are two statements. A purge that commits
  between them leaves a forgotten claim current again.\<close>

theorem forgotten_claim_can_race_back:
  assumes "\<not> is_tombstoned sha db (mem_workspace_id m) key"
    and "purge_memory sha fresh db mid v False at = (db1, Ok ())"
    and "is_tombstoned sha db1 (mem_workspace_id m) key"
    and "write_memory parents db1 m key = (db2, Ok i)"
  shows "is_tombstoned sha db2 (mem_workspace_id m) key
    \<and> (\<exists>r \<in> set (mdb_memories db2). mr_workspace_id r = mem_workspace_id m \<and> mr_search_key r = Some key)"
proof -
  obtain db3 ins where i: "insert_memory_on parents db1 m key = (db3, ins)"
      and same: "mdb_memories (fst (write_memory parents db1 m key)) = mdb_memories db3"
        "mdb_tombstones (fst (write_memory parents db1 m key)) = mdb_tombstones db3"
    by (rule write_memory_rows)
  have "\<not> isl ins" using assms(4) by (cases ins) (simp_all add: write_memory_def i)
  moreover have "ins \<noteq> Ok 0" using assms(4) by (auto simp: write_memory_def i)
  ultimately have "ins = Ok 1" using insert_memory_on_cases [OF i] by blast
  with insert_memory_on_cases [OF i] have "mdb_memories db3 = mdb_memories db1 @ [memory_row_of m key]"
    "mdb_tombstones db3 = mdb_tombstones db1" by auto
  moreover have "mr_workspace_id (memory_row_of m key) = mem_workspace_id m" "mr_search_key (memory_row_of m key) = Some key"
    by (simp_all add: memory_row_of_def Let_def)
  ultimately show ?thesis using same assms(3,4) by (simp add: is_tombstoned_def)
qed

end
