(* ===== verification/Memory_Retrieval.thy ===== *)
theory Memory_Retrieval
  imports Memory "HOL-Library.Multiset" "HOL-Library.Sublist"
begin

text \<open>
  \<open>crates/jarvis-core/src/retrieval.rs\<close>: which memories a query may see, how the eligible ones
  are scored, ordered and explained, and which of them a result keeps. Scores are naturals: every
  product and sum of the code stays below the width of its \<open>u32\<close> (\<open>contributions_fit\<close>), and
  \<open>scaled\<close> clamps before it narrows. The only floating point in the module is the cosine of two
  embeddings; its \<open>f32\<close> operations are the argument \<open>arith\<close> of the definitions that use them.
\<close>

section \<open>Eligibility\<close>

datatype Ineligibility = ForeignWorkspace | NotYetValid | Not_Current EffectiveMemoryStatus
  | AboveDestination Sensitivity Sensitivity | Type_Not_Allowed MemoryType
  | TrustBelowMinimum MemoryTrust MemoryTrust | ConfidenceBelowMinimum

fun Ineligibility_as_str :: "Ineligibility \<Rightarrow> rstr" where
  "Ineligibility_as_str ForeignWorkspace = lit ''foreign_workspace''"
| "Ineligibility_as_str NotYetValid = lit ''not_yet_valid''"
| "Ineligibility_as_str (Not_Current _) = lit ''not_current''"
| "Ineligibility_as_str (AboveDestination _ _) = lit ''above_destination''"
| "Ineligibility_as_str (Type_Not_Allowed _) = lit ''type_not_allowed''"
| "Ineligibility_as_str (TrustBelowMinimum _ _) = lit ''trust_below_minimum''"
| "Ineligibility_as_str ConfidenceBelowMinimum = lit ''confidence_below_minimum''"

record MemoryQuery =
  qry_workspace_id :: ident
  qry_destination :: Sensitivity
  qry_text :: rstr
  qry_entity_ids :: "ident list"
  qry_allowed_types :: "MemoryType list"
  qry_minimum_trust :: MemoryTrust
  qry_minimum_confidence :: MemoryConfidence
  qry_at :: instant

definition MemoryQuery_new :: "ident \<Rightarrow> instant \<Rightarrow> MemoryQuery" where
  "MemoryQuery_new workspace_id at =
     \<lparr>qry_workspace_id = workspace_id, qry_destination = Internal, qry_text = [],
      qry_entity_ids = [], qry_allowed_types = [], qry_minimum_trust = Mem_Authoritative,
      qry_minimum_confidence = Conf_Confirmed, qry_at = at\<rparr>"

definition with_text :: "MemoryQuery \<Rightarrow> rstr \<Rightarrow> MemoryQuery" where
  "with_text q s = q\<lparr>qry_text := s\<rparr>"

definition with_entities :: "MemoryQuery \<Rightarrow> ident list \<Rightarrow> MemoryQuery" where
  "with_entities q ids = q\<lparr>qry_entity_ids := ids\<rparr>"

definition with_destination :: "MemoryQuery \<Rightarrow> Sensitivity \<Rightarrow> MemoryQuery" where
  "with_destination q destination = q\<lparr>qry_destination := destination\<rparr>"

definition with_minimum_trust :: "MemoryQuery \<Rightarrow> MemoryTrust \<Rightarrow> MemoryQuery" where
  "with_minimum_trust q minimum = q\<lparr>qry_minimum_trust := minimum\<rparr>"

definition with_minimum_confidence :: "MemoryQuery \<Rightarrow> MemoryConfidence \<Rightarrow> MemoryQuery" where
  "with_minimum_confidence q minimum = q\<lparr>qry_minimum_confidence := minimum\<rparr>"

definition with_allowed_types :: "MemoryQuery \<Rightarrow> MemoryType list \<Rightarrow> MemoryQuery" where
  "with_allowed_types q types = q\<lparr>qry_allowed_types := types\<rparr>"

definition is_eligible :: "MemoryQuery \<Rightarrow> MemoryRecord \<Rightarrow> Ineligibility + unit" where
  "is_eligible q m =
     (if \<not> is_visible_in m (qry_workspace_id q) then Err ForeignWorkspace
      else if \<not> can_flow_to (mem_sensitivity m) (qry_destination q)
      then Err (AboveDestination (mem_sensitivity m) (qry_destination q))
      else let status = effective_status_at m (qry_at q) in
      if \<not> is_current_truth status then Err (Not_Current status)
      else if mem_valid_from m > qry_at q then Err NotYetValid
      else if qry_allowed_types q \<noteq> [] \<and> mem_type m \<notin> set (qry_allowed_types q)
      then Err (Type_Not_Allowed (mem_type m))
      else if MemoryTrust_level (msrc_trust (mem_source m)) < MemoryTrust_level (qry_minimum_trust q)
      then Err (TrustBelowMinimum (msrc_trust (mem_source m)) (qry_minimum_trust q))
      else if MemoryConfidence_level (mem_confidence m) < MemoryConfidence_level (qry_minimum_confidence q)
      then Err ConfidenceBelowMinimum
      else Ok ())"

section \<open>Signals and weights\<close>

type_synonym SignalScore = nat

definition SIGNAL_SCALE :: SignalScore where "SIGNAL_SCALE = 1000"

record SignalWeights =
  w_exact_identifier :: nat
  w_keyword :: nat
  w_semantic :: nat
  w_entity_overlap :: nat
  w_recency :: nat
  w_temporal :: nat
  w_importance :: nat
  w_source_reliability :: nat
  w_reinforcement :: nat

definition SIGNAL_WEIGHTS :: SignalWeights where
  "SIGNAL_WEIGHTS = \<lparr>w_exact_identifier = 250, w_keyword = 175, w_semantic = 150,
     w_entity_overlap = 125, w_recency = 100, w_temporal = 75, w_importance = 60,
     w_source_reliability = 40, w_reinforcement = 25\<rparr>"

definition TOTAL_WEIGHT :: nat where "TOTAL_WEIGHT = 1000"

definition MAX_SIGNAL_WEIGHT :: nat where "MAX_SIGNAL_WEIGHT = 250"

definition SIGNAL_COUNT :: nat where "SIGNAL_COUNT = 9"

definition SignalWeights_all :: "SignalWeights \<Rightarrow> (rstr \<times> nat) list" where
  "SignalWeights_all w =
     [(lit ''exact_identifier'', w_exact_identifier w), (lit ''keyword'', w_keyword w),
      (lit ''semantic'', w_semantic w), (lit ''entity_overlap'', w_entity_overlap w),
      (lit ''recency'', w_recency w), (lit ''temporal'', w_temporal w),
      (lit ''importance'', w_importance w), (lit ''source_reliability'', w_source_reliability w),
      (lit ''reinforcement'', w_reinforcement w)]"

definition SignalWeights_total :: "SignalWeights \<Rightarrow> nat" where
  "SignalWeights_total w = w_exact_identifier w + w_keyword w + w_semantic w + w_entity_overlap w
     + w_recency w + w_temporal w + w_importance w + w_source_reliability w + w_reinforcement w"

record MemorySignals =
  sig_exact_identifier :: SignalScore
  sig_keyword :: SignalScore
  sig_semantic :: SignalScore
  sig_entity_overlap :: SignalScore
  sig_recency :: SignalScore
  sig_temporal :: SignalScore
  sig_importance :: SignalScore
  sig_source_reliability :: SignalScore
  sig_reinforcement :: SignalScore

definition MemorySignals_all :: "MemorySignals \<Rightarrow> (rstr \<times> SignalScore) list" where
  "MemorySignals_all s =
     [(lit ''exact_identifier'', sig_exact_identifier s), (lit ''keyword'', sig_keyword s),
      (lit ''semantic'', sig_semantic s), (lit ''entity_overlap'', sig_entity_overlap s),
      (lit ''recency'', sig_recency s), (lit ''temporal'', sig_temporal s),
      (lit ''importance'', sig_importance s), (lit ''source_reliability'', sig_source_reliability s),
      (lit ''reinforcement'', sig_reinforcement s)]"

definition contributions :: "MemorySignals \<Rightarrow> SignalWeights \<Rightarrow> (rstr \<times> nat) list" where
  "contributions s w =
     [(lit ''exact_identifier'', sig_exact_identifier s * w_exact_identifier w div SIGNAL_SCALE),
      (lit ''keyword'', sig_keyword s * w_keyword w div SIGNAL_SCALE),
      (lit ''semantic'', sig_semantic s * w_semantic w div SIGNAL_SCALE),
      (lit ''entity_overlap'', sig_entity_overlap s * w_entity_overlap w div SIGNAL_SCALE),
      (lit ''recency'', sig_recency s * w_recency w div SIGNAL_SCALE),
      (lit ''temporal'', sig_temporal s * w_temporal w div SIGNAL_SCALE),
      (lit ''importance'', sig_importance s * w_importance w div SIGNAL_SCALE),
      (lit ''source_reliability'', sig_source_reliability s * w_source_reliability w div SIGNAL_SCALE),
      (lit ''reinforcement'', sig_reinforcement s * w_reinforcement w div SIGNAL_SCALE)]"

definition MemorySignals_total :: "MemorySignals \<Rightarrow> SignalWeights \<Rightarrow> nat" where
  "MemorySignals_total s w = sum_list (map snd (contributions s w))"

definition scaled :: "nat \<Rightarrow> nat \<Rightarrow> SignalScore" where
  "scaled numerator denominator =
     (if denominator = 0 then 0 else min (numerator * SIGNAL_SCALE div denominator) SIGNAL_SCALE)"

text \<open>The words of a question or a memory: the loop stops at \<open>MAX_SEARCH_KEY_WORDS\<close> words.\<close>

fun query_terms ::
  "(uchar \<Rightarrow> bool) \<Rightarrow> (uchar \<Rightarrow> rstr) \<Rightarrow> rstr list \<Rightarrow> rstr list \<Rightarrow> rstr list" where
  "query_terms is_alphanumeric to_lower [] words = words"
| "query_terms is_alphanumeric to_lower (word # rest) words =
     (let normalized = normalize_word is_alphanumeric to_lower word in
      if normalized = [] \<or> length normalized > MAX_SEARCH_KEY_WORD_CHARS \<or> normalized \<in> set words
      then query_terms is_alphanumeric to_lower rest words
      else if length (words @ [normalized]) = MAX_SEARCH_KEY_WORDS then words @ [normalized]
      else query_terms is_alphanumeric to_lower rest (words @ [normalized]))"

definition memory_query_terms :: "(uchar \<Rightarrow> bool) \<Rightarrow> (uchar \<Rightarrow> rstr) \<Rightarrow> rstr \<Rightarrow> rstr list" where
  "memory_query_terms is_alphanumeric to_lower s =
     query_terms is_alphanumeric to_lower (split_whitespace [] s) []"

definition distinct_words :: "(uchar \<Rightarrow> bool) \<Rightarrow> (uchar \<Rightarrow> rstr) \<Rightarrow> rstr \<Rightarrow> rstr list" where
  "distinct_words is_alphanumeric to_lower s = sort (memory_query_terms is_alphanumeric to_lower s)"

definition matched_entities :: "MemoryRecord \<Rightarrow> MemoryQuery \<Rightarrow> nat" where
  "matched_entities m q =
     length (filter (\<lambda>wanted. list_ex (\<lambda>held. ent_id held = wanted) (mem_entities m)) (qry_entity_ids q))"

definition exact_identifier_signal :: "MemoryRecord \<Rightarrow> MemoryQuery \<Rightarrow> SignalScore" where
  "exact_identifier_signal m q =
     (if qry_entity_ids q = [] then 0
      else if matched_entities m q = length (qry_entity_ids q) then SIGNAL_SCALE else 0)"

definition entity_overlap_signal :: "MemoryRecord \<Rightarrow> MemoryQuery \<Rightarrow> SignalScore" where
  "entity_overlap_signal m q =
     (if qry_entity_ids q = [] then 0
      else scaled (matched_entities m q) (length (qry_entity_ids q)))"

definition keyword_signal ::
  "(uchar \<Rightarrow> bool) \<Rightarrow> (uchar \<Rightarrow> rstr) \<Rightarrow> MemoryRecord \<Rightarrow> MemoryQuery \<Rightarrow> SignalScore" where
  "keyword_signal is_alphanumeric to_lower m q =
     (let wanted = distinct_words is_alphanumeric to_lower (qry_text q) in
      if wanted = [] then 0
      else let held = distinct_words is_alphanumeric to_lower (mem_content m);
               matched = length (filter (\<lambda>word. word \<in> set held) wanted)
           in scaled matched (length wanted))"

definition RECENCY_WINDOW_NANOS :: int where
  "RECENCY_WINDOW_NANOS = 30 * 24 * 60 * 60 * 1000000000"

definition recency_signal :: "MemoryRecord \<Rightarrow> MemoryQuery \<Rightarrow> SignalScore" where
  "recency_signal m q =
     (let reference = (case mem_last_accessed_at m of Some t \<Rightarrow> t | None \<Rightarrow> mem_created_at m);
          age = qry_at q - reference
      in if age \<le> 0 then SIGNAL_SCALE
         else if age \<ge> RECENCY_WINDOW_NANOS then 0
         else SIGNAL_SCALE * nat (RECENCY_WINDOW_NANOS - age) div nat RECENCY_WINDOW_NANOS)"

definition temporal_signal :: "MemoryRecord \<Rightarrow> MemoryQuery \<Rightarrow> SignalScore" where
  "temporal_signal m q =
     (if qry_at q < mem_valid_from m then 0
      else case mem_valid_until m of
          Some until \<Rightarrow> if qry_at q \<ge> until then 0 else SIGNAL_SCALE
        | None \<Rightarrow> SIGNAL_SCALE)"

definition importance_signal :: "MemoryRecord \<Rightarrow> SignalScore" where
  "importance_signal m = scaled (mem_importance m) MAX_MEMORY_IMPORTANCE"

definition source_reliability_signal :: "MemoryRecord \<Rightarrow> SignalScore" where
  "source_reliability_signal m =
     (case msrc_trust (mem_source m) of
        Mem_Authoritative \<Rightarrow> SIGNAL_SCALE | Mem_Derived \<Rightarrow> SIGNAL_SCALE div 2 | Mem_Untrusted \<Rightarrow> 0)"

definition REINFORCEMENT_SATURATION :: nat where "REINFORCEMENT_SATURATION = 8"

definition reinforcement_signal :: "MemoryRecord \<Rightarrow> SignalScore" where
  "reinforcement_signal m = scaled (unat (mem_retrieval_count m)) REINFORCEMENT_SATURATION"

section \<open>Semantic similarity\<close>

text \<open>
  The \<open>f32\<close> operations the cosine uses: the constants \<open>0.0\<close>, \<open>1.0\<close>, \<open>-1.0\<close> and
  \<open>1000.0\<close>, the arithmetic, the comparisons (false on a NaN) and \<open>round() as u16\<close>.
\<close>

record 'f f32_arith =
  f_zero :: 'f
  f_one :: 'f
  f_minus_one :: 'f
  f_scale :: 'f
  f_add :: "'f \<Rightarrow> 'f \<Rightarrow> 'f"
  f_mul :: "'f \<Rightarrow> 'f \<Rightarrow> 'f"
  f_div :: "'f \<Rightarrow> 'f \<Rightarrow> 'f"
  f_sqrt :: "'f \<Rightarrow> 'f"
  f_lt :: "'f \<Rightarrow> 'f \<Rightarrow> bool"
  f_eq :: "'f \<Rightarrow> 'f \<Rightarrow> bool"
  f_round_u16 :: "'f \<Rightarrow> nat"

definition f_clamp :: "'f f32_arith \<Rightarrow> 'f \<Rightarrow> 'f" where
  "f_clamp a x = (if f_lt a x (f_minus_one a) then f_minus_one a
                  else if f_lt a (f_one a) x then f_one a else x)"

datatype SemanticNormalization = Normalized | Unnormalized | Norm_Unknown

record 'f SemanticVector =
  vec_provider :: rstr
  vec_model :: rstr
  vec_version :: "rstr option"
  vec_normalized :: SemanticNormalization
  vec_values :: "'f list"

datatype SemanticAbsence = NoIndex | NoQueryVector | NoMemoryVector | Incomparable rstr
  | ZeroMagnitude | LengthMismatch | NoSimilarity

fun SemanticAbsence_as_str :: "SemanticAbsence \<Rightarrow> rstr" where
  "SemanticAbsence_as_str NoIndex = lit ''no_index''"
| "SemanticAbsence_as_str NoQueryVector = lit ''no_query_vector''"
| "SemanticAbsence_as_str NoMemoryVector = lit ''no_memory_vector''"
| "SemanticAbsence_as_str (Incomparable _) = lit ''incomparable''"
| "SemanticAbsence_as_str ZeroMagnitude = lit ''zero_magnitude''"
| "SemanticAbsence_as_str LengthMismatch = lit ''length_mismatch''"
| "SemanticAbsence_as_str NoSimilarity = lit ''no_similarity''"

record SemanticOutcome =
  sem_score :: SignalScore
  sem_absence :: "SemanticAbsence option"

record 'f SemanticScoring =
  ss_query :: "'f SemanticVector"
  ss_vectors :: "ident \<Rightarrow> 'f SemanticVector option"

type_synonym 'f ScoringContext = "'f SemanticScoring option"

definition without_semantics :: "'f ScoringContext" where
  "without_semantics = None"

definition with_semantics ::
  "'f SemanticVector \<Rightarrow> (ident \<Rightarrow> 'f SemanticVector option) \<Rightarrow> 'f ScoringContext" where
  "with_semantics query vectors = Some \<lparr>ss_query = query, ss_vectors = vectors\<rparr>"

definition has_semantics :: "'f ScoringContext \<Rightarrow> bool" where
  "has_semantics context \<longleftrightarrow> context \<noteq> None"

definition absent :: "SemanticAbsence \<Rightarrow> SemanticOutcome" where
  "absent reason = \<lparr>sem_score = 0, sem_absence = Some reason\<rparr>"

definition magnitude :: "'f f32_arith \<Rightarrow> 'f list \<Rightarrow> 'f" where
  "magnitude a values = f_sqrt a (foldl (f_add a) (f_zero a) (map (\<lambda>v. f_mul a v v) values))"

definition dot_product :: "'f f32_arith \<Rightarrow> 'f list \<Rightarrow> 'f list \<Rightarrow> 'f" where
  "dot_product a left right =
     foldl (f_add a) (f_zero a) (map (\<lambda>(x, y). f_mul a x y) (zip left right))"

definition semantic_outcome :: "'f f32_arith \<Rightarrow> 'f ScoringContext \<Rightarrow> ident \<Rightarrow> SemanticOutcome" where
  "semantic_outcome arith context mid =
     (case context of None \<Rightarrow> absent NoIndex
      | Some scoring \<Rightarrow>
     (case ss_vectors scoring mid of None \<Rightarrow> absent NoMemoryVector
      | Some memory \<Rightarrow>
        let query = ss_query scoring in
        if vec_provider query \<noteq> vec_provider memory then absent (Incomparable (lit ''provider''))
        else if vec_model query \<noteq> vec_model memory then absent (Incomparable (lit ''model''))
        else if vec_version query \<noteq> vec_version memory then absent (Incomparable (lit ''version''))
        else if length (vec_values query) \<noteq> length (vec_values memory) then absent LengthMismatch
        else
          let unit_length = vec_normalized query = Normalized \<and> vec_normalized memory = Normalized;
              qm = magnitude arith (vec_values query);
              mm = magnitude arith (vec_values memory)
          in if \<not> unit_length \<and> (f_eq arith qm (f_zero arith) \<or> f_eq arith mm (f_zero arith))
             then absent ZeroMagnitude
             else
               let denominator = (if unit_length then f_one arith else f_mul arith qm mm);
                   dot = dot_product arith (vec_values query) (vec_values memory);
                   cosine = f_clamp arith (f_div arith dot denominator)
               in if f_lt arith cosine (f_zero arith) \<or> f_eq arith cosine (f_zero arith)
                  then \<lparr>sem_score = 0, sem_absence = Some NoSimilarity\<rparr>
                  else \<lparr>sem_score = f_round_u16 arith (f_mul arith cosine (f_scale arith)),
                        sem_absence = None\<rparr>))"

section \<open>Scoring and ranking\<close>

definition signals_for ::
  "(uchar \<Rightarrow> bool) \<Rightarrow> (uchar \<Rightarrow> rstr) \<Rightarrow> 'f f32_arith \<Rightarrow> MemoryRecord \<Rightarrow> MemoryQuery
     \<Rightarrow> 'f ScoringContext \<Rightarrow> MemorySignals" where
  "signals_for is_alphanumeric to_lower arith m q context =
     \<lparr>sig_exact_identifier = exact_identifier_signal m q,
      sig_keyword = keyword_signal is_alphanumeric to_lower m q,
      sig_semantic = sem_score (semantic_outcome arith context (mem_id m)),
      sig_entity_overlap = entity_overlap_signal m q,
      sig_recency = recency_signal m q,
      sig_temporal = temporal_signal m q,
      sig_importance = importance_signal m,
      sig_source_reliability = source_reliability_signal m,
      sig_reinforcement = reinforcement_signal m\<rparr>"

datatype SelectionReason = Sel_ExactIdentifier | Sel_KeywordMatch | Sel_EntityOverlap
  | Sel_SemanticSimilarity | Sel_RecentAndCurrent | Sel_Important

fun SelectionReason_as_str :: "SelectionReason \<Rightarrow> rstr" where
  "SelectionReason_as_str Sel_ExactIdentifier = lit ''exact_identifier''"
| "SelectionReason_as_str Sel_KeywordMatch = lit ''keyword_match''"
| "SelectionReason_as_str Sel_EntityOverlap = lit ''entity_overlap''"
| "SelectionReason_as_str Sel_SemanticSimilarity = lit ''semantic_similarity''"
| "SelectionReason_as_str Sel_RecentAndCurrent = lit ''recent_and_current''"
| "SelectionReason_as_str Sel_Important = lit ''important''"

definition is_a_match :: "SelectionReason \<Rightarrow> bool" where
  "is_a_match r \<longleftrightarrow>
     r \<in> {Sel_ExactIdentifier, Sel_KeywordMatch, Sel_EntityOverlap, Sel_SemanticSimilarity}"

text \<open>The loop of \<open>reason_for\<close>: the first of the highest positive scores.\<close>

fun best_reason ::
  "(SelectionReason \<times> SignalScore) list \<Rightarrow> (SelectionReason \<times> SignalScore) option
     \<Rightarrow> (SelectionReason \<times> SignalScore) option" where
  "best_reason [] best = best"
| "best_reason ((reason, score) # rest) best =
     best_reason rest
       (if score > 0 \<and> (case best of None \<Rightarrow> True | Some (_, held) \<Rightarrow> score > held)
        then Some (reason, score) else best)"

definition reason_for :: "MemorySignals \<Rightarrow> SignalWeights \<Rightarrow> SelectionReason" where
  "reason_for s w =
     (case best_reason [(Sel_ExactIdentifier, sig_exact_identifier s),
                        (Sel_EntityOverlap, sig_entity_overlap s),
                        (Sel_KeywordMatch, sig_keyword s),
                        (Sel_SemanticSimilarity, sig_semantic s)] None of
        Some (reason, _) \<Rightarrow> reason
      | None \<Rightarrow>
          let importance = sig_importance s * w_importance w div SIGNAL_SCALE;
              currency = (sig_recency s * w_recency w + sig_temporal s * w_temporal w) div SIGNAL_SCALE
          in if importance > currency then Sel_Important else Sel_RecentAndCurrent)"

record ScoredMemory =
  scm_record :: MemoryRecord
  scm_signals :: MemorySignals
  scm_total :: nat
  scm_reason :: SelectionReason

definition memory_score ::
  "(uchar \<Rightarrow> bool) \<Rightarrow> (uchar \<Rightarrow> rstr) \<Rightarrow> 'f f32_arith \<Rightarrow> MemoryRecord \<Rightarrow> MemoryQuery
     \<Rightarrow> 'f ScoringContext \<Rightarrow> SignalWeights \<Rightarrow> ScoredMemory" where
  "memory_score is_alphanumeric to_lower arith m q context w =
     (let signals = signals_for is_alphanumeric to_lower arith m q context in
      \<lparr>scm_record = m, scm_signals = signals, scm_total = MemorySignals_total signals w,
       scm_reason = reason_for signals w\<rparr>)"

record ExcludedMemory =
  exc_memory_id :: ident
  exc_reason :: Ineligibility

datatype DiversityReason = Div_TypeBudget MemoryType | Div_EntityBudget ident
  | Div_SourceKindBudget MemorySourceKind | Div_TotalBudget

fun DiversityReason_as_str :: "DiversityReason \<Rightarrow> rstr" where
  "DiversityReason_as_str (Div_TypeBudget _) = lit ''type_budget''"
| "DiversityReason_as_str (Div_EntityBudget _) = lit ''entity_budget''"
| "DiversityReason_as_str (Div_SourceKindBudget _) = lit ''source_kind_budget''"
| "DiversityReason_as_str Div_TotalBudget = lit ''total_budget''"

record DroppedMemory =
  drop_memory_id :: ident
  drop_reason :: DiversityReason

record MemorySelection =
  sel_scored :: "ScoredMemory list"
  sel_excluded :: "ExcludedMemory list"
  sel_dropped :: "DroppedMemory list"

text \<open>The stable \<open>sort_by\<close> of \<open>rank\<close>: total descending, then identifier ascending.\<close>

fun insert_ranked :: "ScoredMemory \<Rightarrow> ScoredMemory list \<Rightarrow> ScoredMemory list" where
  "insert_ranked s [] = [s]"
| "insert_ranked s (t # ts) =
     (if scm_total s > scm_total t
         \<or> (scm_total s = scm_total t \<and> mem_id (scm_record s) \<le> mem_id (scm_record t))
      then s # t # ts else t # insert_ranked s ts)"

definition sort_ranked :: "ScoredMemory list \<Rightarrow> ScoredMemory list" where
  "sort_ranked ss = foldr insert_ranked ss []"

fun rank_loop ::
  "(MemoryRecord \<Rightarrow> ScoredMemory) \<Rightarrow> MemoryQuery \<Rightarrow> MemoryRecord list
     \<Rightarrow> ScoredMemory list \<times> ExcludedMemory list \<Rightarrow> ScoredMemory list \<times> ExcludedMemory list" where
  "rank_loop scorer q [] acc = acc"
| "rank_loop scorer q (m # ms) (scored, excluded) =
     rank_loop scorer q ms
       (case is_eligible q m of
          Inr _ \<Rightarrow> (scored @ [scorer m], excluded)
        | Inl reason \<Rightarrow> (scored, excluded @ [\<lparr>exc_memory_id = mem_id m, exc_reason = reason\<rparr>]))"

definition memory_rank ::
  "(uchar \<Rightarrow> bool) \<Rightarrow> (uchar \<Rightarrow> rstr) \<Rightarrow> 'f f32_arith \<Rightarrow> MemoryRecord list \<Rightarrow> MemoryQuery
     \<Rightarrow> 'f ScoringContext \<Rightarrow> SignalWeights \<Rightarrow> MemorySelection" where
  "memory_rank is_alphanumeric to_lower arith records q context w =
     (let (scored, excluded) =
        rank_loop (\<lambda>m. memory_score is_alphanumeric to_lower arith m q context w) q records ([], [])
      in \<lparr>sel_scored = sort_ranked scored, sel_excluded = excluded, sel_dropped = []\<rparr>)"

section \<open>Diversification\<close>

record DiversityBudget =
  max_per_type :: nat
  max_per_entity :: nat
  max_per_source_kind :: nat
  max_total :: nat

definition DEFAULT_DIVERSITY_BUDGET :: DiversityBudget where
  "DEFAULT_DIVERSITY_BUDGET = \<lparr>max_per_type = 4, max_per_entity = 3, max_per_source_kind = 6, max_total = 12\<rparr>"

definition DiversityBudget_new :: "nat \<Rightarrow> nat \<Rightarrow> nat \<Rightarrow> nat \<Rightarrow> rstr + DiversityBudget" where
  "DiversityBudget_new per_type per_entity per_source_kind per_result =
     (if per_type = 0 then Err (lit ''max_per_type'')
      else if per_entity = 0 then Err (lit ''max_per_entity'')
      else if per_source_kind = 0 then Err (lit ''max_per_source_kind'')
      else if per_result = 0 then Err (lit ''max_total'')
      else Ok \<lparr>max_per_type = per_type, max_per_entity = per_entity,
               max_per_source_kind = per_source_kind, max_total = per_result\<rparr>)"

text \<open>The three \<open>HashMap\<close>s of counts, an absent key counting zero.\<close>

record diversity_state =
  dv_kept :: "ScoredMemory list"
  dv_dropped :: "DroppedMemory list"
  dv_per_type :: "MemoryType \<Rightarrow> nat"
  dv_per_entity :: "ident \<Rightarrow> nat"
  dv_per_source :: "MemorySourceKind \<Rightarrow> nat"

definition bump :: "'k \<Rightarrow> ('k \<Rightarrow> nat) \<Rightarrow> ('k \<Rightarrow> nat)" where
  "bump k counts = counts(k := counts k + 1)"

definition diversity_refusal ::
  "DiversityBudget \<Rightarrow> diversity_state \<Rightarrow> MemoryRecord \<Rightarrow> DiversityReason option" where
  "diversity_refusal b st m =
     (if length (dv_kept st) \<ge> max_total b then Some Div_TotalBudget
      else if dv_per_type st (mem_type m) \<ge> max_per_type b then Some (Div_TypeBudget (mem_type m))
      else if dv_per_source st (msrc_kind (mem_source m)) \<ge> max_per_source_kind b
      then Some (Div_SourceKindBudget (msrc_kind (mem_source m)))
      else map_option Div_EntityBudget
             (List.find (\<lambda>e. dv_per_entity st e \<ge> max_per_entity b) (map ent_id (mem_entities m))))"

definition diversify_step :: "DiversityBudget \<Rightarrow> ScoredMemory \<Rightarrow> diversity_state \<Rightarrow> diversity_state" where
  "diversify_step b s st =
     (let m = scm_record s in
      case diversity_refusal b st m of
        Some reason \<Rightarrow>
          st\<lparr>dv_dropped := dv_dropped st @ [\<lparr>drop_memory_id = mem_id m, drop_reason = reason\<rparr>]\<rparr>
      | None \<Rightarrow>
          st\<lparr>dv_kept := dv_kept st @ [s],
             dv_per_type := bump (mem_type m) (dv_per_type st),
             dv_per_source := bump (msrc_kind (mem_source m)) (dv_per_source st),
             dv_per_entity := fold bump (map ent_id (mem_entities m)) (dv_per_entity st)\<rparr>)"

definition diversify :: "MemorySelection \<Rightarrow> DiversityBudget \<Rightarrow> MemorySelection" where
  "diversify selection b =
     (let st = fold (diversify_step b) (sel_scored selection)
        \<lparr>dv_kept = [], dv_dropped = sel_dropped selection, dv_per_type = (\<lambda>_. 0),
         dv_per_entity = (\<lambda>_. 0), dv_per_source = (\<lambda>_. 0)\<rparr>
      in \<lparr>sel_scored = dv_kept st, sel_excluded = sel_excluded selection, sel_dropped = dv_dropped st\<rparr>)"

definition may_be_offered_as_fact :: "MemorySourceKind \<Rightarrow> bool" where
  "may_be_offered_as_fact kind \<longleftrightarrow> \<not> is_model_produced kind"

end
