(* ===== verification/Memory_Recall.thy ===== *)
theory Memory_Recall
  imports Memory_Retrieval Memory_Store
begin

text \<open>
  How a task finds the memories it may use: \<open>memory_recall_repository.rs\<close> (candidates for a
  question, read in pages of 128), \<open>memory_browse_repository.rs\<close> (newest-first discovery behind a
  cursor) and the daemon's \<open>memory_recall.rs\<close> and \<open>memory_discovery.rs\<close> over them. Both reads
  happen inside one read transaction, so the table is fixed while they loop. The recall loop is a
  terminating recursion; the browsing loop moves a cursor whose progress depends on the table's
  primary key, so it is a partial function and that it returns is a theorem.
\<close>

section \<open>Rows a reader may be offered\<close>

definition sensitivity_names :: "Sensitivity \<Rightarrow> rstr list" where
  "sensitivity_names destination =
     map Sensitivity_as_str (filter (\<lambda>l. can_flow_to l destination) [Public, Internal, Confidential, Restricted])"

definition type_names :: "MemoryType list \<Rightarrow> rstr list" where
  "type_names types = map MemoryType_as_str types"

definition scoped_row :: "MemoryQuery \<Rightarrow> memory_row \<Rightarrow> bool" where
  "scoped_row q r \<longleftrightarrow>
     retrievable (qry_workspace_id q) r
     \<and> mr_sensitivity r \<in> set (sensitivity_names (qry_destination q))
     \<and> (type_names (qry_allowed_types q) = [] \<or> mr_memory_type r \<in> set (type_names (qry_allowed_types q)))"

section \<open>Task recall\<close>

definition PAGE_SIZE :: nat where "PAGE_SIZE = 128"

definition MAX_RECALL_CANDIDATES :: nat where "MAX_RECALL_CANDIDATES = 256"

text \<open>\<open>substr(s, instr(s, '|') + 1)\<close>: what follows the first bar, all of it without one.\<close>

definition after_bar :: "rstr \<Rightarrow> rstr" where
  "after_bar s = (case split_once 124 s of Some (_, rest) \<Rightarrow> rest | None \<Rightarrow> s)"

definition task_matches :: "rstr list \<Rightarrow> memory_row \<Rightarrow> nat" where
  "task_matches terms r =
     (case mr_search_key r of
        None \<Rightarrow> 0
      | Some key \<Rightarrow>
          length (filter (\<lambda>t. contains_sub ([32] @ t @ [32]) ([32] @ after_bar (after_bar key) @ [32])) terms))"

definition task_order :: "rstr list \<Rightarrow> memory_row list \<Rightarrow> memory_row list" where
  "task_order terms rows =
     rev (sort_key (\<lambda>r. (task_matches terms r, unixepoch (mr_created_at r), mr_id r)) rows)"

text \<open>One page: stops when the result is full.\<close>

fun take_eligible ::
  "MemoryQuery \<Rightarrow> nat \<Rightarrow> memory_row list \<Rightarrow> StoredMemory list \<Rightarrow> MemoryStoreError + StoredMemory list" where
  "take_eligible q limit [] memories = Ok memories"
| "take_eligible q limit (row # rows) memories =
     (case decode_stored_memory row of
        Inl e \<Rightarrow> Err e
      | Inr stored \<Rightarrow>
          if is_ok (is_eligible q (sm_record stored))
          then if length (memories @ [stored]) = limit then Ok (memories @ [stored])
               else take_eligible q limit rows (memories @ [stored])
          else take_eligible q limit rows memories)"

function recall_pages ::
  "MemoryQuery \<Rightarrow> nat \<Rightarrow> memory_row list \<Rightarrow> nat \<Rightarrow> StoredMemory list
     \<Rightarrow> MemoryStoreError + StoredMemory list" where
  "recall_pages q limit ordered offset memories =
     (if length memories < limit
      then let rows = take PAGE_SIZE (drop offset ordered); count = length rows in
           (case take_eligible q limit rows memories of
              Inl e \<Rightarrow> Err e
            | Inr found \<Rightarrow>
                if count < PAGE_SIZE then Ok found
                else recall_pages q limit ordered (offset + count) found)
      else Ok memories)"
  by pat_completeness auto
termination
  by (relation "measure (\<lambda>(q, limit, ordered, offset, memories). length ordered - offset)")
    (auto simp: PAGE_SIZE_def min_def split: if_splits)

declare recall_pages.simps [simp del]

definition read_task_memory_candidates ::
  "(uchar \<Rightarrow> bool) \<Rightarrow> (uchar \<Rightarrow> rstr) \<Rightarrow> memory_db \<Rightarrow> MemoryQuery \<Rightarrow> nat
     \<Rightarrow> MemoryStoreError + StoredMemory list" where
  "read_task_memory_candidates is_alphanumeric to_lower db q limit =
     (if limit = 0 \<or> limit > MAX_RECALL_CANDIDATES then Err (InvalidMemoryRequest (lit ''limit''))
      else let terms = memory_query_terms is_alphanumeric to_lower (qry_text q) in
           and_then (recall_pages q limit (task_order terms (filter (scoped_row q) (mdb_memories db))) 0 [])
             (attach_entity_links db))"

section \<open>Browsing\<close>

definition about_entities :: "memory_db \<Rightarrow> MemoryQuery \<Rightarrow> memory_row \<Rightarrow> bool" where
  "about_entities db q r \<longleftrightarrow>
     qry_entity_ids q = []
     \<or> list_ex (\<lambda>l. lk_memory_id l = mr_id r \<and> lk_entity_id l \<in> set (qry_entity_ids q)) (mdb_links db)"

text \<open>Behind the cursor: earlier in whole seconds, or the same second and a smaller id. The instant
  of a cursor that is not in the workspace is NULL, and no row compares with it.\<close>

definition past_cursor :: "memory_db \<Rightarrow> ident \<Rightarrow> ident option \<Rightarrow> memory_row \<Rightarrow> bool" where
  "past_cursor db workspace_id after r =
     (case after of
        None \<Rightarrow> True
      | Some c \<Rightarrow>
          (case find (\<lambda>m. mr_id m = c \<and> mr_workspace_id m = workspace_id) (mdb_memories db) of
             None \<Rightarrow> False
           | Some m \<Rightarrow>
               unixepoch (mr_created_at r) < unixepoch (mr_created_at m)
               \<or> (unixepoch (mr_created_at r) = unixepoch (mr_created_at m) \<and> mr_id r < c)))"

definition browse_rows :: "memory_db \<Rightarrow> MemoryQuery \<Rightarrow> ident option \<Rightarrow> memory_row list" where
  "browse_rows db q after =
     newest_memories (filter (\<lambda>r. scoped_row q r \<and> about_entities db q r
                                  \<and> past_cursor db (qry_workspace_id q) after r) (mdb_memories db))"

text \<open>One page: the cursor follows every decoded row, kept or not.\<close>

fun browse_page ::
  "MemoryQuery \<Rightarrow> nat \<Rightarrow> memory_row list \<Rightarrow> ident option \<Rightarrow> StoredMemory list
     \<Rightarrow> MemoryStoreError + ident option \<times> StoredMemory list" where
  "browse_page q limit [] cursor memories = Ok (cursor, memories)"
| "browse_page q limit (row # rows) cursor memories =
     (case decode_stored_memory row of
        Inl e \<Rightarrow> Err e
      | Inr stored \<Rightarrow>
          let cursor' = Some (mem_id (sm_record stored)) in
          if is_ok (is_eligible q (sm_record stored))
          then if length (memories @ [stored]) = limit then Ok (cursor', memories @ [stored])
               else browse_page q limit rows cursor' (memories @ [stored])
          else browse_page q limit rows cursor' memories)"

partial_function (option) browse_loop ::
  "memory_db \<Rightarrow> MemoryQuery \<Rightarrow> nat \<Rightarrow> ident option \<Rightarrow> StoredMemory list
     \<Rightarrow> (MemoryStoreError + StoredMemory list) option" where
  "browse_loop db q limit cursor memories =
     (if length memories < limit
      then let rows = take 128 (browse_rows db q cursor) in
           if rows = [] then Some (Ok memories)
           else (case browse_page q limit rows cursor memories of
                   Inl e \<Rightarrow> Some (Err e)
                 | Inr (cursor', found) \<Rightarrow> browse_loop db q limit cursor' found)
      else Some (Ok memories))"

definition read_memory_discovery_page ::
  "memory_db \<Rightarrow> MemoryQuery \<Rightarrow> ident option \<Rightarrow> nat \<Rightarrow> (MemoryStoreError + StoredMemory list) option" where
  "read_memory_discovery_page db q after limit =
     (if limit = 0 \<or> limit > 201 then Some (Err (InvalidMemoryRequest (lit ''limit'')))
      else if (case after of
                 None \<Rightarrow> False
               | Some c \<Rightarrow> filter (\<lambda>m. mr_id m = c \<and> mr_workspace_id m = qry_workspace_id q) (mdb_memories db) = [])
      then Some (Err (InvalidMemoryRequest (lit ''cursor'')))
      else map_option (\<lambda>r. and_then r (attach_entity_links db)) (browse_loop db q limit after []))"

section \<open>The daemon's browsing request\<close>

record MemoryBrowseRequest =
  br_cursor :: "rstr option"
  br_limit :: "nat option"
  br_memory_type :: "rstr option"
  br_entity_id :: "rstr option"

text \<open>The filters of the request; \<open>parse_id\<close> reads an identifier.\<close>

definition browse_query ::
  "(rstr \<Rightarrow> ident option) \<Rightarrow> MemoryQuery \<Rightarrow> MemoryBrowseRequest \<Rightarrow> MemoryStoreError + MemoryQuery" where
  "browse_query parse_id q request =
     and_then (case br_memory_type request of
         None \<Rightarrow> Ok q
       | Some name \<Rightarrow>
           and_then (map_err (\<lambda>_. InvalidMemoryRequest (lit ''memory_type'')) (MemoryType_from_str name)) (\<lambda>kind.
             if qry_allowed_types q \<noteq> [] \<and> kind \<notin> set (qry_allowed_types q)
             then Err (InvalidMemoryRequest (lit ''memory_type''))
             else Ok (with_allowed_types q [kind]))) (\<lambda>q'.
       case br_entity_id request of
         None \<Rightarrow> Ok q'
       | Some e \<Rightarrow> map_ok (\<lambda>i. with_entities q' [i]) (ok_or (parse_id e) (InvalidMemoryRequest (lit ''entity_id''))))"

definition memory_browse ::
  "(rstr \<Rightarrow> ident option) \<Rightarrow> memory_db \<Rightarrow> MemoryQuery \<Rightarrow> MemoryBrowseRequest
     \<Rightarrow> (MemoryStoreError + StoredMemory list \<times> rstr option) option" where
  "memory_browse parse_id db q request =
     (let limit = (case br_limit request of Some n \<Rightarrow> n | None \<Rightarrow> 10) in
      if limit < 1 \<or> limit > 20 then Some (Err (InvalidMemoryRequest (lit ''limit'')))
      else case browse_query parse_id q request of
        Inl e \<Rightarrow> Some (Err e)
      | Inr q' \<Rightarrow>
          (case (case br_cursor request of
                   None \<Rightarrow> Ok None
                 | Some c \<Rightarrow> map_ok Some (ok_or (parse_id c) (InvalidMemoryRequest (lit ''cursor'')))) of
             Inl e \<Rightarrow> Some (Err e)
           | Inr cursor \<Rightarrow>
               map_option (map_ok (\<lambda>found.
                   let more = length found > limit; memories = take limit found
                   in (memories, if more \<and> memories \<noteq> [] then Some (mem_id (sm_record (List.last memories))) else None)))
                 (read_memory_discovery_page db q' cursor (limit + 1))))"

section \<open>The daemon's recall\<close>

definition MODEL_MEMORY_TYPES :: "MemoryType list" where
  "MODEL_MEMORY_TYPES = [Semantic, Preference, Relationship, Episodic, Procedural]"

definition query_for :: "ident \<Rightarrow> instant \<Rightarrow> Sensitivity \<Rightarrow> MemoryQuery" where
  "query_for workspace now destination =
     with_minimum_confidence
       (with_minimum_trust
         (with_allowed_types (with_destination (MemoryQuery_new workspace now) destination) MODEL_MEMORY_TYPES)
         Mem_Untrusted)
       Unverified"

definition SELECTED :: nat where "SELECTED = 24"

definition CANDIDATES :: nat where "CANDIDATES = 128"

text \<open>The second sort of \<open>recall\<close>: keyword score, then total, then identifier.\<close>

fun insert_recalled :: "ScoredMemory \<Rightarrow> ScoredMemory list \<Rightarrow> ScoredMemory list" where
  "insert_recalled s [] = [s]"
| "insert_recalled s (t # ts) =
     (let a = sig_keyword (scm_signals s); b = sig_keyword (scm_signals t) in
      if a > b \<or> (a = b \<and> (scm_total s > scm_total t
           \<or> (scm_total s = scm_total t \<and> mem_id (scm_record s) \<le> mem_id (scm_record t))))
      then s # t # ts else t # insert_recalled s ts)"

fun select_recalled ::
  "(instant \<Rightarrow> rstr) \<Rightarrow> instant \<Rightarrow> ScoredMemory list \<Rightarrow> RetrievedMemory list \<Rightarrow> RetrievedMemory list" where
  "select_recalled stamp now [] memories = memories"
| "select_recalled stamp now (s # ss) memories =
     (case with_provenance stamp (scm_record s) MODEL_MEMORY_TYPES now of
        Inl _ \<Rightarrow> select_recalled stamp now ss memories
      | Inr m \<Rightarrow>
          if length (memories @ [m]) = SELECTED then memories @ [m]
          else select_recalled stamp now ss (memories @ [m]))"

definition QUERY_FILLER :: "rstr list" where
  "QUERY_FILLER = map lit [
    ''a'', ''about'', ''an'', ''and'', ''are'', ''as'', ''at'', ''be'', ''been'', ''can'',
    ''could'', ''did'', ''do'', ''does'', ''for'', ''from'', ''has'', ''have'', ''how'', ''i'',
    ''in'', ''is'', ''it'', ''its'', ''me'', ''my'', ''of'', ''on'', ''or'', ''our'', ''please'',
    ''should'', ''tell'', ''that'', ''the'', ''their'', ''them'', ''these'', ''they'', ''this'',
    ''to'', ''us'', ''was'', ''we'', ''were'', ''what'', ''when'', ''where'', ''which'', ''who'',
    ''why'', ''will'', ''with'', ''would'', ''you'', ''your'', ''aan'', ''als'', ''bij'',
    ''dat'', ''de'', ''deze'', ''die'', ''dit'', ''een'', ''en'', ''er'', ''heeft'', ''heb'',
    ''hebben'', ''het'', ''hoe'', ''ik'', ''je'', ''kun'', ''kan'', ''met'', ''mij'', ''mijn'',
    ''om'', ''ons'', ''onze'', ''op'', ''over'', ''van'', ''vertel'', ''voor'', ''waar'',
    ''wanneer'', ''wat'', ''weet'', ''welke'', ''wie'', ''wij'', ''ze'', ''zijn'']"

text \<open>\<open>task_text\<close>: the objective's words without fillers, repetitions or more than the key's bound.\<close>

fun task_terms :: "rstr list \<Rightarrow> rstr list \<Rightarrow> rstr list" where
  "task_terms [] terms = terms"
| "task_terms (t # ts) terms =
     (if t \<in> set QUERY_FILLER \<or> t \<in> set terms then task_terms ts terms
      else if length (terms @ [t]) = MAX_SEARCH_KEY_WORDS then terms @ [t]
      else task_terms ts (terms @ [t]))"

definition task_text :: "(uchar \<Rightarrow> bool) \<Rightarrow> (uchar \<Rightarrow> rstr) \<Rightarrow> rstr \<Rightarrow> rstr" where
  "task_text is_alphanumeric to_lower objective =
     join [32] (task_terms
       (concat (map (memory_query_terms is_alphanumeric to_lower) (split_whitespace [] objective))) [])"

definition recall ::
  "(uchar \<Rightarrow> bool) \<Rightarrow> (uchar \<Rightarrow> rstr) \<Rightarrow> 'f f32_arith \<Rightarrow> (instant \<Rightarrow> rstr) \<Rightarrow> memory_db
     \<Rightarrow> ident \<Rightarrow> rstr \<Rightarrow> instant \<Rightarrow> Sensitivity \<Rightarrow> MemoryStoreError + RetrievedMemory list" where
  "recall is_alphanumeric to_lower arith stamp db workspace objective now destination =
     (let q = with_text (query_for workspace now destination)
                (task_text is_alphanumeric to_lower objective) in
      map_ok (\<lambda>candidates.
          let records = map sm_record candidates;
              selection = memory_rank is_alphanumeric to_lower arith records q without_semantics SIGNAL_WEIGHTS;
              ranked = foldr insert_recalled (sel_scored selection) []
          in select_recalled stamp now ranked [])
        (read_task_memory_candidates is_alphanumeric to_lower db q CANDIDATES))"

end
