(* ===== verification/Memory_Retrieval_Laws.thy ===== *)
theory Memory_Retrieval_Laws
  imports Memory_Retrieval Memory_Laws Complex_Main "HOL-Library.Product_Lexorder"
begin

text \<open>
  What retrieval promises: only eligible memories are ranked, the ranking does not depend on the order
  the store returned the candidates in, no signal decides it alone, and diversification keeps every cap
  while accounting for each memory it leaves out.
\<close>

section \<open>Eligibility\<close>

definition may_receive :: "MemoryQuery \<Rightarrow> MemoryRecord \<Rightarrow> bool" where
  "may_receive q m \<longleftrightarrow>
     mem_workspace_id m = qry_workspace_id q \<and> mem_sensitivity m \<le> qry_destination q
     \<and> is_current_truth (effective_status_at m (qry_at q)) \<and> mem_valid_from m \<le> qry_at q
     \<and> (qry_allowed_types q = [] \<or> mem_type m \<in> set (qry_allowed_types q))
     \<and> MemoryTrust_level (qry_minimum_trust q) \<le> MemoryTrust_level (msrc_trust (mem_source m))
     \<and> MemoryConfidence_level (qry_minimum_confidence q) \<le> MemoryConfidence_level (mem_confidence m)"

lemma is_eligible_Ok: "is_eligible q m = Ok () \<longleftrightarrow> may_receive q m"
  by (auto simp: is_eligible_def may_receive_def is_visible_in_def can_flow_to_iff Let_def not_less)

lemma is_eligible_is_ok: "is_ok (is_eligible q m) \<longleftrightarrow> may_receive q m"
  by (simp add: is_eligible_Ok [symmetric] is_ok_iff)

lemma rank_loop_eq:
  "rank_loop scorer q ms (scored, excluded) =
     (scored @ map scorer (filter (may_receive q) ms),
      excluded @ map (\<lambda>m. \<lparr>exc_memory_id = mem_id m, exc_reason = projl (is_eligible q m)\<rparr>)
                   (filter (\<lambda>m. \<not> may_receive q m) ms))"
proof (induction ms arbitrary: scored excluded)
  case (Cons m ms)
  show ?case
    using Cons.IH by (cases "is_eligible q m") (auto simp: is_eligible_Ok [symmetric])
qed simp

section \<open>The order\<close>

definition rank_key :: "ScoredMemory \<Rightarrow> int \<times> ident" where
  "rank_key s = (- int (scm_total s), mem_id (scm_record s))"

lemma insert_ranked_eq: "insert_ranked s ts = insort_key rank_key s ts"
  by (induction ts) (auto simp: rank_key_def)

lemma sort_ranked_eq: "sort_ranked ss = sort_key rank_key ss"
  by (simp add: sort_ranked_def sort_key_def insert_ranked_eq [abs_def])

lemma memory_score_fields [simp]:
  "scm_record (memory_score a l ar m q c w) = m"
  "scm_signals (memory_score a l ar m q c w) = signals_for a l ar m q c"
  "scm_total (memory_score a l ar m q c w) = MemorySignals_total (signals_for a l ar m q c) w"
  "scm_reason (memory_score a l ar m q c w) = reason_for (signals_for a l ar m q c) w"
  by (simp_all add: memory_score_def Let_def)

lemma memory_rank_eq:
  "memory_rank a l ar records q c w =
     \<lparr>sel_scored = sort_key rank_key
         (map (\<lambda>m. memory_score a l ar m q c w) (filter (may_receive q) records)),
      sel_excluded = map (\<lambda>m. \<lparr>exc_memory_id = mem_id m, exc_reason = projl (is_eligible q m)\<rparr>)
         (filter (\<lambda>m. \<not> may_receive q m) records),
      sel_dropped = []\<rparr>"
  by (simp add: memory_rank_def rank_loop_eq sort_ranked_eq)

lemma rank_key_inj:
  assumes "distinct (map mem_id records)"
  shows "inj_on rank_key ((\<lambda>m. memory_score a l ar m q c w) ` set records)"
proof (rule inj_onI)
  fix s t
  assume "s \<in> (\<lambda>m. memory_score a l ar m q c w) ` set records"
    and "t \<in> (\<lambda>m. memory_score a l ar m q c w) ` set records" and "rank_key s = rank_key t"
  then obtain m n where "m \<in> set records" "n \<in> set records" "mem_id m = mem_id n"
    "s = memory_score a l ar m q c w" "t = memory_score a l ar n q c w"
    by (auto simp: rank_key_def)
  with assms show "s = t" by (auto simp: distinct_map dest: inj_onD)
qed

section \<open>Signals\<close>

lemma scaled_le: "scaled n d \<le> 1000"
  by (simp add: scaled_def SIGNAL_SCALE_def)

lemma recency_le: "recency_signal m q \<le> 1000"
proof -
  have "1000 * nat (RECENCY_WINDOW_NANOS - age) div nat RECENCY_WINDOW_NANOS \<le> 1000" if "0 < age" for age
  proof -
    have "nat (RECENCY_WINDOW_NANOS - age) \<le> nat RECENCY_WINDOW_NANOS" using that by simp
    then have "1000 * nat (RECENCY_WINDOW_NANOS - age) div nat RECENCY_WINDOW_NANOS
        \<le> 1000 * nat RECENCY_WINDOW_NANOS div nat RECENCY_WINDOW_NANOS"
      by (intro div_le_mono mult_le_mono2)
    then show ?thesis by (simp add: RECENCY_WINDOW_NANOS_def)
  qed
  then show ?thesis by (simp add: recency_signal_def SIGNAL_SCALE_def Let_def not_le)
qed

lemma plain_signals_le:
  "exact_identifier_signal m q \<le> 1000" "keyword_signal a l m q \<le> 1000"
  "entity_overlap_signal m q \<le> 1000" "temporal_signal m q \<le> 1000" "importance_signal m \<le> 1000"
  "source_reliability_signal m \<le> 1000" "reinforcement_signal m \<le> 1000"
  using scaled_le
  by (auto simp: exact_identifier_signal_def keyword_signal_def entity_overlap_signal_def
      temporal_signal_def importance_signal_def source_reliability_signal_def
      reinforcement_signal_def SIGNAL_SCALE_def Let_def split: option.split MemoryTrust.split)

text \<open>What the code relies on of \<open>f32\<close>: a value not above one, scaled, rounds to at most 1000.\<close>

definition f32_rounds :: "'f f32_arith \<Rightarrow> bool" where
  "f32_rounds ar \<longleftrightarrow> (\<forall>x. \<not> f_lt ar (f_one ar) x \<longrightarrow> f_round_u16 ar (f_mul ar x (f_scale ar)) \<le> 1000)
     \<and> \<not> f_lt ar (f_one ar) (f_one ar) \<and> \<not> f_lt ar (f_one ar) (f_minus_one ar)"

lemma f_clamp_le: "f32_rounds ar \<Longrightarrow> \<not> f_lt ar (f_one ar) (f_clamp ar x)"
  by (simp add: f_clamp_def f32_rounds_def)

lemma semantic_le: "f32_rounds ar \<Longrightarrow> sem_score (semantic_outcome ar c mid) \<le> 1000"
  using f_clamp_le [of ar]
  by (auto simp: semantic_outcome_def absent_def f32_rounds_def Let_def split: option.split)

lemma weight_share:
  fixes s w :: nat
  assumes "s \<le> 1000"
  shows "s * w div 1000 \<le> w"
proof -
  have "s * w div 1000 \<le> 1000 * w div 1000" using assms by (intro div_le_mono mult_le_mono1)
  then show ?thesis by simp
qed

lemma default_weights:
  "SignalWeights_total SIGNAL_WEIGHTS = TOTAL_WEIGHT"
  "\<forall>(name, w) \<in> set (SignalWeights_all SIGNAL_WEIGHTS). w \<le> MAX_SIGNAL_WEIGHT"
  by (simp_all add: SignalWeights_total_def SignalWeights_all_def SIGNAL_WEIGHTS_def TOTAL_WEIGHT_def
      MAX_SIGNAL_WEIGHT_def)

lemma contributions_fit:
  assumes "\<forall>(name, s) \<in> set (MemorySignals_all s). s < 2 ^ 16"
    and "\<forall>(name, w) \<in> set (SignalWeights_all w). w < 2 ^ 16"
  shows "\<forall>(name, c) \<in> set (contributions s w). c < 2 ^ 23" "MemorySignals_total s w < 2 ^ 32"
proof -
  have fit: "a * b div 1000 < 2 ^ 23" if "a < 2 ^ 16" "b < 2 ^ 16" for a b :: nat
  proof -
    have "a * b \<le> 65535 * 65535" using that by (intro mult_le_mono) auto
    then have "a * b div 1000 \<le> 65535 * 65535 div 1000" by (rule div_le_mono)
    then show ?thesis by simp
  qed
  from assms show all: "\<forall>(name, c) \<in> set (contributions s w). c < 2 ^ 23"
    unfolding contributions_def MemorySignals_all_def SignalWeights_all_def SIGNAL_SCALE_def
    by (auto simp del: power_numeral intro!: fit)
  then have "\<forall>c \<in> set (map snd (contributions s w)). c \<le> 2 ^ 23" by fastforce
  then have "sum_list (map snd (contributions s w)) \<le> length (map snd (contributions s w)) * 2 ^ 23"
    using sum_list_mono [of "contributions s w" snd "\<lambda>_. 2 ^ 23"]
    by (auto simp: sum_list_triv)
  then show "MemorySignals_total s w < 2 ^ 32"
    by (simp add: MemorySignals_total_def contributions_def)
qed

section \<open>Diversification\<close>

definition mentions_of :: "ident \<Rightarrow> MemoryRecord \<Rightarrow> nat" where
  "mentions_of e m = count_list (map ent_id (mem_entities m)) e"

definition of_type :: "MemoryType \<Rightarrow> ScoredMemory list \<Rightarrow> ScoredMemory list" where
  "of_type t = filter (\<lambda>s. mem_type (scm_record s) = t)"

definition of_source :: "MemorySourceKind \<Rightarrow> ScoredMemory list \<Rightarrow> ScoredMemory list" where
  "of_source k = filter (\<lambda>s. msrc_kind (mem_source (scm_record s)) = k)"

definition about :: "ident \<Rightarrow> ScoredMemory list \<Rightarrow> ScoredMemory list" where
  "about e = filter (\<lambda>s. e \<in> ent_id ` set (mem_entities (scm_record s)))"

lemma selectors_append [simp]:
  "of_type t (xs @ ys) = of_type t xs @ of_type t ys"
  "of_source k (xs @ ys) = of_source k xs @ of_source k ys"
  "about e (xs @ ys) = about e xs @ about e ys"
  by (simp_all add: of_type_def of_source_def about_def)

lemma fold_bump: "fold bump ks f k = f k + count_list ks k"
  by (induction ks arbitrary: f) (auto simp: bump_def)

definition caps_hold :: "DiversityBudget \<Rightarrow> ScoredMemory list \<Rightarrow> bool" where
  "caps_hold b kept \<longleftrightarrow> length kept \<le> max_total b
     \<and> (\<forall>t. length (of_type t kept) \<le> max_per_type b)
     \<and> (\<forall>k. length (of_source k kept) \<le> max_per_source_kind b)
     \<and> (\<forall>e. length (about e kept) \<le> max_per_entity b)"

definition cap_reached :: "DiversityBudget \<Rightarrow> ScoredMemory list \<Rightarrow> MemoryRecord \<Rightarrow> DiversityReason \<Rightarrow> bool" where
  "cap_reached b kept m r =
     (case r of
        Div_TotalBudget \<Rightarrow> length kept = max_total b
      | Div_TypeBudget t \<Rightarrow> t = mem_type m \<and> length (of_type t kept) = max_per_type b
      | Div_SourceKindBudget k \<Rightarrow> k = msrc_kind (mem_source m) \<and> length (of_source k kept) = max_per_source_kind b
      | Div_EntityBudget e \<Rightarrow> e \<in> ent_id ` set (mem_entities m) \<and> length (about e kept) = max_per_entity b)"

text \<open>The loop invariant: the counters count what is kept, and what is kept respects the caps.\<close>

definition diversity_inv :: "DiversityBudget \<Rightarrow> diversity_state \<Rightarrow> bool" where
  "diversity_inv b st \<longleftrightarrow> caps_hold b (dv_kept st)
     \<and> (\<forall>t. dv_per_type st t = length (of_type t (dv_kept st)))
     \<and> (\<forall>k. dv_per_source st k = length (of_source k (dv_kept st)))
     \<and> (\<forall>e. dv_per_entity st e = sum_list (map (mentions_of e \<circ> scm_record) (dv_kept st)))"

lemma about_le_mentions: "length (about e kept) \<le> sum_list (map (mentions_of e \<circ> scm_record) kept)"
proof (induction kept)
  case (Cons s kept)
  have "1 \<le> mentions_of e (scm_record s)" if "e \<in> ent_id ` set (mem_entities (scm_record s))"
    using that count_list_0_iff [of "map ent_id (mem_entities (scm_record s))" e]
    by (auto simp: mentions_of_def)
  with Cons.IH show ?case by (fastforce simp: about_def)
qed (simp add: about_def)

lemma distinct_count_one: "distinct xs \<Longrightarrow> count_list xs x = (if x \<in> set xs then 1 else 0)"
  by (induction xs) (auto simp: count_list_0_iff)

lemma about_eq_mentions:
  assumes "\<forall>s \<in> set kept. distinct (map ent_id (mem_entities (scm_record s)))"
  shows "length (about e kept) = sum_list (map (mentions_of e \<circ> scm_record) kept)"
  using assms
proof (induction kept)
  case (Cons s kept)
  then have "mentions_of e (scm_record s) = (if e \<in> ent_id ` set (mem_entities (scm_record s)) then 1 else 0)"
    by (auto simp: mentions_of_def distinct_count_one)
  with Cons show ?case by (simp add: about_def)
qed (simp add: about_def)

lemma diversity_refusal_None:
  assumes "diversity_refusal b st m = None"
  shows "length (dv_kept st) < max_total b" "dv_per_type st (mem_type m) < max_per_type b"
    "dv_per_source st (msrc_kind (mem_source m)) < max_per_source_kind b"
    "e \<in> ent_id ` set (mem_entities m) \<Longrightarrow> dv_per_entity st e < max_per_entity b"
  using assms
  by (auto simp: diversity_refusal_def find_None_iff not_le split: if_splits)

lemma diversity_step_inv:
  assumes "diversity_inv b st"
  shows "diversity_inv b (diversify_step b s st)"
proof (cases "diversity_refusal b st (scm_record s)")
  case (Some r)
  with assms show ?thesis by (simp add: diversify_step_def diversity_inv_def Let_def)
next
  case None
  note room = diversity_refusal_None [OF None]
  have ab: "length (about e (dv_kept st)) < max_per_entity b"
    if "e \<in> ent_id ` set (mem_entities (scm_record s))" for e
    using room(4) [OF that] about_le_mentions [of e "dv_kept st"] assms by (simp add: diversity_inv_def)
  have "caps_hold b (dv_kept st @ [s])"
    using assms room(1-3) ab
    by (auto simp: caps_hold_def diversity_inv_def of_type_def of_source_def about_def Suc_le_eq)
  with None assms show ?thesis
    by (auto simp: diversify_step_def diversity_inv_def Let_def bump_def fold_bump of_type_def of_source_def
        mentions_of_def)
qed

lemma diversity_fold_inv: "diversity_inv b st \<Longrightarrow> diversity_inv b (fold (diversify_step b) ss st)"
  by (induction ss arbitrary: st) (auto intro: diversity_step_inv)

definition diversity_start :: "DroppedMemory list \<Rightarrow> diversity_state" where
  "diversity_start dropped = \<lparr>dv_kept = [], dv_dropped = dropped, dv_per_type = (\<lambda>_. 0),
     dv_per_entity = (\<lambda>_. 0), dv_per_source = (\<lambda>_. 0)\<rparr>"

lemma diversity_start_inv: "diversity_inv b (diversity_start dropped)"
  by (simp add: diversity_inv_def diversity_start_def caps_hold_def of_type_def of_source_def about_def)

lemma diversify_eq:
  "diversify sel b = (let st = fold (diversify_step b) (sel_scored sel) (diversity_start (sel_dropped sel))
     in \<lparr>sel_scored = dv_kept st, sel_excluded = sel_excluded sel, sel_dropped = dv_dropped st\<rparr>)"
  by (simp add: diversify_def diversity_start_def)

lemma diversify_step_kept:
  "diversity_refusal b st (scm_record s) = None \<Longrightarrow> dv_kept (diversify_step b s st) = dv_kept st @ [s]"
  "diversity_refusal b st (scm_record s) = None \<Longrightarrow> dv_dropped (diversify_step b s st) = dv_dropped st"
  by (simp_all add: diversify_step_def Let_def)

lemma diversify_step_dropped:
  "diversity_refusal b st (scm_record s) = Some r \<Longrightarrow> dv_kept (diversify_step b s st) = dv_kept st"
  "diversity_refusal b st (scm_record s) = Some r
     \<Longrightarrow> dv_dropped (diversify_step b s st)
         = dv_dropped st @ [\<lparr>drop_memory_id = mem_id (scm_record s), drop_reason = r\<rparr>]"
  by (simp_all add: diversify_step_def Let_def)

text \<open>Kept and newly dropped memories are the scored ones, in order.\<close>

lemma diversity_fold_splits:
  "\<exists>kept out. dv_kept (fold (diversify_step b) ss st) = dv_kept st @ kept
     \<and> dv_dropped (fold (diversify_step b) ss st) = dv_dropped st @ out
     \<and> subseq kept ss
     \<and> mset (map (mem_id \<circ> scm_record) kept) + mset (map drop_memory_id out) = mset (map (mem_id \<circ> scm_record) ss)"
proof (induction ss arbitrary: st)
  case (Cons s ss)
  obtain kept out where IH:
    "dv_kept (fold (diversify_step b) ss (diversify_step b s st)) = dv_kept (diversify_step b s st) @ kept"
    "dv_dropped (fold (diversify_step b) ss (diversify_step b s st)) = dv_dropped (diversify_step b s st) @ out"
    "subseq kept ss"
    "mset (map (mem_id \<circ> scm_record) kept) + mset (map drop_memory_id out) = mset (map (mem_id \<circ> scm_record) ss)"
    using Cons.IH by blast
  show ?case
  proof (cases "diversity_refusal b st (scm_record s)")
    case None
    with IH show ?thesis
      by (intro exI [of _ "s # kept"] exI [of _ out])
        (auto simp: diversify_step_kept o_def)
  next
    case (Some r)
    with IH show ?thesis
      by (intro exI [of _ kept] exI [of _ "\<lparr>drop_memory_id = mem_id (scm_record s), drop_reason = r\<rparr> # out"])
        (auto simp: diversify_step_dropped o_def)
  qed
qed simp

lemma refusal_cap:
  assumes "diversity_inv b st" and "diversity_refusal b st m = Some r"
    and wf: "\<forall>s \<in> set (dv_kept st). distinct (map ent_id (mem_entities (scm_record s)))"
  shows "cap_reached b (dv_kept st) m r"
proof -
  have caps: "caps_hold b (dv_kept st)" using assms(1) by (simp add: diversity_inv_def)
  show ?thesis
  proof (cases r)
    case (Div_EntityBudget e)
    then have e: "e \<in> ent_id ` set (mem_entities m)" "dv_per_entity st e \<ge> max_per_entity b"
      using assms(2) by (auto simp: diversity_refusal_def find_Some_iff split: if_splits)
    moreover have "length (about e (dv_kept st)) = dv_per_entity st e"
      using about_eq_mentions [OF wf] assms(1) by (simp add: diversity_inv_def)
    moreover have "length (about e (dv_kept st)) \<le> max_per_entity b" using caps by (simp add: caps_hold_def)
    ultimately show ?thesis using Div_EntityBudget by (simp add: cap_reached_def)
  qed (use assms caps in \<open>auto simp: diversity_refusal_def cap_reached_def caps_hold_def diversity_inv_def
      le_antisym split: if_splits\<close>)
qed

lemma dropped_reason:
  assumes "diversity_inv b st"
    and "\<forall>s \<in> set (dv_kept st) \<union> set ss. distinct (map ent_id (mem_entities (scm_record s)))"
    and "d \<in> set (dv_dropped (fold (diversify_step b) ss st))" "d \<notin> set (dv_dropped st)"
  shows "\<exists>s \<in> set ss. drop_memory_id d = mem_id (scm_record s)
    \<and> (\<exists>kept. prefix kept (dv_kept (fold (diversify_step b) ss st)) \<and> cap_reached b kept (scm_record s) (drop_reason d))"
  using assms
proof (induction ss arbitrary: st)
  case (Cons s ss)
  let ?st = "diversify_step b s st"
  have pre: "prefix (dv_kept st) (dv_kept (fold (diversify_step b) (s # ss) st))"
    using diversity_fold_splits [of b "s # ss" st] by auto
  show ?case
  proof (cases "d \<in> set (dv_dropped ?st)")
    case True
    with Cons.prems obtain r where r: "diversity_refusal b st (scm_record s) = Some r"
        "d = \<lparr>drop_memory_id = mem_id (scm_record s), drop_reason = r\<rparr>"
      by (auto simp: diversify_step_def Let_def split: option.splits)
    with refusal_cap [OF Cons.prems(1) r(1)] Cons.prems(2) pre show ?thesis by auto
  next
    case False
    have "\<forall>s \<in> set (dv_kept ?st) \<union> set ss. distinct (map ent_id (mem_entities (scm_record s)))"
      using Cons.prems(2) by (auto simp: diversify_step_def Let_def split: option.splits)
    with Cons.IH [OF diversity_step_inv [OF Cons.prems(1)] this _ False] Cons.prems(3) show ?thesis by auto
  qed
qed simp

section \<open>Properties\<close>


text \<open>The ranking does not depend on the order of the candidates. Two candidate lists with the
  same memories, whose identifiers differ, give the same ranked list, whatever order the store
  returned them in.\<close>

theorem ranking_order_independent:
  assumes "mset records = mset records'" and "distinct (map mem_id records)"
  shows "sel_scored (memory_rank is_alphanumeric to_lower arith records q cx w)
    = sel_scored (memory_rank is_alphanumeric to_lower arith records' q cx w)"
proof -
  let ?xs = "\<lambda>rs. map (\<lambda>m. memory_score is_alphanumeric to_lower arith m q cx w) (filter (may_receive q) rs)"
  have same: "mset (?xs records) = mset (sort_key rank_key (?xs records'))"
    by (simp add: assms(1))
  have "inj_on rank_key (set (?xs records))"
    by (rule inj_on_subset [OF rank_key_inj [OF assms(2)]]) auto
  from sort_key_inj_key_eq [OF same this] show ?thesis by (simp add: memory_rank_eq)
qed

text \<open>No signal decides a ranking alone. Under the default weights each signal contributes at
  most a quarter of the total, the total is exactly the sum of the contributions shown with it, and it
  never exceeds the total weight.\<close>

theorem no_signal_dominates:
  fixes is_alphanumeric to_lower arith m q cx
  assumes "f32_rounds arith"
  defines "s \<equiv> memory_score is_alphanumeric to_lower arith m q cx SIGNAL_WEIGHTS"
  shows "(list_all (\<lambda>(name, c). c \<le> MAX_SIGNAL_WEIGHT) (contributions (scm_signals s) SIGNAL_WEIGHTS))
    \<and> (scm_total s = sum_list (map snd (contributions (scm_signals s) SIGNAL_WEIGHTS)))
    \<and> (scm_total s \<le> TOTAL_WEIGHT)
    \<and> (4 * MAX_SIGNAL_WEIGHT = TOTAL_WEIGHT)"
proof -
  note le = plain_signals_le recency_le semantic_le [OF assms(1)]
  have share: "x * w div 1000 \<le> w" if "x \<le> 1000" for x w :: nat by (rule weight_share [OF that])
  have quarter: "x * w div 1000 \<le> 250" if "x \<le> 1000" "w \<le> 250" for x w :: nat
    using share [OF that(1)] that(2) by (rule order_trans)
  have p1: "list_all (\<lambda>(name, c). c \<le> MAX_SIGNAL_WEIGHT) (contributions (scm_signals s) SIGNAL_WEIGHTS)"
    unfolding s_def memory_score_fields contributions_def list.pred_inject prod.case signals_for_def
      MemorySignals.simps SIGNAL_WEIGHTS_def SignalWeights.simps SIGNAL_SCALE_def MAX_SIGNAL_WEIGHT_def
    by (intro conjI TrueI quarter le) simp_all
  have p2: "scm_total s = sum_list (map snd (contributions (scm_signals s) SIGNAL_WEIGHTS))"
    by (simp add: s_def MemorySignals_total_def)
  have sums: "a \<le> 250 \<Longrightarrow> b \<le> 175 \<Longrightarrow> c \<le> 150 \<Longrightarrow> d \<le> 125 \<Longrightarrow> e \<le> 100 \<Longrightarrow> f \<le> 75 \<Longrightarrow> g \<le> 60
      \<Longrightarrow> h \<le> 40 \<Longrightarrow> i \<le> 25 \<Longrightarrow> a + (b + (c + (d + (e + (f + (g + (h + i))))))) \<le> 1000"
    for a b c d e f g h i :: nat by simp
  have p3: "scm_total s \<le> TOTAL_WEIGHT"
    unfolding s_def memory_score_fields MemorySignals_total_def contributions_def list.map snd_conv
      sum_list.Cons sum_list.Nil add_0_right signals_for_def MemorySignals.simps SIGNAL_WEIGHTS_def
      SignalWeights.simps SIGNAL_SCALE_def TOTAL_WEIGHT_def
    by (rule sums; rule share; rule le)
  have p4: "4 * MAX_SIGNAL_WEIGHT = TOTAL_WEIGHT" by (simp add: MAX_SIGNAL_WEIGHT_def TOTAL_WEIGHT_def)
  show ?thesis by (intro conjI p1 p2 p3 p4)
qed

text \<open>Diversification keeps every cap and accounts for every memory. What it keeps is a
  subsequence of the ranking that respects the caps on the result, on each type, each source kind and
  each entity; every ranked memory is either kept or reported as dropped; and a dropped memory names a
  cap that the better-ranked memories already kept had reached.\<close>

theorem diversity_caps_exact:
  assumes "\<forall>s \<in> set (sel_scored sel). memory_wf (scm_record s)"
    and "sel_dropped sel = []"
  shows "(caps_hold b (sel_scored (diversify sel b)))
    \<and> (subseq (sel_scored (diversify sel b)) (sel_scored sel))
    \<and> (mset (map (mem_id \<circ> scm_record) (sel_scored (diversify sel b)))
           + mset (map drop_memory_id (sel_dropped (diversify sel b)))
         = mset (map (mem_id \<circ> scm_record) (sel_scored sel)))
    \<and> (\<forall>d \<in> set (sel_dropped (diversify sel b)). \<exists>s \<in> set (sel_scored sel).
           drop_memory_id d = mem_id (scm_record s)
           \<and> (\<exists>kept. prefix kept (sel_scored (diversify sel b)) \<and> cap_reached b kept (scm_record s) (drop_reason d)))"
proof -
  let ?st = "fold (diversify_step b) (sel_scored sel) (diversity_start [])"
  have div: "sel_scored (diversify sel b) = dv_kept ?st" "sel_dropped (diversify sel b) = dv_dropped ?st"
    by (simp_all add: diversify_eq assms(2) Let_def)
  have start: "dv_kept (diversity_start []) = []" "dv_dropped (diversity_start []) = []"
    by (simp_all add: diversity_start_def)
  have "diversity_inv b ?st" by (rule diversity_fold_inv [OF diversity_start_inv])
  then have p1: "caps_hold b (sel_scored (diversify sel b))" by (simp add: div diversity_inv_def)
  from diversity_fold_splits [of b "sel_scored sel" "diversity_start []"]
  have p2: "subseq (sel_scored (diversify sel b)) (sel_scored sel)"
    and p3: "mset (map (mem_id \<circ> scm_record) (sel_scored (diversify sel b)))
           + mset (map drop_memory_id (sel_dropped (diversify sel b)))
         = mset (map (mem_id \<circ> scm_record) (sel_scored sel))"
    by (auto simp: div start)
  have "\<forall>s \<in> set (dv_kept (diversity_start [])) \<union> set (sel_scored sel). distinct (map ent_id (mem_entities (scm_record s)))"
    using assms(1) by (auto simp: start memory_wf_def)
  from dropped_reason [OF diversity_start_inv this]
  have p4: "\<forall>d \<in> set (sel_dropped (diversify sel b)). \<exists>s \<in> set (sel_scored sel).
       drop_memory_id d = mem_id (scm_record s)
       \<and> (\<exists>kept. prefix kept (sel_scored (diversify sel b)) \<and> cap_reached b kept (scm_record s) (drop_reason d))"
    by (auto simp: div start)
  show ?thesis by (intro conjI p1 p2 p3 p4)
qed

section \<open>Samples\<close>

definition sample_f32 :: "real f32_arith" where
  "sample_f32 = \<lparr>f_zero = 0, f_one = 1, f_minus_one = - 1, f_scale = 1000, f_add = (+), f_mul = (*),
     f_div = (/), f_sqrt = sqrt, f_lt = (<), f_eq = (=), f_round_u16 = (\<lambda>x. nat (round x))\<rparr>"

definition sample_second :: MemoryRecord where
  "sample_second = sample_confirmed\<lparr>mem_id := lit ''m2''\<rparr>"

definition sample_query :: MemoryQuery where
  "sample_query = with_minimum_confidence
     (with_minimum_trust (MemoryQuery_new (lit ''w'') 9) Mem_Untrusted) Unverified"

definition sample_rank :: "MemoryRecord list \<Rightarrow> MemorySelection" where
  "sample_rank records = memory_rank is_ascii_alphanumeric (\<lambda>c. [to_ascii_lowercase c]) sample_f32
     records sample_query without_semantics SIGNAL_WEIGHTS"

lemma sample_f32_rounds: "f32_rounds sample_f32"
proof -
  have "nat (round (x * 1000)) \<le> 1000" if "\<not> 1 < x" for x :: real
  proof -
    have "round (x * 1000) \<le> round (1000 :: real)" using that by (intro round_mono) simp
    then show ?thesis by simp
  qed
  then show ?thesis by (simp add: f32_rounds_def sample_f32_def)
qed

lemma sample_records: "memory_wf sample_confirmed" "memory_wf sample_second" "mem_id sample_second = lit ''m2''"
  "mem_id sample_confirmed = lit ''m1''"
proof -
  show "memory_wf sample_confirmed"
    by (rule memory_steps_fixed(4) [OF sample_memory_steps(1) MemoryRecord_new_wf(1) [OF sample_memory_new]])
  then show "memory_wf sample_second" by (simp add: memory_wf_def sample_second_def)
      (simp add: sample_confirmed_def built_record_def sample_memory_parts_def)
qed (simp_all add: sample_second_def sample_confirmed_def built_record_def sample_memory_parts_def)

theorem ranking_order_independent_witness:
  "sel_scored (sample_rank [sample_confirmed, sample_second]) = sel_scored (sample_rank [sample_second, sample_confirmed])"
  unfolding sample_rank_def
  by (rule ranking_order_independent) (simp_all add: sample_records)

theorem no_signal_dominates_witness:
  "scm_total (memory_score is_ascii_alphanumeric (\<lambda>c. [to_ascii_lowercase c]) sample_f32 sample_confirmed
     sample_query without_semantics SIGNAL_WEIGHTS) \<le> 1000"
  using no_signal_dominates [OF sample_f32_rounds] unfolding TOTAL_WEIGHT_def by blast

theorem diversity_caps_exact_witness:
  "caps_hold DEFAULT_DIVERSITY_BUDGET
     (sel_scored (diversify (sample_rank [sample_confirmed, sample_second]) DEFAULT_DIVERSITY_BUDGET))"
proof (rule conjunct1 [OF diversity_caps_exact])
  show "\<forall>s \<in> set (sel_scored (sample_rank [sample_confirmed, sample_second])). memory_wf (scm_record s)"
    by (auto simp: sample_rank_def memory_rank_eq sample_records)
qed (simp add: sample_rank_def memory_rank_eq)

section \<open>Two signals that do not vary\<close>

text \<open>Eligibility already demands what \<open>temporal_signal\<close> scores, so every ranked memory has it in full;\<close>

theorem temporal_signal_constant: "may_receive q m \<Longrightarrow> temporal_signal m q = SIGNAL_SCALE"
  by (cases "mem_status m"; cases "mem_valid_until m")
    (auto simp: may_receive_def temporal_signal_def effective_status_at_def is_current_truth_def split: if_splits)

text \<open>and its weight exceeds that of importance: \<open>SelectionReason::Important\<close> is never the reason.\<close>

theorem important_never_reported:
  assumes "may_receive q m"
  shows "scm_reason (memory_score is_alphanumeric to_lower arith m q cx SIGNAL_WEIGHTS) \<noteq> Sel_Important"
proof -
  let ?s = "signals_for is_alphanumeric to_lower arith m q cx"
  have t: "sig_temporal ?s = 1000"
    using temporal_signal_constant [OF assms] by (simp add: signals_for_def SIGNAL_SCALE_def)
  have "sig_importance ?s * 60 div 1000 \<le> 60"
    using plain_signals_le(5) [of m] by (intro weight_share) (simp add: signals_for_def)
  moreover have "75 \<le> (sig_recency ?s * 100 + 1000 * 75) div 1000"
    by simp
  ultimately have "\<not> sig_importance ?s * w_importance SIGNAL_WEIGHTS div SIGNAL_SCALE
      > (sig_recency ?s * w_recency SIGNAL_WEIGHTS + sig_temporal ?s * w_temporal SIGNAL_WEIGHTS) div SIGNAL_SCALE"
    by (simp add: t SIGNAL_WEIGHTS_def SIGNAL_SCALE_def)
  then show ?thesis
    by (simp add: reason_for_def Let_def split: if_splits)
qed

end
