(* ===== verification/Memory_Recall_Laws.thy ===== *)
theory Memory_Recall_Laws
  imports Memory_Recall Memory_Retrieval_Laws Memory_Store_Laws
begin

text \<open>
  What recall and browsing promise over a sound table: the recall loop returns what one unpaged scan
  would, the browsing loop terminates, and following its cursor visits every memory the query may be
  offered exactly once, newest first.
\<close>

section \<open>Rows and records\<close>

definition stored_of :: "memory_row \<Rightarrow> StoredMemory" where
  "stored_of r = projr (decode_stored_memory r)"

definition task_like :: "MemoryRecord \<Rightarrow> bool" where
  "task_like m \<longleftrightarrow> (case mem_claim m of None \<Rightarrow> False
     | Some c \<Rightarrow> map to_ascii_lowercase (claim_predicate c) \<in> set TASK_LIKE_PREDICATES)"

text \<open>What a reader may be offered: eligible, not inferred by a model, not a plan in progress.\<close>

definition offered :: "MemoryQuery \<Rightarrow> MemoryRecord \<Rightarrow> bool" where
  "offered q m \<longleftrightarrow> may_receive q m \<and> msrc_kind (mem_source m) \<noteq> ModelInference \<and> \<not> task_like m"

lemma decode_active:
  assumes "sound_row r" "mr_status r = lit ''active''"
  obtains m where "holds r m" "mem_status m = Mem_Active"
    "decode_stored_memory r = Ok \<lparr>sm_record = m, sm_search_key = mr_search_key r, sm_version = mr_version r\<rparr>"
proof -
  obtain m where m: "holds r m" using assms(1) by (auto simp: sound_row_def)
  then obtain k c v where r: "r = row_for m k c v" by (rule holdsE)
  have active: "mem_status m = Mem_Active"
    using assms(2) by (cases "mem_status m") (simp_all add: r)
  with decode_row_for [OF m] have "decode_memory r = Ok m" by simp
  with m active that show ?thesis by (simp add: decode_stored_memory_def)
qed

lemma current_is_active: "is_current_truth (effective_status_at m t) \<Longrightarrow> mem_status m = Mem_Active"
  by (cases "mem_status m") (auto simp: effective_status_at_def is_current_truth_def split: if_splits)

lemma as_str_inj:
  "Sensitivity_as_str a = Sensitivity_as_str b \<longleftrightarrow> a = b"
  "MemoryType_as_str s = MemoryType_as_str t \<longleftrightarrow> s = t"
  "MemorySourceKind_as_str k = MemorySourceKind_as_str l \<longleftrightarrow> k = l"
  by (metis Sensitivity_parse_spell Inr_inject) (metis memory_type_wire.parse_spell Inr_inject,
    metis memory_source_wire.parse_spell Inr_inject)

lemma sensitivity_names_iff: "Sensitivity_as_str s \<in> set (sensitivity_names d) \<longleftrightarrow> can_flow_to s d"
  by (cases s) (auto simp: sensitivity_names_def)

lemma type_names_iff:
  "MemoryType_as_str t \<in> set (type_names ts) \<longleftrightarrow> t \<in> set ts" "type_names ts = [] \<longleftrightarrow> ts = []"
  by (auto simp: type_names_def as_str_inj)

lemma scoped_row_holds:
  assumes "holds r m"
  shows "scoped_row q r \<longleftrightarrow> mem_workspace_id m = qry_workspace_id q \<and> mem_status m = Mem_Active
    \<and> msrc_kind (mem_source m) \<noteq> ModelInference \<and> \<not> task_like m
    \<and> mem_sensitivity m \<le> qry_destination q
    \<and> (qry_allowed_types q = [] \<or> mem_type m \<in> set (qry_allowed_types q))"
proof -
  obtain k c v where r: "r = row_for m k c v" using assms by (rule holdsE)
  have pred: "mr_claim_predicate r = map_option claim_predicate (mem_claim m)"
    "mr_sensitivity r = Sensitivity_as_str (mem_sensitivity m)" "mr_memory_type r = MemoryType_as_str (mem_type m)"
    by (cases "mem_claim m"; simp add: r row_for_defs claim_columns_def)+
  have kind: "mr_source_kind r \<noteq> lit ''model_inference'' \<longleftrightarrow> msrc_kind (mem_source m) \<noteq> ModelInference"
    using as_str_inj(3) [of _ ModelInference] by (simp add: r)
  have status: "mr_status r = lit ''active'' \<longleftrightarrow> mem_status m = Mem_Active"
    by (cases "mem_status m") (simp_all add: r)
  show ?thesis
    unfolding scoped_row_def retrievable_def pred kind status sensitivity_names_iff type_names_iff can_flow_to_iff
    by (auto simp: r task_like_def split: option.splits)
qed

lemma scoped_offered:
  assumes "holds r m"
  shows "scoped_row q r \<and> may_receive q m \<longleftrightarrow> offered q m"
  using scoped_row_holds [OF assms] by (auto simp: offered_def may_receive_def dest: current_is_active)

lemma scoped_decodes:
  assumes "sound_row r" "scoped_row q r"
  shows "decode_stored_memory r = Ok (stored_of r)" "mem_id (sm_record (stored_of r)) = mr_id r"
    "holds r (sm_record (stored_of r))"
proof -
  have "mr_status r = lit ''active''" using assms(2) by (simp add: scoped_row_def retrievable_def)
  with assms(1) obtain m where m: "holds r m" "decode_stored_memory r
      = Ok \<lparr>sm_record = m, sm_search_key = mr_search_key r, sm_version = mr_version r\<rparr>"
    by (rule decode_active)
  moreover obtain k c v where "r = row_for m k c v" using m(1) by (rule holdsE)
  then have "mr_id r = mem_id m" by (simp add: row_for_fields(1))
  ultimately show "decode_stored_memory r = Ok (stored_of r)" "mem_id (sm_record (stored_of r)) = mr_id r"
    "holds r (sm_record (stored_of r))"
    by (simp_all add: stored_of_def)
qed

section \<open>The scan\<close>

lemma take_eligible_append:
  assumes "length memories < limit"
  shows "take_eligible q limit (xs @ ys) memories =
    (case take_eligible q limit xs memories of
       Inl e \<Rightarrow> Err e
     | Inr found \<Rightarrow> if length found < limit then take_eligible q limit ys found else Ok found)"
  using assms by (induction xs arbitrary: memories) (auto split: sum.split)

text \<open>Reading in pages is invisible: the loop is one scan of the remaining rows.\<close>

lemma recall_pages_scan:
  "length memories < limit
     \<Longrightarrow> recall_pages q limit ordered offset memories = take_eligible q limit (drop offset ordered) memories"
proof (induction q limit ordered offset memories rule: recall_pages.induct)
  case (1 q limit ordered offset memories)
  let ?rest = "drop offset ordered" and ?found = "take_eligible q limit"
  let ?page = "take PAGE_SIZE ?rest" and ?tail = "drop PAGE_SIZE ?rest"
  have next_page: "drop (offset + length ?page) ordered = ?tail"
    by (cases "length ?rest \<ge> PAGE_SIZE") (simp_all add: min_def add.commute)
  have step: "recall_pages q limit ordered offset memories =
      (case ?found ?page memories of Inl e \<Rightarrow> Err e | Inr found \<Rightarrow>
         if length ?page < PAGE_SIZE then Ok found
         else recall_pages q limit ordered (offset + length ?page) found)"
    by (subst recall_pages.simps) (simp only: 1(2) if_True Let_def)
  have scan: "?found ?rest memories = (case ?found ?page memories of Inl e \<Rightarrow> Err e | Inr found \<Rightarrow>
      if length found < limit then ?found ?tail found else Ok found)"
    using take_eligible_append [OF 1(2), of q ?page ?tail] by (simp only: append_take_drop_id)
  have full: "recall_pages q limit ordered n found = Ok found" if "\<not> length found < limit" for n found
    by (subst recall_pages.simps) (simp only: that if_False)
  show ?case
  proof (cases "?found ?page memories")
    case (Inr found)
    have "recall_pages q limit ordered (offset + length ?page) found
        = (if length found < limit then ?found ?tail found else Ok found)" if "\<not> length ?page < PAGE_SIZE"
      using 1(1) [OF 1(2) refl refl Inr that] full by (simp only: next_page split: if_split) blast
    moreover have "?tail = []" if "length ?page < PAGE_SIZE" using that by (simp add: min_def split: if_splits)
    ultimately show ?thesis using Inr by (simp add: step scan)
  qed (simp add: step scan)
qed

lemma take_eligible_rows:
  assumes "length memories < limit" and "\<forall>r \<in> set rows. decode_stored_memory r = Ok (stored_of r)"
  shows "take_eligible q limit rows memories =
    Ok (memories @ take (limit - length memories) (filter (\<lambda>s. may_receive q (sm_record s)) (map stored_of rows)))"
  using assms
proof (induction rows arbitrary: memories)
  case (Cons r rows)
  show ?case
  proof (cases "may_receive q (sm_record (stored_of r)) \<and> length memories + 1 < limit")
    case True
    with Cons.IH [of "memories @ [stored_of r]"] Cons.prems show ?thesis
      by (auto simp: is_eligible_is_ok take_Cons' diff_diff_left)
  next
    case False
    with Cons show ?thesis
      by (auto simp: is_eligible_is_ok take_Cons' Suc_le_eq)
  qed
qed simp

section \<open>The order of browsing\<close>

definition row_key :: "memory_row \<Rightarrow> int \<times> ident" where
  "row_key r = (unixepoch (mr_created_at r), mr_id r)"

definition descending_keys :: "memory_row list \<Rightarrow> bool" where
  "descending_keys rows \<longleftrightarrow> sorted_wrt (\<lambda>a b. row_key b < row_key a) rows"

lemma newest_memories_eq: "newest_memories rows = rev (sort_key row_key rows)"
  by (simp add: newest_memories_def row_key_def [abs_def])

lemma set_newest [simp]: "set (newest_memories rows) = set rows"
  by (simp add: newest_memories_eq)

lemma newest_filter: "newest_memories (filter P rows) = filter P (newest_memories rows)"
  by (simp only: newest_memories_eq filter_sort [symmetric] rev_filter)

lemma newest_memories_sorted:
  assumes "distinct (map mr_id rows)"
  shows "descending_keys (newest_memories rows)"
proof -
  have "distinct (map row_key rows)"
    using assms by (auto simp: distinct_map row_key_def inj_on_def)
  then have "distinct (map row_key (sort_key row_key rows))"
    by (simp add: distinct_map)
  then have "sorted_wrt (<) (map row_key (sort_key row_key rows))"
    by (simp add: strict_sorted_iff)
  then show ?thesis by (simp add: descending_keys_def newest_memories_eq sorted_wrt_rev sorted_wrt_map)
qed

lemma newest_first_filter: "descending_keys rows \<Longrightarrow> descending_keys (filter P rows)"
  by (simp add: descending_keys_def sorted_wrt_filter)

lemma filter_below:
  assumes "descending_keys rows" "n < length rows"
  shows "filter (\<lambda>r. row_key r < row_key (rows ! n)) rows = drop (Suc n) rows"
proof -
  let ?P = "\<lambda>r. row_key r < row_key (rows ! n)"
  have parts: "rows = take n rows @ rows ! n # drop (Suc n) rows"
    using assms(2) by (rule id_take_nth_drop)
  then have "sorted_wrt (\<lambda>a b. row_key b < row_key a) (take n rows @ rows ! n # drop (Suc n) rows)"
    using assms(1) by (simp add: descending_keys_def)
  then have "\<forall>r \<in> set (take n rows). \<not> ?P r" "\<forall>r \<in> set (drop (Suc n) rows). ?P r"
    by (auto simp: sorted_wrt_append)
  then have "filter ?P (take n rows @ rows ! n # drop (Suc n) rows) = drop (Suc n) rows"
    by (simp add: filter_empty_conv)
  then show ?thesis by (simp only: parts [symmetric])
qed

section \<open>The rows behind a cursor\<close>

definition browsable :: "memory_db \<Rightarrow> MemoryQuery \<Rightarrow> memory_row list" where
  "browsable db q = newest_memories (filter (\<lambda>r. scoped_row q r \<and> about_entities db q r) (mdb_memories db))"

definition cursor_ok :: "memory_db \<Rightarrow> MemoryQuery \<Rightarrow> ident option \<Rightarrow> bool" where
  "cursor_ok db q after \<longleftrightarrow> (\<forall>c. after = Some c \<longrightarrow>
     (\<exists>m \<in> set (mdb_memories db). mr_id m = c \<and> mr_workspace_id m = qry_workspace_id q))"

lemma browse_rows_eq:
  "browse_rows db q after = filter (past_cursor db (qry_workspace_id q) after) (browsable db q)"
  by (simp add: browse_rows_def browsable_def newest_filter [symmetric] conj_ac)

lemma find_in_workspace:
  assumes "memories_inv (mdb_memories db)" "m \<in> set (mdb_memories db)"
  shows "find (\<lambda>r. mr_id r = mr_id m \<and> mr_workspace_id r = mr_workspace_id m) (mdb_memories db) = Some m"
proof -
  have "find (\<lambda>r. mr_id r = mr_id m \<and> mr_workspace_id r = mr_workspace_id m) rows = Some m"
    if "distinct (map mr_id rows)" "m \<in> set rows" for rows
    using that by (induction rows) force+
  with assms show ?thesis by (simp add: memories_inv_def)
qed

lemma past_cursor_key:
  assumes "memories_inv (mdb_memories db)" "m \<in> set (mdb_memories db)" "mr_workspace_id m = ws"
  shows "past_cursor db ws (Some (mr_id m)) r \<longleftrightarrow> row_key r < row_key m"
  using find_in_workspace [OF assms(1,2)]
  by (auto simp: past_cursor_def assms(3) row_key_def)

lemma browsable_facts:
  assumes "r \<in> set (browsable db q)"
  shows "r \<in> set (mdb_memories db)" "scoped_row q r" "mr_workspace_id r = qry_workspace_id q"
  using assms by (auto simp: browsable_def scoped_row_def retrievable_def)

text \<open>Moving the cursor to a row of the list leaves the rows after it.\<close>

lemma browse_rows_next:
  assumes inv: "memories_inv (mdb_memories db)" and ok: "cursor_ok db q after"
    and sub: "rows = filter P (browse_rows db q after)" and n: "n < length rows"
  shows "filter P (browse_rows db q (Some (mr_id (rows ! n)))) = drop (Suc n) rows"
    "cursor_ok db q (Some (mr_id (rows ! n)))"
proof -
  define r where "r = rows ! n"
  have "r \<in> set (browse_rows db q after)" using nth_mem [OF n] by (simp add: r_def) (simp add: sub)
  then have mem: "r \<in> set (browsable db q)" "past_cursor db (qry_workspace_id q) after r"
    by (simp_all add: browse_rows_eq)
  note f = browsable_facts [OF mem(1)]
  show "cursor_ok db q (Some (mr_id (rows ! n)))" using f by (auto simp: cursor_ok_def r_def)
  have past: "past_cursor db (qry_workspace_id q) (Some (mr_id r)) s \<longleftrightarrow> row_key s < row_key r" for s
    using past_cursor_key [OF inv f(1,3)] .
  have before: "past_cursor db (qry_workspace_id q) after s" if "row_key s < row_key r" for s
  proof (cases after)
    case (Some c)
    then obtain m where m: "m \<in> set (mdb_memories db)" "mr_id m = c" "mr_workspace_id m = qry_workspace_id q"
      using ok by (auto simp: cursor_ok_def)
    from past_cursor_key [OF inv m(1,3)] mem(2) that show ?thesis
      by (auto simp: Some m(2) [symmetric])
  qed (simp add: past_cursor_def)
  have "filter P (browse_rows db q (Some (mr_id r))) = filter (\<lambda>s. row_key s < row_key r) rows"
    unfolding sub browse_rows_eq filter_filter using past before by (intro filter_cong) auto
  moreover have "descending_keys rows"
    unfolding sub browse_rows_eq browsable_def
    using inv by (intro newest_first_filter newest_memories_sorted) (simp add: memories_inv_def distinct_map_filter)
  ultimately show "filter P (browse_rows db q (Some (mr_id r))) = drop (Suc n) rows"
    using filter_below n by (simp add: r_def)
qed

section \<open>The browsing loop\<close>

definition eligible_of :: "MemoryQuery \<Rightarrow> memory_row list \<Rightarrow> StoredMemory list" where
  "eligible_of q rows = filter (\<lambda>s. may_receive q (sm_record s)) (map stored_of rows)"

lemma eligible_of_simps [simp]:
  "eligible_of q [] = []" "eligible_of q (xs @ ys) = eligible_of q xs @ eligible_of q ys"
  by (simp_all add: eligible_of_def)

lemma browse_page_rows:
  assumes "length memories < limit" "rows \<noteq> []"
    and "\<forall>r \<in> set rows. decode_stored_memory r = Ok (stored_of r) \<and> mem_id (sm_record (stored_of r)) = mr_id r"
  shows "\<exists>k < length rows. browse_page q limit rows cursor memories
      = Ok (Some (mr_id (rows ! k)), memories @ eligible_of q (take (Suc k) rows))
    \<and> length (memories @ eligible_of q (take (Suc k) rows)) \<le> limit
    \<and> (Suc k = length rows \<or> length (memories @ eligible_of q (take (Suc k) rows)) = limit)"
  using assms
proof (induction rows arbitrary: cursor memories)
  case (Cons r rows)
  let ?e = "may_receive q (sm_record (stored_of r))"
  let ?ms = "if ?e then memories @ [stored_of r] else memories"
  have dec: "decode_stored_memory r = Ok (stored_of r)" "mem_id (sm_record (stored_of r)) = mr_id r"
    using Cons.prems(3) by auto
  have first: "memories @ eligible_of q [r] = ?ms" by (simp add: eligible_of_def)
  show ?case
  proof (cases "length ?ms = limit \<or> rows = []")
    case True
    then have "browse_page q limit (r # rows) cursor memories = Ok (Some (mr_id r), ?ms)"
      using Cons.prems(1) by (auto simp: dec is_eligible_is_ok Let_def)
    with True Cons.prems(1) first show ?thesis by (intro exI [of _ 0]) auto
  next
    case False
    then have room: "length ?ms < limit" using Cons.prems(1) by auto
    have go: "browse_page q limit (r # rows) cursor memories = browse_page q limit rows (Some (mr_id r)) ?ms"
      using False by (auto simp: dec is_eligible_is_ok Let_def)
    from Cons.IH [OF room, of "Some (mr_id r)"] False Cons.prems(3) obtain k where k: "k < length rows"
      "browse_page q limit rows (Some (mr_id r)) ?ms = Ok (Some (mr_id (rows ! k)), ?ms @ eligible_of q (take (Suc k) rows))"
      "length (?ms @ eligible_of q (take (Suc k) rows)) \<le> limit"
      "Suc k = length rows \<or> length (?ms @ eligible_of q (take (Suc k) rows)) = limit" by auto
    have "memories @ eligible_of q (take (Suc (Suc k)) (r # rows)) = ?ms @ eligible_of q (take (Suc k) rows)"
      using first by (simp add: eligible_of_def)
    with k go show ?thesis by (intro exI [of _ "Suc k"]) simp
  qed
qed simp

lemma browse_loop_full: "\<not> length memories < limit \<Longrightarrow> browse_loop db q limit cursor memories = Some (Ok memories)"
  by (subst browse_loop.simps) simp

lemma browse_loop_scan:
  assumes "memories_inv (mdb_memories db)" and "cursor_ok db q cursor" and "length memories < limit"
  shows "browse_loop db q limit cursor memories =
    Some (Ok (memories @ take (limit - length memories) (eligible_of q (browse_rows db q cursor))))"
  using assms
proof (induction "length (browse_rows db q cursor)" arbitrary: cursor memories rule: less_induct)
  case less
  let ?rows = "browse_rows db q cursor"
  let ?page = "take 128 ?rows"
  show ?case
  proof (cases "?rows = []")
    case True
    with less.prems(3) show ?thesis by (subst browse_loop.simps) simp
  next
    case False
    have decodes: "\<forall>r \<in> set ?page. decode_stored_memory r = Ok (stored_of r) \<and> mem_id (sm_record (stored_of r)) = mr_id r"
    proof
      fix r assume "r \<in> set ?page"
      then have r: "r \<in> set (browsable db q)" by (auto simp: browse_rows_eq dest: in_set_takeD)
      have "sound_row r" using browsable_facts(1) [OF r] less.prems(1) by (simp add: memories_inv_def)
      with scoped_decodes browsable_facts(2) [OF r]
      show "decode_stored_memory r = Ok (stored_of r) \<and> mem_id (sm_record (stored_of r)) = mr_id r" by blast
    qed
    have "?page \<noteq> []" using False by simp
    from browse_page_rows [OF less.prems(3) this decodes, of q cursor] obtain k where
      k: "k < length ?page" "browse_page q limit ?page cursor memories
          = Ok (Some (mr_id (?page ! k)), memories @ eligible_of q (take (Suc k) ?page))"
        "length (memories @ eligible_of q (take (Suc k) ?page)) \<le> limit" by blast
    let ?ms = "memories @ eligible_of q (take (Suc k) ?rows)"
    have kk: "k < length ?rows" "?page ! k = ?rows ! k" "take (Suc k) ?page = take (Suc k) ?rows"
      using k(1) by (auto simp: take_Suc_conv_app_nth)
    have step: "browse_loop db q limit cursor memories = browse_loop db q limit (Some (mr_id (?rows ! k))) ?ms"
      using less.prems(3) \<open>?page \<noteq> []\<close> k(2) kk by (subst browse_loop.simps) (simp add: Let_def)
    have next_rows: "browse_rows db q (Some (mr_id (?rows ! k))) = drop (Suc k) ?rows"
      and cursor: "cursor_ok db q (Some (mr_id (?rows ! k)))"
      using browse_rows_next [OF less.prems(1,2), of ?rows "\<lambda>_. True" k] kk(1) by simp_all
    have all: "eligible_of q ?rows = eligible_of q (take (Suc k) ?rows) @ eligible_of q (drop (Suc k) ?rows)"
      by (simp only: eligible_of_simps(2) [symmetric] append_take_drop_id)
    show ?thesis
    proof (cases "length ?ms < limit")
      case True
      have "length (browse_rows db q (Some (mr_id (?rows ! k)))) < length ?rows"
        using kk(1) by (simp add: next_rows)
      moreover have "length (eligible_of q (take (Suc k) ?rows)) \<le> limit - length memories" using True by simp
      ultimately show ?thesis using less.hyps [OF _ less.prems(1) cursor True]
        by (simp add: step next_rows all diff_diff_left)
    next
      case False
      with k(3) [unfolded kk(3)] have "limit - length memories = length (eligible_of q (take (Suc k) ?rows))"
        by simp
      then show ?thesis by (simp add: step browse_loop_full [OF False] all)
    qed
  qed
qed

section \<open>Properties\<close>

lemma eligible_is_offered:
  assumes "memories_inv (mdb_memories db)" "\<forall>r \<in> set rows. r \<in> set (mdb_memories db) \<and> scoped_row q r"
  shows "map sm_record (eligible_of q rows) = filter (offered q) (map (sm_record \<circ> stored_of) rows)"
  using assms(2)
proof (induction rows)
  case (Cons r rows)
  then have r: "sound_row r" "scoped_row q r" using assms(1) by (auto simp: memories_inv_def)
  have "may_receive q (sm_record (stored_of r)) \<longleftrightarrow> offered q (sm_record (stored_of r))"
    using scoped_offered [OF scoped_decodes(3) [OF r], of q] r(2) by simp
  with Cons show ?case by (simp add: eligible_of_def)
qed simp

text \<open>Reading candidates in pages loses nothing. Over a sound table the recall read finishes and
  returns, of the memories the task may be offered, the first by number of matched words, then newest,
  then identifier, up to the limit: exactly what one scan without pages would return, whatever lies
  between the pages.\<close>

theorem recall_is_one_scan:
  fixes is_alphanumeric to_lower q db limit
  assumes "memories_inv (mdb_memories db)" and "0 < limit" "limit \<le> MAX_RECALL_CANDIDATES"
  defines "rows \<equiv> task_order (memory_query_terms is_alphanumeric to_lower (qry_text q))
      (filter (scoped_row q) (mdb_memories db))"
  shows "(read_task_memory_candidates is_alphanumeric to_lower db q limit
      = attach_entity_links db (take limit (eligible_of q rows)))
    \<and> (map sm_record (eligible_of q rows) = filter (offered q) (map (sm_record \<circ> stored_of) rows))"
proof -
  have rows: "\<forall>r \<in> set rows. r \<in> set (mdb_memories db) \<and> scoped_row q r"
    by (simp add: rows_def task_order_def)
  have "\<forall>r \<in> set rows. decode_stored_memory r = Ok (stored_of r)"
    using rows assms(1) by (auto simp: memories_inv_def intro: scoped_decodes(1))
  with assms(2) have "recall_pages q limit rows 0 [] = Ok (take limit (eligible_of q rows))"
    by (simp add: recall_pages_scan take_eligible_rows eligible_of_def)
  with assms(2,3) have p1: "read_task_memory_candidates is_alphanumeric to_lower db q limit
      = attach_entity_links db (take limit (eligible_of q rows))"
    by (simp add: read_task_memory_candidates_def rows_def [symmetric] Let_def)
  have p2: "map sm_record (eligible_of q rows) = filter (offered q) (map (sm_record \<circ> stored_of) rows)"
    by (rule eligible_is_offered [OF assms(1) rows])
  show ?thesis by (intro conjI p1 p2)
qed

text \<open>Browsing ends and misses nothing. Over a sound table the cursor loop always returns; the
  first page holds the first eligible memories, newest first, and the page after the n-th of them
  continues with the next ones, so following the cursor visits every memory the query may be offered
  exactly once.\<close>

theorem discovery_pages_continue:
  fixes q db limit n
  assumes "memories_inv (mdb_memories db)" and "0 < limit" "limit \<le> 201"
  defines "found \<equiv> eligible_of q (browsable db q)"
  assumes "n \<le> length found"
  shows "(read_memory_discovery_page db q
           (if n = 0 then None else Some (mem_id (sm_record (found ! (n - 1))))) limit
         = Some (attach_entity_links db (take limit (drop n found))))
    \<and> (map sm_record found = filter (offered q) (map (sm_record \<circ> stored_of) (browsable db q)))
    \<and> (distinct (map (mem_id \<circ> sm_record) found))"
proof -
  let ?after = "if n = 0 then None else Some (mem_id (sm_record (found ! (n - 1))))"
  let ?E = "filter (\<lambda>r. may_receive q (sm_record (stored_of r))) (browsable db q)"
  have found: "found = map stored_of ?E" by (simp add: found_def eligible_of_def filter_map o_def)
  have vis: "\<forall>r \<in> set (browsable db q). r \<in> set (mdb_memories db) \<and> scoped_row q r"
    using browsable_facts by blast
  then have p2: "map sm_record found = filter (offered q) (map (sm_record \<circ> stored_of) (browsable db q))"
    unfolding found_def by (rule eligible_is_offered [OF assms(1)])
  have ids: "mem_id (sm_record (stored_of r)) = mr_id r" if "r \<in> set ?E" for r
    using that vis assms(1) by (auto simp: memories_inv_def intro: scoped_decodes(2))
  have "descending_keys ?E"
    using assms(1) unfolding browsable_def
    by (intro newest_first_filter newest_memories_sorted) (simp add: memories_inv_def distinct_map_filter)
  have "distinct (map mr_id ?E)"
    using assms(1) by (auto simp: browsable_def newest_memories_eq distinct_map memories_inv_def inj_on_def)
  moreover have "map (mem_id \<circ> sm_record) found = map mr_id ?E"
    unfolding found map_map o_def by (rule map_cong [OF refl ids])
  ultimately have p3: "distinct (map (mem_id \<circ> sm_record) found)" by simp
  have cur: "cursor_ok db q ?after
      \<and> filter (\<lambda>r. may_receive q (sm_record (stored_of r))) (browse_rows db q ?after) = drop n ?E"
  proof (cases n)
    case 0
    then show ?thesis by (simp add: cursor_ok_def browse_rows_eq past_cursor_def)
  next
    case (Suc k)
    then have k: "k < length ?E" using assms(5) by (simp add: found)
    then have "?after = Some (mr_id (?E ! k))" using ids [OF nth_mem [OF k]] by (simp add: Suc found)
    moreover have "?E = filter (\<lambda>r. may_receive q (sm_record (stored_of r))) (browse_rows db q None)"
      by (simp add: browse_rows_eq past_cursor_def)
    ultimately show ?thesis
      using browse_rows_next [OF assms(1) _ _ k, of q None] by (simp add: Suc cursor_ok_def)
  qed
  have "browse_loop db q limit ?after [] = Some (Ok (take limit (drop n found)))"
    using browse_loop_scan [OF assms(1) conjunct1 [OF cur], of "[]" limit] assms(2) conjunct2 [OF cur]
    by (simp add: eligible_of_def filter_map o_def found drop_map)
  moreover have "(case ?after of None \<Rightarrow> False | Some c \<Rightarrow>
      filter (\<lambda>m. mr_id m = c \<and> mr_workspace_id m = qry_workspace_id q) (mdb_memories db) = []) = False"
    using conjunct1 [OF cur] by (cases ?after) (auto simp: cursor_ok_def filter_empty_conv)
  ultimately have p1: "read_memory_discovery_page db q ?after limit
      = Some (attach_entity_links db (take limit (drop n found)))"
    using assms(2,3) by (simp only: read_memory_discovery_page_def) simp
  show ?thesis by (intro conjI p1 p2 p3)
qed

text \<open>C35: browsing terminates. Over a table whose rows have distinct identifiers and decode, every
  discovery request returns a page or an error, whatever cursor and limit it names.\<close>

theorem discovery_terminates:
  assumes "memories_inv (mdb_memories db)"
  shows "\<exists>r. read_memory_discovery_page db q after limit = Some r"
proof (cases "limit = 0 \<or> limit > 201 \<or> \<not> cursor_ok db q after")
  case True
  then show ?thesis
    by (cases after) (auto simp: read_memory_discovery_page_def cursor_ok_def filter_empty_conv)
next
  case False
  with browse_loop_scan [OF assms, of q after "[]" limit] show ?thesis
    by (auto simp: read_memory_discovery_page_def)
qed

section \<open>Samples\<close>

definition sample_fact_parts :: MemoryRecordParts where
  "sample_fact_parts = sample_memory_parts\<lparr>mp_id := replicate 36 97, mp_workspace_id := replicate 36 119,
     mp_source := sample_source\<lparr>msrc_kind := UserStatement, msrc_trust := Mem_Authoritative\<rparr>,
     mp_confidence := Conf_Confirmed, mp_entities := [], mp_correlation_id := replicate 36 99\<rparr>"

definition sample_fact :: MemoryRecord where
  "sample_fact = built_record (sample_fact_parts\<lparr>mp_entities := [EntityRef_confirmed (replicate 36 101)]\<rparr>)"

definition sample_fact_row :: memory_row where
  "sample_fact_row = memory_row_of sample_fact (lit ''semantic||likes tea'')"

definition sample_fact_db :: memory_db where
  "sample_fact_db = empty_memory_db\<lparr>mdb_memories := [sample_fact_row]\<rparr>"

definition sample_fact_query :: MemoryQuery where
  "sample_fact_query = query_for (replicate 36 119) 9 Confidential"

lemma sample_fact_new: "new_record sample_fact"
proof -
  let ?p = "sample_fact_parts\<lparr>mp_entities := [EntityRef_confirmed (replicate 36 101)]\<rparr>"
  have "MemoryRecord_new ?p = Ok sample_fact"
    by (simp add: MemoryRecord_new_def MemoryRecord_build_iff sample_fact_def)
      (simp add: sample_fact_parts_def sample_memory_parts_def sample_trims memory_bounds dedupe_entities_def
        parts_valid_from_def sample_source_def is_model_produced_def)
  moreover have "source_wf (mp_source ?p)"
    by (simp add: source_wf_def sample_fact_parts_def sample_source_def MemorySource_new_def sample_trims
        MAX_SOURCE_LOCATOR_CHARS_def trim_id)
  ultimately show ?thesis
    unfolding new_record_def by (intro exI [of _ ?p]) (simp add: sample_fact_parts_def sample_memory_parts_def)
qed

lemma sample_fact_inv: "memories_inv (mdb_memories sample_fact_db)"
proof -
  have "memory_checks sample_fact_row"
    by (simp add: memory_checks_def sample_fact_row_def memory_row_of_def Let_def sample_fact_def built_record_def
        sample_fact_parts_def sample_memory_parts_def sample_source_def sample_trims claim_columns_def null_or_def
        chars_between_def source_columns_def memory_types_def sensitivities_def is_model_produced_def memory_bounds)
  with holds_new [OF sample_fact_new] show ?thesis
    by (auto simp: memories_inv_def sample_fact_db_def sound_row_def sample_fact_row_def one_per_key_def)
qed

lemma sample_fact_offered: "offered sample_fact_query (sample_fact\<lparr>mem_entities := []\<rparr>)"
  by (simp add: offered_def may_receive_def sample_fact_query_def query_for_def with_minimum_confidence_def
      with_minimum_trust_def with_allowed_types_def with_destination_def MemoryQuery_new_def sample_fact_def
      built_record_def sample_fact_parts_def sample_memory_parts_def sample_source_def task_like_def
      effective_status_at_def is_current_truth_def MODEL_MEMORY_TYPES_def parts_valid_from_def
      requires_confirmation_def is_model_produced_def less_eq_Sensitivity_def)

lemma sample_fact_found:
  "map sm_record (eligible_of sample_fact_query (browsable sample_fact_db sample_fact_query))
    = [sample_fact\<lparr>mem_entities := []\<rparr>]"
proof -
  have row: "holds sample_fact_row (sample_fact\<lparr>mem_entities := []\<rparr>)"
    unfolding sample_fact_row_def by (rule holds_new [OF sample_fact_new])
  have sound: "sound_row sample_fact_row" using sample_fact_inv by (simp add: memories_inv_def sample_fact_db_def)
  have scoped: "scoped_row sample_fact_query sample_fact_row"
    using scoped_offered [OF row, of sample_fact_query] sample_fact_offered by simp
  have "mem_status (sample_fact\<lparr>mem_entities := []\<rparr>) = Mem_Active"
    using sample_fact_offered by (auto simp: offered_def may_receive_def dest: current_is_active)
  with decode_row_for [OF row] have "sm_record (stored_of sample_fact_row) = sample_fact\<lparr>mem_entities := []\<rparr>"
    by (simp add: stored_of_def decode_stored_memory_def)
  moreover have "browsable sample_fact_db sample_fact_query = [sample_fact_row]"
    using scoped by (simp add: browsable_def sample_fact_db_def newest_memories_def about_entities_def
        sample_fact_query_def query_for_def with_minimum_confidence_def with_minimum_trust_def
        with_allowed_types_def with_destination_def MemoryQuery_new_def)
  ultimately show ?thesis using sample_fact_offered by (simp add: eligible_of_def offered_def)
qed

theorem recall_is_one_scan_witness:
  "map sm_record (eligible_of sample_fact_query (task_order [] [sample_fact_row]))
     = filter (offered sample_fact_query) [sm_record (stored_of sample_fact_row)]"
proof -
  have "filter (scoped_row sample_fact_query) [sample_fact_row] = [sample_fact_row]"
    using scoped_offered [OF holds_new [OF sample_fact_new], of sample_fact_query] sample_fact_offered
    by (simp add: sample_fact_row_def)
  moreover have "memory_query_terms is_ascii_alphanumeric (\<lambda>c. [to_ascii_lowercase c]) (qry_text sample_fact_query) = []"
    by (simp add: memory_query_terms_def sample_fact_query_def query_for_def with_minimum_confidence_def
        with_minimum_trust_def with_allowed_types_def with_destination_def MemoryQuery_new_def)
  ultimately show ?thesis
    using recall_is_one_scan [where is_alphanumeric = is_ascii_alphanumeric and q = sample_fact_query and limit = 5
          and to_lower = "\<lambda>c. [to_ascii_lowercase c]", OF sample_fact_inv]
    by (simp add: MAX_RECALL_CANDIDATES_def sample_fact_db_def task_order_def)
qed

theorem discovery_pages_continue_witness:
  "\<exists>found. read_memory_discovery_page sample_fact_db sample_fact_query None 10 = Some (Ok found)
     \<and> map sm_record found = [sample_fact\<lparr>mem_entities := []\<rparr>]"
proof -
  let ?found = "eligible_of sample_fact_query (browsable sample_fact_db sample_fact_query)"
  have "length ?found = 1" using arg_cong [OF sample_fact_found, of length] by simp
  then obtain s where s: "?found = [s]" "sm_record s = sample_fact\<lparr>mem_entities := []\<rparr>"
    using sample_fact_found by (auto simp: length_Suc_conv)
  moreover have "attach_entity_links sample_fact_db [s] = Ok [s]"
    using s(2) by (simp add: attach_entity_links_def load_links_def load_linked_entities_def sample_fact_db_def
        empty_memory_db_def replace_entities_def dedupe_entities_def)
  ultimately show ?thesis
    using discovery_pages_continue [where db = sample_fact_db, OF sample_fact_inv, where limit = 10 and n = 0 and q = sample_fact_query] by simp
qed

theorem discovery_terminates_witness:
  "\<exists>r. read_memory_discovery_page sample_fact_db sample_fact_query (Some []) 10 = Some r"
  by (rule discovery_terminates [OF sample_fact_inv])

end
