(* ===== verification/Message.thy ===== *)
theory Message
  imports Risk_Vocabulary Run_Store
begin

text \<open>
  Conversation messages: the vocabulary of \<open>jarvis-core/src/message.rs\<close> and the table of
  \<open>jarvis-storage/src/message_repository.rs\<close>. The transcript of a session is the rows of that session
  by sequence; the sequence is allocated by the inserting statement.
\<close>

section \<open>Vocabulary\<close>

definition MAX_MESSAGE_CONTENT_BYTES :: nat where "MAX_MESSAGE_CONTENT_BYTES = 256 * 1024"

datatype MessageRole = Role_System | Role_User | Role_Assistant | Role_Tool

datatype MessageSource = From_User | From_Model | From_Tool | From_System

datatype InvalidMessage =
  Message_Empty | Message_TooLong | UnknownRole | UnknownSource | ToolWithoutCall | NonToolWithCall

fun MessageRole_as_str :: "MessageRole \<Rightarrow> rstr" where
  "MessageRole_as_str Role_System = lit ''system''"
| "MessageRole_as_str Role_User = lit ''user''"
| "MessageRole_as_str Role_Assistant = lit ''assistant''"
| "MessageRole_as_str Role_Tool = lit ''tool''"

definition MessageRole_from_str :: "rstr \<Rightarrow> InvalidMessage + MessageRole" where
  "MessageRole_from_str s =
     (if s = lit ''system'' then Ok Role_System else if s = lit ''user'' then Ok Role_User
      else if s = lit ''assistant'' then Ok Role_Assistant else if s = lit ''tool'' then Ok Role_Tool
      else Err UnknownRole)"

fun MessageSource_as_str :: "MessageSource \<Rightarrow> rstr" where
  "MessageSource_as_str From_User = lit ''user''"
| "MessageSource_as_str From_Model = lit ''model''"
| "MessageSource_as_str From_Tool = lit ''tool''"
| "MessageSource_as_str From_System = lit ''system''"

definition MessageSource_from_str :: "rstr \<Rightarrow> InvalidMessage + MessageSource" where
  "MessageSource_from_str s =
     (if s = lit ''user'' then Ok From_User else if s = lit ''model'' then Ok From_Model
      else if s = lit ''tool'' then Ok From_Tool else if s = lit ''system'' then Ok From_System
      else Err UnknownSource)"

interpretation message_roles: wire_vocabulary MessageRole_as_str MessageRole_from_str
  "[Role_System, Role_User, Role_Assistant, Role_Tool]"
proof
  fix x s
  show "MessageRole_from_str (MessageRole_as_str x) = Inr x"
    by (cases x) (simp_all add: MessageRole_from_str_def)
  show "MessageRole_from_str s = Inr x \<Longrightarrow> s = MessageRole_as_str x"
    by (auto simp: MessageRole_from_str_def split: if_splits)
  show "x \<in> set [Role_System, Role_User, Role_Assistant, Role_Tool]" by (cases x) simp_all
qed

interpretation message_sources: wire_vocabulary MessageSource_as_str MessageSource_from_str
  "[From_User, From_Model, From_Tool, From_System]"
proof
  fix x s
  show "MessageSource_from_str (MessageSource_as_str x) = Inr x"
    by (cases x) (simp_all add: MessageSource_from_str_def)
  show "MessageSource_from_str s = Inr x \<Longrightarrow> s = MessageSource_as_str x"
    by (auto simp: MessageSource_from_str_def split: if_splits)
  show "x \<in> set [From_User, From_Model, From_Tool, From_System]" by (cases x) simp_all
qed

record NewMessage =
  nmsg_content :: rstr
  nmsg_role :: MessageRole
  nmsg_source :: MessageSource
  nmsg_sensitivity :: Sensitivity
  nmsg_tool_call_id :: "rstr option"

definition NewMessage_new ::
  "rstr \<Rightarrow> MessageRole \<Rightarrow> MessageSource \<Rightarrow> Sensitivity \<Rightarrow> rstr option \<Rightarrow> InvalidMessage + NewMessage" where
  "NewMessage_new content role source sensitivity call =
     (if content = [] then Err Message_Empty
      else if str_len content > MAX_MESSAGE_CONTENT_BYTES then Err Message_TooLong
      else if role = Role_Tool \<and> call = None then Err ToolWithoutCall
      else if role \<noteq> Role_Tool \<and> call \<noteq> None then Err NonToolWithCall
      else Ok \<lparr>nmsg_content = content, nmsg_role = role, nmsg_source = source,
               nmsg_sensitivity = sensitivity, nmsg_tool_call_id = call\<rparr>)"

definition NewMessage_user :: "rstr \<Rightarrow> InvalidMessage + NewMessage" where
  "NewMessage_user content = NewMessage_new content Role_User From_User Internal None"

definition NewMessage_assistant :: "rstr \<Rightarrow> Sensitivity \<Rightarrow> InvalidMessage + NewMessage" where
  "NewMessage_assistant content sensitivity = NewMessage_new content Role_Assistant From_Model sensitivity None"

section \<open>The table\<close>

record message_row =
  mrow_id :: rstr
  mrow_session :: rstr
  mrow_sequence :: nat
  mrow_role :: rstr
  mrow_source :: rstr
  mrow_content :: rstr
  mrow_sensitivity :: rstr
  mrow_run :: "rstr option"
  mrow_created_at :: instant

record StoredMessage =
  smsg_id :: rstr
  smsg_session_id :: rstr
  smsg_sequence :: nat
  smsg_role :: MessageRole
  smsg_source :: MessageSource
  smsg_content :: rstr
  smsg_run_id :: "rstr option"
  smsg_created_at :: instant

datatype MessageStoreError =
    InvalidMessageRequest rstr
  | SessionNotFound
  | MessageNotFound
  | StoredMessageInvalid rstr
  | Message_Sqlite rstr

definition decode_message :: "message_row \<Rightarrow> MessageStoreError + StoredMessage" where
  "decode_message r =
     and_then (map_err (\<lambda>_. StoredMessageInvalid (lit ''role'')) (MessageRole_from_str (mrow_role r))) (\<lambda>role.
     and_then (map_err (\<lambda>_. StoredMessageInvalid (lit ''source'')) (MessageSource_from_str (mrow_source r))) (\<lambda>source.
       Ok \<lparr>smsg_id = mrow_id r, smsg_session_id = mrow_session r, smsg_sequence = mrow_sequence r,
           smsg_role = role, smsg_source = source, smsg_content = mrow_content r,
           smsg_run_id = mrow_run r, smsg_created_at = mrow_created_at r\<rparr>))"

definition find_message :: "message_row list \<Rightarrow> rstr \<Rightarrow> MessageStoreError + StoredMessage" where
  "find_message rows mid =
     and_then (ok_or (find (\<lambda>r. mrow_id r = mid) rows) MessageNotFound) decode_message"

definition session_rows :: "message_row list \<Rightarrow> rstr \<Rightarrow> message_row list" where
  "session_rows rows sid = filter (\<lambda>r. mrow_session r = sid) rows"

text \<open>\<open>COALESCE(MAX(sequence) + 1, 0)\<close>.\<close>

definition next_message_sequence :: "message_row list \<Rightarrow> rstr \<Rightarrow> nat" where
  "next_message_sequence rows sid =
     (case session_rows rows sid of [] \<Rightarrow> 0 | rs \<Rightarrow> Suc (foldr max (map mrow_sequence rs) 0))"

text \<open>
  The rows of the \<open>sessions\<close> and \<open>agent_runs\<close> tables are parameters; a foreign key failure is reported as
  a missing session whichever key failed.
\<close>

definition append_message ::
  "(rstr \<Rightarrow> bool) \<Rightarrow> (rstr \<Rightarrow> bool) \<Rightarrow> message_row list \<Rightarrow> rstr \<Rightarrow> rstr \<Rightarrow> rstr option \<Rightarrow> NewMessage \<Rightarrow> instant
    \<Rightarrow> message_row list \<times> (MessageStoreError + StoredMessage)" where
  "append_message session_exists run_exists rows mid sid rid message at =
     (if str_len (nmsg_content message) > MAX_MESSAGE_CONTENT_BYTES
      then (rows, Err (InvalidMessageRequest (lit ''content'')))
      else if \<not> session_exists sid then (rows, Err SessionNotFound)
      else if length mid \<noteq> 36 then (rows, Err (InvalidMessageRequest (lit ''content'')))
      else if list_ex (\<lambda>r. mrow_id r = mid) rows then (rows, Err (Message_Sqlite (lit ''append a message'')))
      else if (case rid of None \<Rightarrow> False | Some run \<Rightarrow> \<not> run_exists run) then (rows, Err SessionNotFound)
      else let row = \<lparr>mrow_id = mid, mrow_session = sid, mrow_sequence = next_message_sequence rows sid,
                 mrow_role = MessageRole_as_str (nmsg_role message),
                 mrow_source = MessageSource_as_str (nmsg_source message),
                 mrow_content = nmsg_content message,
                 mrow_sensitivity = Sensitivity_as_str (nmsg_sensitivity message),
                 mrow_run = rid, mrow_created_at = at\<rparr>;
               rows' = rows @ [row]
           in (rows', find_message rows' mid))"

definition MAX_MESSAGE_PAGE :: nat where "MAX_MESSAGE_PAGE = 512"

definition read_messages_from ::
  "message_row list \<Rightarrow> rstr \<Rightarrow> int \<Rightarrow> nat \<Rightarrow> MessageStoreError + StoredMessage list" where
  "read_messages_from rows sid start limit =
     (if start < 0 then Err (InvalidMessageRequest (lit ''from''))
      else if limit = 0 \<or> limit > MAX_MESSAGE_PAGE then Err (InvalidMessageRequest (lit ''limit''))
      else collect_results decode_message (take limit
        (sort_key mrow_sequence (filter (\<lambda>r. start \<le> int (mrow_sequence r)) (session_rows rows sid)))))"

definition read_messages :: "message_row list \<Rightarrow> rstr \<Rightarrow> nat \<Rightarrow> MessageStoreError + StoredMessage list" where
  "read_messages rows sid limit = read_messages_from rows sid 0 limit"

text \<open>\<open>ORDER BY sequence DESC LIMIT n\<close>, put back in ascending order.\<close>

definition read_recent_messages ::
  "message_row list \<Rightarrow> rstr \<Rightarrow> nat \<Rightarrow> MessageStoreError + StoredMessage list" where
  "read_recent_messages rows sid limit =
     (if limit = 0 \<or> limit > MAX_MESSAGE_PAGE then Err (InvalidMessageRequest (lit ''limit''))
      else collect_results decode_message (sort_key mrow_sequence
        (take limit (rev (sort_key mrow_sequence (session_rows rows sid))))))"

definition count_messages :: "message_row list \<Rightarrow> rstr \<Rightarrow> nat" where
  "count_messages rows sid = length (session_rows rows sid)"

section \<open>The transcript of a session\<close>

text \<open>Every session's rows are numbered from zero in the order they were written, and decode.\<close>

definition message_ok :: "message_row \<Rightarrow> bool" where
  "message_ok r \<longleftrightarrow> is_ok (decode_message r) \<and> mrow_content r \<noteq> []
     \<and> str_len (mrow_content r) \<le> MAX_MESSAGE_CONTENT_BYTES"

definition messages_inv :: "message_row list \<Rightarrow> bool" where
  "messages_inv rows \<longleftrightarrow> distinct (map mrow_id rows) \<and> (\<forall>r \<in> set rows. message_ok r)
     \<and> (\<forall>sid. map mrow_sequence (session_rows rows sid) = [0..<length (session_rows rows sid)])"

lemma foldr_max_upt: "foldr max [0..<Suc n] 0 = n"
proof -
  have "foldr max [0..<k] m = max (k - 1) m" for k m :: nat
    by (induction k arbitrary: m) auto
  then show ?thesis by simp
qed

lemma next_message_sequence_length:
  assumes "messages_inv rows"
  shows "next_message_sequence rows sid = length (session_rows rows sid)"
proof (cases "session_rows rows sid")
  case (Cons r rs)
  have "map mrow_sequence (session_rows rows sid) = [0..<length (session_rows rows sid)]"
    using assms by (simp add: messages_inv_def)
  then have "map mrow_sequence (r # rs) = [0..<Suc (length rs)]" by (simp add: Cons del: upt_Suc)
  then have "foldr max (map mrow_sequence (r # rs)) 0 = length rs" by (simp only: foldr_max_upt)
  then show ?thesis by (simp add: next_message_sequence_def Cons)
qed (simp add: next_message_sequence_def)

lemma append_message_Ok:
  assumes "append_message se re rows mid sid rid message at = (rows', Inr stored)"
  obtains row where "rows' = rows @ [row]" "mrow_id row = mid" "mrow_session row = sid"
    "mrow_sequence row = next_message_sequence rows sid" "mrow_content row = nmsg_content message"
    "mrow_run row = rid" "decode_message row = Ok stored" "mid \<notin> mrow_id ` set rows"
    "smsg_content stored = nmsg_content message" "smsg_role stored = nmsg_role message"
    "str_len (nmsg_content message) \<le> MAX_MESSAGE_CONTENT_BYTES"
proof -
  let ?row = "\<lparr>mrow_id = mid, mrow_session = sid, mrow_sequence = next_message_sequence rows sid,
                 mrow_role = MessageRole_as_str (nmsg_role message),
                 mrow_source = MessageSource_as_str (nmsg_source message),
                 mrow_content = nmsg_content message,
                 mrow_sensitivity = Sensitivity_as_str (nmsg_sensitivity message),
                 mrow_run = rid, mrow_created_at = at\<rparr>"
  from assms have new: "rows' = rows @ [?row]" "mid \<notin> mrow_id ` set rows"
      "str_len (nmsg_content message) \<le> MAX_MESSAGE_CONTENT_BYTES"
      "find_message (rows @ [?row]) mid = Ok stored"
    by (auto simp: append_message_def Let_def list_ex_iff split: if_splits)
  moreover have "find (\<lambda>r. mrow_id r = mid) rows = None"
    using new(2) by (intro find_none) auto
  ultimately have "decode_message ?row = Ok stored"
    by (auto simp: find_message_def find_append)
  then show thesis
    using new that [of ?row]
    by (auto simp: decode_message_def message_roles.parse_spell message_sources.parse_spell)
qed

lemma append_keeps_messages:
  assumes "messages_inv rows" "append_message se re rows mid sid rid message at = (rows', r)"
    and "nmsg_content message \<noteq> []"
  shows "messages_inv rows'"
proof (cases r)
  case (Inl e)
  with assms(2) have "rows' = rows \<or> (\<exists>row. rows' = rows @ [row] \<and> find_message rows' mid = Err e
      \<and> mid \<notin> mrow_id ` set rows \<and> mrow_id row = mid \<and> mrow_role row = MessageRole_as_str (nmsg_role message)
      \<and> mrow_source row = MessageSource_as_str (nmsg_source message))"
    by (auto simp: append_message_def Let_def list_ex_iff split: if_splits)
  then show ?thesis
  proof
    assume "\<exists>row. rows' = rows @ [row] \<and> find_message rows' mid = Err e
      \<and> mid \<notin> mrow_id ` set rows \<and> mrow_id row = mid \<and> mrow_role row = MessageRole_as_str (nmsg_role message)
      \<and> mrow_source row = MessageSource_as_str (nmsg_source message)"
    moreover have "find (\<lambda>r. mrow_id r = mid) rows = None" if "mid \<notin> mrow_id ` set rows"
      using that by (intro find_none) auto
    ultimately have False
      by (auto simp: find_message_def find_append decode_message_def message_roles.parse_spell
          message_sources.parse_spell)
    then show ?thesis ..
  qed (use assms(1) in simp)
next
  case (Inr stored)
  with assms(2) obtain row where row: "rows' = rows @ [row]" "mrow_id row = mid" "mrow_session row = sid"
    "mrow_sequence row = next_message_sequence rows sid" "mrow_content row = nmsg_content message"
    "decode_message row = Ok stored" "mid \<notin> mrow_id ` set rows"
    "str_len (nmsg_content message) \<le> MAX_MESSAGE_CONTENT_BYTES"
    by (auto elim: append_message_Ok)
  have "map mrow_sequence (session_rows rows' s) = [0..<length (session_rows rows' s)]" for s
    using assms(1) next_message_sequence_length [OF assms(1), of sid] row(3,4)
    by (auto simp: row(1) messages_inv_def session_rows_def)
  then show ?thesis
    using assms(1,3) row by (auto simp: messages_inv_def message_ok_def)
qed

lemma sort_session_rows:
  assumes "messages_inv rows"
  shows "sort_key mrow_sequence (session_rows rows sid) = session_rows rows sid"
proof -
  have "sorted (map mrow_sequence (session_rows rows sid))"
    using assms by (simp add: messages_inv_def)
  then show ?thesis by (intro properties_for_sort_key) simp_all
qed

text \<open>The window a run replays is the end of the conversation, oldest first.\<close>

lemma recent_window:
  assumes "messages_inv rows" "0 < limit" "limit \<le> MAX_MESSAGE_PAGE"
  shows "read_recent_messages rows sid limit = collect_results decode_message
    (drop (length (session_rows rows sid) - limit) (session_rows rows sid))"
proof -
  let ?rs = "session_rows rows sid"
  have "take limit (rev ?rs) = rev (drop (length ?rs - limit) ?rs)" by (simp add: take_rev)
  moreover have "sort_key mrow_sequence (rev (drop (length ?rs - limit) ?rs))
      = drop (length ?rs - limit) ?rs"
  proof (rule properties_for_sort_key)
    have "map mrow_sequence ?rs = [0..<length ?rs]" using assms(1) by (simp add: messages_inv_def)
    then have "sorted (map mrow_sequence (drop (length ?rs - limit) ?rs))"
      and d: "distinct (map mrow_sequence (drop (length ?rs - limit) ?rs))"
      by (simp_all add: drop_map [symmetric])
    then show "sorted (map mrow_sequence (drop (length ?rs - limit) ?rs))" by blast
    show "filter (\<lambda>x. mrow_sequence k = mrow_sequence x) (drop (length ?rs - limit) ?rs)
        = filter (\<lambda>x. mrow_sequence k = mrow_sequence x) (rev (drop (length ?rs - limit) ?rs))"
      if "k \<in> set (drop (length ?rs - limit) ?rs)" for k
    proof -
      have "distinct (map mrow_sequence zs) \<Longrightarrow> rev (filter (\<lambda>x. s = mrow_sequence x) zs)
          = filter (\<lambda>x. s = mrow_sequence x) zs" for s and zs :: "message_row list"
      proof (induction zs)
        case (Cons z zs)
        then have "s = mrow_sequence z \<Longrightarrow> filter (\<lambda>x. s = mrow_sequence x) zs = []"
          by (force simp: filter_empty_conv)
        with Cons show ?case by auto
      qed simp
      with d show ?thesis by (simp add: rev_filter)
    qed
  qed simp
  ultimately show ?thesis
    using assms(2,3) by (simp add: read_recent_messages_def sort_session_rows [OF assms(1)])
qed

end
