(* ===== verification/Async.thy ===== *)
theory Async
  imports Main
begin

text \<open>
  An \<open>async\<close> function as the sequence of its atomic steps. A handler runs alone between two awaits
  and other handlers may run at each of them, so \<open>Await f\<close> is one step on the shared world and
  \<open>Done a\<close> the return. \<open>run\<close> drives a handler alone; \<open>pool_step\<close> interleaves any number of
  handlers with their environment.

  The locale \<open>claims\<close> is the interface the concurrency theorem rests on: a world in which a key can
  be claimed once. A handler that follows its discipline (\<open>disc\<close>) performs the guarded action of a
  key only after claiming it, and then no interleaving performs it twice.
\<close>

datatype ('w, 'a) async = Done 'a | Await "'w \<Rightarrow> 'w \<times> ('w, 'a) async"

primrec async_bind :: "('w, 'a) async \<Rightarrow> ('a \<Rightarrow> ('w, 'b) async) \<Rightarrow> ('w, 'b) async" where
  "async_bind (Done a) k = k a"
| "async_bind (Await f) k = Await (\<lambda>w. map_prod (\<lambda>v. v) (\<lambda>p. async_bind p k) (f w))"

primrec run :: "('w, 'a) async \<Rightarrow> 'w \<Rightarrow> 'w \<times> 'a" where
  "run (Done a) = (\<lambda>w. (w, a))"
| "run (Await f) = (\<lambda>w. case map_prod (\<lambda>v. v) run (f w) of (w', r) \<Rightarrow> r w')"

text \<open>One awaited operation, and the \<open>?\<close> operator after it.\<close>

definition perform :: "('w \<Rightarrow> 'w \<times> 'r) \<Rightarrow> ('w, 'r) async" where
  "perform g = Await (\<lambda>w. map_prod (\<lambda>v. v) Done (g w))"

definition and_await :: "('w, 'e + 'a) async \<Rightarrow> ('a \<Rightarrow> ('w, 'e + 'b) async) \<Rightarrow> ('w, 'e + 'b) async" where
  "and_await p k = async_bind p (\<lambda>r. case r of Inl e \<Rightarrow> Done (Inl e) | Inr a \<Rightarrow> k a)"

text \<open>\<open>?\<close> on a value computed without awaiting.\<close>

definition lift_result :: "'e + 'a \<Rightarrow> ('a \<Rightarrow> ('w, 'e + 'b) async) \<Rightarrow> ('w, 'e + 'b) async" where
  "lift_result r k = (case r of Inl e \<Rightarrow> Done (Inl e) | Inr a \<Rightarrow> k a)"

lemma run_bind: "run (async_bind p k) w = (case run p w of (w', a) \<Rightarrow> run (k a) w')"
proof (induction p arbitrary: w)
  case (Await f)
  obtain w' p' where "f w = (w', p')" by force
  with Await [of "(w', p')" p' w'] rangeI [of f w] show ?case by simp
qed simp

lemma run_perform [simp]: "run (perform g) w = g w"
  by (cases "g w") (simp add: perform_def)

lemma run_and_await: "run (and_await p k) w =
    (case run p w of (w', Inl e) \<Rightarrow> (w', Inl e) | (w', Inr a) \<Rightarrow> run (k a) w')"
  by (simp add: and_await_def run_bind split: prod.split sum.split)

lemma run_lift: "run (lift_result r k) w = (case r of Inl e \<Rightarrow> (w, Inl e) | Inr a \<Rightarrow> run (k a) w)"
  by (simp add: lift_result_def split: sum.split)

section \<open>Interleaving\<close>

inductive pool_step ::
  "('w \<Rightarrow> 'w \<Rightarrow> bool) \<Rightarrow> ('w, 'a) async set \<Rightarrow> 'w \<times> ('w, 'a) async list
     \<Rightarrow> 'w \<times> ('w, 'a) async list \<Rightarrow> bool" for env handlers where
  spawn: "p \<in> handlers \<Longrightarrow> pool_step env handlers (w, ps) (w, ps @ [p])"
| task: "i < length ps \<Longrightarrow> ps ! i = Await f
    \<Longrightarrow> pool_step env handlers (w, ps) (fst (f w), ps[i := snd (f w)])"
| environment: "env w w' \<Longrightarrow> pool_step env handlers (w, ps) (w', ps)"

lemmas pool_stepE = pool_step.cases [consumes 1, case_names spawn task environment]

section \<open>Claiming before acting\<close>

text \<open>What one step of a handler that holds the keys \<open>T\<close> may do.\<close>

inductive token_step ::
  "('w \<Rightarrow> 'w \<Rightarrow> bool) \<Rightarrow> ('w \<Rightarrow> 'k \<Rightarrow> bool) \<Rightarrow> ('w \<Rightarrow> 'k \<Rightarrow> nat) \<Rightarrow> 'k set \<Rightarrow> 'k set \<Rightarrow> 'w \<Rightarrow> 'w \<Rightarrow> bool"
  for grow claimed acted where
  plain: "grow w w' \<Longrightarrow> acted w' = acted w \<Longrightarrow> token_step grow claimed acted T T w w'"
| claim: "grow w w' \<Longrightarrow> acted w' = acted w \<Longrightarrow> \<not> claimed w k \<Longrightarrow> claimed w' k
    \<Longrightarrow> token_step grow claimed acted T (insert k T) w w'"
| act: "grow w w' \<Longrightarrow> k \<in> T \<Longrightarrow> acted w' = (acted w)(k := Suc (acted w k))
    \<Longrightarrow> token_step grow claimed acted T (T - {k}) w w'"

definition stable :: "('w \<Rightarrow> bool) \<Rightarrow> ('w \<Rightarrow> 'w \<Rightarrow> bool) \<Rightarrow> ('w \<Rightarrow> bool) \<Rightarrow> bool" where
  "stable winv grow K \<longleftrightarrow> (\<forall>w w'. winv w \<longrightarrow> grow w w' \<longrightarrow> K w \<longrightarrow> K w')"

inductive disc ::
  "('w \<Rightarrow> bool) \<Rightarrow> ('w \<Rightarrow> 'w \<Rightarrow> bool) \<Rightarrow> ('w \<Rightarrow> 'k \<Rightarrow> bool) \<Rightarrow> ('w \<Rightarrow> 'k \<Rightarrow> nat)
    \<Rightarrow> ('a \<Rightarrow> 'k set \<Rightarrow> 'w \<Rightarrow> bool) \<Rightarrow> ('w \<Rightarrow> bool) \<Rightarrow> 'k set \<Rightarrow> ('w, 'a) async \<Rightarrow> bool"
  for winv grow claimed acted Q where
  disc_done: "(\<forall>w. winv w \<longrightarrow> K w \<longrightarrow> Q a T w) \<Longrightarrow> disc winv grow claimed acted Q K T (Done a)"
| disc_await: "(\<forall>w. winv w \<longrightarrow> K w \<longrightarrow> (\<exists>K' T'. token_step grow claimed acted T T' w (fst (f w))
      \<and> stable winv grow K' \<and> K' (fst (f w)) \<and> disc winv grow claimed acted Q K' T' (snd (f w))))
    \<Longrightarrow> disc winv grow claimed acted Q K T (Await f)"

inductive_cases disc_awaitE: "disc winv grow claimed acted Q K T (Await f)"

lemma disc_weaken:
  assumes "disc winv grow claimed acted Q K T p" "\<And>w. winv w \<Longrightarrow> K' w \<Longrightarrow> K w"
  shows "disc winv grow claimed acted Q K' T p"
  using assms
proof (cases rule: disc.cases)
  case (disc_done a)
  with assms(2) show ?thesis by (auto intro: disc.disc_done)
next
  case (disc_await f)
  with assms(2) show ?thesis by (auto intro!: disc.disc_await)
qed

lemma disc_bind:
  assumes "disc winv grow claimed acted Q K T p"
    and "\<And>a T. disc winv grow claimed acted R (Q a T) T (k a)"
  shows "disc winv grow claimed acted R K T (async_bind p k)"
  using assms(1)
proof (induction rule: disc.induct)
  case (disc_done K a T)
  with disc_weaken [OF assms(2) [of a T]] show ?case by simp
next
  case (disc_await K T f)
  then show ?case
    by (auto intro!: disc.disc_await simp: fst_map_prod snd_map_prod) blast
qed

lemma disc_perform:
  assumes "\<And>w. winv w \<Longrightarrow> K w \<Longrightarrow> \<exists>T'. token_step grow claimed acted T T' w (fst (g w))
      \<and> winv (fst (g w)) \<and> Q (snd (g w)) T' (fst (g w))"
    and "\<And>a T. stable winv grow (Q a T)"
  shows "disc winv grow claimed acted Q K T (perform g)"
  unfolding perform_def
proof (rule disc.disc_await, intro allI impI)
  fix w assume "winv w" "K w"
  from assms(1) [OF this] obtain T' where T': "token_step grow claimed acted T T' w (fst (g w))"
    "Q (snd (g w)) T' (fst (g w))" by blast
  show "\<exists>K' T'. token_step grow claimed acted T T' w (fst (map_prod (\<lambda>v. v) Done (g w)))
      \<and> stable winv grow K' \<and> K' (fst (map_prod (\<lambda>v. v) Done (g w)))
      \<and> disc winv grow claimed acted Q K' T' (snd (map_prod (\<lambda>v. v) Done (g w)))"
    using T' assms(2) by (intro exI [of _ "Q (snd (g w)) T'"] exI [of _ T']) (auto intro: disc.disc_done)
qed

text \<open>The interface: worlds only grow, a claimed key stays claimed.\<close>

locale claims =
  fixes winv :: "'w \<Rightarrow> bool"
    and grow :: "'w \<Rightarrow> 'w \<Rightarrow> bool"
    and claimed :: "'w \<Rightarrow> 'k \<Rightarrow> bool"
    and acted :: "'w \<Rightarrow> 'k \<Rightarrow> nat"
  assumes grow_inv: "winv w \<Longrightarrow> grow w w' \<Longrightarrow> winv w'"
    and grow_claimed: "winv w \<Longrightarrow> grow w w' \<Longrightarrow> claimed w k \<Longrightarrow> claimed w' k"
begin

text \<open>Who holds which key: no key has two holders, and a key that was acted on has none.\<close>

definition pool_inv :: "'w \<Rightarrow> ('w, 'a) async list \<Rightarrow> 'k set list \<Rightarrow> bool" where
  "pool_inv w ps ts \<longleftrightarrow> winv w \<and> length ts = length ps
     \<and> (\<forall>i < length ps. \<exists>K. stable winv grow K \<and> K w
           \<and> disc winv grow claimed acted (\<lambda>_ _ _. True) K (ts ! i) (ps ! i))
     \<and> (\<forall>i < length ps. \<forall>j < length ps. i \<noteq> j \<longrightarrow> ts ! i \<inter> ts ! j = {})
     \<and> (\<forall>i < length ps. \<forall>k \<in> ts ! i. claimed w k \<and> acted w k = 0)
     \<and> (\<forall>k. acted w k \<le> 1 \<and> (0 < acted w k \<longrightarrow> claimed w k))"

lemma token_step_grow: "token_step grow claimed acted T T' w w' \<Longrightarrow> grow w w'"
  by (auto elim: token_step.cases)

lemma pool_inv_task:
  assumes winv: "pool_inv w ps ts" and i: "i < length ps" "ps ! i = Await f"
  shows "\<exists>ts'. pool_inv (fst (f w)) (ps[i := snd (f w)]) ts'"
proof -
  from winv i obtain K where K: "stable winv grow K" "K w"
      "disc winv grow claimed acted (\<lambda>_ _ _. True) K (ts ! i) (Await f)" "winv w" "length ts = length ps"
    unfolding pool_inv_def by metis
  from K(3) K(2,4) obtain K' T' where step: "token_step grow claimed acted (ts ! i) T' w (fst (f w))"
      "stable winv grow K'" "K' (fst (f w))" "disc winv grow claimed acted (\<lambda>_ _ _. True) K' T' (snd (f w))"
    by (auto elim!: disc_awaitE)
  let ?w = "fst (f w)" and ?ts = "ts[i := T']"
  note grow = token_step_grow [OF step(1)]
  have keep: "claimed w k \<Longrightarrow> claimed ?w k" for k by (rule grow_claimed [OF K(4) grow])
  have disj: "j < length ps \<Longrightarrow> j \<noteq> i \<Longrightarrow> ts ! j \<inter> ts ! i = {}" for j
    using winv i(1) by (auto simp: pool_inv_def)
  have own: "\<And>j k. j < length ps \<Longrightarrow> k \<in> ts ! j \<Longrightarrow> claimed w k \<and> acted w k = 0"
    and once: "\<And>k. acted w k \<le> 1 \<and> (0 < acted w k \<longrightarrow> claimed w k)"
    using winv by (auto simp: pool_inv_def)
  have "winv ?w" by (rule grow_inv [OF K(4) grow])
  moreover have "\<exists>K. stable winv grow K \<and> K ?w
      \<and> disc winv grow claimed acted (\<lambda>_ _ _. True) K (?ts ! j) (ps[i := snd (f w)] ! j)" if "j < length ps" for j
  proof (cases "j = i")
    case True
    with step i K(5) show ?thesis by auto
  next
    case False
    from winv that obtain L where "stable winv grow L" "L w"
        "disc winv grow claimed acted (\<lambda>_ _ _. True) L (ts ! j) (ps ! j)" unfolding pool_inv_def by metis
    with False K(4) grow show ?thesis by (auto simp: stable_def)
  qed
  moreover have "(\<forall>j < length ps. j \<noteq> i \<longrightarrow> ts ! j \<inter> T' = {})
      \<and> (\<forall>k \<in> T'. claimed ?w k \<and> acted ?w k = 0)
      \<and> (\<forall>j < length ps. j \<noteq> i \<longrightarrow> (\<forall>k \<in> ts ! j. claimed ?w k \<and> acted ?w k = 0))
      \<and> (\<forall>k. acted ?w k \<le> 1 \<and> (0 < acted ?w k \<longrightarrow> claimed ?w k))"
    using step(1)
  proof cases
    case plain
    with disj own once keep i(1) show ?thesis by auto
  next
    case (claim k)
    have "k \<notin> ts ! j" if "j < length ps" for j using own [OF that, of k] claim by blast
    moreover have "acted w k = 0" using once [of k] claim(4) by auto
    ultimately show ?thesis using disj own once keep i(1) claim by auto
  next
    case (act k)
    have "claimed w k" "acted w k = 0" using own [OF i(1) act(3)] by auto
    moreover have "k \<notin> ts ! j" if "j < length ps" "j \<noteq> i" for j using disj [OF that] act(3) by blast
    ultimately show ?thesis using disj own once keep i(1) act by auto
  qed
  ultimately have "pool_inv ?w (ps[i := snd (f w)]) ?ts"
    using K(5) i(1) winv unfolding pool_inv_def by (auto simp: nth_list_update)
  then show ?thesis by blast
qed

lemma pool_inv_spawn:
  assumes pool: "pool_inv w ps ts" and p: "disc winv grow claimed acted (\<lambda>_ _ _. True) (\<lambda>_. True) {} p"
  shows "pool_inv w (ps @ [p]) (ts @ [{}])"
proof -
  have "stable winv grow (\<lambda>_. True)" by (simp add: stable_def)
  with p have new: "\<exists>K. stable winv grow K \<and> K w \<and> disc winv grow claimed acted (\<lambda>_ _ _. True) K {} p" by blast
  have len: "length ts = length ps" using pool by (simp add: pool_inv_def)
  show ?thesis
    using pool new unfolding pool_inv_def by (simp add: nth_append less_Suc_eq len all_conj_distrib)
qed

lemma pool_inv_environment:
  assumes pool: "pool_inv w ps ts" and e: "grow w w'" "acted w' = acted w"
  shows "pool_inv w' ps ts"
proof -
  have w: "winv w" using pool by (simp add: pool_inv_def)
  have keep: "claimed w k \<Longrightarrow> claimed w' k" for k by (rule grow_claimed [OF w e(1)])
  have "\<exists>K. stable winv grow K \<and> K w' \<and> disc winv grow claimed acted (\<lambda>_ _ _. True) K (ts ! i) (ps ! i)"
    if "i < length ps" for i
  proof -
    from pool that obtain K where "stable winv grow K" "K w"
      "disc winv grow claimed acted (\<lambda>_ _ _. True) K (ts ! i) (ps ! i)" unfolding pool_inv_def by metis
    with w e(1) show ?thesis by (auto simp: stable_def)
  qed
  with pool keep grow_inv [OF w e(1)] show ?thesis by (simp add: pool_inv_def e(2))
qed

definition disciplined :: "('w \<Rightarrow> 'w \<Rightarrow> bool) \<Rightarrow> ('w, 'a) async set \<Rightarrow> bool" where
  "disciplined env handlers \<longleftrightarrow>
     (\<forall>p \<in> handlers. disc winv grow claimed acted (\<lambda>_ _ _. True) (\<lambda>_. True) {} p)
     \<and> (\<forall>w w'. winv w \<longrightarrow> env w w' \<longrightarrow> grow w w' \<and> acted w' = acted w)"

lemma pool_inv_step:
  assumes pool: "pool_inv w ps ts" and step: "pool_step env handlers (w, ps) (w', ps')"
    and ok: "disciplined env handlers"
  shows "\<exists>ts'. pool_inv w' ps' ts'"
  using step
proof (cases rule: pool_stepE)
  case (spawn p)
  with ok pool_inv_spawn [OF pool] show ?thesis by (auto simp: disciplined_def)
next
  case (task i f)
  with pool_inv_task [OF pool] show ?thesis by auto
next
  case environment
  with ok pool pool_inv_environment [OF pool] show ?thesis by (auto simp: disciplined_def pool_inv_def)
qed

lemma pool_inv_steps:
  assumes "(pool_step env handlers)\<^sup>*\<^sup>* (w, ps) (w', ps')" "pool_inv w ps ts" "disciplined env handlers"
  shows "\<exists>ts'. pool_inv w' ps' ts'"
  using assms(1,2)
proof (induction "(w, ps)" arbitrary: w ps ts rule: converse_rtranclp_induct)
  case (step y)
  obtain v qs where y: "y = (v, qs)" by force
  from pool_inv_step [OF step.prems step.hyps(1) [unfolded y] assms(3)] step.hyps(3) [OF y] show ?case by blast
qed blast

theorem acted_at_most_once:
  assumes "(pool_step env handlers)\<^sup>*\<^sup>* (w, []) (w', ps)" and "disciplined env handlers"
    and "winv w" "\<And>k. acted w k = 0"
  shows "acted w' k \<le> 1" "winv w'"
proof -
  have "pool_inv w [] []" using assms(3,4) by (simp add: pool_inv_def)
  from pool_inv_steps [OF assms(1) this assms(2)] show "acted w' k \<le> 1" "winv w'" by (auto simp: pool_inv_def)
qed

end

end
