(* ===== verification/Tool_Pipeline.thy ===== *)
theory Tool_Pipeline
  imports Async Memory Tool_Call_Laws Approval_Laws Tool_Execution Tool_Registry Tool_Schema Work_Admission
begin

text \<open>
  The daemon's tool pipeline, \<open>apps/jarvisd/src/tool_pipeline.rs\<close>, with its dispatch table
  (\<open>dispatch.rs\<close>) and its callers' authority (\<open>tool_actor.rs\<close>): how a requested call is validated,
  decided, admitted, held for the owner or executed, and how a held call is resumed. Every handler is
  an \<open>async\<close> program over the shared world, one step per awaited storage call, so other handlers may
  act between any two of them. The world keeps, beside the tables, the requests that adapters have been
  asked to execute; \<open>pw_executed\<close> and \<open>pw_served\<close> are that history and no handler reads them.
\<close>

section \<open>Dispatch\<close>

text \<open>An \<open>Arc<dyn ToolExecutor>\<close> is the number of the adapter.\<close>

datatype DispatchError = Disp_Duplicate rstr | Uncovered rstr

type_synonym Dispatch = "(rstr, nat) btree_map"

fun claim_tools :: "nat \<Rightarrow> ToolDefinition list \<Rightarrow> Dispatch \<Rightarrow> DispatchError + Dispatch" where
  "claim_tools adapter [] adapters = Ok adapters"
| "claim_tools adapter (d # ds) adapters =
     (let tid = ToolId_display (td_id d) in
      if bt_contains adapters tid then Err (Disp_Duplicate tid)
      else claim_tools adapter ds (bt_insert tid adapter adapters))"

fun Dispatch_build :: "(ToolDefinition list \<times> nat) list \<Rightarrow> Dispatch \<Rightarrow> DispatchError + Dispatch" where
  "Dispatch_build [] adapters = Ok adapters"
| "Dispatch_build ((definitions, adapter) # sources) adapters =
     and_then (claim_tools adapter definitions adapters) (Dispatch_build sources)"

definition Dispatch_new :: "(ToolDefinition list \<times> nat) list \<Rightarrow> DispatchError + Dispatch" where
  "Dispatch_new sources = Dispatch_build sources []"

definition verify_covers :: "Dispatch \<Rightarrow> ToolId list \<Rightarrow> DispatchError + unit" where
  "verify_covers dispatch registry_tools =
     (case sort (filter (\<lambda>i. \<not> bt_contains dispatch i) (map ToolId_display registry_tools)) of
        [] \<Rightarrow> Ok ()
      | tool # _ \<Rightarrow> Err (Uncovered tool))"

definition adapter_for :: "Dispatch \<Rightarrow> ToolId \<Rightarrow> nat option" where
  "adapter_for dispatch i = bt_get dispatch (ToolId_display i)"

section \<open>Callers\<close>

datatype SessionChannel = Chan_Cli | Chan_Desktop | Chan_Api | Chan_Voice

record ToolActor =
  ta_workspace_id :: rstr
  ta_run_id :: rstr
  ta_scopes :: ScopeSet
  ta_channel :: SessionChannel
  ta_policy_version :: rstr
  ta_read_destination :: Sensitivity

definition authority :: "ToolActor \<Rightarrow> ActorAuthority" where
  "authority actor = ActorAuthority_active (ta_scopes actor)"

section \<open>The world and what it is made of\<close>

record pipeline_world =
  pw_db :: call_db
  pw_approvals :: "stored_approval list"
  pw_gate :: State
  pw_policy :: WorkspacePolicy
  pw_executed :: "ToolExecutionRequest list"
  pw_served :: "ToolExecutionRequest list"

text \<open>
  The pipeline and the code outside it: \<open>serde_json\<close>, SHA-256, the compiled JSON Schema validators, the
  parser of identifiers, the representable instants, the rows of the parent tables, the printed form of
  instants, and what each adapter answers.
\<close>

record ToolPipeline =
  pl_registry :: ToolRegistry
  pl_dispatch :: Dispatch
  pl_to_string :: "json \<Rightarrow> rstr option"
  pl_parse_json :: "rstr \<Rightarrow> json_root option"
  pl_sha256 :: "rstr \<Rightarrow> byte list"
  pl_validator :: "json \<Rightarrow> validator"
  pl_parse_id :: "rstr \<Rightarrow> ident option"
  pl_representable :: "int \<Rightarrow> bool"
  pl_stamp :: "instant \<Rightarrow> rstr"
  pl_call_parents :: "NewToolCall \<Rightarrow> bool"
  pl_approval_parents :: "ApprovalRequest \<Rightarrow> bool"
  pl_url :: "rstr \<Rightarrow> (rstr option \<times> rstr) option"
  pl_adapter :: "nat \<Rightarrow> ToolExecutionRequest \<Rightarrow> AdapterError + ToolCallResult"

text \<open>The clock readings, identifiers and random bytes one handler draws, in the order it draws them.\<close>

record draws =
  dr_event_id :: ident
  dr_event_at :: instant
  dr_now :: instant
  dr_key :: "byte list option"
  dr_expiry_at :: instant
  dr_approval_id :: ident
  dr_link_at :: instant
  dr_hold_event_id :: ident
  dr_hold_event_at :: instant
  dr_submitted_at :: instant
  dr_settled_at :: instant

datatype StorageError = Store_Calls ToolCallError | Store_Approvals ApprovalStoreError | Store_Runs DatabaseError

datatype ToolPipelineError =
    Pipe_InvalidToolId ToolIdError
  | Pipe_UnknownTool rstr
  | InvalidArguments rstr rstr
  | UnintelligibleIntent rstr
  | DuplicateCall rstr
  | RepeatedRequest rstr
  | Pipe_Registration RegistrationError
  | Pipe_Registry RegistryError
  | Pipe_Storage StorageError
  | Pipe_Request ExecutionRequestError
  | Pipe_Receipt ReceiptError
  | Pipe_Key IdempotencyKeyError
  | Pipe_AdapterCall AdapterError
  | UnknownCall rstr
  | ResumeRefused rstr rstr
  | ApprovalIdentity rstr
  | Pipe_Approval InvalidApprovalField
  | Pipe_Event rstr InvalidRunEvent
  | Pipe_Schema SchemaError
  | Pipe_Dispatch DispatchError

datatype ToolPipelineOutcome =
    Executed ToolCallResult
  | AwaitingApproval rstr rstr rstr
  | Pipe_Refused rstr

type_synonym 'a pipeline_call = "(pipeline_world, ToolPipelineError + 'a) async"

section \<open>Storage calls as steps\<close>

definition on_db ::
  "(call_db \<Rightarrow> call_db \<times> (ToolCallError + 'a)) \<Rightarrow> 'a pipeline_call" where
  "on_db f = perform (\<lambda>w. case f (pw_db w) of (db, r) \<Rightarrow>
     (w\<lparr>pw_db := db\<rparr>, map_err (\<lambda>e. Pipe_Storage (Store_Calls e)) r))"

definition on_store ::
  "(run_db \<Rightarrow> run_db \<times> (DatabaseError + 'a)) \<Rightarrow> 'a pipeline_call" where
  "on_store f = perform (\<lambda>w. case f (cdb_store (pw_db w)) of (store, r) \<Rightarrow>
     (w\<lparr>pw_db := (pw_db w)\<lparr>cdb_store := store\<rparr>\<rparr>, map_err (\<lambda>e. Pipe_Storage (Store_Runs e)) r))"

definition on_approvals ::
  "(stored_approval list \<Rightarrow> stored_approval list \<times> (ApprovalStoreError + 'a)) \<Rightarrow> 'a pipeline_call" where
  "on_approvals f = perform (\<lambda>w. case f (pw_approvals w) of (rows, r) \<Rightarrow>
     (w\<lparr>pw_approvals := rows\<rparr>, map_err (\<lambda>e. Pipe_Storage (Store_Approvals e)) r))"

text \<open>\<open>record_tool_outcome\<close> reads the call and then writes it under its version, as in \<open>Tool_Call_Store\<close>.\<close>

definition read_stored_call :: "rstr \<Rightarrow> StoredToolCall pipeline_call" where
  "read_stored_call cid = on_db (\<lambda>db. (db, find_tool_call db cid))"

definition record_outcome ::
  "rstr \<Rightarrow> ToolOutcomeRecord \<Rightarrow> (rstr \<times> bool) option \<Rightarrow> instant \<Rightarrow> StoredToolCall pipeline_call" where
  "record_outcome cid rec output at =
     and_await (read_stored_call cid) (\<lambda>existing. on_db (\<lambda>db. write_outcome db cid existing rec output at))"

definition advance_call :: "rstr \<Rightarrow> ToolOutcome \<Rightarrow> instant \<Rightarrow> StoredToolCall pipeline_call" where
  "advance_call cid outcome at =
     lift_result (map_err (\<lambda>_. Pipe_Storage (Store_Calls (InvalidToolCallRequest (lit ''outcome''))))
                    (ToolOutcomeRecord_new outcome)) (\<lambda>rec.
       record_outcome cid rec None at)"

section \<open>What the run's stream is told\<close>

text \<open>\<open>tool_activity.rs\<close>: \<open>pl_url\<close> answers the host and the path of an address that parses.\<close>

definition MAX_TARGET_CHARS :: nat where "MAX_TARGET_CHARS = 160"

definition clip :: "rstr \<Rightarrow> nat \<Rightarrow> rstr" where
  "clip s limit =
     (let flat = join [32] (split_whitespace [] s) in
      if length flat \<le> limit then flat else take (limit - 1) flat @ [0x2026])"

definition display_address :: "ToolPipeline \<Rightarrow> rstr \<Rightarrow> rstr" where
  "display_address pl candidate =
     (case pl_url pl (trim candidate) of
        None \<Rightarrow> clip candidate MAX_TARGET_CHARS
      | Some (None, _) \<Rightarrow> clip candidate MAX_TARGET_CHARS
      | Some (Some host, path) \<Rightarrow> clip (host @ (if path = [47] then [] else path)) MAX_TARGET_CHARS)"

text \<open>\<open>Value\<close>'s \<open>Display\<close>, which writes to memory and cannot fail.\<close>

definition json_text :: "ToolPipeline \<Rightarrow> json \<Rightarrow> rstr" where
  "json_text pl v = (case pl_to_string pl v of Some s \<Rightarrow> s | None \<Rightarrow> [])"

definition get_field :: "json \<Rightarrow> rstr \<Rightarrow> json option" where
  "get_field v name = (case v of JObject members \<Rightarrow> map_of members name | _ \<Rightarrow> None)"

definition text_field :: "json \<Rightarrow> rstr \<Rightarrow> rstr option" where
  "text_field v name = Option.bind (get_field v name) as_str"

definition target_for :: "ToolPipeline \<Rightarrow> rstr \<Rightarrow> json \<Rightarrow> rstr option" where
  "target_for pl tool arguments =
     (if tool = lit ''jarvis.web.fetch''
      then map_option (display_address pl) (text_field arguments (lit ''url''))
      else if tool \<in> {lit ''jarvis.web.search'', lit ''jarvis.memory.search'', lit ''jarvis.knowledge.search''}
      then map_option (\<lambda>q. clip q MAX_TARGET_CHARS) (text_field arguments (lit ''query''))
      else if tool \<in> {lit ''jarvis.agent.delegate'', lit ''jarvis.code.delegate''}
      then map_option (\<lambda>t. clip t MAX_TARGET_CHARS) (text_field arguments (lit ''task''))
      else None)"

definition command_line :: "rstr \<Rightarrow> json \<Rightarrow> rstr" where
  "command_line program arguments =
     (let rest = (case get_field arguments (lit ''arguments'') of
                    Some (JArray items) \<Rightarrow> join [32] (List.map_filter as_str items)
                  | _ \<Rightarrow> [])
      in take 160 (trim (program @ [32] @ rest)))"

definition requested_target :: "ToolPipeline \<Rightarrow> rstr \<Rightarrow> json \<Rightarrow> rstr option" where
  "requested_target pl tool arguments =
     (case text_field arguments (lit ''path'') of
        Some path \<Rightarrow> Some (take 160 path)
      | None \<Rightarrow>
          (case (if tool = lit ''jarvis.command.run'' then text_field arguments (lit ''program'') else None) of
             Some program \<Rightarrow> Some (command_line program arguments)
           | None \<Rightarrow> target_for pl tool arguments))"

definition requested_payload :: "ToolPipeline \<Rightarrow> rstr \<Rightarrow> rstr \<Rightarrow> json \<Rightarrow> rstr" where
  "requested_payload pl tool version arguments =
     (let members = [(lit ''tool'', JString tool), (lit ''tool_version'', JString version)];
          payload = JObject (case requested_target pl tool arguments of
                       None \<Rightarrow> members | Some t \<Rightarrow> (lit ''target'', JString t) # members)
      in json_text pl payload)"

definition append_event ::
  "ToolPipeline \<Rightarrow> ident \<Rightarrow> rstr \<Rightarrow> RunEventKind \<Rightarrow> rstr \<Rightarrow> rstr \<Rightarrow> ident \<Rightarrow> instant \<Rightarrow> nat pipeline_call" where
  "append_event pl event_id rid kind summary payload correlation_id at =
     (let reject = map_err (Pipe_Event (RunEventKind_as_str kind)) in
      lift_result (reject (EventSummary_new summary)) (\<lambda>sm.
      lift_result (reject (RunEventPayload_new (pl_parse_json pl) payload)) (\<lambda>p.
      lift_result (map_err (\<lambda>e. Pipe_Storage (Store_Runs e))
          (NewRunEvent_new event_id rid kind (Some sm) p correlation_id at)) (\<lambda>event.
        on_store (\<lambda>store. append_run_event store event)))))"

section \<open>Executing an authorized call\<close>

definition deadline_after :: "(int \<Rightarrow> bool) \<Rightarrow> instant \<Rightarrow> nat \<Rightarrow> instant" where
  "deadline_after representable start timeout_seconds =
     (case from_unix_nanos representable (start + int timeout_seconds * 1000000000) of
        Inl _ \<Rightarrow> start | Inr t \<Rightarrow> t)"

record PreparedCall =
  prep_call_id :: rstr
  prep_receipt :: AuthorizationReceipt
  prep_key :: rstr
  prep_arguments :: json
  prep_issued_at :: instant
  prep_read_context :: "(rstr \<times> Sensitivity) option"

definition read_context_of ::
  "ToolPipeline \<Rightarrow> (rstr \<times> Sensitivity) option \<Rightarrow> ToolExecutionRequest \<Rightarrow> ToolExecutionRequest" where
  "read_context_of pl context request =
     (case context of
        None \<Rightarrow> request
      | Some (workspace, destination) \<Rightarrow>
          (case pl_parse_id pl workspace of
             None \<Rightarrow> request
           | Some wid \<Rightarrow> with_read_context request wid destination))"

text \<open>The adapter is asked: the request joins the history, the tables stay.\<close>

definition execute_adapter :: "ToolPipeline \<Rightarrow> nat \<Rightarrow> ToolExecutionRequest \<Rightarrow> ToolCallResult pipeline_call" where
  "execute_adapter pl adapter request = perform (\<lambda>w.
     (w\<lparr>pw_executed := pw_executed w @ [request]\<rparr>, map_err Pipe_AdapterCall (pl_adapter pl adapter request)))"

definition execution_parts ::
  "ToolPipeline \<Rightarrow> PreparedCall \<Rightarrow> ToolId \<Rightarrow> ToolDefinition \<Rightarrow> ident \<Rightarrow> ToolExecutionRequestParts" where
  "execution_parts pl prepared tid definition_of_tool correlation_id =
     \<lparr>exp_call_id = prep_call_id prepared, exp_tool = tid, exp_tool_version = td_version definition_of_tool,
      exp_arguments = prep_arguments prepared, exp_receipt = prep_receipt prepared,
      exp_idempotency_key = prep_key prepared,
      exp_deadline = deadline_after (pl_representable pl) (prep_issued_at prepared)
                       (td_timeout_seconds definition_of_tool),
      exp_correlation_id = correlation_id\<rparr>"

definition execute_and_record ::
  "ToolPipeline \<Rightarrow> draws \<Rightarrow> PreparedCall \<Rightarrow> rstr \<Rightarrow> ToolDefinition \<Rightarrow> ident \<Rightarrow> ToolPipelineOutcome pipeline_call" where
  "execute_and_record pl dr prepared tool definition_of_tool correlation_id =
     lift_result (map_err Pipe_InvalidToolId (ToolId_from_str tool)) (\<lambda>tid.
     lift_result (map_err Pipe_Request (ToolExecutionRequest_new (pl_to_string pl) (pl_sha256 pl)
         (execution_parts pl prepared tid definition_of_tool correlation_id))) (\<lambda>plain.
       let request = read_context_of pl (prep_read_context prepared) plain in
     and_await (advance_call (prep_call_id prepared) Authorized (prep_issued_at prepared)) (\<lambda>_.
     and_await (advance_call (prep_call_id prepared) Submitted (dr_submitted_at dr)) (\<lambda>_.
     and_await (case adapter_for (pl_dispatch pl) (exp_tool request) of
          None \<Rightarrow> Done (Err (Pipe_Dispatch (Uncovered tool)))
        | Some adapter \<Rightarrow> execute_adapter pl adapter request) (\<lambda>result.
     and_await (record_outcome (prep_call_id prepared) (res_record result)
          (map_option (\<lambda>o'. (out_content o', out_truncated o')) (res_output result)) (res_reported_at result)) (\<lambda>_.
       Done (Ok (Executed result))))))))"


section \<open>Construction\<close>

text \<open>
  \<open>with_adapters\<close>: every source is registered whole, then the dispatch table is built from the same
  sources and checked against what the registry holds. The filesystem adapter, when roots are granted, is
  the first source.
\<close>

fun register_sources :: "ToolRegistry \<Rightarrow> (ToolDefinition list \<times> nat) list \<Rightarrow> ToolPipelineError + ToolRegistry" where
  "register_sources reg [] = Ok reg"
| "register_sources reg ((definitions, adapter) # sources) =
     (case define_all reg definitions of
        (_, Inl e) \<Rightarrow> Err (Pipe_Registration e)
      | (reg', Inr _) \<Rightarrow> register_sources reg' sources)"

definition registered_ids :: "ToolRegistry \<Rightarrow> ToolPipelineError + ToolId list" where
  "registered_ids reg =
     map_err Pipe_InvalidToolId (collect_results (\<lambda>e. ToolId_from_str (inv_id e)) (inventory reg))"

definition compose_tools ::
  "(ToolDefinition list \<times> nat) list \<Rightarrow> ToolPipelineError + (ToolRegistry \<times> Dispatch)" where
  "compose_tools sources =
     and_then (register_sources registry_new sources) (\<lambda>reg.
     and_then (map_err Pipe_Dispatch (Dispatch_new sources)) (\<lambda>dispatch.
     and_then (registered_ids reg) (\<lambda>registered.
     and_then (map_err Pipe_Dispatch (verify_covers dispatch registered)) (\<lambda>_.
       Ok (reg, dispatch)))))"

definition with_adapters ::
  "ToolPipeline \<Rightarrow> (ToolDefinition list \<times> nat) option \<Rightarrow> (ToolDefinition list \<times> nat) list
    \<Rightarrow> ToolPipelineError + ToolPipeline" where
  "with_adapters outside filesystem additional =
     map_ok (\<lambda>(reg, dispatch). outside\<lparr>pl_registry := reg, pl_dispatch := dispatch\<rparr>)
       (compose_tools ((case filesystem of None \<Rightarrow> [] | Some source \<Rightarrow> [source]) @ additional))"

section \<open>Validating and deciding\<close>

definition describe :: "SchemaViolation list \<Rightarrow> rstr" where
  "describe violations = join (lit ''; '') (map (\<lambda>v.
     (if instance_path v = [] then lit ''(the whole input)'' else instance_path v)
       @ lit '' failed `'' @ violated_keyword v @ lit ''`'') violations)"

definition validate :: "ToolPipeline \<Rightarrow> ToolDefinition \<Rightarrow> rstr \<Rightarrow> json \<Rightarrow> ToolPipelineError + unit" where
  "validate pl d tool arguments =
     and_then (map_err Pipe_Schema (schema_validate
         \<lparr>schema_document = td_input_schema d, schema_validator = pl_validator pl (td_input_schema d)\<rparr> arguments))
       (\<lambda>report. if report_is_valid report then Ok () else Err (InvalidArguments tool (describe report)))"

definition definition_for :: "ToolPipeline \<Rightarrow> rstr \<Rightarrow> ToolPipelineError + ToolDefinition" where
  "definition_for pl tool =
     and_then (map_err Pipe_InvalidToolId (ToolId_from_str tool)) (\<lambda>tid.
       map_err (\<lambda>_. Pipe_UnknownTool tool) (get_tool (pl_registry pl) tid))"

definition policy_request :: "ToolDefinition \<Rightarrow> ToolActor \<Rightarrow> WorkspacePolicy \<Rightarrow> TargetAssessment \<Rightarrow> PolicyRequest" where
  "policy_request d actor policy target =
     \<lparr>req_definition = d, req_actor = authority actor, req_workspace = policy,
      req_available = is_available (td_availability d), req_target = target\<rparr>"

definition workspace_policy :: "WorkspacePolicy pipeline_call" where
  "workspace_policy = perform (\<lambda>w. (w, Ok (pw_policy w)))"

definition replace_workspace_policy :: "WorkspacePolicy \<Rightarrow> unit pipeline_call" where
  "replace_workspace_policy policy = perform (\<lambda>w. (w\<lparr>pw_policy := policy\<rparr>, Ok ()))"

definition preview_call ::
  "ToolPipeline \<Rightarrow> rstr \<Rightarrow> ToolActor \<Rightarrow> TargetAssessment \<Rightarrow> PolicyDecision pipeline_call" where
  "preview_call pl tool actor target =
     lift_result (definition_for pl tool) (\<lambda>d.
     and_await workspace_policy (\<lambda>policy. Done (Ok (evaluate (policy_request d actor policy target)))))"

text \<open>The stored role is authoritative: a delegated run never calls a tool with the delegation effect.\<close>

definition refuses_child_delegation :: "ToolDefinition \<Rightarrow> rstr \<Rightarrow> bool pipeline_call" where
  "refuses_child_delegation d rid =
     (if Delegation \<notin> td_effects d then Done (Ok False)
      else and_await (on_store (\<lambda>store. (store, find_run store rid))) (\<lambda>run. Done (Ok (run_is_delegated run))))"

section \<open>Admission to the daemon\<close>

text \<open>The work permit is held until the handler returns, whatever it returns.\<close>

definition while_admitted :: "ToolPipelineOutcome pipeline_call \<Rightarrow> ToolPipelineOutcome pipeline_call" where
  "while_admitted handler =
     async_bind (perform (\<lambda>w. case admit (pw_gate w) of (g, r) \<Rightarrow> (w\<lparr>pw_gate := g\<rparr>, r))) (\<lambda>r.
       case r of
         Inl _ \<Rightarrow> Done (Ok (Pipe_Refused (lit ''daemon_stopping'')))
       | Inr _ \<Rightarrow> async_bind handler (\<lambda>out.
           perform (\<lambda>w. (w\<lparr>pw_gate := drop_work_permit (pw_gate w)\<rparr>, out))))"

section \<open>Admitting, and holding for the owner\<close>

record PreparedHold =
  hold_call_id :: rstr
  hold_approval_id :: rstr
  hold_workspace_id :: rstr
  hold_run_id :: rstr
  hold_tool :: rstr
  hold_tool_version :: rstr
  hold_intent :: CanonicalIntentHash
  hold_risk :: Risk
  hold_preview :: rstr
  hold_arguments :: json
  hold_correlation_id :: ident
  hold_issued_at :: instant

datatype Admission = Runnable PreparedCall | Held PreparedHold

definition parsed_id :: "ToolPipeline \<Rightarrow> rstr \<Rightarrow> rstr \<Rightarrow> ToolPipelineError + ident" where
  "parsed_id pl field text = ok_or (pl_parse_id pl text) (ApprovalIdentity field)"

definition new_approval_request ::
  "ToolPipeline \<Rightarrow> PreparedHold \<Rightarrow> rstr \<Rightarrow> ident \<Rightarrow> instant \<Rightarrow> ToolPipelineError + ApprovalRequest" where
  "new_approval_request pl hold actor_id aid expires_at =
     and_then (parsed_id pl (lit ''workspace_id'') (hold_workspace_id hold)) (\<lambda>workspace.
     and_then (parsed_id pl (lit ''run_id'') (hold_run_id hold)) (\<lambda>rid.
       map_err Pipe_Approval (ApprovalRequest_new
         \<lparr>apr_id = aid, apr_workspace_id = workspace, apr_run_id = rid, apr_actor_id = actor_id,
          apr_tool = hold_tool hold, apr_tool_version = hold_tool_version hold,
          apr_intent = hold_intent hold, apr_preview = hold_preview hold,
          apr_risk_level = Risk_level (hold_risk hold), apr_correlation_id = hold_correlation_id hold,
          apr_created_at = hold_issued_at hold, apr_expires_at = expires_at\<rparr>)))"

definition approval_payload :: "ToolPipeline \<Rightarrow> ident \<Rightarrow> rstr \<Rightarrow> rstr" where
  "approval_payload pl aid cid =
     lit ''{\"approval_id\":'' @ json_text pl (JString aid) @ lit '',\"call_id\":'' @ json_text pl (JString cid)
       @ lit ''}''"

text \<open>The foreign key of the link: the approval exists in the approvals table.\<close>

definition link_hold :: "rstr \<Rightarrow> ident \<Rightarrow> instant \<Rightarrow> unit pipeline_call" where
  "link_hold cid aid at = perform (\<lambda>w.
     case link_tool_call_approval (\<lambda>a. list_ex (\<lambda>r. sap_id r = a) (pw_approvals w)) (pw_db w) cid aid at of
       (db, r) \<Rightarrow> (w\<lparr>pw_db := db\<rparr>, map_err (\<lambda>e. Pipe_Storage (Store_Calls e)) r))"

definition attach_held_arguments :: "ToolPipeline \<Rightarrow> ident \<Rightarrow> json \<Rightarrow> bool pipeline_call" where
  "attach_held_arguments pl aid arguments =
     (case pl_to_string pl arguments of
        None \<Rightarrow> Done (Ok False)
      | Some text \<Rightarrow> on_approvals (\<lambda>rows. map_prod (\<lambda>v. v) Ok (attach_approval_arguments rows aid text)))"

definition record_hold :: "ToolPipeline \<Rightarrow> draws \<Rightarrow> PreparedHold \<Rightarrow> PreparedHold pipeline_call" where
  "record_hold pl dr hold =
     (let requester = hold_run_id hold;
          expiry = default_expiry (pl_representable pl) (dr_expiry_at dr);
          approval = dr_approval_id dr in
     lift_result (new_approval_request pl hold requester approval expiry) (\<lambda>request.
     and_await (on_approvals (\<lambda>rows. create_approval (pl_approval_parents pl) rows request)) (\<lambda>_.
     and_await (link_hold (hold_call_id hold) (apr_id request) (dr_link_at dr)) (\<lambda>_.
     and_await (attach_held_arguments pl (apr_id request) (hold_arguments hold)) (\<lambda>_.
     and_await (append_event pl (dr_hold_event_id dr) (hold_run_id hold) ApprovalRequested
         (lit ''Approval needed for '' @ hold_tool hold)
         (approval_payload pl approval (hold_call_id hold)) (hold_correlation_id hold) (dr_hold_event_at dr)) (\<lambda>_.
       Done (Ok (hold\<lparr>hold_approval_id := approval\<rparr>))))))))"

text \<open>Of the run's earlier approvals, one for the same action still waiting or refused.\<close>

definition repeats :: "CanonicalIntentHash \<Rightarrow> ApprovalRequest \<Rightarrow> bool" where
  "repeats intent approval \<longleftrightarrow> encode_hex (apr_intent approval) = encode_hex intent
     \<and> ApprovalState_as_str (stored_state approval) \<in> {lit ''pending'', lit ''denied''}"

definition refuse_repeated ::
  "ToolPipeline \<Rightarrow> ToolActor \<Rightarrow> PolicyDecision \<Rightarrow> CanonicalIntentHash \<Rightarrow> unit pipeline_call" where
  "refuse_repeated pl actor decision intent =
     (if \<not> is_held decision then Done (Ok ())
      else and_await (on_approvals (\<lambda>rows. (rows, read_run_approvals (pl_stamp pl) rows (ta_run_id actor))))
        (\<lambda>earlier. case find (repeats intent) earlier of
            None \<Rightarrow> Done (Ok ())
          | Some previous \<Rightarrow> Done (Err (RepeatedRequest (ApprovalState_as_str (stored_state previous))))))"

definition admission_error :: "ToolPipelineError \<Rightarrow> ToolPipelineError" where
  "admission_error e =
     (case e of Pipe_Storage (Store_Calls (ToolCallDuplicate existing)) \<Rightarrow> DuplicateCall existing | _ \<Rightarrow> e)"

definition authorize_and_admit ::
  "ToolPipeline \<Rightarrow> draws \<Rightarrow> rstr \<Rightarrow> ToolDefinition \<Rightarrow> json \<Rightarrow> ToolActor \<Rightarrow> PolicyDecision \<Rightarrow> ident
    \<Rightarrow> Admission pipeline_call" where
  "authorize_and_admit pl dr tool d arguments actor decision correlation_id =
     lift_result (map_err (\<lambda>_. UnintelligibleIntent tool)
         (intent_compute (pl_to_string pl) (pl_sha256 pl) tool (td_version d) arguments)) (\<lambda>intent.
     let now = dr_now dr; cid = correlation_id in
     and_await (refuse_repeated pl actor decision intent) (\<lambda>_.
     lift_result (map_err Pipe_Key (IdempotencyKey_generate (dr_key dr))) (\<lambda>key.
     lift_result (map_err (\<lambda>e. Pipe_Storage (Store_Calls e)) (NewToolCall_new cid
         \<lparr>origin_workspace_id = ta_workspace_id actor, origin_run_id = ta_run_id actor, origin_step_id = None\<rparr>
         \<lparr>target_tool = tool, target_tool_version = td_version d\<rparr>
         \<lparr>binding_intent_hash = encode_hex intent, binding_idempotency_key = key, binding_receipt = cid,
          binding_policy_version = ta_policy_version actor, binding_approval_id = None\<rparr>
         correlation_id now)) (\<lambda>new.
     async_bind (on_db (\<lambda>db. admit_tool_call (pl_call_parents pl) db new)) (\<lambda>admitted.
     lift_result (map_err admission_error admitted) (\<lambda>call_id.
       if is_held decision then
         and_await (record_hold pl dr
           \<lparr>hold_call_id = call_id, hold_approval_id = [], hold_workspace_id = ta_workspace_id actor,
            hold_run_id = ta_run_id actor, hold_tool = tool, hold_tool_version = td_version d,
            hold_intent = intent, hold_risk = pd_effective_risk decision,
            hold_preview = tool @ [32] @ td_version d, hold_arguments = arguments,
            hold_correlation_id = correlation_id, hold_issued_at = now\<rparr>) (\<lambda>hold. Done (Ok (Held hold)))
       else
         lift_result (map_err Pipe_InvalidToolId (ToolId_from_str tool)) (\<lambda>tid.
         lift_result (map_err Pipe_Receipt (AuthorizationReceipt_new (pl_to_string pl) (pl_sha256 pl)
           \<lparr>arp_receipt_id = call_id, arp_tool = tid, arp_tool_version = td_version d,
            arp_arguments = arguments, arp_intent_hash = intent, arp_policy_version = ta_policy_version actor,
            arp_decision = decision, arp_approval = None, arp_correlation_id = correlation_id,
            arp_issued_at = now\<rparr>)) (\<lambda>receipt.
           Done (Ok (Runnable
             \<lparr>prep_call_id = call_id, prep_receipt = receipt, prep_key = key, prep_arguments = arguments,
              prep_issued_at = now,
              prep_read_context = Some (ta_workspace_id actor, ta_read_destination actor)\<rparr>))))))))))"

section \<open>A call from a run\<close>

definition call_decided ::
  "ToolPipeline \<Rightarrow> draws \<Rightarrow> rstr \<Rightarrow> ToolDefinition \<Rightarrow> json \<Rightarrow> ToolActor \<Rightarrow> PolicyDecision \<Rightarrow> ident
    \<Rightarrow> ToolPipelineOutcome pipeline_call" where
  "call_decided pl dr tool d arguments actor decision correlation_id =
     (if is_denied decision then Done (Ok (Pipe_Refused (reason_code decision)))
      else
     and_await (append_event pl (dr_event_id dr) (ta_run_id actor) ToolRequested (lit ''Requested '' @ tool)
         (requested_payload pl tool (td_version d) arguments) correlation_id (dr_event_at dr)) (\<lambda>_.
     and_await (authorize_and_admit pl dr tool d arguments actor decision correlation_id) (\<lambda>admission.
       case admission of
         Held hold \<Rightarrow> Done (Ok (AwaitingApproval (hold_call_id hold) (hold_approval_id hold) (reason_code decision)))
       | Runnable prepared \<Rightarrow> execute_and_record pl dr prepared tool d correlation_id)))"

definition call_admitted ::
  "ToolPipeline \<Rightarrow> draws \<Rightarrow> rstr \<Rightarrow> json \<Rightarrow> ToolActor \<Rightarrow> ident \<Rightarrow> ToolPipelineOutcome pipeline_call" where
  "call_admitted pl dr tool arguments actor correlation_id =
     lift_result (definition_for pl tool) (\<lambda>d.
     lift_result (validate pl d tool arguments) (\<lambda>_.
     and_await (refuses_child_delegation d (ta_run_id actor)) (\<lambda>child.
       if child then Done (Ok (Pipe_Refused (lit ''child_cannot_delegate'')))
       else and_await workspace_policy (\<lambda>policy.
         call_decided pl dr tool d arguments actor (evaluate (policy_request d actor policy {})) correlation_id))))"

definition call_tool ::
  "ToolPipeline \<Rightarrow> draws \<Rightarrow> rstr \<Rightarrow> json \<Rightarrow> ToolActor \<Rightarrow> ident \<Rightarrow> ToolPipelineOutcome pipeline_call" where
  "call_tool pl dr tool arguments actor correlation_id =
     while_admitted (call_admitted pl dr tool arguments actor correlation_id)"

section \<open>Resuming a held call\<close>

definition read_call :: "rstr \<Rightarrow> StoredToolCall pipeline_call" where
  "read_call cid = async_bind (read_stored_call cid) (\<lambda>r. Done (map_err (\<lambda>e.
     if e = Pipe_Storage (Store_Calls ToolCallNotFound) then UnknownCall cid else e) r))"

definition refuse_if ::
  "bool \<Rightarrow> rstr \<Rightarrow> rstr \<Rightarrow> 'a pipeline_call \<Rightarrow> 'a pipeline_call" where
  "refuse_if condition cid reason k = (if condition then Done (Err (ResumeRefused cid reason)) else k)"

definition citation_of :: "ApprovalRequest \<Rightarrow> ApprovalDecision \<Rightarrow> ApprovalCitation" where
  "citation_of approval decision =
     \<lparr>cite_approval_id = apr_id approval, cite_approver_id = dec_approver_id decision,
      cite_approved_at = dec_decided_at decision, cite_expires_at = apr_expires_at approval\<rparr>"

text \<open>The record and the text a refusal of the adapter leaves on a call its owner approved.\<close>

definition adapter_answer :: "AdapterError \<Rightarrow> (ToolOutcomeError + ToolOutcomeRecord) \<times> rstr" where
  "adapter_answer e =
     (let refused = (\<lambda>reason. (ToolOutcomeRecord_failed (take 280 reason),
            lit ''The owner approved this call, but the tool refused it, so nothing happened: '' @ reason))
      in case e of
        RefusedBeforeReaching reason \<Rightarrow> refused reason
      | ProviderRefused reason \<Rightarrow> refused reason
      | AmbiguousAfterReaching reason \<Rightarrow> (ToolOutcomeRecord_new Unknown,
          lit ''The owner approved this call and it may have gone through, but the result is unknown ('' @ reason
          @ lit ''). Do not try again; tell the user it may have happened and how to check.'')
      | NotImplemented _ \<Rightarrow> (ToolOutcomeRecord_failed (lit ''this tool is not available''),
          lit ''The owner approved this call, but the tool is not available, so nothing happened.''))"

definition settle_after_adapter_error :: "draws \<Rightarrow> rstr \<Rightarrow> AdapterError \<Rightarrow> ToolPipelineOutcome pipeline_call" where
  "settle_after_adapter_error dr cid e =
     lift_result (map_err (\<lambda>_. Pipe_AdapterCall e) (fst (adapter_answer e))) (\<lambda>rec.
     and_await (record_outcome cid rec (Some (snd (adapter_answer e), False)) (dr_settled_at dr)) (\<lambda>_.
       Done (Ok (Executed
         \<lparr>res_record = rec, res_evidence = None,
          res_output = Some \<lparr>out_content = snd (adapter_answer e), out_truncated = False\<rparr>,
          res_reported_at = dr_settled_at dr\<rparr>))))"

definition resume_prepared ::
  "ToolPipeline \<Rightarrow> draws \<Rightarrow> rstr \<Rightarrow> json \<Rightarrow> ToolActor \<Rightarrow> ident \<Rightarrow> StoredToolCall \<Rightarrow> ApprovalRequest
    \<Rightarrow> CanonicalIntentHash \<Rightarrow> ApprovalCitation \<Rightarrow> ToolDefinition \<Rightarrow> ToolPipelineOutcome pipeline_call" where
  "resume_prepared pl dr cid arguments actor correlation_id stored approval intent citation d =
     lift_result (map_err Pipe_InvalidToolId (ToolId_from_str (stc_tool stored))) (\<lambda>tid.
     lift_result (map_err Pipe_Receipt (AuthorizationReceipt_new (pl_to_string pl) (pl_sha256 pl)
       \<lparr>arp_receipt_id = stc_id stored, arp_tool = tid, arp_tool_version = stc_tool_version stored,
        arp_arguments = arguments, arp_intent_hash = intent, arp_policy_version = stc_policy_version stored,
        arp_decision = held_by_approval (apr_risk_level approval), arp_approval = Some citation,
        arp_correlation_id = correlation_id, arp_issued_at = dr_now dr\<rparr>)) (\<lambda>receipt.
     lift_result (map_err Pipe_Key (IdempotencyKey_parse (stc_idempotency_key stored))) (\<lambda>key.
     async_bind (execute_and_record pl dr
       \<lparr>prep_call_id = stc_id stored, prep_receipt = receipt, prep_key = key, prep_arguments = arguments,
        prep_issued_at = dr_now dr, prep_read_context = Some (ta_workspace_id actor, ta_read_destination actor)\<rparr>
       (stc_tool stored) d correlation_id) (\<lambda>out.
         case out of
           Inl (Pipe_AdapterCall e) \<Rightarrow> settle_after_adapter_error dr cid e
         | _ \<Rightarrow> Done out))))"

definition resume_authorized ::
  "ToolPipeline \<Rightarrow> draws \<Rightarrow> rstr \<Rightarrow> json \<Rightarrow> ToolActor \<Rightarrow> ident \<Rightarrow> StoredToolCall \<Rightarrow> ApprovalRequest
    \<Rightarrow> ToolPipelineOutcome pipeline_call" where
  "resume_authorized pl dr cid arguments actor correlation_id stored approval =
     refuse_if (\<not> authorizes_at approval (dr_now dr)) cid
       (lit ''the approval does not authorize at this instant'') (
     refuse_if (apr_tool approval \<noteq> stc_tool stored \<or> apr_tool_version approval \<noteq> stc_tool_version stored) cid
       (lit ''the approval is for a different tool or version'') (
     lift_result (map_err (\<lambda>_. UnintelligibleIntent (stc_tool stored))
         (intent_compute (pl_to_string pl) (pl_sha256 pl) (stc_tool stored) (stc_tool_version stored) arguments))
       (\<lambda>intent.
     refuse_if (intent \<noteq> apr_intent approval \<or> encode_hex intent \<noteq> stc_intent_hash stored) cid
       (lit ''the arguments do not match the intent the approval decided'') (
     refuse_if (StoredToolCall_outcome stored \<noteq> Requested) cid
       (lit ''the call has already been authorized or run'') (
     case apr_decision approval of
       None \<Rightarrow> Done (Err (ResumeRefused cid (lit ''the approval carries no decision'')))
     | Some decision \<Rightarrow>
         lift_result (definition_for pl (stc_tool stored)) (\<lambda>d.
         and_await (refuses_child_delegation d (stc_run_id stored)) (\<lambda>child.
           refuse_if child cid
             (lit ''a native child cannot delegate, including through an earlier approval'')
             (resume_prepared pl dr cid arguments actor correlation_id stored approval intent
               (citation_of approval decision) d))))))))"

definition resume_admitted ::
  "ToolPipeline \<Rightarrow> draws \<Rightarrow> rstr \<Rightarrow> json \<Rightarrow> ToolActor \<Rightarrow> ident \<Rightarrow> ToolPipelineOutcome pipeline_call" where
  "resume_admitted pl dr cid arguments actor correlation_id =
     and_await (read_call cid) (\<lambda>stored.
     refuse_if (stc_run_id stored \<noteq> ta_run_id actor) cid (lit ''the call belongs to a different run'') (
     case stc_approval_id stored of
       None \<Rightarrow> Done (Err (ResumeRefused cid (lit ''the call is not linked to an approval'')))
     | Some aid \<Rightarrow>
         and_await (on_approvals (\<lambda>rows. (rows, find_approval rows aid))) (\<lambda>approval.
           resume_authorized pl dr cid arguments actor correlation_id stored approval)))"

definition resume ::
  "ToolPipeline \<Rightarrow> draws \<Rightarrow> rstr \<Rightarrow> json \<Rightarrow> ToolActor \<Rightarrow> ident \<Rightarrow> ToolPipelineOutcome pipeline_call" where
  "resume pl dr cid arguments actor correlation_id =
     while_admitted (resume_admitted pl dr cid arguments actor correlation_id)"

section \<open>A call from another application\<close>

text \<open>\<open>call_remote_tool_with\<close>: the same gates, with no row of its own and the owner's answer as an argument.\<close>

record OwnerApproval =
  owner_approval_id :: rstr
  owner_approver_id :: rstr
  owner_approved_at :: instant
  owner_expires_at :: instant

definition owner_citation :: "OwnerApproval \<Rightarrow> ApprovalCitation" where
  "owner_citation answer =
     \<lparr>cite_approval_id = owner_approval_id answer, cite_approver_id = owner_approver_id answer,
      cite_approved_at = owner_approved_at answer, cite_expires_at = owner_expires_at answer\<rparr>"

definition serve_adapter :: "ToolPipeline \<Rightarrow> nat \<Rightarrow> ToolExecutionRequest \<Rightarrow> ToolCallResult pipeline_call" where
  "serve_adapter pl adapter request = perform (\<lambda>w.
     (w\<lparr>pw_served := pw_served w @ [request]\<rparr>, map_err Pipe_AdapterCall (pl_adapter pl adapter request)))"

definition remote_decided ::
  "ToolPipeline \<Rightarrow> draws \<Rightarrow> rstr \<Rightarrow> ToolDefinition \<Rightarrow> json \<Rightarrow> ToolActor \<Rightarrow> ident \<Rightarrow> OwnerApproval option
    \<Rightarrow> PolicyDecision \<Rightarrow> ToolPipelineOutcome pipeline_call" where
  "remote_decided pl dr tool d arguments actor correlation_id owner decision =
     (if is_denied decision then Done (Ok (Pipe_Refused (reason_code decision)))
      else if (pd_decision decision = Decide_RequireApproval \<or> td_approval d \<noteq> Auto) \<and> owner = None
      then Done (Ok (AwaitingApproval [] [] (reason_code decision)))
      else
     lift_result (map_err Pipe_InvalidToolId (ToolId_from_str tool)) (\<lambda>tid.
     lift_result (map_err (\<lambda>_. UnintelligibleIntent tool)
         (intent_compute (pl_to_string pl) (pl_sha256 pl) tool (td_version d) arguments)) (\<lambda>intent.
     lift_result (map_err Pipe_Receipt (AuthorizationReceipt_new (pl_to_string pl) (pl_sha256 pl)
       \<lparr>arp_receipt_id = correlation_id, arp_tool = tid, arp_tool_version = td_version d,
        arp_arguments = arguments, arp_intent_hash = intent, arp_policy_version = ta_policy_version actor,
        arp_decision = (if pd_decision decision = Decide_RequireApproval
                        then held_by_approval (Risk_level (pd_effective_risk decision)) else decision),
        arp_approval = map_option owner_citation owner, arp_correlation_id = correlation_id,
        arp_issued_at = dr_now dr\<rparr>)) (\<lambda>receipt.
     lift_result (map_err Pipe_Key (IdempotencyKey_generate (dr_key dr))) (\<lambda>key.
     lift_result (map_err Pipe_Request (ToolExecutionRequest_new (pl_to_string pl) (pl_sha256 pl)
       \<lparr>exp_call_id = correlation_id, exp_tool = tid, exp_tool_version = td_version d,
        exp_arguments = arguments, exp_receipt = receipt, exp_idempotency_key = key,
        exp_deadline = deadline_after (pl_representable pl) (dr_now dr) (td_timeout_seconds d),
        exp_correlation_id = correlation_id\<rparr>)) (\<lambda>plain.
     let request = read_context_of pl (Some (ta_workspace_id actor, ta_read_destination actor)) plain in
       case adapter_for (pl_dispatch pl) (exp_tool request) of
         None \<Rightarrow> Done (Err (Pipe_Dispatch (Uncovered tool)))
       | Some adapter \<Rightarrow>
           and_await (serve_adapter pl adapter request) (\<lambda>result. Done (Ok (Executed result)))))))))"

definition call_remote_tool_with ::
  "ToolPipeline \<Rightarrow> draws \<Rightarrow> rstr \<Rightarrow> json \<Rightarrow> ToolActor \<Rightarrow> ident \<Rightarrow> OwnerApproval option
    \<Rightarrow> ToolPipelineOutcome pipeline_call" where
  "call_remote_tool_with pl dr tool arguments actor correlation_id owner =
     while_admitted (
       lift_result (definition_for pl tool) (\<lambda>d.
       lift_result (validate pl d tool arguments) (\<lambda>_.
       and_await workspace_policy (\<lambda>policy.
         remote_decided pl dr tool d arguments actor correlation_id owner
           (evaluate (policy_request d actor policy {}))))))"

definition call_remote_tool ::
  "ToolPipeline \<Rightarrow> draws \<Rightarrow> rstr \<Rightarrow> json \<Rightarrow> ToolActor \<Rightarrow> ident \<Rightarrow> ToolPipelineOutcome pipeline_call" where
  "call_remote_tool pl dr tool arguments actor correlation_id =
     call_remote_tool_with pl dr tool arguments actor correlation_id None"

section \<open>What the owner sees\<close>

record PolicyInventoryEntry =
  pie_id :: rstr
  pie_title :: rstr
  pie_version :: rstr
  pie_source :: ToolSource
  pie_risk :: Risk
  pie_effects :: "rstr list"
  pie_required_scopes :: ScopeSet
  pie_declared_approval :: ApprovalPolicy
  pie_effective_approval :: ApprovalPolicy
  pie_overridden :: bool
  pie_denied :: bool
  pie_callable :: bool
  pie_unavailable_reason :: "rstr option"
  pie_asks_first :: bool
  pie_offer_chars :: nat

definition policy_inventory_entry ::
  "ToolPipeline \<Rightarrow> WorkspacePolicy \<Rightarrow> ToolInventoryEntry \<Rightarrow> ToolPipelineError + PolicyInventoryEntry" where
  "policy_inventory_entry pl policy entry =
     and_then (map_err Pipe_InvalidToolId (ToolId_from_str (inv_id entry))) (\<lambda>tid.
     and_then (map_err Pipe_Registry (get_tool (pl_registry pl) tid)) (\<lambda>d.
       let effective = effective_approval policy tid (td_approval d) in
       Ok \<lparr>pie_id = inv_id entry, pie_title = td_title d, pie_version = inv_version entry,
           pie_source = inv_source entry, pie_risk = inv_risk entry,
           pie_effects = map ToolEffect_as_str (inv_effects entry),
           pie_required_scopes = td_required_scopes d, pie_declared_approval = td_approval d,
           pie_effective_approval = effective, pie_overridden = (effective \<noteq> td_approval d),
           pie_denied = denies policy tid, pie_callable = inv_callable entry,
           pie_unavailable_reason = inv_unavailable_reason entry, pie_asks_first = asks_first policy d,
           pie_offer_chars = str_len (ToolId_display (td_id d)) + str_len (td_description d)
             + str_len (json_text pl (td_input_schema d))\<rparr>))"

definition policy_inventory :: "ToolPipeline \<Rightarrow> PolicyInventoryEntry list pipeline_call" where
  "policy_inventory pl = and_await workspace_policy (\<lambda>policy.
     Done (collect_results (policy_inventory_entry pl policy) (inventory (pl_registry pl))))"

definition definitions_of :: "ToolPipeline \<Rightarrow> ToolPipelineError + ToolDefinition list" where
  "definitions_of pl =
     and_then (registered_ids (pl_registry pl)) (\<lambda>ids.
       collect_results (\<lambda>i. map_err Pipe_Registry (get_tool (pl_registry pl) i)) ids)"

end
