(* ===== verification/Model_Gateway.thy ===== *)
theory Model_Gateway
  imports Core_Values
begin

text \<open>
  The provider-neutral model vocabulary of \<open>crates/jarvis-models\<close> (\<open>request.rs\<close>, \<open>response.rs\<close>,
  \<open>stream.rs\<close>, \<open>usage.rs\<close>, \<open>error.rs\<close>): chat messages and requests, the validator that decides whether a
  stream of events is a complete answer, and what a live adapter checks and retries before it sends
  (\<open>openai/adapter.rs\<close>, \<open>openai/retry.rs\<close>). \<open>apps/jarvisd/src/model_fallback.rs\<close> and \<open>model_routing.rs\<close> follow:
  which provider is asked, and for which model. A provider is a function from a request to an opening
  error or the items its stream yields; \<open>delivered\<close> records which provider was sent which request.
\<close>

section \<open>Messages and requests\<close>

definition MAX_MESSAGES :: nat where "MAX_MESSAGES = 512"

definition MAX_MESSAGE_BYTES :: nat where "MAX_MESSAGE_BYTES = 1048576"

datatype Role = Chat_System | Chat_User | Chat_Assistant | Chat_Tool

fun Role_as_str :: "Role \<Rightarrow> rstr" where
  "Role_as_str Chat_System = lit ''system''"
| "Role_as_str Chat_User = lit ''user''"
| "Role_as_str Chat_Assistant = lit ''assistant''"
| "Role_as_str Chat_Tool = lit ''tool''"

datatype ContentPart = Part_Text rstr

fun as_text :: "ContentPart \<Rightarrow> rstr" where "as_text (Part_Text t) = t"

datatype MessageContent = Content_Text rstr | Content_Parts "ContentPart list"

fun content_text :: "MessageContent \<Rightarrow> rstr" where
  "content_text (Content_Text t) = t"
| "content_text (Content_Parts ps) = concat (map as_text ps)"

fun content_byte_len :: "MessageContent \<Rightarrow> nat" where
  "content_byte_len (Content_Text t) = str_len t"
| "content_byte_len (Content_Parts ps) = sum_list (map (\<lambda>p. str_len (as_text p)) ps)"

record ToolCall =
  tc_id :: rstr
  tc_name :: rstr
  tc_arguments :: rstr

record ChatMessage =
  cm_role :: Role
  cm_content :: MessageContent
  cm_tool_call_id :: "rstr option"
  cm_tool_calls :: "ToolCall list"

definition ChatMessage_new :: "Role \<Rightarrow> MessageContent \<Rightarrow> ChatMessage" where
  "ChatMessage_new role content =
     \<lparr>cm_role = role, cm_content = content, cm_tool_call_id = None, cm_tool_calls = []\<rparr>"

definition chat_system :: "rstr \<Rightarrow> ChatMessage" where
  "chat_system v = ChatMessage_new Chat_System (Content_Text v)"

definition chat_user :: "rstr \<Rightarrow> ChatMessage" where
  "chat_user v = ChatMessage_new Chat_User (Content_Text v)"

definition chat_assistant :: "rstr \<Rightarrow> ChatMessage" where
  "chat_assistant v = ChatMessage_new Chat_Assistant (Content_Text v)"

definition chat_tool :: "rstr \<Rightarrow> rstr \<Rightarrow> ChatMessage" where
  "chat_tool call v =
     \<lparr>cm_role = Chat_Tool, cm_content = Content_Text v, cm_tool_call_id = Some call, cm_tool_calls = []\<rparr>"

definition assistant_tool_calls :: "rstr \<Rightarrow> ToolCall list \<Rightarrow> ChatMessage" where
  "assistant_tool_calls content calls =
     \<lparr>cm_role = Chat_Assistant, cm_content = Content_Text content, cm_tool_call_id = None,
      cm_tool_calls = calls\<rparr>"

definition cm_text :: "ChatMessage \<Rightarrow> rstr" where "cm_text m = content_text (cm_content m)"

definition is_consistent :: "ChatMessage \<Rightarrow> bool" where
  "is_consistent m \<longleftrightarrow>
     (if cm_role m = Chat_Tool then cm_tool_call_id m \<noteq> None else cm_tool_call_id m = None)
     \<and> (cm_role m = Chat_Assistant \<or> cm_tool_calls m = [])"

lemmas chat_defs = ChatMessage_new_def chat_system_def chat_user_def chat_assistant_def chat_tool_def
  assistant_tool_calls_def cm_text_def

lemma chat_simps [simp]:
  "cm_role (chat_system v) = Chat_System" "cm_role (chat_user v) = Chat_User"
  "cm_role (chat_assistant v) = Chat_Assistant" "cm_role (chat_tool c v) = Chat_Tool"
  "cm_role (assistant_tool_calls v cs) = Chat_Assistant"
  "cm_tool_calls (chat_system v) = []" "cm_tool_calls (chat_user v) = []"
  "cm_tool_calls (chat_assistant v) = []" "cm_tool_calls (chat_tool c v) = []"
  "cm_tool_calls (assistant_tool_calls v cs) = cs"
  "cm_tool_call_id (chat_system v) = None" "cm_tool_call_id (chat_user v) = None"
  "cm_tool_call_id (chat_assistant v) = None" "cm_tool_call_id (chat_tool c v) = Some c"
  "cm_tool_call_id (assistant_tool_calls v cs) = None"
  "cm_text (chat_system v) = v" "cm_text (chat_user v) = v" "cm_text (chat_assistant v) = v"
  "cm_text (chat_tool c v) = v" "cm_text (assistant_tool_calls v cs) = v"
  by (simp_all add: chat_defs)

lemma consistent_constructors [simp]:
  "is_consistent (chat_system v)" "is_consistent (chat_user v)" "is_consistent (chat_assistant v)"
  "is_consistent (chat_tool c v)" "is_consistent (assistant_tool_calls v cs)"
  by (simp_all add: is_consistent_def)

record ToolSpec =
  spec_name :: rstr
  spec_description :: rstr
  spec_parameters :: json

datatype ReasoningEffort = Effort_None | Effort_Low | Effort_Medium | Effort_High

fun ReasoningEffort_as_str :: "ReasoningEffort \<Rightarrow> rstr" where
  "ReasoningEffort_as_str Effort_None = lit ''none''"
| "ReasoningEffort_as_str Effort_Low = lit ''low''"
| "ReasoningEffort_as_str Effort_Medium = lit ''medium''"
| "ReasoningEffort_as_str Effort_High = lit ''high''"

record ChatRequest =
  req_model :: rstr
  req_messages :: "ChatMessage list"
  req_correlation_id :: rstr
  req_max_output_tokens :: "nat option"
  req_temperature_milli :: "nat option"
  req_stop :: "rstr list"
  req_tools :: "ToolSpec list"
  req_include_usage :: bool
  req_reasoning_effort :: "ReasoningEffort option"

definition ChatRequest_new :: "rstr \<Rightarrow> ChatMessage list \<Rightarrow> rstr \<Rightarrow> ChatRequest" where
  "ChatRequest_new model messages correlation =
     \<lparr>req_model = model, req_messages = messages, req_correlation_id = correlation,
      req_max_output_tokens = None, req_temperature_milli = None, req_stop = [], req_tools = [],
      req_include_usage = True, req_reasoning_effort = None\<rparr>"

definition with_model :: "ChatRequest \<Rightarrow> rstr \<Rightarrow> ChatRequest" where
  "with_model r model = r\<lparr>req_model := model\<rparr>"

definition request_byte_len :: "ChatRequest \<Rightarrow> nat" where
  "request_byte_len r = sum_list (map (\<lambda>m. content_byte_len (cm_content m)) (req_messages r))"

definition is_within_bounds :: "ChatRequest \<Rightarrow> bool" where
  "is_within_bounds r \<longleftrightarrow> req_messages r \<noteq> [] \<and> length (req_messages r) \<le> MAX_MESSAGES
     \<and> (\<forall>m \<in> set (req_messages r). content_byte_len (cm_content m) \<le> MAX_MESSAGE_BYTES)"

section \<open>Answers\<close>

datatype FinishReason =
  Finish_Stop | Finish_ToolCalls | Finish_Length | Finish_ContentFilter | Finish_Other | Finish_Incomplete

definition from_provider_label :: "rstr \<Rightarrow> FinishReason" where
  "from_provider_label label =
     (if label \<in> {lit ''stop'', lit ''end_turn'', lit ''eos''} then Finish_Stop
      else if label \<in> {lit ''tool_calls'', lit ''tool_use'', lit ''function_call''} then Finish_ToolCalls
      else if label \<in> {lit ''length'', lit ''max_tokens'', lit ''max_output_tokens''} then Finish_Length
      else if label \<in> {lit ''content_filter'', lit ''safety'', lit ''refusal''} then Finish_ContentFilter
      else Finish_Other)"

definition finish_is_complete :: "FinishReason \<Rightarrow> bool" where
  "finish_is_complete r \<longleftrightarrow> r = Finish_Stop \<or> r = Finish_ToolCalls \<or> r = Finish_Length"

definition finish_is_refusal :: "FinishReason \<Rightarrow> bool" where
  "finish_is_refusal r \<longleftrightarrow> r = Finish_ContentFilter"

text \<open>Counters are \<open>u64\<close>.\<close>

record TokenUsage =
  use_input_tokens :: "64 word"
  use_output_tokens :: "64 word"
  use_cached_input_tokens :: "64 word"

definition TokenUsage_new :: "64 word \<Rightarrow> 64 word \<Rightarrow> TokenUsage" where
  "TokenUsage_new i u = \<lparr>use_input_tokens = i, use_output_tokens = u, use_cached_input_tokens = 0\<rparr>"

definition checked_add :: "64 word \<Rightarrow> 64 word \<Rightarrow> 64 word option" where
  "checked_add a b = (if unat a + unat b < 2 ^ 64 then Some (a + b) else None)"

definition total_tokens :: "TokenUsage \<Rightarrow> 64 word option" where
  "total_tokens u = Option.bind (checked_add (use_input_tokens u) (use_output_tokens u))
     (\<lambda>n. checked_add n (use_cached_input_tokens u))"

lemma total_tokens_exact:
  "total_tokens u = Some n \<Longrightarrow>
     unat n = unat (use_input_tokens u) + unat (use_output_tokens u) + unat (use_cached_input_tokens u)"
  by (auto simp: total_tokens_def checked_add_def unat_word_ariths bind_eq_Some_conv split: if_splits)

section \<open>Streams\<close>

datatype StreamEventError = OutOfOrder | Gap | NotFinished | AlreadyFinished

datatype ProgressKind = Reasoning | ProgressToolCall

datatype StreamEvent =
    Ev_Started
  | Ev_TextDelta rstr
  | Ev_ToolCall ToolCall
  | Ev_Progress ProgressKind "64 word"
  | Ev_Usage TokenUsage
  | Ev_Finished FinishReason

fun event_is_terminal :: "StreamEvent \<Rightarrow> bool" where
  "event_is_terminal (Ev_Finished _) = True"
| "event_is_terminal _ = False"

record StreamSummary =
  sum_text :: rstr
  sum_tool_calls :: "ToolCall list"
  sum_usage :: "TokenUsage option"
  sum_finish_reason :: "FinishReason option"
  sum_started :: bool

definition StreamSummary_default :: StreamSummary where
  "StreamSummary_default =
     \<lparr>sum_text = [], sum_tool_calls = [], sum_usage = None, sum_finish_reason = None, sum_started = False\<rparr>"

fun event_apply :: "StreamEvent \<Rightarrow> StreamSummary \<Rightarrow> StreamSummary" where
  "event_apply Ev_Started s = s\<lparr>sum_started := True\<rparr>"
| "event_apply (Ev_TextDelta t) s = s\<lparr>sum_text := sum_text s @ t\<rparr>"
| "event_apply (Ev_Progress _ _) s = s"
| "event_apply (Ev_ToolCall c) s = s\<lparr>sum_tool_calls := sum_tool_calls s @ [c]\<rparr>"
| "event_apply (Ev_Usage u) s = s\<lparr>sum_usage := Some u\<rparr>"
| "event_apply (Ev_Finished r) s = s\<lparr>sum_finish_reason := Some r\<rparr>"

datatype OutputContent = Output_Text rstr | Output_ToolCall ToolCall

definition summary_output :: "StreamSummary \<Rightarrow> OutputContent list" where
  "summary_output s = (if sum_text s = [] then [] else [Output_Text (sum_text s)])
     @ map Output_ToolCall (sum_tool_calls s)"

record StreamEnvelope =
  env_sequence :: "64 word"
  env_event :: StreamEvent

record StreamValidator =
  val_next_sequence :: "64 word"
  val_finished :: bool
  val_summary :: StreamSummary

definition StreamValidator_new :: StreamValidator where
  "StreamValidator_new =
     \<lparr>val_next_sequence = 0, val_finished = False, val_summary = StreamSummary_default\<rparr>"

definition stream_accept :: "StreamValidator \<Rightarrow> StreamEnvelope \<Rightarrow> StreamEventError + StreamValidator" where
  "stream_accept v e =
     (if val_finished v then Err AlreadyFinished
      else if env_sequence e < val_next_sequence v then Err OutOfOrder
      else if env_sequence e > val_next_sequence v then Err Gap
      else Ok \<lparr>val_next_sequence = val_next_sequence v + 1,
               val_finished = event_is_terminal (env_event e),
               val_summary = event_apply (env_event e) (val_summary v)\<rparr>)"

definition stream_finish :: "StreamValidator \<Rightarrow> StreamEventError + StreamSummary" where
  "stream_finish v = (if val_finished v then Ok (val_summary v) else Err NotFinished)"

section \<open>Errors\<close>

datatype ModelErrorKind =
    Model_InvalidRequest | Model_Authentication | Model_Authorization | Model_ContentRefusal
  | Model_RateLimited | Model_Overloaded | Model_Transient | Model_QuotaExhausted
  | Model_ContextOverflow | Model_ModelNotFound | Model_Timeout | Model_Cancelled
  | Model_Incomplete | Model_MalformedResponse | Model_Internal

fun domain_code :: "ModelErrorKind \<Rightarrow> ErrorCode" where
  "domain_code Model_InvalidRequest = Validation"
| "domain_code Model_ContextOverflow = Validation"
| "domain_code Model_Authentication = Authentication"
| "domain_code Model_Authorization = Authorization"
| "domain_code Model_ContentRefusal = UnsupportedOperation"
| "domain_code Model_RateLimited = RateLimited"
| "domain_code Model_Overloaded = RateLimited"
| "domain_code Model_Transient = TransientUpstream"
| "domain_code Model_QuotaExhausted = PermanentUpstream"
| "domain_code Model_ModelNotFound = UnavailableCapability"
| "domain_code Model_Timeout = TimeoutCode"
| "domain_code Model_Cancelled = CancelledCode"
| "domain_code Model_Incomplete = AmbiguousEffect"
| "domain_code Model_MalformedResponse = InternalError"
| "domain_code Model_Internal = InternalError"

definition model_error_is_retryable :: "ModelErrorKind \<Rightarrow> bool" where
  "model_error_is_retryable k = ErrorCode_is_retryable (domain_code k)"

record ModelError =
  me_kind :: ModelErrorKind
  me_message :: rstr
  me_retry_after :: "nat option"
  me_status :: "nat option"

definition ModelError_new :: "ModelErrorKind \<Rightarrow> rstr \<Rightarrow> ModelError" where
  "ModelError_new kind message =
     \<lparr>me_kind = kind, me_message = message, me_retry_after = None, me_status = None\<rparr>"

fun safe_message_for :: "ModelErrorKind \<Rightarrow> rstr" where
  "safe_message_for Model_InvalidRequest = lit ''the provider rejected the request as invalid''"
| "safe_message_for Model_Authentication = lit ''provider authentication failed''"
| "safe_message_for Model_Authorization = lit ''the credential lacks access to this model''"
| "safe_message_for Model_ContentRefusal = lit ''the provider refused the output''"
| "safe_message_for Model_RateLimited = lit ''the provider rate limit was reached''"
| "safe_message_for Model_Overloaded = lit ''the model is temporarily overloaded''"
| "safe_message_for Model_Transient = lit ''the provider reported a temporary failure''"
| "safe_message_for Model_QuotaExhausted = lit ''the provider account has no remaining quota''"
| "safe_message_for Model_ContextOverflow = lit ''the request exceeded the model context window''"
| "safe_message_for Model_ModelNotFound = lit ''the configured model is not served by this provider''"
| "safe_message_for Model_Timeout = lit ''the provider did not respond within the deadline''"
| "safe_message_for Model_Cancelled = lit ''the model call was cancelled''"
| "safe_message_for Model_Incomplete = lit ''the response stream ended before completion''"
| "safe_message_for Model_MalformedResponse = lit ''the provider response could not be interpreted''"
| "safe_message_for Model_Internal = lit ''the model adapter failed unexpectedly''"

text \<open>\<open>openai/wire.rs\<close>: the code and type of a provider's error body, when it has them, precede the status.\<close>

definition contains_marker :: "rstr list \<Rightarrow> rstr \<Rightarrow> bool" where
  "contains_marker markers haystack =
     list_ex (\<lambda>m. contains_sub (map to_ascii_lowercase m) haystack) markers"

definition classify_status :: "nat \<Rightarrow> ModelErrorKind" where
  "classify_status status =
     (if status = 400 \<or> status = 422 then Model_InvalidRequest
      else if status = 401 then Model_Authentication
      else if status = 403 then Model_Authorization
      else if status = 404 then Model_ModelNotFound
      else if status = 408 then Model_Timeout
      else if status = 429 then Model_RateLimited
      else if status = 503 then Model_Overloaded
      else if status = 500 \<or> status = 502 \<or> status = 504 then Model_Transient
      else if 500 \<le> status \<and> status < 600 then Model_Transient
      else if 400 \<le> status \<and> status < 500 then Model_InvalidRequest
      else Model_MalformedResponse)"

record WireError =
  we_code :: "json option"
  we_kind :: "rstr option"

definition code_text :: "WireError \<Rightarrow> rstr option" where
  "code_text e = (case we_code e of Some (JString t) \<Rightarrow> Some t | Some (JNumber n) \<Rightarrow> Some n | _ \<Rightarrow> None)"

definition QUOTA_CODE_MARKERS :: "rstr list" where
  "QUOTA_CODE_MARKERS = map lit [''insufficient_quota'', ''credit_balance_exhausted'',
     ''organization_spend_limit_exceeded'', ''project_spend_limit_exceeded'',
     ''organization_usage_limit_exceeded'', ''billing_hard_limit_reached'', ''insufficient_credits'']"

definition CONTEXT_CODE_MARKERS :: "rstr list" where
  "CONTEXT_CODE_MARKERS = map lit
     [''context_length_exceeded'', ''context_overflow'', ''string_above_max_length'']"

definition error_haystack :: "WireError option \<Rightarrow> rstr" where
  "error_haystack e = map to_ascii_lowercase
     ((case Option.bind e code_text of None \<Rightarrow> [] | Some t \<Rightarrow> t) @ [32]
      @ (case Option.bind e we_kind of None \<Rightarrow> [] | Some t \<Rightarrow> t))"

definition classify_error :: "nat \<Rightarrow> WireError option \<Rightarrow> ModelErrorKind" where
  "classify_error status e =
     (if contains_marker QUOTA_CODE_MARKERS (error_haystack e) then Model_QuotaExhausted
      else if contains_marker CONTEXT_CODE_MARKERS (error_haystack e) then Model_ContextOverflow
      else classify_status status)"

section \<open>One provider\<close>

datatype TransportError =
  Transport_Connect | Transport_Io | Transport_Tls | RequestTimeout | StalledRead
  | Transport_Cancelled | Transport_Body

fun map_transport_error :: "TransportError \<Rightarrow> ModelError" where
  "map_transport_error Transport_Connect = ModelError_new Model_Transient (safe_message_for Model_Transient)"
| "map_transport_error Transport_Io = ModelError_new Model_Transient (safe_message_for Model_Transient)"
| "map_transport_error Transport_Tls = ModelError_new Model_Transient (safe_message_for Model_Transient)"
| "map_transport_error RequestTimeout = ModelError_new Model_Timeout (safe_message_for Model_Timeout)"
| "map_transport_error StalledRead = ModelError_new Model_Timeout (safe_message_for Model_Timeout)"
| "map_transport_error Transport_Cancelled = ModelError_new Model_Cancelled (safe_message_for Model_Cancelled)"
| "map_transport_error Transport_Body =
     ModelError_new Model_MalformedResponse (safe_message_for Model_MalformedResponse)"

text \<open>
  What a server answers: a status, the \<open>Retry-After\<close> header and the body. \<open>HttpTransport::send\<close> hands a
  streaming call the open body with the status alone, whatever the status is; \<open>sse_items\<close> decodes an open
  body (\<open>openai/sse.rs\<close>) and \<open>parse_error\<close> reads the error envelope of a buffered one.
\<close>

record server_answer =
  ans_status :: nat
  ans_retry_after :: "nat option"
  ans_body :: rstr

datatype TransportResponse = Buffered nat "nat option" rstr | Streaming nat rstr

definition transport_response :: "bool \<Rightarrow> server_answer \<Rightarrow> TransportResponse" where
  "transport_response streaming a =
     (if streaming then Streaming (ans_status a) (ans_body a)
      else Buffered (ans_status a) (ans_retry_after a) (ans_body a))"

fun response_status :: "TransportResponse \<Rightarrow> nat" where
  "response_status (Buffered status _ _) = status"
| "response_status (Streaming status _) = status"

fun classify_response :: "(rstr \<Rightarrow> WireError option) \<Rightarrow> TransportResponse \<Rightarrow> ModelError" where
  "classify_response parse_error (Buffered status retry_after body) =
     (let kind = classify_error status (parse_error body) in
      \<lparr>me_kind = kind, me_message = safe_message_for kind, me_retry_after = retry_after,
       me_status = Some status\<rparr>)"
| "classify_response parse_error (Streaming status _) =
     (let kind = classify_error status (parse_error []) in
      \<lparr>me_kind = kind, me_message = safe_message_for kind, me_retry_after = None, me_status = Some status\<rparr>)"

text \<open>Durations are nanoseconds, saturating at the largest \<open>Duration\<close>; the jitter drawn is a parameter.\<close>

record TransportRetryPolicy =
  rp_max_attempts :: "32 word"
  rp_base_delay :: nat
  rp_max_delay :: nat

definition TransportRetryPolicy_default :: TransportRetryPolicy where
  "TransportRetryPolicy_default = \<lparr>rp_max_attempts = 3, rp_base_delay = 500000000, rp_max_delay = 30000000000\<rparr>"

definition DURATION_MAX :: nat where "DURATION_MAX = (2 ^ 64 - 1) * 1000000000 + 999999999"

text \<open>The count of attempts never passes the maximum, so it is kept as a number.\<close>

definition allows_attempt :: "TransportRetryPolicy \<Rightarrow> nat \<Rightarrow> bool" where
  "allows_attempt policy attempts_so_far \<longleftrightarrow> attempts_so_far < unat (rp_max_attempts policy)"

definition delay_before_attempt :: "TransportRetryPolicy \<Rightarrow> nat \<Rightarrow> nat option \<Rightarrow> (nat \<Rightarrow> nat) \<Rightarrow> nat" where
  "delay_before_attempt policy attempts_so_far retry_after jitter =
     (case retry_after of
        Some seconds \<Rightarrow> seconds * 1000000000
      | None \<Rightarrow>
          let exponent = min (attempts_so_far - 1) 16;
              capped = min (min (rp_base_delay policy * 2 ^ exponent) DURATION_MAX) (rp_max_delay policy)
          in min (capped + (if capped div 4 = 0 then 0 else jitter (capped div 4))) DURATION_MAX)"

record Provider =
  prov_local :: bool
  prov_policy :: TransportRetryPolicy
  prov_transport :: "nat \<Rightarrow> ChatRequest \<Rightarrow> TransportError + server_answer"
  prov_jitter :: "nat \<Rightarrow> nat"
  prov_parse_error :: "rstr \<Rightarrow> WireError option"
  prov_sse :: "rstr \<Rightarrow> (ModelError + StreamEnvelope) list"

text \<open>The checks of \<open>serialize\<close>; the wire form itself is not modelled.\<close>

definition serialize_check :: "ChatRequest \<Rightarrow> ModelError + unit" where
  "serialize_check r =
     (if \<not> (\<forall>m \<in> set (req_messages r). is_consistent m)
      then Err (ModelError_new Model_InvalidRequest (lit ''the request contains an inconsistent tool message''))
      else if \<not> is_within_bounds r
      then Err (ModelError_new Model_InvalidRequest (lit ''the request exceeds the local size bounds''))
      else Ok ())"

text \<open>One attempt; \<open>n\<close> counts the attempts the transport has seen, and whether it was reached is recorded.\<close>

definition provider_attempt :: "Provider \<Rightarrow> nat \<Rightarrow> ChatRequest \<Rightarrow> bool \<Rightarrow> bool \<times> (ModelError + TransportResponse)" where
  "provider_attempt p n request streaming =
     (case serialize_check request of
        Inl e \<Rightarrow> (False, Err e)
      | Inr _ \<Rightarrow> (True, map_ok (transport_response streaming)
                      (map_err map_transport_error (prov_transport p n request))))"

definition accepted :: "TransportResponse \<Rightarrow> bool" where
  "accepted r \<longleftrightarrow> 200 \<le> response_status r \<and> response_status r < 300"

definition attempt_error :: "Provider \<Rightarrow> ModelError + TransportResponse \<Rightarrow> ModelError + TransportResponse" where
  "attempt_error p r = (case r of
       Inl e \<Rightarrow> Err e
     | Inr response \<Rightarrow> if accepted response then Ok response
                       else Err (classify_response (prov_parse_error p) response))"

text \<open>
  \<open>send_with_retry\<close>: \<open>attempts\<close> is the number already made; the result says how many reached the server
  and how long the call waited between them.
\<close>

function send_loop :: "Provider \<Rightarrow> ChatRequest \<Rightarrow> bool \<Rightarrow> nat \<Rightarrow> nat \<times> nat list \<times> (ModelError + TransportResponse)" where
  "send_loop p request streaming attempts =
     (let (reached, answer) = provider_attempt p attempts request streaming;
          sent = (if reached then 1 else 0);
          attempts' = Suc attempts
      in case attempt_error p answer of
           Inr response \<Rightarrow> (sent, [], Ok response)
         | Inl e \<Rightarrow>
             if \<not> model_error_is_retryable (me_kind e) \<or> \<not> allows_attempt (prov_policy p) attempts'
             then (sent, [], Err e)
             else let delay = delay_before_attempt (prov_policy p) attempts' (me_retry_after e) (prov_jitter p);
                      (more, waits, result) = send_loop p request streaming attempts'
                  in (sent + more, delay # waits, result))"
  by pat_completeness auto
termination
  by (relation "measure (\<lambda>(p, r, s, attempts). unat (rp_max_attempts (prov_policy p)) - attempts)")
    (auto simp: allows_attempt_def)

declare send_loop.simps [simp del]

definition send_with_retry :: "Provider \<Rightarrow> ChatRequest \<Rightarrow> bool \<Rightarrow> nat \<times> nat list \<times> (ModelError + TransportResponse)" where
  "send_with_retry p request streaming = send_loop p request streaming 0"

definition provider_stream ::
  "Provider \<Rightarrow> ChatRequest \<Rightarrow> nat \<times> (ModelError + (ModelError + StreamEnvelope) list)" where
  "provider_stream p request =
     (case send_with_retry p request True of
        (n, _, Inl e) \<Rightarrow> (n, Err e)
      | (n, _, Inr (Streaming _ body)) \<Rightarrow> (n, Ok (prov_sse p body))
      | (n, _, Inr (Buffered _ _ _)) \<Rightarrow> (n, Err (ModelError_new Model_MalformedResponse
            (lit ''the provider returned a complete response where a stream was expected''))))"

section \<open>Which provider is asked\<close>

datatype Placement = Place_Local | Place_Remote | Place_Unknown

definition provider_placement :: "Provider \<Rightarrow> Placement" where
  "provider_placement p = (if prov_local p then Place_Local else Place_Remote)"

datatype ModelGateway = Gateway_Direct Provider | Gateway_Fallback Provider rstr "Provider option"

fun gateway_placement :: "ModelGateway \<Rightarrow> Placement" where
  "gateway_placement (Gateway_Direct p) = provider_placement p"
| "gateway_placement (Gateway_Fallback inner fallback elsewhere) = provider_placement inner"

definition worth_falling_back :: "rstr \<Rightarrow> Provider option \<Rightarrow> ModelError \<Rightarrow> ChatRequest \<Rightarrow> bool" where
  "worth_falling_back fallback elsewhere e request =
     (case elsewhere of
        Some _ \<Rightarrow> me_kind e \<in> {Model_RateLimited, Model_Overloaded, Model_Transient, Model_QuotaExhausted}
      | None \<Rightarrow> me_kind e \<in> {Model_RateLimited, Model_Overloaded} \<and> req_model request \<noteq> fallback)"

text \<open>The first component lists who was sent what.\<close>

fun gateway_stream :: "ModelGateway \<Rightarrow> ChatRequest
    \<Rightarrow> (Placement \<times> ChatRequest) list \<times> (ModelError + (ModelError + StreamEnvelope) list)" where
  "gateway_stream (Gateway_Direct p) request =
     (case provider_stream p request of (n, r) \<Rightarrow>
        (replicate n (provider_placement p, request), r))"
| "gateway_stream (Gateway_Fallback inner fallback elsewhere) request =
     (case provider_stream inner request of
        (n, Inl e) \<Rightarrow>
          let tried = replicate n (provider_placement inner, request) in
          if worth_falling_back fallback elsewhere e request then
            let other = (case elsewhere of None \<Rightarrow> inner | Some p \<Rightarrow> p);
                again = with_model request fallback
            in case provider_stream other again of (k, r) \<Rightarrow>
                 (tried @ replicate k (provider_placement other, again), r)
          else (tried, Err e)
      | (n, Inr items) \<Rightarrow> (replicate n (provider_placement inner, request), Ok items))"

section \<open>A stream is an answer only when it is whole\<close>

fun accept_all :: "StreamValidator \<Rightarrow> StreamEnvelope list \<Rightarrow> StreamEventError + StreamValidator" where
  "accept_all v [] = Ok v"
| "accept_all v (e # es) = and_then (stream_accept v e) (\<lambda>v'. accept_all v' es)"

fun deltas :: "StreamEvent list \<Rightarrow> rstr" where
  "deltas [] = []"
| "deltas (Ev_TextDelta t # es) = t @ deltas es"
| "deltas (_ # es) = deltas es"

fun requested_calls :: "StreamEvent list \<Rightarrow> ToolCall list" where
  "requested_calls [] = []"
| "requested_calls (Ev_ToolCall c # es) = c # requested_calls es"
| "requested_calls (_ # es) = requested_calls es"

lemma accept_all_Ok:
  assumes "accept_all v es = Ok v'"
  shows "(\<forall>i < length es. env_sequence (es ! i) = val_next_sequence v + of_nat i)
    \<and> (\<forall>i < length es. i + 1 < length es \<longrightarrow> \<not> event_is_terminal (env_event (es ! i)))
    \<and> (es \<noteq> [] \<longrightarrow> \<not> val_finished v)
    \<and> val_finished v' = (if es = [] then val_finished v else event_is_terminal (env_event (last es)))
    \<and> sum_text (val_summary v') = sum_text (val_summary v) @ deltas (map env_event es)
    \<and> sum_tool_calls (val_summary v') = sum_tool_calls (val_summary v) @ requested_calls (map env_event es)"
  using assms
proof (induction es arbitrary: v)
  case (Cons e es)
  then obtain v1 where v1: "stream_accept v e = Ok v1" "accept_all v1 es = Ok v'" by auto
  have step: "env_sequence e = val_next_sequence v" "\<not> val_finished v"
    "val_next_sequence v1 = val_next_sequence v + 1" "val_finished v1 = event_is_terminal (env_event e)"
    "val_summary v1 = event_apply (env_event e) (val_summary v)"
    using v1(1) by (auto simp: stream_accept_def split: if_splits)
  have "deltas (map env_event (e # es)) = deltas [env_event e] @ deltas (map env_event es)"
    "requested_calls (map env_event (e # es)) = requested_calls [env_event e] @ requested_calls (map env_event es)"
    by (cases "env_event e"; simp)+
  moreover have "sum_text (event_apply v0 s) = sum_text s @ deltas [v0]"
    "sum_tool_calls (event_apply v0 s) = sum_tool_calls s @ requested_calls [v0]" for v0 s
    by (cases v0; simp)+
  ultimately show ?case
    using Cons.IH [OF v1(2)] step by (auto simp: nth_Cons' algebra_simps gr0_conv_Suc)
qed simp

text \<open>The texts and calls reported are exactly those of the events, which arrived in order and without a gap.\<close>

lemma complete_stream:
  assumes "accept_all StreamValidator_new es = Ok v" "stream_finish v = Ok s"
  shows "es \<noteq> []" "event_is_terminal (env_event (last es))"
    "\<And>i. i < length es \<Longrightarrow> env_sequence (es ! i) = of_nat i"
    "\<And>i. i + 1 < length es \<Longrightarrow> \<not> event_is_terminal (env_event (es ! i))"
    "sum_text s = deltas (map env_event es)" "sum_tool_calls s = requested_calls (map env_event es)"
  using accept_all_Ok [OF assms(1)] assms(2)
  by (auto simp: stream_finish_def StreamValidator_new_def StreamSummary_default_def split: if_splits)

section \<open>Retries are bounded\<close>

lemma provider_attempt_checked:
  "serialize_check request = Err e \<Longrightarrow> provider_attempt p n request streaming = (False, Err e)"
  by (simp add: provider_attempt_def)

lemma send_loop_bound:
  "fst (send_loop p request streaming attempts) \<le> max 1 (unat (rp_max_attempts (prov_policy p)) - attempts)"
proof (induction p request streaming attempts rule: send_loop.induct)
  case (1 p request streaming attempts)
  obtain reached answer where a: "provider_attempt p attempts request streaming = (reached, answer)" by force
  show ?case
  proof (cases "\<exists>e. attempt_error p answer = Err e \<and> model_error_is_retryable (me_kind e)
      \<and> allows_attempt (prov_policy p) (Suc attempts)")
    case True
    then obtain e where e: "attempt_error p answer = Err e" "model_error_is_retryable (me_kind e)"
      "allows_attempt (prov_policy p) (Suc attempts)" by blast
    obtain more waits result where r: "send_loop p request streaming (Suc attempts) = (more, waits, result)"
      by (metis prod.exhaust)
    have "more \<le> max 1 (unat (rp_max_attempts (prov_policy p)) - Suc attempts)"
      using "1.IH" [OF a [symmetric] refl refl refl e(1)] e r by simp
    then show ?thesis
      using e r a by (subst send_loop.simps) (auto simp: allows_attempt_def Let_def)
  next
    case False
    then show ?thesis using a
      by (subst send_loop.simps) (auto simp: Let_def split: sum.splits)
  qed
qed

lemma rejected_locally:
  assumes "serialize_check request = Err e"
  shows "send_with_retry p request streaming = (0, [], Err e)"
proof -
  have "me_kind e = Model_InvalidRequest"
    using assms by (auto simp: serialize_check_def ModelError_new_def split: if_splits)
  then have "\<not> model_error_is_retryable (me_kind e)"
    by (simp add: model_error_is_retryable_def ErrorCode_is_retryable_def)
  then show ?thesis
    unfolding send_with_retry_def
    by (subst send_loop.simps) (simp add: provider_attempt_checked [OF assms] attempt_error_def Let_def)
qed

end
