(* ===== verification/Text_Tools.thy ===== *)
theory Text_Tools
  imports Jarvis_Prelude
begin

text \<open>
  Operations on text shared by the components that search and render it: prefixes and suffixes, splitting
  on a predicate, lines, counts in decimal. The Unicode tables are an argument.
\<close>

text \<open>\<open>str::strip_prefix\<close>.\<close>

definition strip_prefix :: "rstr \<Rightarrow> rstr \<Rightarrow> rstr option" where
  "strip_prefix p s = (if has_prefix p s then Some (drop (length p) s) else None)"

definition strip_suffix :: "rstr \<Rightarrow> rstr \<Rightarrow> rstr option" where
  "strip_suffix p s = map_option rev (strip_prefix (rev p) (rev s))"

text \<open>A count written in decimal.\<close>

fun decimal :: "nat \<Rightarrow> rstr" where
  "decimal n = (if n < 10 then [48 + n] else decimal (n div 10) @ [48 + n mod 10])"

declare decimal.simps [simp del]

text \<open>The Unicode tables: \<open>char::is_alphanumeric\<close> and \<open>str::to_lowercase\<close>.\<close>

record unicode =
  uni_alphanumeric :: "uchar \<Rightarrow> bool"
  uni_lowercase :: "rstr \<Rightarrow> rstr"

text \<open>\<open>split(|c| !c.is_alphanumeric())\<close>.\<close>

fun split_where :: "(uchar \<Rightarrow> bool) \<Rightarrow> rstr \<Rightarrow> rstr list" where
  "split_where P [] = [[]]"
| "split_where P (c # s) =
     (if P c then [] # split_where P s
      else (case split_where P s of [] \<Rightarrow> [[c]] | w # ws \<Rightarrow> (c # w) # ws))"

text \<open>\<open>str::lines\<close>: cut at line feeds, a carriage return before one dropped, no last empty line.\<close>

definition strip_cr :: "rstr \<Rightarrow> rstr" where
  "strip_cr l = (if l \<noteq> [] \<and> last l = 13 then butlast l else l)"

definition text_lines :: "rstr \<Rightarrow> rstr list" where
  "text_lines s =
     (let parts = split_on 10 s; terminated = map strip_cr (butlast parts); rest = last parts in
      terminated @ (if rest = [] then [] else [rest]))"

definition replace_char :: "uchar \<Rightarrow> rstr \<Rightarrow> rstr \<Rightarrow> rstr" where
  "replace_char c by_text s = concat (map (\<lambda>d. if d = c then by_text else [d]) s)"

text \<open>The tokens and lengths of \<open>u32::try_from(n).unwrap_or(u32::MAX)\<close>.\<close>

definition u32_saturating :: "nat \<Rightarrow> 32 word" where
  "u32_saturating n = (if n < 2 ^ 32 then of_nat n else - 1)"

lemma u32_saturating_nonzero: "0 < n \<Longrightarrow> u32_saturating n \<noteq> 0"
  by (simp add: u32_saturating_def of_nat_eq_0_iff word_of_nat_eq_0_iff) (metis nat_dvd_not_less)

end
