(* ===== verification/Tool_Discovery.thy ===== *)
theory Tool_Discovery
  imports Tool_Pipeline Model_Gateway Text_Tools
begin

text \<open>
  Which tools a model is offered and under which authority it calls them: \<open>apps/jarvisd/src/tool_search.rs\<close>
  (groups held back until a run searches for them), the sub-agent rule of \<open>delegate.rs\<close>, the actors of
  \<open>tool_actor.rs\<close>, and \<open>tool_specs\<close>, \<open>cache_stable_order\<close> and \<open>tool_actor_for\<close> of \<open>executor.rs\<close>. Which groups
  a run has found is read back from its transcript. Lower-casing and the alphanumeric property follow
  the Unicode tables and are arguments, as is the JSON parser.
\<close>

section \<open>The catalog and its groups\<close>

definition SEARCH_TOOL :: rstr where "SEARCH_TOOL = lit ''jarvis.tools.search''"

definition DEFER_GROUP_OVER :: nat where "DEFER_GROUP_OVER = 6"

definition MAX_LISTED :: nat where "MAX_LISTED = 10"

definition MAX_DESCRIPTION_CHARS :: nat where "MAX_DESCRIPTION_CHARS = 140"

definition MAX_ALREADY_OFFERED :: nat where "MAX_ALREADY_OFFERED = 8"

definition RESULT_KIND :: rstr where "RESULT_KIND = lit ''tool_discovery''"

record CatalogEntry =
  cat_id :: rstr
  cat_description :: rstr

definition DEFERRED_NATIVE_FAMILIES :: "rstr list" where
  "DEFERRED_NATIVE_FAMILIES = map lit [''calendar'', ''schedule'', ''voice'']"

definition NATIVE_GROUP_PREFIX :: rstr where "NATIVE_GROUP_PREFIX = lit ''jarvis-''"

definition group_of :: "rstr \<Rightarrow> rstr option" where
  "group_of i =
     (case strip_prefix (lit ''mcp.'') i of
        Some rest \<Rightarrow> Some (hd (split_on 46 rest))
      | None \<Rightarrow>
          (case strip_prefix (lit ''jarvis.'') i of
             None \<Rightarrow> None
           | Some rest \<Rightarrow>
               let family = hd (split_on 46 rest) in
               if family \<in> set DEFERRED_NATIVE_FAMILIES then Some (NATIVE_GROUP_PREFIX @ family) else None))"

text \<open>\<open>splitn(3, '.').nth(2)\<close>: what follows the second dot.\<close>

definition short_name :: "rstr \<Rightarrow> rstr" where
  "short_name i = (case split_once 46 i of
       None \<Rightarrow> i
     | Some (_, rest) \<Rightarrow> (case split_once 46 rest of None \<Rightarrow> i | Some (_, name) \<Rightarrow> name))"

type_synonym catalog = "(rstr, CatalogEntry list) btree_map"

definition add_to_group :: "catalog \<Rightarrow> CatalogEntry \<Rightarrow> catalog" where
  "add_to_group groups e =
     (case group_of (cat_id e) of
        None \<Rightarrow> groups
      | Some g \<Rightarrow> bt_insert g ((case bt_get groups g of None \<Rightarrow> [] | Some es \<Rightarrow> es) @ [e]) groups)"

definition deferred_groups :: "CatalogEntry list \<Rightarrow> catalog" where
  "deferred_groups entries =
     filter (\<lambda>(g, tools). has_prefix NATIVE_GROUP_PREFIX g \<or> length tools > DEFER_GROUP_OVER)
       (foldl add_to_group [] entries)"

definition entries_of :: "ToolPipeline \<Rightarrow> CatalogEntry list" where
  "entries_of pl =
     (let registry = pl_registry pl; ids = map (\<lambda>(k, _). \<lparr>tid_namespace = fst k, tid_name = snd k\<rparr>) registry in
      List.map_filter (\<lambda>i. case get_tool registry i of
          Inl _ \<Rightarrow> None
        | Inr d \<Rightarrow> Some \<lparr>cat_id = ToolId_display (td_id d), cat_description = td_description d\<rparr>)
        (filter (is_callable registry) ids))"

section \<open>What a run has found\<close>

definition is_discovery_result :: "rstr \<Rightarrow> bool" where
  "is_discovery_result text \<longleftrightarrow> has_prefix [123] text \<and> contains_sub RESULT_KIND text"

definition groups_in_result :: "(rstr \<Rightarrow> json option) \<Rightarrow> rstr \<Rightarrow> rstr list" where
  "groups_in_result parse text =
     (if \<not> is_discovery_result text then []
      else case parse text of
        Some (JObject body) \<Rightarrow>
          if Option.bind (map_of body (lit ''kind'')) as_str = Some RESULT_KIND
          then (case map_of body (lit ''found_groups'') of
                  Some (JArray groups) \<Rightarrow> List.map_filter as_str groups
                | _ \<Rightarrow> [])
          else []
      | _ \<Rightarrow> [])"

definition groups_in_message :: "(rstr \<Rightarrow> json option) \<Rightarrow> ChatMessage \<Rightarrow> rstr list" where
  "groups_in_message parse m =
     (case cm_role m of
        Chat_Assistant \<Rightarrow> List.map_filter (\<lambda>c. group_of (tc_name c)) (cm_tool_calls m)
      | Chat_Tool \<Rightarrow> groups_in_result parse (cm_text m)
      | _ \<Rightarrow> [])"

text \<open>The \<open>BTreeSet\<close> of groups.\<close>

definition found_groups :: "(rstr \<Rightarrow> json option) \<Rightarrow> ChatMessage list \<Rightarrow> rstr set" where
  "found_groups parse messages = set (concat (map (groups_in_message parse) messages))"

section \<open>Searching\<close>

definition catalog_part :: "rstr \<times> CatalogEntry list \<Rightarrow> rstr" where
  "catalog_part p =
     (let tools = snd p; names = take 8 (map (\<lambda>e. short_name (cat_id e)) tools) in
      fst p @ lit '' ('' @ decimal (length tools) @ lit '' tools: '' @ join (lit '', '') names
        @ (if length tools > length names then lit '', ...'' else []) @ lit '')'')"

definition catalog_line :: "catalog \<Rightarrow> rstr" where
  "catalog_line waiting = join (lit ''; '') (map catalog_part waiting)"

fun strip_ending :: "rstr list \<Rightarrow> rstr \<Rightarrow> rstr" where
  "strip_ending [] word = word"
| "strip_ending (ending # endings) word =
     (case strip_suffix ending word of
        Some rest \<Rightarrow> if length rest \<ge> 4 then rest else strip_ending endings word
      | None \<Rightarrow> strip_ending endings word)"

definition stem :: "rstr \<Rightarrow> rstr" where
  "stem word =
     (let s = strip_ending (map lit [''ing'', ''ed'', ''es'', ''s'']) word in
      if length s \<ge> 5 then (case strip_suffix (lit ''e'') s of Some rest \<Rightarrow> rest | None \<Rightarrow> s) else s)"

definition NOISE :: "rstr list" where
  "NOISE = map lit [''the'', ''and'', ''for'', ''with'', ''tool'', ''tools'', ''use'', ''want'', ''need'', ''can'',
     ''all'', ''any'', ''from'', ''that'', ''this'', ''how'', ''please'', ''what'', ''when'', ''where'', ''which'',
     ''who'', ''are'', ''was'', ''you'', ''your'', ''our'', ''not'', ''but'', ''has'', ''have'', ''does'', ''into'',
     ''about'', ''some'', ''get'']"

definition query_words :: "unicode \<Rightarrow> rstr \<Rightarrow> rstr list" where
  "query_words u query =
     map stem (filter (\<lambda>w. w \<notin> set NOISE) (map (uni_lowercase u)
       (filter (\<lambda>w. length w > 2) (split_where (\<lambda>c. \<not> uni_alphanumeric u c) query))))"

definition group_score :: "unicode \<Rightarrow> rstr list \<Rightarrow> rstr \<Rightarrow> CatalogEntry \<Rightarrow> nat" where
  "group_score u words g e =
     sum_list (map (\<lambda>w. of_bool (contains_sub w (uni_lowercase u g)) * 3
       + of_bool (contains_sub w (uni_lowercase u (short_name (cat_id e)))) * 2
       + of_bool (contains_sub w (uni_lowercase u (cat_description e)))) words)"

text \<open>\<open>sort_by_key(Reverse(score))\<close> is stable.\<close>

definition best_first :: "(nat \<times> CatalogEntry) list \<Rightarrow> (nat \<times> CatalogEntry) list" where
  "best_first scored = rev (sort_key fst (rev scored))"

definition search_rank :: "unicode \<Rightarrow> catalog \<Rightarrow> rstr \<Rightarrow> (nat \<times> CatalogEntry) list" where
  "search_rank u waiting query =
     (let words = query_words u query in
      best_first (filter (\<lambda>p. fst p > 0) (concat (map (\<lambda>(g, tools).
        map (\<lambda>e. (group_score u words g e, e)) tools) waiting))))"

definition listed_entry :: "CatalogEntry \<Rightarrow> json" where
  "listed_entry e = JObject [(lit ''description'', JString (take MAX_DESCRIPTION_CHARS (cat_description e))),
     (lit ''id'', JString (cat_id e))]"

text \<open>\<open>serde_json\<close> keeps the members of an object by key.\<close>

definition search_answer :: "rstr \<Rightarrow> rstr list \<Rightarrow> json list \<Rightarrow> rstr \<Rightarrow> (rstr \<times> json) list" where
  "search_answer query groups tools note =
     [(lit ''found_groups'', JArray (map JString groups)), (lit ''kind'', JString RESULT_KIND),
      (lit ''note'', JString note), (lit ''query'', JString query), (lit ''tools'', JArray tools)]"

definition search_body :: "unicode \<Rightarrow> catalog \<Rightarrow> rstr \<Rightarrow> (rstr \<times> json) list" where
  "search_body u waiting query =
     (if waiting = [] then search_answer query [] []
         (lit ''Nothing is waiting: every tool you can use is already offered to you.'')
      else
        let ranked = search_rank u waiting query in
        if ranked = [] then search_answer query [] []
          (lit ''Nothing matched those words. Groups you can ask for by name: '' @ catalog_line waiting @ lit ''.'')
        else
          let shown = map snd (take MAX_LISTED ranked);
              groups = sorted_list_of_set (set (List.map_filter (\<lambda>e. group_of (cat_id e)) shown));
              sizes = map (\<lambda>g. g @ lit '' ('' @ decimal (case bt_get waiting g of None \<Rightarrow> 0 | Some es \<Rightarrow> length es)
                @ lit '' tools)'') groups
          in search_answer query groups (map listed_entry shown)
               (lit ''These are matching previews, not the full inventory. The next model request offers the whole set: ''
                @ join (lit '', '') sizes @ lit ''.''))"

definition offered_score :: "unicode \<Rightarrow> rstr list \<Rightarrow> CatalogEntry \<Rightarrow> nat" where
  "offered_score u words e =
     sum_list (map (\<lambda>w. of_bool (contains_sub w (uni_lowercase u (cat_id e))) * 3
       + of_bool (contains_sub w (uni_lowercase u (cat_description e)))) words)"

definition already_offered :: "unicode \<Rightarrow> CatalogEntry list \<Rightarrow> catalog \<Rightarrow> rstr \<Rightarrow> CatalogEntry list" where
  "already_offered u entries waiting query =
     (let words = query_words u query;
          held = set (map cat_id (concat (map snd waiting)))
      in map snd (take MAX_ALREADY_OFFERED (best_first (filter (\<lambda>p. fst p > 0)
           (map (\<lambda>e. (offered_score u words e, e))
              (filter (\<lambda>e. cat_id e \<notin> held \<and> cat_id e \<noteq> SEARCH_TOOL) entries))))))"

definition search_everything :: "unicode \<Rightarrow> CatalogEntry list \<Rightarrow> catalog \<Rightarrow> rstr \<Rightarrow> json" where
  "search_everything u entries waiting query =
     (let body = search_body u waiting query; offered = already_offered u entries waiting query in
      if offered = [] then JObject body
      else
        let listed = bt_insert (lit ''already_available'') (JArray (map listed_entry offered)) body;
            nothing_held = (case map_of body (lit ''found_groups'') of Some (JArray []) \<Rightarrow> True | Some (JArray _) \<Rightarrow> False | _ \<Rightarrow> True)
        in JObject (if nothing_held then bt_insert (lit ''note'') (JString (lit ''These tools already match and are available to call now (no need to search for them again); nothing else was held back that matched.'')) listed
           else listed))"

section \<open>What a model is offered\<close>

definition AGENT_TOOL_PREFIX :: rstr where "AGENT_TOOL_PREFIX = lit ''jarvis.agent.''"

definition is_agent_management_tool :: "rstr \<Rightarrow> bool" where
  "is_agent_management_tool i \<longleftrightarrow> has_prefix AGENT_TOOL_PREFIX i \<or> i = lit ''jarvis.code.delegate''
     \<or> has_prefix (lit ''jarvis.code.delegate_'') i"

definition waiting_groups :: "(rstr \<Rightarrow> json option) \<Rightarrow> ToolPipeline \<Rightarrow> ChatMessage list \<Rightarrow> catalog" where
  "waiting_groups parse pl messages =
     filter (\<lambda>(g, _). g \<notin> found_groups parse messages) (deferred_groups (entries_of pl))"

definition is_offered :: "catalog \<Rightarrow> bool \<Rightarrow> CatalogEntry \<Rightarrow> bool" where
  "is_offered waiting sub_agent e \<longleftrightarrow>
     \<not> (sub_agent \<and> is_agent_management_tool (cat_id e))
     \<and> (case group_of (cat_id e) of None \<Rightarrow> True | Some g \<Rightarrow> \<not> bt_contains waiting g)
     \<and> (cat_id e \<noteq> SEARCH_TOOL \<or> waiting \<noteq> [])"

definition tool_spec :: "ToolPipeline \<Rightarrow> catalog \<Rightarrow> CatalogEntry \<Rightarrow> ToolSpec" where
  "tool_spec pl waiting e =
     \<lparr>spec_name = cat_id e,
      spec_description = (if cat_id e = SEARCH_TOOL
        then cat_description e @ lit '' Not offered yet: '' @ catalog_line waiting
          @ lit ''. Call this before telling the user you cannot do something these could do.''
        else cat_description e),
      spec_parameters = (case ToolId_from_str (cat_id e) of
          Inl _ \<Rightarrow> JObject [(lit ''type'', JString (lit ''object''))]
        | Inr i \<Rightarrow> (case get_tool (pl_registry pl) i of
              Inl _ \<Rightarrow> JObject [(lit ''type'', JString (lit ''object''))]
            | Inr d \<Rightarrow> td_input_schema d))\<rparr>"

definition cache_class :: "rstr set \<Rightarrow> ToolSpec \<Rightarrow> nat" where
  "cache_class found spec =
     (if spec_name spec = SEARCH_TOOL then 1
      else if (case group_of (spec_name spec) of None \<Rightarrow> False | Some g \<Rightarrow> g \<in> found) then 2 else 0)"

definition cache_stable_order :: "ToolSpec list \<Rightarrow> rstr set \<Rightarrow> ToolSpec list" where
  "cache_stable_order specs found = sort_key (cache_class found) specs"

definition tool_specs :: "(rstr \<Rightarrow> json option) \<Rightarrow> ToolPipeline \<Rightarrow> bool \<Rightarrow> ChatMessage list \<Rightarrow> ToolSpec list" where
  "tool_specs parse pl sub_agent messages =
     (let waiting = waiting_groups parse pl messages in
      cache_stable_order (map (tool_spec pl waiting) (filter (is_offered waiting sub_agent) (entries_of pl)))
        (found_groups parse messages))"

section \<open>Under which authority\<close>

text \<open>Scopes are rebuilt from their text; one that does not parse is left out.\<close>

definition required_scopes_for :: "ToolDefinition list \<Rightarrow> ScopeSet" where
  "required_scopes_for served =
     {s. \<exists>d \<in> set served. \<exists>r \<in> td_required_scopes d. Scope_from_str (Scope_display r) = Ok s}"

definition FILES_READ_SCOPE :: rstr where "FILES_READ_SCOPE = lit ''files.read''"

definition for_composed_tools ::
  "rstr \<Rightarrow> rstr \<Rightarrow> SessionChannel \<Rightarrow> rstr \<Rightarrow> ToolDefinition list \<Rightarrow> ToolActor" where
  "for_composed_tools workspace rid channel policy composed =
     \<lparr>ta_workspace_id = workspace, ta_run_id = rid,
      ta_scopes = required_scopes_for composed
        \<union> (case Scope_from_str FILES_READ_SCOPE of Inl _ \<Rightarrow> {} | Inr files \<Rightarrow> {files}),
      ta_channel = channel, ta_policy_version = policy, ta_read_destination = Internal\<rparr>"

definition remote_actor :: "rstr \<Rightarrow> rstr \<Rightarrow> rstr \<Rightarrow> ToolDefinition list \<Rightarrow> ToolActor" where
  "remote_actor workspace correlation policy served =
     \<lparr>ta_workspace_id = workspace, ta_run_id = correlation, ta_scopes = required_scopes_for served,
      ta_channel = Chan_Api, ta_policy_version = policy, ta_read_destination = Internal\<rparr>"

definition with_read_destination :: "ToolActor \<Rightarrow> Sensitivity \<Rightarrow> ToolActor" where
  "with_read_destination actor destination = actor\<lparr>ta_read_destination := destination\<rparr>"

definition tool_actor_for :: "ToolPipeline \<Rightarrow> StoredRun \<Rightarrow> ToolPipelineError + ToolActor" where
  "tool_actor_for pl r =
     map_ok (\<lambda>ds. for_composed_tools (run_workspace_id r) (run_id r) Chan_Cli (lit ''policy-1'')
         (filter (\<lambda>d. \<not> (run_is_delegated r \<and> is_agent_management_tool (ToolId_display (td_id d)))) ds))
       (definitions_of pl)"

section \<open>What a run may see\<close>

lemma set_map_filter: "set (List.map_filter f xs) = {y. \<exists>x \<in> set xs. f x = Some y}"
  by (induction xs) (auto simp: List.map_filter_simps split: option.splits)

lemma cache_class_cases: "cache_class found s = 0 \<or> cache_class found s = 1 \<or> cache_class found s = 2"
  by (simp add: cache_class_def)

lemma cache_stable_order_parts:
  "cache_stable_order specs found =
     filter (\<lambda>s. cache_class found s = 0) specs @ filter (\<lambda>s. cache_class found s = 1) specs
       @ filter (\<lambda>s. cache_class found s = 2) specs" (is "_ = ?ys")
  unfolding cache_stable_order_def
proof (rule properties_for_sort_key)
  show "mset ?ys = mset specs"
  proof (rule multiset_eqI)
    fix x
    show "count (mset ?ys) x = count (mset specs) x"
      using cache_class_cases [of found x] by auto
  qed
  show "filter (\<lambda>x. cache_class found k = cache_class found x) ?ys
      = filter (\<lambda>x. cache_class found k = cache_class found x) specs" if "k \<in> set ?ys" for k
  proof -
    have one: "filter (\<lambda>x. f x = (a :: nat) \<and> b = f x) xs = (if a = b then filter (\<lambda>x. b = f x) xs else [])"
      for f :: "ToolSpec \<Rightarrow> nat" and a b xs by (induction xs) auto
    show ?thesis
      using cache_class_cases [of found k] by (auto simp: one)
  qed
  show "sorted (map (cache_class found) ?ys)"
  proof -
    have "sorted (map f (filter (\<lambda>x. f x = (a :: nat)) xs))" for f :: "ToolSpec \<Rightarrow> nat" and a xs
      by (induction xs) auto
    then show ?thesis by (auto simp: sorted_append)
  qed
qed

lemma set_cache_stable_order [simp]: "set (cache_stable_order specs found) = set specs"
  by (simp add: cache_stable_order_def)

lemma spec_name_tool_spec [simp]: "spec_name (tool_spec pl waiting e) = cat_id e"
  by (simp add: tool_spec_def)

lemma offered_names:
  "spec_name ` set (tool_specs parse pl sub_agent messages) =
     {cat_id e | e. e \<in> set (entries_of pl) \<and> is_offered (waiting_groups parse pl messages) sub_agent e}"
  by (auto simp: tool_specs_def Let_def image_def)

lemma found_groups_append: "found_groups parse (a @ b) = found_groups parse a \<union> found_groups parse b"
  by (simp add: found_groups_def)

lemma bt_contains_keys: "bt_contains m g \<longleftrightarrow> g \<in> fst ` set m"
  by (simp add: bt_contains_def bt_get_def map_of_eq_None_iff)

lemma waiting_iff:
  "bt_contains (waiting_groups parse pl messages) g \<longleftrightarrow>
     g \<in> fst ` set (deferred_groups (entries_of pl)) \<and> g \<notin> found_groups parse messages"
  by (force simp: bt_contains_keys waiting_groups_def)

text \<open>A sub-agent is never offered delegation, and holds no scope on its account.\<close>

lemma required_scopes_for_iff:
  "s \<in> required_scopes_for ds \<longleftrightarrow>
     (\<exists>d \<in> set ds. \<exists>r \<in> td_required_scopes d. Scope_from_str (Scope_display r) = Ok s)"
  by (simp add: required_scopes_for_def)

text \<open>C11: a sub-agent cannot start another agent on its own authority. No request of a delegated run
  offers a tool that manages agents, and each scope its calls are made with is \<open>files.read\<close> or is
  required by some registered tool that does not manage agents.\<close>

theorem sub_agent_cannot_delegate:
  assumes "run_is_delegated r" "tool_actor_for pl r = Ok actor"
  shows "(\<forall>spec \<in> set (tool_specs parse pl (run_is_delegated r) messages).
        \<not> is_agent_management_tool (spec_name spec))
    \<and> (\<forall>s \<in> ta_scopes actor. Scope_from_str FILES_READ_SCOPE = Ok s
         \<or> (\<exists>ds. definitions_of pl = Ok ds \<and> (\<exists>d \<in> set ds. \<not> is_agent_management_tool (ToolId_display (td_id d))
              \<and> (\<exists>q \<in> td_required_scopes d. Scope_from_str (Scope_display q) = Ok s))))"
proof
  have "is_offered w True e \<Longrightarrow> \<not> is_agent_management_tool (cat_id e)" for w e
    by (simp add: is_offered_def)
  moreover have "spec_name spec \<in> spec_name ` set (tool_specs parse pl True messages)"
    if "spec \<in> set (tool_specs parse pl True messages)" for spec using that by simp
  ultimately show "\<forall>spec \<in> set (tool_specs parse pl (run_is_delegated r) messages).
        \<not> is_agent_management_tool (spec_name spec)"
    using assms(1) unfolding offered_names by fastforce
  show "\<forall>s \<in> ta_scopes actor. Scope_from_str FILES_READ_SCOPE = Ok s
         \<or> (\<exists>ds. definitions_of pl = Ok ds \<and> (\<exists>d \<in> set ds. \<not> is_agent_management_tool (ToolId_display (td_id d))
              \<and> (\<exists>q \<in> td_required_scopes d. Scope_from_str (Scope_display q) = Ok s)))"
  proof (cases "definitions_of pl")
    case (Inr ds)
    then have "ta_scopes actor = required_scopes_for (filter (\<lambda>d. \<not> is_agent_management_tool (ToolId_display (td_id d))) ds)
        \<union> {s. Scope_from_str FILES_READ_SCOPE = Ok s}"
      using assms by (auto simp: tool_actor_for_def for_composed_tools_def split: sum.splits)
    with Inr show ?thesis by (fastforce simp: required_scopes_for_iff)
  qed (use assms in \<open>simp add: tool_actor_for_def\<close>)
qed

section \<open>Searching and being offered\<close>

lemma answer_keys:
  "bt_inv (search_answer query groups tools note)"
  "map_of (search_answer query groups tools note) (lit ''found_groups'') = Some (JArray (map JString groups))"
  "map_of (search_answer query groups tools note) (lit ''kind'') = Some (JString RESULT_KIND)"
  by (simp_all add: search_answer_def bt_inv_def lit_def)

lemma answer_shape: "\<exists>groups tools note. search_body u waiting query = search_answer query groups tools note"
  by (auto simp: search_body_def Let_def)

lemma map_of_bt_insert: "bt_inv m \<Longrightarrow> map_of (bt_insert k v m) j = (if j = k then Some v else map_of m j)"
  using bt_get_insert [of m k v j] by (simp add: bt_get_def)

lemma search_everything_members:
  "\<exists>body. search_everything u entries waiting query = JObject body
     \<and> map_of body (lit ''kind'') = Some (JString RESULT_KIND)
     \<and> map_of body (lit ''found_groups'') = map_of (search_body u waiting query) (lit ''found_groups'')"
proof -
  obtain groups tools comment where b: "search_body u waiting query = search_answer query groups tools comment"
    using answer_shape by blast
  have ne: "lit ''kind'' \<noteq> lit ''already_available''" "lit ''kind'' \<noteq> lit ''note''"
    "lit ''found_groups'' \<noteq> lit ''already_available''" "lit ''found_groups'' \<noteq> lit ''note''"
    by (simp_all add: lit_def)
  show ?thesis
    by (auto simp: search_everything_def Let_def b map_of_bt_insert bt_inv_insert answer_keys ne)
qed

lemma list_of_strings [simp]: "List.map_filter as_str (map JString groups) = groups"
  by (induction groups) (simp_all add: List.map_filter_simps as_str_def)

lemma groups_of_search:
  assumes "is_discovery_result text" "parse text = Some (search_everything u entries waiting query)"
    and "map_of (search_body u waiting query) (lit ''found_groups'') = Some (JArray (map JString groups))"
  shows "groups_in_result parse text = groups"
  using search_everything_members [of u entries waiting query] assms
  by (auto simp: groups_in_result_def as_str_def)

text \<open>The groups a search answer names are those of the tools it lists.\<close>

lemma search_names_groups:
  assumes "e \<in> snd ` set (take MAX_LISTED (search_rank u waiting query))" "group_of (cat_id e) = Some g"
  shows "\<exists>groups. map_of (search_body u waiting query) (lit ''found_groups'') = Some (JArray (map JString groups))
    \<and> g \<in> set groups"
proof -
  have "search_rank u waiting query \<noteq> []" using assms(1) by auto
  moreover have "waiting \<noteq> []"
    using calculation by (auto simp: search_rank_def best_first_def Let_def)
  ultimately have "map_of (search_body u waiting query) (lit ''found_groups'') = Some (JArray (map JString
      (sorted_list_of_set (set (List.map_filter (\<lambda>e. group_of (cat_id e))
         (map snd (take MAX_LISTED (search_rank u waiting query))))))))"
    by (simp add: search_body_def Let_def answer_keys)
  moreover have "g \<in> set (List.map_filter (\<lambda>e. group_of (cat_id e))
      (map snd (take MAX_LISTED (search_rank u waiting query))))"
    using assms by (auto simp: set_map_filter)
  then have "g \<in> set (sorted_list_of_set (set (List.map_filter (\<lambda>e. group_of (cat_id e))
      (map snd (take MAX_LISTED (search_rank u waiting query))))))"
    by (simp only: set_sorted_list_of_set [OF List.finite_set])
  ultimately show ?thesis by blast
qed


text \<open>A provider can reuse the start of a request. As long as a run finds only groups that were held
  back, the tools of its later requests begin with the same specifications in the same order; only what
  follows them changes.\<close>

theorem request_prefix_stable:
  assumes "found_groups parse later - found_groups parse earlier \<subseteq> fst ` set (waiting_groups parse pl earlier)"
    and "found_groups parse earlier \<subseteq> found_groups parse later"
  shows "\<exists>core rest rest'. tool_specs parse pl sub_agent earlier = core @ rest
    \<and> tool_specs parse pl sub_agent later = core @ rest'
    \<and> (\<forall>s \<in> set rest. spec_name s = SEARCH_TOOL
         \<or> (\<exists>g \<in> found_groups parse earlier. group_of (spec_name s) = Some g))"
proof -
  let ?w = "waiting_groups parse pl earlier" and ?w' = "waiting_groups parse pl later"
  let ?core = "\<lambda>w. filter (\<lambda>s. cache_class (found_groups parse earlier) s = 0)
      (map (tool_spec pl w) (filter (is_offered w sub_agent) (entries_of pl)))"
  let ?core' = "filter (\<lambda>s. cache_class (found_groups parse later) s = 0)
      (map (tool_spec pl ?w') (filter (is_offered ?w' sub_agent) (entries_of pl)))"
  have w: "bt_contains ?w g \<or> g \<in> found_groups parse later - found_groups parse earlier
      \<longleftrightarrow> bt_contains ?w' g \<or> g \<in> found_groups parse later - found_groups parse earlier" for g
    using assms by (auto simp: waiting_iff)
  have sub: "g \<in> found_groups parse later - found_groups parse earlier \<Longrightarrow> bt_contains ?w g" for g
    using assms(1) by (auto simp: bt_contains_keys)
  have same: "(is_offered ?w sub_agent e \<and> cache_class (found_groups parse earlier) (tool_spec pl ?w e) = 0)
      \<longleftrightarrow> (is_offered ?w' sub_agent e \<and> cache_class (found_groups parse later) (tool_spec pl ?w' e) = 0)" for e
    using w sub assms(2) by (auto simp: is_offered_def cache_class_def split: option.splits if_splits)
  have spec: "cache_class F (tool_spec pl ?w e) = 0 \<Longrightarrow> tool_spec pl ?w e = tool_spec pl ?w' e" for F e
    by (simp add: tool_spec_def cache_class_def split: if_splits)
  have "?core ?w = map (tool_spec pl ?w) (filter (\<lambda>e. is_offered ?w sub_agent e
      \<and> cache_class (found_groups parse earlier) (tool_spec pl ?w e) = 0) (entries_of pl))"
    by (simp add: filter_map comp_def filter_filter conj_commute)
  also have "\<dots> = map (tool_spec pl ?w') (filter (\<lambda>e. is_offered ?w sub_agent e
      \<and> cache_class (found_groups parse earlier) (tool_spec pl ?w e) = 0) (entries_of pl))"
    using spec by auto
  also have "\<dots> = ?core'"
    by (simp add: same) (simp add: filter_map comp_def filter_filter conj_commute)
  finally have core: "?core ?w = ?core'" .
  let ?specs = "map (tool_spec pl ?w) (filter (is_offered ?w sub_agent) (entries_of pl))"
  let ?specs' = "map (tool_spec pl ?w') (filter (is_offered ?w' sub_agent) (entries_of pl))"
  let ?cls = "cache_class (found_groups parse earlier)" and ?cls' = "cache_class (found_groups parse later)"
  have "tool_specs parse pl sub_agent earlier
      = ?core ?w @ (filter (\<lambda>s. ?cls s = 1) ?specs @ filter (\<lambda>s. ?cls s = 2) ?specs)"
    by (simp only: tool_specs_def Let_def cache_stable_order_parts)
  moreover have "tool_specs parse pl sub_agent later
      = ?core ?w @ (filter (\<lambda>s. ?cls' s = 1) ?specs' @ filter (\<lambda>s. ?cls' s = 2) ?specs')"
    by (simp only: tool_specs_def Let_def cache_stable_order_parts core)
  moreover have "spec_name s = SEARCH_TOOL \<or> (\<exists>g \<in> found_groups parse earlier. group_of (spec_name s) = Some g)"
    if "?cls s = 1 \<or> ?cls s = 2" for s
    using that by (auto simp: cache_class_def split: if_splits option.splits)
  ultimately show ?thesis by (intro exI conjI) (assumption, assumption, auto)
qed

end
