(* ===== verification/Transcript.thy ===== *)
theory Transcript
  imports Tool_Discovery Isolation
begin

text \<open>
  The transcript of one run: the bound \<open>apps/jarvisd/src/transcript_budget.rs\<close> keeps it in, what
  \<open>executor.rs\<close> keeps of it when the run parks (\<open>fit_transcript\<close>), how a tool result enters it, and the
  table of \<open>jarvis-storage/src/run_transcript_repository.rs\<close>. A provider accepts a transcript only when
  every assistant turn that requests calls is followed by exactly their results: \<open>owed\<close> reads a transcript
  and answers the calls still owed a result, and the operations here are shown to respect it. The JSON
  parser and printer are arguments.
\<close>

section \<open>Leaving out old results\<close>

definition SOFT_BUDGET_BYTES :: nat where "SOFT_BUDGET_BYTES = 200000"

definition LOW_WATER_BYTES :: nat where "LOW_WATER_BYTES = SOFT_BUDGET_BYTES div 4 * 3"

definition KEEP_RECENT_RESULTS :: nat where "KEEP_RECENT_RESULTS = 6"

definition MIN_LEFT_OUT_BYTES :: nat where "MIN_LEFT_OUT_BYTES = 600"

definition LEFT_OUT :: rstr where
  "LEFT_OUT = lit ''[earlier tool result left out to keep the working context small''"

definition ARGUMENT_LEFT_OUT :: rstr where
  "ARGUMENT_LEFT_OUT = lit ''[left out of the working context: ''"

record Trimmed =
  trm_results :: nat
  trm_arguments :: nat
  trm_bytes :: nat

definition mask_text :: "rstr \<Rightarrow> rstr" where
  "mask_text t = (if str_len t \<ge> MIN_LEFT_OUT_BYTES \<and> \<not> has_prefix ARGUMENT_LEFT_OUT t
     then ARGUMENT_LEFT_OUT @ decimal (length t) @ lit '' characters, already sent]'' else t)"

primrec mask_long_strings :: "json \<Rightarrow> json" where
  "mask_long_strings JNull = JNull"
| "mask_long_strings (JBool b) = JBool b"
| "mask_long_strings (JNumber n) = JNumber n"
| "mask_long_strings (JString t) = JString (mask_text t)"
| "mask_long_strings (JArray items) = JArray (map mask_long_strings items)"
| "mask_long_strings (JObject members) = JObject (map (map_prod id mask_long_strings) members)"

text \<open>What \<open>serde_json\<close> reads and prints.\<close>

record json_codec =
  jc_parse :: "rstr \<Rightarrow> json option"
  jc_print :: "json \<Rightarrow> rstr option"

definition shorten_arguments :: "json_codec \<Rightarrow> rstr \<Rightarrow> rstr option" where
  "shorten_arguments jc arguments =
     (case Option.bind (jc_parse jc arguments) (\<lambda>v. jc_print jc (mask_long_strings v)) of
        None \<Rightarrow> None
      | Some shortened \<Rightarrow> if str_len shortened < str_len arguments then Some shortened else None)"

definition message_size :: "ChatMessage \<Rightarrow> nat" where
  "message_size m = str_len (cm_text m)
     + sum_list (map (\<lambda>c. str_len (tc_name c) + str_len (tc_arguments c)) (cm_tool_calls m))"

definition result_indices :: "ChatMessage list \<Rightarrow> nat \<Rightarrow> nat list" where
  "result_indices messages own = filter (\<lambda>i. cm_role (messages ! i) = Chat_Tool) [own..<length messages]"

text \<open>\<open>rposition\<close>: the index after the newest assistant turn.\<close>

definition unseen_from :: "ChatMessage list \<Rightarrow> nat" where
  "unseen_from messages =
     (case find (\<lambda>i. cm_role (messages ! i) = Chat_Assistant) (rev [0..<length messages]) of
        None \<Rightarrow> 0 | Some i \<Rightarrow> i + 1)"

definition result_placeholder :: "rstr \<Rightarrow> rstr" where
  "result_placeholder text = LEFT_OUT @ lit '': '' @ decimal (length text)
     @ lit '' characters. Run the tool again if it is still needed.]''"

fun leave_out_results ::
  "nat \<Rightarrow> nat \<Rightarrow> nat list \<Rightarrow> ChatMessage list \<Rightarrow> nat \<Rightarrow> Trimmed \<Rightarrow> ChatMessage list \<times> nat \<times> Trimmed" where
  "leave_out_results target unseen [] messages held_bytes acc = (messages, held_bytes, acc)"
| "leave_out_results target unseen (i # indices) messages held_bytes acc =
     (if held_bytes \<le> target \<or> i \<ge> unseen then (messages, held_bytes, acc)
      else let text = cm_text (messages ! i) in
        if str_len text < MIN_LEFT_OUT_BYTES \<or> has_prefix LEFT_OUT text \<or> is_discovery_result text
        then leave_out_results target unseen indices messages held_bytes acc
        else case cm_tool_call_id (messages ! i) of
               None \<Rightarrow> leave_out_results target unseen indices messages held_bytes acc
             | Some call \<Rightarrow>
                 let saved = str_len text - str_len (result_placeholder text) in
                 leave_out_results target unseen indices
                   (messages[i := chat_tool call (result_placeholder text)]) (held_bytes - saved)
                   (acc\<lparr>trm_results := trm_results acc + 1, trm_bytes := trm_bytes acc + saved\<rparr>))"

definition shorten_call :: "json_codec \<Rightarrow> rstr set \<Rightarrow> ToolCall \<Rightarrow> ToolCall option" where
  "shorten_call jc answered c =
     (if tc_id c \<in> answered
      then map_option (\<lambda>s. \<lparr>tc_id = tc_id c, tc_name = tc_name c, tc_arguments = s\<rparr>)
             (shorten_arguments jc (tc_arguments c))
      else None)"

definition or_same :: "('a \<Rightarrow> 'a option) \<Rightarrow> 'a \<Rightarrow> 'a" where
  "or_same f x = (case f x of None \<Rightarrow> x | Some y \<Rightarrow> y)"

fun shorten_messages ::
  "json_codec \<Rightarrow> rstr set \<Rightarrow> nat \<Rightarrow> nat \<Rightarrow> nat \<Rightarrow> ChatMessage list \<Rightarrow> nat \<Rightarrow> Trimmed
    \<Rightarrow> ChatMessage list \<times> Trimmed" where
  "shorten_messages jc answered target unseen i [] held_bytes acc = ([], acc)"
| "shorten_messages jc answered target unseen i (m # ms) held_bytes acc =
     (if held_bytes \<le> target then (m # ms, acc)
      else if cm_role m \<noteq> Chat_Assistant \<or> i \<ge> unseen
             \<or> list_all (\<lambda>c. shorten_call jc answered c = None) (cm_tool_calls m)
      then map_prod ((#) m) id (shorten_messages jc answered target unseen (i + 1) ms held_bytes acc)
      else let m' = assistant_tool_calls (cm_text m) (map (or_same (shorten_call jc answered)) (cm_tool_calls m));
               saved = message_size m - message_size m'
           in map_prod ((#) m') id (shorten_messages jc answered target unseen (i + 1) ms (held_bytes - saved)
                (acc\<lparr>trm_arguments := trm_arguments acc + 1, trm_bytes := trm_bytes acc + saved\<rparr>)))"

definition shorten_old_arguments ::
  "json_codec \<Rightarrow> ChatMessage list \<Rightarrow> nat \<Rightarrow> nat list \<Rightarrow> nat \<Rightarrow> nat \<Rightarrow> nat \<Rightarrow> Trimmed
    \<Rightarrow> ChatMessage list \<times> Trimmed" where
  "shorten_old_arguments jc messages own old_results unseen held_bytes target acc =
     (let answered = set (List.map_filter (\<lambda>i. cm_tool_call_id (messages ! i))
            (filter (\<lambda>i. i < unseen) old_results))
      in map_prod ((@) (take own messages)) id
           (shorten_messages jc answered target unseen own (drop own messages) held_bytes acc))"

definition trim_to ::
  "json_codec \<Rightarrow> ChatMessage list \<Rightarrow> nat \<Rightarrow> nat \<Rightarrow> nat \<Rightarrow> ChatMessage list \<times> Trimmed option" where
  "trim_to jc messages own budget target =
     (let held_bytes = sum_list (map message_size messages) in
      if held_bytes \<le> budget then (messages, None)
      else
        let results = result_indices messages own;
            unseen = unseen_from messages;
            older = take (length results - KEEP_RECENT_RESULTS) results;
            (messages1, bytes1, acc1) = leave_out_results target unseen older messages held_bytes
               \<lparr>trm_results = 0, trm_arguments = 0, trm_bytes = 0\<rparr>;
            (messages2, acc2) = (if bytes1 > target
               then shorten_old_arguments jc messages1 own older unseen bytes1 target acc1
               else (messages1, acc1))
        in (messages2, if trm_results acc2 > 0 \<or> trm_arguments acc2 > 0 then Some acc2 else None))"

definition trim_old_results :: "json_codec \<Rightarrow> ChatMessage list \<Rightarrow> nat \<Rightarrow> ChatMessage list \<times> Trimmed option" where
  "trim_old_results jc messages own = trim_to jc messages own SOFT_BUDGET_BYTES LOW_WATER_BYTES"

section \<open>What a parked run keeps\<close>

record ParkedTranscript =
  pk_messages :: "ChatMessage list"
  pk_held :: rstr
  pk_unrun :: "rstr list"

definition MAX_PARKED_TRANSCRIPT_BYTES :: nat where "MAX_PARKED_TRANSCRIPT_BYTES = 900000"

definition TRANSCRIPT_TRIMMED_NOTE :: rstr where
  "TRANSCRIPT_TRIMMED_NOTE = lit ''(Earlier steps of this task are not shown here to save space. What matters from them is in the files and results below.)''"

definition NOT_RUN_BECAUSE_PARKED :: rstr where
  "NOT_RUN_BECAUSE_PARKED = lit ''not run: an earlier call in the same turn was waiting for the user's approval. Request it again if you still need it.''"

text \<open>How a parked transcript is written to and read from text.\<close>

record transcript_codec =
  tr_print :: "ParkedTranscript \<Rightarrow> rstr option"
  tr_parse :: "rstr \<Rightarrow> ParkedTranscript option"

definition transcript_fits :: "transcript_codec \<Rightarrow> ParkedTranscript \<Rightarrow> bool" where
  "transcript_fits tr p =
     (case tr_print tr p of None \<Rightarrow> False | Some s \<Rightarrow> str_len s \<le> MAX_PARKED_TRANSCRIPT_BYTES)"

definition next_turn :: "ChatMessage list \<Rightarrow> nat option" where
  "next_turn messages = find (\<lambda>i. cm_role (messages ! i) = Chat_Assistant) [1..<length messages]"

lemma next_turn_Some:
  assumes "next_turn messages = Some i"
  shows "1 \<le> i \<and> i < length messages \<and> cm_role (messages ! i) = Chat_Assistant"
  using assms by (auto simp: next_turn_def find_Some_iff)

function fit_messages ::
  "transcript_codec \<Rightarrow> rstr \<Rightarrow> rstr list \<Rightarrow> ChatMessage list \<Rightarrow> bool \<Rightarrow> ChatMessage list \<times> bool" where
  "fit_messages tr held unrun messages trimmed =
     (if transcript_fits tr \<lparr>pk_messages = messages, pk_held = held, pk_unrun = unrun\<rparr>
      then (messages, trimmed)
      else case next_turn messages of
             None \<Rightarrow> (messages, trimmed)
           | Some i \<Rightarrow> fit_messages tr held unrun (drop i messages) True)"
  by pat_completeness auto
termination
  by (relation "measure (\<lambda>(tr, held, unrun, messages, trimmed). length messages)")
    (auto dest: next_turn_Some)

declare fit_messages.simps [simp del]

definition fit_transcript ::
  "transcript_codec \<Rightarrow> ChatMessage list \<Rightarrow> rstr \<Rightarrow> rstr list \<Rightarrow> ParkedTranscript" where
  "fit_transcript tr messages held unrun =
     (case fit_messages tr held unrun messages False of
        (kept, trimmed) \<Rightarrow>
          \<lparr>pk_messages = (if trimmed then chat_user TRANSCRIPT_TRIMMED_NOTE # kept else kept),
           pk_held = held, pk_unrun = unrun\<rparr>)"

text \<open>The table: one row per run; the rows of \<open>agent_runs\<close> are a parameter.\<close>

record transcript_row =
  trow_run :: rstr
  trow_payload :: rstr
  trow_updated_at :: instant

definition MAX_RUN_TRANSCRIPT_BYTES :: nat where "MAX_RUN_TRANSCRIPT_BYTES = 1048576"

datatype TranscriptError = Transcript_Invalid | Transcript_Sqlite rstr

definition save_run_transcript ::
  "(rstr \<Rightarrow> bool) \<Rightarrow> transcript_row list \<Rightarrow> rstr \<Rightarrow> rstr \<Rightarrow> instant \<Rightarrow> transcript_row list \<times> (TranscriptError + unit)" where
  "save_run_transcript run_exists rows rid payload at =
     (if str_len payload > MAX_RUN_TRANSCRIPT_BYTES then (rows, Err Transcript_Invalid)
      else if \<not> run_exists rid \<or> \<not> (2 \<le> length payload \<and> length payload \<le> 1048576)
      then (rows, Err (Transcript_Sqlite (lit ''store a run's parked transcript'')))
      else (filter (\<lambda>r. trow_run r \<noteq> rid) rows
              @ [\<lparr>trow_run = rid, trow_payload = payload, trow_updated_at = at\<rparr>], Ok ()))"

definition load_run_transcript :: "transcript_row list \<Rightarrow> rstr \<Rightarrow> rstr option" where
  "load_run_transcript rows rid = map_option trow_payload (find (\<lambda>r. trow_run r = rid) rows)"

definition delete_run_transcript :: "transcript_row list \<Rightarrow> rstr \<Rightarrow> transcript_row list" where
  "delete_run_transcript rows rid = filter (\<lambda>r. trow_run r \<noteq> rid) rows"

section \<open>How a result enters the transcript\<close>

definition REPEAT_NUDGE :: nat where "REPEAT_NUDGE = 4"

definition REPEAT_FAIL :: nat where "REPEAT_FAIL = 7"

definition MAX_TOOL_RESULT_CHARS :: nat where "MAX_TOOL_RESULT_CHARS = 12000"

definition truncate_tool_result :: "rstr \<Rightarrow> rstr" where
  "truncate_tool_result text =
     (if length text \<le> MAX_TOOL_RESULT_CHARS then text
      else take MAX_TOOL_RESULT_CHARS text @ 10 # 0x2026 # lit '' [tool output truncated]'')"

definition truncate_text :: "rstr \<Rightarrow> nat \<Rightarrow> rstr" where
  "truncate_text text limit = (if length text \<le> limit then text else take limit text @ [0x2026])"

definition repeat_nudge :: "nat \<Rightarrow> rstr" where
  "repeat_nudge n = lit ''error: this exact call has been made '' @ decimal n
     @ lit '' times in a row with the same result, so it was not run again. Change approach, or finish and tell the user what is blocking you.''"

definition parse_call_arguments :: "json_codec \<Rightarrow> rstr \<Rightarrow> json option" where
  "parse_call_arguments jc text =
     (case jc_parse jc text of None \<Rightarrow> None | Some v \<Rightarrow> if is_object v then Some v else None)"

definition tool_result_text :: "ToolCallResult \<Rightarrow> rstr" where
  "tool_result_text r =
     (case res_output r of
        Some o' \<Rightarrow> out_content o'
      | None \<Rightarrow>
          let other = ToolOutcome_as_str (rec_outcome (res_record r)) in
          if other = lit ''confirmed'' then lit ''ok (the action was performed)''
          else case rec_reason (res_record r) of
                 None \<Rightarrow> lit ''the tool reported: '' @ other
               | Some reason \<Rightarrow>
                   (case IsolatedText_new (take 300 reason) of
                      Inl _ \<Rightarrow> lit ''the tool reported: '' @ other
                    | Inr isolated \<Rightarrow> lit ''the tool reported: '' @ other @ lit '': '' @ render isolated))"

definition call_fingerprint :: "ToolCall \<Rightarrow> rstr" where
  "call_fingerprint c = tc_name c @ 31 # tc_arguments c"

section \<open>Results owed\<close>

text \<open>
  A provider's rule: an assistant turn that requests calls is followed by one result per call, in order,
  before anything else.
\<close>

fun owed :: "rstr list \<Rightarrow> ChatMessage list \<Rightarrow> rstr list option" where
  "owed pending [] = Some pending"
| "owed pending (m # ms) =
     (case cm_role m of
        Chat_Tool \<Rightarrow>
          (case pending of [] \<Rightarrow> None
           | i # rest \<Rightarrow> if cm_tool_call_id m = Some i then owed rest ms else None)
      | Chat_Assistant \<Rightarrow> if pending = [] then owed (map tc_id (cm_tool_calls m)) ms else None
      | _ \<Rightarrow> if pending = [] then owed [] ms else None)"

definition well_paired :: "ChatMessage list \<Rightarrow> bool" where
  "well_paired ms \<longleftrightarrow> owed [] ms = Some []"

lemma owed_append: "owed p (a @ b) = Option.bind (owed p a) (\<lambda>q. owed q b)"
  by (induction p a rule: owed.induct) (auto split: Role.splits list.splits)

lemma owed_at_assistant:
  assumes "owed p ms = Some q" "i < length ms" "cm_role (ms ! i) = Chat_Assistant"
  shows "owed [] (drop i ms) = Some q"
proof -
  have "owed p (take i ms @ drop i ms) = Some q" using assms(1) by simp
  then obtain r where r: "owed r (drop i ms) = Some q"
    unfolding owed_append by (auto simp: bind_eq_Some_conv)
  moreover have "drop i ms = ms ! i # drop (Suc i) ms" using assms(2) by (simp add: Cons_nth_drop_Suc)
  ultimately have "r = []" using assms(3) by (auto split: if_splits)
  with r show ?thesis by simp
qed

lemma owed_results:
  "length ids = length texts \<Longrightarrow> owed (ids @ rest) (map2 chat_tool ids texts) = Some rest"
  by (induction ids texts rule: list_induct2) auto

text \<open>Only the skeleton of a message matters.\<close>

definition skeleton :: "ChatMessage \<Rightarrow> Role \<times> rstr option \<times> (rstr \<times> rstr) list" where
  "skeleton m = (cm_role m, cm_tool_call_id m, map (\<lambda>c. (tc_id c, tc_name c)) (cm_tool_calls m))"

lemma owed_skeleton:
  assumes "map skeleton a = map skeleton b"
  shows "owed p a = owed p b"
  using assms
proof (induction a arbitrary: b p)
  case (Cons m a)
  then obtain n c where b: "b = n # c" "skeleton m = skeleton n" "map skeleton a = map skeleton c"
    by (cases b) auto
  have "map fst (map (\<lambda>c. (tc_id c, tc_name c)) (cm_tool_calls m))
      = map fst (map (\<lambda>c. (tc_id c, tc_name c)) (cm_tool_calls n))"
    using b(2) by (simp add: skeleton_def)
  then have "map tc_id (cm_tool_calls m) = map tc_id (cm_tool_calls n)" by (simp add: comp_def)
  moreover have "cm_role m = cm_role n" "cm_tool_call_id m = cm_tool_call_id n"
    using b(2) by (simp_all add: skeleton_def)
  ultimately show ?case by (simp only: b(1) owed.simps Cons.IH [OF b(3)])
qed auto

lemma well_paired_skeleton: "map skeleton a = map skeleton b \<Longrightarrow> well_paired a = well_paired b"
  unfolding well_paired_def by (metis owed_skeleton)

section \<open>Trimming keeps what a provider and the search need\<close>

text \<open>What a trim may change: not the skeleton, and not what a search found.\<close>

definition kept :: "json_codec \<Rightarrow> ChatMessage \<Rightarrow> ChatMessage \<Rightarrow> bool" where
  "kept jc m m' \<longleftrightarrow> skeleton m' = skeleton m \<and> groups_in_message (jc_parse jc) m' = groups_in_message (jc_parse jc) m"

lemma kept_refl [simp]: "kept jc m m" by (simp add: kept_def)

lemma kept_trans: "kept jc a b \<Longrightarrow> kept jc b c \<Longrightarrow> kept jc a c" by (simp add: kept_def)

lemma list_all2_kept_trans: "list_all2 (kept jc) a b \<Longrightarrow> list_all2 (kept jc) b c \<Longrightarrow> list_all2 (kept jc) a c"
  by (rule list_all2_trans [OF kept_trans])

lemma placeholder_no_discovery: "\<not> is_discovery_result (result_placeholder t)"
  by (simp add: is_discovery_result_def result_placeholder_def LEFT_OUT_def lit_def)

lemma result_masked:
  assumes "cm_role m = Chat_Tool" "cm_tool_calls m = []" "cm_tool_call_id m = Some call" "\<not> is_discovery_result (cm_text m)"
  shows "kept jc m (chat_tool call (result_placeholder t))"
  using assms by (simp add: kept_def skeleton_def groups_in_message_def groups_in_result_def placeholder_no_discovery)

lemma names_shortened:
  "map (\<lambda>c. (tc_id c, tc_name c)) (map (or_same (shorten_call jc answered)) cs) = map (\<lambda>c. (tc_id c, tc_name c)) cs"
  by (induction cs) (auto simp: or_same_def shorten_call_def split: option.splits)

lemma groups_by_name:
  assumes "map (\<lambda>c. (tc_id c, tc_name c)) cs = map (\<lambda>c. (tc_id c, tc_name c)) ds"
  shows "List.map_filter (\<lambda>c. group_of (tc_name c)) cs = List.map_filter (\<lambda>c. group_of (tc_name c)) ds"
  using assms by (induction cs arbitrary: ds) (auto simp: List.map_filter_simps split: option.splits)

lemma arguments_masked:
  assumes "cm_role m = Chat_Assistant" "cm_tool_call_id m = None"
  shows "kept jc m (assistant_tool_calls (cm_text m) (map (or_same (shorten_call jc answered)) (cm_tool_calls m)))"
  using assms groups_by_name [OF names_shortened, of jc answered "cm_tool_calls m"] names_shortened [of jc answered "cm_tool_calls m"]
  by (simp add: kept_def skeleton_def groups_in_message_def del: map_map)

lemma leave_out_results_kept:
  assumes "list_all is_consistent messages" "\<forall>i \<in> set indices. i < length messages \<and> cm_role (messages ! i) = Chat_Tool"
    and "leave_out_results target unseen indices messages sz acc = (messages', sz', acc')"
  shows "list_all2 (kept jc) messages messages' \<and> list_all is_consistent messages'
    \<and> (\<forall>j < length messages. j \<notin> set indices \<or> unseen \<le> j \<longrightarrow> messages' ! j = messages ! j)"
  using assms
proof (induction indices arbitrary: messages sz acc)
  case (Cons i indices)
  let ?t = "cm_text (messages ! i)"
  consider (stop) "messages' = messages" | (skip) "leave_out_results target unseen indices messages sz acc = (messages', sz', acc')"
    | (mask) call sz1 acc1 where "i < unseen" "cm_tool_call_id (messages ! i) = Some call"
      "\<not> is_discovery_result ?t" "leave_out_results target unseen indices
        (messages[i := chat_tool call (result_placeholder ?t)]) sz1 acc1 = (messages', sz', acc')"
    using Cons.prems(3) by (auto simp: Let_def split: if_splits option.splits)
  then show ?case
  proof cases
    case stop
    with Cons.prems show ?thesis by (simp add: list_all2_refl)
  next
    case skip
    with Cons.IH [OF Cons.prems(1) _ skip] Cons.prems(2) show ?thesis by auto
  next
    case mask
    let ?m = "chat_tool call (result_placeholder ?t)" and ?ms = "messages[i := chat_tool call (result_placeholder ?t)]"
    have i: "i < length messages" "cm_role (messages ! i) = Chat_Tool" using Cons.prems(2) by auto
    then have "is_consistent (messages ! i)" using Cons.prems(1) by (simp add: list_all_length)
    with i(2) have calls: "cm_tool_calls (messages ! i) = []" by (simp add: is_consistent_def)
    have "list_all is_consistent ?ms"
      using Cons.prems(1) i(1) by (simp add: list_all_length nth_list_update)
    moreover have "\<forall>k \<in> set indices. k < length ?ms \<and> cm_role (?ms ! k) = Chat_Tool"
      using Cons.prems(2) by (auto simp: nth_list_update)
    ultimately have ih: "list_all2 (kept jc) ?ms messages' \<and> list_all is_consistent messages'
        \<and> (\<forall>j < length ?ms. j \<notin> set indices \<or> unseen \<le> j \<longrightarrow> messages' ! j = ?ms ! j)"
      by (rule Cons.IH [OF _ _ mask(4)])
    have "kept jc (messages ! i) ?m" by (rule result_masked [OF i(2) calls mask(2,3)])
    then have "list_all2 (kept jc) messages ?ms"
      using i(1) by (simp add: list_all2_conv_all_nth nth_list_update)
    with ih have "list_all2 (kept jc) messages messages'" by (blast intro: list_all2_kept_trans)
    with ih mask(1) show ?thesis by (auto simp: nth_list_update)
  qed
qed (simp add: list_all2_refl)

lemma shorten_messages_kept:
  assumes "list_all is_consistent ms"
  shows "list_all2 (kept jc) ms (fst (shorten_messages jc answered target unseen i ms sz acc))"
  using assms
proof (induction ms arbitrary: i sz acc)
  case (Cons m ms)
  then show ?case
    using arguments_masked [of m jc answered]
    by (auto simp: Let_def list_all2_refl is_consistent_def split: if_splits)
qed simp

lemma shorten_messages_unseen:
  "fst (shorten_messages jc answered target unseen i ms sz acc) ! j = ms ! j"
  if "j < length ms" "cm_role (ms ! j) \<noteq> Chat_Assistant \<or> unseen \<le> i + j"
  using that
proof (induction ms arbitrary: i j sz acc)
  case (Cons m ms)
  then show ?case by (cases j) (auto simp: Let_def)
qed simp

text \<open>The results that are kept whole: of the run's own, the newest six and everything the model has not read.\<close>

definition recent_results :: "ChatMessage list \<Rightarrow> nat \<Rightarrow> nat set" where
  "recent_results messages own = (let rs = result_indices messages own in
     set (drop (length rs - KEEP_RECENT_RESULTS) rs) \<union> {i \<in> set rs. unseen_from messages \<le> i})"

lemma older_not_recent:
  "i \<in> set (drop k (result_indices messages own)) \<Longrightarrow> i \<notin> set (take k (result_indices messages own))"
proof -
  have "distinct (result_indices messages own)" by (simp add: result_indices_def)
  then have "set (take k (result_indices messages own)) \<inter> set (drop k (result_indices messages own)) = {}"
    by (rule set_take_disj_set_drop_if_distinct) simp
  then show "i \<in> set (drop k (result_indices messages own)) \<Longrightarrow> ?thesis" by blast
qed

lemma trim_to_kept:
  assumes "list_all is_consistent messages"
  shows "list_all2 (kept jc) messages (fst (trim_to jc messages own budget target))
    \<and> (\<forall>j < length messages. j < own \<or> cm_role (messages ! j) \<noteq> Chat_Assistant \<and> cm_role (messages ! j) \<noteq> Chat_Tool
         \<or> j \<in> recent_results messages own
         \<longrightarrow> fst (trim_to jc messages own budget target) ! j = messages ! j)"
proof (cases "sum_list (map message_size messages) \<le> budget")
  case False
  let ?rs = "result_indices messages own" and ?unseen = "unseen_from messages"
  let ?older = "take (length ?rs - KEEP_RECENT_RESULTS) ?rs"
  obtain messages1 sz1 acc1 where one: "leave_out_results target ?unseen ?older messages
      (sum_list (map message_size messages)) \<lparr>trm_results = 0, trm_arguments = 0, trm_bytes = 0\<rparr> = (messages1, sz1, acc1)"
    by (metis prod.exhaust)
  have rs: "\<forall>i \<in> set ?rs. own \<le> i \<and> i < length messages \<and> cm_role (messages ! i) = Chat_Tool"
    by (auto simp: result_indices_def)
  then have "\<forall>i \<in> set ?older. i < length messages \<and> cm_role (messages ! i) = Chat_Tool"
    by (meson in_set_takeD)
  note first = leave_out_results_kept [OF assms this one, of jc]
  have len: "length messages1 = length messages" using first by (auto dest: list_all2_lengthD)
  let ?two = "fst (shorten_old_arguments jc messages1 own ?older ?unseen sz1 target acc1)"
  have result: "fst (trim_to jc messages own budget target) = (if sz1 > target then ?two else messages1)"
    using False one by (simp add: trim_to_def Let_def split: prod.split)
  obtain answered where two: "?two = take own messages1
      @ fst (shorten_messages jc answered target ?unseen own (drop own messages1) sz1 acc1)"
    by (simp add: shorten_old_arguments_def Let_def)
  have "list_all is_consistent (drop own messages1)"
    using first by (auto simp: list_all_iff dest: in_set_dropD)
  from shorten_messages_kept [OF this, of jc answered target ?unseen own sz1 acc1]
  have "list_all2 (kept jc) (take own messages1 @ drop own messages1) ?two"
    unfolding two by (intro list_all2_appendI) (auto simp: list_all2_refl)
  then have kept2: "list_all2 (kept jc) messages1 ?two" by simp
  have role: "cm_role (messages1 ! j) = cm_role (messages ! j)" if "j < length messages" for j
    using first that by (auto simp: list_all2_conv_all_nth kept_def skeleton_def)
  have same2: "?two ! j = messages1 ! j" if "j < length messages"
      "j < own \<or> cm_role (messages ! j) \<noteq> Chat_Assistant \<or> ?unseen \<le> j" for j
  proof (cases "j < own")
    case True
    with that(1) len show ?thesis by (simp add: two nth_append)
  next
    case False
    then have "fst (shorten_messages jc answered target ?unseen own (drop own messages1) sz1 acc1) ! (j - own)
        = drop own messages1 ! (j - own)"
      using that len role [OF that(1)] by (intro shorten_messages_unseen) auto
    with False that(1) len show ?thesis by (simp add: two nth_append)
  qed
  have "list_all2 (kept jc) messages (fst (trim_to jc messages own budget target))"
    using first list_all2_kept_trans [OF _ kept2] by (simp add: result)
  moreover have "fst (trim_to jc messages own budget target) ! j = messages ! j"
    if j: "j < length messages" and why: "j < own \<or> cm_role (messages ! j) \<noteq> Chat_Assistant \<and> cm_role (messages ! j) \<noteq> Chat_Tool
         \<or> j \<in> recent_results messages own" for j
  proof -
    have "j \<notin> set ?older \<or> ?unseen \<le> j"
    proof (cases "j \<in> set ?older")
      case True
      then have "j \<in> set ?rs" by (meson in_set_takeD)
      with True why rs older_not_recent [of j "length ?rs - KEEP_RECENT_RESULTS" messages own]
      show ?thesis by (auto simp: recent_results_def Let_def)
    qed simp
    then have "messages1 ! j = messages ! j" using first j by auto
    moreover have "?two ! j = messages1 ! j"
      using why rs by (intro same2 [OF j]) (auto simp: recent_results_def Let_def dest: in_set_dropD)
    ultimately show ?thesis by (simp add: result)
  qed
  ultimately show ?thesis by blast
qed (simp add: trim_to_def list_all2_refl)

lemma list_all2_kept_skeleton: "list_all2 (kept jc) a b \<Longrightarrow> map skeleton a = map skeleton b"
  by (induction rule: list_all2_induct) (simp_all add: kept_def)

lemma list_all2_kept_found: "list_all2 (kept jc) a b \<Longrightarrow> found_groups (jc_parse jc) a = found_groups (jc_parse jc) b"
  unfolding found_groups_def by (induction rule: list_all2_induct) (auto simp: kept_def)


section \<open>Parking keeps whole turns\<close>

lemma fit_messages_owed:
  assumes "owed [] messages = Some q" "fit_messages tr held unrun messages trimmed = (rest, t)"
  shows "owed [] rest = Some q \<and> (rest = messages \<and> t = trimmed
    \<or> t \<and> (\<exists>k. 0 < k \<and> k < length messages \<and> cm_role (messages ! k) = Chat_Assistant \<and> rest = drop k messages))"
  using assms
proof (induction tr held unrun messages trimmed rule: fit_messages.induct)
  case (1 tr held unrun messages trimmed)
  let ?p = "\<lparr>pk_messages = messages, pk_held = held, pk_unrun = unrun\<rparr>"
  note step = fit_messages.simps [of tr held unrun messages trimmed]
  show ?case
  proof (cases "transcript_fits tr ?p \<or> next_turn messages = None")
    case True
    then have "rest = messages \<and> t = trimmed" using "1.prems"(2) by (auto simp: step split: if_splits)
    with "1.prems"(1) show ?thesis by simp
  next
    case False
    then obtain i where i: "\<not> transcript_fits tr ?p" "next_turn messages = Some i" by auto
    note turn = next_turn_Some [OF i(2)]
    have rest: "fit_messages tr held unrun (drop i messages) True = (rest, t)"
      using "1.prems"(2) i by (simp add: step)
    have "owed [] (drop i messages) = Some q"
      using turn "1.prems"(1) by (intro owed_at_assistant) auto
    from "1.IH" [OF i this rest] have ih: "owed [] rest = Some q"
      "t \<and> (rest = drop i messages \<or> (\<exists>k. 0 < k \<and> k < length (drop i messages)
         \<and> cm_role (drop i messages ! k) = Chat_Assistant \<and> rest = drop k (drop i messages)))" by auto
    from ih(2) have "\<exists>k. 0 < k \<and> k < length messages \<and> cm_role (messages ! k) = Chat_Assistant \<and> rest = drop k messages"
    proof (elim conjE disjE exE)
      fix k assume "0 < k" "k < length (drop i messages)" "cm_role (drop i messages ! k) = Chat_Assistant"
        "rest = drop k (drop i messages)"
      with turn show ?thesis by (intro exI [of _ "i + k"]) (simp add: add.commute)
    qed (use turn in \<open>auto intro: exI [of _ i]\<close>)
    with ih show ?thesis by blast
  qed
qed

definition with_results :: "ParkedTranscript \<Rightarrow> rstr list \<Rightarrow> ChatMessage list" where
  "with_results p texts = pk_messages p @ map2 chat_tool (pk_held p # pk_unrun p) texts"

text \<open>C13: a run that waits for its owner can be continued whatever was dropped to store it. When the
  transcript owes results exactly to the held call and the calls after it, what is kept of it is a suffix
  that begins with a whole turn (after the note that says so), and with one result for each of those calls
  it is again a transcript every provider accepts.\<close>

theorem parked_transcript_continues:
  assumes "owed [] messages = Some (held # unrun)" "length texts = Suc (length unrun)"
  shows "well_paired (with_results (fit_transcript tr messages held unrun) texts)
    \<and> (\<exists>k. pk_messages (fit_transcript tr messages held unrun) =
          (if k = 0 then messages else chat_user TRANSCRIPT_TRIMMED_NOTE # drop k messages)
        \<and> (k = 0 \<or> k < length messages \<and> cm_role (messages ! k) = Chat_Assistant))"
proof -
  obtain rest t where fit: "fit_messages tr held unrun messages False = (rest, t)" by force
  note kept_turns = fit_messages_owed [OF assms(1) fit]
  have p: "fit_transcript tr messages held unrun = \<lparr>pk_messages = (if t then chat_user TRANSCRIPT_TRIMMED_NOTE # rest else rest),
      pk_held = held, pk_unrun = unrun\<rparr>"
    by (simp add: fit_transcript_def fit)
  have "owed [] (pk_messages (fit_transcript tr messages held unrun)) = Some (held # unrun)"
    using kept_turns by (simp add: p)
  with owed_results [of "held # unrun" texts "[]"] assms(2)
  have "well_paired (with_results (fit_transcript tr messages held unrun) texts)"
    by (simp add: well_paired_def with_results_def owed_append p)
  moreover have "\<exists>k. pk_messages (fit_transcript tr messages held unrun) =
          (if k = 0 then messages else chat_user TRANSCRIPT_TRIMMED_NOTE # drop k messages)
        \<and> (k = 0 \<or> k < length messages \<and> cm_role (messages ! k) = Chat_Assistant)"
  proof (cases t)
    case True
    with kept_turns obtain k where "0 < k" "k < length messages" "cm_role (messages ! k) = Chat_Assistant"
      "rest = drop k messages" by auto
    with True show ?thesis by (intro exI [of _ k]) (simp add: p)
  qed (use kept_turns in \<open>simp add: p exI [of _ 0]\<close>)
  ultimately show ?thesis by blast
qed

end
