(* ===== verification/Skill.thy ===== *)
theory Skill
  imports Memory Text_Tools Ordered_Map
begin

text \<open>
  Procedures (\<open>jarvis-core/src/skill.rs\<close>): a revision of a skill, its states and its promotion by someone
  other than its author, and the selection of the revisions one request may be offered. A procedure names
  tools and never authority. Whether a tool identifier is acceptable and the Unicode tables are arguments;
  an identifier is kept as its text.
\<close>

section \<open>Vocabulary\<close>

definition MAX_SKILL_DESCRIPTION_CHARS :: nat where "MAX_SKILL_DESCRIPTION_CHARS = 8192"

definition MAX_SKILL_STEP_CHARS :: nat where "MAX_SKILL_STEP_CHARS = 1024"

definition MAX_SKILL_STEPS :: nat where "MAX_SKILL_STEPS = 64"

definition MAX_SKILL_DROPPED_FIELDS :: nat where "MAX_SKILL_DROPPED_FIELDS = 64"

definition MAX_SKILL_DROPPED_FIELD_NAME_CHARS :: nat where "MAX_SKILL_DROPPED_FIELD_NAME_CHARS = 128"

definition MAX_SKILL_VERSION_CHARS :: nat where "MAX_SKILL_VERSION_CHARS = 64"

datatype SkillState = Skill_Proposed | Skill_Active | Skill_Archived

datatype InvalidSkill =
    Skill_Description | Skill_Steps | Skill_StepText | Skill_Version | Skill_ToolIdentifier
  | Skill_ToolVersion | Skill_Source | Skill_ModelAuthoredTrust | PromotionUnattributed
  | PromotionSelfApproval | Skill_ApproverTooLong | Skill_WrongState rstr SkillState
  | Skill_DroppedFields | DuplicateStepPosition | Skill_SelfReference

fun SkillState_as_str :: "SkillState \<Rightarrow> rstr" where
  "SkillState_as_str Skill_Proposed = lit ''proposed''"
| "SkillState_as_str Skill_Active = lit ''active''"
| "SkillState_as_str Skill_Archived = lit ''archived''"

definition SkillState_all :: "SkillState list" where
  "SkillState_all = [Skill_Proposed, Skill_Active, Skill_Archived]"

definition SkillState_is_usable :: "SkillState \<Rightarrow> bool" where
  "SkillState_is_usable s \<longleftrightarrow> s = Skill_Active"

definition SkillState_from_str :: "rstr \<Rightarrow> InvalidSkill + SkillState" where
  "SkillState_from_str s =
     (if s = lit ''proposed'' then Ok Skill_Proposed
      else if s = lit ''active'' then Ok Skill_Active
      else if s = lit ''archived'' then Ok Skill_Archived
      else Err Skill_Version)"

interpretation skill_states: wire_vocabulary SkillState_as_str SkillState_from_str SkillState_all
proof
  fix x s
  show "SkillState_from_str (SkillState_as_str x) = Inr x" by (cases x) (simp_all add: SkillState_from_str_def)
  show "SkillState_from_str s = Inr x \<Longrightarrow> s = SkillState_as_str x"
    by (auto simp: SkillState_from_str_def split: if_splits)
  show "x \<in> set SkillState_all" by (cases x) (simp_all add: SkillState_all_def)
qed

datatype DropReason = AuthorityGrant | ToolSelection | PreApproval | ApproverSelection | Unrepresented

fun DropReason_as_str :: "DropReason \<Rightarrow> rstr" where
  "DropReason_as_str AuthorityGrant = lit ''authority_grant''"
| "DropReason_as_str ToolSelection = lit ''tool_selection''"
| "DropReason_as_str PreApproval = lit ''pre_approval''"
| "DropReason_as_str ApproverSelection = lit ''approver_selection''"
| "DropReason_as_str Unrepresented = lit ''unrepresented''"

definition DropReason_all :: "DropReason list" where
  "DropReason_all = [AuthorityGrant, ToolSelection, PreApproval, ApproverSelection, Unrepresented]"

definition is_authority_bearing :: "DropReason \<Rightarrow> bool" where
  "is_authority_bearing r \<longleftrightarrow> r \<noteq> Unrepresented"

definition DropReason_from_str :: "rstr \<Rightarrow> InvalidSkill + DropReason" where
  "DropReason_from_str s =
     (if s = lit ''authority_grant'' then Ok AuthorityGrant
      else if s = lit ''tool_selection'' then Ok ToolSelection
      else if s = lit ''pre_approval'' then Ok PreApproval
      else if s = lit ''approver_selection'' then Ok ApproverSelection
      else if s = lit ''unrepresented'' then Ok Unrepresented
      else Err Skill_DroppedFields)"

interpretation drop_reasons: wire_vocabulary DropReason_as_str DropReason_from_str DropReason_all
proof
  fix x s
  show "DropReason_from_str (DropReason_as_str x) = Inr x" by (cases x) (simp_all add: DropReason_from_str_def)
  show "DropReason_from_str s = Inr x \<Longrightarrow> s = DropReason_as_str x"
    by (auto simp: DropReason_from_str_def split: if_splits)
  show "x \<in> set DropReason_all" by (cases x) (simp_all add: DropReason_all_def)
qed

record SkillDroppedField =
  drop_name :: rstr
  drop_reason :: DropReason

definition SkillDroppedField_new :: "rstr \<Rightarrow> DropReason \<Rightarrow> InvalidSkill + SkillDroppedField" where
  "SkillDroppedField_new name reason =
     (let trimmed = trim name in
      if trimmed = [] \<or> length trimmed > MAX_SKILL_DROPPED_FIELD_NAME_CHARS then Err Skill_DroppedFields
      else Ok \<lparr>drop_name = trimmed, drop_reason = reason\<rparr>)"

section \<open>Steps and revisions\<close>

record SkillStep =
  step_position :: "16 word"
  step_tool :: rstr
  step_tool_version :: rstr
  step_instruction :: rstr

definition skill_version_char :: "uchar \<Rightarrow> bool" where
  "skill_version_char c \<longleftrightarrow> is_ascii_alphanumeric c \<or> c \<in> {46, 45, 95, 43}"

definition SkillStep_new ::
  "(rstr \<Rightarrow> bool) \<Rightarrow> 16 word \<Rightarrow> rstr \<Rightarrow> rstr \<Rightarrow> rstr \<Rightarrow> InvalidSkill + SkillStep" where
  "SkillStep_new validate_tool position tool tool_version instruction =
     (if \<not> validate_tool tool then Err Skill_ToolIdentifier
      else if tool_version = [] \<or> length tool_version > MAX_SKILL_VERSION_CHARS
           \<or> \<not> list_all skill_version_char tool_version then Err Skill_ToolVersion
      else let trimmed = trim instruction in
        if trimmed = [] \<or> length trimmed > MAX_SKILL_STEP_CHARS then Err Skill_StepText
        else Ok \<lparr>step_position = position, step_tool = tool, step_tool_version = tool_version,
                 step_instruction = trimmed\<rparr>)"

record SkillRevisionParts =
  srp_skill_id :: ident
  srp_workspace_id :: ident
  srp_revision_id :: ident
  srp_version :: rstr
  srp_description :: rstr
  srp_steps :: "SkillStep list"
  srp_source :: MemorySource
  srp_sensitivity :: Sensitivity
  srp_state :: SkillState
  srp_supersedes :: "ident option"
  srp_dropped_fields :: "SkillDroppedField list"
  srp_run_id :: "ident option"
  srp_created_by_actor_id :: rstr
  srp_correlation_id :: ident
  srp_created_at :: instant

record SkillRevision =
  sk_skill_id :: ident
  sk_workspace_id :: ident
  sk_revision_id :: ident
  sk_version :: rstr
  sk_description :: rstr
  sk_steps :: "SkillStep list"
  sk_source :: MemorySource
  sk_sensitivity :: Sensitivity
  sk_state :: SkillState
  sk_supersedes :: "ident option"
  sk_superseded_by :: "ident option"
  sk_dropped_fields :: "SkillDroppedField list"
  sk_promoted_by_actor_id :: "rstr option"
  sk_promoted_at :: "instant option"
  sk_run_id :: "ident option"
  sk_created_by_actor_id :: rstr
  sk_correlation_id :: ident
  sk_created_at :: instant
  sk_updated_at :: instant

definition SkillRevision_build :: "SkillRevisionParts \<Rightarrow> bool \<Rightarrow> InvalidSkill + SkillRevision" where
  "SkillRevision_build p require_promotion =
     (let description = trim (srp_description p);
          model_produced = is_model_produced (msrc_kind (srp_source p)) in
      if description = [] \<or> length description > MAX_SKILL_DESCRIPTION_CHARS then Err Skill_Description
      else if srp_version p = [] \<or> length (srp_version p) > MAX_SKILL_VERSION_CHARS then Err Skill_Version
      else if srp_steps p = [] \<or> length (srp_steps p) > MAX_SKILL_STEPS then Err Skill_Steps
      else if length (srp_dropped_fields p) > MAX_SKILL_DROPPED_FIELDS then Err Skill_DroppedFields
      else if srp_supersedes p = Some (srp_skill_id p) \<or> srp_revision_id p = srp_skill_id p
      then Err Skill_SelfReference
      else if \<not> distinct (map step_position (srp_steps p)) then Err DuplicateStepPosition
      else if model_produced \<and> msrc_trust (srp_source p) = Mem_Authoritative then Err Skill_ModelAuthoredTrust
      else if require_promotion \<and> model_produced \<and> srp_state p = Skill_Active then Err Skill_ModelAuthoredTrust
      else Ok \<lparr>sk_skill_id = srp_skill_id p, sk_workspace_id = srp_workspace_id p,
               sk_revision_id = srp_revision_id p, sk_version = srp_version p, sk_description = description,
               sk_steps = sort_key step_position (srp_steps p), sk_source = srp_source p,
               sk_sensitivity = srp_sensitivity p, sk_state = srp_state p, sk_supersedes = srp_supersedes p,
               sk_superseded_by = None, sk_dropped_fields = srp_dropped_fields p,
               sk_promoted_by_actor_id = None, sk_promoted_at = None, sk_run_id = srp_run_id p,
               sk_created_by_actor_id = srp_created_by_actor_id p,
               sk_correlation_id = srp_correlation_id p, sk_created_at = srp_created_at p,
               sk_updated_at = srp_created_at p\<rparr>)"

definition SkillRevision_new :: "SkillRevisionParts \<Rightarrow> InvalidSkill + SkillRevision" where
  "SkillRevision_new p = SkillRevision_build p True"

definition SkillRevision_from_stored :: "SkillRevisionParts \<Rightarrow> InvalidSkill + SkillRevision" where
  "SkillRevision_from_stored p = SkillRevision_build p False"

definition skill_is_usable :: "SkillRevision \<Rightarrow> bool" where
  "skill_is_usable r = SkillState_is_usable (sk_state r)"

definition promote_revision :: "SkillRevision \<Rightarrow> rstr \<Rightarrow> instant \<Rightarrow> InvalidSkill + SkillRevision" where
  "promote_revision r approver_actor_id at =
     (if sk_state r \<noteq> Skill_Proposed then Err (Skill_WrongState (lit ''be promoted'') (sk_state r))
      else let approver = trim approver_actor_id in
        if approver = [] then Err PromotionUnattributed
        else if length approver > MAX_APPROVER_ID_CHARS then Err Skill_ApproverTooLong
        else if approver = sk_created_by_actor_id r then Err PromotionSelfApproval
        else Ok (r\<lparr>sk_state := Skill_Active, sk_promoted_by_actor_id := Some approver,
                   sk_promoted_at := Some at, sk_updated_at := at\<rparr>))"

definition archive_revision :: "SkillRevision \<Rightarrow> instant \<Rightarrow> InvalidSkill + SkillRevision" where
  "archive_revision r at =
     (if sk_state r = Skill_Archived then Err (Skill_WrongState (lit ''be archived'') (sk_state r))
      else Ok (r\<lparr>sk_state := Skill_Archived, sk_updated_at := at\<rparr>))"

definition restore_revision :: "SkillRevision \<Rightarrow> instant \<Rightarrow> InvalidSkill + SkillRevision" where
  "restore_revision r at =
     (if sk_state r \<noteq> Skill_Archived then Err (Skill_WrongState (lit ''be restored'') (sk_state r))
      else Ok (r\<lparr>sk_state := (if sk_promoted_by_actor_id r \<noteq> None \<or> \<not> is_model_produced (msrc_kind (sk_source r))
                  then Skill_Active else Skill_Proposed), sk_updated_at := at\<rparr>))"

definition superseded_by_revision :: "SkillRevision \<Rightarrow> ident \<Rightarrow> InvalidSkill + SkillRevision" where
  "superseded_by_revision r successor =
     (if successor = sk_revision_id r then Err Skill_SelfReference
      else Ok (r\<lparr>sk_superseded_by := Some successor\<rparr>))"

definition with_stored_lifecycle ::
  "SkillRevision \<Rightarrow> rstr option \<Rightarrow> instant option \<Rightarrow> ident option \<Rightarrow> instant \<Rightarrow> SkillRevision" where
  "with_stored_lifecycle r promoted_by promoted_at superseded_by updated_at =
     r\<lparr>sk_promoted_by_actor_id := (case promoted_by of None \<Rightarrow> None
         | Some actor \<Rightarrow> if trim actor = [] then None else Some (trim actor)),
       sk_promoted_at := promoted_at, sk_superseded_by := superseded_by, sk_updated_at := updated_at\<rparr>"

definition render_procedure :: "SkillRevision \<Rightarrow> rstr" where
  "render_procedure r = sk_description r @ concat (map (\<lambda>s.
     10 # lit ''- '' @ step_tool s @ [64] @ step_tool_version s @ lit '': '' @ step_instruction s) (sk_steps r))"

definition estimate_skill_tokens :: "SkillRevision \<Rightarrow> 32 word" where
  "estimate_skill_tokens r =
     (let characters = length (render_procedure r) in max (u32_saturating ((characters + 2) div 3)) 1)"

section \<open>Which revisions a request is offered\<close>

definition MAX_SELECTED_SKILLS :: nat where "MAX_SELECTED_SKILLS = 8"

datatype SkillIneligibility =
    Skill_ForeignWorkspace | Skill_AboveDestination Sensitivity Sensitivity | Skill_NotUsable SkillState
  | Skill_Superseded | Skill_NoTextMatch

record SkillQuery =
  skq_workspace_id :: ident
  skq_destination :: Sensitivity
  skq_text :: rstr

definition segments_of :: "unicode \<Rightarrow> rstr \<Rightarrow> rstr list" where
  "segments_of u word = map (uni_lowercase u)
     (filter (\<lambda>s. s \<noteq> []) (split_where (\<lambda>c. \<not> uni_alphanumeric u c) word))"

definition contains_token :: "unicode \<Rightarrow> rstr \<Rightarrow> rstr \<Rightarrow> bool" where
  "contains_token u haystack needle \<longleftrightarrow> needle \<in> set (split_where (\<lambda>c. \<not> uni_alphanumeric u c) haystack)"

definition matches_word :: "unicode \<Rightarrow> rstr \<Rightarrow> rstr \<Rightarrow> bool" where
  "matches_word u haystack word \<longleftrightarrow>
     segments_of u word \<noteq> [] \<and> list_all (contains_token u haystack) (segments_of u word)"

definition skill_haystack :: "unicode \<Rightarrow> SkillRevision \<Rightarrow> rstr" where
  "skill_haystack u r = uni_lowercase u (render_procedure r)"

definition matches_text :: "unicode \<Rightarrow> SkillRevision \<Rightarrow> rstr \<Rightarrow> bool" where
  "matches_text u r text = list_all (matches_word u (skill_haystack u r)) (split_whitespace [] text)"

definition TRIGGER_STOPWORDS :: "rstr list" where
  "TRIGGER_STOPWORDS = map lit [''the'', ''and'', ''for'', ''with'', ''from'', ''that'', ''this'', ''into'',
     ''then'', ''when'', ''your'', ''you'', ''are'', ''was'', ''all'', ''any'', ''can'', ''use'', ''its'',
     ''per'', ''via'', ''will'', ''should'', ''een'', ''het'', ''van'', ''voor'', ''met'', ''naar'', ''die'',
     ''dat'', ''wat'', ''als'', ''dan'', ''ook'', ''aan'', ''uit'', ''bij'', ''zijn'', ''deze'', ''dit'', ''niet'']"

definition TRIGGER_COVERAGE_PERCENT :: nat where "TRIGGER_COVERAGE_PERCENT = 75"

definition MIN_TRIGGER_WORDS :: nat where "MIN_TRIGGER_WORDS = 2"

definition singular :: "rstr \<Rightarrow> rstr" where
  "singular word = (case strip_suffix (lit ''s'') word of
       Some base \<Rightarrow> if length base \<ge> 3 then base else word | None \<Rightarrow> word)"

text \<open>The \<open>BTreeSet\<close> of words.\<close>

definition distinctive_words :: "unicode \<Rightarrow> rstr \<Rightarrow> rstr set" where
  "distinctive_words u text = set (map singular
     (filter (\<lambda>w. length w \<ge> 3 \<and> w \<notin> set TRIGGER_STOPWORDS)
       (map (uni_lowercase u) (split_where (\<lambda>c. \<not> uni_alphanumeric u c) text))))"

definition trigger_line :: "SkillRevision \<Rightarrow> rstr" where
  "trigger_line r = (case find (\<lambda>l. l \<noteq> []) (map trim (text_lines (sk_description r))) of
       None \<Rightarrow> [] | Some l \<Rightarrow> l)"

definition matches_trigger :: "unicode \<Rightarrow> SkillRevision \<Rightarrow> rstr \<Rightarrow> bool" where
  "matches_trigger u r request =
     (let wanted = distinctive_words u (trigger_line r) in
      if card wanted < MIN_TRIGGER_WORDS then False
      else let found = card (wanted \<inter> distinctive_words u request)
           in found * 100 \<ge> card wanted * TRIGGER_COVERAGE_PERCENT)"

definition skill_is_eligible :: "unicode \<Rightarrow> SkillQuery \<Rightarrow> SkillRevision \<Rightarrow> SkillIneligibility + unit" where
  "skill_is_eligible u q r =
     (if sk_workspace_id r \<noteq> skq_workspace_id q then Err Skill_ForeignWorkspace
      else if \<not> can_flow_to (sk_sensitivity r) (skq_destination q)
      then Err (Skill_AboveDestination (sk_sensitivity r) (skq_destination q))
      else if \<not> skill_is_usable r then Err (Skill_NotUsable (sk_state r))
      else if sk_superseded_by r \<noteq> None then Err Skill_Superseded
      else if skq_text q \<noteq> [] \<and> \<not> matches_text u r (skq_text q) \<and> \<not> matches_trigger u r (skq_text q)
      then Err Skill_NoTextMatch
      else Ok ())"

datatype SkillSelectionReason = FullTextMatch | NoTextRequirement

record SelectedSkill =
  sel_revision :: SkillRevision
  sel_reason :: SkillSelectionReason

record SkillSelection =
  ssel_offered :: "SelectedSkill list"
  ssel_excluded :: "(ident \<times> SkillIneligibility) list"
  ssel_dropped :: "ident list"
  ssel_eligible_total :: nat

definition selected :: "SkillQuery \<Rightarrow> SkillRevision \<Rightarrow> SelectedSkill" where
  "selected q r = \<lparr>sel_revision = r,
     sel_reason = (if skq_text q = [] then NoTextRequirement else FullTextMatch)\<rparr>"

text \<open>Newest first, then by identifier.\<close>

definition offer_order :: "SelectedSkill \<Rightarrow> int \<times> ident" where
  "offer_order s = (- sk_created_at (sel_revision s), sk_revision_id (sel_revision s))"

definition select_skills :: "unicode \<Rightarrow> SkillRevision list \<Rightarrow> SkillQuery \<Rightarrow> SkillSelection" where
  "select_skills u revisions q =
     (let eligible = map (selected q) (filter (\<lambda>r. is_ok (skill_is_eligible u q r)) revisions);
          ordered = sort_key offer_order eligible
      in \<lparr>ssel_offered = take MAX_SELECTED_SKILLS ordered,
          ssel_excluded = List.map_filter (\<lambda>r. case skill_is_eligible u q r of
              Inl e \<Rightarrow> Some (sk_revision_id r, e) | Inr _ \<Rightarrow> None) revisions,
          ssel_dropped = map (\<lambda>s. sk_revision_id (sel_revision s)) (drop MAX_SELECTED_SKILLS ordered),
          ssel_eligible_total = length eligible\<rparr>)"

definition skill_context_item :: "SkillRevision \<Rightarrow> ContextPriority \<Rightarrow> ContextError + ContextItem" where
  "skill_context_item r priority =
     (let trust = (case permitted_trust (msrc_kind (sk_source r)) of Mem_Untrusted \<Rightarrow> Untrusted | _ \<Rightarrow> Derived)
      in and_then (ContextSource_new Src_Skill (lit ''skill:'' @ sk_revision_id r)) (\<lambda>source.
           ContextItem_new source trust (sk_sensitivity r) priority (estimate_skill_tokens r)
             Reason_RetrievedMatch True))"

section \<open>Well-formed revisions\<close>

definition skill_wf :: "SkillRevision \<Rightarrow> bool" where
  "skill_wf r \<longleftrightarrow> sk_description r \<noteq> [] \<and> length (sk_description r) \<le> MAX_SKILL_DESCRIPTION_CHARS
     \<and> sk_version r \<noteq> [] \<and> length (sk_version r) \<le> MAX_SKILL_VERSION_CHARS
     \<and> sk_steps r \<noteq> [] \<and> length (sk_steps r) \<le> MAX_SKILL_STEPS
     \<and> sorted (map step_position (sk_steps r)) \<and> distinct (map step_position (sk_steps r))
     \<and> length (sk_dropped_fields r) \<le> MAX_SKILL_DROPPED_FIELDS \<and> sk_revision_id r \<noteq> sk_skill_id r
     \<and> \<not> (is_model_produced (msrc_kind (sk_source r)) \<and> msrc_trust (sk_source r) = Mem_Authoritative)"

lemma distinct_map_sort_key [simp]: "distinct (map f (sort_key g xs)) = distinct (map f xs)"
  by (metis mset_eq_imp_distinct_iff mset_map mset_sort)

lemma sort_key_Nil_iff [simp]: "sort_key f xs = [] \<longleftrightarrow> xs = []"
  by (metis length_0_conv length_sort)

lemma SkillRevision_build_Ok:
  assumes "SkillRevision_build p rp = Ok r"
  shows "skill_wf r" "sk_superseded_by r = None" "sk_promoted_by_actor_id r = None"
    "sk_state r = srp_state p" "sk_source r = srp_source p" "sk_created_by_actor_id r = srp_created_by_actor_id p"
    "sk_revision_id r = srp_revision_id p" "sk_skill_id r = srp_skill_id p"
    "sk_workspace_id r = srp_workspace_id p" "sk_sensitivity r = srp_sensitivity p"
    "rp \<Longrightarrow> \<not> (is_model_produced (msrc_kind (sk_source r)) \<and> sk_state r = Skill_Active)"
  using assms by (auto simp: SkillRevision_build_def skill_wf_def Let_def split: if_splits)

section \<open>Promotion is somebody else's decision\<close>

inductive skill_step :: "SkillRevision \<Rightarrow> SkillRevision \<Rightarrow> bool" where
  promoted: "promote_revision r approver at = Ok r' \<Longrightarrow> skill_step r r'"
| archived: "archive_revision r at = Ok r' \<Longrightarrow> skill_step r r'"
| restored: "restore_revision r at = Ok r' \<Longrightarrow> skill_step r r'"
| superseded: "superseded_by_revision r successor = Ok r' \<Longrightarrow> skill_step r r'"

text \<open>What is active was written by a person or decided by one who is not its author.\<close>

definition promotion_attributed :: "SkillRevision \<Rightarrow> bool" where
  "promotion_attributed r \<longleftrightarrow>
     (sk_state r = Skill_Active \<longrightarrow> is_model_produced (msrc_kind (sk_source r))
        \<longrightarrow> sk_promoted_by_actor_id r \<noteq> None)
     \<and> (\<forall>a. sk_promoted_by_actor_id r = Some a \<longrightarrow> a \<noteq> [] \<and> trim a = a \<and> length a \<le> MAX_APPROVER_ID_CHARS
          \<and> a \<noteq> sk_created_by_actor_id r)"

lemma skill_step_facts:
  assumes "skill_step r r'"
  shows "sk_source r' = sk_source r" "sk_created_by_actor_id r' = sk_created_by_actor_id r"
    "sk_revision_id r' = sk_revision_id r" "sk_skill_id r' = sk_skill_id r"
    "sk_workspace_id r' = sk_workspace_id r" "sk_sensitivity r' = sk_sensitivity r"
    "sk_steps r' = sk_steps r" "sk_description r' = sk_description r"
    "skill_wf r \<Longrightarrow> skill_wf r'" "promotion_attributed r \<Longrightarrow> promotion_attributed r'"
  using assms
  by (cases; auto simp: promote_revision_def archive_revision_def restore_revision_def superseded_by_revision_def
      skill_wf_def promotion_attributed_def Let_def split: if_splits)+

text \<open>C21: no procedure an agent wrote becomes usable on its author's word. From the moment a revision is
  made, through any promotions, archivals, restorations and supersessions, its prose, steps, provenance and
  disclosure stay what they were, it stays well formed, and if it is active although a model wrote it then
  somebody whose identity differs from the author's recorded one promoted it.\<close>

theorem agent_skill_promoted_by_another:
  assumes "SkillRevision_new p = Ok r" "skill_step\<^sup>*\<^sup>* r r'"
  shows "skill_wf r' \<and> sk_steps r' = sk_steps r \<and> sk_description r' = sk_description r
    \<and> sk_source r' = srp_source p \<and> sk_sensitivity r' = srp_sensitivity p
    \<and> (sk_state r' = Skill_Active \<and> is_model_produced (msrc_kind (srp_source p))
        \<longrightarrow> (\<exists>a. sk_promoted_by_actor_id r' = Some a \<and> a \<noteq> [] \<and> a \<noteq> srp_created_by_actor_id p))"
proof -
  note new = SkillRevision_build_Ok [OF assms(1) [unfolded SkillRevision_new_def]]
  from assms(2) have "skill_wf r' \<and> sk_steps r' = sk_steps r \<and> sk_description r' = sk_description r
      \<and> sk_source r' = sk_source r \<and> sk_sensitivity r' = sk_sensitivity r
      \<and> sk_created_by_actor_id r' = sk_created_by_actor_id r \<and> promotion_attributed r'"
  proof (induction rule: rtranclp_induct)
    case base
    have "promotion_attributed r" using new by (auto simp: promotion_attributed_def)
    with new(1) show ?case by simp
  next
    case (step y z)
    then show ?case using skill_step_facts [OF step(2)] by simp
  qed
  with new show ?thesis by (auto simp: promotion_attributed_def)
qed

section \<open>Selection\<close>

lemma set_map_filter_inl:
  "set (List.map_filter (\<lambda>r. case f r of Inl e \<Rightarrow> Some (g r, e) | Inr _ \<Rightarrow> None) xs)
     = {(g r, e) | r e. r \<in> set xs \<and> f r = Inl e}"
  by (induction xs) (auto simp: List.map_filter_simps split: option.splits sum.splits)

lemma selected_revision [simp]: "sel_revision (selected q r) = r" by (simp add: selected_def)

lemma sort_key_inj_perm:
  assumes "mset xs = mset ys" "inj_on f (set xs)"
  shows "sort_key f xs = sort_key f ys"
proof (rule properties_for_sort_key)
  show "mset (sort_key f ys) = mset xs" using assms(1) by simp
  show "sorted (map f (sort_key f ys))" by simp
  have same: "set xs = set ys" using assms(1) by (metis set_mset_mset)
  show "filter (\<lambda>x. f k = f x) (sort_key f ys) = filter (\<lambda>x. f k = f x) xs" if "k \<in> set (sort_key f ys)" for k
  proof -
    have k: "k \<in> set xs" using that same by simp
    have *: "filter (\<lambda>x. f k = f x) zs = filter (\<lambda>x. k = x) zs" if "set zs = set xs" for zs
      using that k assms(2) by (intro filter_cong) (auto dest: inj_onD)
    have "filter (\<lambda>x. k = x) zs = replicate (count (mset zs) k) k" for zs :: "'a list"
      by (induction zs) auto
    with * [of xs] * [of "sort_key f ys"] same assms(1) show ?thesis by simp
  qed
qed


section \<open>Where the code departs from its documentation\<close>

text \<open>An objective of white space makes a query without text, and then everything usable is eligible.\<close>

theorem blank_objective_selects_all:
  "skq_text q = [] \<Longrightarrow> sk_workspace_id r = skq_workspace_id q \<Longrightarrow> can_flow_to (sk_sensitivity r) (skq_destination q)
    \<Longrightarrow> sk_state r = Skill_Active \<Longrightarrow> sk_superseded_by r = None \<Longrightarrow> skill_is_eligible u q r = Ok ()"
  by (simp add: skill_is_eligible_def skill_is_usable_def SkillState_is_usable_def)

text \<open>The approver is trimmed and the author is not, so an author recorded with white space around its
  identity is not recognised.\<close>

theorem padded_author_promotes_itself:
  assumes "sk_state r = Skill_Proposed" "sk_created_by_actor_id r = 32 # lit ''agent''"
  shows "\<exists>r'. promote_revision r (sk_created_by_actor_id r) at = Ok r' \<and> sk_state r' = Skill_Active"
  using assms by (simp add: promote_revision_def trim_def lit_def is_whitespace_def MAX_APPROVER_ID_CHARS_def)

text \<open>The check against superseding itself compares the skill, not the revision.\<close>

theorem revision_may_supersede_itself:
  assumes "SkillRevision_new p = Ok r" "srp_supersedes p \<noteq> Some (srp_skill_id p)"
  shows "\<exists>r'. SkillRevision_new (p\<lparr>srp_supersedes := Some (srp_revision_id p)\<rparr>) = Ok r'
    \<and> sk_supersedes r' = Some (sk_revision_id r')"
  using assms by (auto simp: SkillRevision_new_def SkillRevision_build_def Let_def split: if_splits)

end
