(* ===== verification/Skill_Store.thy ===== *)
theory Skill_Store
  imports Skill Run_Store
begin

text \<open>
  The table of skill revisions (\<open>jarvis-storage/src/skill_repository.rs\<close>, migration
  \<open>0010_skill_revisions.sql\<close>) with its \<open>CHECK\<close> clauses, its primary key, its unique index on a skill's
  version and its references. The two JSON columns are kept decoded; identifiers and instants are kept as
  values. The rows of the workspace and run tables are arguments. A transition reads the revision and then
  writes it guarded by the version the caller saw; the two statements are separate definitions.
\<close>

section \<open>Rows\<close>

record StoredStep =
  sst_position :: "16 word"
  sst_tool :: rstr
  sst_tool_version :: rstr
  sst_instruction :: rstr

record StoredDrop =
  sdr_name :: rstr
  sdr_reason :: rstr

record skill_row =
  skr_id :: ident
  skr_skill_id :: ident
  skr_workspace_id :: ident
  skr_version :: rstr
  skr_sensitivity :: rstr
  skr_description :: rstr
  skr_steps :: "StoredStep list"
  skr_source_kind :: rstr
  skr_source_locator :: rstr
  skr_source_trust :: rstr
  skr_source_excerpt_hash :: "rstr option"
  skr_state :: rstr
  skr_dropped_fields :: "StoredDrop list"
  skr_promoted_by_actor_id :: "rstr option"
  skr_promoted_at :: "instant option"
  skr_supersedes :: "ident option"
  skr_superseded_by :: "ident option"
  skr_run_id :: "ident option"
  skr_created_by_actor_id :: rstr
  skr_correlation_id :: ident
  skr_created_at :: instant
  skr_updated_at :: instant
  skr_version_counter :: nat

datatype SkillStoreError =
    StoredSkillInvalid rstr
  | SkillRevisionNotFound
  | SkillPromotionRefused rstr
  | SkillTransitionRefused rstr
  | SkillConflict
  | Skill_Sqlite rstr

definition between :: "nat \<Rightarrow> nat \<Rightarrow> rstr \<Rightarrow> bool" where
  "between lo hi s \<longleftrightarrow> lo \<le> length s \<and> length s \<le> hi"

definition trust_matches_kind :: "rstr \<Rightarrow> rstr \<Rightarrow> bool" where
  "trust_matches_kind kind trust \<longleftrightarrow>
     (kind \<in> {lit ''user_statement'', lit ''user_correction'', lit ''provider_record''} \<and> trust = lit ''authoritative'')
     \<or> (kind \<in> {lit ''tool_observation'', lit ''document'', lit ''model_inference''} \<and> trust = lit ''derived'')
     \<or> (kind = lit ''external_content'' \<and> trust = lit ''untrusted'')"

text \<open>The \<open>CHECK\<close> clauses.\<close>

definition skill_checks :: "skill_row \<Rightarrow> bool" where
  "skill_checks r \<longleftrightarrow> length (skr_id r) = 36 \<and> length (skr_skill_id r) = 36 \<and> between 1 64 (skr_version r)
     \<and> skr_sensitivity r \<in> set (map lit [''public'', ''internal'', ''confidential'', ''restricted''])
     \<and> between 1 8192 (skr_description r) \<and> 1 \<le> length (skr_steps r) \<and> length (skr_steps r) \<le> 64
     \<and> between 1 512 (skr_source_locator r)
     \<and> (case skr_source_excerpt_hash r of None \<Rightarrow> True | Some h \<Rightarrow> length h = 64
          \<and> list_all (\<lambda>c. is_ascii_digit c \<or> (97 \<le> c \<and> c \<le> 102)) h)
     \<and> skr_state r \<in> set (map lit [''proposed'', ''active'', ''archived''])
     \<and> length (skr_dropped_fields r) \<le> 64
     \<and> (case skr_promoted_by_actor_id r of None \<Rightarrow> True | Some a \<Rightarrow> between 1 128 a)
     \<and> between 1 128 (skr_created_by_actor_id r) \<and> length (skr_correlation_id r) = 36
     \<and> 1 \<le> skr_version_counter r \<and> trust_matches_kind (skr_source_kind r) (skr_source_trust r)
     \<and> (skr_state r = lit ''active'' \<longrightarrow> skr_source_kind r = lit ''model_inference''
          \<longrightarrow> skr_promoted_by_actor_id r \<noteq> None)
     \<and> (skr_promoted_by_actor_id r = None \<longleftrightarrow> skr_promoted_at r = None)
     \<and> skr_supersedes r \<noteq> Some (skr_id r) \<and> skr_superseded_by r \<noteq> Some (skr_id r)
     \<and> skr_skill_id r \<noteq> skr_id r"

definition references_exist :: "skill_row list \<Rightarrow> skill_row \<Rightarrow> bool" where
  "references_exist rows r \<longleftrightarrow>
     (\<forall>i. skr_supersedes r = Some i \<or> skr_superseded_by r = Some i \<longrightarrow> i \<in> skr_id ` set rows)"

definition encode_row :: "SkillRevision \<Rightarrow> skill_row" where
  "encode_row r = \<lparr>skr_id = sk_revision_id r, skr_skill_id = sk_skill_id r,
     skr_workspace_id = sk_workspace_id r, skr_version = sk_version r,
     skr_sensitivity = Sensitivity_as_str (sk_sensitivity r), skr_description = sk_description r,
     skr_steps = map (\<lambda>s. \<lparr>sst_position = step_position s, sst_tool = step_tool s,
        sst_tool_version = step_tool_version s, sst_instruction = step_instruction s\<rparr>) (sk_steps r),
     skr_source_kind = MemorySourceKind_as_str (msrc_kind (sk_source r)),
     skr_source_locator = msrc_locator (sk_source r),
     skr_source_trust = MemoryTrust_as_str (msrc_trust (sk_source r)),
     skr_source_excerpt_hash = msrc_excerpt_hash (sk_source r), skr_state = SkillState_as_str (sk_state r),
     skr_dropped_fields = map (\<lambda>d. \<lparr>sdr_name = drop_name d, sdr_reason = DropReason_as_str (drop_reason d)\<rparr>)
       (sk_dropped_fields r),
     skr_promoted_by_actor_id = sk_promoted_by_actor_id r, skr_promoted_at = sk_promoted_at r,
     skr_supersedes = sk_supersedes r, skr_superseded_by = sk_superseded_by r, skr_run_id = sk_run_id r,
     skr_created_by_actor_id = sk_created_by_actor_id r, skr_correlation_id = sk_correlation_id r,
     skr_created_at = sk_created_at r, skr_updated_at = sk_updated_at r, skr_version_counter = 1\<rparr>"

definition record_skill_revision ::
  "(skill_row \<Rightarrow> bool) \<Rightarrow> skill_row list \<Rightarrow> SkillRevision \<Rightarrow> skill_row list \<times> (SkillStoreError + unit)" where
  "record_skill_revision parents rows r =
     (let row = encode_row r in
      if \<not> skill_checks row \<or> \<not> parents row \<or> \<not> references_exist (rows @ [row]) row
         \<or> skr_id row \<in> skr_id ` set rows
         \<or> (\<exists>o' \<in> set rows. skr_workspace_id o' = skr_workspace_id row \<and> skr_skill_id o' = skr_skill_id row
              \<and> skr_version o' = skr_version row)
      then (rows, Err (Skill_Sqlite (lit ''record a skill revision'')))
      else (rows @ [row], Ok ()))"

section \<open>Reading\<close>

definition decode_step :: "(rstr \<Rightarrow> bool) \<Rightarrow> StoredStep \<Rightarrow> SkillStoreError + SkillStep" where
  "decode_step validate_tool s = map_err (\<lambda>_. StoredSkillInvalid (lit ''steps''))
     (SkillStep_new validate_tool (sst_position s) (sst_tool s) (sst_tool_version s) (sst_instruction s))"

definition decode_drop :: "StoredDrop \<Rightarrow> SkillStoreError + SkillDroppedField" where
  "decode_drop d = map_err (\<lambda>_. StoredSkillInvalid (lit ''dropped_fields''))
     (and_then (DropReason_from_str (sdr_reason d)) (\<lambda>reason. SkillDroppedField_new (sdr_name d) reason))"

definition decode_source :: "skill_row \<Rightarrow> SkillStoreError + MemorySource" where
  "decode_source r =
     and_then (map_err (\<lambda>_. StoredSkillInvalid (lit ''source_kind'')) (MemorySourceKind_from_str (skr_source_kind r))) (\<lambda>kind.
     and_then (map_err (\<lambda>_. StoredSkillInvalid (lit ''source_trust'')) (MemoryTrust_from_str (skr_source_trust r))) (\<lambda>trust.
       map_err (\<lambda>_. StoredSkillInvalid (lit ''source_kind''))
         (MemorySource_new kind (skr_source_locator r) trust (skr_source_excerpt_hash r))))"

definition revision_field :: "InvalidSkill \<Rightarrow> rstr" where
  "revision_field e = (case e of Skill_ModelAuthoredTrust \<Rightarrow> lit ''state'' | Skill_Steps \<Rightarrow> lit ''steps''
     | Skill_Description \<Rightarrow> lit ''description'' | _ \<Rightarrow> lit ''skill'')"

definition decode_revision :: "(rstr \<Rightarrow> bool) \<Rightarrow> skill_row \<Rightarrow> SkillStoreError + SkillRevision" where
  "decode_revision validate_tool r =
     and_then (collect_results (decode_step validate_tool) (skr_steps r)) (\<lambda>steps.
     and_then (collect_results decode_drop (skr_dropped_fields r)) (\<lambda>drops.
     and_then (decode_source r) (\<lambda>source.
     and_then (map_err (\<lambda>_. StoredSkillInvalid (lit ''sensitivity'')) (Sensitivity_from_str (skr_sensitivity r))) (\<lambda>sensitivity.
     and_then (map_err (\<lambda>_. StoredSkillInvalid (lit ''state'')) (SkillState_from_str (skr_state r))) (\<lambda>st.
     and_then (map_err (\<lambda>e. StoredSkillInvalid (revision_field e)) (SkillRevision_from_stored
         \<lparr>srp_skill_id = skr_skill_id r, srp_workspace_id = skr_workspace_id r, srp_revision_id = skr_id r,
          srp_version = skr_version r, srp_description = skr_description r, srp_steps = steps,
          srp_source = source, srp_sensitivity = sensitivity, srp_state = st,
          srp_supersedes = skr_supersedes r, srp_dropped_fields = drops, srp_run_id = skr_run_id r,
          srp_created_by_actor_id = skr_created_by_actor_id r, srp_correlation_id = skr_correlation_id r,
          srp_created_at = skr_created_at r\<rparr>)) (\<lambda>revision.
       Ok (with_stored_lifecycle revision (skr_promoted_by_actor_id r) (skr_promoted_at r)
             (skr_superseded_by r) (skr_updated_at r))))))))"

definition find_skill_revision_state ::
  "skill_row list \<Rightarrow> ident \<Rightarrow> (rstr \<Rightarrow> bool) \<Rightarrow> SkillStoreError + (SkillRevision \<times> nat)" where
  "find_skill_revision_state rows rid validate_tool =
     and_then (ok_or (find (\<lambda>r. skr_id r = rid) rows) SkillRevisionNotFound) (\<lambda>row.
       map_ok (\<lambda>r. (r, skr_version_counter row)) (decode_revision validate_tool row))"

definition find_skill_revision ::
  "skill_row list \<Rightarrow> ident \<Rightarrow> (rstr \<Rightarrow> bool) \<Rightarrow> SkillStoreError + SkillRevision" where
  "find_skill_revision rows rid validate_tool = map_ok fst (find_skill_revision_state rows rid validate_tool)"

text \<open>\<open>ORDER BY unixepoch(created_at) DESC, id DESC\<close>: whole seconds, then the identifier.\<close>

definition recent_first :: "skill_row list \<Rightarrow> skill_row list" where
  "recent_first rows = rev (sort_key (\<lambda>r. (skr_created_at r div 1000000000, skr_id r)) rows)"

definition read_usable_skill_revisions ::
  "skill_row list \<Rightarrow> ident \<Rightarrow> nat \<Rightarrow> (rstr \<Rightarrow> bool) \<Rightarrow> SkillStoreError + SkillRevision list" where
  "read_usable_skill_revisions rows workspace limit validate_tool =
     collect_results (decode_revision validate_tool) (take limit
       (recent_first (filter (\<lambda>r. skr_workspace_id r = workspace \<and> skr_state r = lit ''active'') rows)))"

definition read_workspace_skill_revisions ::
  "skill_row list \<Rightarrow> ident \<Rightarrow> (rstr \<Rightarrow> bool) \<Rightarrow> SkillStoreError + SkillRevision list" where
  "read_workspace_skill_revisions rows workspace validate_tool =
     collect_results (decode_revision validate_tool) (recent_first (filter (\<lambda>r. skr_workspace_id r = workspace) rows))"

definition read_skill_revisions ::
  "skill_row list \<Rightarrow> ident \<Rightarrow> ident \<Rightarrow> (rstr \<Rightarrow> bool) \<Rightarrow> SkillStoreError + SkillRevision list" where
  "read_skill_revisions rows workspace skill validate_tool =
     collect_results (decode_revision validate_tool)
       (recent_first (filter (\<lambda>r. skr_workspace_id r = workspace \<and> skr_skill_id r = skill) rows))"

definition read_workspace_skill_revision_states ::
  "skill_row list \<Rightarrow> ident \<Rightarrow> nat \<Rightarrow> (rstr \<Rightarrow> bool) \<Rightarrow> SkillStoreError + (SkillRevision \<times> nat) list" where
  "read_workspace_skill_revision_states rows workspace limit validate_tool =
     collect_results (\<lambda>row. map_ok (\<lambda>r. (r, skr_version_counter row)) (decode_revision validate_tool row))
       (take limit (recent_first (filter (\<lambda>r. skr_workspace_id r = workspace) rows)))"

section \<open>Transitions\<close>

definition promotion_error :: "InvalidSkill \<Rightarrow> SkillStoreError" where
  "promotion_error e = (case e of
       PromotionUnattributed \<Rightarrow> SkillPromotionRefused (lit ''no approver was named'')
     | PromotionSelfApproval \<Rightarrow> SkillPromotionRefused (lit ''the approver is the revision's own author'')
     | Skill_ApproverTooLong \<Rightarrow> StoredSkillInvalid (lit ''approver_actor_id'')
     | Skill_WrongState _ st \<Rightarrow> SkillPromotionRefused (case st of
           Skill_Active \<Rightarrow> lit ''the revision is already active''
         | Skill_Archived \<Rightarrow> lit ''the revision is archived; restore it instead''
         | Skill_Proposed \<Rightarrow> lit ''the revision is not a proposal'')
     | Skill_ModelAuthoredTrust \<Rightarrow> StoredSkillInvalid (lit ''state'')
     | _ \<Rightarrow> StoredSkillInvalid (lit ''promotion''))"

definition classify_skill_write_failure :: "skill_row list \<Rightarrow> ident \<Rightarrow> nat \<Rightarrow> SkillStoreError" where
  "classify_skill_write_failure rows rid expected =
     (case find_skill_revision_state rows rid (\<lambda>_. True) of
        Inr (_, counter) \<Rightarrow> if counter \<noteq> expected then SkillConflict
           else SkillTransitionRefused (lit ''the revision is not in the state this transition requires'')
      | Inl e \<Rightarrow> e)"

text \<open>A guarded \<open>UPDATE\<close>: a row that would break a \<open>CHECK\<close> fails the statement and changes nothing.\<close>

definition skill_update ::
  "(skill_row \<Rightarrow> bool) \<Rightarrow> (skill_row \<Rightarrow> skill_row) \<Rightarrow> rstr \<Rightarrow> skill_row list
    \<Rightarrow> skill_row list \<times> (SkillStoreError + nat)" where
  "skill_update hit change operation rows =
     (if \<exists>r \<in> set rows. hit r \<and> \<not> (skill_checks (change r) \<and> references_exist rows (change r))
      then (rows, Err (Skill_Sqlite operation))
      else (sql_update hit change rows, Ok (rows_affected hit rows)))"

definition write_promotion ::
  "skill_row list \<Rightarrow> ident \<Rightarrow> nat \<Rightarrow> SkillRevision \<Rightarrow> instant \<Rightarrow> skill_row list \<times> (SkillStoreError + SkillRevision)" where
  "write_promotion rows rid expected promoted at =
     (case skill_update (\<lambda>r. skr_id r = rid \<and> skr_state r = lit ''proposed'' \<and> skr_version_counter r = expected)
         (\<lambda>r. r\<lparr>skr_state := lit ''active'', skr_promoted_by_actor_id := sk_promoted_by_actor_id promoted,
                skr_promoted_at := Some at, skr_updated_at := at,
                skr_version_counter := skr_version_counter r + 1\<rparr>)
         (lit ''promote a skill revision'') rows of
        (rows', Inl e) \<Rightarrow> (rows', Err e)
      | (rows', Inr n) \<Rightarrow> (rows', if n = 0 then Err (classify_skill_write_failure rows' rid expected) else Ok promoted))"

definition promote_skill_revision ::
  "skill_row list \<Rightarrow> ident \<Rightarrow> nat \<Rightarrow> rstr \<Rightarrow> instant \<Rightarrow> (rstr \<Rightarrow> bool) \<Rightarrow> skill_row list \<times> (SkillStoreError + SkillRevision)" where
  "promote_skill_revision rows rid expected approver at validate_tool =
     (case and_then (find_skill_revision rows rid validate_tool) (\<lambda>current.
             map_err promotion_error (promote_revision current approver at)) of
        Inl e \<Rightarrow> (rows, Err e)
      | Inr promoted \<Rightarrow> write_promotion rows rid expected promoted at)"

definition write_skill_state ::
  "skill_row list \<Rightarrow> ident \<Rightarrow> rstr \<Rightarrow> nat \<Rightarrow> instant \<Rightarrow> skill_row list \<times> (SkillStoreError + unit)" where
  "write_skill_state rows rid st expected at =
     (case skill_update (\<lambda>r. skr_id r = rid \<and> skr_version_counter r = expected)
         (\<lambda>r. r\<lparr>skr_state := st, skr_updated_at := at, skr_version_counter := skr_version_counter r + 1\<rparr>)
         (lit ''write a skill revision's state'') rows of
        (rows', Inl e) \<Rightarrow> (rows', Err e)
      | (rows', Inr n) \<Rightarrow> (rows', if n = 0 then Err (classify_skill_write_failure rows' rid expected) else Ok ()))"

definition archive_skill_revision ::
  "skill_row list \<Rightarrow> ident \<Rightarrow> nat \<Rightarrow> instant \<Rightarrow> (rstr \<Rightarrow> bool) \<Rightarrow> skill_row list \<times> (SkillStoreError + SkillRevision)" where
  "archive_skill_revision rows rid expected at validate_tool =
     (case and_then (find_skill_revision rows rid validate_tool) (\<lambda>current.
             map_err (\<lambda>_. SkillTransitionRefused (lit ''the revision is already archived'')) (archive_revision current at)) of
        Inl e \<Rightarrow> (rows, Err e)
      | Inr archived \<Rightarrow> map_prod id (map_ok (\<lambda>_. archived)) (write_skill_state rows rid (lit ''archived'') expected at))"

definition restore_skill_revision ::
  "skill_row list \<Rightarrow> ident \<Rightarrow> nat \<Rightarrow> instant \<Rightarrow> (rstr \<Rightarrow> bool) \<Rightarrow> skill_row list \<times> (SkillStoreError + SkillRevision)" where
  "restore_skill_revision rows rid expected at validate_tool =
     (case and_then (find_skill_revision rows rid validate_tool) (\<lambda>current.
             map_err (\<lambda>_. SkillTransitionRefused (lit ''the revision is not archived'')) (restore_revision current at)) of
        Inl e \<Rightarrow> (rows, Err e)
      | Inr restored \<Rightarrow> map_prod id (map_ok (\<lambda>_. restored))
          (write_skill_state rows rid (SkillState_as_str (sk_state restored)) expected at))"

definition supersede_skill_revision ::
  "skill_row list \<Rightarrow> ident \<Rightarrow> ident \<Rightarrow> skill_row list \<times> (SkillStoreError + unit)" where
  "supersede_skill_revision rows replaced successor =
     (let own = find (\<lambda>r. skr_id r = replaced) rows;
          related = length (filter (\<lambda>r. (skr_id r = replaced \<or> skr_id r = successor)
                       \<and> Some (skr_skill_id r) = map_option skr_skill_id own) rows)
      in if replaced = successor
         then (rows, Err (SkillTransitionRefused (lit ''a revision cannot be replaced by itself'')))
         else if successor \<notin> skr_id ` set rows then (rows, Err SkillRevisionNotFound)
         else if related \<noteq> 2
         then (rows, Err (SkillTransitionRefused
                (lit ''the two revisions belong to different procedures, so the chain would leave its skill'')))
         else case skill_update (\<lambda>r. skr_id r = replaced)
                (\<lambda>r. r\<lparr>skr_superseded_by := Some successor, skr_version_counter := skr_version_counter r + 1\<rparr>)
                (lit ''record a skill supersession'') rows of
              (rows', Inl e) \<Rightarrow> (rows', Err e)
            | (rows', Inr n) \<Rightarrow> (rows', if n = 0 then Err SkillRevisionNotFound else Ok ()))"

text \<open>A deleted row is also forgotten where it is referred to (\<open>ON DELETE SET NULL\<close>).\<close>

definition forget_reference :: "ident \<Rightarrow> skill_row \<Rightarrow> skill_row" where
  "forget_reference rid r =
     r\<lparr>skr_supersedes := (if skr_supersedes r = Some rid then None else skr_supersedes r),
       skr_superseded_by := (if skr_superseded_by r = Some rid then None else skr_superseded_by r)\<rparr>"

definition delete_skill_revision ::
  "skill_row list \<Rightarrow> ident \<Rightarrow> nat \<Rightarrow> skill_row list \<times> (SkillStoreError + unit)" where
  "delete_skill_revision rows rid expected =
     (if \<exists>r \<in> set rows. (skr_supersedes r = Some rid \<or> skr_superseded_by r = Some rid) \<and> skr_id r \<noteq> rid
      then (rows, Err (SkillTransitionRefused (lit ''another revision declares a supersession with this one, so deleting it would erase one leg of that declaration'')))
      else if \<exists>r \<in> set rows. skr_id r = rid \<and> skr_version_counter r = expected
      then (map (forget_reference rid)
              (filter (\<lambda>r. \<not> (skr_id r = rid \<and> skr_version_counter r = expected)) rows), Ok ())
      else (rows, case find_skill_revision_state rows rid (\<lambda>_. True) of
              Inr _ \<Rightarrow> Err SkillConflict
            | Inl e \<Rightarrow> Err e))"

section \<open>The table stays sound\<close>

definition skills_inv :: "skill_row list \<Rightarrow> bool" where
  "skills_inv rows \<longleftrightarrow> distinct (map skr_id rows) \<and> (\<forall>r \<in> set rows. skill_checks r \<and> references_exist rows r)
     \<and> (\<forall>r \<in> set rows. \<forall>o' \<in> set rows. skr_workspace_id r = skr_workspace_id o'
          \<longrightarrow> skr_skill_id r = skr_skill_id o' \<longrightarrow> skr_version r = skr_version o' \<longrightarrow> r = o')"

inductive skills_step :: "skill_row list \<Rightarrow> skill_row list \<Rightarrow> bool" where
  "skills_step rows (fst (record_skill_revision parents rows r))"
| "skills_step rows (fst (write_promotion rows rid expected promoted at))"
| "skills_step rows (fst (write_skill_state rows rid st expected at))"
| "skills_step rows (fst (supersede_skill_revision rows replaced successor))"
| "skills_step rows (fst (delete_skill_revision rows rid expected))"

lemma references_mono: "references_exist rows r \<Longrightarrow> skr_id ` set rows \<subseteq> skr_id ` set rows' \<Longrightarrow> references_exist rows' r"
  by (auto simp: references_exist_def)

lemma references_append: "references_exist rows r \<Longrightarrow> references_exist (rows @ new) r"
  by (auto simp: references_exist_def)

lemma record_keeps_skills: "skills_inv rows \<Longrightarrow> skills_inv (fst (record_skill_revision parents rows r))"
  by (auto simp: record_skill_revision_def skills_inv_def Let_def image_iff intro: references_append)

definition keeps_identity :: "(skill_row \<Rightarrow> skill_row) \<Rightarrow> bool" where
  "keeps_identity change \<longleftrightarrow> (\<forall>r. skr_id (change r) = skr_id r \<and> skr_workspace_id (change r) = skr_workspace_id r
     \<and> skr_skill_id (change r) = skr_skill_id r \<and> skr_version (change r) = skr_version r)"

lemma sql_update_map: "sql_update hit change rows = map (\<lambda>r. if hit r then change r else r) rows"
  by (simp add: sql_update_def)

lemma update_keeps_skills:
  assumes "skills_inv rows" "keeps_identity change"
  shows "skills_inv (fst (skill_update hit change operation rows))"
proof (cases "\<exists>r \<in> set rows. hit r \<and> \<not> (skill_checks (change r) \<and> references_exist rows (change r))")
  case False
  let ?rows = "map (\<lambda>r. if hit r then change r else r) rows"
  have ids: "map skr_id ?rows = map skr_id rows" using assms(2) by (simp add: keeps_identity_def)
  then have same: "skr_id ` set ?rows = skr_id ` set rows" by (metis set_map)
  have "\<forall>r \<in> set ?rows. skill_checks r \<and> references_exist ?rows r"
    using False assms(1) references_mono [OF _ equalityD2 [OF same]] by (auto simp: skills_inv_def)
  moreover have "r = o'" if "r \<in> set ?rows" "o' \<in> set ?rows" "skr_workspace_id r = skr_workspace_id o'"
      "skr_skill_id r = skr_skill_id o'" "skr_version r = skr_version o'" for r o'
  proof -
    from that(1,2) obtain a b where ab: "a \<in> set rows" "r = (if hit a then change a else a)"
      "b \<in> set rows" "o' = (if hit b then change b else b)" by auto
    then have "a = b" using that(3-5) assms by (auto simp: skills_inv_def keeps_identity_def split: if_splits)
    with ab show ?thesis by simp
  qed
  moreover have "distinct (map skr_id ?rows)" using assms(1) unfolding ids by (simp add: skills_inv_def)
  ultimately have "skills_inv ?rows" by (simp only: skills_inv_def) blast
  moreover have "fst (skill_update hit change operation rows) = ?rows"
    using False by (auto simp: skill_update_def sql_update_map)
  ultimately show ?thesis by simp
qed (use assms in \<open>simp add: skill_update_def\<close>)

lemma fst_case_result: "fst (case p of (a, Inl e) \<Rightarrow> (a, g e) | (a, Inr n) \<Rightarrow> (a, f a n)) = fst p"
  by (simp split: prod.split sum.split)

lemma promotion_keeps_skills: "skills_inv rows \<Longrightarrow> skills_inv (fst (write_promotion rows rid expected promoted at))"
  unfolding write_promotion_def fst_case_result by (rule update_keeps_skills) (simp_all add: keeps_identity_def)

lemma write_state_keeps_skills: "skills_inv rows \<Longrightarrow> skills_inv (fst (write_skill_state rows rid st expected at))"
  unfolding write_skill_state_def fst_case_result by (rule update_keeps_skills) (simp_all add: keeps_identity_def)

lemma supersede_keeps_skills: "skills_inv rows \<Longrightarrow> skills_inv (fst (supersede_skill_revision rows replaced successor))"
  by (simp add: supersede_skill_revision_def Let_def fst_case_result update_keeps_skills keeps_identity_def)

lemma forget_reference_simps [simp]:
  "skr_id (forget_reference rid r) = skr_id r" "skr_workspace_id (forget_reference rid r) = skr_workspace_id r"
  "skr_skill_id (forget_reference rid r) = skr_skill_id r" "skr_version (forget_reference rid r) = skr_version r"
  by (simp_all add: forget_reference_def)

lemma delete_keeps_skills:
  assumes "skills_inv rows"
  shows "skills_inv (fst (delete_skill_revision rows rid expected))"
proof (cases "(\<exists>r \<in> set rows. (skr_supersedes r = Some rid \<or> skr_superseded_by r = Some rid) \<and> skr_id r \<noteq> rid)
    \<or> \<not> (\<exists>r \<in> set rows. skr_id r = rid \<and> skr_version_counter r = expected)")
  case False
  let ?left = "filter (\<lambda>r. \<not> (skr_id r = rid \<and> skr_version_counter r = expected)) rows"
  let ?rows = "map (forget_reference rid) ?left"
  have d: "distinct (map skr_id rows)" using assms by (simp add: skills_inv_def)
  have left: "set ?left = {r \<in> set rows. skr_id r \<noteq> rid}"
    using False d by (auto simp: distinct_map inj_on_def)
  have same: "forget_reference rid r = r" if "r \<in> set ?left" for r
  proof -
    have "r \<in> set rows" "skr_id r \<noteq> rid" using that unfolding left by auto
    then have "skr_supersedes r \<noteq> Some rid \<and> skr_superseded_by r \<noteq> Some rid" using False by auto
    then show ?thesis by (simp add: forget_reference_def)
  qed
  have rows: "?rows = ?left" by (rule map_idI) (rule same)
  have refs: "references_exist ?left r" if "r \<in> set ?left" for r
  proof -
    have "r \<in> set rows" "skr_id r \<noteq> rid" using that left by auto
    then have "skr_supersedes r \<noteq> Some rid \<and> skr_superseded_by r \<noteq> Some rid" "references_exist rows r"
      using False assms by (auto simp: skills_inv_def)
    moreover have "i \<noteq> rid \<Longrightarrow> i \<in> skr_id ` set rows \<Longrightarrow> i \<in> skr_id ` set ?left" for i
      unfolding left by auto
    ultimately show ?thesis by (auto simp: references_exist_def)
  qed
  have "distinct (map skr_id ?left)" using d by (rule distinct_map_filter)
  moreover have "\<forall>r \<in> set ?left. skill_checks r" using assms by (simp add: skills_inv_def)
  moreover have "\<forall>r \<in> set ?left. \<forall>o' \<in> set ?left. skr_workspace_id r = skr_workspace_id o'
          \<longrightarrow> skr_skill_id r = skr_skill_id o' \<longrightarrow> skr_version r = skr_version o' \<longrightarrow> r = o'"
    using assms by (simp add: skills_inv_def)
  ultimately have "skills_inv ?left" using refs by (simp only: skills_inv_def) blast
  moreover have "fst (delete_skill_revision rows rid expected) = ?rows"
    using False by (auto simp: delete_skill_revision_def)
  ultimately show ?thesis by (simp only: rows)
qed (use assms in \<open>auto simp: delete_skill_revision_def\<close>)


end
