(* ===== verification/Project_Laws.thy ===== *)
theory Project_Laws
  imports Project
begin

text \<open>
  The laws of projects: the tables stay sound through any writes, a workspace never touches the projects of
  another, and the journal a run is shown always fits the fence it is put in.
\<close>

section \<open>The tables stay sound\<close>

definition folder_ok :: "rstr \<Rightarrow> bool" where
  "folder_ok folder \<longleftrightarrow> length folder \<le> MAX_FOLDER_CHARS \<and> 92 \<notin> set folder \<and> 58 \<notin> set folder
     \<and> lit ''..'' \<notin> set (split_where is_slash folder) \<and> (folder \<noteq> [] \<longrightarrow> \<not> is_slash (hd folder))"

definition project_ok :: "StoredProject \<Rightarrow> bool" where
  "project_ok p \<longleftrightarrow> prj_name p \<noteq> [] \<and> length (prj_name p) \<le> MAX_NAME_CHARS \<and> \<not> list_ex is_control (prj_name p)
     \<and> length (prj_goal p) \<le> MAX_GOAL_CHARS \<and> length (prj_guidance p) \<le> MAX_GUIDANCE_CHARS
     \<and> folder_ok (prj_folder p)
     \<and> prj_daily_run_limit p \<le> MAX_DAILY_RUN_LIMIT \<and> prj_daily_token_limit p \<le> MAX_DAILY_TOKEN_LIMIT"

definition project_key :: "StoredProject \<Rightarrow> ident \<times> rstr" where
  "project_key p = (prj_workspace_id p, nocase (prj_name p))"

definition projects_inv :: "project_db \<Rightarrow> bool" where
  "projects_inv db \<longleftrightarrow> distinct (map prj_id (pdb_projects db)) \<and> distinct (map project_key (pdb_projects db))
     \<and> (\<forall>p \<in> set (pdb_projects db). project_ok p \<and> length (prj_id p) = 36)
     \<and> (\<forall>n \<in> set (pdb_notes db). pnote_project_id n \<in> prj_id ` set (pdb_projects db)
          \<and> pnote_body n \<noteq> [] \<and> length (pnote_body n) \<le> MAX_NOTE_CHARS)
     \<and> distinct (map fst (pdb_links db)) \<and> (\<forall>l \<in> set (pdb_links db). snd l \<in> prj_id ` set (pdb_projects db))"

inductive projects_step :: "project_db \<Rightarrow> project_db \<Rightarrow> bool" where
  "projects_step db (fst (create_project workspace_exists db pid workspace new now))"
| "project_ok p \<Longrightarrow> projects_step db (fst (write_project db workspace p))"
| "projects_step db (fst (delete_project db workspace key))"
| "projects_step db (fst (add_project_note db nid pid kind body rid now))"
| "projects_step db (fst (link_project db lkind ref_id pid))"
| "projects_step db (fst (set_project_link db lkind ref_id target))"

lemma slash_kept: "is_slash (if c = 92 then 47 else c) = is_slash c" "is_slash 47" "is_slash 92"
  by (simp_all add: is_slash_def)

lemma split_slash_map:
  "split_where is_slash (map (\<lambda>c. if c = 92 then 47 else c) s)
     = map (map (\<lambda>c. if c = 92 then 47 else c)) (split_where is_slash s)"
proof (induction s)
  case (Cons c s)
  then show ?case by (cases "split_where is_slash s") (auto simp: slash_kept)
qed simp

lemma split_where_parts: "w \<in> set (split_where P s) \<Longrightarrow> list_all (\<lambda>c. \<not> P c) w"
proof (induction s arbitrary: w)
  case (Cons c s)
  then show ?case by (cases "split_where P s") (auto split: if_splits)
qed simp

lemma dots_kept:
  assumes "lit ''..'' \<notin> set (split_where is_slash s)"
  shows "lit ''..'' \<notin> set (split_where is_slash (map (\<lambda>c. if c = 92 then 47 else c) s))"
proof
  assume "lit ''..'' \<in> set (split_where is_slash (map (\<lambda>c. if c = 92 then 47 else c) s))"
  then obtain w where w: "w \<in> set (split_where is_slash s)" "lit ''..'' = map (\<lambda>c. if c = 92 then 47 else c) w"
    unfolding split_slash_map by auto
  then have "list_all (\<lambda>c. \<not> is_slash c) w" using split_where_parts by blast
  then have "map (\<lambda>c. if c = 92 then 47 else c) w = w" by (induction w) (auto simp: is_slash_def)
  with w assms show False by simp
qed

lemma check_folder_ok:
  assumes "check_folder s = Ok f"
  shows "folder_ok f"
proof -
  let ?g = "rev (dropWhile is_slash (rev (trim s)))"
  have g: "length ?g \<le> MAX_FOLDER_CHARS" "?g \<noteq> [] \<Longrightarrow> \<not> is_slash (hd ?g)" "58 \<notin> set ?g"
      "lit ''..'' \<notin> set (split_where is_slash ?g)" "f = map (\<lambda>c. if c = 92 then 47 else c) ?g"
    using assms by (auto simp only: check_folder_def Let_def split: if_splits)
  have "lit ''..'' \<notin> set (split_where is_slash f)" unfolding g(5) by (rule dots_kept [OF g(4)])
  moreover have "f \<noteq> [] \<longrightarrow> \<not> is_slash (hd f)" using g(2) unfolding g(5) by (simp add: hd_map slash_kept)
  moreover have "92 \<notin> set f" "58 \<notin> set f" using g(3) unfolding g(5) by (auto simp del: set_rev)
  moreover have "length f \<le> MAX_FOLDER_CHARS" using g(1) unfolding g(5) by simp
  ultimately show ?thesis by (simp add: folder_ok_def)
qed

lemma create_checks:
  assumes "and_then (check_name (npr_name new)) (\<lambda>name.
           and_then (check_text (npr_goal new) MAX_GOAL_CHARS (lit ''goal'')) (\<lambda>goal.
           and_then (check_text (npr_guidance new) MAX_GUIDANCE_CHARS (lit ''guidance'')) (\<lambda>guidance.
           and_then (check_folder (npr_folder new)) (\<lambda>folder.
           and_then (check_limit (npr_daily_run_limit new)) (\<lambda>limit.
           and_then (check_token_limit (npr_daily_token_limit new)) (\<lambda>tokens.
             Ok \<lparr>prj_id = pid, prj_workspace_id = workspace, prj_name = name, prj_goal = goal,
                 prj_guidance = guidance, prj_folder = folder, prj_status = Project_Active,
                 prj_daily_run_limit = limit, prj_daily_token_limit = tokens,
                 prj_created_at = now, prj_updated_at = now\<rparr>)))))) = Ok p"
  shows "project_ok p" "prj_id p = pid" "prj_workspace_id p = workspace"
  using assms
  by (auto simp: project_ok_def check_name_def check_text_def check_limit_def check_token_limit_def Let_def
      split: if_splits dest: check_folder_ok)

lemma project_update_ok:
  assumes "project_update db workspace key changes now = Ok p" "\<And>q. q \<in> set (pdb_projects db) \<Longrightarrow> project_ok q"
  shows "project_ok p"
proof -
  have found: "project_ok q" if "find_project db workspace key = Ok q" for q
    using that assms(2) by (auto simp: find_project_def Let_def ok_or_def split: option.splits dest!: find_SomeD)
  show ?thesis
    using assms(1) found unfolding project_update_def
    by (auto simp: project_ok_def changed_def check_name_def check_text_def check_limit_def check_token_limit_def
        Let_def split: if_splits option.splits dest!: check_folder_ok)
qed

lemma added_project_keeps:
  assumes "projects_inv db" "project_ok p" "length (prj_id p) = 36"
    and "\<not> list_ex (\<lambda>q. prj_id q = prj_id p) (pdb_projects db)"
    and "\<not> name_taken db (prj_workspace_id p) (prj_id p) (prj_name p)"
  shows "projects_inv (db\<lparr>pdb_projects := pdb_projects db @ [p]\<rparr>)"
proof -
  have "project_key p \<notin> project_key ` set (pdb_projects db)"
    using assms(4,5) by (auto simp: name_taken_def list_ex_iff project_key_def)
  then show ?thesis using assms by (auto simp: projects_inv_def list_ex_iff)
qed

lemma create_keeps_projects:
  assumes "projects_inv db"
  shows "projects_inv (fst (create_project workspace_exists db pid workspace new now))"
  unfolding create_project_def
proof (split sum.split, intro conjI allI impI)
  fix p assume "and_then (check_name (npr_name new)) (\<lambda>name.
           and_then (check_text (npr_goal new) MAX_GOAL_CHARS (lit ''goal'')) (\<lambda>goal.
           and_then (check_text (npr_guidance new) MAX_GUIDANCE_CHARS (lit ''guidance'')) (\<lambda>guidance.
           and_then (check_folder (npr_folder new)) (\<lambda>folder.
           and_then (check_limit (npr_daily_run_limit new)) (\<lambda>limit.
           and_then (check_token_limit (npr_daily_token_limit new)) (\<lambda>tokens.
             Ok \<lparr>prj_id = pid, prj_workspace_id = workspace, prj_name = name, prj_goal = goal,
                 prj_guidance = guidance, prj_folder = folder, prj_status = Project_Active,
                 prj_daily_run_limit = limit, prj_daily_token_limit = tokens,
                 prj_created_at = now, prj_updated_at = now\<rparr>)))))) = Ok p"
  note p = create_checks [OF this]
  show "projects_inv (fst (if list_ex (\<lambda>q. prj_id q = pid) (pdb_projects db) \<or> name_taken db workspace pid (prj_name p)
          then (db, Err ProjectNameTaken)
          else if \<not> workspace_exists workspace \<or> length pid \<noteq> 36
          then (db, Err (Project_Sqlite (lit ''create a project'')))
          else let db' = db\<lparr>pdb_projects := pdb_projects db @ [p]\<rparr> in (db', find_project db' workspace pid)))"
    using added_project_keeps [OF assms p(1)] assms p(2,3) by (simp add: Let_def)
qed (use assms in simp)

lemma name_free_key:
  assumes "\<not> name_taken db workspace i name" "q \<in> set (pdb_projects db)" "project_key q = (workspace, nocase name)"
  shows "prj_id q = i"
  using assms by (auto simp: name_taken_def list_ex_iff project_key_def)

lemma write_keeps_projects:
  assumes "projects_inv db" "project_ok p"
  shows "projects_inv (fst (write_project db workspace p))"
proof -
  let ?hit = "\<lambda>q. prj_id q = prj_id p \<and> prj_workspace_id q = workspace"
  let ?put = "\<lambda>q. p\<lparr>prj_workspace_id := prj_workspace_id q, prj_created_at := prj_created_at q\<rparr>"
  let ?rows = "sql_update ?hit ?put (pdb_projects db)"
  have rows: "?rows = map (\<lambda>q. if ?hit q then ?put q else q) (pdb_projects db)" by (simp add: sql_update_def)
  have ids: "map prj_id ?rows = map prj_id (pdb_projects db)" unfolding rows by auto
  have keys: "distinct (map project_key ?rows)"
    if free: "list_ex ?hit (pdb_projects db) \<longrightarrow> \<not> name_taken db workspace (prj_id p) (prj_name p)"
  proof -
    have d: "distinct (pdb_projects db)" "inj_on prj_id (set (pdb_projects db))" "inj_on project_key (set (pdb_projects db))"
      using assms(1) by (auto simp: projects_inv_def distinct_map)
    have "inj_on (\<lambda>q. project_key (if ?hit q then ?put q else q)) (set (pdb_projects db))"
    proof (rule inj_onI)
      fix a b assume ab: "a \<in> set (pdb_projects db)" "b \<in> set (pdb_projects db)"
        "project_key (if ?hit a then ?put a else a) = project_key (if ?hit b then ?put b else b)"
      have free': "\<not> name_taken db workspace (prj_id p) (prj_name p)" if "?hit a \<or> ?hit b"
        using free that ab(1,2) by (auto simp: list_ex_iff)
      consider "?hit a" "?hit b" | "?hit a" "\<not> ?hit b" | "\<not> ?hit a" "?hit b" | "\<not> ?hit a" "\<not> ?hit b" by blast
      then show "a = b"
      proof cases
        case 1
        then have "prj_id a = prj_id b" by simp
        then show ?thesis using d(2) ab(1,2) by (simp add: inj_on_def)
      next
        case 2
        have put: "(if ?hit a then ?put a else a) = ?put a" "(if ?hit b then ?put b else b) = b"
          using 2 by (simp_all only: if_P if_not_P if_True if_False simp_thms)
        have "project_key b = (workspace, nocase (prj_name p))"
          using ab(3) 2(1) unfolding put by (simp add: project_key_def)
        then have "prj_id b = prj_id p"
          using free' ab 2 by (meson name_free_key)
        with 2 have "prj_id a = prj_id b" by simp
        then show ?thesis using d(2) ab(1,2) by (simp add: inj_on_def)
      next
        case 3
        have put: "(if ?hit b then ?put b else b) = ?put b" "(if ?hit a then ?put a else a) = a"
          using 3 by (simp_all only: if_P if_not_P if_True if_False simp_thms)
        have "project_key a = (workspace, nocase (prj_name p))"
          using ab(3) 3(2) unfolding put by (simp add: project_key_def)
        then have "prj_id a = prj_id p"
          using free' ab 3 by (meson name_free_key)
        with 3 have "prj_id a = prj_id b" by simp
        then show ?thesis using d(2) ab(1,2) by (simp add: inj_on_def)
      next
        case 4
        have "project_key a = project_key b" using ab(3) unfolding if_not_P [OF 4(1)] if_not_P [OF 4(2)] .
        then show ?thesis using d(3) ab(1,2) by (simp add: inj_on_def)
      qed
    qed
    then show ?thesis unfolding rows using d(1) by (simp add: distinct_map comp_def)
  qed
  have ok: "project_ok q" "length (prj_id q) = 36" if "q \<in> set ?rows" for q
    using that assms unfolding rows by (auto simp: projects_inv_def project_ok_def)
  have same: "prj_id ` set ?rows = prj_id ` set (pdb_projects db)" using ids by (metis set_map)
  have "projects_inv (db\<lparr>pdb_projects := ?rows\<rparr>)"
    if "list_ex ?hit (pdb_projects db) \<longrightarrow> \<not> name_taken db workspace (prj_id p) (prj_name p)"
    using keys [OF that] ok assms(1) by (simp add: projects_inv_def ids same)
  then show ?thesis using assms(1) by (auto simp: write_project_def Let_def)
qed

lemma delete_keeps_projects:
  assumes "projects_inv db"
  shows "projects_inv (fst (delete_project db workspace key))"
proof (cases "find_project db workspace key")
  case (Inr p)
  let ?left = "filter (\<lambda>q. prj_id q \<noteq> prj_id p) (pdb_projects db)"
  have "i \<in> prj_id ` set ?left" if "i \<in> prj_id ` set (pdb_projects db)" "i \<noteq> prj_id p" for i
    using that by auto
  moreover have "distinct (map prj_id ?left)" "distinct (map project_key ?left)"
    "distinct (map fst (filter (\<lambda>l. snd l \<noteq> prj_id p) (pdb_links db)))"
    using assms by (simp_all add: projects_inv_def distinct_map_filter)
  ultimately show ?thesis using assms Inr by (simp add: delete_project_def projects_inv_def)
qed (use assms in \<open>simp add: delete_project_def\<close>)

lemma note_keeps_projects:
  assumes "projects_inv db"
  shows "projects_inv (fst (add_project_note db nid pid kind body rid now))"
proof -
  let ?rows = "sql_update (\<lambda>p. prj_id p = pid) (\<lambda>p. p\<lparr>prj_updated_at := now\<rparr>) (pdb_projects db)"
  have ids: "map prj_id ?rows = map prj_id (pdb_projects db)" "map project_key ?rows = map project_key (pdb_projects db)"
    by (auto simp: sql_update_def project_key_def)
  have same: "prj_id ` set ?rows = prj_id ` set (pdb_projects db)" using ids(1) by (metis set_map)
  have "project_ok q \<and> length (prj_id q) = 36" if "q \<in> set ?rows" for q
    using that assms by (auto simp: projects_inv_def project_ok_def sql_update_def split: if_splits)
  then show ?thesis using assms
    by (auto simp: add_project_note_def Let_def projects_inv_def ids same list_ex_iff)
qed

lemma link_keeps_projects:
  assumes "projects_inv db"
  shows "projects_inv (fst (link_project db kind ref_id pid))"
  using assms by (auto simp: link_project_def projects_inv_def list_ex_iff map_of_eq_None_iff split: option.split)

lemma relink_keeps_projects:
  assumes "projects_inv db"
  shows "projects_inv (fst (set_project_link db kind ref_id target))"
  using assms by (auto simp: set_project_link_def Let_def projects_inv_def list_ex_iff distinct_map inj_on_def
      split: option.split)


section \<open>The journal always fits its fence\<close>

lemma match_consumes:
  "fence_token_at st cs ns = Some k \<Longrightarrow> c \<in> set (take k cs) \<Longrightarrow> is_separator c \<or> (\<exists>n \<in> set ns. eq_ignore_ascii_case c n)"
proof (induction st cs ns arbitrary: k rule: fence_token_at.induct)
  case (3 st d cs n ns)
  then show ?case by (cases k) (auto split: if_splits)
qed auto

lemma remove_keeps:
  assumes "c \<in> set s" "\<not> is_separator c" "\<forall>n \<in> set normalised_needle. \<not> eq_ignore_ascii_case c n"
  shows "c \<in> set (remove_fence_token s)"
  using assms(1)
proof (induction s rule: remove_fence_token.induct)
  case (2 d cs)
  show ?case
  proof (cases "fence_token_at False (d # cs) normalised_needle")
    case None
    then show ?thesis using 2 by auto
  next
    case (Some len)
    have "c \<notin> set (take len (d # cs))" using match_consumes [OF Some] assms(2,3) by blast
    then have "c \<in> set (drop len (d # cs))"
      using 2(3) by (metis Un_iff append_take_drop_id set_append)
    then show ?thesis using 2(2) Some by simp
  qed
qed simp

lemma remove_shortens: "length (remove_fence_token s) \<le> length s"
proof (induction s rule: remove_fence_token.induct)
  case (2 d cs)
  show ?case
  proof (cases "fence_token_at False (d # cs) normalised_needle")
    case (Some len)
    have "length normalised_needle \<le> len" "len \<le> length (d # cs)" using fence_token_at_length [OF Some] by auto
    moreover have "length normalised_needle = 19" by (simp add: normalised_needle_eq)
    ultimately show ?thesis using 2(2) [OF Some] Some by simp
  qed (use 2 in simp)
qed simp

lemma set_trim_keeps: "c \<in> set s \<Longrightarrow> \<not> is_whitespace c \<Longrightarrow> c \<in> set (trim s)"
proof -
  have drop: "c \<in> set s \<Longrightarrow> \<not> P c \<Longrightarrow> c \<in> set (dropWhile P s)" for P and s :: rstr by (induction s) auto
  show "c \<in> set s \<Longrightarrow> \<not> is_whitespace c \<Longrightarrow> c \<in> set (trim s)" by (simp add: trim_def drop)
qed

lemma short_text_isolates:
  assumes "length s \<le> MAX_ISOLATED_CHARS" "111 \<in> set s"
  shows "\<exists>t. IsolatedText_new s = Ok t"
proof -
  have o: "\<not> is_whitespace 111" "keeps 111" "\<not> is_separator 111"
      "\<forall>n \<in> set normalised_needle. \<not> eq_ignore_ascii_case 111 n"
    by (simp_all add: is_whitespace_def keeps_def is_control_def is_format_character_def is_separator_def
        normalised_needle_eq lit_def eq_ignore_ascii_case_def to_ascii_lowercase_def is_ascii_uppercase_def)
  define u where "u = trim (filter keeps s)"
  have u: "111 \<in> set u" unfolding u_def using assms(2) o by (auto intro: set_trim_keeps)
  then have "111 \<in> set (remove_fence_token u)" using o by (intro remove_keeps) auto
  then have "trim u \<noteq> []" "trim (remove_fence_token u) \<noteq> []" "u \<noteq> []" using u o by (auto simp: trim_eq_Nil)
  moreover have "length u \<le> length s" unfolding u_def by (meson length_filter_le length_trim_le order_trans)
  then have "length u \<le> MAX_ISOLATED_CHARS" "length (remove_fence_token u) \<le> MAX_ISOLATED_CHARS"
    using assms(1) remove_shortens [of u] by auto
  ultimately show ?thesis by (simp add: IsolatedText_new_def Let_def u_def [symmetric])
qed

lemma notes_fit_cost:
  "used \<le> budget \<Longrightarrow>
    used + sum_list (map (\<lambda>n. length (note_line stamp n) + 1) (take (notes_that_fit stamp budget used ns) ns)) \<le> budget"
  by (induction stamp budget used ns rule: notes_that_fit.induct) (auto simp: Let_def simp flip: add.assoc)

lemma length_join: "length (join [10] ls) \<le> sum_list (map (\<lambda>l. length l + 1) ls)"
  by (induction "[10::nat]" ls rule: join.induct) auto

definition newest :: "(instant \<Rightarrow> rstr) \<Rightarrow> nat \<Rightarrow> StoredProjectNote list \<Rightarrow> StoredProjectNote list" where
  "newest stamp budget notes = take (notes_that_fit stamp budget 0 (rev notes)) (rev notes)"

lemma newest_cost: "length (join [10] (map (note_line stamp) (newest stamp budget notes))) \<le> budget"
    "length (join [10] (rev (map (note_line stamp) (newest stamp budget notes)))) \<le> budget"
proof -
  have "sum_list (map (\<lambda>n. length (note_line stamp n) + 1) (newest stamp budget notes)) \<le> budget"
    using notes_fit_cost [of 0 budget stamp "rev notes"] by (simp add: newest_def)
  then show "length (join [10] (map (note_line stamp) (newest stamp budget notes))) \<le> budget"
      "length (join [10] (rev (map (note_line stamp) (newest stamp budget notes)))) \<le> budget"
    using length_join [of "map (note_line stamp) (newest stamp budget notes)"]
      length_join [of "rev (map (note_line stamp) (newest stamp budget notes))"]
    by (simp_all add: comp_def rev_map [symmetric] sum_list_rev del: rev_map)
qed

lemma recent_newest: "drop (recent_start stamp notes budget) notes = rev (newest stamp budget notes)"
  by (simp add: newest_def recent_start_def take_rev)

lemma journal_text_parts:
  "journal_text stamp name earlier notes =
     (let held = rev (map (note_line stamp) (newest stamp EARLIER_CHARS earlier));
          recent = rev (map (note_line stamp) (newest stamp (JOURNAL_CHARS - EARLIER_CHARS) notes))
      in if held = [] \<and> recent = [] then None
      else Some (lit ''Journal of '' @ name @ [58]
        @ (if held = [] then [] else 10 # lit ''Earlier decisions, results and blockers:'' @ [10] @ join [10] held)
        @ (if recent = [] then []
           else (if held = [] then [10] else 10 # lit ''Recent:'' @ [10]) @ join [10] recent)))"
  by (simp add: journal_text_def recent_newest rev_map [symmetric]) (simp add: newest_def)

lemma journal_bounded:
  assumes "journal_text stamp name earlier notes = Some text" "length name \<le> MAX_NAME_CHARS"
  shows "length text \<le> MAX_ISOLATED_CHARS" "111 \<in> set text"
proof -
  let ?held = "rev (map (note_line stamp) (newest stamp EARLIER_CHARS earlier))"
  let ?recent = "rev (map (note_line stamp) (newest stamp (JOURNAL_CHARS - EARLIER_CHARS) notes))"
  have "length (join [10] ?held) \<le> EARLIER_CHARS" "length (join [10] ?recent) \<le> JOURNAL_CHARS - EARLIER_CHARS"
    by (rule newest_cost)+
  then show "length text \<le> MAX_ISOLATED_CHARS"
    using assms by (auto simp: journal_text_parts Let_def MAX_NAME_CHARS_def EARLIER_CHARS_def JOURNAL_CHARS_def
        MAX_ISOLATED_CHARS_def split: if_splits)
  show "111 \<in> set text" using assms(1) by (auto simp: journal_text_parts Let_def lit_def split: if_splits)
qed

lemma note_line_short: "length (note_line stamp n) \<le> 2 + 10 + 2 + 8 + 2 + NOTE_CHARS"
proof -
  have "length (replace_char 10 [32] t) = length t" for t by (induction t) (auto simp: replace_char_def)
  then show ?thesis by (cases "pnote_kind n") (auto simp: note_line_def Let_def NOTE_CHARS_def min_def)
qed

lemma newest_shown:
  assumes "notes \<noteq> []"
  shows "last notes \<in> set (newest stamp (JOURNAL_CHARS - EARLIER_CHARS) notes)"
proof -
  obtain front n where ends: "notes = front @ [n]" using assms by (metis rev_exhaust)
  have "length (note_line stamp n) + 1 \<le> JOURNAL_CHARS - EARLIER_CHARS"
    using note_line_short [of stamp n] by (simp add: JOURNAL_CHARS_def EARLIER_CHARS_def NOTE_CHARS_def)
  then show ?thesis by (simp add: newest_def ends Let_def)
qed

lemma join_contains: "w \<in> set ls \<Longrightarrow> \<exists>a b. join sep ls = a @ w @ b"
proof (induction sep ls rule: join.induct)
  case (3 sep s t ss)
  show ?case
  proof (cases "w = s")
    case True
    then have "join sep (s # t # ss) = [] @ w @ (sep @ join sep (t # ss))" by simp
    then show ?thesis by blast
  next
    case False
    then obtain a b where "join sep (t # ss) = a @ w @ b" using 3 by auto
    then have "join sep (s # t # ss) = (s @ sep @ a) @ w @ b" by simp
    then show ?thesis by blast
  qed
qed (auto intro: exI [of _ "[]"])

lemma journal_has_newest:
  assumes "notes \<noteq> []"
  shows "\<exists>text. journal_text stamp name earlier notes = Some text \<and> contains_sub (note_line stamp (last notes)) text"
proof -
  let ?recent = "rev (map (note_line stamp) (newest stamp (JOURNAL_CHARS - EARLIER_CHARS) notes))"
  have "note_line stamp (last notes) \<in> set ?recent" using newest_shown [OF assms] by simp
  moreover from this have "?recent \<noteq> []" by force
  moreover obtain a b where "join [10] ?recent = a @ note_line stamp (last notes) @ b"
    using join_contains calculation(1) by blast
  ultimately show ?thesis
    by (simp add: journal_text_parts Let_def contains_sub_iff) (metis append.assoc append_Cons)
qed

lemma project_item_made:
  assumes "reference \<noteq> []" "length reference \<le> MAX_SOURCE_REFERENCE_CHARS" "\<not> list_ex is_control reference"
    and "(kind, trust, reason) \<in> {(Src_WorkspacePolicy, Authoritative, Reason_ReservedPolicy),
      (Src_ActiveRunState, Derived, Reason_ActiveRunState)}"
  shows "\<exists>i. project_item kind reference trust text reason = Some i"
proof -
  have "max (u32_saturating (str_len text)) 1 \<noteq> 0" by (auto simp: max_def)
  then show ?thesis using assms
    by (auto simp: project_item_def ContextSource_new_def ContextItem_new_def Let_def is_external_def)
qed

text \<open>C26: a run of a project is always told its journal. In sound tables, a run that is not delegated, in a
  conversation linked to a project with any note, gets the brief and the journal as required items: the
  journal never fails to be fenced, whatever the notes hold, and its text shows the newest note.\<close>

theorem project_run_sees_journal:
  assumes "projects_inv db" "project_for db Link_Session (run_session_id r) = Some p" "\<not> run_is_delegated r"
    and "recent_project_notes db (prj_id p) JOURNAL_NOTES = older @ [n]" "\<not> list_ex is_control (prj_id p)"
  shows "\<exists>pc brief text fenced item.
     ProjectContext_load stamp db r = Some pc \<and> pctx_brief_item pc = Some brief \<and> pctx_journal pc = Some (fenced, item)
     \<and> project_items pc = [brief, item] \<and> is_required brief \<and> is_required item
     \<and> IsolatedText_new text = Ok fenced \<and> contains_sub (note_line stamp n) text"
proof -
  have p: "p \<in> set (pdb_projects db)"
    using assms(2) by (auto simp: project_for_def split: option.splits dest!: find_SomeD)
  then have ok: "project_ok p" "length (prj_id p) = 36" using assms(1) by (auto simp: projects_inv_def)
  define shown where "shown = drop (recent_start stamp (older @ [n]) (JOURNAL_CHARS - EARLIER_CHARS)) (older @ [n])"
  define earlier where "earlier = (case shown of [] \<Rightarrow> []
                | oldest # _ \<Rightarrow> earlier_important_notes db (prj_id p) (pnote_id oldest) EARLIER_NOTES)"
  have "n \<in> set shown" unfolding shown_def recent_newest using newest_shown [of "older @ [n]" stamp] by simp
  then have "shown \<noteq> []" by force
  then have "shown \<noteq> [] \<and> last shown = n" unfolding shown_def by (metis drop_eq_Nil last_drop last_snoc not_le)
  then obtain told_text where told: "journal_text stamp (prj_name p) earlier shown = Some told_text"
      "contains_sub (note_line stamp n) told_text"
    using journal_has_newest [of shown stamp] by metis
  have "length (prj_name p) \<le> MAX_NAME_CHARS" using ok(1) by (simp add: project_ok_def)
  then obtain fenced where fenced: "IsolatedText_new told_text = Ok fenced"
    using short_text_isolates [OF journal_bounded [OF told(1)]] by blast
  have refs: "\<exists>i. project_item kind (lit ''project:'' @ prj_id p @ lit suffix) trust t reason = Some i"
    if "(kind, trust, reason, suffix) \<in> {(Src_WorkspacePolicy, Authoritative, Reason_ReservedPolicy, '':brief''),
      (Src_ActiveRunState, Derived, Reason_ActiveRunState, '':journal'')}" for kind trust t reason suffix
    using that ok(2) assms(5)
    by (intro project_item_made) (auto simp: MAX_SOURCE_REFERENCE_CHARS_def lit_def is_control_def)
  obtain brief where brief: "project_item Src_WorkspacePolicy (lit ''project:'' @ prj_id p @ lit '':brief'') Authoritative
      (brief_text p False) Reason_ReservedPolicy = Some brief" using refs by blast
  obtain item where item: "project_item Src_ActiveRunState (lit ''project:'' @ prj_id p @ lit '':journal'') Derived
      told_text Reason_ActiveRunState = Some item" using refs by blast
  have "is_required i" if "project_item kind reference trust t reason = Some i" for kind reference trust t reason i
    using that by (auto simp: project_item_def is_required_def split: sum.splits dest: ContextItem_new_Ok(1))
  moreover have "ProjectContext_load stamp db r = ProjectContext_build stamp p earlier shown False"
    using assms(2,3) unfolding ProjectContext_load_def assms(4) [symmetric] shown_def earlier_def
    by (simp add: Let_def assms(4))
  then have "ProjectContext_load stamp db r = Some \<lparr>pctx_brief = brief_text p False, pctx_brief_item = Some brief,
      pctx_journal = Some (fenced, item), pctx_index = None\<rparr>"
    using brief item fenced told by (simp add: ProjectContext_build_def Let_def)
  ultimately show ?thesis using brief item fenced told by (auto simp: project_items_def)
qed

section \<open>Workspaces are apart\<close>

lemma find_project_found:
  "find_project db workspace key = Ok p \<Longrightarrow> p \<in> set (pdb_projects db) \<and> prj_workspace_id p = workspace"
  by (auto simp: find_project_def Let_def ok_or_def split: option.splits dest!: find_SomeD)

definition of_workspace :: "ident \<Rightarrow> project_db \<Rightarrow> StoredProject list" where
  "of_workspace workspace db = filter (\<lambda>p. prj_workspace_id p = workspace) (pdb_projects db)"

text \<open>A workspace reads and writes only its own projects: what is found belongs to the workspace that
  asked, and creating, changing or deleting a project there, by whatever name or identifier, leaves the
  projects of every other workspace exactly as they were.\<close>

theorem project_workspaces_apart:
  assumes "projects_inv db" "other \<noteq> workspace"
  shows "(find_project db workspace key = Ok p \<longrightarrow> prj_workspace_id p = workspace)
    \<and> of_workspace other (fst (create_project workspace_exists db pid workspace new now)) = of_workspace other db
    \<and> of_workspace other (fst (update_project db workspace key changes now)) = of_workspace other db
    \<and> of_workspace other (fst (delete_project db workspace key)) = of_workspace other db"
proof -
  have "of_workspace other (fst (create_project workspace_exists db pid workspace new now)) = of_workspace other db"
    unfolding create_project_def using create_checks(3) [of new pid workspace now] assms(2)
    by (auto simp: of_workspace_def Let_def split: sum.split)
  moreover have "of_workspace other (fst (write_project db workspace q)) = of_workspace other db" for q
  proof -
    have "filter (\<lambda>p. prj_workspace_id p = other) (sql_update (\<lambda>r. prj_id r = prj_id q \<and> prj_workspace_id r = workspace)
        (\<lambda>r. q\<lparr>prj_workspace_id := prj_workspace_id r, prj_created_at := prj_created_at r\<rparr>) rows)
      = filter (\<lambda>p. prj_workspace_id p = other) rows" for rows
      using assms(2) by (induction rows) (auto simp: sql_update_def)
    then show ?thesis by (simp add: of_workspace_def write_project_def Let_def)
  qed
  then have "of_workspace other (fst (update_project db workspace key changes now)) = of_workspace other db"
    by (simp add: update_project_def split: sum.split)
  moreover have "of_workspace other (fst (delete_project db workspace key)) = of_workspace other db"
  proof (cases "find_project db workspace key")
    case (Inr q)
    then have q: "q \<in> set (pdb_projects db)" "prj_workspace_id q = workspace" using find_project_found by auto
    have "prj_id a \<noteq> prj_id q" if "a \<in> set (pdb_projects db)" "prj_workspace_id a = other" for a
      using that q assms by (auto simp: projects_inv_def distinct_map dest: inj_onD)
    then show ?thesis using Inr by (auto simp: delete_project_def of_workspace_def intro: filter_cong)
  qed (simp add: delete_project_def)
  ultimately show ?thesis using find_project_found by blast
qed

end
