(* ===== verification/Tool_Pipeline_Laws.thy ===== *)
theory Tool_Pipeline_Laws
  imports Tool_Pipeline
begin

text \<open>
  What the tool pipeline guarantees: that no admitted call is executed twice however its handlers
  interleave, and, for one handler running alone, what must have been decided before an adapter was
  asked. The first part interprets the locale \<open>claims\<close>: the write \<open>requested \<rightarrow> authorized\<close> is the claim,
  and asking the adapter is the action.
\<close>

section \<open>The ledger only grows\<close>

abbreviation ledger_rows :: "pipeline_world \<Rightarrow> tool_call_row list" where
  "ledger_rows w \<equiv> cdb_calls (pw_db w)"

definition ledger_move :: "tool_call_row list \<Rightarrow> tool_call_row list \<Rightarrow> bool" where
  "ledger_move rows rows' \<longleftrightarrow> calls_inv rows' \<and> (\<exists>store. calls_step store rows rows')"

definition ledger_grows :: "pipeline_world \<Rightarrow> pipeline_world \<Rightarrow> bool" where
  "ledger_grows w w' \<longleftrightarrow> ledger_move\<^sup>*\<^sup>* (ledger_rows w) (ledger_rows w')"

definition ledger_sound :: "pipeline_world \<Rightarrow> bool" where
  "ledger_sound w \<longleftrightarrow> calls_inv (ledger_rows w)"

definition call_started_at :: "pipeline_world \<Rightarrow> ident \<Rightarrow> bool" where
  "call_started_at w cid \<longleftrightarrow> (\<exists>r \<in> set (ledger_rows w). tcr_id r = cid \<and> row_outcome r \<noteq> Some Requested)"

definition times_executed :: "pipeline_world \<Rightarrow> ident \<Rightarrow> nat" where
  "times_executed w cid = length (filter (\<lambda>q. exp_call_id q = cid) (pw_executed w))"

lemma ledger_moves_inv: "ledger_move\<^sup>*\<^sup>* rows rows' \<Longrightarrow> calls_inv rows \<Longrightarrow> calls_inv rows'"
  by (induction rule: rtranclp_induct) (auto simp: ledger_move_def)

lemma ledger_moves_read_current:
  "ledger_move\<^sup>*\<^sup>* rows rows' \<Longrightarrow> read_current rows call \<Longrightarrow> read_current rows' call"
  by (induction rule: rtranclp_induct) (auto simp: ledger_move_def intro: read_current_step)

lemma call_row_step_started:
  assumes "call_row_step store r r'" "row_outcome r \<noteq> Some Requested"
  shows "row_outcome r' \<noteq> Some Requested"
  using call_row_step_outcome [OF assms(1)] assms(2) by (auto elim: can_advance_to.elims)

lemma ledger_move_started:
  assumes "ledger_move rows rows'" "\<exists>r \<in> set rows. tcr_id r = cid \<and> row_outcome r \<noteq> Some Requested"
  shows "\<exists>r \<in> set rows'. tcr_id r = cid \<and> row_outcome r \<noteq> Some Requested"
proof -
  from assms obtain store r where r: "calls_step store rows rows'" "r \<in> set rows" "tcr_id r = cid"
    "row_outcome r \<noteq> Some Requested" by (auto simp: ledger_move_def)
  from calls_step_member [OF r(1,2)] obtain r' where "r' \<in> set rows'" "r' = r \<or> call_row_step store r r'" .
  with r call_row_step_started [of store r r'] show ?thesis by (auto dest: call_row_step_facts(1))
qed

lemma ledger_moves_started:
  "ledger_move\<^sup>*\<^sup>* rows rows' \<Longrightarrow> \<exists>r \<in> set rows. tcr_id r = cid \<and> row_outcome r \<noteq> Some Requested
    \<Longrightarrow> \<exists>r \<in> set rows'. tcr_id r = cid \<and> row_outcome r \<noteq> Some Requested"
  by (induction rule: rtranclp_induct) (auto dest!: ledger_move_started)

interpretation executions: claims ledger_sound ledger_grows call_started_at times_executed
  by unfold_locales
    (auto simp: ledger_sound_def ledger_grows_def call_started_at_def
       intro: ledger_moves_inv dest: ledger_moves_started)

lemma ledger_grows_refl [simp]: "ledger_rows w' = ledger_rows w \<Longrightarrow> ledger_grows w w'"
  by (simp add: ledger_grows_def)

lemma ledger_grows_move: "ledger_move (ledger_rows w) (ledger_rows w') \<Longrightarrow> ledger_grows w w'"
  by (auto simp: ledger_grows_def)

text \<open>Each operation on the ledger is a move.\<close>

lemma write_outcome_move:
  assumes "calls_inv (cdb_calls db)" "read_current (cdb_calls db) c" "record_honest rec"
  shows "ledger_move (cdb_calls db) (cdb_calls (fst (write_outcome db (stc_id c) c rec out at)))"
  using assms
proof (cases rule: write_outcome_cases [of _ _ _ out at])
  case (written r)
  with assms(1) show ?thesis
    unfolding ledger_move_def
    by (intro conjI exI [of _ "cdb_store db"]) (auto intro!: calls_step_update calls_inv_update)
qed (use assms in \<open>auto simp: ledger_move_def\<close>)

lemma admit_move:
  assumes "calls_inv (cdb_calls db)" "NewToolCall_new cid origin target binding corr at = Ok new"
  shows "ledger_move (cdb_calls db) (cdb_calls (fst (admit_tool_call pe db new)))"
  using assms(2)
proof (cases rule: admit_cases [of _ _ _ _ _ _ _ pe db])
  case added
  with assms(1) admitted_row_ok [of new] show ?thesis by (auto simp: ledger_move_def calls_inv_def)
qed (use assms(1) in \<open>auto simp: ledger_move_def\<close>)

lemma link_move:
  assumes "calls_inv (cdb_calls db)"
  shows "ledger_move (cdb_calls db) (cdb_calls (fst (link_tool_call_approval ae db cid aid now)))"
proof (cases rule: link_cases [of ae db cid aid now])
  case linked
  with assms show ?thesis
    unfolding ledger_move_def
    by (intro conjI exI [of _ "cdb_store db"]) (auto intro!: calls_step_update calls_inv_update link_step)
qed (use assms in \<open>auto simp: ledger_move_def\<close>)

lemma read_current_read:
  "find_tool_call db cid = Ok c \<Longrightarrow> read_current (cdb_calls db) c \<and> stc_id c = cid"
  by (auto simp: read_current_def decode_tool_call_fields elim!: find_tool_call_Ok)

lemma record_tool_outcome_move:
  assumes "calls_inv (cdb_calls db)" "record_honest rec"
  shows "ledger_move (cdb_calls db) (cdb_calls (fst (record_tool_outcome db cid rec out at)))"
proof (cases "find_tool_call db cid")
  case (Inr c)
  with read_current_read [OF Inr] write_outcome_move [OF assms(1) _ assms(2), of c out at]
  show ?thesis by (auto simp: record_tool_outcome_def)
qed (use assms in \<open>auto simp: record_tool_outcome_def ledger_move_def\<close>)

lemma settle_loop_moves:
  "calls_inv (cdb_calls db) \<Longrightarrow> ledger_move\<^sup>*\<^sup>* (cdb_calls db) (cdb_calls (fst (settle_loop db at rows acc)))"
proof (induction rows arbitrary: db acc)
  case (Cons row rows)
  obtain cid o' where row: "row = (cid, o')" by (cases row)
  show ?case
  proof (cases "orphan_record o'")
    case (Inr rec)
    obtain db' res where res: "record_tool_outcome db cid rec None at = (db', res)" by force
    have move: "ledger_move (cdb_calls db) (cdb_calls db')"
      using record_tool_outcome_move [OF Cons.prems orphan_record_honest [OF Inr], of cid None at] res by simp
    then have "calls_inv (cdb_calls db')" by (simp add: ledger_move_def)
    from Cons.IH [OF this] move row res Inr show ?thesis
      by (cases res) (auto intro: converse_rtranclp_into_rtranclp)
  qed (simp add: row)
qed simp

section \<open>The handlers follow the discipline\<close>

abbreviation pipeline_disc ::
  "('a \<Rightarrow> ident set \<Rightarrow> pipeline_world \<Rightarrow> bool) \<Rightarrow> (pipeline_world \<Rightarrow> bool) \<Rightarrow> ident set
    \<Rightarrow> (pipeline_world, 'a) async \<Rightarrow> bool" where
  "pipeline_disc \<equiv> disc ledger_sound ledger_grows call_started_at times_executed"

abbreviation pipeline_stable :: "(pipeline_world \<Rightarrow> bool) \<Rightarrow> bool" where
  "pipeline_stable \<equiv> stable ledger_sound ledger_grows"

text \<open>A handler is \<open>plain\<close> when it neither claims nor acts, and \<open>orderly\<close> when it acts only on its own claims.\<close>

definition plain :: "(pipeline_world, 'a) async \<Rightarrow> bool" where
  "plain p \<longleftrightarrow> (\<forall>T. pipeline_disc (\<lambda>_ T' _. T' = T) (\<lambda>_. True) T p)"

definition orderly :: "(pipeline_world, 'a) async \<Rightarrow> bool" where
  "orderly p \<longleftrightarrow> pipeline_disc (\<lambda>_ _ _. True) (\<lambda>_. True) {} p"

lemma stable_True [simp, intro]: "pipeline_stable (\<lambda>_. True)" "pipeline_stable (\<lambda>_. C)"
  by (simp_all add: stable_def)

lemma disc_cons:
  "pipeline_disc Q K T p \<Longrightarrow> (\<And>a T w. Q a T w \<Longrightarrow> R a T w) \<Longrightarrow> pipeline_disc R K T p"
proof (induction rule: disc.induct)
  case (disc_await K T f)
  then show ?case by (intro disc.disc_await) blast
qed (auto intro: disc.disc_done)

lemma plain_Done [simp, intro]: "plain (Done a)"
  by (auto simp: plain_def intro: disc.disc_done)

lemma orderly_plain: "plain p \<Longrightarrow> orderly p"
  unfolding plain_def orderly_def by (blast intro: disc_cons)

lemma orderly_Done [simp, intro]: "orderly (Done a)"
  by (intro orderly_plain plain_Done)

lemma disc_pure: "(C \<Longrightarrow> pipeline_disc R (\<lambda>_. True) T p) \<Longrightarrow> pipeline_disc R (\<lambda>_. C) T p"
proof (cases C)
  case False
  then show ?thesis by (cases p) (auto intro: disc.disc_done disc.disc_await)
qed simp

lemma disc_then:
  assumes "pipeline_disc (\<lambda>_ T' _. T' = T) K T p" "\<And>a. pipeline_disc R (\<lambda>_. True) T (k a)"
  shows "pipeline_disc R K T (async_bind p k)"
proof (rule disc_bind [OF assms(1)])
  fix a T'
  show "pipeline_disc R (\<lambda>_. T' = T) T' (k a)"
  proof (rule disc_pure)
    assume "T' = T"
    with assms(2) show "pipeline_disc R (\<lambda>_. True) T' (k a)" by simp
  qed
qed

lemma plain_bind: "plain p \<Longrightarrow> (\<And>a. plain (k a)) \<Longrightarrow> plain (async_bind p k)"
  unfolding plain_def by (intro allI disc_then) simp_all

lemma orderly_bind: "plain p \<Longrightarrow> (\<And>a. orderly (k a)) \<Longrightarrow> orderly (async_bind p k)"
  unfolding plain_def orderly_def by (intro disc_then) simp_all

lemma plain_and_await: "plain p \<Longrightarrow> (\<And>a. plain (k a)) \<Longrightarrow> plain (and_await p k)"
  unfolding and_await_def by (intro plain_bind) (auto split: sum.split)

lemma orderly_and_await: "plain p \<Longrightarrow> (\<And>a. orderly (k a)) \<Longrightarrow> orderly (and_await p k)"
  unfolding and_await_def by (intro orderly_bind) (auto split: sum.split)

lemma plain_lift: "(\<And>a. r = Ok a \<Longrightarrow> plain (k a)) \<Longrightarrow> plain (lift_result r k)"
  by (auto simp: lift_result_def split: sum.split)

lemma orderly_lift: "(\<And>a. r = Ok a \<Longrightarrow> orderly (k a)) \<Longrightarrow> orderly (lift_result r k)"
  by (auto simp: lift_result_def split: sum.split)

lemma plain_perform:
  assumes "\<And>w. ledger_sound w \<Longrightarrow> pw_executed (fst (g w)) = pw_executed w"
    and "\<And>w. ledger_sound w \<Longrightarrow> ledger_grows w (fst (g w))"
  shows "plain (perform g)"
  unfolding plain_def
proof (intro allI disc_perform)
  fix T w assume w: "ledger_sound w"
  with assms have "times_executed (fst (g w)) = times_executed w" "ledger_sound (fst (g w))"
    by (auto simp: times_executed_def intro: executions.grow_inv)
  with w assms(2) show "\<exists>T'. token_step ledger_grows call_started_at times_executed T T' w (fst (g w))
      \<and> ledger_sound (fst (g w)) \<and> T' = T" by (auto intro: token_step.plain)
qed auto

text \<open>Steps on the tables.\<close>

lemma plain_on_db:
  assumes "\<And>db. calls_inv (cdb_calls db) \<Longrightarrow> ledger_move (cdb_calls db) (cdb_calls (fst (f db)))"
  shows "plain (on_db f)"
  unfolding on_db_def
  by (rule plain_perform) (auto simp: ledger_sound_def split: prod.split intro!: ledger_grows_move dest: assms)

lemma plain_read_db [intro]: "plain (on_db (\<lambda>db. (db, f db)))"
  by (rule plain_on_db) (auto simp: ledger_move_def)

lemma plain_on_store [intro]: "plain (on_store f)"
  unfolding on_store_def by (rule plain_perform) (auto split: prod.split)

lemma plain_on_approvals [intro]: "plain (on_approvals f)"
  unfolding on_approvals_def by (rule plain_perform) (auto split: prod.split)

lemma plain_read_stored_call [intro]: "plain (read_stored_call cid)"
  unfolding read_stored_call_def by (rule plain_read_db)

lemma plain_append_event [intro]: "plain (append_event pl eid rid kind summary payload corr at)"
  unfolding append_event_def Let_def by (intro plain_lift plain_on_store)

lemma plain_workspace_policy [intro]: "plain workspace_policy"
  unfolding workspace_policy_def by (rule plain_perform) auto

text \<open>Recording an outcome from what was read.\<close>

lemma stable_read_current: "pipeline_stable (\<lambda>w. read_current (ledger_rows w) c \<and> C)"
  by (auto simp: stable_def ledger_grows_def intro: ledger_moves_read_current)

lemma disc_read_stored_call:
  "pipeline_disc (\<lambda>a T' w. (\<forall>c. a = Ok c \<longrightarrow> read_current (ledger_rows w) c) \<and>
      (T' = T \<and> (\<forall>c. a = Ok c \<longrightarrow> stc_id c = cid))) (\<lambda>_. True) T (read_stored_call cid)"
  unfolding read_stored_call_def on_db_def
proof (rule disc_perform)
  fix w assume "ledger_sound w"
  then show "\<exists>T'. token_step ledger_grows call_started_at times_executed T T' w
      (fst (case (pw_db w, find_tool_call (pw_db w) cid) of
         (db, r) \<Rightarrow> (w\<lparr>pw_db := db\<rparr>, map_err (\<lambda>e. Pipe_Storage (Store_Calls e)) r)))
      \<and> ledger_sound (fst (case (pw_db w, find_tool_call (pw_db w) cid) of
         (db, r) \<Rightarrow> (w\<lparr>pw_db := db\<rparr>, map_err (\<lambda>e. Pipe_Storage (Store_Calls e)) r)))
      \<and> (\<forall>c. snd (case (pw_db w, find_tool_call (pw_db w) cid) of
         (db, r) \<Rightarrow> (w\<lparr>pw_db := db\<rparr>, map_err (\<lambda>e. Pipe_Storage (Store_Calls e)) r)) = Ok c
          \<longrightarrow> read_current (ledger_rows (fst (case (pw_db w, find_tool_call (pw_db w) cid) of
         (db, r) \<Rightarrow> (w\<lparr>pw_db := db\<rparr>, map_err (\<lambda>e. Pipe_Storage (Store_Calls e)) r)))) c)
      \<and> T' = T \<and> (\<forall>c. snd (case (pw_db w, find_tool_call (pw_db w) cid) of
         (db, r) \<Rightarrow> (w\<lparr>pw_db := db\<rparr>, map_err (\<lambda>e. Pipe_Storage (Store_Calls e)) r)) = Ok c
          \<longrightarrow> stc_id c = cid)"
    by (cases "find_tool_call (pw_db w) cid")
      (auto simp: token_step.plain dest: read_current_read)
next
  fix a T'
  show "pipeline_stable (\<lambda>w. (\<forall>c. a = Ok c \<longrightarrow> read_current (ledger_rows w) c) \<and>
      (T' = T \<and> (\<forall>c. a = Ok c \<longrightarrow> stc_id c = cid)))"
    using stable_read_current by (cases a) (auto simp: stable_def)
qed

text \<open>
  The claim: of a record other than a claim nothing is asked; a write of \<open>authorized\<close> that succeeds
  claims the call.
\<close>

lemma write_outcome_claims:
  assumes inv: "calls_inv (cdb_calls db)" and cur: "read_current (cdb_calls db) c"
    and rec: "record_honest rec" "rec_outcome rec = Authorized"
    and eff: "fst (write_outcome db (stc_id c) c rec out at) \<noteq> db"
  defines "db' \<equiv> fst (write_outcome db (stc_id c) c rec out at)"
  shows "\<not> (\<exists>r \<in> set (cdb_calls db). tcr_id r = stc_id c \<and> row_outcome r \<noteq> Some Requested)"
    and "\<exists>r \<in> set (cdb_calls db'). tcr_id r = stc_id c \<and> row_outcome r \<noteq> Some Requested"
proof -
  from write_outcome_cases [OF inv cur rec(1), of out at] eff obtain r where r: "r \<in> set (cdb_calls db)"
      "decode_tool_call r = Ok c" "can_advance_to (StoredToolCall_outcome c) (rec_outcome rec)"
      "db' = db\<lparr>cdb_calls := sql_update (\<lambda>q. q = r) (outcome_row rec out at) (cdb_calls db)\<rparr>"
    unfolding db'_def by metis
  from r(3) rec(2) have "StoredToolCall_outcome c = Requested" by (cases "StoredToolCall_outcome c") auto
  with decode_tool_call_fields [OF r(2)] have row: "row_outcome r = Some Requested" "tcr_id r = stc_id c" by auto
  with calls_inv_inj [OF inv _ r(1)]
  show "\<not> (\<exists>r \<in> set (cdb_calls db). tcr_id r = stc_id c \<and> row_outcome r \<noteq> Some Requested)" by force
  from r(1,4) row rec(2) show "\<exists>r \<in> set (cdb_calls db'). tcr_id r = stc_id c \<and> row_outcome r \<noteq> Some Requested"
    by (auto simp: sql_update_def intro!: bexI [of _ "outcome_row rec out at r"] rev_image_eqI)
qed

lemma sql_update_same: "sql_update P f rows = rows \<Longrightarrow> q \<in> set rows \<Longrightarrow> P q \<Longrightarrow> f q = q"
  by (induction rows) (auto simp: sql_update_def split: if_splits)

lemma write_outcome_unchanged:
  assumes "fst (write_outcome db cid c rec out at) = db" "\<not> ToolOutcome_is_terminal (rec_outcome rec)"
  shows "\<not> is_ok (snd (write_outcome db cid c rec out at))"
proof
  let ?hit = "outcome_hit (cdb_store db) cid (stc_version c) (rec_outcome rec)"
  assume "is_ok (snd (write_outcome db cid c rec out at))"
  with assms have same: "sql_update ?hit (outcome_row rec out at) (cdb_calls db) = cdb_calls db"
    and hit: "rows_affected ?hit (cdb_calls db) \<noteq> 0"
    by (auto simp: write_outcome_def Let_def is_ok_iff split: if_splits dest: arg_cong [of _ _ cdb_calls])
  from hit obtain q where q: "q \<in> set (cdb_calls db)" "?hit q"
    by (auto simp: rows_affected_def filter_empty_conv)
  from sql_update_same [OF same q] have "outcome_row rec out at q = q" .
  then have "tcr_version (outcome_row rec out at q) = tcr_version q" by simp
  then show False by (simp add: outcome_row_def)
qed

lemma disc_write_authorized:
  assumes "record_honest rec" "rec_outcome rec = Authorized"
  shows "pipeline_disc (\<lambda>a T' _. is_ok a \<longrightarrow> cid \<in> T')
    (\<lambda>w. read_current (ledger_rows w) c \<and> stc_id c = cid) {}
    (on_db (\<lambda>db. write_outcome db cid c rec out at))"
  unfolding on_db_def
proof (rule disc_perform)
  fix w assume w: "ledger_sound w" "read_current (ledger_rows w) c \<and> stc_id c = cid"
  define db' where "db' = fst (write_outcome (pw_db w) cid c rec out at)"
  define r where "r = snd (write_outcome (pw_db w) cid c rec out at)"
  let ?w = "w\<lparr>pw_db := db'\<rparr>"
  have inv: "calls_inv (ledger_rows w)" "read_current (ledger_rows w) c" "stc_id c = cid"
    using w by (auto simp: ledger_sound_def)
  have grow: "ledger_grows w ?w"
    using write_outcome_move [OF inv(1,2) assms(1), of out at] inv(3)
    by (intro ledger_grows_move) (simp add: db'_def)
  then have sound: "ledger_sound ?w" using w(1) by (rule executions.grow_inv [rotated])
  have same: "times_executed ?w = times_executed w" by (simp add: times_executed_def fun_eq_iff)
  have "\<exists>T'. token_step ledger_grows call_started_at times_executed {} T' w ?w
      \<and> ledger_sound ?w \<and> (is_ok r \<longrightarrow> cid \<in> T')"
  proof (cases "db' = pw_db w")
    case True
    with write_outcome_unchanged [of "pw_db w" cid c rec out at] assms(2) have "\<not> is_ok r"
      by (simp add: db'_def r_def ToolOutcome_is_terminal_def)
    with grow same sound show ?thesis by (auto intro: token_step.plain)
  next
    case False
    with write_outcome_claims [OF inv(1,2) assms, of out at] inv(3)
    have "\<not> call_started_at w cid" "call_started_at ?w cid" by (auto simp: db'_def call_started_at_def)
    with grow same sound show ?thesis by (intro exI [of _ "{cid}"]) (auto intro: token_step.claim)
  qed
  then show "\<exists>T'. token_step ledger_grows call_started_at times_executed {} T' w
      (fst (case write_outcome (pw_db w) cid c rec out at of
         (db, r) \<Rightarrow> (w\<lparr>pw_db := db\<rparr>, map_err (\<lambda>e. Pipe_Storage (Store_Calls e)) r)))
      \<and> ledger_sound (fst (case write_outcome (pw_db w) cid c rec out at of
         (db, r) \<Rightarrow> (w\<lparr>pw_db := db\<rparr>, map_err (\<lambda>e. Pipe_Storage (Store_Calls e)) r)))
      \<and> (is_ok (snd (case write_outcome (pw_db w) cid c rec out at of
         (db, r) \<Rightarrow> (w\<lparr>pw_db := db\<rparr>, map_err (\<lambda>e. Pipe_Storage (Store_Calls e)) r))) \<longrightarrow> cid \<in> T')"
    by (cases r) (auto simp: db'_def r_def is_ok_iff split: prod.splits)
qed auto

lemma plain_record_outcome:
  assumes "record_honest rec"
  shows "plain (record_outcome cid rec out at)"
  unfolding plain_def record_outcome_def and_await_def
proof (intro allI disc_bind [OF disc_read_stored_call])
  fix T a T'
  show "pipeline_disc (\<lambda>_ S _. S = T) (\<lambda>w. (\<forall>c. a = Ok c \<longrightarrow> read_current (ledger_rows w) c) \<and>
      (T' = T \<and> (\<forall>c. a = Ok c \<longrightarrow> stc_id c = cid))) T'
      (case a of Inl e \<Rightarrow> Done (Inl e) | Inr c \<Rightarrow> on_db (\<lambda>db. write_outcome db cid c rec out at))"
  proof (cases a)
    case (Inr c)
    show ?thesis
      unfolding Inr on_db_def sum.case
    proof (rule disc_perform)
      fix w assume w: "ledger_sound w" "(\<forall>c'. Inr c = Ok c' \<longrightarrow> read_current (ledger_rows w) c') \<and>
          (T' = T \<and> (\<forall>c'. Inr c = Ok c' \<longrightarrow> stc_id c' = cid))"
      then have "ledger_grows w (w\<lparr>pw_db := fst (write_outcome (pw_db w) cid c rec out at)\<rparr>)"
        using write_outcome_move [OF _ _ assms, of "pw_db w" c out at]
        by (intro ledger_grows_move) (auto simp: ledger_sound_def)
      with w show "\<exists>S. token_step ledger_grows call_started_at times_executed T' S w
        (fst (case write_outcome (pw_db w) cid c rec out at of
          (db, r) \<Rightarrow> (w\<lparr>pw_db := db\<rparr>, map_err (\<lambda>e. Pipe_Storage (Store_Calls e)) r)))
        \<and> ledger_sound (fst (case write_outcome (pw_db w) cid c rec out at of
          (db, r) \<Rightarrow> (w\<lparr>pw_db := db\<rparr>, map_err (\<lambda>e. Pipe_Storage (Store_Calls e)) r))) \<and> S = T"
        by (auto split: prod.splits simp: times_executed_def intro!: token_step.plain
            dest: executions.grow_inv)
    qed auto
  qed (auto intro: disc.disc_done)
qed


text \<open>A handler that has claimed the call \<open>cid\<close> and not yet acted.\<close>

definition holding :: "ident \<Rightarrow> (pipeline_world, 'a) async \<Rightarrow> bool" where
  "holding cid p \<longleftrightarrow> (\<forall>T. cid \<in> T \<longrightarrow> pipeline_disc (\<lambda>_ _ _. True) (\<lambda>_. True) T p)"

lemma plain_disc: "plain p \<Longrightarrow> pipeline_disc (\<lambda>_ _ _. True) K T p"
  unfolding plain_def by (blast intro: disc_cons disc_weaken)

lemma holding_plain: "plain p \<Longrightarrow> holding cid p"
  by (simp add: holding_def plain_disc)

lemma holding_and_await: "plain p \<Longrightarrow> (\<And>a. holding cid (k a)) \<Longrightarrow> holding cid (and_await p k)"
  unfolding holding_def and_await_def plain_def
  by (intro allI impI disc_then) (auto intro: disc.disc_done split: sum.split)

lemma executed_once_more:
  "times_executed (w\<lparr>pw_executed := pw_executed w @ [q]\<rparr>)
    = (times_executed w)(exp_call_id q := Suc (times_executed w (exp_call_id q)))"
  by (auto simp: times_executed_def)

definition adapters_honest :: "ToolPipeline \<Rightarrow> bool" where
  "adapters_honest pl \<longleftrightarrow> (\<forall>adapter q r. pl_adapter pl adapter q = Ok r \<longrightarrow> record_honest (res_record r))"

lemma disc_execute_adapter:
  assumes "exp_call_id q = cid" "cid \<in> T" "adapters_honest pl"
  shows "pipeline_disc (\<lambda>a _ _. \<forall>r. a = Ok r \<longrightarrow> record_honest (res_record r)) K T (execute_adapter pl adapter q)"
  unfolding execute_adapter_def
proof (rule disc_perform, intro exI conjI allI impI)
  fix w assume "ledger_sound w"
  then show "token_step ledger_grows call_started_at times_executed T (T - {cid}) w
      (fst (w\<lparr>pw_executed := pw_executed w @ [q]\<rparr>, map_err Pipe_AdapterCall (pl_adapter pl adapter q)))"
    using assms by (auto intro: token_step.act simp: executed_once_more)
next
  fix w assume "ledger_sound w"
  then show "ledger_sound (fst (w\<lparr>pw_executed := pw_executed w @ [q]\<rparr>, map_err Pipe_AdapterCall (pl_adapter pl adapter q)))"
    by (simp add: ledger_sound_def)
next
  fix w r
  assume "snd (w\<lparr>pw_executed := pw_executed w @ [q]\<rparr>, map_err Pipe_AdapterCall (pl_adapter pl adapter q)) = Ok r"
  then show "record_honest (res_record r)"
    using assms(3) by (cases "pl_adapter pl adapter q") (auto simp: adapters_honest_def)
qed auto

lemma holding_execute:
  assumes "exp_call_id q = cid" "adapters_honest pl"
    and "\<And>r. record_honest (res_record r) \<Longrightarrow> plain (k r)"
  shows "holding cid (and_await (execute_adapter pl adapter q) k)"
  unfolding holding_def and_await_def
proof (intro allI impI disc_bind [OF disc_execute_adapter [OF assms(1) _ assms(2)]])
  fix T T' a
  show "pipeline_disc (\<lambda>_ _ _. True) (\<lambda>_. \<forall>r. a = Ok r \<longrightarrow> record_honest (res_record r)) T'
      (case a of Inl e \<Rightarrow> Done (Inl e) | Inr r \<Rightarrow> k r)"
    by (rule disc_pure) (auto intro: plain_disc assms(3) split: sum.split)
qed

lemma ToolOutcomeRecord_new_outcome: "ToolOutcomeRecord_new oc = Ok r \<Longrightarrow> rec_outcome r = oc"
  by (cases oc) auto

lemma plain_advance_call [intro]: "plain (advance_call cid oc at)"
  unfolding advance_call_def
  by (intro plain_lift plain_record_outcome) (auto dest: constructors_honest(1))

lemma disc_claim:
  "pipeline_disc (\<lambda>a T' _. is_ok a \<longrightarrow> cid \<in> T') (\<lambda>_. True) {} (advance_call cid Authorized at)"
proof (cases "ToolOutcomeRecord_new Authorized")
  case (Inr rec)
  note rec = constructors_honest(1) [OF Inr] ToolOutcomeRecord_new_outcome [OF Inr]
  have "pipeline_disc (\<lambda>a T' _. is_ok a \<longrightarrow> cid \<in> T') (\<lambda>_. True) {} (record_outcome cid rec None at)"
    unfolding record_outcome_def and_await_def
  proof (intro disc_bind [OF disc_read_stored_call])
    fix a :: "ToolPipelineError + StoredToolCall" and T' :: "ident set"
    let ?K = "\<lambda>w. (\<forall>c. a = Ok c \<longrightarrow> read_current (ledger_rows w) c) \<and>
        (T' = {} \<and> (\<forall>c. a = Ok c \<longrightarrow> stc_id c = cid))"
    show "pipeline_disc (\<lambda>a T' _. is_ok a \<longrightarrow> cid \<in> T') ?K T'
        (case a of Inl e \<Rightarrow> Done (Inl e) | Inr c \<Rightarrow> on_db (\<lambda>db. write_outcome db cid c rec None at))"
    proof (cases a)
      case a: (Inr c)
      show ?thesis
      proof (cases "T' = {}")
        case True
        then show ?thesis
          using disc_weaken [OF disc_write_authorized [OF rec, of cid c None at], where K' = ?K] by (simp add: a)
      next
        case False
        then show ?thesis using disc_weaken [OF disc_pure [of False], where K' = ?K] by simp
      qed
    qed (auto intro!: disc.disc_done)
  qed
  then show ?thesis by (simp only: advance_call_def Inr map_err_simps lift_result_def sum.case)
qed simp


lemma and_await_Done [simp]: "and_await (Done (Inl e)) k = Done (Inl e)" "and_await (Done (Inr a)) k = k a"
  by (simp_all add: and_await_def)

lemma read_context_of_simps [simp]:
  "exp_call_id (read_context_of pl context q) = exp_call_id q"
  "exp_receipt (read_context_of pl context q) = exp_receipt q"
  "exp_arguments (read_context_of pl context q) = exp_arguments q"
  "exp_tool (read_context_of pl context q) = exp_tool q"
  "exp_tool_version (read_context_of pl context q) = exp_tool_version q"
  by (auto simp: read_context_of_def with_read_context_def split: option.split)

lemma request_keeps_call_id: "ToolExecutionRequest_new ts sha p = Ok q \<Longrightarrow> exp_call_id q = exp_call_id p"
  by (auto simp: ToolExecutionRequest_new_def Let_def ToolExecutionRequestParts.defs split: if_splits)

lemma orderly_claim:
  assumes "\<And>c. holding cid (k c)"
  shows "orderly (and_await (advance_call cid Authorized at) k)"
  unfolding orderly_def and_await_def
proof (rule disc_bind [OF disc_claim])
  fix a T'
  show "pipeline_disc (\<lambda>_ _ _. True) (\<lambda>_. is_ok a \<longrightarrow> cid \<in> T') T'
      (case a of Inl e \<Rightarrow> Done (Inl e) | Inr c \<Rightarrow> k c)"
  proof (cases a)
    case (Inr c)
    have "pipeline_disc (\<lambda>_ _ _. True) (\<lambda>_. cid \<in> T') T' (k c)"
      by (rule disc_pure) (use assms [of c] in \<open>simp add: holding_def\<close>)
    with Inr show ?thesis by simp
  qed (auto intro!: disc.disc_done)
qed

lemma orderly_execute_and_record:
  assumes "adapters_honest pl"
  shows "orderly (execute_and_record pl dr prepared tool d corr)"
  unfolding execute_and_record_def Let_def
proof (intro orderly_lift orderly_claim holding_and_await [OF plain_advance_call])
  fix tid plain_request c c'
  assume "map_err Pipe_Request (ToolExecutionRequest_new (pl_to_string pl) (pl_sha256 pl)
      (execution_parts pl prepared tid d corr)) = Ok plain_request"
  then have "exp_call_id plain_request = prep_call_id prepared"
    by (auto simp: execution_parts_def dest: request_keeps_call_id)
  then have "holding (prep_call_id prepared) (and_await
      (execute_adapter pl adapter (read_context_of pl (prep_read_context prepared) plain_request))
      (\<lambda>result. and_await (record_outcome (prep_call_id prepared) (res_record result)
          (map_option (\<lambda>o'. (out_content o', out_truncated o')) (res_output result)) (res_reported_at result))
        (\<lambda>_. Done (Ok (Executed result)))))" for adapter
    by (intro holding_execute assms plain_and_await plain_record_outcome plain_Done) simp_all
  then show "holding (prep_call_id prepared) (and_await
      (case adapter_for (pl_dispatch pl) (exp_tool (read_context_of pl (prep_read_context prepared) plain_request)) of
         None \<Rightarrow> Done (Err (Pipe_Dispatch (Uncovered tool)))
       | Some adapter \<Rightarrow> execute_adapter pl adapter (read_context_of pl (prep_read_context prepared) plain_request))
      (\<lambda>result. and_await (record_outcome (prep_call_id prepared) (res_record result)
          (map_option (\<lambda>o'. (out_content o', out_truncated o')) (res_output result)) (res_reported_at result))
        (\<lambda>_. Done (Ok (Executed result)))))"
    by (cases "adapter_for (pl_dispatch pl) (exp_tool plain_request)")
      (simp_all add: holding_plain [OF plain_Done] and_await_Done)
qed

lemma plain_case_async:
  "(\<And>x. plain (f x)) \<Longrightarrow> plain z \<Longrightarrow> plain (case v of None \<Rightarrow> z | Some x \<Rightarrow> f x)"
  by (cases v) auto

lemma plain_refuses_child [intro]: "plain (refuses_child_delegation d rid)"
  unfolding refuses_child_delegation_def by (auto intro: plain_and_await)

lemma plain_link_hold [intro]: "plain (link_hold cid aid at)"
  unfolding link_hold_def
  by (rule plain_perform)
    (auto simp: ledger_sound_def split: prod.split intro!: ledger_grows_move, metis fst_conv link_move)

lemma plain_record_hold [intro]: "plain (record_hold pl dr hold)"
  unfolding record_hold_def attach_held_arguments_def Let_def
  by (intro plain_lift plain_and_await plain_on_approvals plain_link_hold plain_append_event plain_Done
      plain_case_async)

lemma plain_admit [intro]:
  "NewToolCall_new cid origin target binding corr at = Ok new \<Longrightarrow> plain (on_db (\<lambda>db. admit_tool_call pe db new))"
  by (rule plain_on_db) (rule admit_move)

lemma plain_refuse_repeated [intro]: "plain (refuse_repeated pl actor decision intent)"
  unfolding refuse_repeated_def by (auto intro!: plain_and_await plain_case_async)

lemma plain_authorize_and_admit [intro]: "plain (authorize_and_admit pl dr tool d arguments actor decision corr)"
  unfolding authorize_and_admit_def Let_def
  by (intro plain_lift plain_and_await plain_bind plain_refuse_repeated plain_admit) (auto intro!: plain_and_await plain_lift)

lemma orderly_call_decided:
  assumes "adapters_honest pl"
  shows "orderly (call_decided pl dr tool d arguments actor decision corr)"
  unfolding call_decided_def
  by (auto intro!: orderly_and_await orderly_execute_and_record assms split: Admission.split)

lemma orderly_call_admitted:
  assumes "adapters_honest pl"
  shows "orderly (call_admitted pl dr tool arguments actor corr)"
  unfolding call_admitted_def
  by (auto intro!: orderly_lift orderly_and_await orderly_call_decided assms)

lemma orderly_then_plain: "orderly p \<Longrightarrow> (\<And>a. plain (k a)) \<Longrightarrow> orderly (async_bind p k)"
  unfolding orderly_def by (intro disc_bind [where Q = "\<lambda>_ _ _. True"]) (auto intro: plain_disc)

lemma orderly_while_admitted:
  assumes "orderly p"
  shows "orderly (while_admitted p)"
  unfolding while_admitted_def
proof (rule orderly_bind)
  show "plain (perform (\<lambda>w. case admit (pw_gate w) of (g, r) \<Rightarrow> (w\<lparr>pw_gate := g\<rparr>, r)))"
    by (rule plain_perform) (auto split: prod.split)
  have "plain (perform (\<lambda>w. (w\<lparr>pw_gate := drop_work_permit (pw_gate w)\<rparr>, out)))" for out
    by (rule plain_perform) auto
  then have "orderly (async_bind p (\<lambda>out. perform (\<lambda>w. (w\<lparr>pw_gate := drop_work_permit (pw_gate w)\<rparr>, out))))"
    using assms by (intro orderly_then_plain)
  then show "orderly (case r of Inl _ \<Rightarrow> Done (Ok (Pipe_Refused (lit ''daemon_stopping'')))
      | Inr _ \<Rightarrow> async_bind p (\<lambda>out. perform (\<lambda>w. (w\<lparr>pw_gate := drop_work_permit (pw_gate w)\<rparr>, out))))" for r
    by (auto split: sum.split)
qed

lemma adapter_answer_honest: "fst (adapter_answer e) = Ok rec \<Longrightarrow> record_honest rec"
  by (cases e) (auto simp: adapter_answer_def Let_def simp del: ToolOutcomeRecord_new.simps
      intro: constructors_honest)

lemma plain_settle [intro]: "plain (settle_after_adapter_error dr cid e)"
  unfolding settle_after_adapter_error_def
  by (intro plain_lift plain_and_await plain_record_outcome plain_Done) (auto intro: adapter_answer_honest)

lemma orderly_resume_prepared:
  assumes "adapters_honest pl"
  shows "orderly (resume_prepared pl dr cid arguments actor corr stored approval intent citation d)"
  unfolding resume_prepared_def
  by (intro orderly_lift orderly_then_plain orderly_execute_and_record assms)
    (auto split: sum.split ToolPipelineError.split)

lemma orderly_refuse_if: "orderly k \<Longrightarrow> orderly (refuse_if c cid reason k)"
  by (simp add: refuse_if_def)

lemma orderly_resume_authorized:
  assumes "adapters_honest pl"
  shows "orderly (resume_authorized pl dr cid arguments actor corr stored approval)"
  unfolding resume_authorized_def
  by (auto intro!: orderly_refuse_if orderly_lift orderly_and_await orderly_resume_prepared assms split: option.split)

lemma plain_read_call [intro]: "plain (read_call cid)"
  unfolding read_call_def by (auto intro: plain_bind)

lemma orderly_resume_admitted:
  assumes "adapters_honest pl"
  shows "orderly (resume_admitted pl dr cid arguments actor corr)"
  unfolding resume_admitted_def
  by (auto intro!: orderly_refuse_if orderly_and_await orderly_resume_authorized assms split: option.split)

section \<open>Every handler at once\<close>

text \<open>The handlers a daemon may have running: any call and any resumption, with whatever they draw.\<close>

inductive_set pipeline_handlers :: "ToolPipeline \<Rightarrow> ToolPipelineOutcome pipeline_call set" for pl where
  calls: "call_tool pl dr tool arguments actor corr \<in> pipeline_handlers pl"
| resumptions: "resume pl dr cid arguments actor corr \<in> pipeline_handlers pl"

text \<open>
  What else happens around them: runs move, the owner decides and withdraws, policy is replaced, the
  gate closes, remote calls are served, and recovery settles what a stopped daemon left.
\<close>

inductive outside :: "pipeline_world \<Rightarrow> pipeline_world \<Rightarrow> bool" where
  runs_move: "db_step (cdb_store (pw_db w)) store \<Longrightarrow> outside w (w\<lparr>pw_db := (pw_db w)\<lparr>cdb_store := store\<rparr>\<rparr>)"
| owner_acts: "outside w (w\<lparr>pw_approvals := rows\<rparr>)"
| policy_set: "outside w (w\<lparr>pw_policy := policy\<rparr>)"
| gate_moves: "outside w (w\<lparr>pw_gate := g\<rparr>)"
| remote_served: "outside w (w\<lparr>pw_served := requests\<rparr>)"
| orphans_settle: "outside w (w\<lparr>pw_db := fst (settle_orphaned_calls (pw_db w) at)\<rparr>)"

lemma outside_grows: "outside w w' \<Longrightarrow> ledger_sound w \<Longrightarrow> ledger_grows w w' \<and> times_executed w' = times_executed w"
  by (cases rule: outside.cases)
    (auto simp: times_executed_def fun_eq_iff ledger_grows_def ledger_sound_def settle_orphaned_calls_def
      intro: settle_loop_moves)

lemma pipeline_disciplined: "adapters_honest pl \<Longrightarrow> executions.disciplined outside (pipeline_handlers pl)"
  using orderly_while_admitted [OF orderly_call_admitted] orderly_while_admitted [OF orderly_resume_admitted]
  unfolding executions.disciplined_def
  by (auto simp: call_tool_def resume_def orderly_def outside_grows elim!: pipeline_handlers.cases)

end
