(* ===== verification/Tool_Pipeline_Guarantees.thy ===== *)
theory Tool_Pipeline_Guarantees
  imports Tool_Pipeline_Laws
begin

text \<open>
  The properties of the tool pipeline: no call is executed twice under any interleaving, and what each
  handler must have established before it asks an adapter, holds a call, or refuses one. The second
  half is about one handler running from start to end (\<open>run\<close>); \<open>asks p w q\<close> says that handler \<open>p\<close>,
  started in world \<open>w\<close>, asks an adapter to execute exactly the request \<open>q\<close>.
\<close>

section \<open>What a handler leaves alone, and what it asks\<close>

definition preserves :: "('w \<Rightarrow> 'b) \<Rightarrow> ('w, 'a) async \<Rightarrow> bool" where
  "preserves f p \<longleftrightarrow> (\<forall>w. f (fst (run p w)) = f w)"

definition asks :: "(pipeline_world, 'a) async \<Rightarrow> pipeline_world \<Rightarrow> ToolExecutionRequest \<Rightarrow> bool" where
  "asks p w q \<longleftrightarrow> pw_executed (fst (run p w)) = pw_executed w @ [q]"

definition at_most_once :: "(pipeline_world, 'a) async \<Rightarrow> bool" where
  "at_most_once p \<longleftrightarrow> (\<forall>w. pw_executed (fst (run p w)) = pw_executed w \<or> (\<exists>q. asks p w q))"

named_theorems keeps_intros

lemma keepsD: "preserves f p \<Longrightarrow> run p w = (w', a) \<Longrightarrow> f w' = f w"
  by (metis fst_conv preserves_def)

lemma keeps_Done [keeps_intros]: "preserves f (Done a)"
  by (simp add: preserves_def)

lemma keeps_bind [keeps_intros]: "preserves f p \<Longrightarrow> (\<And>a. preserves f (k a)) \<Longrightarrow> preserves f (async_bind p k)"
  by (simp add: preserves_def run_bind split: prod.split) (metis fst_conv)

lemma keeps_and_await [keeps_intros]:
  "preserves f p \<Longrightarrow> (\<And>a. preserves f (k a)) \<Longrightarrow> preserves f (and_await p k)"
  unfolding and_await_def by (intro keeps_bind) (auto intro: keeps_Done split: sum.split)

lemma keeps_lift [keeps_intros]: "(\<And>a. preserves f (k a)) \<Longrightarrow> preserves f (lift_result r k)"
  by (auto simp: lift_result_def intro: keeps_Done split: sum.split)

lemma keeps_perform: "(\<And>w. f (fst (g w)) = f w) \<Longrightarrow> preserves f (perform g)"
  by (simp add: preserves_def)

lemma keeps_if [keeps_intros]: "preserves f p \<Longrightarrow> preserves f q \<Longrightarrow> preserves f (if c then p else q)"
  by simp

lemma keeps_case_option [keeps_intros]:
  "preserves f z \<Longrightarrow> (\<And>x. preserves f (k x)) \<Longrightarrow> preserves f (case v of None \<Rightarrow> z | Some x \<Rightarrow> k x)"
  by (cases v) auto

lemma asks_Done [simp]: "\<not> asks (Done a) w q"
  by (simp add: asks_def)

lemma asks_bind: "preserves pw_executed p \<Longrightarrow> asks (async_bind p k) w q
    \<longleftrightarrow> (\<exists>a w'. run p w = (w', a) \<and> asks (k a) w' q)"
  by (cases "run p w") (auto simp: asks_def run_bind dest: keepsD)

lemma asks_and_await: "preserves pw_executed p \<Longrightarrow> asks (and_await p k) w q
    \<longleftrightarrow> (\<exists>a w'. run p w = (w', Inr a) \<and> asks (k a) w' q)"
  unfolding and_await_def by (auto simp: asks_bind split: sum.split_asm)

lemma asks_then: "(\<And>a. preserves pw_executed (k a)) \<Longrightarrow> asks (async_bind p k) w q \<longleftrightarrow> asks p w q"
  by (cases "run p w") (auto simp: asks_def run_bind preserves_def)

lemma asks_and_await_then: "(\<And>a. preserves pw_executed (k a)) \<Longrightarrow> asks (and_await p k) w q \<longleftrightarrow> asks p w q"
  unfolding and_await_def by (rule asks_then) (auto intro: keeps_Done split: sum.split)

lemma asks_lift: "asks (lift_result r k) w q \<longleftrightarrow> (\<exists>a. r = Inr a \<and> asks (k a) w q)"
  by (auto simp: lift_result_def split: sum.split)

lemma once_Done [intro]: "at_most_once (Done a)"
  by (simp add: at_most_once_def)

lemma once_keeps: "preserves pw_executed p \<Longrightarrow> at_most_once p"
  by (simp add: at_most_once_def preserves_def)

lemma once_bind: "preserves pw_executed p \<Longrightarrow> (\<And>a. at_most_once (k a)) \<Longrightarrow> at_most_once (async_bind p k)"
  unfolding at_most_once_def by (auto simp: asks_bind) (metis (no_types, lifting) case_prod_conv keepsD prod.collapse run_bind)

lemma once_then: "at_most_once p \<Longrightarrow> (\<And>a. preserves pw_executed (k a)) \<Longrightarrow> at_most_once (async_bind p k)"
  unfolding at_most_once_def
  by (auto simp: asks_then) (metis (no_types, lifting) case_prod_conv keepsD prod.collapse run_bind)

lemma once_and_await: "preserves pw_executed p \<Longrightarrow> (\<And>a. at_most_once (k a)) \<Longrightarrow> at_most_once (and_await p k)"
  unfolding and_await_def by (intro once_bind) (auto split: sum.split)

lemma once_and_await_then:
  "at_most_once p \<Longrightarrow> (\<And>a. preserves pw_executed (k a)) \<Longrightarrow> at_most_once (and_await p k)"
  unfolding and_await_def by (intro once_then) (auto intro: keeps_Done split: sum.split)

lemma once_lift: "(\<And>a. at_most_once (k a)) \<Longrightarrow> at_most_once (lift_result r k)"
  by (auto simp: lift_result_def split: sum.split)

text \<open>The pieces of the handlers.\<close>

lemma keeps_on_db [keeps_intros]:
  "preserves pw_executed (on_db f)" "preserves pw_policy (on_db f)" "preserves pw_served (on_db f)"
  "preserves pw_gate (on_db f)" "preserves pw_approvals (on_db f)"
  by (auto simp: on_db_def split: prod.split intro!: keeps_perform)

lemma keeps_read_db [keeps_intros]: "preserves f (on_db (\<lambda>db. (db, g db)))"
  by (auto simp: on_db_def intro!: keeps_perform)

lemma keeps_on_store [keeps_intros]:
  "preserves pw_executed (on_store f)" "preserves pw_policy (on_store f)" "preserves pw_served (on_store f)"
  "preserves pw_gate (on_store f)" "preserves pw_approvals (on_store f)" "preserves ledger_rows (on_store f)"
  by (auto simp: on_store_def split: prod.split intro!: keeps_perform)

lemma keeps_read_store [keeps_intros]: "preserves f (on_store (\<lambda>s. (s, g s)))"
  by (auto simp: on_store_def intro!: keeps_perform)

lemma keeps_on_approvals [keeps_intros]:
  "preserves pw_executed (on_approvals f)" "preserves pw_policy (on_approvals f)" "preserves pw_served (on_approvals f)"
  "preserves pw_gate (on_approvals f)" "preserves pw_db (on_approvals f)"
  by (auto simp: on_approvals_def split: prod.split intro!: keeps_perform)

lemma keeps_read_approvals [keeps_intros]: "preserves f (on_approvals (\<lambda>rows. (rows, g rows)))"
  by (auto simp: on_approvals_def intro!: keeps_perform)

lemma keeps_workspace_policy [keeps_intros]: "preserves f workspace_policy"
  by (auto simp: workspace_policy_def intro!: keeps_perform)

lemma keeps_refuses_child [keeps_intros]: "preserves f (refuses_child_delegation d rid)"
  unfolding refuses_child_delegation_def by (intro keeps_intros)

lemma keeps_read_call [keeps_intros]: "preserves f (read_call cid)" "preserves f (read_stored_call cid)"
  unfolding read_call_def read_stored_call_def by (intro keeps_intros)+

lemma keeps_record_outcome [keeps_intros]:
  "preserves pw_executed (record_outcome cid rec out at)" "preserves pw_policy (record_outcome cid rec out at)"
  "preserves pw_gate (record_outcome cid rec out at)" "preserves pw_approvals (record_outcome cid rec out at)"
  unfolding record_outcome_def by (intro keeps_intros)+

lemma keeps_advance_call [keeps_intros]:
  "preserves pw_executed (advance_call cid oc at)" "preserves pw_policy (advance_call cid oc at)"
  "preserves pw_gate (advance_call cid oc at)" "preserves pw_approvals (advance_call cid oc at)"
  unfolding advance_call_def by (intro keeps_intros)+

lemma keeps_append_event [keeps_intros]:
  "preserves pw_executed (append_event pl eid rid kind summary payload corr at)"
  "preserves pw_policy (append_event pl eid rid kind summary payload corr at)"
  "preserves pw_gate (append_event pl eid rid kind summary payload corr at)"
  "preserves pw_approvals (append_event pl eid rid kind summary payload corr at)"
  "preserves ledger_rows (append_event pl eid rid kind summary payload corr at)"
  unfolding append_event_def Let_def by (intro keeps_intros)+

lemma keeps_link_hold [keeps_intros]:
  "preserves pw_executed (link_hold cid aid at)" "preserves pw_policy (link_hold cid aid at)"
  "preserves pw_gate (link_hold cid aid at)" "preserves pw_approvals (link_hold cid aid at)"
  unfolding link_hold_def by (auto split: prod.split intro!: keeps_perform)

lemma keeps_attach [keeps_intros]:
  "preserves pw_executed (attach_held_arguments pl aid v)" "preserves pw_policy (attach_held_arguments pl aid v)"
  "preserves pw_gate (attach_held_arguments pl aid v)" "preserves pw_db (attach_held_arguments pl aid v)"
  unfolding attach_held_arguments_def by (intro keeps_intros)+

lemma keeps_record_hold [keeps_intros]:
  "preserves pw_executed (record_hold pl dr hold)" "preserves pw_policy (record_hold pl dr hold)"
  "preserves pw_gate (record_hold pl dr hold)"
  unfolding record_hold_def Let_def by (intro keeps_intros)+

lemma keeps_refuse_repeated [keeps_intros]: "preserves f (refuse_repeated pl actor decision intent)"
  unfolding refuse_repeated_def by (intro keeps_intros)

lemma keeps_authorize_and_admit [keeps_intros]:
  "preserves pw_executed (authorize_and_admit pl dr tool d arguments actor decision corr)"
  "preserves pw_policy (authorize_and_admit pl dr tool d arguments actor decision corr)"
  "preserves pw_gate (authorize_and_admit pl dr tool d arguments actor decision corr)"
  unfolding authorize_and_admit_def Let_def by (intro keeps_intros)+

lemma keeps_settle [keeps_intros]: "preserves pw_executed (settle_after_adapter_error dr cid e)"
  unfolding settle_after_adapter_error_def by (intro keeps_intros)


lemma run_reads [simp]:
  "run (on_db (\<lambda>db. (db, f db))) w = (w, map_err (\<lambda>e. Pipe_Storage (Store_Calls e)) (f (pw_db w)))"
  "run (on_store (\<lambda>s. (s, g s))) w = (w, map_err (\<lambda>e. Pipe_Storage (Store_Runs e)) (g (cdb_store (pw_db w))))"
  "run (on_approvals (\<lambda>rows. (rows, h rows))) w
     = (w, map_err (\<lambda>e. Pipe_Storage (Store_Approvals e)) (h (pw_approvals w)))"
  "run workspace_policy w = (w, Inr (pw_policy w))"
  by (simp_all add: on_db_def on_store_def on_approvals_def workspace_policy_def)

lemma run_read_call [simp]:
  "run (read_call cid) w = (w, map_err (\<lambda>e. if e = ToolCallNotFound then UnknownCall cid
     else Pipe_Storage (Store_Calls e)) (find_tool_call (pw_db w) cid))"
  by (cases "find_tool_call (pw_db w) cid") (simp_all add: read_call_def read_stored_call_def run_bind)

lemma refuses_child_run:
  "run (refuses_child_delegation d rid) w = (w', Inr child) \<Longrightarrow> w' = w
    \<and> (\<not> child \<longrightarrow> Delegation \<in> td_effects d
        \<longrightarrow> (\<exists>r. find_run (cdb_store (pw_db w)) rid = Ok r \<and> \<not> run_is_delegated r))"
  by (auto simp: refuses_child_delegation_def run_and_await split: if_splits sum.splits)

section \<open>Asking an adapter\<close>

lemma asks_execute: "asks (execute_adapter pl adapter q) w q' \<longleftrightarrow> q' = q"
  by (auto simp: execute_adapter_def asks_def)

lemma once_execute: "at_most_once (execute_adapter pl adapter q)"
  by (auto simp: at_most_once_def asks_execute)

lemma asks_execute_and_record:
  assumes "asks (execute_and_record pl dr prepared tool d corr) w q"
  obtains tid plain_request call w' adapter where
    "ToolId_from_str tool = Ok tid"
    "ToolExecutionRequest_new (pl_to_string pl) (pl_sha256 pl) (execution_parts pl prepared tid d corr) = Ok plain_request"
    "q = read_context_of pl (prep_read_context prepared) plain_request"
    "run (advance_call (prep_call_id prepared) Authorized (prep_issued_at prepared)) w = (w', Ok call)"
    "adapter_for (pl_dispatch pl) tid = Some adapter"
proof -
  note [keeps_intros] = keeps_settle
  from assms obtain tid plain_request where a: "ToolId_from_str tool = Ok tid"
      "ToolExecutionRequest_new (pl_to_string pl) (pl_sha256 pl) (execution_parts pl prepared tid d corr) = Ok plain_request"
    and rest: "asks (and_await (advance_call (prep_call_id prepared) Authorized (prep_issued_at prepared)) (\<lambda>_.
       and_await (advance_call (prep_call_id prepared) Submitted (dr_submitted_at dr)) (\<lambda>_.
       and_await (case adapter_for (pl_dispatch pl) (exp_tool (read_context_of pl (prep_read_context prepared) plain_request)) of
          None \<Rightarrow> Done (Err (Pipe_Dispatch (Uncovered tool)))
        | Some adapter \<Rightarrow> execute_adapter pl adapter (read_context_of pl (prep_read_context prepared) plain_request)) (\<lambda>result.
       and_await (record_outcome (prep_call_id prepared) (res_record result)
          (map_option (\<lambda>o'. (out_content o', out_truncated o')) (res_output result)) (res_reported_at result)) (\<lambda>_.
         Done (Ok (Executed result))))))) w q"
    by (auto simp: execute_and_record_def asks_lift)
  from rest obtain call w' w'' where c: "run (advance_call (prep_call_id prepared) Authorized (prep_issued_at prepared)) w = (w', Ok call)"
    and inner: "asks (case adapter_for (pl_dispatch pl) (exp_tool plain_request) of
          None \<Rightarrow> Done (Err (Pipe_Dispatch (Uncovered tool)))
        | Some adapter \<Rightarrow> execute_adapter pl adapter (read_context_of pl (prep_read_context prepared) plain_request)) w'' q"
    by (auto simp: asks_and_await keeps_advance_call keeps_record_outcome keeps_and_await keeps_Done asks_and_await_then)
  have "exp_tool plain_request = tid"
    using ToolExecutionRequest_new_Ok(7) [OF a(2)] by (simp add: execution_parts_def)
  with inner that [OF a _ c] show ?thesis by (auto simp: asks_execute split: option.splits)
qed

lemma request_fields:
  "ToolExecutionRequest_new ts sha p = Ok q \<Longrightarrow> exp_call_id q = exp_call_id p \<and> exp_arguments q = exp_arguments p
    \<and> exp_tool q = exp_tool p \<and> exp_receipt q = exp_receipt p"
  by (auto simp: ToolExecutionRequest_new_def Let_def ToolExecutionRequestParts.defs split: if_splits)

lemma once_execute_and_record: "at_most_once (execute_and_record pl dr prepared tool d corr)"
  unfolding execute_and_record_def Let_def
  by (intro once_lift once_and_await [OF keeps_advance_call(1)] once_and_await_then)
    (auto intro: once_execute keeps_intros split: option.split)

text \<open>A successful write of \<open>authorized\<close> found the call requested and its run open.\<close>

lemma run_record_outcome:
  "run (record_outcome cid rec out at) w = (case record_tool_outcome (pw_db w) cid rec out at of
     (db, r) \<Rightarrow> (w\<lparr>pw_db := db\<rparr>, map_err (\<lambda>e. Pipe_Storage (Store_Calls e)) r))"
  by (auto simp: record_outcome_def read_stored_call_def on_db_def run_and_await record_tool_outcome_def
      split: prod.split sum.split)

lemma authorized_write:
  assumes "run (advance_call cid Authorized at) w = (w', Ok call)" "ledger_sound w"
  obtains r where "r \<in> set (ledger_rows w)" "tcr_id r = cid" "row_outcome r = Some Requested"
    "run_open_for_calls (cdb_store (pw_db w)) (tcr_run_id r)"
proof -
  let ?rec = "\<lparr>rec_outcome = Authorized, rec_evidence = None, rec_reason = None\<rparr>"
  from assms(1) have "snd (record_tool_outcome (pw_db w) cid ?rec None at) = Ok call"
    by (auto simp: advance_call_def run_lift run_record_outcome split: prod.splits)
  then obtain c where c: "find_tool_call (pw_db w) cid = Ok c"
      and s: "snd (write_outcome (pw_db w) cid c ?rec None at) = Ok call"
    by (auto simp: record_tool_outcome_def split: sum.splits)
  from c obtain r where r: "r \<in> set (ledger_rows w)" "tcr_id r = cid" "decode_tool_call r = Ok c"
    by (rule find_tool_call_Ok)
  let ?hit = "outcome_hit (cdb_store (pw_db w)) cid (stc_version c) Authorized"
  from s have adv: "can_advance_to (StoredToolCall_outcome c) Authorized"
    and hit: "rows_affected ?hit (ledger_rows w) \<noteq> 0"
    by (auto simp: write_outcome_def Let_def ToolOutcome_is_terminal_def split: if_splits)
  from adv have "StoredToolCall_outcome c = Requested" by (cases "StoredToolCall_outcome c") auto
  with decode_tool_call_fields(4) [OF r(3)] have req: "row_outcome r = Some Requested" by simp
  from hit obtain x where x: "x \<in> set (ledger_rows w)" "?hit x"
    by (auto simp: rows_affected_def filter_empty_conv)
  with r(1,2) assms(2) calls_inv_inj have "x = r" by (auto simp: ledger_sound_def outcome_hit_def)
  with x have "run_open_for_calls (cdb_store (pw_db w)) (tcr_run_id r)" by (auto simp: outcome_hit_def)
  with that [OF r(1,2) req] show ?thesis .
qed


lemma execution_facts:
  assumes "asks (execute_and_record pl dr prepared tool d corr) w q" "ledger_sound w"
  shows "exp_call_id q = prep_call_id prepared \<and> exp_arguments q = prep_arguments prepared
    \<and> ToolId_from_str tool = Ok (exp_tool q) \<and> exp_receipt q = prep_receipt prepared
    \<and> (\<exists>r \<in> set (ledger_rows w). tcr_id r = prep_call_id prepared \<and> row_outcome r = Some Requested
        \<and> run_open_for_calls (cdb_store (pw_db w)) (tcr_run_id r))"
  using assms
  by (elim asks_execute_and_record)
    (auto simp: execution_parts_def dest!: request_fields elim!: authorized_write)

lemma admit_Ok: "admit s = (g, Inr u) \<Longrightarrow> phase s = Open \<and> \<not> poisoned s \<and> g = s\<lparr>active := active s + 1\<rparr>"
  by (auto simp: admit_def split: if_splits)

lemma asks_while_admitted:
  assumes "asks (while_admitted p) w q"
  obtains "phase (pw_gate w) = Open"
    "asks p (w\<lparr>pw_gate := (pw_gate w)\<lparr>active := active (pw_gate w) + 1\<rparr>\<rparr>) q"
proof -
  have quiet: "preserves pw_executed (perform (\<lambda>w. (w\<lparr>pw_gate := drop_work_permit (pw_gate w)\<rparr>, out)))"
    "preserves pw_executed (perform (\<lambda>w. case admit (pw_gate w) of (g, r) \<Rightarrow> (w\<lparr>pw_gate := g\<rparr>, r)))" for out
    by (auto simp: preserves_def split: prod.split)
  from assms obtain g u where "admit (pw_gate w) = (g, Inr u)" "asks p (w\<lparr>pw_gate := g\<rparr>) q"
    unfolding while_admitted_def asks_bind [OF quiet(2)]
    by (auto simp: asks_then [OF quiet(1)] split: prod.splits sum.splits)
  with admit_Ok that show ?thesis by blast
qed

lemma once_while_admitted: "at_most_once p \<Longrightarrow> at_most_once (while_admitted p)"
  unfolding while_admitted_def
  by (intro once_bind) (auto simp: preserves_def split: prod.split sum.split intro: once_then)

lemma asks_refuse_if: "asks (refuse_if c cid reason k) w q \<longleftrightarrow> \<not> c \<and> asks k w q"
  by (simp add: refuse_if_def)

lemma once_refuse_if: "at_most_once k \<Longrightarrow> at_most_once (refuse_if c cid reason k)"
  by (auto simp: refuse_if_def)

lemma keeps_after_execution:
  "preserves pw_executed (case out of Inl (Pipe_AdapterCall e) \<Rightarrow> settle_after_adapter_error dr cid e | _ \<Rightarrow> Done out)"
  by (auto intro: keeps_Done keeps_settle split: sum.split ToolPipelineError.split)

lemma once_resume: "at_most_once (resume pl dr cid arguments actor corr)"
  unfolding resume_def resume_admitted_def resume_authorized_def resume_prepared_def
  by (auto intro!: once_while_admitted once_and_await once_refuse_if once_lift once_then
      once_execute_and_record keeps_after_execution once_Done keeps_intros split: option.split)

lemma once_call_tool: "at_most_once (call_tool pl dr tool arguments actor corr)"
  unfolding call_tool_def call_admitted_def call_decided_def
  by (auto intro!: once_while_admitted once_and_await once_lift once_execute_and_record
      once_Done keeps_intros split: Admission.split)

lemma asked_once:
  assumes "at_most_once p" "run p w = (w', out)" "pw_executed w' \<noteq> pw_executed w"
  obtains q where "asks p w q" "pw_executed w' = pw_executed w @ [q]"
  using assms unfolding at_most_once_def asks_def by (metis fst_conv)

lemma asks_resume_prepared:
  assumes "asks (resume_prepared pl dr cid arguments actor corr stored approval intent citation d) w q"
    "ledger_sound w"
  shows "exp_call_id q = stc_id stored \<and> exp_arguments q = arguments
    \<and> ToolId_from_str (stc_tool stored) = Ok (exp_tool q)
    \<and> rcp_approval_id (exp_receipt q) = Some (cite_approval_id citation)
    \<and> (\<exists>r \<in> set (ledger_rows w). tcr_id r = stc_id stored
        \<and> run_open_for_calls (cdb_store (pw_db w)) (tcr_run_id r))"
proof -
  from assms(1) obtain tid receipt key where tid: "ToolId_from_str (stc_tool stored) = Ok tid"
    and receipt: "AuthorizationReceipt_new (pl_to_string pl) (pl_sha256 pl)
       \<lparr>arp_receipt_id = stc_id stored, arp_tool = tid, arp_tool_version = stc_tool_version stored,
        arp_arguments = arguments, arp_intent_hash = intent, arp_policy_version = stc_policy_version stored,
        arp_decision = held_by_approval (apr_risk_level approval), arp_approval = Some citation,
        arp_correlation_id = corr, arp_issued_at = dr_now dr\<rparr> = Ok receipt"
    and ask: "asks (execute_and_record pl dr
       \<lparr>prep_call_id = stc_id stored, prep_receipt = receipt, prep_key = key, prep_arguments = arguments,
        prep_issued_at = dr_now dr, prep_read_context = Some (ta_workspace_id actor, ta_read_destination actor)\<rparr>
       (stc_tool stored) d corr) w q"
    by (auto simp: resume_prepared_def asks_lift asks_then [OF keeps_after_execution])
  have "rcp_approval_id receipt = Some (cite_approval_id citation)"
    using receipt by (auto simp: AuthorizationReceipt_new_def Let_def split: if_splits)
  with execution_facts [OF ask assms(2)] tid show ?thesis by auto
qed



lemma run_on_db: "run (on_db f) w = (w\<lparr>pw_db := fst (f (pw_db w))\<rparr>,
    map_err (\<lambda>e. Pipe_Storage (Store_Calls e)) (snd (f (pw_db w))))"
  by (simp add: on_db_def split: prod.split)

lemma run_Ok:
  "run (and_await p k) w = (w', Inr x) \<longleftrightarrow> (\<exists>a v. run p w = (v, Inr a) \<and> run (k a) v = (w', Inr x))"
  "run (lift_result r k') w = (w', Inr x) \<longleftrightarrow> (\<exists>a. r = Inr a \<and> run (k' a) w = (w', Inr x))"
  by (auto simp: run_and_await run_lift split: prod.splits sum.splits)

lemma run_bind_eq: "run (async_bind p k) w = (w', y) \<longleftrightarrow> (\<exists>a v. run p w = (v, a) \<and> run (k a) v = (w', y))"
  by (auto simp: run_bind split: prod.splits)

lemma refuse_repeated_run: "run (refuse_repeated pl actor decision intent) w = (w', a) \<Longrightarrow> w' = w"
  by (rule keepsD [of "\<lambda>v. v"]) (rule keeps_refuse_repeated)

lemma NewToolCall_new_fields: "NewToolCall_new cid origin target binding corr at = Ok new
    \<Longrightarrow> ntc_id new = cid \<and> ntc_origin new = origin \<and> ntc_binding new = binding"
  by (auto simp: NewToolCall_new_def)

lemma admitted_Ok:
  "snd (admit_tool_call pe db new) = Ok cid \<Longrightarrow> fst (admit_tool_call pe db new)
      = db\<lparr>cdb_calls := cdb_calls db @ [admitted_row new]\<rparr> \<and> cid = ntc_id new
    \<and> (\<forall>r \<in> set (cdb_calls db). tcr_id r \<noteq> ntc_id new)"
  by (auto simp: admit_tool_call_def Let_def list_ex_iff split: if_splits)

text \<open>A call that may run at once: it was not held, its row is new, and nothing else changed.\<close>

lemma authorize_runnable:
  assumes "run (authorize_and_admit pl dr tool d arguments actor decision corr) w = (w', Inr (Runnable prepared))"
  shows "\<not> is_held decision \<and> prep_call_id prepared = corr \<and> prep_arguments prepared = arguments
    \<and> cdb_store (pw_db w') = cdb_store (pw_db w)
    \<and> (\<exists>row. ledger_rows w' = ledger_rows w @ [row] \<and> tcr_id row = corr \<and> tcr_run_id row = ta_run_id actor)
    \<and> (\<forall>r \<in> set (ledger_rows w). tcr_id r \<noteq> corr) \<and> (ledger_sound w \<longrightarrow> ledger_sound w')"
proof -
  from assms obtain new key where new: "NewToolCall_new corr
         \<lparr>origin_workspace_id = ta_workspace_id actor, origin_run_id = ta_run_id actor, origin_step_id = None\<rparr>
         \<lparr>target_tool = tool, target_tool_version = td_version d\<rparr>
         key corr (dr_now dr) = Ok new"
    and made: "\<not> is_held decision" "prep_arguments prepared = arguments"
      "w' = w\<lparr>pw_db := fst (admit_tool_call (pl_call_parents pl) (pw_db w) new)\<rparr>"
      "snd (admit_tool_call (pl_call_parents pl) (pw_db w) new) = Ok (prep_call_id prepared)"
    by (auto simp: authorize_and_admit_def Let_def run_Ok run_bind_eq run_on_db
        dest!: refuse_repeated_run split: if_splits)
  note fields = NewToolCall_new_fields [OF new]
  note added = admitted_Ok [OF made(4)]
  have "ledger_sound w'" if "ledger_sound w"
    using admit_move [of "pw_db w", OF _ new, of "pl_call_parents pl"] that made(3)
    by (auto simp: ledger_sound_def ledger_move_def)
  then show ?thesis using made added fields by auto
qed


lemma case_admission:
  "asks (case a of Runnable p \<Rightarrow> k p | Held h \<Rightarrow> Done (z h)) w q \<longleftrightarrow> (\<exists>p. a = Runnable p \<and> asks (k p) w q)"
  "run (case a of Runnable p \<Rightarrow> k p | Held h \<Rightarrow> f h) w = y
    \<longleftrightarrow> (\<exists>h. a = Held h \<and> run (f h) w = y) \<or> (\<exists>p. a = Runnable p \<and> run (k p) w = y)"
  by (cases a; simp)+

lemma append_keeps_runs: "db_runs (fst (append_run_event db new)) = db_runs db"
  by (simp add: append_run_event_def insert_event_def split: option.split)

lemma keeps_append_runs:
  "preserves (\<lambda>w. db_runs (cdb_store (pw_db w))) (append_event pl eid rid kind summary payload corr at)"
  unfolding append_event_def Let_def on_store_def
  by (intro keeps_lift keeps_perform) (auto simp: append_keeps_runs split: prod.split dest: arg_cong [of _ _ fst])

lemma run_open_runs: "db_runs s = db_runs s' \<Longrightarrow> run_open_for_calls s rid = run_open_for_calls s' rid"
  by (simp add: run_open_for_calls_def)

lemma ledger_sound_rows: "ledger_rows w' = ledger_rows w \<Longrightarrow> ledger_sound w' = ledger_sound w"
  by (simp add: ledger_sound_def)

lemma asks_call_decided:
  assumes "asks (call_decided pl dr tool d arguments actor decision corr) w q" "ledger_sound w"
  shows "is_allowed decision \<and> exp_call_id q = corr \<and> exp_arguments q = arguments
    \<and> ToolId_from_str tool = Ok (exp_tool q) \<and> (\<forall>r \<in> set (ledger_rows w). tcr_id r \<noteq> corr)
    \<and> run_open_for_calls (cdb_store (pw_db w)) (ta_run_id actor)"
proof -
  from assms(1) obtain n v u prepared where decision: "\<not> is_denied decision"
    and event: "run (append_event pl (dr_event_id dr) (ta_run_id actor) ToolRequested (lit ''Requested '' @ tool)
         (requested_payload pl tool (td_version d) arguments) corr (dr_event_at dr)) w = (v, Inr n)"
    and admitted: "run (authorize_and_admit pl dr tool d arguments actor decision corr) v = (u, Inr (Runnable prepared))"
    and ask: "asks (execute_and_record pl dr prepared tool d corr) u q"
    by (auto simp: call_decided_def asks_and_await keeps_append_event keeps_authorize_and_admit
        case_admission split: if_splits)
  note same = keepsD [OF keeps_append_event(5) event] keepsD [OF keeps_append_runs event]
  note runnable = authorize_runnable [OF admitted]
  have "ledger_sound v" using same(1) assms(2) by (simp only: ledger_sound_def)
  with runnable have sound: "ledger_sound u" by blast
  from runnable obtain row where row: "ledger_rows u = ledger_rows w @ [row]" "tcr_id row = corr"
      "tcr_run_id row = ta_run_id actor" unfolding same(1) by blast
  from execution_facts [OF ask sound] obtain r where r: "r \<in> set (ledger_rows u)" "tcr_id r = corr"
      "run_open_for_calls (cdb_store (pw_db u)) (tcr_run_id r)" using runnable by auto
  with row calls_inv_inj [of "ledger_rows u" r row] sound have "r = row" by (auto simp: ledger_sound_def)
  have "is_allowed decision"
    using decision runnable by (cases "pd_decision decision") (auto simp: is_allowed_def is_denied_def is_held_def)
  then show ?thesis
    using execution_facts [OF ask sound] runnable r(3) row(3) \<open>r = row\<close> same
    by (auto simp: run_open_runs [of "cdb_store (pw_db v)" "cdb_store (pw_db w)"])
qed

text \<open>C3: a run's own call is executed only as policy allows. When a tool call makes an adapter execute
  anything, it executes exactly one request: a new call of that run, which was not stopped, with the
  arguments given, which the tool's schema accepted, and which policy, as in force, allowed outright;
  a delegated run never executes a tool that delegates; and the daemon was open.\<close>

theorem call_executes_as_policy_allows:
  assumes "run (call_tool pl dr tool arguments actor corr) w = (w', out)" "ledger_sound w"
    and "pw_executed w' \<noteq> pw_executed w"
  shows "\<exists>q d. pw_executed w' = pw_executed w @ [q] \<and> exp_call_id q = corr \<and> exp_arguments q = arguments
    \<and> ToolId_from_str tool = Ok (exp_tool q) \<and> get_tool (pl_registry pl) (exp_tool q) = Ok d
    \<and> validate pl d tool arguments = Ok ()
    \<and> is_allowed (evaluate (policy_request d actor (pw_policy w) {}))
    \<and> (Delegation \<in> td_effects d \<longrightarrow> (\<exists>r. find_run (cdb_store (pw_db w)) (ta_run_id actor) = Ok r \<and> \<not> run_is_delegated r))
    \<and> (\<forall>r \<in> set (ledger_rows w). tcr_id r \<noteq> corr)
    \<and> run_open_for_calls (cdb_store (pw_db w)) (ta_run_id actor)
    \<and> phase (pw_gate w) = Open"
proof -
  from asked_once [OF once_call_tool assms(1,3)] obtain q where
    q: "asks (call_tool pl dr tool arguments actor corr) w q" "pw_executed w' = pw_executed w @ [q]" .
  let ?v = "w\<lparr>pw_gate := (pw_gate w)\<lparr>active := active (pw_gate w) + 1\<rparr>\<rparr>"
  from q(1) have opened: "phase (pw_gate w) = Open" and ask: "asks (call_admitted pl dr tool arguments actor corr) ?v q"
    unfolding call_tool_def by (auto elim: asks_while_admitted)
  from ask obtain d v where d: "definition_for pl tool = Ok d" "validate pl d tool arguments = Ok ()"
    and child: "run (refuses_child_delegation d (ta_run_id actor)) ?v = (v, Inr False)"
    and decided: "asks (call_decided pl dr tool d arguments actor
        (evaluate (policy_request d actor (pw_policy v) {})) corr) v q"
    by (auto simp: call_admitted_def asks_lift asks_and_await keeps_refuses_child keeps_workspace_policy
        split: if_splits)
  from refuses_child_run [OF child] have v: "v = ?v" by simp
  with decided assms(2) have "ledger_sound v" by (simp add: ledger_sound_def)
  from asks_call_decided [OF decided this] d refuses_child_run [OF child] q(2) opened show ?thesis
    by (intro exI [of _ q] exI [of _ d]) (auto simp: v definition_for_def)
qed

section \<open>Refusing and holding\<close>

lemma permit_returned: "\<not> poisoned g \<Longrightarrow> drop_work_permit (g\<lparr>active := active g + 1\<rparr>) = g"
  by (simp add: drop_work_permit_def)

lemma while_admitted_run:
  assumes "run (while_admitted p) w = (w', out)"
  obtains (closed) "w' = w" "out = Inr (Pipe_Refused (lit ''daemon_stopping''))"
  | (admitted) v where "run p (w\<lparr>pw_gate := (pw_gate w)\<lparr>active := active (pw_gate w) + 1\<rparr>\<rparr>) = (v, out)"
      "w' = v\<lparr>pw_gate := drop_work_permit (pw_gate v)\<rparr>" "phase (pw_gate w) = Open" "\<not> poisoned (pw_gate w)"
proof (cases "admit (pw_gate w)")
  case (Pair g r)
  show ?thesis
  proof (cases r)
    case (Inl e)
    with Pair have "g = pw_gate w" by (auto simp: admit_def split: if_splits)
    with Inl Pair assms show ?thesis by (intro closed) (auto simp: while_admitted_def run_bind)
  next
    case (Inr u)
    with Pair admit_Ok [of "pw_gate w" g u] assms show ?thesis
      by (intro admitted [of "fst (run p (w\<lparr>pw_gate := g\<rparr>))"])
        (auto simp: while_admitted_def run_bind split: prod.splits)
  qed
qed

lemma executed_outcome: "run (execute_and_record pl dr prepared tool d corr) w = (w', Inr x) \<Longrightarrow> \<exists>r. x = Executed r"
  by (auto simp: execute_and_record_def Let_def run_Ok)

text \<open>C8: a refused call writes nothing. Whatever the reason (the daemon stopping, policy, a delegated
  run), a call answered with a refusal leaves the daemon's whole state exactly as it was: no event, no
  ledger row, no approval, no adapter asked, and the work permit returned.\<close>

theorem refusal_writes_nothing:
  assumes "run (call_tool pl dr tool arguments actor corr) w = (w', Inr (Pipe_Refused reason))"
  shows "w' = w"
  using assms unfolding call_tool_def
proof (cases rule: while_admitted_run)
  case (admitted v)
  let ?v = "w\<lparr>pw_gate := (pw_gate w)\<lparr>active := active (pw_gate w) + 1\<rparr>\<rparr>"
  from admitted(1) have "v = ?v"
    by (auto simp: call_admitted_def call_decided_def run_Ok case_admission split: if_splits
        dest!: refuses_child_run executed_outcome)
  then show ?thesis by (simp add: admitted(2,4) permit_returned)
qed simp


text \<open>What \<open>record_hold\<close> leaves: the call linked to a new pending approval of the same intent.\<close>

lemma linked_row:
  assumes "r \<in> set (cdb_calls db)" "tcr_id r = cid" "tcr_approval_id r = None"
    and "snd (link_tool_call_approval ae db cid aid at) = Ok ()"
  shows "link_row aid at r \<in> set (cdb_calls (fst (link_tool_call_approval ae db cid aid at)))"
proof -
  have "rows_affected (\<lambda>r. tcr_id r = cid \<and> tcr_approval_id r = None) (cdb_calls db) \<noteq> 0"
    using assms(1-3) by (auto simp: rows_affected_def filter_empty_conv)
  with assms(4) have "fst (link_tool_call_approval ae db cid aid at) = db\<lparr>cdb_calls :=
      sql_update (\<lambda>r. tcr_id r = cid \<and> tcr_approval_id r = None) (link_row aid at) (cdb_calls db)\<rparr>"
    by (auto simp: link_tool_call_approval_def Let_def split: if_splits)
  with assms(1-3) show ?thesis by (auto simp: sql_update_def intro!: rev_image_eqI [of r])
qed

lemma attached_row:
  assumes "ap \<in> set rows"
  shows "\<exists>ap' \<in> set (fst (attach_approval_arguments rows aid shown)).
    ap' = ap \<or> ap' = ap\<lparr>sap_arguments_json := Some shown\<rparr>"
proof -
  let ?hit = "\<lambda>r. sap_id r = aid \<and> sap_state r = lit ''pending''"
    and ?f = "\<lambda>r. r\<lparr>sap_arguments_json := Some shown\<rparr>"
  have "(if ?hit ap then ?f ap else ap) \<in> set (sql_update ?hit ?f rows)"
    using assms by (auto simp: sql_update_def)
  then show ?thesis
    using assms by (auto simp: attach_approval_arguments_def Let_def split: if_splits intro: rev_bexI)
qed

definition pending_for :: "PreparedHold \<Rightarrow> ident \<Rightarrow> stored_approval list \<Rightarrow> bool" where
  "pending_for hold aid rows \<longleftrightarrow> (\<exists>ap \<in> set rows. sap_id ap = aid \<and> sap_state ap = lit ''pending''
     \<and> sap_intent_hash ap = encode_hex (hold_intent hold) \<and> sap_tool ap = hold_tool hold
     \<and> sap_tool_version ap = hold_tool_version hold)"

lemma pending_for_attach:
  assumes "run (attach_held_arguments pl aid' v) w = (w', Inr b)" "pending_for hold aid (pw_approvals w)"
  shows "pending_for hold aid (pw_approvals w')"
proof (cases "pl_to_string pl v")
  case (Some shown)
  from assms(2) obtain ap where ap: "ap \<in> set (pw_approvals w)" "sap_id ap = aid" "sap_state ap = lit ''pending''"
    "sap_intent_hash ap = encode_hex (hold_intent hold)" "sap_tool ap = hold_tool hold"
    "sap_tool_version ap = hold_tool_version hold" by (auto simp: pending_for_def)
  from attached_row [OF ap(1), of aid' shown] obtain ap' where
    ap': "ap' \<in> set (fst (attach_approval_arguments (pw_approvals w) aid' shown))"
      "ap' = ap \<or> ap' = ap\<lparr>sap_arguments_json := Some shown\<rparr>" by blast
  have "pw_approvals w' = fst (attach_approval_arguments (pw_approvals w) aid' shown)"
    using assms(1) Some by (cases "attach_approval_arguments (pw_approvals w) aid' shown")
      (auto simp: attach_held_arguments_def on_approvals_def)
  with ap ap' show ?thesis unfolding pending_for_def by (intro bexI [of _ ap']) auto
qed (use assms in \<open>auto simp: attach_held_arguments_def\<close>)

lemma new_approval_fields:
  "new_approval_request pl hold actor aid expiry = Inr request \<Longrightarrow> apr_id request = aid
    \<and> apr_intent request = hold_intent hold \<and> apr_tool request = hold_tool hold
    \<and> apr_tool_version request = hold_tool_version hold"
  by (auto simp: new_approval_request_def ApprovalRequest_new_def Let_def ApprovalRequestParts.defs split: if_splits)

lemma hold_recorded:
  assumes "run (record_hold pl dr hold) w = (w', Inr h)"
    and "r \<in> set (ledger_rows w)" "tcr_id r = hold_call_id hold" "tcr_approval_id r = None"
  shows "h = hold\<lparr>hold_approval_id := dr_approval_id dr\<rparr>
    \<and> link_row (dr_approval_id dr) (dr_link_at dr) r \<in> set (ledger_rows w')
    \<and> pending_for hold (dr_approval_id dr) (pw_approvals w')"
proof -
  from assms(1) obtain request u v1 v2 v3 b n where
    request: "new_approval_request pl hold (hold_run_id hold) (dr_approval_id dr)
        (default_expiry (pl_representable pl) (dr_expiry_at dr)) = Inr request"
    and create: "run (on_approvals (\<lambda>rows. create_approval (pl_approval_parents pl) rows request)) w = (v1, Inr u)"
    and linked: "run (link_hold (hold_call_id hold) (apr_id request) (dr_link_at dr)) v1 = (v2, Inr ())"
    and attach: "run (attach_held_arguments pl (apr_id request) (hold_arguments hold)) v2 = (v3, Inr b)"
    and event: "run (append_event pl (dr_hold_event_id dr) (hold_run_id hold) ApprovalRequested
         (lit ''Approval needed for '' @ hold_tool hold)
         (approval_payload pl (dr_approval_id dr) (hold_call_id hold)) (hold_correlation_id hold)
         (dr_hold_event_at dr)) v3 = (w', Inr n)"
    and h: "h = hold\<lparr>hold_approval_id := dr_approval_id dr\<rparr>"
    by (auto simp: record_hold_def Let_def run_Ok)
  note fields = new_approval_fields [OF request]
  from create have v1: "v1 = w\<lparr>pw_approvals := pw_approvals w @ [approval_row_of request]\<rparr>"
    by (auto simp: on_approvals_def create_approval_def Let_def acknowledge_def split: if_splits prod.splits)
  have "pending_for hold (dr_approval_id dr) (pw_approvals v1)"
    using fields by (simp add: v1 pending_for_def approval_row_of_def)
  moreover have "pw_approvals v2 = pw_approvals v1" by (rule keepsD [OF keeps_link_hold(4) linked])
  ultimately have "pending_for hold (dr_approval_id dr) (pw_approvals v3)"
    using pending_for_attach [OF attach] by simp
  then have pending: "pending_for hold (dr_approval_id dr) (pw_approvals w')"
    by (simp add: keepsD [OF keeps_append_event(4) event])
  from linked have "snd (link_tool_call_approval (\<lambda>a. list_ex (\<lambda>r. sap_id r = a) (pw_approvals v1)) (pw_db v1)
      (hold_call_id hold) (apr_id request) (dr_link_at dr)) = Ok ()"
    "pw_db v2 = fst (link_tool_call_approval (\<lambda>a. list_ex (\<lambda>r. sap_id r = a) (pw_approvals v1)) (pw_db v1)
      (hold_call_id hold) (apr_id request) (dr_link_at dr))"
    by (auto simp: link_hold_def split: prod.splits)
  with linked_row [of r "pw_db v1"] assms(2-4) fields
  have "link_row (dr_approval_id dr) (dr_link_at dr) r \<in> set (ledger_rows v2)" by (simp add: v1)
  moreover have "pw_db v3 = pw_db v2" by (rule keepsD [OF keeps_attach(4) attach])
  moreover have "ledger_rows w' = ledger_rows v3" by (rule keepsD [OF keeps_append_event(5) event])
  ultimately show ?thesis using h pending by simp
qed


lemma authorize_held:
  assumes "run (authorize_and_admit pl dr tool d arguments actor decision corr) w = (w', Inr (Held h))"
  shows "is_held decision \<and> hold_call_id h = corr \<and> hold_approval_id h = dr_approval_id dr
    \<and> (\<exists>row intent. intent_compute (pl_to_string pl) (pl_sha256 pl) tool (td_version d) arguments = Ok intent
        \<and> row \<in> set (ledger_rows w') \<and> tcr_id row = corr \<and> row_outcome row = Some Requested
        \<and> tcr_approval_id row = Some (dr_approval_id dr) \<and> tcr_run_id row = ta_run_id actor
        \<and> tcr_intent_hash row = encode_hex intent
        \<and> (\<exists>ap \<in> set (pw_approvals w'). sap_id ap = dr_approval_id dr \<and> sap_state ap = lit ''pending''
            \<and> sap_intent_hash ap = encode_hex intent \<and> sap_tool ap = tool \<and> sap_tool_version ap = td_version d))"
proof -
  let ?hold = "\<lambda>cid intent. \<lparr>hold_call_id = cid, hold_approval_id = [], hold_workspace_id = ta_workspace_id actor,
      hold_run_id = ta_run_id actor, hold_tool = tool, hold_tool_version = td_version d, hold_intent = intent,
      hold_risk = pd_effective_risk decision, hold_preview = tool @ [32] @ td_version d,
      hold_arguments = arguments, hold_correlation_id = corr, hold_issued_at = dr_now dr\<rparr>"
  from assms obtain new intent key cid where
    held: "is_held decision"
    and intent: "intent_compute (pl_to_string pl) (pl_sha256 pl) tool (td_version d) arguments = Ok intent"
    and new: "NewToolCall_new corr
         \<lparr>origin_workspace_id = ta_workspace_id actor, origin_run_id = ta_run_id actor, origin_step_id = None\<rparr>
         \<lparr>target_tool = tool, target_tool_version = td_version d\<rparr>
         \<lparr>binding_intent_hash = encode_hex intent, binding_idempotency_key = key, binding_receipt = corr,
          binding_policy_version = ta_policy_version actor, binding_approval_id = None\<rparr>
         corr (dr_now dr) = Ok new"
    and admitted: "snd (admit_tool_call (pl_call_parents pl) (pw_db w) new) = Ok cid"
    and recorded: "run (record_hold pl dr (?hold cid intent))
        (w\<lparr>pw_db := fst (admit_tool_call (pl_call_parents pl) (pw_db w) new)\<rparr>) = (w', Inr h)"
    by (auto simp: authorize_and_admit_def Let_def run_Ok run_bind_eq run_on_db
        dest!: refuse_repeated_run split: if_splits)
  note fields = NewToolCall_new_fields [OF new]
  note added = admitted_Ok [OF admitted]
  have r: "admitted_row new \<in> set (ledger_rows
      (w\<lparr>pw_db := fst (admit_tool_call (pl_call_parents pl) (pw_db w) new)\<rparr>))" "tcr_approval_id (admitted_row new) = None"
    "tcr_intent_hash (admitted_row new) = encode_hex intent"
    using added fields by (simp_all add: admitted_row_def)
  note kept = hold_recorded [OF recorded r(1) _ r(2)]
  let ?row = "link_row (dr_approval_id dr) (dr_link_at dr) (admitted_row new)"
  have "row_outcome ?row = Some Requested" "tcr_id ?row = corr" "tcr_run_id ?row = ta_run_id actor"
    "tcr_approval_id ?row = Some (dr_approval_id dr)" "tcr_intent_hash ?row = encode_hex intent"
    using fields r(3) by (simp_all add: link_row_def) (simp add: row_outcome_Some admitted_row_def)
  then show ?thesis
    using kept held intent added fields by (auto simp: pending_for_def)
qed

text \<open>C7: a held call waits for its owner. When a call is answered with \<open>AwaitingApproval\<close>, policy held
  it; no adapter was asked; the call is in the ledger as \<open>requested\<close>, linked to the approval the
  caller was told of; and that approval is pending, for the same tool, version and argument hash.\<close>

theorem held_call_waits:
  assumes "run (call_tool pl dr tool arguments actor corr) w = (w', Inr (AwaitingApproval cid aid reason))"
  shows "pw_executed w' = pw_executed w \<and> cid = corr
    \<and> (\<exists>d row ap. definition_for pl tool = Ok d
        \<and> is_held (evaluate (policy_request d actor (pw_policy w) {}))
        \<and> reason = reason_code (evaluate (policy_request d actor (pw_policy w) {}))
        \<and> row \<in> set (ledger_rows w') \<and> tcr_id row = cid \<and> tcr_run_id row = ta_run_id actor
        \<and> row_outcome row = Some Requested \<and> tcr_approval_id row = Some aid
        \<and> ap \<in> set (pw_approvals w') \<and> sap_id ap = aid \<and> sap_state ap = lit ''pending''
        \<and> sap_tool ap = tool \<and> sap_tool_version ap = td_version d
        \<and> sap_intent_hash ap = tcr_intent_hash row)"
  using assms unfolding call_tool_def
proof (cases rule: while_admitted_run)
  case (admitted v)
  let ?v = "w\<lparr>pw_gate := (pw_gate w)\<lparr>active := active (pw_gate w) + 1\<rparr>\<rparr>"
  from admitted(1) obtain d n u h where d: "definition_for pl tool = Ok d"
    and event: "run (append_event pl (dr_event_id dr) (ta_run_id actor) ToolRequested (lit ''Requested '' @ tool)
         (requested_payload pl tool (td_version d) arguments) corr (dr_event_at dr)) ?v = (u, Inr n)"
    and hold: "run (authorize_and_admit pl dr tool d arguments actor
        (evaluate (policy_request d actor (pw_policy w) {})) corr) u = (v, Inr (Held h))"
    and ids: "cid = hold_call_id h" "aid = hold_approval_id h"
      "reason = reason_code (evaluate (policy_request d actor (pw_policy w) {}))"
    by (auto simp: call_admitted_def call_decided_def run_Ok case_admission split: if_splits
        dest!: refuses_child_run executed_outcome)
  have "pw_executed v = pw_executed w"
    using keepsD [OF keeps_authorize_and_admit(1) hold] keepsD [OF keeps_append_event(1) event] by simp
  moreover from authorize_held [OF hold] ids obtain row intent ap where
    "is_held (evaluate (policy_request d actor (pw_policy w) {}))" "cid = corr" "aid = dr_approval_id dr"
    "row \<in> set (ledger_rows v)" "tcr_id row = corr" "row_outcome row = Some Requested"
    "tcr_approval_id row = Some aid" "tcr_run_id row = ta_run_id actor" "tcr_intent_hash row = encode_hex intent"
    "ap \<in> set (pw_approvals v)" "sap_id ap = aid" "sap_state ap = lit ''pending''"
    "sap_intent_hash ap = encode_hex intent" "sap_tool ap = tool" "sap_tool_version ap = td_version d" by auto
  ultimately show ?thesis using d ids(3)
    by (intro conjI exI [of _ d] exI [of _ row] exI [of _ ap]) (simp_all add: admitted(2))
qed simp

section \<open>Calls from other applications\<close>



section \<open>Every handler at once\<close>

text \<open>C1: no admitted call is executed twice. Let any number of handlers (calls and resumptions, of the same
  calls or of others, with whatever identifiers they draw) interleave step by step with each other
  and with everything else that acts on the daemon: of each call identifier an adapter is asked at
  most once, and the ledger stays well formed.\<close>

theorem no_call_executed_twice:
  assumes "(pool_step outside (pipeline_handlers pl))\<^sup>*\<^sup>* (w, []) (w', ps)"
    and "calls_inv (ledger_rows w)" "pw_executed w = []"
    and "\<forall>adapter q r. pl_adapter pl adapter q = Ok r \<longrightarrow> record_honest (res_record r)"
  shows "(\<forall>cid. length (filter (\<lambda>q. exp_call_id q = cid) (pw_executed w')) \<le> 1) \<and> calls_inv (ledger_rows w')"
proof -
  have sound: "ledger_sound w" "\<And>k. times_executed w k = 0"
    using assms(2,3) by (simp_all add: ledger_sound_def times_executed_def)
  have "executions.disciplined outside (pipeline_handlers pl)"
    using assms(4) by (intro pipeline_disciplined) (auto simp: adapters_honest_def)
  from executions.acted_at_most_once [OF assms(1) this sound] show ?thesis
    by (simp add: times_executed_def ledger_sound_def)
qed

text \<open>One handler run from start to end is one of those interleavings.\<close>

lemma run_pool_steps:
  assumes "i < length ps" "ps ! i = p"
  shows "(pool_step env handlers)\<^sup>*\<^sup>* (w, ps) (fst (run p w), ps[i := Done (snd (run p w))])"
  using assms
proof (induction p arbitrary: w ps)
  case (Done a)
  then show ?case using list_update_id [of ps i] by simp
next
  case (Await f)
  obtain w' p' where f: "f w = (w', p')" by force
  have "pool_step env handlers (w, ps) (w', ps[i := p'])"
    using pool_step.task [OF Await.prems, of env handlers w] f by simp
  moreover have "(pool_step env handlers)\<^sup>*\<^sup>* (w', ps[i := p'])
      (fst (run p' w'), (ps[i := p'])[i := Done (snd (run p' w'))])"
    using Await.prems f rangeI [of f w] by (intro Await.IH [of "(w', p')"]) auto
  ultimately show ?case using f by (simp add: converse_rtranclp_into_rtranclp)
qed

section \<open>The composed pipeline\<close>

definition declared :: "(ToolDefinition list \<times> nat) list \<Rightarrow> (ToolDefinition \<times> nat) list" where
  "declared sources = concat (map (\<lambda>(definitions, adapter). map (\<lambda>d. (d, adapter)) definitions) sources)"

abbreviation display_of :: "ToolDefinition \<times> nat \<Rightarrow> rstr" where
  "display_of p \<equiv> ToolId_display (td_id (fst p))"

lemma claim_tools_Ok:
  assumes "claim_tools adapter ds m = Ok m'" "bt_inv m"
  shows "bt_inv m' \<and> distinct (map (\<lambda>d. ToolId_display (td_id d)) ds)
    \<and> (\<forall>d \<in> set ds. bt_get m (ToolId_display (td_id d)) = None)
    \<and> (\<forall>i. bt_get m' i = (if i \<in> (\<lambda>d. ToolId_display (td_id d)) ` set ds then Some adapter else bt_get m i))"
  using assms
proof (induction ds arbitrary: m)
  case (Cons d ds)
  let ?i = "ToolId_display (td_id d)"
  from Cons.prems(1) have free: "bt_get m ?i = None" and rest: "claim_tools adapter ds (bt_insert ?i adapter m) = Ok m'"
    by (auto simp: Let_def bt_contains_def split: if_splits)
  from Cons.IH [OF rest bt_inv_insert [OF Cons.prems(2)]] free show ?case
    by (auto simp: bt_get_insert [OF Cons.prems(2)] split: if_splits)
qed simp

lemma Dispatch_build_Ok:
  assumes "Dispatch_build sources m = Ok m'" "bt_inv m"
  shows "distinct (map display_of (declared sources))
    \<and> (\<forall>p \<in> set (declared sources). bt_get m (display_of p) = None \<and> bt_get m' (display_of p) = Some (snd p))
    \<and> (\<forall>i. i \<notin> display_of ` set (declared sources) \<longrightarrow> bt_get m' i = bt_get m i)"
  using assms
proof (induction sources arbitrary: m)
  case (Cons source sources)
  obtain ds a where source: "source = (ds, a)" by (cases source)
  from Cons.prems(1) obtain m1 where m1: "claim_tools a ds m = Ok m1" and rest: "Dispatch_build sources m1 = Ok m'"
    by (auto simp: source and_then_eq_Inr)
  note claimed = claim_tools_Ok [OF m1 Cons.prems(2)]
  note tail = Cons.IH [OF rest claimed [THEN conjunct1]]
  have head: "declared (source # sources) = map (\<lambda>d. (d, a)) ds @ declared sources"
    by (simp add: declared_def source)
  have apart: "ToolId_display (td_id d) \<noteq> display_of p" if "d \<in> set ds" "p \<in> set (declared sources)" for d p
    using that claimed tail by (metis imageI option.distinct(1))
  have m1_in: "bt_get m1 (ToolId_display (td_id d)) = Some a" if "d \<in> set ds" for d
    using claimed that by auto
  have m1_out: "bt_get m1 i = bt_get m i" if "i \<notin> (\<lambda>d. ToolId_display (td_id d)) ` set ds" for i
    using claimed that by auto
  have "distinct (map display_of (declared (source # sources)))"
    unfolding head using claimed tail apart by (fastforce simp: comp_def)
  moreover have "bt_get m (display_of p) = None \<and> bt_get m' (display_of p) = Some (snd p)"
    if p: "p \<in> set (declared (source # sources))" for p
  proof (cases "p \<in> set (declared sources)")
    case True
    then have "display_of p \<notin> (\<lambda>d. ToolId_display (td_id d)) ` set ds" using apart [OF _ True] by (metis imageE)
    with True tail m1_out show ?thesis by metis
  next
    case False
    with p obtain d where d: "d \<in> set ds" "p = (d, a)" unfolding head by auto
    then have "display_of p \<notin> display_of ` set (declared sources)" using apart [OF d(1)] by auto
    with tail m1_in [OF d(1)] claimed d show ?thesis by (metis fst_conv snd_conv)
  qed
  moreover have "bt_get m' i = bt_get m i" if "i \<notin> display_of ` set (declared (source # sources))" for i
    using that tail m1_out [of i] unfolding head by (auto simp: image_Un image_image)
  ultimately show ?case by blast
qed (simp add: declared_def)

lemma register_sources_Ok:
  assumes "register_sources reg sources = Ok reg'" "registry_inv reg"
    and "\<forall>(d, a) \<in> set (declared sources). definition_wf d"
  shows "registry_inv reg' \<and> (\<forall>k e. bt_get reg' k = Some e \<longrightarrow> bt_get reg k = Some e
    \<or> (\<exists>a. (ent_definition e, a) \<in> set (declared sources)))"
  using assms
proof (induction sources arbitrary: reg)
  case (Cons source sources)
  obtain ds a where source: "source = (ds, a)" by (cases source)
  have head: "declared (source # sources) = map (\<lambda>d. (d, a)) ds @ declared sources"
    by (simp add: declared_def source)
  from Cons.prems(1) obtain reg1 where reg1: "define_all reg ds = (reg1, Ok ())"
      and rest: "register_sources reg1 sources = Ok reg'"
    by (auto simp: source split: prod.splits sum.splits)
  have wf: "\<forall>d \<in> set ds. definition_wf d" "\<forall>(d, a) \<in> set (declared sources). definition_wf d"
    using Cons.prems(3) unfolding head by auto
  have inv1: "registry_inv reg1" using registry_inv_define_all [OF Cons.prems(2) wf(1)] reg1 by simp
  note tail = Cons.IH [OF rest inv1 wf(2)]
  have "bt_get reg k = Some e \<or> ent_definition e \<in> set ds" if "bt_get reg1 k = Some e" for k e
    using that define_all_Ok(4) [OF Cons.prems(2) reg1, of k] by (auto split: option.splits dest!: map_of_SomeD)
  with tail show ?case unfolding head by (auto; blast)
qed auto

lemma collect_results_Ok:
  "collect_results f xs = Ok ys \<longleftrightarrow> length ys = length xs \<and> (\<forall>i < length xs. f (xs ! i) = Ok (ys ! i))"
proof (induction xs arbitrary: ys)
  case (Cons x xs)
  show ?case
  proof (cases ys)
    case (Cons y ys')
    with Cons.IH [of ys'] show ?thesis
      by (auto simp: and_then_eq_Inr less_Suc_eq_0_disj nth_Cons split: nat.splits)
  qed (auto simp: and_then_eq_Inr)
qed auto


text \<open>Every registered tool has exactly the adapter that declared it. When the pipeline composes, each
  tool the registry offers was declared by one source only, and the dispatch table resolves it to
  that source's adapter: no call is authorized and then found to have no adapter, or another's.\<close>

theorem composed_pipeline_covers:
  assumes "compose_tools sources = Ok (reg, dispatch)" "get_tool reg tid = Ok d"
    and "\<forall>(definitions, adapter) \<in> set sources. \<forall>d \<in> set definitions. definition_wf d"
  shows "\<exists>adapter. adapter_for dispatch tid = Some adapter
    \<and> (\<exists>definitions. (definitions, adapter) \<in> set sources \<and> d \<in> set definitions)
    \<and> (\<forall>definitions a d'. (definitions, a) \<in> set sources \<and> d' \<in> set definitions \<and> td_id d' = tid
         \<longrightarrow> d' = d \<and> a = adapter)"
proof -
  from assms(1) obtain registered where reg: "register_sources registry_new sources = Ok reg"
    and dispatch: "Dispatch_build sources [] = Ok dispatch"
    and ids: "collect_results (\<lambda>e. ToolId_from_str (inv_id e)) (inventory reg) = Ok registered"
    and covers: "verify_covers dispatch registered = Ok ()"
    by (auto simp: compose_tools_def and_then_eq_Inr Dispatch_new_def registered_ids_def)
  have declared: "(d', a) \<in> set (declared sources) \<longleftrightarrow> (\<exists>ds. (ds, a) \<in> set sources \<and> d' \<in> set ds)" for d' a
    by (force simp: declared_def)
  have wf: "\<forall>(d, a) \<in> set (declared sources). definition_wf d"
    using assms(3) declared by blast
  note registry = register_sources_Ok [OF reg registry_inv_new wf]
  have "bt_inv ([] :: Dispatch)" by (simp add: bt_inv_def)
  note table = Dispatch_build_Ok [OF dispatch this]
  from assms(2) obtain e where e: "bt_get reg (tool_key tid) = Some e" "ent_definition e = d"
    by (auto simp: get_tool_def ok_or_def split: option.splits)
  have tid: "td_id d = tid" using registry_inv_entry [OF _ e(1)] registry e(2) by simp
  have "bt_get registry_new (tool_key tid) = None" by (simp add: registry_new_def bt_get_def)
  with registry e obtain a where a: "(d, a) \<in> set (declared sources)" by (metis option.distinct(1))
  have "bt_get dispatch (display_of (d, a)) = Some (snd (d, a))" using table a by blast
  then have found: "adapter_for dispatch tid = Some a" by (simp add: adapter_for_def tid)
  have "inj_on display_of (set (declared sources))" using table by (simp add: distinct_map)
  then have unique: "d' = d \<and> a' = a" if "(d', a') \<in> set (declared sources)" "td_id d' = tid" for d' a'
    using inj_onD [of display_of _ "(d', a')" "(d, a)"] that a tid by simp
  have "d' = d \<and> a' = a" if "(ds, a') \<in> set sources \<and> d' \<in> set ds \<and> td_id d' = tid" for ds a' d'
    using unique declared [of d' a'] that by blast
  moreover from a declared [of d a] have "\<exists>ds. (ds, a) \<in> set sources \<and> d \<in> set ds" by simp
  ultimately show ?thesis using found by (intro exI [of _ a]) blast
qed

end
