(* ===== verification/Tool_Pipeline_Examples.thy ===== *)
theory Tool_Pipeline_Examples
  imports Tool_Pipeline_Guarantees
begin

text \<open>
  Closed runs of the tool pipeline: a call that policy allows and whose adapter refuses it, a call that
  is held, its resumption after the owner's yes, a denied call, and a remote call. They show that the
  hypotheses of the properties of \<open>Tool_Pipeline_Guarantees\<close> hold together on reachable states.
\<close>

definition sample_pl :: ToolPipeline where
  "sample_pl = \<lparr>pl_registry = sample_registry, pl_dispatch = [(lit ''gmail.send'', 0)],
     pl_to_string = (\<lambda>_. Some (lit ''{}'')), pl_parse_json = (\<lambda>_. Some JsonObject),
     pl_sha256 = (\<lambda>_. replicate 32 0), pl_validator = (\<lambda>_ _. []), pl_parse_id = Some,
     pl_representable = (\<lambda>_. True), pl_stamp = (\<lambda>_. []), pl_call_parents = (\<lambda>_. True),
     pl_approval_parents = (\<lambda>_. True), pl_url = (\<lambda>_. None),
     pl_adapter = (\<lambda>_ _. Inl (RefusedBeforeReaching (lit ''offline'')))\<rparr>"

definition sample_draws :: draws where
  "sample_draws = \<lparr>dr_event_id = replicate 36 49, dr_event_at = 1, dr_now = 2, dr_key = Some (replicate 16 0),
     dr_expiry_at = 2, dr_approval_id = replicate 36 50, dr_link_at = 3, dr_hold_event_id = replicate 36 51,
     dr_hold_event_at = 4, dr_submitted_at = 5, dr_settled_at = 6\<rparr>"

definition sample_actor :: ToolActor where
  "sample_actor = \<lparr>ta_workspace_id = replicate 36 99, ta_run_id = replicate 36 97,
     ta_scopes = {sample_scope ''gmail'' ''*''}, ta_channel = Chan_Cli, ta_policy_version = lit ''p1'',
     ta_read_destination = Internal\<rparr>"

definition sample_world :: "WorkspacePolicy \<Rightarrow> pipeline_world" where
  "sample_world policy = \<lparr>pw_db = \<lparr>cdb_store = sample_db, cdb_calls = []\<rparr>, pw_approvals = [],
     pw_gate = WorkAdmission_default, pw_policy = policy, pw_executed = [], pw_served = []\<rparr>"

definition sample_corr :: ident where
  "sample_corr = replicate 36 101"

lemma sample_admit: "admit WorkAdmission_default = (WorkAdmission_default\<lparr>active := 1\<rparr>, Ok ())"
  by (simp add: admit_def WorkAdmission_default_def)

lemma sample_tool_id: "ToolId_from_str (lit ''gmail.send'') = Ok (td_id sample_tool)"
proof -
  let ?t = "\<lparr>tid_namespace = lit ''gmail'', tid_name = lit ''send''\<rparr>"
  have "ToolId_from_parts (lit ''gmail'') (lit ''send'') = Ok ?t"
    by (simp add: ToolId_from_parts_Ok lit_def operation_char_def char_class_defs)
  moreover from this have "length (ToolId_display ?t) \<le> MAX_TOOL_ID_CHARS"
    by (simp add: ToolId_from_parts_Ok ToolId_display_def MAX_TOOL_ID_CHARS_def)
  ultimately have "ToolId_from_str (ToolId_display ?t) = Ok ?t"
    using operation_char_no_dot by (intro tool_name.parse_display) (auto simp: ToolId_from_parts_Ok)
  then show ?thesis by (simp add: ToolId_display_def lit_def sample_tool_def)
qed

lemma sample_definition_for: "definition_for sample_pl (lit ''gmail.send'') = Ok sample_tool"
  using sample_registry_get by (simp add: definition_for_def sample_tool_id sample_pl_def)

lemma sample_adapter: "adapter_for (pl_dispatch sample_pl) (td_id sample_tool) = Some 0"
    "pl_adapter sample_pl n q = Inl (RefusedBeforeReaching (lit ''offline''))"
  by (simp_all add: adapter_for_def sample_display sample_pl_def bt_get_def)

lemma sample_validate: "validate sample_pl sample_tool (lit ''gmail.send'') (JObject []) = Ok ()"
  by (simp add: validate_def schema_validate_def report_is_valid_def sample_pl_def)

lemma sample_no_delegation: "run (refuses_child_delegation sample_tool rid) w = (w, Inr False)"
  by (simp add: refuses_child_delegation_def sample_tool_def)

text \<open>A denied call leaves everything as it was.\<close>

theorem refusal_writes_nothing_witness:
  "fst (run (call_tool sample_pl sample_draws (lit ''gmail.send'') (JObject []) sample_actor sample_corr)
     (sample_world (denying WorkspacePolicy_default (td_id sample_tool))))
   = sample_world (denying WorkspacePolicy_default (td_id sample_tool))"
proof -
  let ?w = "sample_world (denying WorkspacePolicy_default (td_id sample_tool))"
  have "is_denied (evaluate (policy_request sample_tool sample_actor
      (denying WorkspacePolicy_default (td_id sample_tool)) {}))"
    by (simp add: evaluate_decision is_denied_def refused_def policy_request_def denies_def denying_def)
  then have "snd (run (call_tool sample_pl sample_draws (lit ''gmail.send'') (JObject []) sample_actor sample_corr) ?w)
    = Inr (Pipe_Refused (reason_code (evaluate (policy_request sample_tool sample_actor
      (denying WorkspacePolicy_default (td_id sample_tool)) {}))))"
    by (simp add: call_tool_def while_admitted_def run_bind sample_world_def sample_admit call_admitted_def
        run_lift sample_definition_for sample_validate run_and_await sample_no_delegation call_decided_def)
  then show ?thesis by (intro refusal_writes_nothing) (rule prod_eqI, simp_all)
qed

section \<open>A call that is executed\<close>

lemma one_row_inv: "call_row_ok r \<Longrightarrow> calls_inv [r]"
  by (simp add: calls_inv_def)

lemma advance_one_row:
  assumes "ledger_rows w = [r]" "tcr_id r = cid" "call_row_ok r" "row_outcome r = Some oc"
    and "(oc, oc') \<in> {(Requested, Authorized), (Authorized, Submitted)}"
    and "run_open_for_calls (cdb_store (pw_db w)) (tcr_run_id r)"
  shows "\<exists>r' c. run (advance_call cid oc' at) w = (w\<lparr>pw_db := (pw_db w)\<lparr>cdb_calls := [r']\<rparr>\<rparr>, Ok c)
    \<and> tcr_id r' = cid \<and> call_row_ok r' \<and> row_outcome r' = Some oc' \<and> tcr_run_id r' = tcr_run_id r"
proof -
  define rec where "rec = \<lparr>rec_outcome = oc', rec_evidence = None, rec_reason = None\<rparr>"
  let ?r' = "outcome_row rec None at r"
  have rec: "ToolOutcomeRecord_new oc' = Ok rec" "record_honest rec" "rec_outcome rec = oc'"
    "can_advance_to oc oc'" "\<not> ToolOutcome_is_terminal oc"
    using assms(5) by (auto simp: rec_def record_honest_def ToolOutcome_is_terminal_def)
  have "tool_call_checks r" using assms(3) by (simp add: call_row_ok_def)
  moreover from assms(5) have "oc' = Authorized \<or> oc' = Submitted" by auto
  ultimately have checks: "tool_call_checks ?r'"
    by (elim disjE; simp add: tool_call_checks_def outcome_row_def rec_def null_or_def is_reported_def)
  then have ok: "call_row_ok ?r'" using rec(2) by (rule outcome_row_ok)
  then obtain c where c: "decode_tool_call ?r' = Ok c" by (rule decode_tool_call_ok)
  have "record_tool_outcome (pw_db w) cid rec None at = ((pw_db w)\<lparr>cdb_calls := [?r']\<rparr>, Ok c)"
    using record_tool_outcome_closed [of "pw_db w" cid rec None at] one_row_inv [OF assms(3)] assms(1,2,4,6) checks c rec
    by (simp add: record_spec_def Let_def)
  then have "run (advance_call cid oc' at) w = (w\<lparr>pw_db := (pw_db w)\<lparr>cdb_calls := [?r']\<rparr>\<rparr>, Ok c)"
    by (simp add: advance_call_def rec(1) run_lift run_record_outcome)
  moreover have "tcr_run_id ?r' = tcr_run_id r" by (simp add: outcome_row_def)
  ultimately show ?thesis using ok rec(3) assms(2) by (intro exI [of _ ?r'] exI [of _ c]) simp
qed

lemma sample_execution:
  assumes "ledger_rows w = [r]" "tcr_id r = prep_call_id prepared" "call_row_ok r" "row_outcome r = Some Requested"
    and "run_open_for_calls (cdb_store (pw_db w)) (tcr_run_id r)"
    and "ToolExecutionRequest_new (pl_to_string sample_pl) (pl_sha256 sample_pl)
      (execution_parts sample_pl prepared (td_id sample_tool) sample_tool corr) = Ok plain_request"
  shows "\<exists>w' q r'. run (execute_and_record sample_pl dr prepared (lit ''gmail.send'') sample_tool corr) w
      = (w', Inl (Pipe_AdapterCall (RefusedBeforeReaching (lit ''offline''))))
    \<and> pw_executed w' = pw_executed w @ [q] \<and> exp_call_id q = prep_call_id prepared
    \<and> ledger_rows w' = [r'] \<and> call_row_ok r' \<and> tcr_id r' = prep_call_id prepared \<and> row_outcome r' = Some Submitted"
proof -
  from advance_one_row [OF assms(1-4) _ assms(5), of Authorized "prep_issued_at prepared"] obtain r1 c1 where
    a: "run (advance_call (prep_call_id prepared) Authorized (prep_issued_at prepared)) w
      = (w\<lparr>pw_db := (pw_db w)\<lparr>cdb_calls := [r1]\<rparr>\<rparr>, Ok c1)" "tcr_id r1 = prep_call_id prepared" "call_row_ok r1"
      "row_outcome r1 = Some Authorized" "tcr_run_id r1 = tcr_run_id r" by auto
  let ?w = "w\<lparr>pw_db := (pw_db w)\<lparr>cdb_calls := [r1]\<rparr>\<rparr>"
  from advance_one_row [of ?w r1 "prep_call_id prepared" Authorized Submitted "dr_submitted_at dr"] a assms(5)
  obtain r2 c2 where b: "run (advance_call (prep_call_id prepared) Submitted (dr_submitted_at dr)) ?w
      = (w\<lparr>pw_db := (pw_db w)\<lparr>cdb_calls := [r2]\<rparr>\<rparr>, Ok c2)" "tcr_id r2 = prep_call_id prepared" "call_row_ok r2"
      "row_outcome r2 = Some Submitted" by auto
  have "exp_tool plain_request = td_id sample_tool" "exp_call_id plain_request = prep_call_id prepared"
    using request_fields [OF assms(6)] by (simp_all add: execution_parts_def)
  then show ?thesis
    using a b assms(6)
    by (simp add: execute_and_record_def run_lift sample_tool_id run_and_await sample_adapter execute_adapter_def)
qed


definition sample_new_tool_call :: NewToolCall where
  "sample_new_tool_call = \<lparr>ntc_id = sample_corr,
     ntc_origin = \<lparr>origin_workspace_id = replicate 36 99, origin_run_id = replicate 36 97, origin_step_id = None\<rparr>,
     ntc_target = \<lparr>target_tool = lit ''gmail.send'', target_tool_version = lit ''1.0''\<rparr>,
     ntc_binding = \<lparr>binding_intent_hash = replicate 64 48, binding_idempotency_key = replicate 32 48,
       binding_receipt = sample_corr, binding_policy_version = lit ''p1'', binding_approval_id = None\<rparr>,
     ntc_correlation_id = sample_corr, ntc_created_at = 2\<rparr>"

lemma sample_new_tool_call_Ok:
  "NewToolCall_new (ntc_id sample_new_tool_call) (ntc_origin sample_new_tool_call) (ntc_target sample_new_tool_call)
     (ntc_binding sample_new_tool_call) (ntc_correlation_id sample_new_tool_call) (ntc_created_at sample_new_tool_call)
   = Ok sample_new_tool_call"
  by (simp add: NewToolCall_new_def validate_fields_def sample_new_tool_call_def sample_corr_def utf8_width_def
      uuid_sized_def is_lowercase_hex_def list_all_iff is_ascii_digit_def) (simp add: lit_def utf8_width_def)

lemma sample_new_expanded:
  "NewToolCall_new sample_corr
     \<lparr>origin_workspace_id = replicate 36 99, origin_run_id = replicate 36 97, origin_step_id = None\<rparr>
     \<lparr>target_tool = lit ''gmail.send'', target_tool_version = lit ''1.0''\<rparr>
     \<lparr>binding_intent_hash = replicate 64 48, binding_idempotency_key = replicate 32 48,
      binding_receipt = sample_corr, binding_policy_version = lit ''p1'', binding_approval_id = None\<rparr>
     sample_corr 2 = Ok sample_new_tool_call"
  using sample_new_tool_call_Ok by (simp add: sample_new_tool_call_def)

lemma sample_tool_call_checks: "tool_call_checks (admitted_row sample_new_tool_call)"
  unfolding tool_call_checks_def
  by (simp add: admitted_row_def sample_new_tool_call_def sample_corr_def chars_between_def hex_glob_def null_or_def
      list_all_iff is_ascii_digit_def) (simp add: lit_def utf8_width_def)

lemma sample_admission:
  assumes "ledger_rows w = []" "db_runs (cdb_store (pw_db w)) = db_runs sample_db"
  shows "admit_tool_call (pl_call_parents sample_pl) (pw_db w) sample_new_tool_call
    = ((pw_db w)\<lparr>cdb_calls := [admitted_row sample_new_tool_call]\<rparr>, Ok sample_corr)"
  using assms sample_tool_call_checks
  by (simp add: admit_tool_call_def Let_def sample_db_runs sample_pl_def)
    (simp add: admitted_row_def sample_new_tool_call_def)

lemma sample_pl_intent: "intent_compute (pl_to_string sample_pl) (pl_sha256 sample_pl) (lit ''gmail.send'') (lit ''1.0'')
    (JObject []) = Ok (replicate 32 0)"
  by (simp add: intent_compute_Ok sample_pl_def is_object_def canonical_text_def MAX_CANONICAL_INTENT_CHARS_def)

lemma sample_event:
  assumes "db_runs (cdb_store (pw_db w)) = db_runs sample_db" "str_len eid = 36"
    and "\<not> event_id_taken (cdb_store (pw_db w)) eid"
    and "summary \<noteq> []" "length summary \<le> MAX_EVENT_SUMMARY_CHARS" "payload \<noteq> []" "str_len payload \<le> MAX_EVENT_PAYLOAD_BYTES"
  shows "\<exists>ev n. run (append_event sample_pl eid (replicate 36 97) kind summary payload corr at) w
      = (w\<lparr>pw_db := (pw_db w)\<lparr>cdb_store := (cdb_store (pw_db w))\<lparr>db_events :=
           db_events (cdb_store (pw_db w)) @ [ev]\<rparr>\<rparr>\<rparr>, Inr n) \<and> nev_id ev = eid"
  using assms
  by (simp add: append_event_def Let_def run_lift EventSummary_new_def RunEventPayload_new_def sample_pl_def
      NewRunEvent_new_def on_store_def append_run_event_def sample_db_runs utf8_width_def insert_event_def
      NewRunEvent.defs) (rule exI, rule conjI, rule refl, simp)

lemma sample_trim: "trim (lit ''p1'') = lit ''p1''"
  by (simp add: trim_def lit_def is_whitespace_def)

lemma sample_version: "td_version sample_tool = lit ''1.0''"
  by (simp add: sample_tool_def)

lemma sample_asks: "td_approval sample_tool \<noteq> Auto"
  by (simp add: sample_tool_def)

lemma sample_authority:
  "is_allowed (evaluate (policy_request sample_tool sample_actor (trusting WorkspacePolicy_default (td_id sample_tool)) {}))"
  by (simp add: is_allowed_def evaluate_decision refused_def owes_approval_def policy_request_def authority_def
      sample_actor_def ActorAuthority_active_def sample_tool_def trusting_def WorkspacePolicy_default_def denies_def
      trusts_def effective_approval_def effective_risk_max TargetAssessment_escalation_def is_available_def
      risk_order max_def is_satisfied_by_def covers_def is_wildcard_def WILDCARD_ACTION_def sample_scope_def)


abbreviation trusting_policy :: WorkspacePolicy where
  "trusting_policy \<equiv> trusting WorkspacePolicy_default (td_id sample_tool)"

lemma sample_requested_event:
  assumes "cdb_store (pw_db w) = sample_db"
  shows "\<exists>ev n. run (append_event sample_pl (dr_event_id sample_draws) (ta_run_id sample_actor) ToolRequested
        (lit ''Requested '' @ lit ''gmail.send'')
        (requested_payload sample_pl (lit ''gmail.send'') (td_version sample_tool) (JObject []))
        sample_corr (dr_event_at sample_draws)) w
      = (w\<lparr>pw_db := (pw_db w)\<lparr>cdb_store := sample_db\<lparr>db_events := [ev]\<rparr>\<rparr>\<rparr>, Inr n) \<and> nev_id ev = replicate 36 49"
proof -
  let ?summary = "lit ''Requested '' @ lit ''gmail.send''"
  let ?payload = "requested_payload sample_pl (lit ''gmail.send'') (td_version sample_tool) (JObject [])"
  have brace: "str_len (lit ''{}'') = 2" by (simp add: lit_def utf8_width_def)
  have "?payload = lit ''{}''" by (simp add: requested_payload_def Let_def json_text_def sample_pl_def)
  then show ?thesis
    using sample_event [of w "dr_event_id sample_draws" ?summary ?payload ToolRequested sample_corr "dr_event_at sample_draws"]
    by (simp add: assms sample_draws_def sample_actor_def utf8_width_def event_id_taken_def sample_db_runs
        MAX_EVENT_SUMMARY_CHARS_def MAX_EVENT_PAYLOAD_BYTES_def brace)
qed

lemma sample_call_decided:
  assumes "ledger_rows w = []" "cdb_store (pw_db w) = sample_db"
  shows "\<exists>w' q r. run (call_decided sample_pl sample_draws (lit ''gmail.send'') sample_tool (JObject []) sample_actor
        (evaluate (policy_request sample_tool sample_actor trusting_policy {})) sample_corr) w
      = (w', Inl (Pipe_AdapterCall (RefusedBeforeReaching (lit ''offline''))))
    \<and> pw_executed w' = pw_executed w @ [q] \<and> exp_call_id q = sample_corr
    \<and> ledger_rows w' = [r] \<and> tcr_id r = sample_corr \<and> row_outcome r = Some Submitted"
proof -
  let ?decision = "evaluate (policy_request sample_tool sample_actor trusting_policy {})"
  let ?summary = "lit ''Requested '' @ lit ''gmail.send''"
  let ?payload = "requested_payload sample_pl (lit ''gmail.send'') (td_version sample_tool) (JObject [])"
  have allowed: "\<not> is_denied ?decision" "\<not> is_held ?decision"
    using sample_authority by (simp_all add: is_allowed_def is_denied_def is_held_def)
  from sample_requested_event [OF assms(2)] obtain ev n where event: "run (append_event sample_pl
        (dr_event_id sample_draws) (ta_run_id sample_actor) ToolRequested ?summary ?payload sample_corr
        (dr_event_at sample_draws)) w
      = (w\<lparr>pw_db := (pw_db w)\<lparr>cdb_store := sample_db\<lparr>db_events := [ev]\<rparr>\<rparr>\<rparr>, Inr n)" by blast
  let ?w = "w\<lparr>pw_db := (pw_db w)\<lparr>cdb_store := sample_db\<lparr>db_events := [ev]\<rparr>\<rparr>\<rparr>"
  let ?row = "admitted_row sample_new_tool_call"
  let ?v = "?w\<lparr>pw_db := (pw_db ?w)\<lparr>cdb_calls := [?row]\<rparr>\<rparr>"
  obtain receipt where receipt: "AuthorizationReceipt_new (pl_to_string sample_pl) (pl_sha256 sample_pl)
       \<lparr>arp_receipt_id = sample_corr, arp_tool = td_id sample_tool, arp_tool_version = lit ''1.0'',
        arp_arguments = JObject [], arp_intent_hash = replicate 32 0, arp_policy_version = lit ''p1'',
        arp_decision = ?decision, arp_approval = None, arp_correlation_id = sample_corr, arp_issued_at = 2\<rparr> = Ok receipt"
    using allowed
    by (simp add: AuthorizationReceipt_new_def Let_def sample_display sample_pl_intent sample_trim MAX_POLICY_VERSION_CHARS_def)
  define prepared where "prepared = \<lparr>prep_call_id = sample_corr, prep_receipt = receipt, prep_key = replicate 32 48,
      prep_arguments = JObject [], prep_issued_at = 2,
      prep_read_context = Some (ta_workspace_id sample_actor, ta_read_destination sample_actor)\<rparr>"
  have admission: "run (authorize_and_admit sample_pl sample_draws (lit ''gmail.send'') sample_tool (JObject [])
        sample_actor ?decision sample_corr) ?w = (?v, Inr (Runnable prepared))"
    using allowed receipt sample_admission [of ?w]
    by (simp add: authorize_and_admit_def Let_def run_lift run_and_await run_bind refuse_repeated_def sample_version
        sample_pl_intent IdempotencyKey_generate_def ok_or_def map_ok_def encode_hex_zeros run_on_db sample_tool_id
        sample_draws_def sample_actor_def prepared_def assms sample_new_expanded)
  have "\<exists>plain_request. ToolExecutionRequest_new (pl_to_string sample_pl) (pl_sha256 sample_pl)
        (execution_parts sample_pl prepared (td_id sample_tool) sample_tool sample_corr) = Ok plain_request"
    using AuthorizationReceipt_new_Ok [OF receipt]
    by (simp add: ToolExecutionRequest_new_def execution_parts_def prepared_def receipt_is_valid_at_def is_object_def
        sample_display sample_pl_intent sample_version Let_def)
  then obtain plain_request where plain: "ToolExecutionRequest_new (pl_to_string sample_pl) (pl_sha256 sample_pl)
        (execution_parts sample_pl prepared (td_id sample_tool) sample_tool sample_corr) = Ok plain_request" by blast
  have "prep_call_id prepared = sample_corr" "tcr_id ?row = sample_corr"
    by (simp_all add: prepared_def sample_new_tool_call_def)
  with sample_execution [OF _ _ admitted_row_ok [OF sample_tool_call_checks] _ _ plain, of ?v sample_draws]
  show ?thesis
    using allowed event admission
    by (simp add: call_decided_def run_and_await run_open_for_calls_def sample_db_runs sample_new_tool_call_def)
      blast
qed


lemma sample_called:
  "\<exists>w' q r. run (call_tool sample_pl sample_draws (lit ''gmail.send'') (JObject []) sample_actor sample_corr)
        (sample_world trusting_policy)
      = (w', Inl (Pipe_AdapterCall (RefusedBeforeReaching (lit ''offline''))))
    \<and> pw_executed w' = [q] \<and> exp_call_id q = sample_corr
    \<and> ledger_rows w' = [r] \<and> tcr_id r = sample_corr \<and> row_outcome r = Some Submitted"
proof -
  let ?w = "(sample_world trusting_policy)\<lparr>pw_gate := WorkAdmission_default\<lparr>active := 1\<rparr>\<rparr>"
  have facts: "ledger_rows ?w = []" "cdb_store (pw_db ?w) = sample_db" "pw_executed ?w = []"
    "pw_policy ?w = trusting_policy" "pw_gate (sample_world trusting_policy) = WorkAdmission_default"
    by (simp_all add: sample_world_def)
  from sample_call_decided [OF facts(1,2)] obtain w' q r where
    "run (call_decided sample_pl sample_draws (lit ''gmail.send'') sample_tool (JObject []) sample_actor
        (evaluate (policy_request sample_tool sample_actor trusting_policy {})) sample_corr) ?w
      = (w', Inl (Pipe_AdapterCall (RefusedBeforeReaching (lit ''offline''))))"
    "pw_executed w' = [q]" "exp_call_id q = sample_corr" "ledger_rows w' = [r]" "tcr_id r = sample_corr"
    "row_outcome r = Some Submitted" unfolding facts(3) by auto
  then show ?thesis
    by (simp add: call_tool_def while_admitted_def run_bind sample_admit call_admitted_def facts
        run_lift sample_definition_for sample_validate run_and_await sample_no_delegation)
qed

lemma sample_world_facts:
  "ledger_rows (sample_world policy) = []" "pw_executed (sample_world policy) = []"
  "ledger_sound (sample_world policy)" "pw_policy (sample_world policy) = policy"
  by (simp_all add: sample_world_def ledger_sound_def calls_inv_def)

theorem call_executes_as_policy_allows_witness:
  "\<exists>q. pw_executed (fst (run (call_tool sample_pl sample_draws (lit ''gmail.send'') (JObject []) sample_actor sample_corr)
        (sample_world trusting_policy))) = [q] \<and> exp_call_id q = sample_corr
     \<and> (\<exists>d. get_tool (pl_registry sample_pl) (exp_tool q) = Ok d
        \<and> is_allowed (evaluate (policy_request d sample_actor trusting_policy {})))"
proof -
  from sample_called obtain w' out q where w': "run (call_tool sample_pl sample_draws (lit ''gmail.send'') (JObject [])
      sample_actor sample_corr) (sample_world trusting_policy) = (w', out)" "pw_executed w' = [q]" by blast
  from call_executes_as_policy_allows [OF w'(1) sample_world_facts(3)] w' show ?thesis
    by (auto simp: sample_world_facts)
qed

theorem no_call_executed_twice_witness:
  "\<exists>w' ps. (pool_step outside (pipeline_handlers sample_pl))\<^sup>*\<^sup>* (sample_world trusting_policy, []) (w', ps)
    \<and> (\<exists>q. pw_executed w' = [q]) \<and> (\<forall>cid. length (filter (\<lambda>q. exp_call_id q = cid) (pw_executed w')) \<le> 1)"
proof -
  let ?p = "call_tool sample_pl sample_draws (lit ''gmail.send'') (JObject []) sample_actor sample_corr"
  from sample_called obtain w' out q where w': "run ?p (sample_world trusting_policy) = (w', out)"
    "pw_executed w' = [q]" by blast
  have "pool_step outside (pipeline_handlers sample_pl) (sample_world trusting_policy, [])
      (sample_world trusting_policy, [?p])"
    using pool_step.spawn [OF pipeline_handlers.calls, of outside sample_pl _ "[]"] by simp
  with run_pool_steps [of 0 "[?p]" ?p outside "pipeline_handlers sample_pl" "sample_world trusting_policy"] w'(1)
  have steps: "(pool_step outside (pipeline_handlers sample_pl))\<^sup>*\<^sup>* (sample_world trusting_policy, []) (w', [Done out])"
    by (simp add: converse_rtranclp_into_rtranclp)
  have "calls_inv (ledger_rows (sample_world trusting_policy))" by (simp add: sample_world_facts calls_inv_def)
  from no_call_executed_twice [OF steps this sample_world_facts(2)] steps w'(2) show ?thesis
    by (auto simp: sample_pl_def)
qed

text \<open>What a direct call leaves when its adapter refuses: the adapter says the call never reached the
  provider, yet the row stays \<open>submitted\<close>, so the next start settles it as \<open>unknown\<close>, \<open>the daemon stopped
  while this call was running\<close>. Only a resumed call is settled with the refusal.\<close>

theorem direct_refusal_ends_unknown:
  "\<exists>w' r. run (call_tool sample_pl sample_draws (lit ''gmail.send'') (JObject []) sample_actor sample_corr)
        (sample_world trusting_policy) = (w', Inl (Pipe_AdapterCall (RefusedBeforeReaching (lit ''offline''))))
    \<and> ledger_rows w' = [r] \<and> row_outcome r = Some Submitted \<and> is_orphan r
    \<and> rec_outcome (orphan_verdict r) = Unknown"
proof -
  have "rec_outcome (orphan_verdict r) = Unknown" "is_orphan r" if "row_outcome r = Some Submitted" for r
    using that by (simp_all add: orphan_verdict_def is_orphan_def)
  with sample_called show ?thesis by blast
qed


section \<open>A call that is held, and resumed\<close>

lemma sample_held:
  "is_held (evaluate (policy_request sample_tool sample_actor WorkspacePolicy_default {}))"
  "Risk_level (pd_effective_risk (evaluate (policy_request sample_tool sample_actor WorkspacePolicy_default {}))) = 2"
  by (simp_all add: is_held_def evaluate_decision evaluate_risk refused_def owes_approval_def policy_request_def authority_def
      sample_actor_def ActorAuthority_active_def sample_tool_def WorkspacePolicy_default_def denies_def
      trusts_def effective_approval_def effective_risk_max TargetAssessment_escalation_def is_available_def
      external_rule_applies_def
      risk_order max_def is_satisfied_by_def covers_def is_wildcard_def WILDCARD_ACTION_def sample_scope_def)

definition sample_held_request :: ApprovalRequest where
  "sample_held_request = ApprovalRequestParts.extend
     \<lparr>apr_id = replicate 36 50, apr_workspace_id = replicate 36 99, apr_run_id = replicate 36 97,
      apr_actor_id = replicate 36 97, apr_tool = lit ''gmail.send'', apr_tool_version = lit ''1.0'',
      apr_intent = replicate 32 0, apr_preview = lit ''gmail.send 1.0'', apr_risk_level = 2,
      apr_correlation_id = sample_corr, apr_created_at = 2, apr_expires_at = 3600000000002\<rparr>
     \<lparr>apr_decision = None\<rparr>"

lemma sample_held_request_new:
  "ApprovalRequest_new (ApprovalRequestParts.truncate sample_held_request) = Ok sample_held_request"
  unfolding ApprovalRequest_new_Ok
  by (simp add: sample_held_request_def ApprovalRequestParts.defs is_ok_iff SafeMessage_new_Ok
      MAX_APPROVAL_PREVIEW_CHARS_def MAX_APPROVAL_LIFETIME_SECONDS_def)
    (simp add: lit_def utf8_width_def is_control_def)

lemma sample_held_checks: "approval_checks (approval_row_of sample_held_request)"
  unfolding approval_checks_def
  by (simp add: approval_row_of_def sample_held_request_def ApprovalRequestParts.defs
      chars_between_def hex_glob_def encode_hex_zeros null_or_def undecided_columns_def
      unused_column_values_def strengths_def list_all_iff is_ascii_digit_def)
    (simp add: lit_def)

lemma sample_record_hold:
  assumes "ledger_rows w = [admitted_row sample_new_tool_call]" "pw_approvals w = []"
    and "db_runs (cdb_store (pw_db w)) = db_runs sample_db"
    and "\<not> event_id_taken (cdb_store (pw_db w)) (replicate 36 51)"
    and "hold_call_id hold = sample_corr" "hold_workspace_id hold = replicate 36 99" "hold_run_id hold = replicate 36 97"
    "hold_tool hold = lit ''gmail.send''" "hold_tool_version hold = lit ''1.0''" "hold_intent hold = replicate 32 0"
    "Risk_level (hold_risk hold) = 2" "hold_preview hold = lit ''gmail.send 1.0''"
    "hold_correlation_id hold = sample_corr" "hold_issued_at hold = 2"
  shows "\<exists>w'. run (record_hold sample_pl sample_draws hold) w = (w', Inr (hold\<lparr>hold_approval_id := replicate 36 50\<rparr>))"
proof -
  have request: "new_approval_request sample_pl hold (hold_run_id hold) (replicate 36 50)
      (default_expiry (\<lambda>_. True) 2) = Inr sample_held_request"
    using sample_held_request_new
    by (simp add: new_approval_request_def parsed_id_def sample_pl_def assms ok_or_def default_expiry_def
        from_unix_nanos_def MAX_APPROVAL_LIFETIME_SECONDS_def sample_held_request_def ApprovalRequestParts.defs)
  let ?row = "approval_row_of sample_held_request"
  have id: "apr_id sample_held_request = replicate 36 50" "sap_id ?row = replicate 36 50"
    by (simp_all add: sample_held_request_def approval_row_of_def ApprovalRequestParts.defs)
  have "apr_decision sample_held_request = None"
    by (simp add: sample_held_request_def ApprovalRequestParts.defs)
  then have create: "create_approval (pl_approval_parents sample_pl) [] sample_held_request = ([?row], Ok ())"
    using sample_held_checks id
    by (simp add: create_approval_def Let_def intent_blocked_def acknowledge_def sample_pl_def ok_or_def map_ok_def)
  let ?v = "w\<lparr>pw_approvals := [?row]\<rparr>"
  have linked: "link_tool_call_approval (\<lambda>a. list_ex (\<lambda>r. sap_id r = a) [?row]) (pw_db w) sample_corr (replicate 36 50) 3
      = ((pw_db w)\<lparr>cdb_calls := [link_row (replicate 36 50) 3 (admitted_row sample_new_tool_call)]\<rparr>, Ok ())"
    using assms(1) id
    by (simp add: link_tool_call_approval_def Let_def rows_affected_def sql_update_def sample_corr_def utf8_width_def)
      (simp add: admitted_row_def sample_new_tool_call_def sample_corr_def)
  let ?u = "?v\<lparr>pw_db := (pw_db w)\<lparr>cdb_calls := [link_row (replicate 36 50) 3 (admitted_row sample_new_tool_call)]\<rparr>\<rparr>"
  have link: "run (link_hold sample_corr (replicate 36 50) 3) ?v = (?u, Inr ())"
    using linked by (simp add: link_hold_def)
  obtain rows b where attach: "run (attach_held_arguments sample_pl (replicate 36 50) (hold_arguments hold)) ?u
      = (?u\<lparr>pw_approvals := rows\<rparr>, Inr b)"
    by (cases "attach_approval_arguments [?row] (replicate 36 50) (lit ''{}'')")
      (auto simp: attach_held_arguments_def sample_pl_def on_approvals_def)
  let ?t = "?u\<lparr>pw_approvals := rows\<rparr>"
  let ?payload = "approval_payload sample_pl (replicate 36 50) sample_corr"
  have "?payload \<noteq> []" by (simp add: approval_payload_def)
  moreover have "str_len ?payload \<le> MAX_EVENT_PAYLOAD_BYTES"
    by (simp add: approval_payload_def json_text_def sample_pl_def MAX_EVENT_PAYLOAD_BYTES_def) (simp add: lit_def utf8_width_def)
  moreover have "length (lit ''Approval needed for '' @ lit ''gmail.send'') \<le> MAX_EVENT_SUMMARY_CHARS"
    by (simp add: MAX_EVENT_SUMMARY_CHARS_def)
  ultimately obtain w' n where event: "run (append_event sample_pl (replicate 36 51) (replicate 36 97) ApprovalRequested
      (lit ''Approval needed for '' @ lit ''gmail.send'') ?payload sample_corr 4) ?t = (w', Inr n)"
    using sample_event [of ?t "replicate 36 51" "lit ''Approval needed for '' @ lit ''gmail.send''" ?payload
        ApprovalRequested sample_corr 4] assms(3,4) by (auto simp: utf8_width_def)
  have fields: "dr_approval_id sample_draws = replicate 36 50" "dr_link_at sample_draws = 3" "dr_expiry_at sample_draws = 2"
    "dr_hold_event_id sample_draws = replicate 36 51" "dr_hold_event_at sample_draws = 4"
    "pl_representable sample_pl = (\<lambda>_. True)"
    by (simp_all add: sample_draws_def sample_pl_def)
  show ?thesis
    using request create link attach event
    by (simp add: record_hold_def Let_def run_lift run_and_await fields on_approvals_def assms(2,5,7,8,13) id)
qed


lemma sample_held_call:
  "\<exists>w' reason. run (call_tool sample_pl sample_draws (lit ''gmail.send'') (JObject []) sample_actor sample_corr)
      (sample_world WorkspacePolicy_default) = (w', Inr (AwaitingApproval sample_corr (replicate 36 50) reason))"
proof -
  let ?decision = "evaluate (policy_request sample_tool sample_actor WorkspacePolicy_default {})"
  let ?w = "(sample_world WorkspacePolicy_default)\<lparr>pw_gate := WorkAdmission_default\<lparr>active := 1\<rparr>\<rparr>"
  have facts: "ledger_rows ?w = []" "cdb_store (pw_db ?w) = sample_db" "pw_approvals ?w = []"
    "pw_policy ?w = WorkspacePolicy_default" "pw_gate (sample_world WorkspacePolicy_default) = WorkAdmission_default"
    by (simp_all add: sample_world_def)
  from sample_requested_event [OF facts(2)] obtain ev n where
    event: "run (append_event sample_pl (dr_event_id sample_draws) (ta_run_id sample_actor) ToolRequested
        (lit ''Requested '' @ lit ''gmail.send'')
        (requested_payload sample_pl (lit ''gmail.send'') (td_version sample_tool) (JObject []))
        sample_corr (dr_event_at sample_draws)) ?w
      = (?w\<lparr>pw_db := (pw_db ?w)\<lparr>cdb_store := sample_db\<lparr>db_events := [ev]\<rparr>\<rparr>\<rparr>, Inr n)"
    and ev: "nev_id ev = replicate 36 49" by blast
  let ?v = "?w\<lparr>pw_db := (pw_db ?w)\<lparr>cdb_store := sample_db\<lparr>db_events := [ev]\<rparr>\<rparr>\<rparr>"
  let ?u = "?v\<lparr>pw_db := (pw_db ?v)\<lparr>cdb_calls := [admitted_row sample_new_tool_call]\<rparr>\<rparr>"
  let ?hold = "\<lparr>hold_call_id = sample_corr, hold_approval_id = [], hold_workspace_id = replicate 36 99,
      hold_run_id = replicate 36 97, hold_tool = lit ''gmail.send'', hold_tool_version = lit ''1.0'',
      hold_intent = replicate 32 0, hold_risk = pd_effective_risk ?decision,
      hold_preview = lit ''gmail.send'' @ [32] @ lit ''1.0'', hold_arguments = JObject [],
      hold_correlation_id = sample_corr, hold_issued_at = 2\<rparr>"
  have preview: "lit ''gmail.send'' @ [32] @ lit ''1.0'' = lit ''gmail.send 1.0''" by (simp add: lit_def)
  have taken: "\<not> event_id_taken (sample_db\<lparr>db_events := [ev]\<rparr>) (replicate 36 51)"
    by (simp add: event_id_taken_def ev)
  obtain w' where hold: "run (record_hold sample_pl sample_draws ?hold) ?u
      = (w', Inr (?hold\<lparr>hold_approval_id := replicate 36 50\<rparr>))"
    using sample_record_hold [of ?u ?hold] taken preview sample_held(2) by (auto simp: sample_world_def)
  have held: "is_held ?decision" "\<not> is_denied ?decision"
    using sample_held(1) by (simp_all add: is_held_def is_denied_def)
  have "run (authorize_and_admit sample_pl sample_draws (lit ''gmail.send'') sample_tool (JObject [])
        sample_actor ?decision sample_corr) ?v = (w', Inr (Held (?hold\<lparr>hold_approval_id := replicate 36 50\<rparr>)))"
    using held hold sample_admission [of ?v] facts
    by (simp add: authorize_and_admit_def Let_def run_lift run_and_await run_bind refuse_repeated_def sample_version
        sample_pl_intent IdempotencyKey_generate_def ok_or_def map_ok_def encode_hex_zeros run_on_db
        sample_draws_def sample_actor_def sample_new_expanded read_run_approvals_def newest_first_def)
  then show ?thesis
    using event held
    by (simp add: call_tool_def while_admitted_def run_bind sample_admit call_admitted_def facts
        run_lift sample_definition_for sample_validate run_and_await sample_no_delegation call_decided_def)
qed

theorem held_call_waits_witness:
  "\<exists>w' row ap. row \<in> set (ledger_rows w') \<and> row_outcome row = Some Requested \<and> pw_executed w' = []
    \<and> tcr_approval_id row = Some (sap_id ap) \<and> ap \<in> set (pw_approvals w') \<and> sap_state ap = lit ''pending''"
proof -
  from sample_held_call obtain w' reason where w': "run (call_tool sample_pl sample_draws (lit ''gmail.send'')
      (JObject []) sample_actor sample_corr) (sample_world WorkspacePolicy_default)
      = (w', Inr (AwaitingApproval sample_corr (replicate 36 50) reason))" by blast
  from held_call_waits [OF w'] obtain row ap where "row \<in> set (ledger_rows w')" "row_outcome row = Some Requested"
    "pw_executed w' = []" "tcr_approval_id row = Some (replicate 36 50)" "ap \<in> set (pw_approvals w')"
    "sap_id ap = replicate 36 50" "sap_state ap = lit ''pending''" by (auto simp: sample_world_facts)
  then show ?thesis by (intro exI [of _ w'] exI [of _ row] exI [of _ ap]) simp
qed


definition sample_yes :: ApprovalDecision where
  "sample_yes = \<lparr>dec_outcome = Approve, dec_channel = Cli, dec_decided_at = 2, dec_approver_id = lit ''owner''\<rparr>"

definition sample_linked_row :: tool_call_row where
  "sample_linked_row = link_row (replicate 36 50) 3 (admitted_row sample_new_tool_call)"

definition sample_approved_world :: pipeline_world where
  "sample_approved_world = (sample_world WorkspacePolicy_default)
     \<lparr>pw_db := \<lparr>cdb_store = sample_db, cdb_calls = [sample_linked_row]\<rparr>,
      pw_approvals := [decision_row Approved sample_yes (approval_row_of sample_held_request)]\<rparr>"

lemma sample_yes_new: "ApprovalDecision_new Approve Cli 2 (lit ''owner'') = Ok sample_yes"
proof -
  have "trim (lit ''owner'') = lit ''owner''" by (simp add: trim_def lit_def is_whitespace_def)
  moreover have "str_len (lit ''owner'') = 5" by (simp add: lit_def utf8_width_def)
  ultimately show ?thesis by (simp add: ApprovalDecision_new_def sample_yes_def MAX_APPROVER_ID_CHARS_def)
qed

lemma sample_approved_found:
  "find_approval (pw_approvals sample_approved_world) (replicate 36 50)
     = Ok (sample_held_request\<lparr>apr_decision := Some sample_yes\<rparr>)"
proof -
  let ?r = "approval_row_of sample_held_request"
  have "decode_approval (decision_row Approved sample_yes ?r) = Ok (sample_held_request\<lparr>apr_decision := Some sample_yes\<rparr>)"
    using decode_decision_row [OF approval_row_of_ok(1) [OF sample_held_request_new sample_held_checks] _ sample_yes_new]
    by (simp add: sample_yes_def approval_row_of_def)
  moreover have "sap_id ?r = replicate 36 50"
    by (simp add: sample_held_request_def approval_row_of_def ApprovalRequestParts.defs)
  ultimately show ?thesis by (simp add: sample_approved_world_def find_approval_def ok_or_def decision_row_def)
qed

lemma sample_linked_ok: "call_row_ok sample_linked_row" "row_outcome sample_linked_row = Some Requested"
  using call_row_step_ok [OF call_row_step.link admitted_row_ok [OF sample_tool_call_checks]]
  by (simp_all add: sample_linked_row_def) (simp add: admitted_row_def sample_new_tool_call_def)


lemma sample_linked_read: "\<exists>stored. find_tool_call (pw_db sample_approved_world) sample_corr = Ok stored
    \<and> stc_id stored = sample_corr \<and> stc_run_id stored = replicate 36 97 \<and> stc_approval_id stored = Some (replicate 36 50)
    \<and> StoredToolCall_outcome stored = Requested \<and> stc_tool stored = lit ''gmail.send''
    \<and> stc_tool_version stored = lit ''1.0'' \<and> stc_intent_hash stored = replicate 64 48
    \<and> stc_policy_version stored = lit ''p1'' \<and> stc_idempotency_key stored = replicate 32 48"
proof -
  obtain stored where stored: "decode_tool_call sample_linked_row = Ok stored"
    using decode_tool_call_ok [OF sample_linked_ok(1)] by blast
  have row: "tcr_id sample_linked_row = sample_corr" "tcr_run_id sample_linked_row = replicate 36 97"
    "tcr_approval_id sample_linked_row = Some (replicate 36 50)" "tcr_tool sample_linked_row = lit ''gmail.send''"
    "tcr_tool_version sample_linked_row = lit ''1.0''" "tcr_intent_hash sample_linked_row = replicate 64 48"
    "tcr_policy_version sample_linked_row = lit ''p1''" "tcr_idempotency_key sample_linked_row = replicate 32 48"
    by (simp_all add: sample_linked_row_def link_row_def) (simp_all add: admitted_row_def sample_new_tool_call_def)
  have "stc_tool stored = tcr_tool sample_linked_row" "stc_tool_version stored = tcr_tool_version sample_linked_row"
    "stc_intent_hash stored = tcr_intent_hash sample_linked_row" "stc_policy_version stored = tcr_policy_version sample_linked_row"
    "stc_idempotency_key stored = tcr_idempotency_key sample_linked_row"
    using stored by (auto simp: decode_tool_call_def split: if_splits)
  with stored row decode_tool_call_fields [OF stored] sample_linked_ok(2) show ?thesis
    by (simp add: find_tool_call_def sample_approved_world_def ok_or_def)
qed

lemma sample_resumed:
  "\<exists>w' out. run (resume sample_pl sample_draws sample_corr (JObject []) sample_actor sample_corr) sample_approved_world
     = (w', out) \<and> pw_executed w' \<noteq> pw_executed sample_approved_world"
proof -
  let ?approval = "sample_held_request\<lparr>apr_decision := Some sample_yes\<rparr>"
  let ?w = "sample_approved_world\<lparr>pw_gate := WorkAdmission_default\<lparr>active := 1\<rparr>\<rparr>"
  obtain stored where stored: "find_tool_call (pw_db sample_approved_world) sample_corr = Ok stored"
    "stc_id stored = sample_corr" "stc_run_id stored = replicate 36 97" "stc_approval_id stored = Some (replicate 36 50)"
    "StoredToolCall_outcome stored = Requested" "stc_tool stored = lit ''gmail.send''"
    "stc_tool_version stored = lit ''1.0''" "stc_intent_hash stored = replicate 64 48"
    "stc_policy_version stored = lit ''p1''" "stc_idempotency_key stored = replicate 32 48"
    using sample_linked_read by blast
  have approval: "authorizes_at ?approval (dr_now sample_draws)" "apr_tool ?approval = lit ''gmail.send''"
    "apr_tool_version ?approval = lit ''1.0''" "apr_intent ?approval = replicate 32 0" "apr_risk_level ?approval = 2"
    "apr_decision ?approval = Some sample_yes" "apr_expires_at ?approval = 3600000000002"
    by (simp_all add: authorizes_at_iff sample_held_request_def ApprovalRequestParts.defs sample_yes_def sample_draws_def)
  let ?citation = "citation_of ?approval sample_yes"
  have "trim (lit ''owner'') = lit ''owner''" by (simp add: trim_def lit_def is_whitespace_def)
  then obtain receipt where receipt: "AuthorizationReceipt_new (pl_to_string sample_pl) (pl_sha256 sample_pl)
       \<lparr>arp_receipt_id = sample_corr, arp_tool = td_id sample_tool, arp_tool_version = lit ''1.0'',
        arp_arguments = JObject [], arp_intent_hash = replicate 32 0, arp_policy_version = lit ''p1'',
        arp_decision = held_by_approval 2, arp_approval = Some ?citation,
        arp_correlation_id = sample_corr, arp_issued_at = dr_now sample_draws\<rparr> = Ok receipt"
    by (simp add: AuthorizationReceipt_new_def Let_def sample_display sample_pl_intent sample_trim MAX_POLICY_VERSION_CHARS_def
        held_by_approval_def is_denied_def citation_of_def sample_yes_def)
  define prepared where "prepared = \<lparr>prep_call_id = sample_corr, prep_receipt = receipt, prep_key = replicate 32 48,
      prep_arguments = JObject [], prep_issued_at = dr_now sample_draws,
      prep_read_context = Some (ta_workspace_id sample_actor, ta_read_destination sample_actor)\<rparr>"
  have "\<exists>plain_request. ToolExecutionRequest_new (pl_to_string sample_pl) (pl_sha256 sample_pl)
        (execution_parts sample_pl prepared (td_id sample_tool) sample_tool sample_corr) = Ok plain_request"
    using AuthorizationReceipt_new_Ok [OF receipt]
    by (simp add: ToolExecutionRequest_new_def execution_parts_def prepared_def receipt_is_valid_at_def is_object_def
        sample_display sample_pl_intent sample_version Let_def citation_of_def approval sample_draws_def)
  then obtain plain_request where plain: "ToolExecutionRequest_new (pl_to_string sample_pl) (pl_sha256 sample_pl)
        (execution_parts sample_pl prepared (td_id sample_tool) sample_tool sample_corr) = Ok plain_request" by blast
  have row: "ledger_rows ?w = [sample_linked_row]" "tcr_id sample_linked_row = prep_call_id prepared"
    "run_open_for_calls (cdb_store (pw_db ?w)) (tcr_run_id sample_linked_row)"
    by (simp_all add: sample_approved_world_def sample_world_def prepared_def run_open_for_calls_def sample_db_runs
        sample_linked_row_def link_row_def) (simp_all add: admitted_row_def sample_new_tool_call_def)
  from sample_execution [OF row(1,2) sample_linked_ok row(3) plain, of sample_draws] obtain w1 q where
    executed: "run (execute_and_record sample_pl sample_draws prepared (lit ''gmail.send'') sample_tool sample_corr) ?w
      = (w1, Inl (Pipe_AdapterCall (RefusedBeforeReaching (lit ''offline''))))"
      "pw_executed w1 = pw_executed ?w @ [q]" by blast
  have key: "IdempotencyKey_parse (replicate 32 48) = Ok (replicate 32 48)"
  proof -
    have "trim (replicate 32 48) = (replicate 32 48 :: rstr)" by (rule trim_id) (simp_all add: is_whitespace_def)
    then show ?thesis
      by (simp add: IdempotencyKey_parse_def utf8_width_def list_all_iff is_ascii_hexdigit_def is_ascii_digit_def
          to_ascii_lowercase_def is_ascii_uppercase_def)
  qed
  from executed have "asks (execute_and_record sample_pl sample_draws prepared (lit ''gmail.send'') sample_tool
      sample_corr) ?w q" by (simp add: asks_def)
  then have "asks (resume_prepared sample_pl sample_draws sample_corr (JObject []) sample_actor sample_corr stored ?approval
      (replicate 32 0) ?citation sample_tool) ?w q"
    using stored receipt key
    by (simp add: resume_prepared_def asks_lift asks_then [OF keeps_after_execution] sample_tool_id approval prepared_def)
  then have "asks (resume_admitted sample_pl sample_draws sample_corr (JObject []) sample_actor sample_corr) ?w q"
    using stored approval sample_approved_found
    by (simp add: resume_admitted_def asks_and_await keeps_read_call keeps_read_approvals asks_refuse_if
        resume_authorized_def asks_lift sample_pl_intent sample_definition_for keeps_refuses_child
        sample_no_delegation encode_hex_zeros sample_actor_def) auto
  then have "pw_executed (fst (run (resume sample_pl sample_draws sample_corr (JObject []) sample_actor sample_corr)
      sample_approved_world)) = pw_executed sample_approved_world @ [q]"
    by (simp add: asks_def resume_def while_admitted_def run_bind sample_admit sample_approved_world_def sample_world_def
        split: prod.splits) auto
  then show ?thesis by (cases "run (resume sample_pl sample_draws sample_corr (JObject []) sample_actor sample_corr)
      sample_approved_world") auto
qed



section \<open>A remote call, and composition\<close>


theorem composed_pipeline_covers_witness:
  "\<exists>reg dispatch. compose_tools [([sample_tool], 7)] = Ok (reg, dispatch)
    \<and> adapter_for dispatch (td_id sample_tool) = Some 7"
proof -
  have compose: "compose_tools [([sample_tool], 7)] = Ok (sample_registry, [(lit ''gmail.send'', 7)])"
  proof -
    have defined: "define_all registry_new [sample_tool] = (sample_registry, Ok ())"
      by (simp add: define_all_def registry_new_def sample_registry_def bt_contains_def bt_get_def MAX_REGISTERED_TOOLS_def)
    have "inv_id (hd (inventory sample_registry)) = lit ''gmail.send''" "length (inventory sample_registry) = 1"
      by (simp_all add: inventory_def sample_registry_def display_key_def tool_key_def Let_def ToolId_display_def)
        (simp add: sample_tool_def lit_def)
    then obtain e where "inventory sample_registry = [e]" "inv_id e = lit ''gmail.send''"
      by (cases "inventory sample_registry") auto
    then have "registered_ids sample_registry = Ok [td_id sample_tool]"
      by (simp add: registered_ids_def sample_tool_id map_ok_def)
    then show ?thesis
      by (simp add: compose_tools_def defined Dispatch_new_def sample_display bt_contains_def bt_get_def verify_covers_def)
  qed
  have "definition_wf sample_tool" by (rule ToolDefinition_new_wf [OF sample_tool_new])
  then show ?thesis
    using compose composed_pipeline_covers [OF compose sample_registry_get] by auto
qed

end
