(* ===== verification/Agent_Examples.thy ===== *)
theory Agent_Examples
  imports Run_Context Transcript Skill_Store Project_Laws Tool_Pipeline_Examples
begin

text \<open>
  Concrete inputs at which the hypotheses of the properties of \<open>Tool_Discovery\<close>, \<open>Transcript\<close>, \<open>Skill\<close>,
  \<open>Skill_Store\<close> and \<open>Project_Laws\<close> hold: a pipeline with a calendar tool that is held back and a tool that
  starts agents, a transcript with a parked call, a procedure that is promoted and stored, a project with a note.
\<close>

section \<open>A search that finds the calendar\<close>

definition calendar_tool :: ToolDefinition where
  "calendar_tool = sample_tool\<lparr>td_id := \<lparr>tid_namespace = lit ''jarvis'', tid_name = lit ''calendar.list''\<rparr>,
     td_description := lit ''Lists events''\<rparr>"

definition agent_tool :: ToolDefinition where
  "agent_tool = sample_tool\<lparr>td_id := \<lparr>tid_namespace = lit ''jarvis'', tid_name = lit ''agent.start''\<rparr>\<rparr>"

definition agents_pl :: ToolPipeline where
  "agents_pl = sample_pl\<lparr>pl_registry := map (\<lambda>d. (tool_key (td_id d), \<lparr>ent_definition = d, ent_runtime = None\<rparr>))
     [agent_tool, calendar_tool]\<rparr>"

definition agent_entry :: CatalogEntry where
  "agent_entry = \<lparr>cat_id = lit ''jarvis.agent.start'', cat_description = lit ''Send a message''\<rparr>"

definition calendar_entry :: CatalogEntry where
  "calendar_entry = \<lparr>cat_id = lit ''jarvis.calendar.list'', cat_description = lit ''Lists events''\<rparr>"

lemma agents_entries: "entries_of agents_pl = [agent_entry, calendar_entry]"
  by (simp add: entries_of_def agents_pl_def Let_def is_callable_def bt_get_def tool_key_def effective_availability_def
      is_available_def get_tool_def List.map_filter_simps agent_tool_def calendar_tool_def ToolId_display_def
      agent_entry_def calendar_entry_def lit_def sample_tool_def)

lemma example_groups: "group_of (lit ''jarvis.calendar.list'') = Some (lit ''jarvis-calendar'')"
    "group_of (lit ''jarvis.agent.start'') = None"
  by (simp_all add: group_of_def strip_prefix_def lit_def DEFERRED_NATIVE_FAMILIES_def NATIVE_GROUP_PREFIX_def)

lemma example_deferred: "deferred_groups (entries_of agents_pl) = [(lit ''jarvis-calendar'', [calendar_entry])]"
proof -
  have "has_prefix NATIVE_GROUP_PREFIX (lit ''jarvis-calendar'')" by (simp add: NATIVE_GROUP_PREFIX_def lit_def)
  then show ?thesis
    by (simp add: agents_entries deferred_groups_def add_to_group_def agent_entry_def calendar_entry_def example_groups bt_get_def)
qed

definition ascii_tables :: unicode where
  "ascii_tables = \<lparr>uni_alphanumeric = is_ascii_alphanumeric, uni_lowercase = map to_ascii_lowercase\<rparr>"

definition discovery_text :: rstr where "discovery_text = lit ''{tool_discovery}''"

definition search_parse :: "rstr \<Rightarrow> json option" where
  "search_parse text = (if text = discovery_text
     then Some (search_everything ascii_tables (entries_of agents_pl) (deferred_groups (entries_of agents_pl)) (lit ''calendar''))
     else None)"

lemma example_waiting: "waiting_groups search_parse agents_pl [] = [(lit ''jarvis-calendar'', [calendar_entry])]"
  by (simp add: waiting_groups_def found_groups_def example_deferred)

lemma calendar_group: "group_of (cat_id calendar_entry) = Some (lit ''jarvis-calendar'')"
  by (simp add: calendar_entry_def example_groups)

lemma example_words: "query_words ascii_tables (lit ''calendar'') = [lit ''calendar'']"
proof -
  have "split_where (\<lambda>c. \<not> uni_alphanumeric ascii_tables c) (lit ''calendar'') = [lit ''calendar'']"
    by (simp add: ascii_tables_def lit_def char_class_defs)
  moreover have "uni_lowercase ascii_tables (lit ''calendar'') = lit ''calendar''"
    by (simp add: ascii_tables_def lit_def to_ascii_lowercase_def is_ascii_uppercase_def)
  moreover have "lit ''calendar'' \<notin> set NOISE" by (simp add: NOISE_def)
  moreover have "stem (lit ''calendar'') = lit ''calendar''"
    by (simp add: stem_def strip_suffix_def strip_prefix_def lit_def)
  ultimately show ?thesis by (simp add: query_words_def)
qed

lemma example_score: "group_score ascii_tables [lit ''calendar''] (lit ''jarvis-calendar'') calendar_entry = 3"
proof -
  have "contains_sub (lit ''calendar'') (uni_lowercase ascii_tables (lit ''jarvis-calendar''))"
    by (simp add: ascii_tables_def lit_def to_ascii_lowercase_def is_ascii_uppercase_def)
  moreover have "\<not> contains_sub (lit ''calendar'') (uni_lowercase ascii_tables (short_name (cat_id calendar_entry)))"
    by (simp add: ascii_tables_def lit_def to_ascii_lowercase_def is_ascii_uppercase_def short_name_def calendar_entry_def)
  moreover have "\<not> contains_sub (lit ''calendar'') (uni_lowercase ascii_tables (cat_description calendar_entry))"
    by (simp add: ascii_tables_def lit_def to_ascii_lowercase_def is_ascii_uppercase_def calendar_entry_def)
  ultimately show ?thesis by (simp add: group_score_def)
qed

lemma example_rank: "search_rank ascii_tables [(lit ''jarvis-calendar'', [calendar_entry])] (lit ''calendar'') = [(3, calendar_entry)]"
  by (simp add: search_rank_def example_words example_score Let_def best_first_def)

lemma discovery_shape: "is_discovery_result discovery_text"
  by (simp add: is_discovery_result_def discovery_text_def RESULT_KIND_def lit_def)


theorem request_prefix_stable_witness:
  "\<exists>core rest rest'. tool_specs search_parse agents_pl False [] = core @ rest
    \<and> tool_specs search_parse agents_pl False [chat_tool (lit ''c1'') discovery_text] = core @ rest' \<and> core \<noteq> []"
proof -
  obtain said where body: "search_body ascii_tables (deferred_groups (entries_of agents_pl)) (lit ''calendar'')
      = search_answer (lit ''calendar'') [lit ''jarvis-calendar''] [listed_entry calendar_entry] said"
    by (simp add: search_body_def example_deferred example_rank Let_def MAX_LISTED_def List.map_filter_simps calendar_group)
  have "groups_in_result search_parse discovery_text = [lit ''jarvis-calendar'']"
    using groups_of_search [where parse = search_parse, OF discovery_shape, of ascii_tables "entries_of agents_pl"
      "deferred_groups (entries_of agents_pl)" "lit ''calendar''" "[lit ''jarvis-calendar'']"]
    by (simp add: search_parse_def body answer_keys)
  then have found: "found_groups search_parse [chat_tool (lit ''c1'') discovery_text] = {lit ''jarvis-calendar''}"
      "found_groups search_parse [] = {}"
    by (simp_all add: found_groups_def groups_in_message_def)
  then obtain core rest rest' where parts: "tool_specs search_parse agents_pl False [] = core @ rest"
    "tool_specs search_parse agents_pl False [chat_tool (lit ''c1'') discovery_text] = core @ rest'"
    "\<forall>s \<in> set rest. spec_name s = SEARCH_TOOL \<or> (\<exists>g \<in> {}. group_of (spec_name s) = Some g)"
    using request_prefix_stable [of search_parse "[chat_tool (lit ''c1'') discovery_text]" "[]" agents_pl False]
    by (auto simp: example_waiting)
  have "lit ''jarvis.agent.start'' \<in> spec_name ` set (tool_specs search_parse agents_pl False [])"
  proof -
    have "is_offered (waiting_groups search_parse agents_pl []) False agent_entry"
      by (simp add: is_offered_def agent_entry_def example_groups SEARCH_TOOL_def)
    then have "cat_id agent_entry \<in> spec_name ` set (tool_specs search_parse agents_pl False [])"
      unfolding offered_names agents_entries by auto
    then show ?thesis by (simp add: agent_entry_def)
  qed
  moreover have "lit ''jarvis.agent.start'' \<noteq> SEARCH_TOOL" by (simp add: SEARCH_TOOL_def)
  ultimately have "core \<noteq> []" using parts by auto
  with parts show ?thesis by blast
qed

definition sub_agent_run :: StoredRun where
  "sub_agent_run = \<lparr>run_parent = Some (replicate 36 96), run_is_delegated = True, run_id = replicate 36 97,
     run_session_id = replicate 36 98, run_workspace_id = replicate 36 99, run_objective = lit ''count'',
     run_state = Executing, run_version = 4, run_cancellation_requested_at = None, run_terminal_outcome = None,
     run_completed_at = None, run_error_code = None, run_started_at = 0\<rparr>"

lemma sample_definitions: "definitions_of sample_pl = Ok [sample_tool]"
proof -
  have "inv_id (hd (inventory sample_registry)) = lit ''gmail.send''" "length (inventory sample_registry) = 1"
    by (simp_all add: inventory_def sample_registry_def display_key_def tool_key_def Let_def ToolId_display_def)
      (simp add: sample_tool_def lit_def)
  then obtain e where "inventory sample_registry = [e]" "inv_id e = lit ''gmail.send''"
    by (cases "inventory sample_registry") auto
  then have "registered_ids sample_registry = Ok [td_id sample_tool]"
    by (simp add: registered_ids_def sample_tool_id map_ok_def)
  then show ?thesis using sample_registry_get by (simp add: definitions_of_def sample_pl_def map_ok_def)
qed

theorem sub_agent_cannot_delegate_witness:
  "\<exists>actor. tool_actor_for sample_pl sub_agent_run = Ok actor
    \<and> (\<forall>spec \<in> set (tool_specs search_parse sample_pl True []). \<not> is_agent_management_tool (spec_name spec))"
proof -
  obtain actor where "tool_actor_for sample_pl sub_agent_run = Ok actor"
    by (simp add: tool_actor_for_def sample_definitions)
  moreover have "run_is_delegated sub_agent_run" by (simp add: sub_agent_run_def)
  ultimately show ?thesis using sub_agent_cannot_delegate [of sub_agent_run sample_pl actor search_parse "[]"] by auto
qed

section \<open>A transcript that waits for its owner\<close>

definition example_call :: ToolCall where
  "example_call = \<lparr>tc_id = lit ''c1'', tc_name = lit ''gmail.send'', tc_arguments = lit ''{}''\<rparr>"

definition example_codec :: json_codec where
  "example_codec = \<lparr>jc_parse = search_parse, jc_print = (\<lambda>_. None)\<rparr>"

definition example_transcript :: "ChatMessage list" where
  "example_transcript = [chat_user (lit ''send it''), assistant_tool_calls [] [example_call]]"


theorem parked_transcript_continues_witness:
  "well_paired (with_results (fit_transcript \<lparr>tr_print = (\<lambda>_. None), tr_parse = (\<lambda>_. None)\<rparr> example_transcript (lit ''c1'') [])
     [lit ''done''])
   \<and> pk_messages (fit_transcript \<lparr>tr_print = (\<lambda>_. None), tr_parse = (\<lambda>_. None)\<rparr> example_transcript (lit ''c1'') [])
       = chat_user TRANSCRIPT_TRIMMED_NOTE # drop 1 example_transcript"
proof
  have "owed [] example_transcript = Some (lit ''c1'' # [])"
    by (simp add: example_transcript_def example_call_def chat_simps)
  then show "well_paired (with_results (fit_transcript \<lparr>tr_print = (\<lambda>_. None), tr_parse = (\<lambda>_. None)\<rparr> example_transcript
      (lit ''c1'') []) [lit ''done''])"
    using parked_transcript_continues by force
  show "pk_messages (fit_transcript \<lparr>tr_print = (\<lambda>_. None), tr_parse = (\<lambda>_. None)\<rparr> example_transcript (lit ''c1'') [])
       = chat_user TRANSCRIPT_TRIMMED_NOTE # drop 1 example_transcript"
    by (simp add: fit_transcript_def fit_messages.simps transcript_fits_def next_turn_def example_transcript_def chat_simps upt_rec)
qed

section \<open>A procedure\<close>

definition example_skill_parts :: SkillRevisionParts where
  "example_skill_parts = \<lparr>srp_skill_id = replicate 36 49, srp_workspace_id = replicate 36 99,
     srp_revision_id = replicate 36 50, srp_version = lit ''1'', srp_description = lit ''Send the report'',
     srp_steps = [\<lparr>step_position = 1, step_tool = lit ''gmail.send'', step_tool_version = lit ''1.0'',
        step_instruction = lit ''send''\<rparr>],
     srp_source = \<lparr>msrc_kind = ModelInference, msrc_locator = lit ''run'', msrc_trust = Mem_Derived,
        msrc_excerpt_hash = None\<rparr>,
     srp_sensitivity = Internal, srp_state = Skill_Proposed, srp_supersedes = None, srp_dropped_fields = [],
     srp_run_id = None, srp_created_by_actor_id = lit ''agent'', srp_correlation_id = replicate 36 101, srp_created_at = 0\<rparr>"

definition example_skill :: SkillRevision where
  "example_skill = \<lparr>sk_skill_id = replicate 36 49, sk_workspace_id = replicate 36 99,
     sk_revision_id = replicate 36 50, sk_version = lit ''1'', sk_description = lit ''Send the report'',
     sk_steps = srp_steps example_skill_parts, sk_source = srp_source example_skill_parts,
     sk_sensitivity = Internal, sk_state = Skill_Proposed, sk_supersedes = None, sk_superseded_by = None,
     sk_dropped_fields = [], sk_promoted_by_actor_id = None, sk_promoted_at = None, sk_run_id = None,
     sk_created_by_actor_id = lit ''agent'', sk_correlation_id = replicate 36 101, sk_created_at = 0, sk_updated_at = 0\<rparr>"

lemma example_skill_new: "SkillRevision_new example_skill_parts = Ok example_skill"
proof -
  have "trim (lit ''Send the report'') = lit ''Send the report''" by (simp add: trim_def lit_def is_whitespace_def)
  then show ?thesis
    by (simp add: SkillRevision_new_def SkillRevision_build_def example_skill_parts_def example_skill_def Let_def
        is_model_produced_def MAX_SKILL_DESCRIPTION_CHARS_def MAX_SKILL_VERSION_CHARS_def MAX_SKILL_STEPS_def
        MAX_SKILL_DROPPED_FIELDS_def)
qed

lemma example_promoted:
  "\<exists>r. promote_revision example_skill (lit ''owner'') 5 = Ok r \<and> sk_state r = Skill_Active
    \<and> sk_promoted_by_actor_id r = Some (lit ''owner'')"
proof -
  have "sk_state example_skill = Skill_Proposed" "sk_created_by_actor_id example_skill = lit ''agent''"
    by (simp_all add: example_skill_def)
  moreover have "trim (lit ''owner'') = lit ''owner''" by (simp add: trim_def lit_def is_whitespace_def)
  ultimately show ?thesis by (simp add: promote_revision_def Let_def MAX_APPROVER_ID_CHARS_def)
qed

theorem agent_skill_promoted_by_another_witness:
  "\<exists>r. promote_revision example_skill (lit ''owner'') 5 = Ok r \<and> skill_wf r \<and> sk_state r = Skill_Active
    \<and> (\<exists>a. sk_promoted_by_actor_id r = Some a \<and> a \<noteq> lit ''agent'')"
proof -
  obtain r where r: "promote_revision example_skill (lit ''owner'') 5 = Ok r" "sk_state r = Skill_Active"
      "sk_promoted_by_actor_id r = Some (lit ''owner'')"
    using example_promoted by blast
  have "skill_step\<^sup>*\<^sup>* example_skill r" using promoted [OF r(1)] by blast
  from agent_skill_promoted_by_another [OF example_skill_new this] r show ?thesis
    by (auto simp: example_skill_parts_def is_model_produced_def)
qed

definition example_query :: SkillQuery where
  "example_query = \<lparr>skq_workspace_id = replicate 36 99, skq_destination = Internal, skq_text = []\<rparr>"



section \<open>A project\<close>

definition example_new_project :: NewProject where
  "example_new_project = \<lparr>npr_name = lit ''Garden'', npr_goal = [], npr_guidance = [], npr_folder = [],
     npr_daily_run_limit = 0, npr_daily_token_limit = 0\<rparr>"

definition no_projects :: project_db where
  "no_projects = \<lparr>pdb_projects = [], pdb_notes = [], pdb_links = []\<rparr>"

definition garden :: StoredProject where
  "garden = \<lparr>prj_id = replicate 36 55, prj_workspace_id = replicate 36 99, prj_name = lit ''Garden'', prj_goal = [],
     prj_guidance = [], prj_folder = [], prj_status = Project_Active, prj_daily_run_limit = 0,
     prj_daily_token_limit = 0, prj_created_at = 0, prj_updated_at = 0\<rparr>"

lemma example_create:
  "fst (create_project (\<lambda>_. True) no_projects (replicate 36 55) (replicate 36 99) example_new_project 0)
     = no_projects\<lparr>pdb_projects := [garden]\<rparr>"
proof -
  have "trim (lit ''Garden'') = lit ''Garden''" by (simp add: trim_def lit_def is_whitespace_def)
  moreover have "\<not> list_ex is_control (lit ''Garden'')" by (simp add: lit_def is_control_def)
  moreover have "check_folder [] = Ok []" by (simp add: check_folder_def)
  ultimately show ?thesis
    by (simp add: create_project_def check_name_def check_text_def check_limit_def check_token_limit_def Let_def
        example_new_project_def MAX_NAME_CHARS_def name_taken_def garden_def no_projects_def)
qed

lemma example_create_step: "projects_step no_projects (no_projects\<lparr>pdb_projects := [garden]\<rparr>)"
  using projects_step.intros(1) [of no_projects "\<lambda>_. True" "replicate 36 55" "replicate 36 99" example_new_project 0]
  by (simp only: example_create)


definition garden_note :: StoredProjectNote where
  "garden_note = \<lparr>pnote_id = replicate 36 56, pnote_project_id = replicate 36 55, pnote_kind = Note_Decision,
     pnote_body = lit ''no lawn'', pnote_run_id = None, pnote_created_at = 0\<rparr>"

definition garden_db :: project_db where
  "garden_db = \<lparr>pdb_projects = [garden], pdb_notes = [garden_note],
     pdb_links = [((Link_Session, replicate 36 98), replicate 36 55)]\<rparr>"

lemma garden_inv: "projects_inv garden_db"
  by (simp add: projects_inv_def garden_db_def garden_def garden_note_def project_ok_def folder_ok_def lit_def is_control_def
      MAX_NAME_CHARS_def MAX_NOTE_CHARS_def)

theorem project_run_sees_journal_witness:
  "\<exists>pc journal. ProjectContext_load (\<lambda>_. []) garden_db (sub_agent_run\<lparr>run_is_delegated := False\<rparr>) = Some pc
    \<and> pctx_journal pc = Some journal"
proof -
  let ?r = "sub_agent_run\<lparr>run_is_delegated := False\<rparr>"
  have "project_for garden_db Link_Session (run_session_id ?r) = Some garden" "\<not> run_is_delegated ?r"
    by (simp_all add: project_for_def garden_db_def sub_agent_run_def garden_def)
  moreover have "recent_project_notes garden_db (prj_id garden) JOURNAL_NOTES = [] @ [garden_note]"
    by (simp add: recent_project_notes_def garden_db_def garden_def garden_note_def JOURNAL_NOTES_def)
  moreover have "\<not> list_ex is_control (prj_id garden)" by (simp add: garden_def list_ex_iff is_control_def)
  ultimately show ?thesis using project_run_sees_journal [OF garden_inv, of ?r garden "[]" garden_note "\<lambda>_. []"] by blast
qed

theorem project_workspaces_apart_witness:
  "of_workspace (replicate 36 99) (fst (delete_project garden_db (replicate 36 98) (prj_id garden))) = [garden]"
proof -
  have "replicate 36 99 \<noteq> (replicate 36 98 :: nat list)" by simp
  from project_workspaces_apart [OF garden_inv this]
  have "of_workspace (replicate 36 99) (fst (delete_project garden_db (replicate 36 98) (prj_id garden)))
      = of_workspace (replicate 36 99) garden_db" by blast
  then show ?thesis by (simp add: of_workspace_def garden_db_def garden_def)
qed

section \<open>A request\<close>

definition example_env :: "real context_env" where
  "example_env = \<lparr>cx_unicode = ascii_tables, cx_lower_char = (\<lambda>c. [c]), cx_floats = sample_f32, cx_stamp = (\<lambda>_. []),
     cx_clock_line = (\<lambda>_. lit ''Monday''), cx_parse_id = Some, cx_json_text = (\<lambda>_. [])\<rparr>"

definition example_tables :: context_tables where
  "example_tables = \<lparr>ct_messages = [], ct_memories = empty_memory_db, ct_skills = [], ct_projects = no_projects\<rparr>"

lemma str_len_le: "str_len s \<le> 4 * length s"
  using utf8_width_bounds(2) by (induction s) (auto intro: add_mono)

lemma policy_tokens: "str_len SYSTEM_POLICY \<le> 12000"
proof -
  have "length SYSTEM_POLICY \<le> 3000" by (simp add: SYSTEM_POLICY_def)
  with str_len_le [of SYSTEM_POLICY] show ?thesis by linarith
qed

lemma estimate_bound: "str_len t \<le> n \<Longrightarrow> 0 < n \<Longrightarrow> n < 2 ^ 32 \<Longrightarrow> unat (estimate_tokens t) \<le> n"
  by (auto simp: estimate_tokens_def u32_saturating_def max_def unat_of_nat take_bit_nat_eq_self split: if_splits)

lemma estimate_not_0: "estimate_tokens t \<noteq> 0"
  by (auto simp: estimate_tokens_def max_def)

lemma example_policy:
  "\<exists>p. policy_item = Ok p \<and> unat (token_estimate p) \<le> 12000"
  using estimate_bound [OF policy_tokens] estimate_not_0 [of SYSTEM_POLICY]
  by (simp add: policy_item_def context_item_def ContextSource_new_def ContextItem_new_def Let_def lit_def
      MAX_SOURCE_REFERENCE_CHARS_def is_control_def is_external_def)

lemma example_objective:
  "\<exists>i. objective_item (lit ''count'') = Ok i \<and> unat (token_estimate i) \<le> 5"
proof -
  have "objective_for_model (lit ''count'') = lit ''count''" by (simp add: objective_for_model_def INLINE_CHARS_def)
  moreover have "str_len (lit ''count'') \<le> 5" by (simp add: lit_def utf8_width_def)
  moreover have "objective_reference (lit ''count'') = lit ''objective:count''"
    by (simp add: objective_reference_def lit_def is_whitespace_def is_control_def truncate_text_def
        MAX_OBJECTIVE_REFERENCE_CHARS_def)
  ultimately show ?thesis
    using estimate_bound [of "lit ''count''" 5] estimate_not_0 [of "lit ''count''"]
    by (simp add: objective_item_def context_item_def ContextSource_new_def ContextItem_new_def Let_def
        MAX_SOURCE_REFERENCE_CHARS_def is_external_def) (simp add: lit_def is_control_def)
qed

lemma example_recall:
  "\<exists>rc. recall_with_report alnum lower arith stamp empty_memory_db workspace objective now destination = Ok rc
    \<and> mrc_memories rc = []"
proof -
  have "read_task_memory_candidates alnum lower empty_memory_db q CANDIDATES = Ok []" for q
    by (simp add: read_task_memory_candidates_def CANDIDATES_def MAX_RECALL_CANDIDATES_def empty_memory_db_def
        task_order_def recall_pages.simps [of _ _ "[]"] PAGE_SIZE_def attach_entity_links_def Let_def)
  then show ?thesis by (simp add: recall_with_report_def Let_def memory_rank_eq)
qed

lemma example_gathered: "\<exists>g. gather_context example_env example_tables (Ok Place_Local) None sub_agent_run 5 = Ok g"
proof -
  obtain p i rc where parts: "policy_item = Ok p" "unat (token_estimate p) \<le> 12000"
      "objective_item (lit ''count'') = Ok i" "unat (token_estimate i) \<le> 5"
      "recall_with_report (uni_alphanumeric ascii_tables) (\<lambda>c. [c]) sample_f32 (\<lambda>_. []) empty_memory_db (replicate 36 99)
        (lit ''count'') 5 Restricted = Ok rc" "mrc_memories rc = []"
    using example_policy example_objective example_recall by metis
  have history: "load_history [] sub_agent_run = Ok []"
    by (simp add: load_history_def read_recent_messages_def MAX_HISTORY_TURNS_def MAX_MESSAGE_PAGE_def session_rows_def
        List.map_filter_simps)
  have skills: "load_skills ascii_tables [] sub_agent_run (replicate 36 99) Restricted None = Ok []"
    by (simp add: load_skills_def read_usable_skill_revisions_def select_skills_def recent_first_def Let_def)
  have project: "ProjectContext_load (\<lambda>_. []) no_projects sub_agent_run = None"
    by (simp add: ProjectContext_load_def project_for_def no_projects_def sub_agent_run_def)
  obtain b where budget: "context_budget = Ok b" "unat (ContextBudget.total_tokens b) = 64000"
    by (simp add: context_budget_def ContextBudget_new_def TOTAL_CONTEXT_TOKENS_def RESERVED_POLICY_TOKENS_def
        RESERVED_USER_INTENT_TOKENS_def PER_SOURCE_CAP_TOKENS_def)
  obtain m where manifest: "assemble_context [p, i] b Restricted = Ok m"
    using parts(2,4) budget(2) by (simp add: assemble_context_def)
  have run: "run_objective sub_agent_run = lit ''count''" "run_workspace_id sub_agent_run = replicate 36 99"
    by (simp_all add: sub_agent_run_def)
  have env: "cx_unicode example_env = ascii_tables"
    "cx_lower_char example_env = (\<lambda>c. [c])" "cx_floats example_env = sample_f32" "cx_stamp example_env = (\<lambda>_. [])"
    "cx_parse_id example_env = Some" "ct_messages example_tables = []" "ct_memories example_tables = empty_memory_db"
    "ct_skills example_tables = []" "ct_projects example_tables = no_projects"
    "destination_ceiling (Ok Place_Local) = Restricted"
    by (simp_all add: example_env_def ascii_tables_def example_tables_def destination_ceiling_def)
  show ?thesis
    unfolding gather_context_def Let_def env run budget(1) parts(1,3,5) history skills project
    by (simp add: parts(5,6) skills manifest)
qed

theorem run_request_confined_witness:
  "\<exists>g before. gather_context example_env example_tables (Ok Place_Local) None sub_agent_run 5 = Ok g
    \<and> messages_from_manifest example_env g (run_objective sub_agent_run) 6
      = Ok (chat_system (SYSTEM_POLICY @ [32] @ lit ''Monday'') # before @ [chat_user (lit ''count'')])"
proof -
  obtain g where g: "gather_context example_env example_tables (Ok Place_Local) None sub_agent_run 5 = Ok g"
    using example_gathered by blast
  have "objective_for_model (run_objective sub_agent_run) = lit ''count''"
    by (simp add: objective_for_model_def INLINE_CHARS_def sub_agent_run_def)
  moreover have "cx_clock_line example_env 6 = lit ''Monday''" by (simp add: example_env_def)
  ultimately show ?thesis using run_request_confined [OF g, of 6] g by fastforce
qed

end
