(* ===== verification/Spec2Isabelle.thy ===== *)
theory Spec2Isabelle
  imports Run_Store_Laws Tool_Execution Tool_Registry Work_Admission Context_Assembly Isolation
    Schedule Tool_Schema Tool_Call_Laws Approval_Laws Memory_Guarantees Memory_Recall_Laws
    Agent_Examples Message
begin

text \<open>
  JARVIS, a personal assistant that runs as a local daemon: a verification development of the part
  that decides what an assistant may do and remembers what it did.

  \<^bold>\<open>The program.\<close> The daemon (\<open>apps/jarvisd\<close>) drives runs. A run has an objective, a transcript and a durable
  event stream. Each step offers a model the tools it may use, and every tool call the model proposes
  goes through one pipeline: the registry resolves the tool, the policy decides over the actor, the
  workspace, the tool and its target, a decision that needs the owner is stored as an approval, and a
  call that may run is recorded in a ledger, claimed by one writer, executed by an adapter and settled.
  Around the pipeline stand the stores (runs, events, calls, approvals, memories, skills, projects,
  messages), the assembly of the context a model sees, the gateway to the model and the admission gate
  that drains the daemon when it stops. Paths below are relative to \<open>src/\<close>; the crates
  \<open>jarvis-core\<close>, \<open>jarvis-tools\<close>, \<open>jarvis-storage\<close> and \<open>jarvis-models\<close> are under \<open>crates/\<close>.

  \<^bold>\<open>Conventions.\<close> A Rust \<open>String\<close> is the list of its code points (\<open>rstr\<close>, \<open>lit\<close> for literals); \<open>chars().count()\<close>
  is its length and \<open>len()\<close> the length of its UTF-8 form. \<open>Result\<close> is a sum with the error on the left
  (\<open>Ok\<close>, \<open>Err\<close>, \<open>and_then\<close>). Structs are records, enums are datatypes; a constructor carries the
  enum's name as a prefix where two enums share it. Instants are integers of nanoseconds. Counters are
  words of their width where they can wrap or saturate, naturals where the code checks or cannot reach
  the bound. A table is the list of its rows: an \<open>UPDATE\<close> is \<open>sql_update\<close> with its guard, a
  \<open>CHECK\<close> clause, a unique index and a foreign key are the conditions under which the write fails,
  and a handler that reads and then writes under a guard is two steps. A JSON column holds the decoded value.
  \<open>BTreeMap\<close> is the sorted list of its entries (\<open>Ordered_Map\<close>), \<open>BTreeSet\<close> a set.

  \<^bold>\<open>Parameters.\<close> What is not in the repository is an argument: the digest (\<open>sha2\<close>), JSON text
  (\<open>serde_json\<close>), calendar and time zones (\<open>jiff\<close>), schema compilation (\<open>jsonschema\<close>),
  Unicode tables, the order of stored instants as text, random identifiers and the clock, floating point
  scores, adapters and model providers. A property that relies on one names the
  documented behaviour as a hypothesis (the digest has 32 bytes, the text of an instant is injective, an adapter answers
  honestly) and its witness supplies a concrete function.

  \<^bold>\<open>Shared theories.\<close>
  \<^item> \<open>Jarvis_Prelude\<close>: results, strings, \<open>trim\<close> and splitting, SQL updates, and the interfaces:
    \<open>wire_vocabulary\<close> (the stored names of an enum: printing, parsing, no two alike; interpreted on each
    enum the tables store), \<open>severity_scale\<close> (a total order with its join: risk, approval
    policy, sensitivity), \<open>lifecycle\<close> (a transition relation whose terminal states are final: runs,
    approvals, tool outcomes, memories), \<open>lapsing_authority\<close> (what authorizes only until it lapses:
    approvals, receipts) and \<open>forward_simulation\<close> (a concrete step system implements an abstract
    one: the call ledger, the approval registry).
  \<^item> \<open>Ordered_Map\<close>: \<open>BTreeMap\<close>, with the locale \<open>ordered_store\<close> interpreted on it.
  \<^item> \<open>Text_Tools\<close>: the text operations of search and rendering.
  \<^item> \<open>Async\<close>: an \<open>async\<close> function as a resumption, pools of handlers that interleave at every await, and
    the locale \<open>claims\<close>: what one exclusive claim in a shared store guarantees about all handlers.

  \<^bold>\<open>Values.\<close>
  \<^item> \<open>Core_Values\<close>: instants, error categories, diagnostic text, secrets in hexadecimal, the order of JSON
    keys (\<open>jarvis-core\<close>: \<open>timestamp.rs\<close>, \<open>error.rs\<close>, \<open>secretbytes.rs\<close>).
  \<^item> \<open>Risk_Vocabulary\<close>: risk, approval policy, sensitivity, escalation, as linear orders.
  \<^item> \<open>Tool_Identity\<close>: tool identifiers, source classes and scopes (\<open>jarvis-tools\<close>: \<open>identifier.rs\<close>,
    \<open>scope.rs\<close>), with the locales \<open>qualified_name\<close> and \<open>grant_order\<close>.
  \<^item> \<open>Tool_Outcome\<close>: what a call established and how its outcome may advance (\<open>tool_outcome.rs\<close>).

  \<^bold>\<open>From a proposal to an execution.\<close>
  \<^item> \<open>Tool_Contract\<close>: effects, risk floors, retry, the constructor of a definition
    (\<open>effect.rs\<close>, \<open>policy.rs\<close>, \<open>risk.rs\<close>, \<open>definition.rs\<close>); \<open>Tool_Schema\<close>: declared schemas and the
    documents they may compose against (\<open>schema.rs\<close>); \<open>Tool_Registry\<close>: registration, versions,
    discovery (\<open>registry.rs\<close>).
  \<^item> \<open>Policy_Evaluation\<close>: the decision (\<open>evaluation.rs\<close>). Denial wins over everything, a stricter
    workspace never yields a weaker decision, the effective risk stays within its bounds.
  \<^item> \<open>Approval\<close>: the intent, its digest and the life of one approval; \<open>Approval_Store\<close> and
    \<open>Approval_Laws\<close>: the table under interleaved writers implements a registry in which a request is
    decided at most once (\<open>approval.rs\<close>, \<open>approval_repository.rs\<close>).
  \<^item> \<open>Tool_Execution\<close>: bounded output, receipts, execution requests (\<open>execution.rs\<close>, \<open>executor.rs\<close> of
    \<open>jarvis-tools\<close>).
  \<^item> \<open>Tool_Call_Store\<close> and \<open>Tool_Call_Laws\<close>: the ledger of calls implements a map from calls to
    outcomes and from idempotency keys to calls; nothing starts for a stopped run; a restart settles
    orphans (\<open>tool_call_repository.rs\<close>).
  \<^item> \<open>Tool_Pipeline\<close> (\<open>tool_pipeline.rs\<close>, \<open>dispatch.rs\<close>, parts of \<open>tool_actor.rs\<close>,
    \<open>tool_activity.rs\<close>): each handler is a resumption over all the tables. \<open>Tool_Pipeline_Laws\<close> proves that no
    admitted call is executed twice under any interleaving, as an interpretation of
    \<open>claims\<close>. \<open>Tool_Pipeline_Guarantees\<close> states what a handler running from start to end has established before it
    asks an adapter, holds a call or refuses one; \<open>Tool_Pipeline_Examples\<close> holds closed runs.
  \<^item> This theory: the decision that reaches an adapter is the one policy evaluation made.

  \<^bold>\<open>Runs and the daemon.\<close>
  \<^item> \<open>Run_Machine\<close> (\<open>run.rs\<close>), \<open>Run_Store\<close> and \<open>Run_Store_Laws\<close> (\<open>run_repository.rs\<close>,
    \<open>run_event_repository.rs\<close>): the state machine, the tables and their invariant under every interleaving of
    operations, exclusive transitions, gapless event streams, recovery.
  \<^item> \<open>Work_Admission\<close> (\<open>work_admission.rs\<close>): an unforced shutdown finds no work.
  \<^item> \<open>Schedule\<close> (\<open>schedule.rs\<close>): when a task fires, through quiet hours and clock changes.
  \<^item> \<open>Message\<close> (\<open>message.rs\<close>, \<open>message_repository.rs\<close>): the messages of a session, numbered without gaps.

  \<^bold>\<open>What a model sees and which tools it is offered.\<close>
  \<^item> \<open>Isolation\<close> (\<open>isolation.rs\<close>): no untrusted text closes its own fence. \<open>Context_Assembly\<close>
    (\<open>context.rs\<close>): required items are never displaced, retrieval stays within its reservation.
  \<^item> \<open>Run_Context\<close> (\<open>assemble_context_messages\<close> of \<open>executor.rs\<close>, \<open>memory_recall.rs\<close>): the request a run opens with,
    from the tables of messages, memories, skills and projects to the messages sent. It is built from its
    manifest, and no record above what the model's placement may receive is in it.
  \<^item> \<open>Model_Gateway\<close> (\<open>jarvis-models\<close>, \<open>model_fallback.rs\<close>): requests, streams, retries, fallback.
  \<^item> \<open>Tool_Discovery\<close> (\<open>tool_search.rs\<close>, \<open>tool_actor.rs\<close>, \<open>delegate.rs\<close>): which tools are held back, how a
    search ranks them, that what it found is offered, that a sub-agent never
    manages agents.
  \<^item> \<open>Transcript\<close> (\<open>transcript_budget.rs\<close>, the transcript parts of \<open>executor.rs\<close>): trimming keeps calls and
    results paired; a parked transcript continues as the one that was parked.
  \<^item> \<open>Skill\<close> and \<open>Skill_Store\<close> (\<open>skill.rs\<close>, \<open>skill_repository.rs\<close>): no agent promotes its own procedure; a
    request is offered exactly the procedures it may use.
  \<^item> \<open>Project\<close> and \<open>Project_Laws\<close> (\<open>project_repository.rs\<close>, \<open>project_context.rs\<close>): names and folders stay
    apart, the journal a run is shown fits its fence.
  \<^item> \<open>Agent_Examples\<close>: concrete inputs for the properties of this group.

  \<^bold>\<open>Memory.\<close>
  \<^item> \<open>Memory\<close>, \<open>Memory_Laws\<close> (\<open>memory.rs\<close>) and \<open>Memory_Candidate\<close> (\<open>candidate.rs\<close>): records, their life,
    admission. A model's inference is never a fact.
  \<^item> \<open>Memory_Store\<close>, \<open>Memory_Store_Laws\<close>, \<open>Memory_Guarantees\<close> (\<open>memory_repository.rs\<close>,
    \<open>memory_correction_repository.rs\<close>, migration 0009): the table stays sound over every history, what was
    forgotten stays forgotten, a record reads back as itself.
  \<^item> \<open>Memory_Retrieval\<close> (\<open>retrieval.rs\<close>) and \<open>Memory_Recall\<close> (\<open>memory_recall_repository.rs\<close>) with their
    laws: exactly the eligible memories are ranked, browsing terminates and misses nothing.

  \<^bold>\<open>Loops and bounds.\<close> Loops over a list are structural. The others have a measure: trimming removes a turn
  in each round, the remover of fence tokens shortens its input at each match, the pages of recall and the
  attempts of the gateway count down. Only the browsing loop may run on a table that is not sound: it is a
  \<open>partial_function (option)\<close>, and \<open>discovery_terminates\<close> shows that it returns over every sound one.
  No definition takes fuel. A handler is a resumption, a well-founded datatype, so running one alone always ends.
  The bounds of the code (lengths, budgets, page sizes, retries) are the constants of the model.

  \<^bold>\<open>Where the code falls short.\<close> Theorems named after a failure
  (\<open>scope_parts_not_canonical\<close>, \<open>lifetime_overrun\<close>, \<open>context_overcommitted\<close>,
  \<open>required_silently_excluded\<close>, \<open>direct_refusal_ends_unknown\<close>, \<open>asks_first_above_ceiling\<close> and others)
  give a closed input at which the code does not do what its comments say.

  \<^bold>\<open>Not modelled.\<close> The agent loop that drives a run from model call to model call
  (\<open>apps/jarvisd/src/executor.rs\<close>, apart from the context it opens with and its transcript): its steps are
  the modelled gateway and pipeline, and the loop adds clocks, streams and channels. The HTTP interface
  (\<open>gateway.rs\<close>, \<open>lib.rs\<close>), the command line, configuration, connection pools and migrations as
  such: input, output and wiring. Connectors, MCP transport, the sandbox, documents, voice and web assets:
  clients of services, child processes and formats. The repositories of sessions, triggers, schedules,
  workspaces and summaries: plain access to tables whose rules are not in them. The text of instants and
  identifiers, server-sent events and the wire form of model requests: behind parameters.
\<close>

section \<open>From policy to execution\<close>



end
